(* ===== verification/Prelude.thy ===== *)
theory Prelude
  imports Complex_Main "HOL-Library.Char_ord" "HOL-Library.List_Lexorder" "HOL-Library.Multiset"
begin

text \<open>
  Shared ground of the development: the clock and duration types, Go's strings and the
  functions of package \<open>strings\<close> the sources call, the value type of \<open>map[string]any\<close>,
  and generic lemmas on lists and maps.

  Conventions. A \<open>time.Time\<close> is the number of nanoseconds since Go's zero instant
  (1 January of year 1), so \<open>IsZero\<close> is equality with 0. A \<open>time.Duration\<close> is a number
  of nanoseconds. A \<open>string\<close> is a list of bytes; \<open>TrimSpace\<close>, \<open>ToLower\<close> and \<open>EqualFold\<close>
  treat ASCII text exactly as Go does and leave the bytes of non-ASCII text alone. A Go
  \<open>int\<close> that only counts (retries, hops, versions) is an unbounded \<open>int\<close>; where the width
  of a machine integer matters (the WebSocket frames) the model uses \<open>'n word\<close>.
\<close>

named_theorems go_defs \<open>definitions of Go library functions\<close>

type_synonym time = int
type_synonym duration = int

abbreviation (input) zero_time :: time where
  "zero_time \<equiv> 0"

abbreviation (input) second :: duration where
  "second \<equiv> 1000000000"

abbreviation (input) millisecond :: duration where
  "millisecond \<equiv> 1000000"

section \<open>Package strings\<close>

definition is_space :: "char \<Rightarrow> bool" where
  "is_space c \<longleftrightarrow> c \<in> set [CHR 0x09, CHR 0x0A, CHR 0x0B, CHR 0x0C, CHR 0x0D, CHR 0x20]"

definition TrimSpace :: "string \<Rightarrow> string" where
  "TrimSpace s = rev (dropWhile is_space (rev (dropWhile is_space s)))"

definition lower_char :: "char \<Rightarrow> char" where
  "lower_char c = (if CHR ''A'' \<le> c \<and> c \<le> CHR ''Z'' then char_of (of_char c + 32 :: nat) else c)"

definition upper_char :: "char \<Rightarrow> char" where
  "upper_char c = (if CHR ''a'' \<le> c \<and> c \<le> CHR ''z'' then char_of (of_char c - 32 :: nat) else c)"

definition ToLower :: "string \<Rightarrow> string" where
  "ToLower s = map lower_char s"

definition ToUpper :: "string \<Rightarrow> string" where
  "ToUpper s = map upper_char s"

definition EqualFold :: "string \<Rightarrow> string \<Rightarrow> bool" where
  "EqualFold a b \<longleftrightarrow> ToLower a = ToLower b"

fun HasPrefix :: "string \<Rightarrow> string \<Rightarrow> bool" where
  "HasPrefix s [] = True"
| "HasPrefix [] (p # ps) = False"
| "HasPrefix (c # s) (p # ps) = (c = p \<and> HasPrefix s ps)"

fun Contains :: "string \<Rightarrow> string \<Rightarrow> bool" where
  "Contains [] sub = (sub = [])"
| "Contains (c # s) sub = (HasPrefix (c # s) sub \<or> Contains s sub)"

text \<open>\<open>strings.Split\<close> with a one-byte separator.\<close>

fun split_on :: "char \<Rightarrow> string \<Rightarrow> string list" where
  "split_on sep [] = [[]]"
| "split_on sep (c # s) =
     (if c = sep then [] # split_on sep s
      else (case split_on sep s of [] \<Rightarrow> [[c]] | w # ws \<Rightarrow> (c # w) # ws))"

text \<open>\<open>strings.Join\<close>.\<close>

fun join_with :: "string \<Rightarrow> string list \<Rightarrow> string" where
  "join_with sep [] = []"
| "join_with sep [w] = w"
| "join_with sep (w # ws) = w @ sep @ join_with sep ws"

text \<open>
  \<open>firstNonEmptyString\<close>, declared alike in \<open>delivery/worker_pool.go\<close> and
  \<open>kernel/orchestrator.go\<close>: the first value that is not empty, else the empty string.
\<close>

fun firstNonEmptyString :: "string list \<Rightarrow> string" where
  "firstNonEmptyString [] = []"
| "firstNonEmptyString (v # vs) = (if v \<noteq> [] then v else firstNonEmptyString vs)"

declare is_space_def [go_defs] TrimSpace_def [go_defs] lower_char_def [go_defs]
  upper_char_def [go_defs] ToLower_def [go_defs] ToUpper_def [go_defs] EqualFold_def [go_defs]

section \<open>Decimal and hexadecimal text\<close>

definition digit_char :: "nat \<Rightarrow> char" where
  "digit_char d = char_of (48 + d)"

fun nat_to_string :: "nat \<Rightarrow> string" where
  "nat_to_string n = (if n < 10 then [digit_char n]
     else nat_to_string (n div 10) @ [digit_char (n mod 10)])"

declare nat_to_string.simps [simp del]

definition int_to_string :: "int \<Rightarrow> string" where
  "int_to_string i = (if i < 0 then ''-'' @ nat_to_string (nat (- i)) else nat_to_string (nat i))"

definition hex_digit :: "nat \<Rightarrow> char" where
  "hex_digit d = (if d < 10 then char_of (48 + d) else char_of (87 + d))"

text \<open>\<open>hex.EncodeToString\<close>: two digits per byte.\<close>

definition hex_encode :: "string \<Rightarrow> string" where
  "hex_encode s = concat (map (\<lambda>c. [hex_digit (of_char c div 16), hex_digit (of_char c mod 16)]) s)"

section \<open>Values of type any\<close>

text \<open>
  A \<open>map[string]any\<close> is an association list with distinct keys; Go's iteration order over
  it is unspecified and no definition below depends on the order. A struct stored in an \<open>any\<close>
  is the list of its fields, a slice of structs a list of those.
\<close>

datatype any =
    AnyNil
  | AnyBool bool
  | AnyInt int
  | AnyFloat rat
  | AnyString string
  | AnyStrings "string list"
  | AnyList "any list"
  | AnyMap "(string \<times> any) list"
  | AnyStruct "(string \<times> any) list"
  | AnyStructs "(string \<times> any) list list"

type_synonym go_map = "(string \<times> any) list"

fun map_set :: "string \<Rightarrow> 'v \<Rightarrow> (string \<times> 'v) list \<Rightarrow> (string \<times> 'v) list" where
  "map_set k v [] = [(k, v)]"
| "map_set k v ((k', v') # m) = (if k = k' then (k, v) # m else (k', v') # map_set k v m)"

fun map_delete :: "string \<Rightarrow> (string \<times> 'v) list \<Rightarrow> (string \<times> 'v) list" where
  "map_delete k [] = []"
| "map_delete k ((k', v') # m) = (if k = k' then map_delete k m else (k', v') # map_delete k m)"

text \<open>A two-value type assertion \<open>v.(string)\<close> that falls back to the empty string.\<close>

fun any_string :: "any option \<Rightarrow> string" where
  "any_string (Some (AnyString s)) = s"
| "any_string _ = []"

section \<open>Lemmas on strings\<close>

lemma dropWhile_not_hd: "dropWhile P xs = [] \<or> \<not> P (hd (dropWhile P xs))"
  by (induction xs) auto

lemma TrimSpace_Nil [simp]: "TrimSpace [] = []"
  by (simp add: TrimSpace_def)

lemma set_TrimSpace: "set (TrimSpace s) \<subseteq> set s"
  unfolding TrimSpace_def by (auto dest!: set_dropWhileD)

text \<open>A string that neither starts nor ends with white space is its own trimming.\<close>

definition trimmed :: "string \<Rightarrow> bool" where
  "trimmed s \<longleftrightarrow> (s \<noteq> [] \<longrightarrow> \<not> is_space (hd s) \<and> \<not> is_space (last s))"

lemma dropWhile_id: "xs = [] \<or> \<not> P (hd xs) \<Longrightarrow> dropWhile P xs = xs"
  by (cases xs) auto

lemma TrimSpace_id: "trimmed s \<Longrightarrow> TrimSpace s = s"
  by (cases "s = []") (simp_all add: TrimSpace_def trimmed_def dropWhile_id hd_rev)

lemma trimmed_TrimSpace: "trimmed (TrimSpace s)"
proof -
  define d where "d = dropWhile is_space s"
  define e where "e = dropWhile is_space (rev d)"
  have T: "TrimSpace s = rev e"
    by (simp add: TrimSpace_def d_def e_def)
  show ?thesis
  proof (cases "e = []")
    case True
    then show ?thesis by (simp add: T trimmed_def)
  next
    case False
    then have last_ok: "\<not> is_space (hd e)"
      using dropWhile_not_hd [of is_space "rev d"] unfolding e_def by blast
    obtain p where "rev d = p @ e"
      using takeWhile_dropWhile_id [of is_space "rev d"] by (metis e_def)
    then have "d = rev e @ rev p"
      by (metis rev_append rev_rev_ident)
    then have "hd d = hd (rev e)" and "d \<noteq> []"
      using False by auto
    then have "\<not> is_space (hd (rev e))"
      using dropWhile_not_hd [of is_space s] unfolding d_def by metis
    then show ?thesis
      using False last_ok by (simp add: T trimmed_def hd_rev last_rev)
  qed
qed

lemma TrimSpace_idem [simp]: "TrimSpace (TrimSpace s) = TrimSpace s"
  by (simp add: TrimSpace_id trimmed_TrimSpace)

lemma ToLower_idem: "ToLower (ToLower s) = ToLower s"
proof -
  have "lower_char (lower_char c) = lower_char c" for c
  proof (cases "CHR ''A'' \<le> c \<and> c \<le> CHR ''Z''")
    case True
    then have "65 \<le> (of_char c :: nat)" "(of_char c :: nat) \<le> 90"
      by (auto simp: less_eq_char_def)
    then have "(of_char (char_of (of_char c + 32 :: nat) :: char) :: nat) = of_char c + 32"
      by simp
    then have "\<not> (char_of (of_char c + 32 :: nat) \<le> CHR ''Z'')"
      using \<open>65 \<le> (of_char c :: nat)\<close> by (simp add: less_eq_char_def)
    then show ?thesis using True by (simp add: lower_char_def)
  qed (auto simp: lower_char_def)
  then show ?thesis by (simp add: ToLower_def)
qed

lemma is_space_lower [simp]: "is_space (lower_char c) = is_space c"
proof (cases "CHR ''A'' \<le> c \<and> c \<le> CHR ''Z''")
  case True
  then have n: "65 \<le> (of_char c :: nat)" "(of_char c :: nat) \<le> 90"
    by (auto simp: less_eq_char_def)
  have "\<not> is_space x" if "33 \<le> (of_char x :: nat)" for x
    using that by (auto simp: is_space_def)
  then show ?thesis using True n by (simp add: lower_char_def)
qed (auto simp: lower_char_def)

lemma TrimSpace_ToLower: "TrimSpace (ToLower s) = ToLower (TrimSpace s)"
  by (simp add: TrimSpace_def ToLower_def dropWhile_map rev_map comp_def)

lemma normal_type: "ToLower (TrimSpace (ToLower (TrimSpace s))) = ToLower (TrimSpace s)"
  by (simp add: TrimSpace_ToLower ToLower_idem)

lemma EqualFold_refl [simp]: "EqualFold s s"
  by (simp add: EqualFold_def)

lemma EqualFold_sym: "EqualFold a b \<Longrightarrow> EqualFold b a"
  by (simp add: EqualFold_def)

lemma firstNonEmptyString_neq_Nil: "\<exists>v \<in> set vs. v \<noteq> [] \<Longrightarrow> firstNonEmptyString vs \<noteq> []"
  by (induction vs) auto

lemma HasPrefix_append [simp]: "HasPrefix (p @ s) p"
  by (induction p) auto

lemma HasPrefix_iff: "HasPrefix s p \<longleftrightarrow> (\<exists>t. s = p @ t)"
  by (induction s p rule: HasPrefix.induct) auto

lemma Contains_Nil [simp]: "Contains s []"
  by (cases s) auto

lemma Contains_iff: "Contains s sub \<longleftrightarrow> (\<exists>p t. s = p @ sub @ t)"
proof (induction s)
  case Nil
  then show ?case by auto
next
  case (Cons c s)
  show ?case
  proof
    assume "Contains (c # s) sub"
    then consider "HasPrefix (c # s) sub" | "Contains s sub" by auto
    then show "\<exists>p t. c # s = p @ sub @ t"
    proof cases
      case 1
      then show ?thesis by (metis HasPrefix_iff append_Nil)
    next
      case 2
      then show ?thesis using Cons.IH by (metis append_Cons)
    qed
  next
    assume "\<exists>p t. c # s = p @ sub @ t"
    then obtain p t where e: "c # s = p @ sub @ t" by blast
    show "Contains (c # s) sub"
    proof (cases p)
      case Nil
      then have "HasPrefix (c # s) sub" using e by (auto simp: HasPrefix_iff)
      then show ?thesis by simp
    next
      case (Cons a p')
      then have "s = p' @ sub @ t" using e by simp
      then show ?thesis using Cons.IH by auto
    qed
  qed
qed

section \<open>Decimal text is injective\<close>

lemma digit_char_inj: "d < 10 \<Longrightarrow> e < 10 \<Longrightarrow> digit_char d = digit_char e \<Longrightarrow> d = e"
proof -
  assume "d < 10" "e < 10" "digit_char d = digit_char e"
  then have "of_char (char_of (48 + d) :: char) = (of_char (char_of (48 + e) :: char) :: nat)"
    by (simp add: digit_char_def)
  with \<open>d < 10\<close> \<open>e < 10\<close> show "d = e" by simp
qed

lemma nat_to_string_neq_Nil: "nat_to_string n \<noteq> []"
  by (subst nat_to_string.simps) simp

lemma nat_to_string_inj: "nat_to_string m = nat_to_string n \<Longrightarrow> m = n"
proof (induction m arbitrary: n rule: nat_to_string.induct)
  case (1 m)
  have ne: "nat_to_string (k div 10) \<noteq> []" for k
    by (rule nat_to_string_neq_Nil)
  show ?case
  proof (cases "m < 10")
    case True
    then have "n < 10"
      using "1.prems" ne [of n] nat_to_string.simps [of m] nat_to_string.simps [of n]
      by (auto split: if_splits)
    with True show ?thesis
      using "1.prems" nat_to_string.simps [of m] nat_to_string.simps [of n] digit_char_inj
      by simp
  next
    case False
    have m_eq: "nat_to_string m = nat_to_string (m div 10) @ [digit_char (m mod 10)]"
      using False nat_to_string.simps [of m] by simp
    have "\<not> n < 10"
      using "1.prems" m_eq ne [of m] nat_to_string.simps [of n] by auto
    then have n_eq: "nat_to_string n = nat_to_string (n div 10) @ [digit_char (n mod 10)]"
      using nat_to_string.simps [of n] by simp
    have "nat_to_string (m div 10) = nat_to_string (n div 10)"
      and "digit_char (m mod 10) = digit_char (n mod 10)"
      using "1.prems" m_eq n_eq by auto
    then have "m div 10 = n div 10" and "m mod 10 = n mod 10"
      using "1.IH" False digit_char_inj by auto
    then show ?thesis by (metis div_mult_mod_eq)
  qed
qed

section \<open>Lemmas on maps and lists\<close>

lemma map_of_map_set [simp]: "map_of (map_set k v m) = (map_of m)(k \<mapsto> v)"
  by (induction m) auto

lemma map_of_map_delete [simp]: "map_of (map_delete k m) = (map_of m)(k := None)"
  by (induction m) (auto simp: fun_eq_iff)

lemma map_fst_map_set:
  "map fst (map_set k v m) = (if k \<in> fst ` set m then map fst m else map fst m @ [k])"
  by (induction k v m rule: map_set.induct) auto

lemma map_set_fresh: "k \<notin> fst ` set m \<Longrightarrow> map_set k v m = m @ [(k, v)]"
  by (induction m) auto

lemma distinct_map_set: "distinct (map fst m) \<Longrightarrow> distinct (map fst (map_set k v m))"
  by (simp add: map_fst_map_set)

text \<open>The last \<open>n\<close> elements of a list.\<close>

definition lastn :: "nat \<Rightarrow> 'a list \<Rightarrow> 'a list" where
  "lastn n xs = drop (length xs - n) xs"

lemma length_lastn [simp]: "length (lastn n xs) = min n (length xs)"
  by (auto simp: lastn_def)

lemma lastn_all: "length xs \<le> n \<Longrightarrow> lastn n xs = xs"
  by (simp add: lastn_def)

lemma lastn_snoc: "0 < n \<Longrightarrow> lastn n (lastn n xs @ [x]) = lastn n (xs @ [x])"
proof -
  assume n: "0 < n"
  show ?thesis
  proof (cases "length xs \<le> n")
    case True
    then show ?thesis by (simp add: lastn_all)
  next
    case False
    then have l: "length (lastn n xs) = n" by simp
    have "lastn n (lastn n xs @ [x]) = drop 1 (lastn n xs) @ [x]"
      using l n by (simp add: lastn_def [of n "lastn n xs @ [x]"])
    also have "drop 1 (lastn n xs) = drop (Suc (length xs) - n) xs"
      using False n by (simp add: lastn_def Suc_diff_le)
    finally show ?thesis
      using n by (simp add: lastn_def)
  qed
qed

end
