(* ===== verification/Domain.thy ===== *)
theory Domain
  imports Prelude
begin

text \<open>
  The contracts of \<open>go-core/internal/domain\<close>: every struct as a record with the fields of
  the source in its order (the prefix names the struct, since Isabelle's field names are
  global), every string-typed enumeration as a datatype of its constants. An enumeration
  whose values reach a \<open>default\<close> branch has a last constructor for any other string.
\<close>

section \<open>Enumerations\<close>

datatype AckStatus =
    AckStatusSent | AckStatusQueued | AckStatusReceived | AckStatusValidated
  | AckStatusRetrying | AckStatusAccepted | AckStatusDeadLettered | AckStatusFailed
  | AckStatusOther string

datatype AgentStatus =
    AgentStatusReady | AgentStatusBusy | AgentStatusDegraded | AgentStatusOffline
  | AgentStatusMaintenance | AgentStatusOther string

text \<open>The empty status, which marks a runtime state whose status was never set.\<close>

abbreviation AgentStatusEmpty :: AgentStatus where
  "AgentStatusEmpty \<equiv> AgentStatusOther []"

datatype TaskType =
    TaskTypePlan | TaskTypeCode | TaskTypeReview | TaskTypeTest | TaskTypeDocs | TaskTypeFix
  | TaskTypeResearch | TaskTypeOther string

datatype Priority =
    PriorityLow | PriorityNormal | PriorityHigh | PriorityCritical | PriorityOther string

datatype TaskStatus =
    TaskStatusQueued | TaskStatusAccepted | TaskStatusRejected | TaskStatusWaitingInput
  | TaskStatusRunning | TaskStatusCompleted | TaskStatusDeadLettered | TaskStatusDone
  | TaskStatusFailed | TaskStatusOther string

datatype Complexity =
    ComplexityLow | ComplexityMedium | ComplexityHigh | ComplexityCritical
  | ComplexityOther string

datatype ParallelPlanStatus =
    ParallelPlanStatusPlanned | ParallelPlanStatusRunning | ParallelPlanStatusBlocked
  | ParallelPlanStatusFailed | ParallelPlanStatusCompleted | ParallelPlanStatusOther string

section \<open>Tasks and plans\<close>

record TaskInput =
  ti_Description :: string
  ti_Files :: "string list"
  ti_Constraints :: "string list"
  ti_AcceptanceCriteria :: "string list"

record TaskContext =
  tc_Project :: string
  tc_RepoPath :: string
  tc_Branch :: string

record SupportLane =
  sl_Provider :: string
  sl_ModelName :: string
  sl_Role :: string
  sl_MaxComplexity :: Complexity
  sl_Capabilities :: "string list"
  sl_SupportedTaskTypes :: "TaskType list"
  sl_Reason :: string

record ModelSelection =
  ms_Provider :: string
  ms_ModelName :: string
  ms_Complexity :: Complexity
  ms_RequiresSecondaryReview :: bool
  ms_Reason :: string
  ms_DetectedKeywords :: "string list"
  ms_MatchedHighRiskRules :: "string list"
  ms_MatchedLowRiskExemptions :: "string list"
  ms_SupportLanes :: "SupportLane list"
  ms_SelectionTrace :: go_map

record Task =
  t_ID :: string
  t_SessionID :: string
  t_ParentTaskID :: string
  t_Type :: TaskType
  t_Priority :: Priority
  t_RequiredCapability :: string
  t_AssignedProvider :: string
  t_AssignedModel :: string
  t_Complexity :: Complexity
  t_MemoryScope :: string
  t_MemoryKeys :: "string list"
  t_CachePolicy :: string
  t_Input :: TaskInput
  t_Context :: TaskContext
  t_Dependencies :: "string list"
  t_BranchID :: string
  t_DraftLayer :: string
  t_CheckpointPolicy :: string
  t_ReviewDepth :: int
  t_ResumeToken :: string
  t_EstimatedCost :: rat
  t_ExecutionContract :: go_map
  t_RepoFingerprint :: string
  t_RoutingHints :: go_map
  t_CreatedAt :: time

record TaskAcceptance =
  ta_TaskID :: string
  ta_Status :: TaskStatus
  ta_AgentID :: string
  ta_Complexity :: Complexity
  ta_Reason :: string
  ta_Capability :: string
  ta_Provider :: string
  ta_ModelName :: string
  ta_RequiresSecondaryReview :: bool
  ta_AcceptedAt :: time

record PlanStep =
  ps_ID :: string
  ps_Title :: string
  ps_Capability :: string
  ps_WorkerClass :: string
  ps_ClusterID :: string
  ps_ContextBudget :: int
  ps_ConflictKeys :: "string list"
  ps_Dependencies :: "string list"
  ps_Files :: "string list"

record ExecutionPlan =
  ep_TaskID :: string
  ep_Complexity :: Complexity
  ep_PrimaryCapability :: string
  ep_Selection :: ModelSelection
  ep_Steps :: "PlanStep list"
  ep_CreatedAt :: time

record PlanTaskArtifact =
  pa_TaskID :: string
  pa_Title :: string
  pa_Capability :: string
  pa_WorkerClass :: string
  pa_ClusterID :: string
  pa_ContextBudget :: int
  pa_ConflictKeys :: "string list"
  pa_Provider :: string
  pa_ModelName :: string
  pa_Files :: "string list"
  pa_Dependencies :: "string list"
  pa_BranchID :: string
  pa_DraftLayer :: string
  pa_EstimatedCost :: rat
  pa_Weight :: rat
  pa_ExecutionContract :: go_map

section \<open>Results and agents\<close>

record ResultOutput =
  ro_Summary :: string
  ro_FilesChanged :: "string list"
  ro_CommandsRun :: "string list"
  ro_TestResults :: "go_map list"
  ro_Artifacts :: go_map

record AgentResult =
  ar_TaskID :: string
  ar_AgentID :: string
  ar_Status :: TaskStatus
  ar_Confidence :: rat
  ar_Errors :: "string list"
  ar_NextRecommendations :: "string list"
  ar_Provider :: string
  ar_ModelName :: string
  ar_Output :: ResultOutput
  ar_CompletedAt :: time

record AgentInfo =
  ai_ID :: string
  ai_Type :: string
  ai_Provider :: string
  ai_ModelName :: string
  ai_Capabilities :: "string list"
  ai_Status :: AgentStatus

record AgentRuntimeState =
  rs_AgentID :: string
  rs_Provider :: string
  rs_Status :: AgentStatus
  rs_PriorityScore :: rat
  rs_InFlight :: int
  rs_AgentSlotUsage :: rat
  rs_ModelSlotUsage :: rat
  rs_GlobalSlotUsage :: rat
  rs_ErrorRate :: rat
  rs_DisabledReason :: string
  rs_LastError :: string
  rs_LastProbeStatus :: string
  rs_LastProbeError :: string
  rs_LastProbeLatencyMS :: int
  rs_SuppressedUntil :: "time option"
  rs_UpdatedAt :: time

record WorkflowRecord =
  wf_Task :: Task
  wf_Plan :: ExecutionPlan
  wf_Acceptance :: TaskAcceptance
  wf_Result :: "AgentResult option"
  wf_UpdatedAt :: time

record StreamEvent =
  se_ID :: string
  se_Stream :: string
  se_Topic :: string
  se_Kind :: string
  se_EntityID :: string
  se_Timestamp :: time
  se_Payload :: go_map

section \<open>Providers and modules\<close>

datatype RuntimeTransportMode =
    RuntimeTransportBuffered | RuntimeTransportPseudoRealtime | RuntimeTransportNativeStream
  | RuntimeTransportOther string

record ProviderRuntimeCapabilities =
  rc_Connected :: bool
  rc_NativeStreaming :: bool
  rc_ToolStreaming :: bool
  rc_PatchStreaming :: bool
  rc_TestStreaming :: bool
  rc_MaxParallelRequests :: int
  rc_SupportsCancellation :: bool
  rc_TransportMode :: RuntimeTransportMode
  rc_ObservedAt :: time

record ProviderHealth =
  ph_Provider :: string
  ph_Configured :: bool
  ph_Available :: bool
  ph_Status :: string
  ph_BaseURL :: string
  ph_Error :: string
  ph_ObservedAt :: time
  ph_ProbeQueued :: bool
  ph_CooldownUntil :: "time option"
  ph_RefreshAfter :: "time option"
  ph_RuntimeCapabilities :: "ProviderRuntimeCapabilities option"

record ProviderAPIError =
  xe_Provider :: string
  xe_Model :: string
  xe_Operation :: string
  xe_Endpoint :: string
  xe_EndpointKind :: string
  xe_HTTPStatus :: int
  xe_UpstreamCode :: string
  xe_UpstreamType :: string
  xe_Message :: string
  xe_Retryable :: bool
  xe_Category :: string
  xe_RequestID :: string
  xe_ObservedAt :: time
  xe_LatencyMS :: int

record ProviderModelStatus =
  pm_Provider :: string
  pm_ModelName :: string
  pm_Available :: bool
  pm_Status :: string
  pm_Reason :: string
  pm_InventoryStatus :: string
  pm_TransportStatus :: string
  pm_VerificationStatus :: string
  pm_Transport :: string
  pm_ObservedAt :: time
  pm_IsDefault :: bool
  pm_Metadata :: go_map
  pm_LastHTTPStatus :: int
  pm_LastProbeLatencyMS :: int
  pm_FirstSeenAt :: "time option"
  pm_VerificationStartedAt :: "time option"
  pm_LastStateChangeAt :: "time option"
  pm_LastSuccessAt :: "time option"
  pm_NextVerificationAt :: "time option"
  pm_ExpiresAt :: "time option"
  pm_ConsecutiveFailures :: int
  pm_ConsecutiveSuccesses :: int
  pm_RegistrationAttempts :: int
  pm_PendingCycles :: int
  pm_QueueStatus :: string
  pm_QueuePosition :: int
  pm_VerificationIntervalSec :: int
  pm_LastError :: "ProviderAPIError option"

record ProviderCatalogSnapshot =
  pc_Provider :: string
  pc_ProviderID :: string
  pc_Configured :: bool
  pc_Available :: bool
  pc_Status :: string
  pc_BaseURL :: string
  pc_ModelsEndpoint :: string
  pc_ChatCompletionsEndpoint :: string
  pc_ResponsesEndpoint :: string
  pc_MessagesEndpoint :: string
  pc_MessagesCountTokensEndpoint :: string
  pc_CodexEndpoint :: string
  pc_DefaultModel :: string
  pc_Models :: "ProviderModelStatus list"
  pc_Error :: string
  pc_ObservedAt :: time
  pc_RefreshIntervalSec :: int
  pc_RuntimeCapabilities :: "ProviderRuntimeCapabilities option"

record ModuleInfo =
  mi_Name :: string
  mi_Kind :: string
  mi_Metadata :: go_map

section \<open>Delivery envelopes\<close>

record TaskPayload =
  tp_Objective :: string
  tp_InputData :: go_map
  tp_Context :: go_map
  tp_AcceptanceCriteria :: "string list"
  tp_ExpectedOutputFormat :: string
  tp_Artifacts :: "string list"

record TaskEnvelope =
  te_ProtocolVersion :: string
  te_TaskID :: string
  te_ParentTaskID :: string
  te_TraceID :: string
  te_CorrelationID :: string
  te_SourceAgent :: string
  te_TargetAgent :: string
  te_TargetCapability :: string
  te_Priority :: string
  te_QOSClass :: string
  te_TTL :: int
  te_Deadline :: "time option"
  te_HopCount :: int
  te_MaxHops :: int
  te_RetryCount :: int
  te_MaxRetries :: int
  te_SecurityPolicy :: string
  te_ContextScope :: string
  te_Dependencies :: "string list"
  te_Payload :: TaskPayload
  te_IsDeadLetter :: bool
  te_CreatedAt :: time

record TaskResultEnvelope =
  tr_TaskID :: string
  tr_ParentTaskID :: string
  tr_TraceID :: string
  tr_CorrelationID :: string
  tr_SourceAgent :: string
  tr_TargetAgent :: string
  tr_Status :: TaskStatus
  tr_Result :: AgentResult
  tr_CreatedAt :: time

record MessageAck =
  ma_MessageID :: string
  ma_AckStatus :: AckStatus
  ma_ReceivedBy :: string
  ma_Reason :: string

section \<open>Zero values\<close>

text \<open>A Go struct that is not initialised holds the zero value of each of its fields.\<close>

definition zero_TaskPayload :: TaskPayload where
  "zero_TaskPayload = \<lparr>tp_Objective = [], tp_InputData = [], tp_Context = [],
     tp_AcceptanceCriteria = [], tp_ExpectedOutputFormat = [], tp_Artifacts = []\<rparr>"

definition zero_TaskEnvelope :: TaskEnvelope where
  "zero_TaskEnvelope = \<lparr>te_ProtocolVersion = [], te_TaskID = [], te_ParentTaskID = [],
     te_TraceID = [], te_CorrelationID = [], te_SourceAgent = [], te_TargetAgent = [],
     te_TargetCapability = [], te_Priority = [], te_QOSClass = [], te_TTL = 0,
     te_Deadline = None, te_HopCount = 0, te_MaxHops = 0, te_RetryCount = 0,
     te_MaxRetries = 0, te_SecurityPolicy = [], te_ContextScope = [], te_Dependencies = [],
     te_Payload = zero_TaskPayload, te_IsDeadLetter = False, te_CreatedAt = zero_time\<rparr>"

definition zero_MessageAck :: MessageAck where
  "zero_MessageAck = \<lparr>ma_MessageID = [], ma_AckStatus = AckStatusOther [], ma_ReceivedBy = [],
     ma_Reason = []\<rparr>"

definition zero_TaskInput :: TaskInput where
  "zero_TaskInput = \<lparr>ti_Description = [], ti_Files = [], ti_Constraints = [],
     ti_AcceptanceCriteria = []\<rparr>"

definition zero_TaskContext :: TaskContext where
  "zero_TaskContext = \<lparr>tc_Project = [], tc_RepoPath = [], tc_Branch = []\<rparr>"

definition zero_Task :: Task where
  "zero_Task = \<lparr>t_ID = [], t_SessionID = [], t_ParentTaskID = [], t_Type = TaskTypeOther [],
     t_Priority = PriorityOther [], t_RequiredCapability = [], t_AssignedProvider = [],
     t_AssignedModel = [], t_Complexity = ComplexityOther [], t_MemoryScope = [],
     t_MemoryKeys = [], t_CachePolicy = [], t_Input = zero_TaskInput,
     t_Context = zero_TaskContext, t_Dependencies = [], t_BranchID = [], t_DraftLayer = [],
     t_CheckpointPolicy = [], t_ReviewDepth = 0, t_ResumeToken = [], t_EstimatedCost = 0,
     t_ExecutionContract = [], t_RepoFingerprint = [], t_RoutingHints = [],
     t_CreatedAt = zero_time\<rparr>"

definition zero_AgentRuntimeState :: AgentRuntimeState where
  "zero_AgentRuntimeState = \<lparr>rs_AgentID = [], rs_Provider = [], rs_Status = AgentStatusEmpty,
     rs_PriorityScore = 0, rs_InFlight = 0, rs_AgentSlotUsage = 0, rs_ModelSlotUsage = 0,
     rs_GlobalSlotUsage = 0, rs_ErrorRate = 0, rs_DisabledReason = [], rs_LastError = [],
     rs_LastProbeStatus = [], rs_LastProbeError = [], rs_LastProbeLatencyMS = 0,
     rs_SuppressedUntil = None, rs_UpdatedAt = zero_time\<rparr>"

text \<open>An envelope used in the concrete instances below.\<close>

definition example_envelope :: TaskEnvelope where
  "example_envelope = zero_TaskEnvelope\<lparr>te_TaskID := ''t1'', te_TargetAgent := ''coder''\<rparr>"

end
