(* ===== verification/MessageBus.thy ===== *)
theory MessageBus
  imports Domain
begin

text \<open>
  The in-memory message bus, \<open>go-core/internal/delivery/message_bus.go\<close>.

  Each exported method is one function on the bus state, so a sequence of calls is a
  composition of functions. A channel of capacity one (\<open>queueSignals\<close>, \<open>taskSignal\<close>,
  \<open>resultSignal\<close>) is a flag: does the channel hold its token. The goroutines of the
  \<open>Consume...Deliveries\<close> methods and the two critical sections of \<open>SendEnvelope\<close> are modelled
  as step relations in theory \<open>BusConcurrency\<close>.
\<close>

section \<open>State\<close>

record MessageBus =
  mb_queues :: "string \<Rightarrow> TaskEnvelope list"
  mb_tasks :: "Task list"
  mb_results :: "TaskResultEnvelope list"
  mb_acks :: "string \<Rightarrow> MessageAck list"
  mb_unacked :: "string \<rightharpoonup> TaskEnvelope"
  mb_deadLetters :: "TaskEnvelope list"
  mb_queueSignals :: "string \<rightharpoonup> bool"
  mb_taskSignal :: bool
  mb_resultSignal :: bool

definition NewMessageBus :: MessageBus where
  "NewMessageBus = \<lparr>mb_queues = (\<lambda>_. []), mb_tasks = [], mb_results = [],
     mb_acks = (\<lambda>_. []), mb_unacked = Map.empty, mb_deadLetters = [],
     mb_queueSignals = Map.empty, mb_taskSignal = False, mb_resultSignal = False\<rparr>"

definition BrokerManaged :: "MessageBus \<Rightarrow> bool" where
  "BrokerManaged b = False"

section \<open>Signals\<close>

text \<open>\<open>queueSignal\<close> returns the channel of a topic and creates it, without a token, on first use.\<close>

definition queueSignal :: "string \<Rightarrow> MessageBus \<Rightarrow> MessageBus" where
  "queueSignal topic b =
     (case mb_queueSignals b topic of
        None \<Rightarrow> b\<lparr>mb_queueSignals := (mb_queueSignals b)(topic \<mapsto> False)\<rparr>
      | Some _ \<Rightarrow> b)"

text \<open>\<open>notifySignal\<close> is a non-blocking send: it fills an empty channel and leaves a full one.\<close>

definition notifyQueueSignal :: "string \<Rightarrow> MessageBus \<Rightarrow> MessageBus" where
  "notifyQueueSignal topic b = b\<lparr>mb_queueSignals := (mb_queueSignals b)(topic \<mapsto> True)\<rparr>"

definition notifyTaskSignal :: "MessageBus \<Rightarrow> MessageBus" where
  "notifyTaskSignal b = b\<lparr>mb_taskSignal := True\<rparr>"

definition notifyResultSignal :: "MessageBus \<Rightarrow> MessageBus" where
  "notifyResultSignal b = b\<lparr>mb_resultSignal := True\<rparr>"

text \<open>
  The \<open>waitFor...\<close> methods. \<open>WaitBlocked\<close> is a caller that stays in the \<open>select\<close>; the argument
  \<open>done\<close> says that the \<open>select\<close> takes its \<open>ctx.Done()\<close> case.
\<close>

datatype WaitOutcome = WaitReady | WaitCancelled | WaitBlocked

definition waitForEnvelope :: "bool \<Rightarrow> string \<Rightarrow> MessageBus \<Rightarrow> WaitOutcome \<times> MessageBus" where
  "waitForEnvelope done topic b =
     (if mb_queues b topic \<noteq> [] then (WaitReady, b)
      else let b = queueSignal topic b in
        if done then (WaitCancelled, b)
        else if mb_queueSignals b topic = Some True
          then (WaitReady, b\<lparr>mb_queueSignals := (mb_queueSignals b)(topic \<mapsto> False)\<rparr>)
        else (WaitBlocked, b))"

definition waitForTasks :: "bool \<Rightarrow> MessageBus \<Rightarrow> WaitOutcome \<times> MessageBus" where
  "waitForTasks done b =
     (if mb_tasks b \<noteq> [] then (WaitReady, b)
      else if done then (WaitCancelled, b)
      else if mb_taskSignal b then (WaitReady, b\<lparr>mb_taskSignal := False\<rparr>)
      else (WaitBlocked, b))"

definition waitForResults :: "bool \<Rightarrow> MessageBus \<Rightarrow> WaitOutcome \<times> MessageBus" where
  "waitForResults done b =
     (if mb_results b \<noteq> [] then (WaitReady, b)
      else if done then (WaitCancelled, b)
      else if mb_resultSignal b then (WaitReady, b\<lparr>mb_resultSignal := False\<rparr>)
      else (WaitBlocked, b))"

section \<open>Topic queues\<close>

definition AgentTopic :: "string \<Rightarrow> string" where
  "AgentTopic agentID = (if agentID = [] then ''orchestrator.inbox''
     else ''agent.'' @ agentID @ ''.inbox'')"

definition Publish :: "string \<Rightarrow> TaskEnvelope \<Rightarrow> MessageBus \<Rightarrow> MessageBus" where
  "Publish topic envelope b =
     (let b = b\<lparr>mb_queues := (mb_queues b)(topic := mb_queues b topic @ [envelope])\<rparr>;
          b = queueSignal topic b
      in notifyQueueSignal topic b)"

definition requeueFront :: "string \<Rightarrow> TaskEnvelope \<Rightarrow> MessageBus \<Rightarrow> MessageBus" where
  "requeueFront topic envelope b =
     (let b = b\<lparr>mb_queues := (mb_queues b)(topic := envelope # mb_queues b topic)\<rparr>;
          b = queueSignal topic b
      in notifyQueueSignal topic b)"

definition Consume :: "string \<Rightarrow> MessageBus \<Rightarrow> TaskEnvelope option \<times> MessageBus" where
  "Consume topic b =
     (case mb_queues b topic of
        [] \<Rightarrow> (None, b)
      | item # rest \<Rightarrow> (Some item, b\<lparr>mb_queues := (mb_queues b)(topic := rest)\<rparr>))"

text \<open>
  An \<open>EnvelopeDelivery\<close> carries the envelope and, when it comes from a delivery stream, the
  \<open>Ack\<close> and \<open>Nack\<close> closures of its topic (\<open>Some topic\<close>); \<open>runWorker\<close> builds one whose closures
  are nil (\<open>None\<close>). \<open>Ack\<close> does nothing; \<open>Nack(requeue)\<close> puts the envelope back in front.
\<close>

record EnvelopeDelivery =
  ed_Envelope :: TaskEnvelope
  ed_Topic :: "string option"

definition nackEnvelope :: "string \<Rightarrow> TaskEnvelope \<Rightarrow> bool \<Rightarrow> MessageBus \<Rightarrow> MessageBus" where
  "nackEnvelope topic envelope requeue b = (if requeue then requeueFront topic envelope b else b)"

section \<open>Task and result queues\<close>

definition EnqueueTask :: "Task \<Rightarrow> MessageBus \<Rightarrow> MessageBus" where
  "EnqueueTask task b = notifyTaskSignal (b\<lparr>mb_tasks := mb_tasks b @ [task]\<rparr>)"

definition requeueTaskFront :: "Task \<Rightarrow> MessageBus \<Rightarrow> MessageBus" where
  "requeueTaskFront task b = notifyTaskSignal (b\<lparr>mb_tasks := task # mb_tasks b\<rparr>)"

text \<open>The locked section of the loop of \<open>ConsumeTaskDeliveries\<close>: take the head of the queue.\<close>

definition takeTask :: "MessageBus \<Rightarrow> Task option \<times> MessageBus" where
  "takeTask b =
     (case mb_tasks b of
        [] \<Rightarrow> (None, b)
      | task # rest \<Rightarrow> (Some task, b\<lparr>mb_tasks := rest\<rparr>))"

definition nackTask :: "Task \<Rightarrow> bool \<Rightarrow> MessageBus \<Rightarrow> MessageBus" where
  "nackTask task requeue b = (if requeue then requeueTaskFront task b else b)"

definition PublishResult :: "TaskResultEnvelope \<Rightarrow> MessageBus \<Rightarrow> MessageBus" where
  "PublishResult result b = notifyResultSignal (b\<lparr>mb_results := mb_results b @ [result]\<rparr>)"

definition requeueResultFront :: "TaskResultEnvelope \<Rightarrow> MessageBus \<Rightarrow> MessageBus" where
  "requeueResultFront result b = notifyResultSignal (b\<lparr>mb_results := result # mb_results b\<rparr>)"

definition takeResult :: "MessageBus \<Rightarrow> TaskResultEnvelope option \<times> MessageBus" where
  "takeResult b =
     (case mb_results b of
        [] \<Rightarrow> (None, b)
      | result # rest \<Rightarrow> (Some result, b\<lparr>mb_results := rest\<rparr>))"

definition nackResult :: "TaskResultEnvelope \<Rightarrow> bool \<Rightarrow> MessageBus \<Rightarrow> MessageBus" where
  "nackResult result requeue b = (if requeue then requeueResultFront result b else b)"

section \<open>Acknowledgements\<close>

text \<open>The test that \<open>Ack\<close> writes out and \<open>supervisor.go\<close> names \<open>isTerminalStatus\<close>.\<close>

definition isTerminalStatus :: "AckStatus \<Rightarrow> bool" where
  "isTerminalStatus status \<longleftrightarrow>
     status = AckStatusAccepted \<or> status = AckStatusFailed \<or> status = AckStatusDeadLettered"

definition Ack :: "string \<Rightarrow> AckStatus \<Rightarrow> string \<Rightarrow> string \<Rightarrow> MessageBus \<Rightarrow> MessageAck \<times> MessageBus" where
  "Ack messageID status receivedBy reason b =
     (let ack = \<lparr>ma_MessageID = messageID, ma_AckStatus = status, ma_ReceivedBy = receivedBy,
                 ma_Reason = reason\<rparr>;
          b = b\<lparr>mb_acks := (mb_acks b)(messageID := mb_acks b messageID @ [ack])\<rparr>;
          b = (if status = AckStatusAccepted \<or> status = AckStatusFailed
                  \<or> status = AckStatusDeadLettered
               then b\<lparr>mb_unacked := (mb_unacked b)(messageID := None)\<rparr> else b)
      in (ack, b))"

definition MarkDeadLetterEnvelope ::
    "TaskEnvelope \<Rightarrow> string \<Rightarrow> MessageBus \<Rightarrow> MessageAck \<times> MessageBus" where
  "MarkDeadLetterEnvelope envelope reason b =
     (let envelope = envelope\<lparr>te_IsDeadLetter := True\<rparr>;
          b = b\<lparr>mb_deadLetters := mb_deadLetters b @ [envelope],
                 mb_unacked := (mb_unacked b)(te_TaskID envelope := None)\<rparr>
      in Ack (te_TaskID envelope) AckStatusDeadLettered ''dead_letter_queue'' reason b)"

definition SendEnvelope :: "TaskEnvelope \<Rightarrow> MessageBus \<Rightarrow> MessageAck \<times> MessageBus" where
  "SendEnvelope envelope b =
     (if te_MaxHops envelope > 0 \<and> te_HopCount envelope \<ge> te_MaxHops envelope
      then MarkDeadLetterEnvelope envelope ''max_hops_exceeded'' b
      else
        let envelope = envelope\<lparr>te_HopCount := te_HopCount envelope + 1\<rparr>;
            b = Publish (AgentTopic (te_TargetAgent envelope)) envelope b;
            sentAck = \<lparr>ma_MessageID = te_TaskID envelope, ma_AckStatus = AckStatusSent,
                       ma_ReceivedBy = [], ma_Reason = []\<rparr>;
            queuedAck = \<lparr>ma_MessageID = te_TaskID envelope, ma_AckStatus = AckStatusQueued,
                         ma_ReceivedBy = [], ma_Reason = []\<rparr>
        in (queuedAck,
            b\<lparr>mb_unacked := (mb_unacked b)(te_TaskID envelope \<mapsto> envelope),
              mb_acks := (mb_acks b)(te_TaskID envelope :=
                mb_acks b (te_TaskID envelope) @ [sentAck, queuedAck])\<rparr>))"

definition ReceiveForAgent :: "string \<Rightarrow> MessageBus \<Rightarrow> TaskEnvelope option \<times> MessageBus" where
  "ReceiveForAgent agentID b = Consume (AgentTopic agentID) b"

definition AckHistory :: "string \<Rightarrow> MessageBus \<Rightarrow> MessageAck list" where
  "AckHistory messageID b = mb_acks b messageID"

definition Depth :: "string \<Rightarrow> MessageBus \<Rightarrow> nat" where
  "Depth topic b = length (mb_queues b topic)"

definition DeadLetters :: "MessageBus \<Rightarrow> TaskEnvelope list" where
  "DeadLetters b = mb_deadLetters b"

section \<open>Queues as an abstract data type\<close>

text \<open>
  What a consumer of the bus relies on: the three queues are first-in first-out, and an item
  given back by a negative acknowledgement is the next one to be taken.
\<close>

datatype 'a queue_op = Enq 'a | Deq | Unget 'a

fun run_queue :: "('a \<Rightarrow> 's \<Rightarrow> 's) \<Rightarrow> ('s \<Rightarrow> 'a option \<times> 's) \<Rightarrow> ('a \<Rightarrow> 's \<Rightarrow> 's) \<Rightarrow>
    'a queue_op list \<Rightarrow> 's \<Rightarrow> 'a option list \<times> 's" where
  "run_queue enq deq unget [] s = ([], s)"
| "run_queue enq deq unget (Enq x # os) s = run_queue enq deq unget os (enq x s)"
| "run_queue enq deq unget (Unget x # os) s = run_queue enq deq unget os (unget x s)"
| "run_queue enq deq unget (Deq # os) s =
     (let (r, s') = deq s; (rs, t) = run_queue enq deq unget os s' in (r # rs, t))"

definition list_deq :: "'a list \<Rightarrow> 'a option \<times> 'a list" where
  "list_deq xs = (case xs of [] \<Rightarrow> (None, []) | x # rest \<Rightarrow> (Some x, rest))"

abbreviation run_list :: "'a queue_op list \<Rightarrow> 'a list \<Rightarrow> 'a option list \<times> 'a list" where
  "run_list \<equiv> run_queue (\<lambda>x xs. xs @ [x]) list_deq (\<lambda>x xs. x # xs)"

locale fifo =
  fixes contents :: "'s \<Rightarrow> 'a list"
    and enq :: "'a \<Rightarrow> 's \<Rightarrow> 's"
    and deq :: "'s \<Rightarrow> 'a option \<times> 's"
    and unget :: "'a \<Rightarrow> 's \<Rightarrow> 's"
  assumes contents_enq: "contents (enq x s) = contents s @ [x]"
    and contents_unget: "contents (unget x s) = x # contents s"
    and deq_refines: "map_prod id contents (deq s) = list_deq (contents s)"
begin

lemma refines_list:
  "map_prod id contents (run_queue enq deq unget os s) = run_list os (contents s)"
proof (induction os arbitrary: s)
  case Nil
  then show ?case by simp
next
  case (Cons op os)
  show ?case
  proof (cases op)
    case (Enq x)
    then show ?thesis using Cons.IH by (simp add: contents_enq)
  next
    case (Unget x)
    then show ?thesis using Cons.IH by (simp add: contents_unget)
  next
    case Deq
    obtain r s' where d: "deq s = (r, s')" by (cases "deq s")
    have l: "list_deq (contents s) = (r, contents s')"
      using deq_refines [of s] d by simp
    obtain rs t where q: "run_queue enq deq unget os s' = (rs, t)"
      by (cases "run_queue enq deq unget os s'")
    then have "run_list os (contents s') = (rs, contents t)"
      using Cons.IH [of s'] by simp
    then show ?thesis
      using Deq d l q by simp
  qed
qed

lemma outputs_match: "fst (run_queue enq deq unget os s) = fst (run_list os (contents s))"
  using arg_cong [OF refines_list, of fst] by (simp add: map_prod_def split_def)

lemma nack_restores: "deq s = (Some x, s') \<Longrightarrow> contents (unget x s') = contents s"
  using deq_refines [of s] by (auto simp: list_deq_def contents_unget split: list.splits)

end

text \<open>Enqueuing a batch and draining it returns the batch in order.\<close>

lemma run_list_deq_append:
  "run_list (replicate (length xs) Deq) (xs @ ys) = (map Some xs, ys)"
  by (induction xs) (auto simp: list_deq_def)

lemma run_list_enq_append:
  "run_list (map Enq xs @ os) q = run_list os (q @ xs)"
  by (induction xs arbitrary: q) auto

context fifo begin

lemma drain_in_order:
  "fst (run_queue enq deq unget (map Enq xs @ replicate (length (contents s @ xs)) Deq) s)
     = map Some (contents s @ xs)"
proof -
  have "fst (run_queue enq deq unget (map Enq xs @ replicate (length (contents s @ xs)) Deq) s)
     = fst (run_list (replicate (length (contents s @ xs)) Deq) (contents s @ xs))"
    by (simp only: outputs_match run_list_enq_append)
  also have "\<dots> = map Some (contents s @ xs)"
    using run_list_deq_append [of "contents s @ xs" "[]"] by simp
  finally show ?thesis .
qed

end

section \<open>The bus provides three such queues\<close>

named_theorems bus_simps \<open>how each bus operation changes each field\<close>

lemma queueSignal_fields [bus_simps]:
  "mb_queues (queueSignal topic b) = mb_queues b"
  "mb_tasks (queueSignal topic b) = mb_tasks b"
  "mb_results (queueSignal topic b) = mb_results b"
  "mb_acks (queueSignal topic b) = mb_acks b"
  "mb_unacked (queueSignal topic b) = mb_unacked b"
  "mb_deadLetters (queueSignal topic b) = mb_deadLetters b"
  by (simp_all add: queueSignal_def split: option.splits)

lemma Publish_fields [bus_simps]:
  "mb_queues (Publish topic e b) = (mb_queues b)(topic := mb_queues b topic @ [e])"
  "mb_tasks (Publish topic e b) = mb_tasks b"
  "mb_results (Publish topic e b) = mb_results b"
  "mb_acks (Publish topic e b) = mb_acks b"
  "mb_unacked (Publish topic e b) = mb_unacked b"
  "mb_deadLetters (Publish topic e b) = mb_deadLetters b"
  by (simp_all add: Publish_def Let_def notifyQueueSignal_def queueSignal_fields)

lemma requeueFront_fields [bus_simps]:
  "mb_queues (requeueFront topic e b) = (mb_queues b)(topic := e # mb_queues b topic)"
  "mb_tasks (requeueFront topic e b) = mb_tasks b"
  "mb_results (requeueFront topic e b) = mb_results b"
  "mb_acks (requeueFront topic e b) = mb_acks b"
  "mb_unacked (requeueFront topic e b) = mb_unacked b"
  "mb_deadLetters (requeueFront topic e b) = mb_deadLetters b"
  by (simp_all add: requeueFront_def Let_def notifyQueueSignal_def queueSignal_fields)

lemma Consume_fields [bus_simps]:
  "mb_queues (snd (Consume topic b)) = (mb_queues b)(topic := tl (mb_queues b topic))"
  "fst (Consume topic b) = (case mb_queues b topic of [] \<Rightarrow> None | x # _ \<Rightarrow> Some x)"
  "mb_tasks (snd (Consume topic b)) = mb_tasks b"
  "mb_results (snd (Consume topic b)) = mb_results b"
  "mb_acks (snd (Consume topic b)) = mb_acks b"
  "mb_unacked (snd (Consume topic b)) = mb_unacked b"
  "mb_deadLetters (snd (Consume topic b)) = mb_deadLetters b"
  by (auto simp: Consume_def fun_eq_iff split: list.splits)

interpretation topic_queue: fifo "\<lambda>b. mb_queues b topic" "Publish topic" "Consume topic"
    "requeueFront topic"
  for topic
  by unfold_locales
    (auto simp: bus_simps Consume_def list_deq_def split: list.splits)

interpretation task_queue: fifo mb_tasks EnqueueTask takeTask requeueTaskFront
  by unfold_locales
    (auto simp: EnqueueTask_def requeueTaskFront_def takeTask_def notifyTaskSignal_def
      list_deq_def split: list.splits)

interpretation result_queue: fifo mb_results PublishResult takeResult requeueResultFront
  by unfold_locales
    (auto simp: PublishResult_def requeueResultFront_def takeResult_def notifyResultSignal_def
      list_deq_def split: list.splits)

section \<open>Acknowledgement bookkeeping\<close>

lemma Ack_fields [bus_simps]:
  "ma_AckStatus (fst (Ack mid st rb r b)) = st"
  "mb_queues (snd (Ack mid st rb r b)) = mb_queues b"
  "mb_deadLetters (snd (Ack mid st rb r b)) = mb_deadLetters b"
  "mb_acks (snd (Ack mid st rb r b)) = (mb_acks b)(mid := mb_acks b mid @
     [\<lparr>ma_MessageID = mid, ma_AckStatus = st, ma_ReceivedBy = rb, ma_Reason = r\<rparr>])"
  "mb_unacked (snd (Ack mid st rb r b)) =
     (if isTerminalStatus st then (mb_unacked b)(mid := None) else mb_unacked b)"
  by (simp_all add: Ack_def Let_def isTerminalStatus_def)

lemma MarkDeadLetter_fields [bus_simps]:
  "ma_AckStatus (fst (MarkDeadLetterEnvelope e r b)) = AckStatusDeadLettered"
  "mb_queues (snd (MarkDeadLetterEnvelope e r b)) = mb_queues b"
  "mb_deadLetters (snd (MarkDeadLetterEnvelope e r b)) =
     mb_deadLetters b @ [e\<lparr>te_IsDeadLetter := True\<rparr>]"
  "mb_acks (snd (MarkDeadLetterEnvelope e r b)) = (mb_acks b)(te_TaskID e :=
     mb_acks b (te_TaskID e) @ [\<lparr>ma_MessageID = te_TaskID e,
       ma_AckStatus = AckStatusDeadLettered, ma_ReceivedBy = ''dead_letter_queue'',
       ma_Reason = r\<rparr>])"
  "mb_unacked (snd (MarkDeadLetterEnvelope e r b)) = (mb_unacked b)(te_TaskID e := None)"
  by (simp_all add: MarkDeadLetterEnvelope_def Let_def Ack_fields isTerminalStatus_def)

text \<open>
  A message is in flight when its history has a \<open>queued\<close> acknowledgement with no terminal
  one after it.
\<close>

definition in_flight :: "MessageAck list \<Rightarrow> bool" where
  "in_flight history \<longleftrightarrow> AckStatusQueued \<in>
     ma_AckStatus ` set (takeWhile (\<lambda>a. \<not> isTerminalStatus (ma_AckStatus a)) (rev history))"

lemma in_flight_snoc:
  "in_flight (h @ [a]) \<longleftrightarrow> \<not> isTerminalStatus (ma_AckStatus a) \<and>
     (ma_AckStatus a = AckStatusQueued \<or> in_flight h)"
  unfolding in_flight_def by (cases "isTerminalStatus (ma_AckStatus a)") auto

definition bus_inv :: "MessageBus \<Rightarrow> bool" where
  "bus_inv b \<longleftrightarrow>
     (\<forall>mid e. mb_unacked b mid = Some e \<longrightarrow> te_TaskID e = mid \<and> in_flight (mb_acks b mid)) \<and>
     (\<forall>e \<in> set (mb_deadLetters b). te_IsDeadLetter e \<and>
        AckStatusDeadLettered \<in> ma_AckStatus ` set (mb_acks b (te_TaskID e))) \<and>
     (\<forall>mid. \<forall>a \<in> set (mb_acks b mid). ma_MessageID a = mid)"

text \<open>Every call a client can make on the bus, one step each.\<close>

inductive bus_step :: "MessageBus \<Rightarrow> MessageBus \<Rightarrow> bool" where
  step_publish: "bus_step b (Publish topic e b)"
| step_consume: "bus_step b (snd (Consume topic b))"
| step_nack: "bus_step b (nackEnvelope topic e requeue b)"
| step_wait: "bus_step b (snd (waitForEnvelope done topic b))"
| step_enqueue_task: "bus_step b (EnqueueTask t b)"
| step_take_task: "bus_step b (snd (takeTask b))"
| step_nack_task: "bus_step b (nackTask t requeue b)"
| step_wait_tasks: "bus_step b (snd (waitForTasks done b))"
| step_publish_result: "bus_step b (PublishResult r b)"
| step_take_result: "bus_step b (snd (takeResult b))"
| step_nack_result: "bus_step b (nackResult r requeue b)"
| step_wait_results: "bus_step b (snd (waitForResults done b))"
| step_send: "bus_step b (snd (SendEnvelope e b))"
| step_ack: "bus_step b (snd (Ack mid st rb reason b))"
| step_mark: "bus_step b (snd (MarkDeadLetterEnvelope e reason b))"

inductive bus_reachable :: "MessageBus \<Rightarrow> bool" where
  bus_start: "bus_reachable NewMessageBus"
| bus_next: "bus_reachable b \<Longrightarrow> bus_step b c \<Longrightarrow> bus_reachable c"

lemma bus_inv_new: "bus_inv NewMessageBus"
  by (simp add: bus_inv_def NewMessageBus_def)

text \<open>Operations that touch neither acknowledgements nor dead letters keep the invariant.\<close>

lemma bus_inv_frame:
  "bus_inv b \<Longrightarrow> mb_acks c = mb_acks b \<Longrightarrow> mb_unacked c = mb_unacked b \<Longrightarrow>
   mb_deadLetters c = mb_deadLetters b \<Longrightarrow> bus_inv c"
  by (simp add: bus_inv_def)

lemma bus_inv_ack: "bus_inv b \<Longrightarrow> bus_inv (snd (Ack mid st rb r b))"
  unfolding bus_inv_def
  by (auto simp: Ack_fields in_flight_snoc split: if_splits)

lemma bus_inv_mark: "bus_inv b \<Longrightarrow> bus_inv (snd (MarkDeadLetterEnvelope e r b))"
  unfolding bus_inv_def
  by (auto simp: MarkDeadLetter_fields split: if_splits)

lemma SendEnvelope_dead:
  "0 < te_MaxHops e \<Longrightarrow> te_MaxHops e \<le> te_HopCount e \<Longrightarrow>
   SendEnvelope e b = MarkDeadLetterEnvelope e ''max_hops_exceeded'' b"
  by (simp add: SendEnvelope_def)

lemma SendEnvelope_queued:
  assumes "\<not> (0 < te_MaxHops e \<and> te_MaxHops e \<le> te_HopCount e)"
  shows "ma_AckStatus (fst (SendEnvelope e b)) = AckStatusQueued"
    and "ma_Reason (fst (SendEnvelope e b)) = []"
    and "mb_deadLetters (snd (SendEnvelope e b)) = mb_deadLetters b"
    and "mb_unacked (snd (SendEnvelope e b)) =
      (mb_unacked b)(te_TaskID e \<mapsto> e\<lparr>te_HopCount := te_HopCount e + 1\<rparr>)"
    and "map ma_AckStatus (mb_acks (snd (SendEnvelope e b)) (te_TaskID e)) =
      map ma_AckStatus (mb_acks b (te_TaskID e)) @ [AckStatusSent, AckStatusQueued]"
    and "mb_queues (snd (SendEnvelope e b)) =
      (mb_queues b)(AgentTopic (te_TargetAgent e) := mb_queues b (AgentTopic (te_TargetAgent e)) @
        [e\<lparr>te_HopCount := te_HopCount e + 1\<rparr>])"
  using assms by (auto simp: SendEnvelope_def Let_def bus_simps)

lemma bus_inv_send: "bus_inv b \<Longrightarrow> bus_inv (snd (SendEnvelope e b))"
proof (cases "0 < te_MaxHops e \<and> te_MaxHops e \<le> te_HopCount e")
  case True
  then show "bus_inv b \<Longrightarrow> ?thesis"
    by (simp add: SendEnvelope_dead bus_inv_mark)
next
  case False
  have snoc2: "h @ [x, y] = (h @ [x]) @ [y]" for h :: "MessageAck list" and x y
    by simp
  assume "bus_inv b"
  then show ?thesis
    using False unfolding bus_inv_def
    by (auto simp: SendEnvelope_def Let_def bus_simps snoc2 in_flight_snoc isTerminalStatus_def
        simp del: append_assoc append.simps)
qed

lemma bus_step_inv: "bus_step b c \<Longrightarrow> bus_inv b \<Longrightarrow> bus_inv c"
proof (induction rule: bus_step.induct)
  case (step_send b e)
  then show ?case by (simp add: bus_inv_send)
next
  case (step_ack b mid st rb reason)
  then show ?case by (simp add: bus_inv_ack)
next
  case (step_mark b e reason)
  then show ?case by (simp add: bus_inv_mark)
qed (erule bus_inv_frame;
     auto simp: bus_simps nackEnvelope_def waitForEnvelope_def waitForTasks_def
       waitForResults_def Let_def EnqueueTask_def takeTask_def nackTask_def requeueTaskFront_def
       PublishResult_def takeResult_def nackResult_def requeueResultFront_def
       notifyTaskSignal_def notifyResultSignal_def split: list.splits)+

lemma bus_reachable_inv: "bus_reachable b \<Longrightarrow> bus_inv b"
  by (induction rule: bus_reachable.induct) (auto intro: bus_inv_new bus_step_inv)

section \<open>Properties\<close>

text \<open>C37. The three queues of the bus are queues: for every interleaving of publishes, takes and
  negative acknowledgements, the items a topic queue, the task queue and the result queue hand out
  are those a list hands out that is extended at its end, read at its front and given back at its
  front.\<close>

theorem bus_queues_are_fifo:
  "fst (run_queue (Publish topic) (Consume topic) (requeueFront topic) os b) =
     fst (run_list os (mb_queues b topic)) \<and>
   fst (run_queue EnqueueTask takeTask requeueTaskFront ts b) = fst (run_list ts (mb_tasks b)) \<and>
   fst (run_queue PublishResult takeResult requeueResultFront rs b) =
     fst (run_list rs (mb_results b))"
  by (simp only: topic_queue.outputs_match task_queue.outputs_match result_queue.outputs_match)

text \<open>In every bus the client calls can reach, an envelope listed as unacknowledged is filed
  under its own task and was queued with no terminal acknowledgement since, every dead letter is
  marked as one and has a \<open>dead_lettered\<close> acknowledgement, and the history of a message holds
  only acknowledgements of that message.\<close>

theorem bus_bookkeeping:
  assumes "bus_reachable b"
  shows "(\<forall>mid e. mb_unacked b mid = Some e \<longrightarrow> te_TaskID e = mid \<and> in_flight (AckHistory mid b)) \<and>
    (\<forall>e \<in> set (DeadLetters b). te_IsDeadLetter e \<and>
       AckStatusDeadLettered \<in> ma_AckStatus ` set (AckHistory (te_TaskID e) b)) \<and>
    (\<forall>mid. \<forall>a \<in> set (AckHistory mid b). ma_MessageID a = mid)"
  using bus_reachable_inv [OF assms] by (simp add: bus_inv_def AckHistory_def DeadLetters_def)

theorem bus_bookkeeping_witness:
  "let b = snd (MarkDeadLetterEnvelope example_envelope ''late''
       (snd (SendEnvelope example_envelope NewMessageBus)))
   in (\<forall>mid e. mb_unacked b mid = Some e \<longrightarrow> te_TaskID e = mid \<and> in_flight (AckHistory mid b)) \<and>
     (\<forall>e \<in> set (DeadLetters b). te_IsDeadLetter e \<and>
       AckStatusDeadLettered \<in> ma_AckStatus ` set (AckHistory (te_TaskID e) b)) \<and>
     (\<forall>mid. \<forall>a \<in> set (AckHistory mid b). ma_MessageID a = mid) \<and> DeadLetters b \<noteq> []"
proof -
  let ?b = "snd (SendEnvelope example_envelope NewMessageBus)"
  have "bus_reachable (snd (MarkDeadLetterEnvelope example_envelope ''late'' ?b))"
    by (intro bus_next [OF bus_next [OF bus_start step_send] step_mark])
  moreover have "DeadLetters (snd (MarkDeadLetterEnvelope example_envelope ''late'' ?b)) \<noteq> []"
    by (simp add: DeadLetters_def bus_simps)
  ultimately show ?thesis
    unfolding Let_def using bus_bookkeeping by blast
qed

end
