(* ===== verification/BusConcurrency.thy ===== *)
theory BusConcurrency
  imports MessageBus
begin

text \<open>
  The concurrent side of \<open>message_bus.go\<close>. The bus methods hold the mutex only for part of
  their work, so a call is a sequence of atomic sections that interleave with other
  goroutines. Two interleavings matter: the wake-up signal, which \<open>Publish\<close> sends after it
  has released the mutex, and the bookkeeping of \<open>SendEnvelope\<close>, which follows the publication
  in a second critical section.
\<close>

section \<open>Atomic sections\<close>

definition publishLocked :: "string \<Rightarrow> TaskEnvelope \<Rightarrow> MessageBus \<Rightarrow> MessageBus" where
  "publishLocked topic envelope b =
     queueSignal topic (b\<lparr>mb_queues := (mb_queues b)(topic := mb_queues b topic @ [envelope])\<rparr>)"

definition requeueFrontLocked :: "string \<Rightarrow> TaskEnvelope \<Rightarrow> MessageBus \<Rightarrow> MessageBus" where
  "requeueFrontLocked topic envelope b =
     queueSignal topic (b\<lparr>mb_queues := (mb_queues b)(topic := envelope # mb_queues b topic)\<rparr>)"

definition sendRecordLocked :: "TaskEnvelope \<Rightarrow> MessageBus \<Rightarrow> MessageBus" where
  "sendRecordLocked envelope b =
     b\<lparr>mb_unacked := (mb_unacked b)(te_TaskID envelope \<mapsto> envelope),
       mb_acks := (mb_acks b)(te_TaskID envelope := mb_acks b (te_TaskID envelope) @
         [\<lparr>ma_MessageID = te_TaskID envelope, ma_AckStatus = AckStatusSent,
           ma_ReceivedBy = [], ma_Reason = []\<rparr>,
          \<lparr>ma_MessageID = te_TaskID envelope, ma_AckStatus = AckStatusQueued,
           ma_ReceivedBy = [], ma_Reason = []\<rparr>])\<rparr>"

text \<open>Run without interruption, the sections are the methods.\<close>

lemma Publish_sections: "Publish topic e b = notifyQueueSignal topic (publishLocked topic e b)"
  by (simp add: Publish_def publishLocked_def Let_def)

lemma requeueFront_sections:
  "requeueFront topic e b = notifyQueueSignal topic (requeueFrontLocked topic e b)"
  by (simp add: requeueFront_def requeueFrontLocked_def Let_def)

lemma SendEnvelope_sections:
  assumes "\<not> (0 < te_MaxHops e \<and> te_MaxHops e \<le> te_HopCount e)"
  shows "snd (SendEnvelope e b) = sendRecordLocked (e\<lparr>te_HopCount := te_HopCount e + 1\<rparr>)
    (Publish (AgentTopic (te_TargetAgent e)) (e\<lparr>te_HopCount := te_HopCount e + 1\<rparr>) b)"
  unfolding SendEnvelope_def if_not_P [OF assms]
  by (simp add: sendRecordLocked_def Let_def)

section \<open>The consumer goroutines of one topic\<close>

text \<open>
  The loop of \<open>ConsumeEnvelopeDeliveries\<close>: \<open>Polling\<close> is about to call \<open>Consume\<close>, \<open>Checking\<close> is
  about to enter the locked section of \<open>waitForEnvelope\<close>, \<open>Waiting\<close> is in its \<open>select\<close>, and
  \<open>Holding e\<close> is sending \<open>e\<close> on the output channel. \<open>Absent\<close> is no goroutine.
\<close>

datatype consumer_pc = Polling | Checking | Waiting | Holding TaskEnvelope | Absent

record PumpState =
  pm_bus :: MessageBus
  pm_notifying :: nat
  pm_pc :: "nat \<Rightarrow> consumer_pc"

text \<open>\<open>pm_notifying\<close> counts the publishers between their critical section and \<open>notifySignal\<close>.\<close>

inductive producer_step :: "string \<Rightarrow> PumpState \<Rightarrow> PumpState \<Rightarrow> bool" for topic where
  pub: "producer_step topic s
     (s\<lparr>pm_bus := publishLocked topic e (pm_bus s), pm_notifying := Suc (pm_notifying s)\<rparr>)"
| requeue: "producer_step topic s
     (s\<lparr>pm_bus := requeueFrontLocked topic e (pm_bus s), pm_notifying := Suc (pm_notifying s)\<rparr>)"

inductive consumer_step :: "string \<Rightarrow> PumpState \<Rightarrow> PumpState \<Rightarrow> bool" for topic where
  notify: "pm_notifying s = Suc n \<Longrightarrow> consumer_step topic s
     (s\<lparr>pm_bus := notifyQueueSignal topic (pm_bus s), pm_notifying := n\<rparr>)"
| poll_hit: "pm_pc s i = Polling \<Longrightarrow> Consume topic (pm_bus s) = (Some e, b) \<Longrightarrow>
     consumer_step topic s (s\<lparr>pm_bus := b, pm_pc := (pm_pc s)(i := Holding e)\<rparr>)"
| poll_miss: "pm_pc s i = Polling \<Longrightarrow> Consume topic (pm_bus s) = (None, b) \<Longrightarrow>
     consumer_step topic s (s\<lparr>pm_bus := b, pm_pc := (pm_pc s)(i := Checking)\<rparr>)"
| check_hit: "pm_pc s i = Checking \<Longrightarrow> mb_queues (pm_bus s) topic \<noteq> [] \<Longrightarrow>
     consumer_step topic s (s\<lparr>pm_pc := (pm_pc s)(i := Polling)\<rparr>)"
| check_miss: "pm_pc s i = Checking \<Longrightarrow> mb_queues (pm_bus s) topic = [] \<Longrightarrow>
     consumer_step topic s
       (s\<lparr>pm_bus := queueSignal topic (pm_bus s), pm_pc := (pm_pc s)(i := Waiting)\<rparr>)"
| wake: "pm_pc s i = Waiting \<Longrightarrow> mb_queueSignals (pm_bus s) topic = Some True \<Longrightarrow>
     consumer_step topic s
       (s\<lparr>pm_bus := (pm_bus s)\<lparr>mb_queueSignals :=
            (mb_queueSignals (pm_bus s))(topic \<mapsto> False)\<rparr>,
          pm_pc := (pm_pc s)(i := Polling)\<rparr>)"
| deliver: "pm_pc s i = Holding e \<Longrightarrow>
     consumer_step topic s (s\<lparr>pm_pc := (pm_pc s)(i := Polling)\<rparr>)"

definition pump_start :: "nat \<Rightarrow> PumpState" where
  "pump_start n = \<lparr>pm_bus = NewMessageBus, pm_notifying = 0,
     pm_pc = (\<lambda>i. if i < n then Polling else Absent)\<rparr>"

inductive pump_reachable :: "string \<Rightarrow> nat \<Rightarrow> PumpState \<Rightarrow> bool" for topic n where
  pump_init: "pump_reachable topic n (pump_start n)"
| pump_prod: "pump_reachable topic n s \<Longrightarrow> producer_step topic s t \<Longrightarrow> pump_reachable topic n t"
| pump_cons: "pump_reachable topic n s \<Longrightarrow> consumer_step topic s t \<Longrightarrow> pump_reachable topic n t"

definition active :: "consumer_pc \<Rightarrow> bool" where
  "active pc \<longleftrightarrow> pc \<noteq> Waiting \<and> pc \<noteq> Absent"

text \<open>
  No wake-up is lost: while the topic holds an envelope, either some consumer is not asleep,
  or the signal channel holds a token, or a publisher is still about to send one.
\<close>

definition pump_inv :: "string \<Rightarrow> nat \<Rightarrow> PumpState \<Rightarrow> bool" where
  "pump_inv topic n s \<longleftrightarrow>
     (mb_queues (pm_bus s) topic \<noteq> [] \<longrightarrow>
        mb_queueSignals (pm_bus s) topic = Some True \<or> 0 < pm_notifying s \<or>
        (\<exists>i<n. active (pm_pc s i))) \<and>
     (\<forall>i. pm_pc s i = Absent \<longleftrightarrow> n \<le> i)"

lemma pump_inv_start: "pump_inv topic n (pump_start n)"
  by (simp add: pump_inv_def pump_start_def NewMessageBus_def)

lemma pump_inv_producer:
  assumes "producer_step topic s t" "pump_inv topic n s"
  shows "pump_inv topic n t"
  using assms(1) by cases (use assms(2) in \<open>simp_all add: pump_inv_def\<close>)

lemma not_absent_lt: "pump_inv topic n s \<Longrightarrow> pm_pc s i \<noteq> Absent \<Longrightarrow> i < n"
  by (metis pump_inv_def not_le)

text \<open>A consumer that moves to a position other than \<open>Waiting\<close> re-establishes the invariant.\<close>

lemma pump_inv_active:
  assumes "pump_inv topic n s" "pm_pc s i \<noteq> Absent" "active pc" "pm_pc t = (pm_pc s)(i := pc)"
  shows "pump_inv topic n t"
  unfolding pump_inv_def
proof (intro conjI allI impI)
  have i: "i < n" using assms(1,2) by (rule not_absent_lt)
  with assms(3,4) show "mb_queueSignals (pm_bus t) topic = Some True \<or> 0 < pm_notifying t \<or>
      (\<exists>i<n. active (pm_pc t i))"
    by (metis fun_upd_same)
  fix j
  show "pm_pc t j = Absent \<longleftrightarrow> n \<le> j"
    using assms i by (auto simp: pump_inv_def active_def)
qed

lemma pump_inv_consumer:
  assumes "consumer_step topic s t" "pump_inv topic n s"
  shows "pump_inv topic n t"
  using assms
proof cases
  case (check_miss i)
  then show ?thesis
    using assms(2) not_absent_lt [OF assms(2), of i]
    by (auto simp: pump_inv_def queueSignal_fields)
next
  case (notify m)
  then show ?thesis
    using assms(2) by (auto simp: pump_inv_def notifyQueueSignal_def)
next
  case (poll_hit i e b)
  then show ?thesis
    using pump_inv_active [OF assms(2), of i "Holding e" t] by (simp add: active_def)
next
  case (poll_miss i b)
  then show ?thesis
    using pump_inv_active [OF assms(2), of i Checking t] by (simp add: active_def)
next
  case (check_hit i)
  then show ?thesis
    using pump_inv_active [OF assms(2), of i Polling t] by (simp add: active_def)
next
  case (wake i)
  then show ?thesis
    using pump_inv_active [OF assms(2), of i Polling t] by (simp add: active_def)
next
  case (deliver i e)
  then show ?thesis
    using pump_inv_active [OF assms(2), of i Polling t] by (simp add: active_def)
qed

lemma pump_reachable_inv: "pump_reachable topic n s \<Longrightarrow> pump_inv topic n s"
  by (induction rule: pump_reachable.induct)
    (auto intro: pump_inv_start pump_inv_producer pump_inv_consumer)

text \<open>C29. With at least one consumer on the topic, an envelope that waits in the queue can
  always be worked on: in every reachable state of any interleaving of publishers and
  consumers whose queue is not empty, a consumer-side step is enabled, so no lost signal can
  leave all consumers asleep over a non-empty queue.\<close>

theorem pump_never_stuck:
  assumes "pump_reachable topic n s" "0 < n" "mb_queues (pm_bus s) topic \<noteq> []"
  shows "\<exists>t. consumer_step topic s t"
proof -
  have inv: "pump_inv topic n s"
    using assms(1) by (rule pump_reachable_inv)
  have move: "\<exists>t. consumer_step topic s t" if "active (pm_pc s i)" for i
  proof (cases "pm_pc s i")
    case Polling
    obtain r b where "Consume topic (pm_bus s) = (r, b)"
      by (cases "Consume topic (pm_bus s)")
    with Polling show ?thesis
      by (cases r) (blast intro: consumer_step.poll_hit consumer_step.poll_miss)+
  next
    case Checking
    then show ?thesis using assms(3) by (blast intro: consumer_step.check_hit)
  next
    case (Holding e)
    then show ?thesis by (blast intro: consumer_step.deliver)
  qed (use that in \<open>auto simp: active_def\<close>)
  consider (token) "mb_queueSignals (pm_bus s) topic = Some True"
    | (pending) "0 < pm_notifying s" | (awake) "\<exists>i<n. active (pm_pc s i)"
    using inv assms(3) by (auto simp: pump_inv_def)
  then show ?thesis
  proof cases
    case token
    have "pm_pc s 0 \<noteq> Absent" using inv assms(2) by (auto simp: pump_inv_def)
    then have "pm_pc s 0 = Waiting \<or> active (pm_pc s 0)" by (simp add: active_def)
    then show ?thesis
      using move consumer_step.wake [OF _ token] by blast
  next
    case pending
    then show ?thesis by (metis Suc_pred consumer_step.notify)
  next
    case awake
    then show ?thesis using move by blast
  qed
qed

theorem pump_never_stuck_witness:
  "\<exists>t. consumer_step ''q'' ((pump_start 1)\<lparr>pm_bus :=
     publishLocked ''q'' example_envelope (pm_bus (pump_start 1)), pm_notifying := Suc 0\<rparr>) t"
proof (rule pump_never_stuck [where n = 1])
  have "producer_step ''q'' (pump_start 1) ((pump_start 1)\<lparr>pm_bus :=
      publishLocked ''q'' example_envelope (pm_bus (pump_start 1)),
      pm_notifying := Suc (pm_notifying (pump_start 1))\<rparr>)"
    by (rule producer_step.pub)
  then have "pump_reachable ''q'' 1 ((pump_start 1)\<lparr>pm_bus :=
      publishLocked ''q'' example_envelope (pm_bus (pump_start 1)),
      pm_notifying := Suc (pm_notifying (pump_start 1))\<rparr>)"
    by (rule pump_prod [OF pump_init])
  then show "pump_reachable ''q'' 1 ((pump_start 1)\<lparr>pm_bus :=
      publishLocked ''q'' example_envelope (pm_bus (pump_start 1)), pm_notifying := Suc 0\<rparr>)"
    by (simp add: pump_start_def)
qed (simp_all add: publishLocked_def queueSignal_fields)

section \<open>SendEnvelope against a fast consumer\<close>

text \<open>
  The interleaving: the sender publishes; the agent receives the envelope and acknowledges it
  as accepted; the sender then runs its second critical section.
\<close>

definition send_race :: "TaskEnvelope \<Rightarrow> string \<Rightarrow> MessageBus \<Rightarrow> MessageBus" where
  "send_race e reason b =
     (let e = e\<lparr>te_HopCount := te_HopCount e + 1\<rparr>;
          b = Publish (AgentTopic (te_TargetAgent e)) e b;
          (got, b) = ReceiveForAgent (te_TargetAgent e) b;
          (ack, b) = Ack (te_TaskID e) AckStatusAccepted (te_TargetAgent e) reason b
      in sendRecordLocked e b)"

text \<open>When the mailbox was empty and the receiver accepts the envelope before the sender
  enters its second critical section, the message ends up listed as unacknowledged and, by its
  last acknowledgement, as queued, although it was delivered and accepted and no copy of it is
  left in the mailbox; the acceptance is not the last entry of its history.\<close>

theorem send_race_leaves_unacked:
  assumes "mb_queues b (AgentTopic (te_TargetAgent e)) = []"
  shows "mb_queues (send_race e reason b) (AgentTopic (te_TargetAgent e)) = [] \<and>
    mb_unacked (send_race e reason b) (te_TaskID e) \<noteq> None \<and>
    map ma_AckStatus (AckHistory (te_TaskID e) (send_race e reason b)) =
      map ma_AckStatus (AckHistory (te_TaskID e) b) @
        [AckStatusAccepted, AckStatusSent, AckStatusQueued]"
  using assms
  by (simp add: send_race_def Let_def split_def ReceiveForAgent_def sendRecordLocked_def
      AckHistory_def bus_simps)

theorem send_race_leaves_unacked_witness:
  "mb_unacked (send_race example_envelope ''ok'' NewMessageBus) ''t1'' \<noteq> None"
  using send_race_leaves_unacked [of NewMessageBus example_envelope "''ok''"]
  by (simp add: NewMessageBus_def example_envelope_def)

end
