(* ===== verification/Supervisor.thy ===== *)
theory Supervisor
  imports MessageBus
begin

text \<open>
  The delivery supervisor, \<open>go-core/internal/delivery/supervisor.go\<close>: it tracks one
  \<open>DeliveryRecord\<close> per task, drives the payload handshake and retries or dead-letters
  deliveries that make no progress.

  The supervisor talks to the bus through the interface \<open>Bus\<close>. An interface value is the
  record \<open>delivery_env\<close> of its methods over an abstract bus state, together with the two library
  primitives \<open>payloadChecksum\<close> calls; \<open>memory_env\<close> is the in-memory bus. A method is a function
  of the clock reading \<open>now\<close> (all reads of the clock during one call return the same instant),
  its arguments and the supervisor. Where the code ranges over the record map, the definition
  takes the enumeration of the keys, because Go leaves the iteration order open.
\<close>

section \<open>The bus interface\<close>

record 'b delivery_env =
  bus_SendEnvelope :: "TaskEnvelope \<Rightarrow> 'b \<Rightarrow> MessageAck \<times> 'b"
  bus_ReceiveForAgent :: "string \<Rightarrow> 'b \<Rightarrow> TaskEnvelope option \<times> 'b"
  bus_Ack :: "string \<Rightarrow> AckStatus \<Rightarrow> string \<Rightarrow> string \<Rightarrow> 'b \<Rightarrow> MessageAck \<times> 'b"
  bus_AckHistory :: "string \<Rightarrow> 'b \<Rightarrow> MessageAck list"
  bus_Depth :: "string \<Rightarrow> 'b \<Rightarrow> nat"
  bus_MarkDeadLetterEnvelope :: "TaskEnvelope \<Rightarrow> string \<Rightarrow> 'b \<Rightarrow> MessageAck \<times> 'b"
  bus_DeadLetters :: "'b \<Rightarrow> TaskEnvelope list"
  bus_AckDelivery :: "string \<Rightarrow> TaskEnvelope \<Rightarrow> 'b \<Rightarrow> 'b"
  bus_Nack :: "string \<Rightarrow> TaskEnvelope \<Rightarrow> bool \<Rightarrow> 'b \<Rightarrow> 'b"
  bus_BrokerManaged :: bool
  json_Marshal :: "TaskPayload \<Rightarrow> string"
  sha256_Sum256 :: "string \<Rightarrow> string"

definition memory_env ::
    "(TaskPayload \<Rightarrow> string) \<Rightarrow> (string \<Rightarrow> string) \<Rightarrow> MessageBus delivery_env" where
  "memory_env marshal sum256 = \<lparr>bus_SendEnvelope = SendEnvelope,
     bus_ReceiveForAgent = ReceiveForAgent, bus_Ack = Ack, bus_AckHistory = AckHistory,
     bus_Depth = Depth, bus_MarkDeadLetterEnvelope = MarkDeadLetterEnvelope,
     bus_DeadLetters = DeadLetters, bus_AckDelivery = (\<lambda>topic envelope b. b),
     bus_Nack = nackEnvelope,
     bus_BrokerManaged = BrokerManaged NewMessageBus,
     json_Marshal = marshal, sha256_Sum256 = sum256\<rparr>"

section \<open>State\<close>

text \<open>The strings the code stores in \<open>HandshakeState\<close>.\<close>

datatype Handshake =
    HsSyn | HsSynAck | HsAckValid | HsEstablished | HsRetrying | HsDeadLetter | HsFailed
  | HsInvalid | HsBrokerManagedTimeout

record DeliveryRecord =
  dr_Envelope :: TaskEnvelope
  dr_Status :: AckStatus
  dr_SentAt :: time
  dr_LastProgressAt :: time
  dr_ReceivedAt :: "time option"
  dr_CompletedAt :: "time option"
  dr_ReceivedBy :: string
  dr_LastReason :: string
  dr_RetryCount :: int
  dr_LastAuditedStatus :: string
  dr_HandshakeState :: Handshake
  dr_PayloadChecksum :: string
  dr_PayloadValidated :: bool

record 'b Supervisor =
  sv_messageBus :: 'b
  sv_records :: "string \<rightharpoonup> DeliveryRecord"
  sv_ackTimeout :: duration

definition NewSupervisor :: "'b \<Rightarrow> duration \<Rightarrow> 'b Supervisor" where
  "NewSupervisor messageBus ackTimeout =
     \<lparr>sv_messageBus = messageBus, sv_records = Map.empty,
      sv_ackTimeout = (if ackTimeout \<le> 0 then 30 * second else ackTimeout)\<rparr>"

section \<open>Helpers\<close>

definition payloadChecksum :: "'b delivery_env \<Rightarrow> TaskEnvelope \<Rightarrow> string" where
  "payloadChecksum E envelope = hex_encode (sha256_Sum256 E (json_Marshal E (te_Payload envelope)))"

definition maxRetries :: "TaskEnvelope \<Rightarrow> int" where
  "maxRetries envelope = (if te_MaxRetries envelope \<le> 0 then 3 else te_MaxRetries envelope)"

text \<open>One iteration of the loop of \<open>applyHistory\<close>.\<close>

definition applyAck :: "time \<Rightarrow> MessageAck \<Rightarrow> DeliveryRecord \<Rightarrow> DeliveryRecord" where
  "applyAck now ack r =
     (let completed = (case dr_CompletedAt r of None \<Rightarrow> Some now | Some t \<Rightarrow> Some t) in
      case ma_AckStatus ack of
        AckStatusSent \<Rightarrow> r\<lparr>dr_Status := AckStatusSent\<rparr>
      | AckStatusQueued \<Rightarrow> r\<lparr>dr_Status := AckStatusQueued\<rparr>
      | AckStatusReceived \<Rightarrow>
          r\<lparr>dr_Status := AckStatusReceived, dr_ReceivedBy := ma_ReceivedBy ack,
            dr_LastProgressAt := now,
            dr_ReceivedAt := (case dr_ReceivedAt r of None \<Rightarrow> Some now | Some t \<Rightarrow> Some t),
            dr_HandshakeState := (if dr_HandshakeState r = HsSyn then HsSynAck
              else dr_HandshakeState r)\<rparr>
      | AckStatusValidated \<Rightarrow>
          r\<lparr>dr_Status := AckStatusValidated, dr_ReceivedBy := ma_ReceivedBy ack,
            dr_LastReason := ma_Reason ack, dr_LastProgressAt := now,
            dr_PayloadValidated := True, dr_HandshakeState := HsAckValid\<rparr>
      | AckStatusRetrying \<Rightarrow>
          r\<lparr>dr_Status := AckStatusRetrying, dr_ReceivedBy := ma_ReceivedBy ack,
            dr_LastReason := ma_Reason ack, dr_LastProgressAt := now,
            dr_HandshakeState := HsRetrying\<rparr>
      | AckStatusAccepted \<Rightarrow>
          r\<lparr>dr_Status := AckStatusAccepted, dr_ReceivedBy := ma_ReceivedBy ack,
            dr_LastReason := ma_Reason ack, dr_LastProgressAt := now,
            dr_CompletedAt := completed,
            dr_HandshakeState := (if dr_PayloadValidated r then HsEstablished
              else dr_HandshakeState r)\<rparr>
      | AckStatusDeadLettered \<Rightarrow>
          r\<lparr>dr_Status := AckStatusDeadLettered, dr_ReceivedBy := ma_ReceivedBy ack,
            dr_LastReason := ma_Reason ack, dr_LastProgressAt := now,
            dr_HandshakeState := HsDeadLetter, dr_CompletedAt := completed\<rparr>
      | AckStatusFailed \<Rightarrow>
          r\<lparr>dr_Status := AckStatusFailed, dr_ReceivedBy := ma_ReceivedBy ack,
            dr_LastReason := ma_Reason ack, dr_LastProgressAt := now,
            dr_CompletedAt := completed\<rparr>
      | AckStatusOther _ \<Rightarrow> r)"

definition applyHistory :: "time \<Rightarrow> MessageAck list \<Rightarrow> DeliveryRecord \<Rightarrow> DeliveryRecord" where
  "applyHistory now history r = fold (applyAck now) history r"

text \<open>The snapshot map of \<open>snapshotLocked\<close>, one field per key; optional keys are options.\<close>

record DeliverySnapshot =
  sn_task_id :: string
  sn_target_agent :: string
  sn_status :: AckStatus
  sn_retry_count :: int
  sn_max_retries :: int
  sn_received_by :: string
  sn_last_reason :: string
  sn_sent_at :: time
  sn_ack_history :: "AckStatus list"
  sn_queue_depth :: nat
  sn_handshake_state :: Handshake
  sn_payload_validated :: bool
  sn_payload_checksum :: string
  sn_received_at :: "time option"
  sn_completed_at :: "time option"

definition snapshotLocked ::
    "'b delivery_env \<Rightarrow> 'b Supervisor \<Rightarrow> DeliveryRecord \<Rightarrow> MessageAck list \<Rightarrow> DeliverySnapshot" where
  "snapshotLocked E s r history =
     \<lparr>sn_task_id = te_TaskID (dr_Envelope r), sn_target_agent = te_TargetAgent (dr_Envelope r),
      sn_status = dr_Status r, sn_retry_count = dr_RetryCount r,
      sn_max_retries = maxRetries (dr_Envelope r), sn_received_by = dr_ReceivedBy r,
      sn_last_reason = dr_LastReason r, sn_sent_at = dr_SentAt r,
      sn_ack_history = map ma_AckStatus history,
      sn_queue_depth = bus_Depth E (AgentTopic (te_TargetAgent (dr_Envelope r))) (sv_messageBus s),
      sn_handshake_state = dr_HandshakeState r, sn_payload_validated = dr_PayloadValidated r,
      sn_payload_checksum = dr_PayloadChecksum r, sn_received_at = dr_ReceivedAt r,
      sn_completed_at = dr_CompletedAt r\<rparr>"

section \<open>Operations\<close>

text \<open>\<open>Refresh\<close> and \<open>Snapshot\<close> work on a copy of the record; no record means the empty map.\<close>

definition Refresh :: "'b delivery_env \<Rightarrow> time \<Rightarrow> string \<Rightarrow> 'b Supervisor \<Rightarrow> DeliverySnapshot option" where
  "Refresh E now taskID s =
     (case sv_records s taskID of
        None \<Rightarrow> None
      | Some r \<Rightarrow>
          let history = bus_AckHistory E taskID (sv_messageBus s)
          in Some (snapshotLocked E s (applyHistory now history r) history))"

definition Snapshot :: "'b delivery_env \<Rightarrow> time \<Rightarrow> string \<Rightarrow> 'b Supervisor \<Rightarrow> DeliverySnapshot option" where
  "Snapshot E now taskID s =
     (case sv_records s taskID of
        None \<Rightarrow> None
      | Some r \<Rightarrow>
          let history = bus_AckHistory E taskID (sv_messageBus s)
          in Some (snapshotLocked E s (applyHistory now history r) history))"

definition Dispatch ::
    "'b delivery_env \<Rightarrow> time \<Rightarrow> TaskEnvelope \<Rightarrow> 'b Supervisor \<Rightarrow> DeliverySnapshot option \<times> 'b Supervisor" where
  "Dispatch E now envelope s =
     (let envelope = (if te_CreatedAt envelope = zero_time then envelope\<lparr>te_CreatedAt := now\<rparr>
                      else envelope);
          taskID = te_TaskID envelope;
          r = \<lparr>dr_Envelope = envelope, dr_Status = AckStatusSent, dr_SentAt = now,
               dr_LastProgressAt = now, dr_ReceivedAt = None, dr_CompletedAt = None,
               dr_ReceivedBy = [], dr_LastReason = [], dr_RetryCount = te_RetryCount envelope,
               dr_LastAuditedStatus = [], dr_HandshakeState = HsSyn,
               dr_PayloadChecksum = payloadChecksum E envelope, dr_PayloadValidated = False\<rparr>;
          (ack, bus) = bus_SendEnvelope E envelope (sv_messageBus s);
          r = r\<lparr>dr_Status := ma_AckStatus ack, dr_LastProgressAt := now\<rparr>;
          r = (if ma_Reason ack \<noteq> [] then r\<lparr>dr_LastReason := ma_Reason ack\<rparr> else r);
          r = (if isTerminalStatus (ma_AckStatus ack)
               then r\<lparr>dr_CompletedAt := Some now,
                      dr_HandshakeState :=
                        (if ma_AckStatus ack = AckStatusDeadLettered then HsDeadLetter
                         else if ma_AckStatus ack = AckStatusFailed then HsFailed
                         else dr_HandshakeState r)\<rparr>
               else r);
          s = s\<lparr>sv_messageBus := bus, sv_records := (sv_records s)(taskID \<mapsto> r)\<rparr>
      in (Refresh E now taskID s, s))"

text \<open>The \<open>for len(items) < limit\<close> loop of \<open>FetchAgentMailbox\<close>; it stops at an empty mailbox.\<close>

fun fetchLoop :: "'b delivery_env \<Rightarrow> time \<Rightarrow> string \<Rightarrow> nat \<Rightarrow> 'b Supervisor \<Rightarrow>
    TaskEnvelope list \<times> 'b Supervisor" where
  "fetchLoop E now agentID 0 s = ([], s)"
| "fetchLoop E now agentID (Suc n) s =
     (case bus_ReceiveForAgent E agentID (sv_messageBus s) of
        (None, bus) \<Rightarrow> ([], s\<lparr>sv_messageBus := bus\<rparr>)
      | (Some envelope, bus) \<Rightarrow>
          let s = s\<lparr>sv_messageBus := bus\<rparr>;
              history = bus_AckHistory E (te_TaskID envelope) bus;
              s = (case sv_records s (te_TaskID envelope) of
                     None \<Rightarrow> s
                   | Some r \<Rightarrow>
                       let r = r\<lparr>dr_ReceivedBy := agentID, dr_ReceivedAt := Some now,
                                 dr_LastProgressAt := now, dr_HandshakeState := HsSynAck\<rparr>;
                           r = applyHistory now history r
                       in s\<lparr>sv_records := (sv_records s)(te_TaskID envelope \<mapsto> r)\<rparr>);
              (items, s) = fetchLoop E now agentID n s
          in (envelope # items, s))"

definition FetchAgentMailbox :: "'b delivery_env \<Rightarrow> time \<Rightarrow> string \<Rightarrow> int \<Rightarrow> 'b Supervisor \<Rightarrow>
    TaskEnvelope list \<times> 'b Supervisor" where
  "FetchAgentMailbox E now agentID limit s =
     fetchLoop E now agentID (nat (if limit \<le> 0 then 1 else limit)) s"

text \<open>The change \<open>Ack\<close> makes to the record of the task.\<close>

definition ackRecord :: "time \<Rightarrow> AckStatus \<Rightarrow> string \<Rightarrow> string \<Rightarrow> DeliveryRecord \<Rightarrow> DeliveryRecord" where
  "ackRecord now status receivedBy reason r =
     (let r = r\<lparr>dr_Status := status, dr_ReceivedBy := receivedBy, dr_LastReason := reason,
                dr_LastProgressAt := now\<rparr>;
          r = (case status of
                 AckStatusReceived \<Rightarrow>
                   r\<lparr>dr_ReceivedAt := (case dr_ReceivedAt r of None \<Rightarrow> Some now | Some t \<Rightarrow> Some t),
                     dr_HandshakeState := (if dr_HandshakeState r = HsSyn then HsSynAck
                       else dr_HandshakeState r)\<rparr>
               | AckStatusValidated \<Rightarrow>
                   r\<lparr>dr_PayloadValidated := True, dr_HandshakeState := HsAckValid\<rparr>
               | AckStatusRetrying \<Rightarrow> r\<lparr>dr_HandshakeState := HsRetrying\<rparr>
               | AckStatusDeadLettered \<Rightarrow> r\<lparr>dr_HandshakeState := HsDeadLetter\<rparr>
               | _ \<Rightarrow> r)
      in if isTerminalStatus status then r\<lparr>dr_CompletedAt := Some now\<rparr> else r)"

definition SupervisorAck :: "'b delivery_env \<Rightarrow> time \<Rightarrow> string \<Rightarrow> AckStatus \<Rightarrow> string \<Rightarrow> string \<Rightarrow>
    'b Supervisor \<Rightarrow> MessageAck \<times> 'b Supervisor" where
  "SupervisorAck E now taskID status receivedBy reason s =
     (let (ack, bus) = bus_Ack E taskID status receivedBy reason (sv_messageBus s);
          s = s\<lparr>sv_messageBus := bus\<rparr>;
          s = (case sv_records s taskID of
                 None \<Rightarrow> s
               | Some r \<Rightarrow> s\<lparr>sv_records :=
                   (sv_records s)(taskID \<mapsto> ackRecord now status receivedBy reason r)\<rparr>)
      in (ack, s))"

definition ConfirmPayload :: "'b delivery_env \<Rightarrow> time \<Rightarrow> string \<Rightarrow> string \<Rightarrow> TaskEnvelope \<Rightarrow>
    'b Supervisor \<Rightarrow> bool \<times> 'b Supervisor" where
  "ConfirmPayload E now taskID agentID envelope s =
     (case sv_records s taskID of
        None \<Rightarrow> (False, s)
      | Some r \<Rightarrow>
          if payloadChecksum E envelope \<noteq> dr_PayloadChecksum r
          then (False, s\<lparr>sv_records := (sv_records s)(taskID \<mapsto>
                  r\<lparr>dr_PayloadValidated := False, dr_HandshakeState := HsInvalid,
                    dr_LastReason := ''payload_checksum_mismatch''\<rparr>)\<rparr>)
          else
            let r = r\<lparr>dr_PayloadValidated := True, dr_HandshakeState := HsAckValid,
                      dr_LastProgressAt := now\<rparr>;
                s = s\<lparr>sv_records := (sv_records s)(taskID \<mapsto> r)\<rparr>;
                (ack, s) = SupervisorAck E now taskID AckStatusValidated agentID
                  ''payload_checksum_ok'' s
            in (True, s))"

definition EstablishDelivery :: "'b delivery_env \<Rightarrow> time \<Rightarrow> string \<Rightarrow> string \<Rightarrow>
    'b Supervisor \<Rightarrow> MessageAck \<times> 'b Supervisor" where
  "EstablishDelivery E now taskID agentID s =
     (case sv_records s taskID of
        None \<Rightarrow> (zero_MessageAck, s)
      | Some r \<Rightarrow>
          if \<not> dr_PayloadValidated r
          then
            let (ack, bus) = bus_Ack E taskID AckStatusFailed agentID ''payload_not_validated''
                  (sv_messageBus s);
                r = r\<lparr>dr_Status := AckStatusFailed, dr_LastReason := ''payload_not_validated'',
                      dr_HandshakeState := HsInvalid, dr_CompletedAt := Some now,
                      dr_LastProgressAt := now\<rparr>
            in (ack, s\<lparr>sv_messageBus := bus, sv_records := (sv_records s)(taskID \<mapsto> r)\<rparr>)
          else
            let (ack, bus) = bus_Ack E taskID AckStatusReceived agentID ''delivery_established''
                  (sv_messageBus s);
                r = r\<lparr>dr_HandshakeState := HsEstablished, dr_LastProgressAt := now\<rparr>
            in (ack, s\<lparr>sv_messageBus := bus, sv_records := (sv_records s)(taskID \<mapsto> r)\<rparr>))"

record MailboxView =
  mv_agent_id :: string
  mv_queue_depth :: nat
  mv_tracked_task_ids :: "string list"

definition MailboxSnapshot :: "'b delivery_env \<Rightarrow> string list \<Rightarrow> string \<Rightarrow> 'b Supervisor \<Rightarrow> MailboxView" where
  "MailboxSnapshot E ids agentID s =
     \<lparr>mv_agent_id = agentID, mv_queue_depth = bus_Depth E (AgentTopic agentID) (sv_messageBus s),
      mv_tracked_task_ids = filter (\<lambda>taskID. case sv_records s taskID of
          None \<Rightarrow> False
        | Some r \<Rightarrow> te_TargetAgent (dr_Envelope r) = agentID \<and> \<not> isTerminalStatus (dr_Status r)) ids\<rparr>"

section \<open>Timeouts\<close>

record TimeoutReport =
  to_broker_managed :: bool
  to_overdue :: nat
  to_retried :: nat
  to_dead_lettered :: nat

text \<open>The body of the loop of \<open>InspectTimeouts\<close>, for the record of one key.\<close>

definition inspectOne :: "'b delivery_env \<Rightarrow> time \<Rightarrow> string \<Rightarrow>
    'b Supervisor \<times> TimeoutReport \<Rightarrow> 'b Supervisor \<times> TimeoutReport" where
  "inspectOne E now key = (\<lambda>(s, rep).
     case sv_records s key of
       None \<Rightarrow> (s, rep)
     | Some r \<Rightarrow>
         if isTerminalStatus (dr_Status r) then (s, rep)
         else if now - dr_LastProgressAt r < sv_ackTimeout s then (s, rep)
         else
           let rep = rep\<lparr>to_overdue := to_overdue rep + 1\<rparr> in
           if bus_BrokerManaged E
           then (s\<lparr>sv_records := (sv_records s)(key \<mapsto>
                   r\<lparr>dr_LastProgressAt := now, dr_HandshakeState := HsBrokerManagedTimeout\<rparr>)\<rparr>, rep)
           else if dr_RetryCount r < maxRetries (dr_Envelope r)
           then
             let env = (dr_Envelope r)\<lparr>te_RetryCount := te_RetryCount (dr_Envelope r) + 1\<rparr>;
                 r = r\<lparr>dr_Envelope := env, dr_RetryCount := te_RetryCount env,
                       dr_LastProgressAt := now, dr_HandshakeState := HsRetrying\<rparr>;
                 s = s\<lparr>sv_records := (sv_records s)(key \<mapsto> r)\<rparr>;
                 (ack, s) = SupervisorAck E now (te_TaskID env) AckStatusRetrying
                   (te_TargetAgent env) ''ack_timeout'' s;
                 (ack, bus) = bus_SendEnvelope E env (sv_messageBus s)
             in (s\<lparr>sv_messageBus := bus\<rparr>, rep\<lparr>to_retried := to_retried rep + 1\<rparr>)
           else
             let (ack, bus) = bus_MarkDeadLetterEnvelope E (dr_Envelope r) ''ack_timeout''
                   (sv_messageBus s);
                 r = r\<lparr>dr_Status := AckStatusDeadLettered, dr_LastReason := ''ack_timeout'',
                       dr_HandshakeState := HsDeadLetter, dr_CompletedAt := Some now,
                       dr_LastProgressAt := now\<rparr>
             in (s\<lparr>sv_messageBus := bus, sv_records := (sv_records s)(key \<mapsto> r)\<rparr>,
                 rep\<lparr>to_dead_lettered := to_dead_lettered rep + 1\<rparr>))"

definition InspectTimeouts :: "'b delivery_env \<Rightarrow> time \<Rightarrow> string list \<Rightarrow> 'b Supervisor \<Rightarrow>
    'b Supervisor \<times> TimeoutReport" where
  "InspectTimeouts E now ids s =
     fold (inspectOne E now) ids
       (s, \<lparr>to_broker_managed = bus_BrokerManaged E, to_overdue = 0, to_retried = 0,
            to_dead_lettered = 0\<rparr>)"

section \<open>Health\<close>

record AgentMetrics =
  am_queue_depth :: nat
  am_pending :: nat
  am_accepted :: nat
  am_failed :: nat
  am_dead_lettered :: nat

record HealthSnapshot =
  he_tracked :: nat
  he_pending :: nat
  he_accepted :: nat
  he_failed :: nat
  he_dead_lettered :: nat
  he_max_lag :: duration
  he_by_agent :: "string \<rightharpoonup> AgentMetrics"

text \<open>One iteration of the loop of \<open>DeliveryHealthSnapshot\<close>; the lag stays in nanoseconds, which
  the code prints in seconds.\<close>

definition healthOne :: "'b delivery_env \<Rightarrow> time \<Rightarrow> 'b Supervisor \<Rightarrow> string \<Rightarrow>
    HealthSnapshot \<Rightarrow> HealthSnapshot" where
  "healthOne E now s key h =
     (case sv_records s key of
        None \<Rightarrow> h
      | Some r0 \<Rightarrow>
          let r = applyHistory now (bus_AckHistory E (te_TaskID (dr_Envelope r0)) (sv_messageBus s)) r0;
              h = h\<lparr>he_tracked := he_tracked h + 1\<rparr>;
              h = (case dr_Status r of
                     AckStatusAccepted \<Rightarrow> h\<lparr>he_accepted := he_accepted h + 1\<rparr>
                   | AckStatusFailed \<Rightarrow> h\<lparr>he_failed := he_failed h + 1\<rparr>
                   | AckStatusDeadLettered \<Rightarrow> h\<lparr>he_dead_lettered := he_dead_lettered h + 1\<rparr>
                   | _ \<Rightarrow> h\<lparr>he_pending := he_pending h + 1,
                            he_max_lag := max (he_max_lag h) (now - dr_LastProgressAt r)\<rparr>);
              agentID = te_TargetAgent (dr_Envelope r);
              m = (case he_by_agent h agentID of
                     Some m \<Rightarrow> m
                   | None \<Rightarrow> \<lparr>am_queue_depth = bus_Depth E (AgentTopic agentID) (sv_messageBus s),
                       am_pending = 0, am_accepted = 0, am_failed = 0, am_dead_lettered = 0\<rparr>);
              m = (case dr_Status r of
                     AckStatusAccepted \<Rightarrow> m\<lparr>am_accepted := am_accepted m + 1\<rparr>
                   | AckStatusFailed \<Rightarrow> m\<lparr>am_failed := am_failed m + 1\<rparr>
                   | AckStatusDeadLettered \<Rightarrow> m\<lparr>am_dead_lettered := am_dead_lettered m + 1\<rparr>
                   | _ \<Rightarrow> m\<lparr>am_pending := am_pending m + 1\<rparr>)
          in h\<lparr>he_by_agent := (he_by_agent h)(agentID \<mapsto> m)\<rparr>)"

definition DeliveryHealthSnapshot ::
    "'b delivery_env \<Rightarrow> time \<Rightarrow> string list \<Rightarrow> 'b Supervisor \<Rightarrow> HealthSnapshot" where
  "DeliveryHealthSnapshot E now ids s =
     fold (healthOne E now s) ids
       \<lparr>he_tracked = 0, he_pending = 0, he_accepted = 0, he_failed = 0, he_dead_lettered = 0,
        he_max_lag = 0, he_by_agent = Map.empty\<rparr>"

definition RecordsSnapshot ::
    "'b delivery_env \<Rightarrow> time \<Rightarrow> string list \<Rightarrow> 'b Supervisor \<Rightarrow> (string \<times> DeliverySnapshot option) list" where
  "RecordsSnapshot E now ids s = map (\<lambda>taskID. (taskID, Snapshot E now taskID s)) ids"

section \<open>Replaying an acknowledgement history\<close>

definition known_status :: "AckStatus \<Rightarrow> bool" where
  "known_status st \<longleftrightarrow> (\<forall>x. st \<noteq> AckStatusOther x)"

lemma applyAck_status:
  "dr_Status (applyAck now a r) =
     (if known_status (ma_AckStatus a) then ma_AckStatus a else dr_Status r)"
  by (cases "ma_AckStatus a") (simp_all add: applyAck_def Let_def known_status_def)

lemma applyAck_fixed [simp]:
  "dr_Envelope (applyAck now a r) = dr_Envelope r"
  "dr_RetryCount (applyAck now a r) = dr_RetryCount r"
  "dr_SentAt (applyAck now a r) = dr_SentAt r"
  "dr_PayloadChecksum (applyAck now a r) = dr_PayloadChecksum r"
  by (cases "ma_AckStatus a"; simp add: applyAck_def Let_def)+

lemma applyHistory_fixed [simp]:
  "dr_Envelope (applyHistory now h r) = dr_Envelope r"
  "dr_RetryCount (applyHistory now h r) = dr_RetryCount r"
  "dr_SentAt (applyHistory now h r) = dr_SentAt r"
  "dr_PayloadChecksum (applyHistory now h r) = dr_PayloadChecksum r"
  unfolding applyHistory_def by (induction h arbitrary: r) simp_all

lemma applyHistory_Nil [simp]: "applyHistory now [] r = r"
  by (simp add: applyHistory_def)

lemma applyHistory_snoc [simp]:
  "applyHistory now (h @ [a]) r = applyAck now a (applyHistory now h r)"
  by (simp add: applyHistory_def)

lemma applyHistory_status:
  "dr_Status (applyHistory now h r) =
     last (dr_Status r # filter known_status (map ma_AckStatus h))"
  by (induction h rule: rev_induct) (simp_all add: applyAck_status)

section \<open>What the supervisor relies on\<close>

text \<open>The laws of a bus: an acknowledgement is appended to the history of its message and to no
  other, a dead letter is stored, and no operation shortens a history.\<close>

locale delivery_bus =
  fixes E :: "'b delivery_env"
  assumes ack_result: "fst (bus_Ack E i st rb r b) =
      \<lparr>ma_MessageID = i, ma_AckStatus = st, ma_ReceivedBy = rb, ma_Reason = r\<rparr>"
    and ack_history: "bus_AckHistory E j (snd (bus_Ack E i st rb r b)) =
      (if j = i then bus_AckHistory E j b @
         [\<lparr>ma_MessageID = i, ma_AckStatus = st, ma_ReceivedBy = rb, ma_Reason = r\<rparr>]
       else bus_AckHistory E j b)"
    and send_history: "set (bus_AckHistory E j b) \<subseteq> set (bus_AckHistory E j (snd (bus_SendEnvelope E e b)))"
    and mark_history: "set (bus_AckHistory E j b) \<subseteq>
      set (bus_AckHistory E j (snd (bus_MarkDeadLetterEnvelope E e r b)))"
    and receive_history: "bus_AckHistory E j (snd (bus_ReceiveForAgent E a b)) = bus_AckHistory E j b"

text \<open>The well-formedness of a tracked record, given the statuses in the history of its task.\<close>

definition record_ok :: "AckStatus set \<Rightarrow> string \<Rightarrow> DeliveryRecord \<Rightarrow> bool" where
  "record_ok H k r \<longleftrightarrow> te_TaskID (dr_Envelope r) = k \<and>
     (isTerminalStatus (dr_Status r) \<longrightarrow> dr_CompletedAt r \<noteq> None) \<and>
     (dr_HandshakeState r = HsEstablished \<longrightarrow> dr_PayloadValidated r) \<and>
     (dr_PayloadValidated r \<longrightarrow> AckStatusValidated \<in> H) \<and>
     te_RetryCount (dr_Envelope r) = dr_RetryCount r"

definition history_statuses :: "'b delivery_env \<Rightarrow> string \<Rightarrow> 'b \<Rightarrow> AckStatus set" where
  "history_statuses E k b = ma_AckStatus ` set (bus_AckHistory E k b)"

definition sup_inv :: "'b delivery_env \<Rightarrow> 'b Supervisor \<Rightarrow> bool" where
  "sup_inv E s \<longleftrightarrow> (\<forall>k r. sv_records s k = Some r \<longrightarrow>
     record_ok (history_statuses E k (sv_messageBus s)) k r)"

lemma record_ok_mono: "record_ok H k r \<Longrightarrow> H \<subseteq> H' \<Longrightarrow> record_ok H' k r"
  by (auto simp: record_ok_def)

lemma record_ok_applyAck:
  "record_ok H k r \<Longrightarrow> ma_AckStatus a \<in> H \<Longrightarrow> record_ok H k (applyAck now a r)"
  by (cases "ma_AckStatus a")
    (auto simp: record_ok_def applyAck_def Let_def isTerminalStatus_def split: option.splits)

lemma record_ok_applyHistory:
  "record_ok H k r \<Longrightarrow> ma_AckStatus ` set h \<subseteq> H \<Longrightarrow> record_ok H k (applyHistory now h r)"
  by (induction h rule: rev_induct) (auto intro: record_ok_applyAck)

lemma record_ok_ackRecord:
  "record_ok H k r \<Longrightarrow> record_ok (insert st H) k (ackRecord now st rb reason r)"
  by (cases st) (auto simp: record_ok_def ackRecord_def Let_def isTerminalStatus_def split: option.splits)

text \<open>Replacing one record and letting histories grow keeps the invariant.\<close>

lemma sup_inv_update:
  assumes "sup_inv E s"
    and "\<And>j. history_statuses E j (sv_messageBus s) \<subseteq> history_statuses E j b"
    and "record_ok (history_statuses E k b) k r"
  shows "sup_inv E (s\<lparr>sv_messageBus := b, sv_records := (sv_records s)(k \<mapsto> r)\<rparr>)"
  using assms(1,3) record_ok_mono [OF _ assms(2)] by (auto simp: sup_inv_def)

lemma sup_inv_bus:
  assumes "sup_inv E s"
    and "\<And>j. history_statuses E j (sv_messageBus s) \<subseteq> history_statuses E j b"
  shows "sup_inv E (s\<lparr>sv_messageBus := b\<rparr>)"
  using assms(1) record_ok_mono [OF _ assms(2)] by (auto simp: sup_inv_def)

lemma sup_inv_record:
  assumes "sup_inv E s" and "record_ok (history_statuses E k (sv_messageBus s)) k r"
  shows "sup_inv E (s\<lparr>sv_records := (sv_records s)(k \<mapsto> r)\<rparr>)"
  using assms by (auto simp: sup_inv_def)

context delivery_bus begin

lemma ack_statuses:
  "history_statuses E j (snd (bus_Ack E i st rb r b)) =
     (if j = i then insert st (history_statuses E j b) else history_statuses E j b)"
  by (auto simp: history_statuses_def ack_history)

lemma send_statuses: "history_statuses E j b \<subseteq> history_statuses E j (snd (bus_SendEnvelope E e b))"
  unfolding history_statuses_def by (intro image_mono send_history)

lemma mark_statuses:
  "history_statuses E j b \<subseteq> history_statuses E j (snd (bus_MarkDeadLetterEnvelope E e r b))"
  unfolding history_statuses_def by (intro image_mono mark_history)

lemma receive_statuses:
  "history_statuses E j (snd (bus_ReceiveForAgent E a b)) = history_statuses E j b"
  by (simp add: history_statuses_def receive_history)

lemma SupervisorAck_inv: "sup_inv E s \<Longrightarrow> sup_inv E (snd (SupervisorAck E now k st rb reason s))"
proof -
  assume inv: "sup_inv E s"
  define b where "b = snd (bus_Ack E k st rb reason (sv_messageBus s))"
  have grow: "history_statuses E j (sv_messageBus s) \<subseteq> history_statuses E j b" for j
    by (auto simp: b_def ack_statuses)
  show ?thesis
  proof (cases "sv_records s k")
    case None
    then show ?thesis
      using sup_inv_bus [OF inv grow] by (simp add: SupervisorAck_def split_def Let_def b_def)
  next
    case (Some r)
    then have "record_ok (history_statuses E k (sv_messageBus s)) k r"
      using inv by (simp add: sup_inv_def)
    then have "record_ok (history_statuses E k b) k (ackRecord now st rb reason r)"
      using record_ok_ackRecord by (simp add: b_def ack_statuses)
    from sup_inv_update [OF inv grow this] Some show ?thesis
      by (simp add: SupervisorAck_def split_def Let_def b_def)
  qed
qed

lemma Dispatch_inv: "sup_inv E s \<Longrightarrow> sup_inv E (snd (Dispatch E now e s))"
  unfolding Dispatch_def Let_def split_def snd_conv
  by (rule sup_inv_update) (auto simp: record_ok_def send_statuses)

lemma ConfirmPayload_inv: "sup_inv E s \<Longrightarrow> sup_inv E (snd (ConfirmPayload E now k a e s))"
proof (cases "sv_records s k")
  case (Some r)
  assume inv: "sup_inv E s"
  then have ok: "record_ok (history_statuses E k (sv_messageBus s)) k r"
    using Some by (simp add: sup_inv_def)
  show ?thesis
  proof (cases "payloadChecksum E e = dr_PayloadChecksum r")
    case False
    then show ?thesis
      using Some ok by (auto simp: ConfirmPayload_def record_ok_def intro!: sup_inv_record [OF inv])
  next
    case True
    define b where "b = snd (bus_Ack E k AckStatusValidated a ''payload_checksum_ok'' (sv_messageBus s))"
    define r' where "r' = ackRecord now AckStatusValidated a ''payload_checksum_ok''
      (r\<lparr>dr_PayloadValidated := True, dr_HandshakeState := HsAckValid, dr_LastProgressAt := now\<rparr>)"
    have eq: "snd (ConfirmPayload E now k a e s) =
        s\<lparr>sv_messageBus := b, sv_records := (sv_records s)(k \<mapsto> r')\<rparr>"
      using Some True by (simp add: ConfirmPayload_def SupervisorAck_def split_def Let_def b_def r'_def)
    have "record_ok (history_statuses E k b) k r'"
      using ok by (simp add: record_ok_def r'_def b_def ack_statuses ackRecord_def isTerminalStatus_def)
    then show ?thesis
      unfolding eq by (intro sup_inv_update [OF inv]) (auto simp: b_def ack_statuses)
  qed
qed (simp add: ConfirmPayload_def)

lemma EstablishDelivery_inv: "sup_inv E s \<Longrightarrow> sup_inv E (snd (EstablishDelivery E now k a s))"
proof (cases "sv_records s k")
  case (Some r)
  assume inv: "sup_inv E s"
  then have ok: "record_ok (history_statuses E k (sv_messageBus s)) k r"
    using Some by (simp add: sup_inv_def)
  show ?thesis
    using Some ok unfolding EstablishDelivery_def Let_def split_def
    by (auto intro!: sup_inv_update [OF inv] simp: ack_statuses record_ok_def)
qed (simp add: EstablishDelivery_def)

lemma fetchLoop_inv: "sup_inv E s \<Longrightarrow> sup_inv E (snd (fetchLoop E now a n s))"
proof (induction n arbitrary: s)
  case (Suc n)
  define b where "b = snd (bus_ReceiveForAgent E a (sv_messageBus s))"
  have rcv: "bus_ReceiveForAgent E a (sv_messageBus s) =
      (fst (bus_ReceiveForAgent E a (sv_messageBus s)), b)"
    by (simp add: b_def)
  have same: "history_statuses E j b = history_statuses E j (sv_messageBus s)" for j
    by (simp add: b_def receive_statuses)
  have inv: "sup_inv E (s\<lparr>sv_messageBus := b\<rparr>)"
    by (rule sup_inv_bus [OF Suc.prems]) (simp add: same)
  show ?case
  proof (cases "fst (bus_ReceiveForAgent E a (sv_messageBus s))")
    case None
    then show ?thesis using inv rcv by (simp add: split_def)
  next
    case (Some e)
    let ?k = "te_TaskID e"
    define r' where "r' = (\<lambda>r. applyHistory now (bus_AckHistory E ?k b)
      (r\<lparr>dr_ReceivedBy := a, dr_ReceivedAt := Some now, dr_LastProgressAt := now,
         dr_HandshakeState := HsSynAck\<rparr>))"
    define t where "t = (case sv_records s ?k of None \<Rightarrow> s\<lparr>sv_messageBus := b\<rparr>
      | Some r \<Rightarrow> s\<lparr>sv_messageBus := b, sv_records := (sv_records s)(?k \<mapsto> r' r)\<rparr>)"
    have "sup_inv E t"
    proof (cases "sv_records s ?k")
      case (Some r)
      have "record_ok (history_statuses E ?k b) ?k r"
        using Suc.prems Some by (simp add: sup_inv_def same)
      then have "record_ok (history_statuses E ?k b) ?k (r' r)"
        unfolding r'_def
        by (intro record_ok_applyHistory) (auto simp: record_ok_def history_statuses_def)
      then show ?thesis
        unfolding t_def Some option.case by (intro sup_inv_update [OF Suc.prems]) (auto simp: same)
    qed (use inv in \<open>simp add: t_def\<close>)
    moreover have "snd (fetchLoop E now a (Suc n) s) = snd (fetchLoop E now a n t)"
      using Some rcv by (auto simp: t_def r'_def split_def Let_def split: option.splits)
    ultimately show ?thesis by (simp add: Suc.IH)
  qed
qed simp

lemma inspectOne_inv: "sup_inv E s \<Longrightarrow> sup_inv E (fst (inspectOne E now k (s, rep)))"
proof -
  assume inv: "sup_inv E s"
  show ?thesis
  proof (cases "sv_records s k")
    case (Some r)
    have ok: "record_ok (history_statuses E k (sv_messageBus s)) k r"
      using inv Some by (simp add: sup_inv_def)
    let ?env = "(dr_Envelope r)\<lparr>te_RetryCount := te_RetryCount (dr_Envelope r) + 1\<rparr>"
    let ?r = "r\<lparr>dr_Envelope := ?env, dr_RetryCount := te_RetryCount ?env,
       dr_LastProgressAt := now, dr_HandshakeState := HsRetrying\<rparr>"
    let ?s = "s\<lparr>sv_records := (sv_records s)(k \<mapsto> ?r)\<rparr>"
    have "sup_inv E ?s"
      using ok by (intro sup_inv_record [OF inv]) (simp add: record_ok_def)
    then have retry: "sup_inv E (snd (SupervisorAck E now i st rb reason ?s))" for i st rb reason
      by (rule SupervisorAck_inv)
    have observed: "sup_inv E (s\<lparr>sv_records := (sv_records s)(k \<mapsto>
        r\<lparr>dr_LastProgressAt := now, dr_HandshakeState := HsBrokerManagedTimeout\<rparr>)\<rparr>)"
      using ok by (intro sup_inv_record [OF inv]) (simp add: record_ok_def)
    have dead: "sup_inv E (s\<lparr>sv_messageBus := snd (bus_MarkDeadLetterEnvelope E (dr_Envelope r)
          ''ack_timeout'' (sv_messageBus s)),
        sv_records := (sv_records s)(k \<mapsto> r\<lparr>dr_Status := AckStatusDeadLettered,
          dr_LastReason := ''ack_timeout'', dr_HandshakeState := HsDeadLetter,
          dr_CompletedAt := Some now, dr_LastProgressAt := now\<rparr>)\<rparr>)"
      using ok record_ok_mono [OF _ mark_statuses]
      by (intro sup_inv_update [OF inv] mark_statuses) (force simp: record_ok_def)
    show ?thesis
      using Some inv observed dead sup_inv_bus [OF retry send_statuses]
      by (simp add: inspectOne_def Let_def split_def)
  qed (use inv in \<open>simp add: inspectOne_def\<close>)
qed

lemma InspectTimeouts_inv: "sup_inv E s \<Longrightarrow> sup_inv E (fst (InspectTimeouts E now ids s))"
proof -
  have "sup_inv E (fst p) \<Longrightarrow> sup_inv E (fst (fold (inspectOne E now) ids p))" for p
  proof (induction ids arbitrary: p)
    case (Cons k ids)
    then show ?case
      using inspectOne_inv [of "fst p" now k "snd p"] by simp
  qed simp
  then show "sup_inv E s \<Longrightarrow> ?thesis" by (simp add: InspectTimeouts_def)
qed

end


interpretation memory_bus: delivery_bus "memory_env marshal sum256" for marshal sum256
  by unfold_locales
    (auto simp: memory_env_def AckHistory_def Ack_def Let_def bus_simps ReceiveForAgent_def
      SendEnvelope_def)

section \<open>Reachable supervisors\<close>

inductive sup_step :: "'b delivery_env \<Rightarrow> 'b Supervisor \<Rightarrow> 'b Supervisor \<Rightarrow> bool" for E where
  sup_dispatch: "sup_step E s (snd (Dispatch E now e s))"
| sup_fetch: "sup_step E s (snd (FetchAgentMailbox E now a limit s))"
| sup_confirm: "sup_step E s (snd (ConfirmPayload E now k a e s))"
| sup_ack: "sup_step E s (snd (SupervisorAck E now k st a reason s))"
| sup_establish: "sup_step E s (snd (EstablishDelivery E now k a s))"
| sup_inspect: "sup_step E s (fst (InspectTimeouts E now ids s))"

inductive sup_reachable :: "'b delivery_env \<Rightarrow> 'b \<Rightarrow> 'b Supervisor \<Rightarrow> bool" for E b where
  sup_start: "sup_reachable E b (NewSupervisor b timeout)"
| sup_next: "sup_reachable E b s \<Longrightarrow> sup_step E s t \<Longrightarrow> sup_reachable E b t"

context delivery_bus begin

lemma FetchAgentMailbox_inv: "sup_inv E s \<Longrightarrow> sup_inv E (snd (FetchAgentMailbox E now a limit s))"
  unfolding FetchAgentMailbox_def by (rule fetchLoop_inv)

lemma sup_step_inv: "sup_step E s t \<Longrightarrow> sup_inv E s \<Longrightarrow> sup_inv E t"
  by (induction rule: sup_step.induct)
    (auto intro: Dispatch_inv FetchAgentMailbox_inv ConfirmPayload_inv
      SupervisorAck_inv EstablishDelivery_inv InspectTimeouts_inv)

lemma NewSupervisor_inv: "sup_inv E (NewSupervisor b timeout)"
  by (simp add: NewSupervisor_def sup_inv_def)

lemma sup_reachable_inv: "sup_reachable E b s \<Longrightarrow> sup_inv E s"
  by (induction rule: sup_reachable.induct) (auto intro: NewSupervisor_inv sup_step_inv)

end

section \<open>Timeouts\<close>

text \<open>What one inspection does to one record, as a function of the record alone.\<close>

definition timeoutRecord :: "time \<Rightarrow> duration \<Rightarrow> DeliveryRecord \<Rightarrow> DeliveryRecord" where
  "timeoutRecord now timeout r =
     (if isTerminalStatus (dr_Status r) \<or> now - dr_LastProgressAt r < timeout then r
      else if dr_RetryCount r < maxRetries (dr_Envelope r)
      then ackRecord now AckStatusRetrying (te_TargetAgent (dr_Envelope r)) ''ack_timeout''
        (r\<lparr>dr_Envelope := (dr_Envelope r)\<lparr>te_RetryCount := te_RetryCount (dr_Envelope r) + 1\<rparr>,
           dr_RetryCount := te_RetryCount (dr_Envelope r) + 1, dr_LastProgressAt := now,
           dr_HandshakeState := HsRetrying\<rparr>)
      else r\<lparr>dr_Status := AckStatusDeadLettered, dr_LastReason := ''ack_timeout'',
             dr_HandshakeState := HsDeadLetter, dr_CompletedAt := Some now,
             dr_LastProgressAt := now\<rparr>)"

definition keyed :: "'b Supervisor \<Rightarrow> bool" where
  "keyed s \<longleftrightarrow> (\<forall>k r. sv_records s k = Some r \<longrightarrow> te_TaskID (dr_Envelope r) = k)"

lemma sup_inv_keyed: "sup_inv E s \<Longrightarrow> keyed s"
  by (auto simp: sup_inv_def record_ok_def keyed_def)

lemma ackRecord_fixed [simp]:
  "dr_Envelope (ackRecord now st rb reason r) = dr_Envelope r"
  "dr_RetryCount (ackRecord now st rb reason r) = dr_RetryCount r"
  "dr_Status (ackRecord now st rb reason r) = st"
  "dr_LastProgressAt (ackRecord now st rb reason r) = now"
  by (cases st; simp add: ackRecord_def Let_def)+

lemma timeoutRecord_TaskID [simp]:
  "te_TaskID (dr_Envelope (timeoutRecord now timeout r)) = te_TaskID (dr_Envelope r)"
  by (simp add: timeoutRecord_def)

lemma inspectOne_records:
  assumes "\<not> bus_BrokerManaged E" "keyed s"
  shows "sv_records (fst (inspectOne E now k (s, rep))) =
      (sv_records s)(k := map_option (timeoutRecord now (sv_ackTimeout s)) (sv_records s k))"
    and "sv_ackTimeout (fst (inspectOne E now k (s, rep))) = sv_ackTimeout s"
proof -
  show "sv_records (fst (inspectOne E now k (s, rep))) =
      (sv_records s)(k := map_option (timeoutRecord now (sv_ackTimeout s)) (sv_records s k))"
  proof (cases "sv_records s k")
    case (Some r)
    then have "te_TaskID (dr_Envelope r) = k" using assms(2) by (simp add: keyed_def)
    then show ?thesis
      using assms(1) Some
      by (auto simp: inspectOne_def timeoutRecord_def SupervisorAck_def Let_def split_def fun_eq_iff)
  qed (auto simp: inspectOne_def fun_eq_iff)
  show "sv_ackTimeout (fst (inspectOne E now k (s, rep))) = sv_ackTimeout s"
    by (auto simp: inspectOne_def SupervisorAck_def Let_def split_def split: option.splits)
qed

lemma keyed_update: "keyed s \<Longrightarrow> sv_records t =
    (sv_records s)(k := map_option (timeoutRecord now d) (sv_records s k)) \<Longrightarrow> keyed t"
  by (auto simp: keyed_def)

lemma inspect_fold_records:
  assumes "\<not> bus_BrokerManaged E" "keyed (fst p)" "distinct ids"
  shows "sv_records (fst (fold (inspectOne E now) ids p)) k =
      (if k \<in> set ids
       then map_option (timeoutRecord now (sv_ackTimeout (fst p))) (sv_records (fst p) k)
       else sv_records (fst p) k) \<and>
    sv_ackTimeout (fst (fold (inspectOne E now) ids p)) = sv_ackTimeout (fst p)"
  using assms(2,3)
proof (induction ids arbitrary: p)
  case (Cons i ids)
  obtain s rep where p: "p = (s, rep)" by (cases p)
  let ?q = "inspectOne E now i (s, rep)"
  have rec: "sv_records (fst ?q) =
      (sv_records s)(i := map_option (timeoutRecord now (sv_ackTimeout s)) (sv_records s i))"
    and to: "sv_ackTimeout (fst ?q) = sv_ackTimeout s"
    using inspectOne_records [OF assms(1)] Cons.prems(1) by (auto simp: p)
  have "keyed (fst ?q)"
    using keyed_update [OF _ rec] Cons.prems(1) by (simp add: p)
  from Cons.IH [OF this] Cons.prems(2) show ?case
    by (auto simp: rec to p)
qed simp

lemma inspect_fold_counts:
  assumes "\<not> bus_BrokerManaged E"
    and "to_overdue (snd p) = to_retried (snd p) + to_dead_lettered (snd p)"
  shows "to_overdue (snd (fold (inspectOne E now) ids p)) =
     to_retried (snd (fold (inspectOne E now) ids p)) +
     to_dead_lettered (snd (fold (inspectOne E now) ids p))"
  using assms(2)
proof (induction ids arbitrary: p)
  case (Cons i ids)
  have "to_overdue (snd (inspectOne E now i p)) =
      to_retried (snd (inspectOne E now i p)) + to_dead_lettered (snd (inspectOne E now i p))"
    using assms(1) Cons.prems
    by (cases p) (auto simp: inspectOne_def Let_def split_def split: option.splits)
  from Cons.IH [OF this] show ?case by simp
qed simp

text \<open>A schedule of inspections, each at least one timeout after the one before.\<close>

fun spaced :: "duration \<Rightarrow> time \<Rightarrow> time list \<Rightarrow> bool" where
  "spaced d t [] = True"
| "spaced d t (x # xs) = (d \<le> x - t \<and> spaced d x xs)"

definition inspect_run :: "'b delivery_env \<Rightarrow> string list \<Rightarrow> time list \<Rightarrow> 'b Supervisor \<Rightarrow> 'b Supervisor" where
  "inspect_run E ids ts s = fold (\<lambda>t s. fst (InspectTimeouts E t ids s)) ts s"

lemma timeoutRecord_terminal: "isTerminalStatus (dr_Status r) \<Longrightarrow> timeoutRecord t d r = r"
  by (simp add: timeoutRecord_def)

lemma timeout_run_terminal:
  "te_RetryCount (dr_Envelope r) = dr_RetryCount r \<Longrightarrow> spaced d (dr_LastProgressAt r) ts \<Longrightarrow>
   nat (maxRetries (dr_Envelope r) - dr_RetryCount r) < length ts \<or> isTerminalStatus (dr_Status r) \<Longrightarrow>
   isTerminalStatus (dr_Status (fold (\<lambda>t. timeoutRecord t d) ts r))"
proof (induction ts arbitrary: r)
  case (Cons t ts)
  let ?r = "timeoutRecord t d r"
  show ?case
  proof (cases "isTerminalStatus (dr_Status r)")
    case True
    then have "fold (\<lambda>t. timeoutRecord t d) (t # ts) r = r"
      by (induction ts) (simp_all add: timeoutRecord_terminal)
    with True show ?thesis by simp
  next
    case False
    have sync: "te_RetryCount (dr_Envelope ?r) = dr_RetryCount ?r"
      and prog: "dr_LastProgressAt ?r = t"
      and left: "nat (maxRetries (dr_Envelope ?r) - dr_RetryCount ?r) < length ts \<or>
        isTerminalStatus (dr_Status ?r)"
      using Cons.prems False
      by (auto simp: timeoutRecord_def maxRetries_def isTerminalStatus_def)
    have "spaced d (dr_LastProgressAt ?r) ts"
      using Cons.prems(2) by (simp add: prog)
    from Cons.IH [OF sync this left] show ?thesis by simp
  qed
qed simp

lemma inspect_run_records:
  assumes "\<not> bus_BrokerManaged E" "distinct ids" "k \<in> set ids"
  shows "keyed s \<Longrightarrow> sv_records (inspect_run E ids ts s) k =
    map_option (fold (\<lambda>t. timeoutRecord t (sv_ackTimeout s)) ts) (sv_records s k)"
proof (induction ts arbitrary: s)
  case Nil
  then show ?case by (simp add: inspect_run_def option.map_ident)
next
  case (Cons t ts)
  let ?s = "fst (InspectTimeouts E t ids s)"
  have rec: "sv_records ?s j = (if j \<in> set ids
       then map_option (timeoutRecord t (sv_ackTimeout s)) (sv_records s j)
       else sv_records s j)" and to: "sv_ackTimeout ?s = sv_ackTimeout s" for j
    using inspect_fold_records [OF assms(1) _ assms(2), of "(s, _)"] Cons.prems
    by (simp_all add: InspectTimeouts_def)
  have "keyed ?s"
    using Cons.prems by (auto simp: keyed_def rec split: if_splits)
  from Cons.IH [OF this] have "sv_records (inspect_run E ids ts ?s) k =
      map_option (fold (\<lambda>t. timeoutRecord t (sv_ackTimeout s)) ts) (sv_records ?s k)"
    by (simp add: to)
  then show ?case
    using assms(3) by (simp add: inspect_run_def rec option.map_comp comp_def)
qed

section \<open>Properties\<close>

text \<open>In every supervisor that the delivery operations can reach over the in-memory bus, a
  tracked record belongs to the task it is stored under, a record with a terminal status has a
  completion time, a handshake counts as established only if the payload was validated, a
  validated payload has a \<open>validated\<close> acknowledgement in the bus history of the task, and the
  retry counter of the record agrees with the one its envelope carries.\<close>

theorem supervisor_records_consistent:
  assumes "sup_reachable (memory_env marshal sum256) b s" "sv_records s k = Some r"
  shows "te_TaskID (dr_Envelope r) = k \<and>
    (isTerminalStatus (dr_Status r) \<longrightarrow> dr_CompletedAt r \<noteq> None) \<and>
    (dr_HandshakeState r = HsEstablished \<longrightarrow> dr_PayloadValidated r) \<and>
    (dr_PayloadValidated r \<longrightarrow>
      AckStatusValidated \<in> ma_AckStatus ` set (AckHistory k (sv_messageBus s))) \<and>
    te_RetryCount (dr_Envelope r) = dr_RetryCount r"
  using memory_bus.sup_reachable_inv [OF assms(1)] assms(2)
  by (simp add: sup_inv_def record_ok_def history_statuses_def memory_env_def)

definition example_env :: "MessageBus delivery_env" where
  "example_env = memory_env tp_Objective (\<lambda>text. text)"

definition example_supervisor :: "MessageBus Supervisor" where
  "example_supervisor = snd (Dispatch example_env 5 example_envelope
     (NewSupervisor NewMessageBus (2 * second)))"

lemma example_supervisor_reachable: "sup_reachable example_env NewMessageBus example_supervisor"
  unfolding example_supervisor_def
  by (rule sup_next [OF sup_start]) (rule sup_dispatch)

lemma example_record:
  "\<exists>r. sv_records example_supervisor ''t1'' = Some r \<and> dr_LastProgressAt r = 5 \<and>
     dr_RetryCount r = 0 \<and> maxRetries (dr_Envelope r) = 3 \<and> dr_PayloadChecksum r = [] \<and>
     te_RetryCount (dr_Envelope r) = 0"
  by (simp add: example_supervisor_def Dispatch_def example_env_def memory_env_def Let_def
      split_def example_envelope_def zero_TaskEnvelope_def maxRetries_def payloadChecksum_def
      hex_encode_def zero_TaskPayload_def)

lemma example_timeout [simp]: "sv_ackTimeout example_supervisor = 2 * second"
  by (simp add: example_supervisor_def Dispatch_def NewSupervisor_def Let_def split_def)

theorem supervisor_records_consistent_witness:
  "\<exists>r. sv_records example_supervisor ''t1'' = Some r \<and> te_TaskID (dr_Envelope r) = ''t1'' \<and>
     te_RetryCount (dr_Envelope r) = dr_RetryCount r"
proof -
  obtain r where r: "sv_records example_supervisor ''t1'' = Some r"
    using example_record by blast
  have "sup_reachable (memory_env tp_Objective (\<lambda>text. text)) NewMessageBus example_supervisor"
    using example_supervisor_reachable by (simp add: example_env_def)
  from supervisor_records_consistent [OF this r] r show ?thesis by blast
qed

text \<open>One inspection of the timeouts treats every record on its own, whatever order Go's map
  iteration takes: each tracked record becomes \<open>timeoutRecord\<close> of itself (unchanged if terminal
  or not overdue, one more retry while retries are left, dead-lettered otherwise), and every
  overdue record is counted exactly once, as retried or as dead-lettered.\<close>

theorem InspectTimeouts_pointwise:
  assumes "sup_reachable (memory_env marshal sum256) b s" "distinct ids" "set ids = dom (sv_records s)"
  shows "sv_records (fst (InspectTimeouts (memory_env marshal sum256) now ids s)) =
      (\<lambda>k. map_option (timeoutRecord now (sv_ackTimeout s)) (sv_records s k)) \<and>
    to_overdue (snd (InspectTimeouts (memory_env marshal sum256) now ids s)) =
      to_retried (snd (InspectTimeouts (memory_env marshal sum256) now ids s)) +
      to_dead_lettered (snd (InspectTimeouts (memory_env marshal sum256) now ids s))"
proof -
  let ?E = "memory_env marshal sum256"
  have nb: "\<not> bus_BrokerManaged ?E"
    by (simp add: memory_env_def BrokerManaged_def)
  have "keyed s"
    using memory_bus.sup_reachable_inv [OF assms(1)] by (rule sup_inv_keyed)
  then have rec: "sv_records (fst (InspectTimeouts ?E now ids s)) k =
      (if k \<in> set ids then map_option (timeoutRecord now (sv_ackTimeout s)) (sv_records s k)
       else sv_records s k)" for k
    using inspect_fold_records [OF nb _ assms(2)] by (simp add: InspectTimeouts_def)
  have "sv_records (fst (InspectTimeouts ?E now ids s)) k =
      map_option (timeoutRecord now (sv_ackTimeout s)) (sv_records s k)" for k
    using assms(3) by (cases "k \<in> set ids") (auto simp: rec domIff)
  moreover have "to_overdue (snd (InspectTimeouts ?E now ids s)) =
      to_retried (snd (InspectTimeouts ?E now ids s)) +
      to_dead_lettered (snd (InspectTimeouts ?E now ids s))"
    unfolding InspectTimeouts_def by (rule inspect_fold_counts [OF nb]) simp
  ultimately show ?thesis by (simp add: fun_eq_iff)
qed

lemma example_dom: "dom (sv_records example_supervisor) = {''t1''}"
  by (simp add: example_supervisor_def Dispatch_def NewSupervisor_def Let_def split_def
      example_envelope_def zero_TaskEnvelope_def)

theorem InspectTimeouts_pointwise_witness:
  "to_overdue (snd (InspectTimeouts (memory_env tp_Objective (\<lambda>text. text)) 7
      [''t1''] example_supervisor)) =
   to_retried (snd (InspectTimeouts (memory_env tp_Objective (\<lambda>text. text)) 7
      [''t1''] example_supervisor)) +
   to_dead_lettered (snd (InspectTimeouts (memory_env tp_Objective (\<lambda>text. text)) 7
      [''t1''] example_supervisor))"
  using InspectTimeouts_pointwise [OF example_supervisor_reachable [unfolded example_env_def],
      of "[''t1'']"] example_dom
  by simp

text \<open>C28. A delivery that makes no progress does not stay in limbo: if the timeouts are inspected
  at instants that lie at least one acknowledgement timeout apart, a tracked record is terminal
  after one inspection more than the retries it has left.\<close>

theorem timeouts_exhaust_retries:
  assumes "sup_reachable (memory_env marshal sum256) b s" "sv_records s k = Some r"
    and "distinct ids" "k \<in> set ids"
    and "spaced (sv_ackTimeout s) (dr_LastProgressAt r) ts"
    and "nat (maxRetries (dr_Envelope r) - dr_RetryCount r) < length ts"
  shows "\<exists>r'. sv_records (inspect_run (memory_env marshal sum256) ids ts s) k = Some r' \<and>
    isTerminalStatus (dr_Status r')"
proof -
  have inv: "sup_inv (memory_env marshal sum256) s"
    using assms(1) by (rule memory_bus.sup_reachable_inv)
  have sync: "te_RetryCount (dr_Envelope r) = dr_RetryCount r"
    using inv assms(2) by (simp add: sup_inv_def record_ok_def)
  have nb: "\<not> bus_BrokerManaged (memory_env marshal sum256)"
    by (simp add: memory_env_def BrokerManaged_def)
  have "sv_records (inspect_run (memory_env marshal sum256) ids ts s) k =
      Some (fold (\<lambda>t. timeoutRecord t (sv_ackTimeout s)) ts r)"
    using inspect_run_records [OF nb assms(3,4) sup_inv_keyed [OF inv]] assms(2) by simp
  moreover have "isTerminalStatus (dr_Status (fold (\<lambda>t. timeoutRecord t (sv_ackTimeout s)) ts r))"
    using timeout_run_terminal [OF sync assms(5)] assms(6) by blast
  ultimately show ?thesis by blast
qed

theorem timeouts_exhaust_retries_witness:
  "\<exists>r'. sv_records (inspect_run (memory_env tp_Objective (\<lambda>text. text)) [''t1'']
      [5 + 2 * second, 5 + 4 * second, 5 + 6 * second, 5 + 8 * second] example_supervisor) ''t1''
        = Some r' \<and> isTerminalStatus (dr_Status r')"
proof -
  obtain r where r: "sv_records example_supervisor ''t1'' = Some r" "dr_LastProgressAt r = 5"
    "dr_RetryCount r = 0" "maxRetries (dr_Envelope r) = 3"
    using example_record by blast
  have reach: "sup_reachable (memory_env tp_Objective (\<lambda>text. text)) NewMessageBus example_supervisor"
    using example_supervisor_reachable by (simp add: example_env_def)
  show ?thesis
    by (rule timeouts_exhaust_retries [OF reach r(1)]) (simp_all add: r)
qed

text \<open>Dispatching an envelope whose task has no history: unless the hop limit is reached the
  snapshot shows a queued delivery in the \<open>syn\<close> state and the envelope, its hop count raised by
  one, is appended to the mailbox of its target agent; at the hop limit the snapshot shows a
  dead-lettered delivery and the envelope joins the dead letters and no mailbox.\<close>

theorem Dispatch_outcome:
  assumes "AckHistory (te_TaskID e) (sv_messageBus s) = []" "te_CreatedAt e \<noteq> zero_time"
  shows "let over = (te_MaxHops e > 0 \<and> te_HopCount e \<ge> te_MaxHops e);
      (snap, s') = Dispatch (memory_env marshal sum256) now e s;
      inbox = AgentTopic (te_TargetAgent e)
    in map_option (\<lambda>d. (sn_status d, sn_handshake_state d, sn_ack_history d)) snap =
        Some (if over then (AckStatusDeadLettered, HsDeadLetter, [AckStatusDeadLettered])
              else (AckStatusQueued, HsSyn, [AckStatusSent, AckStatusQueued])) \<and>
      mb_queues (sv_messageBus s') inbox = mb_queues (sv_messageBus s) inbox @
        (if over then [] else [e\<lparr>te_HopCount := te_HopCount e + 1\<rparr>]) \<and>
      DeadLetters (sv_messageBus s') = DeadLetters (sv_messageBus s) @
        (if over then [e\<lparr>te_IsDeadLetter := True\<rparr>] else [])"
proof (cases "te_MaxHops e > 0 \<and> te_HopCount e \<ge> te_MaxHops e")
  case True
  then show ?thesis
    using assms
    by (simp add: Dispatch_def Refresh_def Let_def split_def memory_env_def SendEnvelope_dead
        bus_simps AckHistory_def DeadLetters_def snapshotLocked_def applyHistory_def applyAck_def
        isTerminalStatus_def)
next
  case False
  then have send: "SendEnvelope e (sv_messageBus s) =
     (fst (SendEnvelope e (sv_messageBus s)), snd (SendEnvelope e (sv_messageBus s)))"
    by simp
  have status: "ma_AckStatus (fst (SendEnvelope e (sv_messageBus s))) = AckStatusQueued"
    and hist: "map ma_AckStatus (mb_acks (snd (SendEnvelope e (sv_messageBus s))) (te_TaskID e)) =
      [AckStatusSent, AckStatusQueued]"
    using SendEnvelope_queued [OF False] assms(1) by (auto simp: AckHistory_def)
  then obtain a1 a2 where h: "mb_acks (snd (SendEnvelope e (sv_messageBus s))) (te_TaskID e) = [a1, a2]"
    "ma_AckStatus a1 = AckStatusSent" "ma_AckStatus a2 = AckStatusQueued"
    by (auto simp: map_eq_Cons_conv)
  show ?thesis
    using False assms(2) status h SendEnvelope_queued(2,3,6) [OF False, of "sv_messageBus s"]
    by (simp add: Dispatch_def Refresh_def Let_def split_def memory_env_def AckHistory_def
        DeadLetters_def snapshotLocked_def applyHistory_def applyAck_def isTerminalStatus_def)
qed

theorem Dispatch_outcome_witness:
  "mb_queues (sv_messageBus (snd (Dispatch example_env 5 (example_envelope\<lparr>te_CreatedAt := 3\<rparr>)
      (NewSupervisor NewMessageBus 0)))) ''agent.coder.inbox'' =
    [example_envelope\<lparr>te_CreatedAt := 3, te_HopCount := 1\<rparr>]"
  using Dispatch_outcome [of "example_envelope\<lparr>te_CreatedAt := 3\<rparr>" "NewSupervisor NewMessageBus 0"
      tp_Objective "\<lambda>text. text" 5]
  by (simp add: split_def Let_def example_env_def AckHistory_def NewSupervisor_def NewMessageBus_def
      example_envelope_def zero_TaskEnvelope_def AgentTopic_def)

text \<open>The payload handshake: confirming a tracked delivery succeeds exactly when the checksum of
  the received payload is the one recorded at dispatch, and the delivery is then established with
  a \<open>received\<close> acknowledgement; after a mismatch it can only fail, and the record is invalid.\<close>

theorem handshake_checks_payload:
  assumes "sv_records s k = Some r"
  shows "let E = memory_env marshal sum256;
      (ok, s1) = ConfirmPayload E now k agent e s;
      (ack, s2) = EstablishDelivery E now' k agent s1
    in (ok \<longleftrightarrow> payloadChecksum E e = dr_PayloadChecksum r) \<and>
      ma_AckStatus ack = (if ok then AckStatusReceived else AckStatusFailed) \<and>
      map_option dr_HandshakeState (sv_records s2 k) = Some (if ok then HsEstablished else HsInvalid)"
  using assms
  by (simp add: ConfirmPayload_def EstablishDelivery_def SupervisorAck_def Let_def split_def
      ackRecord_def isTerminalStatus_def memory_bus.ack_result)

theorem handshake_checks_payload_witness:
  "fst (ConfirmPayload (memory_env tp_Objective (\<lambda>text. text)) 6 ''t1'' ''coder'' example_envelope
     example_supervisor)"
proof -
  obtain r where r: "sv_records example_supervisor ''t1'' = Some r" "dr_PayloadChecksum r = []"
    using example_record by blast
  have "payloadChecksum (memory_env tp_Objective (\<lambda>text. text)) example_envelope = []"
    by (simp add: payloadChecksum_def memory_env_def example_envelope_def zero_TaskEnvelope_def
        zero_TaskPayload_def hex_encode_def)
  then show ?thesis
    using handshake_checks_payload [OF r(1), of tp_Objective "\<lambda>text. text" 6 "''coder''" example_envelope 7]
      r(2) by (auto simp: Let_def split_def)
qed

end
