(* ===== verification/WorkerPool.thy ===== *)
theory WorkerPool
  imports Supervisor
begin

text \<open>
  The worker pool of an agent, \<open>go-core/internal/delivery/worker_pool.go\<close>: every worker takes an
  envelope, checks its payload, establishes the delivery, runs the handler and acknowledges,
  retries or dead-letters the envelope.

  The two callbacks are closures over the state of the program that installs them; that state is
  the field \<open>wp_world\<close>, and a callback is a function on it. The error value of the handler is its
  text. One call of \<open>processEnvelope\<close> reads the clock at \<open>start\<close> and, for everything after, at
  \<open>now\<close>. Latencies are exact rationals.
\<close>

section \<open>State\<close>

record WorkerPoolMetrics =
  wm_AgentID :: string
  wm_Concurrency :: int
  wm_ActiveWorkers :: int
  wm_Processed :: nat
  wm_Succeeded :: nat
  wm_Failed :: nat
  wm_Retried :: nat
  wm_DeadLettered :: nat
  wm_ValidationFailures :: nat
  wm_IdlePolls :: nat
  wm_LastTaskID :: string
  wm_LastError :: string
  wm_LastProcessedAt :: "time option"
  wm_AverageLatencyMillis :: rat

record ('b, 'w) WorkerPool =
  wp_supervisor :: "'b Supervisor"
  wp_agentID :: string
  wp_concurrency :: int
  wp_pollInterval :: duration
  wp_handler :: "TaskEnvelope \<Rightarrow> 'w \<Rightarrow> string option \<times> 'w"
  wp_deadLetterHandler :: "(TaskEnvelope \<Rightarrow> string \<Rightarrow> 'w \<Rightarrow> 'w) option"
  wp_started :: bool
  wp_metrics :: WorkerPoolMetrics
  wp_world :: 'w

definition NewWorkerPool :: "'b Supervisor \<Rightarrow> string \<Rightarrow> int \<Rightarrow> duration \<Rightarrow>
    (TaskEnvelope \<Rightarrow> 'w \<Rightarrow> string option \<times> 'w) option \<Rightarrow>
    (TaskEnvelope \<Rightarrow> string \<Rightarrow> 'w \<Rightarrow> 'w) option \<Rightarrow> 'w \<Rightarrow> ('b, 'w) WorkerPool" where
  "NewWorkerPool supervisor agentID concurrency pollInterval handler deadLetterHandler world =
     (let concurrency = (if concurrency \<le> 0 then 1 else concurrency);
          pollInterval = (if pollInterval \<le> 0 then 250 * millisecond else pollInterval);
          handler = (case handler of None \<Rightarrow> (\<lambda>envelope w. (None, w)) | Some h \<Rightarrow> h)
      in \<lparr>wp_supervisor = supervisor, wp_agentID = agentID, wp_concurrency = concurrency,
          wp_pollInterval = pollInterval, wp_handler = handler,
          wp_deadLetterHandler = deadLetterHandler, wp_started = False,
          wp_metrics = \<lparr>wm_AgentID = agentID, wm_Concurrency = concurrency, wm_ActiveWorkers = 0,
            wm_Processed = 0, wm_Succeeded = 0, wm_Failed = 0, wm_Retried = 0,
            wm_DeadLettered = 0, wm_ValidationFailures = 0, wm_IdlePolls = 0,
            wm_LastTaskID = [], wm_LastError = [], wm_LastProcessedAt = None,
            wm_AverageLatencyMillis = 0\<rparr>, wp_world = world\<rparr>)"

section \<open>Metrics\<close>

definition recordWorkStarted :: "('b, 'w) WorkerPool \<Rightarrow> ('b, 'w) WorkerPool" where
  "recordWorkStarted p = p\<lparr>wp_metrics := (wp_metrics p)\<lparr>
     wm_ActiveWorkers := wm_ActiveWorkers (wp_metrics p) + 1,
     wm_Processed := wm_Processed (wp_metrics p) + 1\<rparr>\<rparr>"

definition recordWorkFinished :: "time \<Rightarrow> time \<Rightarrow> string \<Rightarrow> ('b, 'w) WorkerPool \<Rightarrow> ('b, 'w) WorkerPool" where
  "recordWorkFinished start finished taskID p =
     (let latency = of_int (finished - start) / of_int second * 1000;
          m = wp_metrics p;
          m = (if wm_ActiveWorkers m > 0 then m\<lparr>wm_ActiveWorkers := wm_ActiveWorkers m - 1\<rparr> else m);
          m = m\<lparr>wm_LastTaskID := taskID, wm_LastProcessedAt := Some finished\<rparr>;
          processed = of_nat (wm_Processed m);
          m = (if processed = 1 then m\<lparr>wm_AverageLatencyMillis := latency\<rparr>
               else m\<lparr>wm_AverageLatencyMillis :=
                 (wm_AverageLatencyMillis m * (processed - 1) + latency) / processed\<rparr>)
      in p\<lparr>wp_metrics := m\<rparr>)"

definition recordIdlePoll :: "('b, 'w) WorkerPool \<Rightarrow> ('b, 'w) WorkerPool" where
  "recordIdlePoll p = p\<lparr>wp_metrics := (wp_metrics p)\<lparr>wm_IdlePolls := wm_IdlePolls (wp_metrics p) + 1\<rparr>\<rparr>"

definition recordSuccess :: "string \<Rightarrow> ('b, 'w) WorkerPool \<Rightarrow> ('b, 'w) WorkerPool" where
  "recordSuccess taskID p = p\<lparr>wp_metrics := (wp_metrics p)\<lparr>
     wm_Succeeded := wm_Succeeded (wp_metrics p) + 1, wm_LastTaskID := taskID, wm_LastError := []\<rparr>\<rparr>"

definition recordFailure :: "string \<Rightarrow> string \<Rightarrow> ('b, 'w) WorkerPool \<Rightarrow> ('b, 'w) WorkerPool" where
  "recordFailure taskID reason p = p\<lparr>wp_metrics := (wp_metrics p)\<lparr>
     wm_Failed := wm_Failed (wp_metrics p) + 1, wm_LastTaskID := taskID, wm_LastError := reason\<rparr>\<rparr>"

definition recordRetried :: "string \<Rightarrow> string \<Rightarrow> ('b, 'w) WorkerPool \<Rightarrow> ('b, 'w) WorkerPool" where
  "recordRetried taskID reason p = p\<lparr>wp_metrics := (wp_metrics p)\<lparr>
     wm_Retried := wm_Retried (wp_metrics p) + 1, wm_LastTaskID := taskID, wm_LastError := reason\<rparr>\<rparr>"

definition recordDeadLettered :: "string \<Rightarrow> string \<Rightarrow> ('b, 'w) WorkerPool \<Rightarrow> ('b, 'w) WorkerPool" where
  "recordDeadLettered taskID reason p = p\<lparr>wp_metrics := (wp_metrics p)\<lparr>
     wm_DeadLettered := wm_DeadLettered (wp_metrics p) + 1, wm_LastTaskID := taskID,
     wm_LastError := reason\<rparr>\<rparr>"

definition recordValidationFailure :: "string \<Rightarrow> ('b, 'w) WorkerPool \<Rightarrow> ('b, 'w) WorkerPool" where
  "recordValidationFailure taskID p = p\<lparr>wp_metrics := (wp_metrics p)\<lparr>
     wm_ValidationFailures := wm_ValidationFailures (wp_metrics p) + 1, wm_LastTaskID := taskID,
     wm_LastError := ''payload_validation_failed''\<rparr>\<rparr>"

section \<open>Processing an envelope\<close>

text \<open>Calls on the supervisor and on the bus behind it, and the closures of a delivery.\<close>

definition onSupervisor :: "('b Supervisor \<Rightarrow> 'a \<times> 'b Supervisor) \<Rightarrow> ('b, 'w) WorkerPool \<Rightarrow>
    'a \<times> ('b, 'w) WorkerPool" where
  "onSupervisor f p = (let (x, s) = f (wp_supervisor p) in (x, p\<lparr>wp_supervisor := s\<rparr>))"

definition onBus :: "('b \<Rightarrow> 'b) \<Rightarrow> ('b, 'w) WorkerPool \<Rightarrow> ('b, 'w) WorkerPool" where
  "onBus f p = p\<lparr>wp_supervisor := (wp_supervisor p)\<lparr>sv_messageBus := f (sv_messageBus (wp_supervisor p))\<rparr>\<rparr>"

definition setRecord :: "string \<Rightarrow> DeliveryRecord \<Rightarrow> ('b, 'w) WorkerPool \<Rightarrow> ('b, 'w) WorkerPool" where
  "setRecord taskID r p = p\<lparr>wp_supervisor :=
     (wp_supervisor p)\<lparr>sv_records := (sv_records (wp_supervisor p))(taskID \<mapsto> r)\<rparr>\<rparr>"

definition deliveryAck :: "'b delivery_env \<Rightarrow> EnvelopeDelivery \<Rightarrow> ('b, 'w) WorkerPool \<Rightarrow> ('b, 'w) WorkerPool" where
  "deliveryAck E d p = (case ed_Topic d of None \<Rightarrow> p
     | Some topic \<Rightarrow> onBus (bus_AckDelivery E topic (ed_Envelope d)) p)"

definition deliveryNack :: "'b delivery_env \<Rightarrow> bool \<Rightarrow> EnvelopeDelivery \<Rightarrow> ('b, 'w) WorkerPool \<Rightarrow>
    ('b, 'w) WorkerPool" where
  "deliveryNack E requeue d p = (case ed_Topic d of None \<Rightarrow> p
     | Some topic \<Rightarrow> onBus (bus_Nack E topic (ed_Envelope d) requeue) p)"

definition runDeadLetterHandler :: "TaskEnvelope \<Rightarrow> string \<Rightarrow> ('b, 'w) WorkerPool \<Rightarrow> ('b, 'w) WorkerPool" where
  "runDeadLetterHandler envelope reason p = (case wp_deadLetterHandler p of None \<Rightarrow> p
     | Some h \<Rightarrow> p\<lparr>wp_world := h envelope reason (wp_world p)\<rparr>)"

definition handleDeadLetter :: "'b delivery_env \<Rightarrow> time \<Rightarrow> EnvelopeDelivery \<Rightarrow> string \<Rightarrow>
    ('b, 'w) WorkerPool \<Rightarrow> ('b, 'w) WorkerPool" where
  "handleDeadLetter E now d reason p =
     (let envelope = ed_Envelope d;
          (ack, p) = onSupervisor (SupervisorAck E now (te_TaskID envelope) AckStatusDeadLettered
            (wp_agentID p) reason) p;
          p = runDeadLetterHandler envelope reason p;
          p = deliveryNack E False d p
      in recordDeadLettered (te_TaskID envelope) reason p)"

definition retryOrDeadLetter :: "'b delivery_env \<Rightarrow> time \<Rightarrow> EnvelopeDelivery \<Rightarrow> string \<Rightarrow>
    ('b, 'w) WorkerPool \<Rightarrow> ('b, 'w) WorkerPool" where
  "retryOrDeadLetter E now d reason p =
     (let envelope = ed_Envelope d; taskID = te_TaskID envelope in
      if bus_BrokerManaged E then
        (case sv_records (wp_supervisor p) taskID of
           None \<Rightarrow> deliveryNack E True d p
         | Some r \<Rightarrow>
             if dr_RetryCount r < maxRetries (dr_Envelope r)
             then
               let p = setRecord taskID (r\<lparr>dr_RetryCount := dr_RetryCount r + 1,
                         dr_LastReason := reason, dr_LastProgressAt := now,
                         dr_HandshakeState := HsRetrying\<rparr>) p;
                   (ack, p) = onSupervisor (SupervisorAck E now taskID AckStatusRetrying
                     (wp_agentID p) reason) p;
                   p = deliveryNack E True d p
               in recordRetried taskID reason p
             else
               let p = setRecord taskID (r\<lparr>dr_LastReason := reason, dr_LastProgressAt := now,
                         dr_HandshakeState := HsDeadLetter\<rparr>) p
               in handleDeadLetter E now d reason p)
      else
        (case sv_records (wp_supervisor p) taskID of
           None \<Rightarrow> p
         | Some r \<Rightarrow>
             if dr_RetryCount r < maxRetries (dr_Envelope r)
             then
               let retryEnvelope = (dr_Envelope r)\<lparr>te_RetryCount := te_RetryCount (dr_Envelope r) + 1\<rparr>;
                   p = setRecord taskID (r\<lparr>dr_Envelope := retryEnvelope,
                         dr_RetryCount := te_RetryCount retryEnvelope, dr_LastReason := reason,
                         dr_LastProgressAt := now, dr_HandshakeState := HsRetrying\<rparr>) p;
                   (ack, p) = onSupervisor (SupervisorAck E now taskID AckStatusRetrying
                     (wp_agentID p) reason) p;
                   p = onBus (\<lambda>b. snd (bus_SendEnvelope E retryEnvelope b)) p
               in recordRetried taskID reason p
             else
               let p = setRecord taskID (r\<lparr>dr_LastReason := reason, dr_LastProgressAt := now,
                         dr_HandshakeState := HsDeadLetter\<rparr>) p;
                   deadEnvelope = dr_Envelope r;
                   p = onBus (\<lambda>b. snd (bus_MarkDeadLetterEnvelope E deadEnvelope reason b)) p;
                   p = recordDeadLettered taskID reason p
               in runDeadLetterHandler deadEnvelope reason p))"

definition processEnvelope :: "'b delivery_env \<Rightarrow> time \<Rightarrow> time \<Rightarrow> nat \<Rightarrow> EnvelopeDelivery \<Rightarrow>
    ('b, 'w) WorkerPool \<Rightarrow> ('b, 'w) WorkerPool" where
  "processEnvelope E start now workerID d p =
     (let envelope = ed_Envelope d;
          taskID = te_TaskID envelope;
          p = recordWorkStarted p;
          (confirmed, p) = onSupervisor (ConfirmPayload E now taskID (wp_agentID p) envelope) p;
          p = (if \<not> confirmed then
                 let reason = ''payload_validation_failed'';
                     (ack, p) = onSupervisor (SupervisorAck E now taskID AckStatusFailed
                       (wp_agentID p) reason) p;
                     p = recordValidationFailure taskID p
                 in handleDeadLetter E now d reason p
               else
                 let (ack, p) = onSupervisor (EstablishDelivery E now taskID (wp_agentID p)) p in
                 if ma_AckStatus ack = AckStatusFailed then
                   let reason = firstNonEmptyString [ma_Reason ack, ''delivery_handshake_failed''];
                       p = recordFailure taskID reason p
                   in retryOrDeadLetter E now d reason p
                 else
                   let (err, w) = wp_handler p envelope (wp_world p);
                       p = p\<lparr>wp_world := w\<rparr> in
                   (case err of
                      Some e \<Rightarrow>
                        let reason = ''worker_'' @ nat_to_string workerID @ '': '' @ e;
                            p = recordFailure taskID reason p
                        in retryOrDeadLetter E now d reason p
                    | None \<Rightarrow>
                        let (ack, p) = onSupervisor (SupervisorAck E now taskID AckStatusAccepted
                              (wp_agentID p) ''worker_completed'') p;
                            p = deliveryAck E d p
                        in recordSuccess taskID p))
      in recordWorkFinished start now taskID p)"

section \<open>Workers\<close>

text \<open>One iteration of the loop of \<open>runWorker\<close> and of the loop of \<open>runDeliveryWorker\<close>.\<close>

definition runWorkerIteration :: "'b delivery_env \<Rightarrow> time \<Rightarrow> time \<Rightarrow> nat \<Rightarrow>
    ('b, 'w) WorkerPool \<Rightarrow> ('b, 'w) WorkerPool" where
  "runWorkerIteration E start now workerID p =
     (let (mailbox, p) = onSupervisor (FetchAgentMailbox E start (wp_agentID p) 1) p in
      if mailbox = [] then recordIdlePoll p
      else fold (\<lambda>envelope. processEnvelope E start now workerID
             \<lparr>ed_Envelope = envelope, ed_Topic = None\<rparr>) mailbox p)"

definition runDeliveryWorkerIteration :: "'b delivery_env \<Rightarrow> time \<Rightarrow> time \<Rightarrow> nat \<Rightarrow>
    EnvelopeDelivery option \<Rightarrow> ('b, 'w) WorkerPool \<Rightarrow> ('b, 'w) WorkerPool" where
  "runDeliveryWorkerIteration E start now workerID delivery p =
     (case delivery of None \<Rightarrow> p | Some d \<Rightarrow> processEnvelope E start now workerID d p)"

text \<open>\<open>Start\<close> returns the kind and number of the workers it spawns; a pool starts once.
  \<open>streamErr\<close> is the error of \<open>ConsumeEnvelopeDeliveries\<close>, \<open>stream\<close> says that the bus offers it.\<close>

datatype Workers = NoWorkers | DeliveryWorkers int | PollingWorkers int

definition Start :: "bool \<Rightarrow> bool \<Rightarrow> ('b, 'w) WorkerPool \<Rightarrow> Workers \<times> ('b, 'w) WorkerPool" where
  "Start stream streamErr p =
     (if wp_started p then (NoWorkers, p)
      else let p = p\<lparr>wp_started := True\<rparr> in
        if stream \<and> \<not> streamErr then (DeliveryWorkers (wp_concurrency p), p)
        else (PollingWorkers (wp_concurrency p), p))"

section \<open>What each step changes\<close>

lemmas pool_defs = onSupervisor_def onBus_def setRecord_def recordWorkStarted_def
  recordWorkFinished_def recordIdlePoll_def recordSuccess_def recordFailure_def recordRetried_def
  recordDeadLettered_def recordValidationFailure_def deliveryAck_def deliveryNack_def
  runDeadLetterHandler_def Let_def split_def

definition metrics_ok :: "WorkerPoolMetrics \<Rightarrow> bool" where
  "metrics_ok m \<longleftrightarrow>
     wm_Processed m = wm_Succeeded m + wm_Failed m + wm_ValidationFailures m \<and>
     wm_Retried m + wm_DeadLettered m \<le> wm_Failed m + wm_ValidationFailures m \<and>
     wm_ActiveWorkers m = 0"

text \<open>The counters a call changes, and by how much.\<close>

definition counters :: "('b, 'w) WorkerPool \<Rightarrow> nat \<times> nat \<times> nat \<times> nat \<times> nat \<times> nat \<times> int" where
  "counters p = (let m = wp_metrics p in (wm_Processed m, wm_Succeeded m, wm_Failed m,
     wm_ValidationFailures m, wm_Retried m, wm_DeadLettered m, wm_ActiveWorkers m))"

named_theorems counter_simps

lemma counters_frame [counter_simps]:
  "counters (snd (onSupervisor f p)) = counters p"
  "counters (onBus g p) = counters p"
  "counters (setRecord k r p) = counters p"
  "counters (deliveryAck E d p) = counters p"
  "counters (deliveryNack E b d p) = counters p"
  "counters (runDeadLetterHandler e reason p) = counters p"
  "counters (p\<lparr>wp_world := w\<rparr>) = counters p"
  by (auto simp: counters_def pool_defs split: option.splits)

lemma counters_started:
  "counters p = (n, s, f, v, r, d, a) \<Longrightarrow> counters (recordWorkStarted p) = (n + 1, s, f, v, r, d, a + 1)"
  by (simp add: counters_def pool_defs)

lemma counters_dead:
  "counters p = (n, s, f, v, r, d, a) \<Longrightarrow>
   counters (handleDeadLetter E now dl reason p) = (n, s, f, v, r, d + 1, a)"
  by (simp add: counters_def handleDeadLetter_def pool_defs split: option.splits)

lemma counters_retry:
  "counters p = (n, s, f, v, r, d, a) \<Longrightarrow>
   \<exists>r' d'. counters (retryOrDeadLetter E now dl reason p) = (n, s, f, v, r', d', a) \<and>
     r' + d' \<le> r + d + 1"
  by (auto simp: counters_def retryOrDeadLetter_def handleDeadLetter_def pool_defs
      split: option.splits)

lemma counters_finished:
  "counters p = (n, s, f, v, r, d, a) \<Longrightarrow> 0 < a \<Longrightarrow>
   counters (recordWorkFinished start now k p) = (n, s, f, v, r, d, a - 1)"
  by (auto simp: counters_def pool_defs)

lemma counters_record:
  "counters p = (n, s, f, v, r, d, a) \<Longrightarrow> counters (recordSuccess k p) = (n, s + 1, f, v, r, d, a)"
  "counters p = (n, s, f, v, r, d, a) \<Longrightarrow> counters (recordFailure k reason p) = (n, s, f + 1, v, r, d, a)"
  "counters p = (n, s, f, v, r, d, a) \<Longrightarrow> counters (recordValidationFailure k p) = (n, s, f, v + 1, r, d, a)"
  by (simp_all add: counters_def pool_defs)

text \<open>The body of \<open>processEnvelope\<close> between the deferred bookkeeping calls.\<close>

definition processBody :: "'b delivery_env \<Rightarrow> time \<Rightarrow> nat \<Rightarrow> EnvelopeDelivery \<Rightarrow>
    ('b, 'w) WorkerPool \<Rightarrow> ('b, 'w) WorkerPool" where
  "processBody E now workerID d p =
     (let k = te_TaskID (ed_Envelope d);
          c = onSupervisor (ConfirmPayload E now k (wp_agentID p) (ed_Envelope d)) p;
          h = onSupervisor (EstablishDelivery E now k (wp_agentID (snd c))) (snd c);
          r = firstNonEmptyString [ma_Reason (fst h), ''delivery_handshake_failed''];
          o' = wp_handler (snd h) (ed_Envelope d) (wp_world (snd h));
          q = (snd h)\<lparr>wp_world := snd o'\<rparr> in
      if \<not> fst c then handleDeadLetter E now d ''payload_validation_failed''
        (recordValidationFailure k (snd (onSupervisor (SupervisorAck E now k AckStatusFailed
          (wp_agentID (snd c)) ''payload_validation_failed'') (snd c))))
      else if ma_AckStatus (fst h) = AckStatusFailed
      then retryOrDeadLetter E now d r (recordFailure k r (snd h))
      else (case fst o' of
          Some e \<Rightarrow> let r = ''worker_'' @ nat_to_string workerID @ '': '' @ e
            in retryOrDeadLetter E now d r (recordFailure k r q)
        | None \<Rightarrow> recordSuccess k (deliveryAck E d (snd (onSupervisor (SupervisorAck E now k
            AckStatusAccepted (wp_agentID q) ''worker_completed'') q)))))"

lemma processEnvelope_body:
  "processEnvelope E start now workerID d p =
     recordWorkFinished start now (te_TaskID (ed_Envelope d))
       (processBody E now workerID d (recordWorkStarted p))"
  unfolding processEnvelope_def processBody_def Let_def split_def by simp

lemma processBody_cases:
  obtains q where
    "processBody E now wid dl p = handleDeadLetter E now dl ''payload_validation_failed''
       (recordValidationFailure (te_TaskID (ed_Envelope dl)) q)" "counters q = counters p"
  | q reason where
    "processBody E now wid dl p = retryOrDeadLetter E now dl reason
       (recordFailure (te_TaskID (ed_Envelope dl)) reason q)" "counters q = counters p"
  | q where
    "processBody E now wid dl p = recordSuccess (te_TaskID (ed_Envelope dl)) q"
    "counters q = counters p"
proof -
  define c where "c = onSupervisor (ConfirmPayload E now (te_TaskID (ed_Envelope dl))
    (wp_agentID p) (ed_Envelope dl)) p"
  define h where "h = onSupervisor (EstablishDelivery E now (te_TaskID (ed_Envelope dl))
    (wp_agentID (snd c))) (snd c)"
  have cnt: "counters (snd c) = counters p" "counters (snd h) = counters p"
    by (simp_all add: c_def h_def counter_simps)
  note body = processBody_def [of E now wid dl p, unfolded Let_def, folded c_def, folded h_def]
  show thesis
  proof (cases "fst c")
    case False
    show thesis by (rule that(1), simp only: body False simp_thms if_True)
       (simp add: cnt counter_simps)
  next
    case True
    note ok = True
    show thesis
    proof (cases "ma_AckStatus (fst h) = AckStatusFailed")
      case True
      show thesis by (rule that(2), simp only: body ok True simp_thms if_True if_False)
        (simp add: cnt counter_simps)
    next
      case False
      show thesis
      proof (cases "fst (wp_handler (snd h) (ed_Envelope dl) (wp_world (snd h)))")
        case None
        show thesis by (rule that(3), simp only: body ok False None simp_thms if_False option.case)
          (simp add: cnt counter_simps)
      next
        case (Some e)
        show thesis by (rule that(2), simp only: body ok False Some simp_thms if_False option.case)
          (simp add: cnt counter_simps)
      qed
    qed
  qed
qed

lemma counters_body:
  assumes "counters p = (n, s, f, v, r, d, a)"
  shows "\<exists>s' f' v' r' d'. counters (processBody E now wid dl p) = (n, s', f', v', r', d', a) \<and>
    s' + f' + v' = s + f + v + 1 \<and> r' + d' + s' \<le> r + d + s + 1"
proof (cases rule: processBody_cases [of E now wid dl p])
  case (1 q)
  then show ?thesis using assms by (simp add: counters_dead [OF counters_record(3)])
next
  case (2 q reason)
  then show ?thesis
    using counters_retry [OF counters_record(2) [of q], of n s f v r d a E now dl reason
        "te_TaskID (ed_Envelope dl)" reason] assms by auto
next
  case (3 q)
  then show ?thesis using assms by (simp add: counters_record(1))
qed

lemma metrics_ok_process:
  assumes "metrics_ok (wp_metrics p)"
  shows "metrics_ok (wp_metrics (processEnvelope E start now wid dl p))"
proof -
  obtain n s f v r d a where c: "counters p = (n, s, f, v, r, d, a)" by (cases "counters p")
  obtain s' f' v' r' d' where
    b: "counters (processBody E now wid dl (recordWorkStarted p)) = (n + 1, s', f', v', r', d', a + 1)"
    and eq: "s' + f' + v' = s + f + v + 1" and le: "r' + d' + s' \<le> r + d + s + 1"
    using counters_body [OF counters_started [OF c]] by blast
  have "a = 0" "n = s + f + v" "r + d \<le> f + v"
    using assms c by (auto simp: counters_def metrics_ok_def Let_def)
  then show ?thesis
    using counters_finished [OF b, of start now "te_TaskID (ed_Envelope dl)"] eq le
    by (auto simp: processEnvelope_body metrics_ok_def counters_def Let_def)
qed

section \<open>The branches of \<open>processEnvelope\<close> over the in-memory bus\<close>

lemma memory_env_sel [simp]:
  "bus_SendEnvelope (memory_env m h) = SendEnvelope"
  "bus_ReceiveForAgent (memory_env m h) = ReceiveForAgent"
  "bus_Ack (memory_env m h) = Ack"
  "bus_AckHistory (memory_env m h) = AckHistory"
  "bus_Depth (memory_env m h) = Depth"
  "bus_MarkDeadLetterEnvelope (memory_env m h) = MarkDeadLetterEnvelope"
  "bus_AckDelivery (memory_env m h) = (\<lambda>topic envelope b. b)"
  "bus_Nack (memory_env m h) = nackEnvelope"
  "bus_BrokerManaged (memory_env m h) = False"
  by (simp_all add: memory_env_def BrokerManaged_def)

lemmas supervisor_defs = ConfirmPayload_def EstablishDelivery_def SupervisorAck_def

text \<open>What a pool shows of one task: its record and the bus.\<close>

abbreviation (input) pool_record :: "string \<Rightarrow> ('b, 'w) WorkerPool \<Rightarrow> DeliveryRecord option" where
  "pool_record k p \<equiv> sv_records (wp_supervisor p) k"

abbreviation (input) pool_bus :: "('b, 'w) WorkerPool \<Rightarrow> 'b" where
  "pool_bus p \<equiv> sv_messageBus (wp_supervisor p)"

lemma bookkeeping_frame [simp]:
  "wp_supervisor (recordWorkStarted p) = wp_supervisor p"
  "wp_world (recordWorkStarted p) = wp_world p"
  "wp_handler (recordWorkStarted p) = wp_handler p"
  "wp_agentID (recordWorkStarted p) = wp_agentID p"
  "wp_deadLetterHandler (recordWorkStarted p) = wp_deadLetterHandler p"
  "wp_supervisor (recordWorkFinished start now k p) = wp_supervisor p"
  "wp_world (recordWorkFinished start now k p) = wp_world p"
  "wp_handler (recordWorkFinished start now k p) = wp_handler p"
  "wp_agentID (recordWorkFinished start now k p) = wp_agentID p"
  "wp_deadLetterHandler (recordWorkFinished start now k p) = wp_deadLetterHandler p"
  by (simp_all add: recordWorkStarted_def recordWorkFinished_def Let_def)

definition deadWorld :: "('b, 'w) WorkerPool \<Rightarrow> TaskEnvelope \<Rightarrow> string \<Rightarrow> 'w \<Rightarrow> 'w" where
  "deadWorld p e reason w =
     (case wp_deadLetterHandler p of None \<Rightarrow> w | Some h \<Rightarrow> h e reason w)"

lemma process_invalid:
  assumes "pool_record (te_TaskID e) p = Some r" "ed_Envelope d = e"
    and "payloadChecksum (memory_env m h) e \<noteq> dr_PayloadChecksum r"
  and q_def: "q = processEnvelope (memory_env m h) start now wid d p"
  shows "map_option dr_Status (pool_record (te_TaskID e) q) = Some AckStatusDeadLettered"
    and "wp_world q = deadWorld p e ''payload_validation_failed'' (wp_world p)"
    and "mb_queues (pool_bus q) = mb_queues (pool_bus p)"
  using assms(1-3) unfolding q_def processEnvelope_body processBody_def deadWorld_def
  by (auto simp: supervisor_defs handleDeadLetter_def pool_defs bus_simps nackEnvelope_def
      split: option.splits)

text \<open>The state after a successful handshake: both acknowledgements sent, the record established.\<close>

definition handshakeBus :: "string \<Rightarrow> string \<Rightarrow> MessageBus \<Rightarrow> MessageBus" where
  "handshakeBus k agent b = snd (Ack k AckStatusReceived agent ''delivery_established''
     (snd (Ack k AckStatusValidated agent ''payload_checksum_ok'' b)))"

definition handshakeRecord :: "time \<Rightarrow> string \<Rightarrow> DeliveryRecord \<Rightarrow> DeliveryRecord" where
  "handshakeRecord now agent r = r\<lparr>dr_Status := AckStatusValidated, dr_ReceivedBy := agent,
     dr_LastReason := ''payload_checksum_ok'', dr_PayloadValidated := True,
     dr_HandshakeState := HsEstablished, dr_LastProgressAt := now\<rparr>"

definition handshakePool :: "time \<Rightarrow> string \<Rightarrow> DeliveryRecord \<Rightarrow> 'w \<Rightarrow> (MessageBus, 'w) WorkerPool \<Rightarrow>
    (MessageBus, 'w) WorkerPool" where
  "handshakePool now k r w p = p\<lparr>wp_supervisor := (wp_supervisor p)\<lparr>
     sv_messageBus := handshakeBus k (wp_agentID p) (sv_messageBus (wp_supervisor p)),
     sv_records := (sv_records (wp_supervisor p))(k \<mapsto> handshakeRecord now (wp_agentID p) r)\<rparr>,
     wp_world := w\<rparr>"

lemma handshakeBus_fields [bus_simps]:
  "mb_queues (handshakeBus k agent b) = mb_queues b"
  "mb_deadLetters (handshakeBus k agent b) = mb_deadLetters b"
  "mb_acks (handshakeBus k agent b) = (mb_acks b)(k := mb_acks b k @
     [\<lparr>ma_MessageID = k, ma_AckStatus = AckStatusValidated, ma_ReceivedBy = agent,
        ma_Reason = ''payload_checksum_ok''\<rparr>,
      \<lparr>ma_MessageID = k, ma_AckStatus = AckStatusReceived, ma_ReceivedBy = agent,
        ma_Reason = ''delivery_established''\<rparr>])"
  by (simp_all add: handshakeBus_def bus_simps)

lemma handshakePool_fields [simp]:
  "pool_record k (handshakePool now k r w p) = Some (handshakeRecord now (wp_agentID p) r)"
  "pool_bus (handshakePool now k r w p) = handshakeBus k (wp_agentID p) (pool_bus p)"
  "wp_world (handshakePool now k r w p) = w"
  "wp_agentID (handshakePool now k r w p) = wp_agentID p"
  "wp_deadLetterHandler (handshakePool now k r w p) = wp_deadLetterHandler p"
  by (simp_all add: handshakePool_def)

lemma handshakeRecord_fields [simp]:
  "dr_Status (handshakeRecord now agent r) = AckStatusValidated"
  "dr_Envelope (handshakeRecord now agent r) = dr_Envelope r"
  "dr_RetryCount (handshakeRecord now agent r) = dr_RetryCount r"
  "dr_PayloadChecksum (handshakeRecord now agent r) = dr_PayloadChecksum r"
  "dr_HandshakeState (handshakeRecord now agent r) = HsEstablished"
  by (simp_all add: handshakeRecord_def)

lemma processBody_ok:
  assumes "pool_record (te_TaskID e) p = Some r" "ed_Envelope d = e"
    and "payloadChecksum (memory_env m h) e = dr_PayloadChecksum r"
    and "wp_handler p e (wp_world p) = (err, w)"
    and "q = handshakePool now (te_TaskID e) r w p"
  shows "processBody (memory_env m h) now wid d p =
    (case err of
       Some x \<Rightarrow> let reason = ''worker_'' @ nat_to_string wid @ '': '' @ x
         in retryOrDeadLetter (memory_env m h) now d reason (recordFailure (te_TaskID e) reason q)
     | None \<Rightarrow> recordSuccess (te_TaskID e) (deliveryAck (memory_env m h) d
         (snd (onSupervisor (SupervisorAck (memory_env m h) now (te_TaskID e) AckStatusAccepted
           (wp_agentID q) ''worker_completed'') q))))"
proof -
  let ?E = "memory_env m h" and ?k = "te_TaskID e"
  let ?c = "onSupervisor (ConfirmPayload ?E now ?k (wp_agentID p) e) p"
  have c: "fst ?c" and a: "wp_agentID (snd ?c) = wp_agentID p"
    using assms by (simp_all add: onSupervisor_def supervisor_defs Let_def split_def)
  let ?h = "onSupervisor (EstablishDelivery ?E now ?k (wp_agentID p)) (snd ?c)"
  have ack: "ma_AckStatus (fst ?h) = AckStatusReceived"
    and pool: "snd ?h = handshakePool now ?k r (wp_world p) p"
    using assms(1-3)
    by (simp_all add: onSupervisor_def supervisor_defs Let_def split_def ackRecord_def
        isTerminalStatus_def handshakePool_def handshakeBus_def handshakeRecord_def bus_simps)
  have hd: "wp_handler (snd ?h) e (wp_world (snd ?h)) = (err, w)"
    using assms(4) by (simp add: pool handshakePool_def)
  have q: "(snd ?h)\<lparr>wp_world := w\<rparr> = q"
    by (simp add: pool assms(5) handshakePool_def)
  show ?thesis
    unfolding processBody_def Let_def assms(2)
    by (simp add: c a ack hd q cong: option.case_cong)
qed

lemma process_success:
  assumes "pool_record (te_TaskID e) p = Some r" "ed_Envelope d = e"
    and "payloadChecksum (memory_env m h) e = dr_PayloadChecksum r"
    and "wp_handler p e (wp_world p) = (None, w)"
  and q_def: "q = processEnvelope (memory_env m h) start now wid d p"
  shows "\<exists>r'. pool_record (te_TaskID e) q = Some r' \<and> dr_Status r' = AckStatusAccepted \<and>
       dr_HandshakeState r' = HsEstablished \<and> dr_CompletedAt r' = Some now"
    and "map ma_AckStatus (AckHistory (te_TaskID e) (pool_bus q)) =
       map ma_AckStatus (AckHistory (te_TaskID e) (pool_bus p)) @
         [AckStatusValidated, AckStatusReceived, AckStatusAccepted]"
    and "wp_world q = w"
    and "mb_queues (pool_bus q) = mb_queues (pool_bus p)"
    and "DeadLetters (pool_bus q) = DeadLetters (pool_bus p)"
  using assms(1-4) unfolding q_def processEnvelope_body
  by (simp_all add: processBody_ok supervisor_defs pool_defs bus_simps ackRecord_def isTerminalStatus_def
      AckHistory_def DeadLetters_def Ack_def split: option.splits)

lemma process_retry:
  assumes "pool_record (te_TaskID e) p = Some r" "ed_Envelope d = e"
    and "payloadChecksum (memory_env m h) e = dr_PayloadChecksum r"
    and "wp_handler p e (wp_world p) = (Some err, w)"
    and "dr_RetryCount r < maxRetries (dr_Envelope r)"
  and q_def: "q = processEnvelope (memory_env m h) start now wid d p"
    and re_def: "re = (dr_Envelope r)\<lparr>te_RetryCount := te_RetryCount (dr_Envelope r) + 1\<rparr>"
  shows "\<exists>r'. pool_record (te_TaskID e) q = Some r' \<and> dr_Status r' = AckStatusRetrying \<and>
       dr_RetryCount r' = te_RetryCount re \<and> dr_Envelope r' = re \<and>
       dr_PayloadChecksum r' = dr_PayloadChecksum r"
    and "wp_world q = w"
    and "mb_queues (pool_bus q) = mb_queues (snd (SendEnvelope re (pool_bus p)))"
    and "DeadLetters (pool_bus q) = DeadLetters (snd (SendEnvelope re (pool_bus p)))"
  using assms(1-5) unfolding q_def re_def processEnvelope_body
  by (simp_all add: processBody_ok retryOrDeadLetter_def supervisor_defs pool_defs bus_simps ackRecord_def isTerminalStatus_def
      SendEnvelope_def DeadLetters_def Ack_def split: option.splits)

lemma process_exhausted:
  assumes "pool_record (te_TaskID e) p = Some r" "ed_Envelope d = e"
    and "payloadChecksum (memory_env m h) e = dr_PayloadChecksum r"
    and "wp_handler p e (wp_world p) = (Some err, w)"
    and "\<not> dr_RetryCount r < maxRetries (dr_Envelope r)"
  and q_def: "q = processEnvelope (memory_env m h) start now wid d p"
    and reason_def: "reason = ''worker_'' @ nat_to_string wid @ '': '' @ err"
  shows "\<exists>r'. pool_record (te_TaskID e) q = Some r' \<and> dr_Status r' = AckStatusValidated \<and>
       dr_RetryCount r' = dr_RetryCount r \<and> dr_Envelope r' = dr_Envelope r \<and>
       dr_HandshakeState r' = HsDeadLetter \<and> dr_LastProgressAt r' = now"
    and "wp_world q = deadWorld p (dr_Envelope r) reason w"
    and "mb_queues (pool_bus q) = mb_queues (pool_bus p)"
    and "DeadLetters (pool_bus q) = DeadLetters (pool_bus p) @ [(dr_Envelope r)\<lparr>te_IsDeadLetter := True\<rparr>]"
  using assms(1-5) unfolding q_def reason_def processEnvelope_body deadWorld_def
  by (simp_all add: processBody_ok retryOrDeadLetter_def supervisor_defs pool_defs bus_simps ackRecord_def isTerminalStatus_def
      DeadLetters_def Ack_def split: option.splits)

section \<open>A message that always fails\<close>

definition always_fails :: "('b, 'w) WorkerPool \<Rightarrow> bool" where
  "always_fails p \<longleftrightarrow> (\<forall>e w. fst (wp_handler p e w) \<noteq> None)"

text \<open>The envelope \<open>e\<close>, in its \<open>n\<close>-th retry, is the only message in the mailbox of the pool.\<close>

definition poison_waiting :: "MessageBus delivery_env \<Rightarrow> TaskEnvelope \<Rightarrow> int \<Rightarrow>
    (MessageBus, 'w) WorkerPool \<Rightarrow> bool" where
  "poison_waiting E e n p \<longleftrightarrow>
     wp_agentID p = te_TargetAgent e \<and> always_fails p \<and>
     mb_queues (pool_bus p) (AgentTopic (te_TargetAgent e)) =
       [e\<lparr>te_RetryCount := n, te_HopCount := te_HopCount e + 1\<rparr>] \<and>
     (\<exists>r. pool_record (te_TaskID e) p = Some r \<and> dr_Envelope r = e\<lparr>te_RetryCount := n\<rparr> \<and>
        dr_RetryCount r = n \<and> dr_PayloadChecksum r = payloadChecksum E e)"

text \<open>The state in which the single envelope of the mailbox is handed to \<open>processEnvelope\<close>.\<close>

lemma worker_fetch_one:
  assumes "mb_queues (pool_bus p) (AgentTopic (wp_agentID p)) = [x]"
    and "pool_record (te_TaskID x) p = Some r"
  shows "\<exists>p' r'. runWorkerIteration (memory_env m h) start now wid p =
      processEnvelope (memory_env m h) start now wid \<lparr>ed_Envelope = x, ed_Topic = None\<rparr> p' \<and>
    pool_record (te_TaskID x) p' = Some r' \<and> dr_Envelope r' = dr_Envelope r \<and>
    dr_RetryCount r' = dr_RetryCount r \<and> dr_PayloadChecksum r' = dr_PayloadChecksum r \<and>
    mb_queues (pool_bus p') = (mb_queues (pool_bus p))(AgentTopic (wp_agentID p) := []) \<and>
    DeadLetters (pool_bus p') = DeadLetters (pool_bus p) \<and> wp_handler p' = wp_handler p \<and>
    wp_agentID p' = wp_agentID p \<and> wp_metrics p' = wp_metrics p"
proof -
  let ?E = "memory_env m h" and ?s = "wp_supervisor p"
  have rcv: "ReceiveForAgent (wp_agentID p) (pool_bus p) =
      (Some x, (pool_bus p)\<lparr>mb_queues := (mb_queues (pool_bus p))(AgentTopic (wp_agentID p) := [])\<rparr>)"
    using assms(1) by (simp add: ReceiveForAgent_def Consume_def)
  obtain s' r' where f: "FetchAgentMailbox ?E start (wp_agentID p) 1 ?s = ([x], s')"
    and r': "sv_records s' (te_TaskID x) = Some r'" "dr_Envelope r' = dr_Envelope r"
      "dr_RetryCount r' = dr_RetryCount r" "dr_PayloadChecksum r' = dr_PayloadChecksum r"
    and b: "sv_messageBus s' =
      (pool_bus p)\<lparr>mb_queues := (mb_queues (pool_bus p))(AgentTopic (wp_agentID p) := [])\<rparr>"
    using assms(2) rcv by (simp add: FetchAgentMailbox_def Let_def)
  have "runWorkerIteration ?E start now wid p = processEnvelope ?E start now wid
      \<lparr>ed_Envelope = x, ed_Topic = None\<rparr> (p\<lparr>wp_supervisor := s'\<rparr>)"
    by (simp add: runWorkerIteration_def onSupervisor_def f)
  then show ?thesis
    using r' b by (intro exI [of _ "p\<lparr>wp_supervisor := s'\<rparr>"] exI [of _ r'])
      (simp add: DeadLetters_def)
qed

text \<open>Callbacks, agent and counters after a failing handler run.\<close>

lemma process_failed_frame:
  assumes "pool_record (te_TaskID e) p = Some r" "ed_Envelope d = e"
    and "payloadChecksum (memory_env m h) e = dr_PayloadChecksum r"
    and "wp_handler p e (wp_world p) = (Some err, w)"
    and "counters p = (n, s, f, v, rt, dl, 0)"
    and "q = processEnvelope (memory_env m h) start now wid d p"
  shows "wp_agentID q = wp_agentID p" and "wp_handler q = wp_handler p"
    and "counters q = (if dr_RetryCount r < maxRetries (dr_Envelope r)
      then (n + 1, s, f + 1, v, rt + 1, dl, 0) else (n + 1, s, f + 1, v, rt, dl + 1, 0))"
proof -
  let ?x = "''worker_'' @ nat_to_string wid @ '': '' @ err"
  let ?q1 = "recordFailure (te_TaskID e) ?x
    (handshakePool now (te_TaskID e) r w (recordWorkStarted p))"
  have q: "q = recordWorkFinished start now (te_TaskID e)
      (retryOrDeadLetter (memory_env m h) now d ?x ?q1)"
    using assms(1-4,6) by (simp add: processEnvelope_body processBody_ok Let_def)
  have c1: "counters ?q1 = (n + 1, s, f + 1, v, rt, dl, 1)"
    using assms(5) by (simp add: counters_def pool_defs handshakePool_def)
  have rec: "pool_record (te_TaskID e) ?q1 =
      Some (handshakeRecord now (wp_agentID p) r)"
    by (simp add: recordFailure_def)
  have "counters (retryOrDeadLetter (memory_env m h) now d ?x ?q1) =
      (if dr_RetryCount r < maxRetries (dr_Envelope r)
       then (n + 1, s, f + 1, v, rt + 1, dl, 1) else (n + 1, s, f + 1, v, rt, dl + 1, 1))"
    using c1 rec by (simp add: retryOrDeadLetter_def assms(2) counters_def pool_defs
        split: option.splits)
  then show "counters q = (if dr_RetryCount r < maxRetries (dr_Envelope r)
      then (n + 1, s, f + 1, v, rt + 1, dl, 0) else (n + 1, s, f + 1, v, rt, dl + 1, 0))"
    unfolding q by (simp add: counters_finished split: if_splits)
  show "wp_agentID q = wp_agentID p" and "wp_handler q = wp_handler p"
    unfolding q by (simp_all add: retryOrDeadLetter_def handleDeadLetter_def pool_defs
        handshakePool_def split: option.splits)
qed

lemma maxRetries_update [simp]:
  "maxRetries (e\<lparr>te_RetryCount := n\<rparr>) = maxRetries e"
  "maxRetries (e\<lparr>te_HopCount := n\<rparr>) = maxRetries e"
  by (simp_all add: maxRetries_def)

lemma payloadChecksum_update [simp]:
  "payloadChecksum E (e\<lparr>te_RetryCount := n\<rparr>) = payloadChecksum E e"
  "payloadChecksum E (e\<lparr>te_HopCount := n\<rparr>) = payloadChecksum E e"
  by (simp_all add: payloadChecksum_def)

lemma poison_step:
  assumes wait: "poison_waiting (memory_env m h) e n p"
    and hops: "\<not> (0 < te_MaxHops e \<and> te_MaxHops e \<le> te_HopCount e)"
    and cnt: "counters p = (c, s, f, v, rt, dl, 0)"
    and q: "q = runWorkerIteration (memory_env m h) start now wid p"
  shows "if n < maxRetries e
    then poison_waiting (memory_env m h) e (n + 1) q \<and>
      DeadLetters (pool_bus q) = DeadLetters (pool_bus p) \<and>
      counters q = (c + 1, s, f + 1, v, rt + 1, dl, 0)
    else mb_queues (pool_bus q) (AgentTopic (te_TargetAgent e)) = [] \<and>
      DeadLetters (pool_bus q) = DeadLetters (pool_bus p) @
        [e\<lparr>te_RetryCount := n, te_IsDeadLetter := True\<rparr>] \<and>
      counters q = (c + 1, s, f + 1, v, rt, dl + 1, 0)"
proof -
  let ?E = "memory_env m h" and ?x = "e\<lparr>te_RetryCount := n, te_HopCount := te_HopCount e + 1\<rparr>"
  obtain r where r: "pool_record (te_TaskID e) p = Some r" "dr_Envelope r = e\<lparr>te_RetryCount := n\<rparr>"
      "dr_RetryCount r = n" "dr_PayloadChecksum r = payloadChecksum ?E e"
    using wait by (auto simp: poison_waiting_def)
  have mail: "mb_queues (pool_bus p) (AgentTopic (wp_agentID p)) = [?x]"
    and agent: "wp_agentID p = te_TargetAgent e"
    using wait by (auto simp: poison_waiting_def)
  obtain p' r' where it: "q = processEnvelope ?E start now wid \<lparr>ed_Envelope = ?x, ed_Topic = None\<rparr> p'"
    and r': "pool_record (te_TaskID e) p' = Some r'" "dr_Envelope r' = e\<lparr>te_RetryCount := n\<rparr>"
      "dr_RetryCount r' = n" "dr_PayloadChecksum r' = payloadChecksum ?E e"
    and b': "mb_queues (pool_bus p') = (mb_queues (pool_bus p))(AgentTopic (wp_agentID p) := [])"
      "DeadLetters (pool_bus p') = DeadLetters (pool_bus p)"
    and f': "wp_handler p' = wp_handler p" "wp_agentID p' = wp_agentID p" "wp_metrics p' = wp_metrics p"
    using worker_fetch_one [OF mail, of r m h start now wid] r q by auto
  obtain err w where hd: "wp_handler p' ?x (wp_world p') = (Some err, w)"
    using wait f'(1) by (auto simp: poison_waiting_def always_fails_def)
       (metis option.exhaust prod.collapse)
  have c': "counters p' = (c, s, f, v, rt, dl, 0)"
    using cnt f'(3) by (simp add: counters_def)
  have rx: "pool_record (te_TaskID ?x) p' = Some r'" using r'(1) by simp
  have ck: "payloadChecksum ?E ?x = dr_PayloadChecksum r'" using r'(4) by simp
  note frame = process_failed_frame [OF rx _ ck hd c' it]
  show ?thesis
  proof (cases "n < maxRetries e")
    case True
    then have lt: "dr_RetryCount r' < maxRetries (dr_Envelope r')" using r' by simp
    note step = process_retry [OF rx _ ck hd lt it refl]
    have "poison_waiting ?E e (n + 1) q"
      using step(1,3) frame(1,2) r' b' f' wait hops agent
      by (auto simp: poison_waiting_def always_fails_def SendEnvelope_queued)
    then show ?thesis
      using step(4) frame(3) lt r' b' hops True by (simp add: SendEnvelope_queued DeadLetters_def)
  next
    case False
    then have ge: "\<not> dr_RetryCount r' < maxRetries (dr_Envelope r')" using r' by simp
    note step = process_exhausted [OF rx _ ck hd ge it refl]
    show ?thesis
      using step(3,4) frame(3) ge r' b' agent False by simp
  qed
qed

text \<open>Iterations of the workers of a pool, each with its clock readings and worker number.\<close>

definition worker_run :: "'b delivery_env \<Rightarrow> (time \<times> time \<times> nat) list \<Rightarrow>
    ('b, 'w) WorkerPool \<Rightarrow> ('b, 'w) WorkerPool" where
  "worker_run E its p = fold (\<lambda>(start, now, wid). runWorkerIteration E start now wid) its p"

lemma poison_run:
  assumes "poison_waiting (memory_env m h) e n p"
    and "\<not> (0 < te_MaxHops e \<and> te_MaxHops e \<le> te_HopCount e)"
    and "counters p = (c, s, f, v, rt, dl, 0)"
    and "length its = Suc (nat (maxRetries e - n))"
  shows "\<exists>n'. mb_queues (pool_bus (worker_run (memory_env m h) its p)) (AgentTopic (te_TargetAgent e)) = [] \<and>
    DeadLetters (pool_bus (worker_run (memory_env m h) its p)) = DeadLetters (pool_bus p) @
      [e\<lparr>te_RetryCount := n', te_IsDeadLetter := True\<rparr>] \<and> n' = max n (maxRetries e) \<and>
    counters (worker_run (memory_env m h) its p) =
      (c + length its, s, f + length its, v, rt + (length its - 1), dl + 1, 0)"
  using assms(1,3,4)
proof (induction its arbitrary: n p c f rt)
  case (Cons it its)
  obtain start now wid where it: "it = (start, now, wid)" by (cases it)
  let ?q = "runWorkerIteration (memory_env m h) start now wid p"
  have run: "worker_run (memory_env m h) (it # its) p = worker_run (memory_env m h) its ?q"
    by (simp add: worker_run_def it)
  note step = poison_step [OF Cons.prems(1) assms(2) Cons.prems(2) refl, of start now wid]
  show ?case
  proof (cases "n < maxRetries e")
    case True
    have "length its = Suc (nat (maxRetries e - (n + 1)))"
      using Cons.prems(3) True by simp
    then show ?thesis
      using step True Cons.IH [of "n + 1" ?q "c + 1" "f + 1" "rt + 1"] unfolding run
      by (auto simp: max_def)
  next
    case False
    then have "its = []" using Cons.prems(3) by simp
    with False step show ?thesis
      unfolding run by (simp add: worker_run_def max_def)
  qed
qed simp

section \<open>Properties\<close>

text \<open>C30. A message whose handler always fails is retried a bounded number of times and then parked:
  dispatched into an empty mailbox with retries left, it is handled exactly once more than the
  retries it has left, ends up once in the dead letters, and leaves the mailbox empty.\<close>

theorem poison_message_dead_lettered:
  assumes "mb_queues (sv_messageBus s) (AgentTopic (te_TargetAgent e)) = []"
    and "\<not> (te_MaxHops e > 0 \<and> te_HopCount e \<ge> te_MaxHops e)" "te_CreatedAt e \<noteq> zero_time"
    and "\<forall>env w. fst (handler env w) \<noteq> None"
    and "te_RetryCount e \<le> maxRetries e"
    and "length its = Suc (nat (maxRetries e - te_RetryCount e))"
  shows "let E = memory_env marshal sum256;
      p = NewWorkerPool (snd (Dispatch E t e s)) (te_TargetAgent e) c poll (Some handler) dlh w;
      q = worker_run E its p
    in mb_queues (sv_messageBus (wp_supervisor q)) (AgentTopic (te_TargetAgent e)) = [] \<and>
      DeadLetters (sv_messageBus (wp_supervisor q)) = DeadLetters (sv_messageBus s) @
        [e\<lparr>te_RetryCount := maxRetries e, te_IsDeadLetter := True\<rparr>] \<and>
      wm_Failed (wp_metrics q) = length its \<and> wm_Retried (wp_metrics q) = length its - 1 \<and>
      wm_DeadLettered (wp_metrics q) = 1"
proof -
  let ?E = "memory_env marshal sum256"
  let ?p = "NewWorkerPool (snd (Dispatch ?E t e s)) (te_TargetAgent e) c poll (Some handler) dlh w"
  have wait: "poison_waiting ?E e (te_RetryCount e) ?p"
    using assms(1-4) by (simp add: poison_waiting_def NewWorkerPool_def Dispatch_def Let_def split_def
        always_fails_def SendEnvelope_queued)
  have cnt: "counters ?p = (0, 0, 0, 0, 0, 0, 0)"
    by (simp add: counters_def NewWorkerPool_def Let_def)
  have dead: "DeadLetters (pool_bus ?p) = DeadLetters (sv_messageBus s)"
    using assms(2,3) by (simp add: NewWorkerPool_def Dispatch_def Let_def split_def SendEnvelope_queued
        DeadLetters_def)
  show ?thesis
    using poison_run [OF wait assms(2) cnt assms(6)] assms(5) dead
    by (auto simp: Let_def counters_def max_def)
qed

theorem poison_message_dead_lettered_witness:
  "let E = memory_env tp_Objective (\<lambda>x. x);
      e = example_envelope\<lparr>te_MaxRetries := 1, te_CreatedAt := 1\<rparr>;
      p = NewWorkerPool (snd (Dispatch E 2 e (NewSupervisor NewMessageBus 0))) ''coder'' 1 0
        (Some (\<lambda>env w. (Some ''boom'', w + 1))) None (0 :: nat);
      q = worker_run E [(3, 4, 0), (5, 6, 1)] p
    in DeadLetters (sv_messageBus (wp_supervisor q)) =
        [e\<lparr>te_RetryCount := 1, te_IsDeadLetter := True\<rparr>] \<and> wm_Failed (wp_metrics q) = 2"
  using poison_message_dead_lettered [of "NewSupervisor NewMessageBus 0"
      "example_envelope\<lparr>te_MaxRetries := 1, te_CreatedAt := 1\<rparr>" "\<lambda>env w. (Some ''boom'', w + 1)"
      "[(3, 4, 0), (5, 6, 1)]" tp_Objective "\<lambda>x. x" 2 1 0 None "0 :: nat"]
  by (simp add: Let_def example_envelope_def zero_TaskEnvelope_def NewSupervisor_def
      NewMessageBus_def maxRetries_def DeadLetters_def)

text \<open>What a worker does with an envelope of a tracked task. The handler runs only on a payload
  whose checksum is the one recorded at dispatch; otherwise the delivery is dead-lettered. If the
  handler succeeds, the delivery is accepted after a validated and a received acknowledgement;
  if it fails while retries are left, the envelope of the record is sent again with one more
  retry; if none is left, it joins the dead letters. The state the callbacks work on changes by
  exactly the callbacks named here.\<close>

theorem processEnvelope_outcome:
  assumes "sv_records (wp_supervisor p) (te_TaskID e) = Some r" "ed_Envelope d = e"
  shows "let E = memory_env marshal sum256; k = te_TaskID e; b = sv_messageBus (wp_supervisor p);
      q = processEnvelope E start now wid d p; b' = sv_messageBus (wp_supervisor q);
      status = map_option dr_Status (sv_records (wp_supervisor q) k);
      dead = (\<lambda>x reason w. case wp_deadLetterHandler p of None \<Rightarrow> w | Some f \<Rightarrow> f x reason w);
      (err, w) = wp_handler p e (wp_world p);
      retry = (dr_Envelope r)\<lparr>te_RetryCount := te_RetryCount (dr_Envelope r) + 1\<rparr>
    in if payloadChecksum E e \<noteq> dr_PayloadChecksum r
      then status = Some AckStatusDeadLettered \<and>
        wp_world q = dead e ''payload_validation_failed'' (wp_world p)
      else case err of
        None \<Rightarrow> status = Some AckStatusAccepted \<and> wp_world q = w \<and> mb_queues b' = mb_queues b \<and>
          map ma_AckStatus (AckHistory k b') = map ma_AckStatus (AckHistory k b) @
            [AckStatusValidated, AckStatusReceived, AckStatusAccepted]
      | Some x \<Rightarrow>
          if dr_RetryCount r < maxRetries (dr_Envelope r)
          then status = Some AckStatusRetrying \<and> wp_world q = w \<and>
            mb_queues b' = mb_queues (snd (SendEnvelope retry b))
          else DeadLetters b' = DeadLetters b @ [(dr_Envelope r)\<lparr>te_IsDeadLetter := True\<rparr>] \<and>
            wp_world q = dead (dr_Envelope r) (''worker_'' @ nat_to_string wid @ '': '' @ x) w \<and>
            mb_queues b' = mb_queues b"
proof -
  let ?E = "memory_env marshal sum256"
  obtain err w where hd: "wp_handler p e (wp_world p) = (err, w)" by (cases "wp_handler p e (wp_world p)")
  show ?thesis
  proof (cases "payloadChecksum ?E e = dr_PayloadChecksum r")
    case False
    with process_invalid [OF assms False refl, of start now wid] hd show ?thesis
      by (simp add: Let_def deadWorld_def)
  next
    case ok: True
    show ?thesis
    proof (cases err)
      case None
      with process_success [OF assms ok hd [unfolded None] refl, of start now wid] ok hd show ?thesis
        by (auto simp: Let_def)
    next
      case (Some x)
      note hd' = hd [unfolded Some]
      show ?thesis
      proof (cases "dr_RetryCount r < maxRetries (dr_Envelope r)")
        case True
        with process_retry [OF assms ok hd' True refl refl, of start now wid] ok hd' show ?thesis
          by (auto simp: Let_def)
      next
        case False
        with process_exhausted(2-4) [OF assms ok hd' False refl refl, of start now wid] ok hd' show ?thesis
          by (simp add: Let_def deadWorld_def split: option.split)
      qed
    qed
  qed
qed

definition example_pool :: "(MessageBus, nat) WorkerPool" where
  "example_pool = NewWorkerPool example_supervisor ''coder'' 2 0
     (Some (\<lambda>e w. (Some ''boom'', w + 1))) (Some (\<lambda>e reason w. w + 10)) 0"

theorem processEnvelope_outcome_witness:
  "wp_world (processEnvelope example_env 5 6 1 \<lparr>ed_Envelope = example_envelope, ed_Topic = None\<rparr>
     example_pool) = 1 \<and>
   wp_world (processEnvelope example_env 5 6 1
     \<lparr>ed_Envelope = example_envelope\<lparr>te_Payload := zero_TaskPayload\<lparr>tp_Objective := ''x''\<rparr>\<rparr>,
      ed_Topic = None\<rparr> example_pool) = 10"
proof -
  obtain r where r: "sv_records (wp_supervisor example_pool) ''t1'' = Some r"
    and ck: "dr_PayloadChecksum r = []" and cnt: "dr_RetryCount r = 0" "maxRetries (dr_Envelope r) = 3"
    by (auto simp: example_pool_def NewWorkerPool_def example_supervisor_def Dispatch_def Let_def
        split_def example_env_def memory_env_def example_envelope_def zero_TaskEnvelope_def
        zero_TaskPayload_def payloadChecksum_def hex_encode_def maxRetries_def)
  have tid: "te_TaskID example_envelope = ''t1''" by (simp add: example_envelope_def)
  let ?bad = "example_envelope\<lparr>te_Payload := zero_TaskPayload\<lparr>tp_Objective := ''x''\<rparr>\<rparr>"
  have pool: "wp_world example_pool = 0" "wp_handler example_pool = (\<lambda>e w. (Some ''boom'', w + 1))"
      "wp_deadLetterHandler example_pool = Some (\<lambda>e reason w. w + 10)"
    by (simp_all add: example_pool_def NewWorkerPool_def Let_def)
  have "wp_world (processEnvelope example_env 5 6 1 \<lparr>ed_Envelope = example_envelope, ed_Topic = None\<rparr>
     example_pool) = 1"
    using processEnvelope_outcome [of example_pool example_envelope r
        "\<lparr>ed_Envelope = example_envelope, ed_Topic = None\<rparr>" tp_Objective "\<lambda>x. x" 5 6 1] r ck cnt pool
    by (simp add: Let_def tid example_env_def payloadChecksum_def memory_env_def hex_encode_def)
      (simp add: example_envelope_def zero_TaskEnvelope_def zero_TaskPayload_def)
  moreover have "wp_world (processEnvelope example_env 5 6 1
     \<lparr>ed_Envelope = ?bad, ed_Topic = None\<rparr> example_pool) = 10"
    using processEnvelope_outcome [of example_pool ?bad r
        "\<lparr>ed_Envelope = ?bad, ed_Topic = None\<rparr>" tp_Objective "\<lambda>x. x" 5 6 1] r ck pool
    by (simp add: Let_def tid example_env_def payloadChecksum_def memory_env_def hex_encode_def)
  ultimately show ?thesis by simp
qed

text \<open>Pools that workers, idle polls and the other clients of the supervisor can reach.\<close>

inductive pool_reachable :: "'b delivery_env \<Rightarrow> ('b, 'w) WorkerPool \<Rightarrow> bool" for E where
  pool_new: "pool_reachable E (NewWorkerPool s a c i handler dlh w)"
| pool_start: "pool_reachable E p \<Longrightarrow> pool_reachable E (snd (Start st er p))"
| pool_poll: "pool_reachable E p \<Longrightarrow> pool_reachable E (runWorkerIteration E start now wid p)"
| pool_deliver: "pool_reachable E p \<Longrightarrow> pool_reachable E (runDeliveryWorkerIteration E start now wid d p)"
| pool_clients: "pool_reachable E p \<Longrightarrow> pool_reachable E (p\<lparr>wp_supervisor := s, wp_world := w\<rparr>)"

lemma metrics_ok_fold:
  "metrics_ok (wp_metrics p) \<Longrightarrow> metrics_ok (wp_metrics (fold (\<lambda>x. processEnvelope E start now wid (f x)) xs p))"
  by (induction xs arbitrary: p) (simp_all add: metrics_ok_process)

lemma pool_reachable_metrics: "pool_reachable E p \<Longrightarrow> metrics_ok (wp_metrics p)"
proof (induction rule: pool_reachable.induct)
  case (pool_poll p start now wid)
  then show ?case
    unfolding runWorkerIteration_def Let_def split_def
    by (auto intro!: metrics_ok_fold simp: onSupervisor_def split_def Let_def)
      (simp add: recordIdlePoll_def metrics_ok_def)
next
  case (pool_deliver p start now wid d)
  then show ?case
    by (simp add: runDeliveryWorkerIteration_def metrics_ok_process split: option.split)
qed (simp_all add: NewWorkerPool_def Let_def metrics_ok_def Start_def)

text \<open>The counters of a pool account for every envelope: between two envelopes no worker is
  active, every processed envelope is counted exactly once as succeeded, failed or not validated,
  and at most one retry or dead letter is counted per envelope that did not succeed.\<close>

theorem worker_metrics_balance:
  assumes "pool_reachable E p"
  shows "wm_Processed (wp_metrics p) = wm_Succeeded (wp_metrics p) + wm_Failed (wp_metrics p) +
      wm_ValidationFailures (wp_metrics p) \<and>
    wm_Retried (wp_metrics p) + wm_DeadLettered (wp_metrics p) \<le>
      wm_Failed (wp_metrics p) + wm_ValidationFailures (wp_metrics p) \<and>
    wm_ActiveWorkers (wp_metrics p) = 0"
  using pool_reachable_metrics [OF assms] by (simp add: metrics_ok_def)

theorem worker_metrics_balance_witness:
  "let p = runWorkerIteration example_env 6 7 0 example_pool in
   wm_Processed (wp_metrics p) = wm_Succeeded (wp_metrics p) + wm_Failed (wp_metrics p) +
     wm_ValidationFailures (wp_metrics p)"
proof -
  have "pool_reachable example_env (runWorkerIteration example_env 6 7 0 example_pool)"
    unfolding example_pool_def by (intro pool_poll pool_new)
  from worker_metrics_balance [OF this] show ?thesis by (simp add: Let_def)
qed

text \<open>C39. An envelope that fails after its last retry is dead-lettered without closing its record:
  the record keeps the status \<open>validated\<close>, and the next timeout inspection appends the same
  envelope to the dead letters a second time.\<close>

theorem exhausted_delivery_dead_lettered_twice:
  assumes "sv_records (wp_supervisor p) = [te_TaskID e \<mapsto> r]" "ed_Envelope d = e"
    and "payloadChecksum (memory_env marshal sum256) e = dr_PayloadChecksum r"
    and "fst (wp_handler p e (wp_world p)) \<noteq> None"
    and "\<not> dr_RetryCount r < maxRetries (dr_Envelope r)"
    and "later - now \<ge> sv_ackTimeout (wp_supervisor p)"
  shows "let E = memory_env marshal sum256; q = processEnvelope E start now wid d p;
      s = fst (InspectTimeouts E later [te_TaskID e] (wp_supervisor q));
      dead = (dr_Envelope r)\<lparr>te_IsDeadLetter := True\<rparr>
    in map_option dr_Status (sv_records (wp_supervisor q) (te_TaskID e)) = Some AckStatusValidated \<and>
      DeadLetters (sv_messageBus s) = DeadLetters (sv_messageBus (wp_supervisor p)) @ [dead, dead]"
proof -
  let ?E = "memory_env marshal sum256"
  obtain x w where hd: "wp_handler p e (wp_world p) = (Some x, w)"
    using assms(4) by (cases "wp_handler p e (wp_world p)") auto
  have rec: "sv_records (wp_supervisor p) (te_TaskID e) = Some r"
    using assms(1) by simp
  note out = process_exhausted [OF rec assms(2,3) hd assms(5) refl refl, of start now wid]
  let ?q = "processEnvelope ?E start now wid d p"
  obtain r' where r': "sv_records (wp_supervisor ?q) (te_TaskID e) = Some r'"
      "dr_Status r' = AckStatusValidated" "dr_RetryCount r' = dr_RetryCount r"
      "dr_Envelope r' = dr_Envelope r" "dr_LastProgressAt r' = now"
    using out(1) by auto
  have to: "sv_ackTimeout (wp_supervisor ?q) = sv_ackTimeout (wp_supervisor p)"
    using rec assms(2,3,5) hd
    by (simp add: processEnvelope_body processBody_ok retryOrDeadLetter_def pool_defs
        handshakePool_def split: option.split)
  have "DeadLetters (sv_messageBus (fst (InspectTimeouts ?E later [te_TaskID e] (wp_supervisor ?q)))) =
      DeadLetters (sv_messageBus (wp_supervisor ?q)) @ [(dr_Envelope r)\<lparr>te_IsDeadLetter := True\<rparr>]"
    using r' to assms(5,6)
    by (simp add: InspectTimeouts_def inspectOne_def isTerminalStatus_def Let_def split_def
        DeadLetters_def bus_simps)
  then show ?thesis
    using r' out(4) by (simp add: Let_def)
qed

definition exhausted_pool :: "(MessageBus, nat) WorkerPool" where
  "exhausted_pool = example_pool\<lparr>wp_supervisor := snd (Dispatch example_env 5
     (example_envelope\<lparr>te_RetryCount := 3\<rparr>) (NewSupervisor NewMessageBus (2 * second)))\<rparr>"

theorem exhausted_delivery_dead_lettered_twice_witness:
  "let q = processEnvelope example_env 6 7 0 \<lparr>ed_Envelope = example_envelope, ed_Topic = None\<rparr>
       exhausted_pool;
     s = fst (InspectTimeouts example_env (7 + 2 * second) [''t1''] (wp_supervisor q))
   in map te_TaskID (DeadLetters (sv_messageBus s)) = [''t1'', ''t1'']"
proof -
  define r where "r = the (sv_records (wp_supervisor exhausted_pool) ''t1'')"
  have tid: "te_TaskID example_envelope = ''t1''" by (simp add: example_envelope_def)
  have rec: "sv_records (wp_supervisor exhausted_pool) = [''t1'' \<mapsto> r]"
    and ck: "dr_PayloadChecksum r = []" and cnt: "dr_RetryCount r = 3" "maxRetries (dr_Envelope r) = 3"
    and id: "te_TaskID (dr_Envelope r) = ''t1''"
    and old: "sv_ackTimeout (wp_supervisor exhausted_pool) = 2 * second"
      "DeadLetters (sv_messageBus (wp_supervisor exhausted_pool)) = []"
    unfolding r_def
    by (simp_all add: exhausted_pool_def Dispatch_def NewSupervisor_def Let_def split_def
        example_env_def example_envelope_def zero_TaskEnvelope_def zero_TaskPayload_def
        payloadChecksum_def hex_encode_def maxRetries_def SendEnvelope_def bus_simps memory_env_def
        DeadLetters_def NewMessageBus_def)
  have sum: "payloadChecksum (memory_env tp_Objective (\<lambda>x. x)) example_envelope = dr_PayloadChecksum r"
    by (simp add: ck payloadChecksum_def memory_env_def hex_encode_def example_envelope_def
        zero_TaskEnvelope_def zero_TaskPayload_def)
  have hd: "fst (wp_handler exhausted_pool example_envelope (wp_world exhausted_pool)) \<noteq> None"
    by (simp add: exhausted_pool_def example_pool_def NewWorkerPool_def Let_def)
  show ?thesis
    using exhausted_delivery_dead_lettered_twice [OF rec [folded tid] _ sum hd, of
        "\<lparr>ed_Envelope = example_envelope, ed_Topic = None\<rparr>" "7 + 2 * second" 7 6 0] cnt id old
    by (simp add: Let_def tid example_env_def)
qed

end
