(* ===== verification/WebSocket.thy ===== *)
theory WebSocket
  imports Prelude "HOL-Library.Word"
begin

unbundle bit_operations_syntax

text \<open>
  The WebSocket codec, \<open>go-core/internal/transport/websocket.go\<close>: the server side of RFC 6455,
  reading masked client frames and writing unmasked server frames.

  A connection is the bytes that will still arrive (\<open>ws_input\<close>; its end is the end of the
  stream), the bytes written so far and whether the peer still takes writes. Bytes are 8-bit
  words and the payload length is the 64-bit word of the code. Read deadlines are not modelled: a
  deadline that passes is the same as the stream ending there. The \<open>json.Marshal\<close> of \<open>WriteJSON\<close>
  happens before the model's \<open>WriteText\<close>.
\<close>

type_synonym byte = "8 word"

datatype ws_error = WsEOF | WsUnexpectedEOF | WsWriteFailed | WsProtocolError string

type_synonym 'a result = "ws_error + 'a"

record WSConn =
  ws_input :: "byte list"
  ws_output :: "byte list"
  ws_open :: bool
  ws_closedOnce :: bool
  ws_maxMessage :: int

abbreviation (input) wsOpcodeContinuation :: byte where "wsOpcodeContinuation \<equiv> 0x0"
abbreviation (input) wsOpcodeText :: byte where "wsOpcodeText \<equiv> 0x1"
abbreviation (input) wsOpcodeBinary :: byte where "wsOpcodeBinary \<equiv> 0x2"
abbreviation (input) wsOpcodeClose :: byte where "wsOpcodeClose \<equiv> 0x8"
abbreviation (input) wsOpcodePing :: byte where "wsOpcodePing \<equiv> 0x9"
abbreviation (input) wsOpcodePong :: byte where "wsOpcodePong \<equiv> 0xA"
abbreviation (input) defaultMaxMessage :: int where "defaultMaxMessage \<equiv> 4194304"

definition SetMaxMessageSize :: "int \<Rightarrow> WSConn \<Rightarrow> WSConn" where
  "SetMaxMessageSize n c = (if n > 0 then c\<lparr>ws_maxMessage := n\<rparr> else c)"

section \<open>Reading and writing bytes\<close>

text \<open>\<open>io.ReadFull\<close>: all \<open>n\<close> bytes or an error, which is \<open>io.EOF\<close> only if no byte was left.\<close>

definition ReadFull :: "nat \<Rightarrow> WSConn \<Rightarrow> byte list result \<times> WSConn" where
  "ReadFull n c =
     (if n \<le> length (ws_input c)
      then (Inr (take n (ws_input c)), c\<lparr>ws_input := drop n (ws_input c)\<rparr>)
      else (Inl (if ws_input c = [] then WsEOF else WsUnexpectedEOF), c\<lparr>ws_input := []\<rparr>))"

text \<open>The value and the bytes of a number in network byte order, \<open>binary.BigEndian\<close>.\<close>

definition be_nat :: "byte list \<Rightarrow> nat" where
  "be_nat bs = foldl (\<lambda>a b. a * 256 + unat b) 0 bs"

fun be_bytes :: "nat \<Rightarrow> nat \<Rightarrow> byte list" where
  "be_bytes 0 n = []"
| "be_bytes (Suc k) n = be_bytes k (n div 256) @ [of_nat n]"

definition connWrite :: "byte list \<Rightarrow> WSConn \<Rightarrow> unit result \<times> WSConn" where
  "connWrite bs c = (if ws_open c then (Inr (), c\<lparr>ws_output := ws_output c @ bs\<rparr>)
     else (Inl WsWriteFailed, c))"

section \<open>Frames\<close>

text \<open>The last loop of \<open>readFrame\<close>: byte \<open>i\<close> of the payload is XORed with byte \<open>i mod 4\<close> of the mask.\<close>

definition applyMask :: "byte list \<Rightarrow> byte list \<Rightarrow> byte list" where
  "applyMask key payload =
     map (\<lambda>i. payload ! i XOR key ! (i mod 4)) [0..<length payload]"

text \<open>The extended length that follows a 7-bit length of 126 or 127.\<close>

definition readLength :: "64 word \<Rightarrow> WSConn \<Rightarrow> 64 word result \<times> WSConn" where
  "readLength len c =
     (if len = 126 then
        (case ReadFull 2 c of
           (Inl e, c) \<Rightarrow> (Inl e, c)
         | (Inr ext, c) \<Rightarrow> (Inr (of_nat (be_nat ext)), c))
      else if len = 127 then
        (case ReadFull 8 c of
           (Inl e, c) \<Rightarrow> (Inl e, c)
         | (Inr ext, c) \<Rightarrow>
             let len = of_nat (be_nat ext) :: 64 word in
             if drop_bit 63 len \<noteq> 0
             then (Inl (WsProtocolError ''invalid websocket payload length''), c)
             else (Inr len, c))
      else (Inr len, c))"

definition readFrame :: "WSConn \<Rightarrow> (bool \<times> byte \<times> byte list) result \<times> WSConn" where
  "readFrame c =
     (case ReadFull 2 c of
        (Inl e, c) \<Rightarrow> (Inl e, c)
      | (Inr header, c) \<Rightarrow>
          if header ! 0 AND 0x70 \<noteq> 0
          then (Inl (WsProtocolError ''websocket extensions are not supported''), c)
          else
            let fin = (header ! 0 AND 0x80 \<noteq> 0);
                opcode = header ! 0 AND 0x0F in
            if \<not> (header ! 1 AND 0x80 \<noteq> 0)
            then (Inl (WsProtocolError ''client websocket frames must be masked''), c)
            else
              (case readLength (ucast (header ! 1 AND 0x7F)) c of
                 (Inl e, c) \<Rightarrow> (Inl e, c)
               | (Inr len, c) \<Rightarrow>
                   if opcode \<ge> wsOpcodeClose \<and> (\<not> fin \<or> len > 125)
                   then (Inl (WsProtocolError ''invalid websocket control frame''), c)
                   else if len > word_of_int (ws_maxMessage c)
                   then (Inl (WsProtocolError ''websocket frame exceeds size limit''), c)
                   else
                     (case ReadFull 4 c of
                        (Inl e, c) \<Rightarrow> (Inl e, c)
                      | (Inr key, c) \<Rightarrow>
                          (case ReadFull (unat len) c of
                             (Inl e, c) \<Rightarrow> (Inl e, c)
                           | (Inr payload, c) \<Rightarrow> (Inr (fin, opcode, applyMask key payload), c)))))"

definition writeFrame :: "byte \<Rightarrow> byte list \<Rightarrow> WSConn \<Rightarrow> unit result \<times> WSConn" where
  "writeFrame opcode payload c =
     (let n = length payload;
          header = [0x80 OR opcode];
          header = (if n < 126 then header @ [of_nat n]
                    else if n \<le> 65535 then header @ [126, of_nat (n div 256), of_nat n]
                    else header @ [127] @ be_bytes 8 n)
      in case connWrite header c of
           (Inl e, c) \<Rightarrow> (Inl e, c)
         | (Inr _, c) \<Rightarrow> if n > 0 then connWrite payload c else (Inr (), c))"

lemma ReadFull_le: "length (ws_input (snd (ReadFull n c))) \<le> length (ws_input c)"
  by (simp add: ReadFull_def)

lemma ReadFull_ok:
  "ReadFull n c = (Inr bs, c') \<Longrightarrow>
   ws_input c = bs @ ws_input c' \<and> length bs = n \<and> c' = c\<lparr>ws_input := ws_input c'\<rparr>"
  by (auto simp: ReadFull_def split: if_splits)

lemma readLength_ok:
  "readLength len c = (Inr n, c') \<Longrightarrow>
   length (ws_input c') \<le> length (ws_input c) \<and> c' = c\<lparr>ws_input := ws_input c'\<rparr>"
  by (auto simp: readLength_def Let_def dest!: ReadFull_ok split: if_splits prod.splits sum.splits)

text \<open>A frame that was read has at least a header and a mask, so reading it shortens the input.\<close>

lemma readFrame_shorter:
  assumes "readFrame c = (Inr f, c')"
  shows "length (ws_input c') < length (ws_input c)"
  using assms
  by (auto simp: readFrame_def Let_def dest!: ReadFull_ok readLength_ok
      split: if_splits prod.splits sum.splits)

lemma writeFrame_input [simp]: "ws_input (snd (writeFrame op payload c)) = ws_input c"
  by (simp add: writeFrame_def connWrite_def Let_def)

section \<open>Messages\<close>

text \<open>The loop of \<open>ReadMessage\<close> with its two variables.\<close>

function readLoop :: "byte list \<Rightarrow> byte \<Rightarrow> WSConn \<Rightarrow> byte list result \<times> WSConn" where
  "readLoop message messageOpcode c =
     (case readFrame c of
        (Inl e, c') \<Rightarrow> (Inl e, c')
      | (Inr (fin, opcode, payload), c') \<Rightarrow>
          if opcode = wsOpcodePing then
            (case writeFrame wsOpcodePong payload c' of
               (Inl e, c'') \<Rightarrow> (Inl e, c'')
             | (Inr _, c'') \<Rightarrow> readLoop message messageOpcode c'')
          else if opcode = wsOpcodePong then readLoop message messageOpcode c'
          else if opcode = wsOpcodeClose then
            (Inl WsEOF, snd (writeFrame wsOpcodeClose payload c'))
          else
            let step = (if opcode = wsOpcodeText \<or> opcode = wsOpcodeBinary then
                if messageOpcode \<noteq> 0
                then Inl (WsProtocolError ''new data frame before fragmented message completed'')
                else Inr (opcode, message @ payload)
              else if opcode = wsOpcodeContinuation then
                if messageOpcode = 0
                then Inl (WsProtocolError ''unexpected continuation frame'')
                else Inr (messageOpcode, message @ payload)
              else Inl (WsProtocolError ''unsupported websocket opcode'')) in
            (case step of
               Inl e \<Rightarrow> (Inl e, c')
             | Inr (op', msg) \<Rightarrow>
                 if int (length msg) > ws_maxMessage c'
                 then (Inl (WsProtocolError ''websocket message exceeds size limit''), c')
                 else if fin \<and> op' \<noteq> 0 then
                   if op' \<noteq> wsOpcodeText
                   then (Inl (WsProtocolError ''binary websocket messages are not supported''), c')
                   else (Inr msg, c')
                 else readLoop msg op' c'))"
  by pat_completeness auto
termination
proof (relation "measure (\<lambda>(_, _, c). length (ws_input c))", goal_cases)
  case 1
  then show ?case by simp
next
  case (2 message messageOpcode c x c' f y fin opp payload z c'' u)
  have "ws_input c'' = ws_input c'"
    using writeFrame_input [of wsOpcodePong payload c'] 2 by (metis snd_conv)
  moreover have "length (ws_input c') < length (ws_input c)"
    using 2 by (intro readFrame_shorter [of c f]) simp
  ultimately show ?case by simp
next
  case (3 message messageOpcode c x c' f)
  then have "length (ws_input c') < length (ws_input c)"
    by (intro readFrame_shorter [of c f]) simp
  then show ?case by simp
next
  case (4 message messageOpcode c x c' f)
  then have "length (ws_input c') < length (ws_input c)"
    by (intro readFrame_shorter [of c f]) simp
  then show ?case by simp
qed


declare readLoop.simps [simp del]

definition ReadMessage :: "WSConn \<Rightarrow> byte list result \<times> WSConn" where
  "ReadMessage c = readLoop [] 0 c"

text \<open>\<open>WriteJSON\<close> after the value was marshalled.\<close>

definition WriteText :: "byte list \<Rightarrow> WSConn \<Rightarrow> unit result \<times> WSConn" where
  "WriteText payload c = writeFrame wsOpcodeText payload c"

definition WritePing :: "byte list \<Rightarrow> WSConn \<Rightarrow> unit result \<times> WSConn" where
  "WritePing payload c =
     (let payload = (if length payload > 125 then take 125 payload else payload)
      in writeFrame wsOpcodePing payload c)"

definition Close :: "WSConn \<Rightarrow> WSConn" where
  "Close c = (if ws_closedOnce c then c
     else (snd (writeFrame wsOpcodeClose [] c))\<lparr>ws_open := False, ws_closedOnce := True\<rparr>)"

section \<open>Upgrade\<close>

text \<open>The values of the request headers the upgrade reads: every value of a repeated header for
  \<open>headerContainsToken\<close>, the first one for \<open>Header.Get\<close>.\<close>

definition headerContainsToken :: "string list \<Rightarrow> string \<Rightarrow> bool" where
  "headerContainsToken vals token \<longleftrightarrow>
     (\<exists>v \<in> set vals. \<exists>part \<in> set (split_on CHR '','' v). EqualFold (TrimSpace part) token)"

definition headerGet :: "string list \<Rightarrow> string" where
  "headerGet vals = (case vals of [] \<Rightarrow> [] | v # _ \<Rightarrow> v)"

record UpgradeRequest =
  ur_Method :: string
  ur_Connection :: "string list"
  ur_Upgrade :: "string list"
  ur_Version :: "string list"
  ur_Key :: "string list"

text \<open>The checks of \<open>UpgradeWebSocket\<close> before it takes over the connection; \<open>decode\<close> is
  \<open>base64.StdEncoding.DecodeString\<close> and the result of a passed check is the key.\<close>

definition upgradeCheck :: "(string \<Rightarrow> byte list option) \<Rightarrow> UpgradeRequest \<Rightarrow> string result" where
  "upgradeCheck decode r =
     (if ur_Method r \<noteq> ''GET'' then Inl (WsProtocolError ''websocket upgrade requires GET'')
      else if \<not> headerContainsToken (ur_Connection r) ''upgrade'' \<or>
              \<not> headerContainsToken (ur_Upgrade r) ''websocket''
      then Inl (WsProtocolError ''missing websocket upgrade headers'')
      else if TrimSpace (headerGet (ur_Version r)) \<noteq> ''13''
      then Inl (WsProtocolError ''unsupported websocket version'')
      else
        let key = TrimSpace (headerGet (ur_Key r)) in
        case decode key of
          None \<Rightarrow> Inl (WsProtocolError ''invalid Sec-WebSocket-Key'')
        | Some k \<Rightarrow> if length k \<noteq> 16 then Inl (WsProtocolError ''invalid Sec-WebSocket-Key'')
            else Inr key)"

definition websocketAccept :: "(string \<Rightarrow> string) \<Rightarrow> (string \<Rightarrow> string) \<Rightarrow> string \<Rightarrow> string" where
  "websocketAccept sha1Sum encode key =
     encode (sha1Sum (key @ ''258EAFA5-E914-47DA-95CA-C5AB0DC85B11''))"

section \<open>RFC 6455 frames\<close>

text \<open>The frame layout of the RFC, as the other end of the connection produces and reads it.\<close>

definition rfcHeader :: "bool \<Rightarrow> byte \<Rightarrow> bool \<Rightarrow> nat \<Rightarrow> byte list" where
  "rfcHeader fin opcode masked n =
     [(if fin then 0x80 else 0) OR opcode,
      (if masked then 0x80 else 0) OR (if n < 126 then of_nat n else if n \<le> 65535 then 126 else 127)] @
     (if n < 126 then [] else if n \<le> 65535 then be_bytes 2 n else be_bytes 8 n)"

record ClientFrame =
  cf_fin :: bool
  cf_opcode :: byte
  cf_key :: "byte list"
  cf_payload :: "byte list"

definition clientBytes :: "ClientFrame \<Rightarrow> byte list" where
  "clientBytes f = rfcHeader (cf_fin f) (cf_opcode f) True (length (cf_payload f)) @ cf_key f @
     applyMask (cf_key f) (cf_payload f)"

definition valid_frame :: "int \<Rightarrow> ClientFrame \<Rightarrow> bool" where
  "valid_frame limit f \<longleftrightarrow> cf_opcode f < 16 \<and> length (cf_key f) = 4 \<and>
     int (length (cf_payload f)) \<le> limit \<and>
     (cf_opcode f \<ge> wsOpcodeClose \<longrightarrow> cf_fin f \<and> length (cf_payload f) \<le> 125)"

text \<open>Limits that fit the 64-bit comparison of the code.\<close>

definition limit_ok :: "int \<Rightarrow> bool" where
  "limit_ok limit \<longleftrightarrow> 0 < limit \<and> limit < 2 ^ 63"

section \<open>Byte order and masking\<close>

lemma be_nat_snoc: "be_nat (bs @ [b]) = be_nat bs * 256 + unat b"
  by (simp add: be_nat_def)

lemma be_nat_bytes: "be_nat (be_bytes k n) = n mod 256 ^ k"
proof (induction k arbitrary: n)
  case 0
  then show ?case by (simp add: be_nat_def)
next
  case (Suc k)
  have "be_nat (be_bytes (Suc k) n) = (n div 256 mod 256 ^ k) * 256 + n mod 256"
    using Suc by (simp add: be_nat_snoc unat_of_nat)
  also have "\<dots> = n mod (256 * 256 ^ k)"
    by (simp add: mod_mult2_eq)
  finally show ?case by simp
qed

lemma length_be_bytes [simp]: "length (be_bytes k n) = k"
  by (induction k arbitrary: n) auto

lemma length_applyMask [simp]: "length (applyMask key p) = length p"
  by (simp add: applyMask_def)

lemma applyMask_twice [simp]: "applyMask key (applyMask key p) = p"
  by (rule nth_equalityI) (simp_all add: applyMask_def xor.assoc)

section \<open>Header bytes\<close>

lemma nibble_cases:
  assumes "(b :: byte) < 16"
  shows "b \<in> set (map of_nat [0..<16])"
proof -
  have "unat b < 16" using assms by (simp add: word_less_nat_alt)
  then have "(of_nat (unat b) :: byte) \<in> of_nat ` {0..<16 :: nat}"
    by (intro imageI) simp
  then show ?thesis by simp
qed

lemma header_byte:
  assumes "(opc :: byte) < 16"
  shows "((if fin then 0x80 else 0) OR opc) AND 0x70 = 0"
    and "((if fin then 0x80 else 0) OR opc) AND 0x80 \<noteq> 0 \<longleftrightarrow> fin"
    and "((if fin then 0x80 else 0) OR opc) AND 0x0F = opc"
  using nibble_cases [OF assms] by (auto simp: upt_rec)

lemma length_byte:
  assumes "n < 128"
  shows "((0x80 :: byte) OR of_nat n) AND 0x7F = of_nat n"
    and "((0x80 :: byte) OR of_nat n) AND 0x80 \<noteq> 0"
proof -
  have "\<forall>n \<in> set [0..<128]. ((0x80 :: byte) OR of_nat n) AND 0x7F = of_nat n \<and>
      ((0x80 :: byte) OR of_nat n) AND 0x80 \<noteq> 0"
    by code_simp
  then show "((0x80 :: byte) OR of_nat n) AND 0x7F = of_nat n"
    and "((0x80 :: byte) OR of_nat n) AND 0x80 \<noteq> 0"
    using assms by auto
qed

section \<open>Reading a well-formed frame\<close>

lemma ReadFull_append:
  "ws_input c = bs @ rest \<Longrightarrow> length bs = n \<Longrightarrow> ReadFull n c = (Inr bs, c\<lparr>ws_input := rest\<rparr>)"
  by (auto simp: ReadFull_def)

lemma readLength_client:
  assumes "n < 2 ^ 63"
    and "ws_input c = (if n < 126 then [] else if n \<le> 65535 then be_bytes 2 n else be_bytes 8 n) @ rest"
  shows "readLength (of_nat (if n < 126 then n else if n \<le> 65535 then 126 else 127)) c =
    (Inr (of_nat n), c\<lparr>ws_input := rest\<rparr>)"
proof -
  have small: "(of_nat n :: 64 word) \<noteq> 126 \<and> (of_nat n :: 64 word) \<noteq> 127" if "n < 126"
    using that by (auto simp: word_of_nat_eq_iff [of n 126, simplified] word_of_nat_eq_iff [of n 127, simplified]
        take_bit_nat_eq_self)
  have top: "drop_bit 63 (of_nat n :: 64 word) = 0"
    using assms(1) by (intro word_unat_eq_iff [THEN iffD2]) (simp add: drop_bit_eq_div unat_div_distrib unat_of_nat)
  consider "n < 126" | "\<not> n < 126" "n \<le> 65535" | "\<not> n < 126" "\<not> n \<le> 65535" by blast
  then show ?thesis
  proof cases
    case 1
    with small assms(2) show ?thesis by (simp add: readLength_def)
  next
    case 2
    with assms(2) ReadFull_append [of c "be_bytes 2 n" rest 2] show ?thesis
      by (simp add: readLength_def be_nat_bytes)
  next
    case 3
    with assms top ReadFull_append [of c "be_bytes 8 n" rest 8] show ?thesis
      by (simp add: readLength_def be_nat_bytes Let_def)
  qed
qed

lemma limit_unat:
  assumes "limit_ok limit"
  shows "unat (word_of_int limit :: 64 word) = nat limit"
proof -
  obtain k where "limit = int k" "k < 2 ^ 63"
    using assms by (metis limit_ok_def zero_less_imp_eq_int of_nat_less_iff of_nat_numeral of_nat_power)
  then show ?thesis by (simp add: unat_of_nat)
qed

lemma limit_word:
  assumes "limit_ok limit" "int n \<le> limit"
  shows "unat (of_nat n :: 64 word) = n" "\<not> (of_nat n :: 64 word) > word_of_int limit" "n < 2 ^ 63"
proof -
  show n: "n < 2 ^ 63"
    using assms by (simp add: limit_ok_def)
  then show u: "unat (of_nat n :: 64 word) = n"
    by (simp add: unat_of_nat)
  show "\<not> (of_nat n :: 64 word) > word_of_int limit"
    using u assms(2) by (simp add: word_less_nat_alt limit_unat [OF assms(1)])
qed

lemma readLength_consumes:
  "readLength len c = (Inr n, d) \<Longrightarrow> \<exists>ext. ws_input c = ext @ ws_input d"
  by (auto simp: readLength_def Let_def dest!: ReadFull_ok split: if_splits prod.splits sum.splits)

lemma readFrame_client:
  assumes "valid_frame (ws_maxMessage c) f" "limit_ok (ws_maxMessage c)"
    and "ws_input c = clientBytes f @ rest"
  shows "readFrame c = (Inr (cf_fin f, cf_opcode f, cf_payload f), c\<lparr>ws_input := rest\<rparr>)"
proof -
  define n where "n = length (cf_payload f)"
  define code where "code = (if n < 126 then n else if n \<le> 65535 then 126 else 127)"
  define b0 where "b0 = (if cf_fin f then 0x80 else 0) OR cf_opcode f"
  define b1 where "b1 = (0x80 OR of_nat code :: byte)"
  define ext where "ext = (if n < 126 then [] else if n \<le> 65535 then be_bytes 2 n else be_bytes 8 n)"
  define body where "body = applyMask (cf_key f) (cf_payload f)"
  have lim: "int n \<le> ws_maxMessage c" and key: "length (cf_key f) = 4"
    and opc: "cf_opcode f < 16" and ctl: "cf_opcode f \<ge> 8 \<longrightarrow> cf_fin f \<and> n \<le> 125"
    using assms(1) by (auto simp: valid_frame_def n_def)
  note fits = limit_word [OF assms(2) lim]
  have inp: "ws_input c = [b0, b1] @ ext @ cf_key f @ body @ rest"
    using assms(3)
    by (simp add: clientBytes_def rfcHeader_def b0_def b1_def ext_def body_def code_def n_def)
  have code: "code < 128" by (simp add: code_def)
  have unmask: "applyMask (cf_key f) body = cf_payload f" by (simp add: body_def)
  have h: "b0 AND 0x70 = 0" "b0 AND 0x80 \<noteq> 0 \<longleftrightarrow> cf_fin f" "b0 AND 0x0F = cf_opcode f"
      "b1 AND 0x7F = of_nat code" "b1 AND 0x80 \<noteq> 0"
    unfolding b0_def b1_def by (rule header_byte [OF opc] length_byte [OF code])+
  have uc: "ucast (of_nat code :: byte) = (of_nat code :: 64 word)"
    using code by (simp add: unsigned_of_nat take_bit_nat_eq_self)
  have len: "readLength (of_nat code) (c\<lparr>ws_input := ext @ cf_key f @ body @ rest\<rparr>) =
      (Inr (of_nat n), c\<lparr>ws_input := cf_key f @ body @ rest\<rparr>)"
    using readLength_client [OF fits(3)] unfolding code_def ext_def by simp
  have rd: "ReadFull 2 c = (Inr [b0, b1], c\<lparr>ws_input := ext @ cf_key f @ body @ rest\<rparr>)"
    "ReadFull 4 (c\<lparr>ws_input := cf_key f @ body @ rest\<rparr>) = (Inr (cf_key f), c\<lparr>ws_input := body @ rest\<rparr>)"
    "ReadFull n (c\<lparr>ws_input := body @ rest\<rparr>) = (Inr body, c\<lparr>ws_input := rest\<rparr>)"
    using ReadFull_append [OF inp, of 2] key
    by (simp_all add: ReadFull_append body_def n_def)
  have "\<not> (of_nat n :: 64 word) > 125" if "cf_opcode f \<ge> 8"
    using that ctl fits(1) by (simp add: word_less_nat_alt)
  then have "(cf_opcode f \<ge> 8 \<and> (\<not> cf_fin f \<or> (of_nat n :: 64 word) > 125)) = False"
    using ctl by blast
  then show ?thesis
    unfolding readFrame_def rd(1) using fits(1,2) h
    by (simp add: Let_def uc len rd(2,3) unmask)
qed

section \<open>Writing a frame\<close>

lemma writeFrame_rfc:
  "ws_open c \<Longrightarrow> writeFrame opcode payload c = (Inr (), c\<lparr>ws_output := ws_output c @
     rfcHeader True opcode False (length payload) @ payload\<rparr>)"
  by (simp add: writeFrame_def connWrite_def rfcHeader_def Let_def numeral_2_eq_2)

section \<open>Messages as sequences of frames\<close>

text \<open>One text message: a text frame, continuation frames up to the first final one, with pings and
  pongs anywhere before the end.\<close>

fun is_message :: "bool \<Rightarrow> ClientFrame list \<Rightarrow> bool" where
  "is_message started [] = False"
| "is_message started (f # fs) =
     (if cf_opcode f = wsOpcodePing \<or> cf_opcode f = wsOpcodePong then is_message started fs
      else cf_opcode f = (if started then wsOpcodeContinuation else wsOpcodeText) \<and>
        (if cf_fin f then fs = [] else is_message True fs))"

definition message_of :: "ClientFrame list \<Rightarrow> byte list" where
  "message_of fs = concat (map cf_payload
     (filter (\<lambda>f. cf_opcode f \<noteq> wsOpcodePing \<and> cf_opcode f \<noteq> wsOpcodePong) fs))"

definition pongs_of :: "ClientFrame list \<Rightarrow> byte list" where
  "pongs_of fs = concat (map (\<lambda>f. rfcHeader True wsOpcodePong False (length (cf_payload f)) @ cf_payload f)
     (filter (\<lambda>f. cf_opcode f = wsOpcodePing) fs))"

lemma readLoop_message:
  assumes "is_message (mop = 1) fs" "mop = 0 \<or> mop = 1"
    and "\<forall>f \<in> set fs. valid_frame (ws_maxMessage c) f" "limit_ok (ws_maxMessage c)"
    and "int (length (acc @ message_of fs)) \<le> ws_maxMessage c" "ws_open c"
    and "ws_input c = concat (map clientBytes fs) @ rest"
  shows "readLoop acc mop c = (Inr (acc @ message_of fs),
    c\<lparr>ws_input := rest, ws_output := ws_output c @ pongs_of fs\<rparr>)"
  using assms
proof (induction fs arbitrary: acc mop c)
  case (Cons f fs)
  let ?c = "c\<lparr>ws_input := concat (map clientBytes fs) @ rest\<rparr>"
  have frame: "readFrame c = (Inr (cf_fin f, cf_opcode f, cf_payload f), ?c)"
    using Cons.prems by (intro readFrame_client) simp_all
  consider "cf_opcode f = 9" | "cf_opcode f = 10" | "cf_opcode f = (if mop = 1 then 0 else 1)"
    using Cons.prems(1) by (cases "cf_opcode f = 9 \<or> cf_opcode f = 10") (simp_all, blast+)
  then show ?case
  proof cases
    case 1
    let ?c' = "?c\<lparr>ws_output := ws_output c @ rfcHeader True wsOpcodePong False
      (length (cf_payload f)) @ cf_payload f\<rparr>"
    have "readLoop acc mop c = readLoop acc mop ?c'"
      using Cons.prems(6) 1 by (subst readLoop.simps) (simp add: frame writeFrame_rfc)
    moreover have "readLoop acc mop ?c' = (Inr (acc @ message_of fs),
        ?c'\<lparr>ws_input := rest, ws_output := ws_output ?c' @ pongs_of fs\<rparr>)"
      using Cons.prems 1 by (intro Cons.IH) (simp_all add: message_of_def)
    ultimately show ?thesis
      using 1 by (simp add: message_of_def pongs_of_def)
  next
    case 2
    have "readLoop acc mop c = readLoop acc mop ?c"
      using 2 by (subst readLoop.simps) (simp add: frame)
    moreover have "readLoop acc mop ?c = (Inr (acc @ message_of fs),
        ?c\<lparr>ws_input := rest, ws_output := ws_output ?c @ pongs_of fs\<rparr>)"
      using Cons.prems 2 by (intro Cons.IH) (simp_all add: message_of_def)
    ultimately show ?thesis
      using 2 by (simp add: message_of_def pongs_of_def)
  next
    case 3
    let ?acc = "acc @ cf_payload f"
    have data: "cf_opcode f = 0 \<and> mop = 1 \<or> cf_opcode f = 1 \<and> mop = 0"
      using 3 Cons.prems(2) by auto
    have msg: "message_of (f # fs) = cf_payload f @ message_of fs" "pongs_of (f # fs) = pongs_of fs"
      using data by (auto simp: message_of_def pongs_of_def)
    have short: "\<not> int (length ?acc) > ws_maxMessage c"
      using Cons.prems(5) msg by simp
    show ?thesis
    proof (cases "cf_fin f")
      case True
      then have "fs = []" using Cons.prems(1) data by auto
      with True short data show ?thesis
        unfolding msg by (subst readLoop.simps) (auto simp: frame message_of_def pongs_of_def)
    next
      case False
      have "readLoop acc mop c = readLoop ?acc 1 ?c"
        using False short data by (subst readLoop.simps) (auto simp: frame)
      moreover have "readLoop ?acc 1 ?c = (Inr (?acc @ message_of fs),
          ?c\<lparr>ws_input := rest, ws_output := ws_output ?c @ pongs_of fs\<rparr>)"
        using Cons.prems False data msg by (intro Cons.IH) auto
      ultimately show ?thesis unfolding msg by simp
    qed
  qed
qed simp

lemma ReadFull_max: "ReadFull n c = (x, d) \<Longrightarrow> ws_maxMessage d = ws_maxMessage c"
  by (auto simp: ReadFull_def split: if_splits)

lemma readLength_max: "readLength len c = (x, d) \<Longrightarrow> ws_maxMessage d = ws_maxMessage c"
  by (auto simp: readLength_def Let_def split: if_splits prod.splits sum.splits dest!: ReadFull_max)

lemma readFrame_max: "readFrame c = (x, d) \<Longrightarrow> ws_maxMessage d = ws_maxMessage c"
  unfolding readFrame_def Let_def
  by (auto split: if_splits prod.splits sum.splits dest!: ReadFull_max readLength_max)

lemma writeFrame_max [simp]: "ws_maxMessage (snd (writeFrame op payload c)) = ws_maxMessage c"
  by (simp add: writeFrame_def connWrite_def Let_def)

lemma readFrame_consumes:
  assumes "readFrame c = (Inr f, c')"
  shows "length (ws_input c') + 6 \<le> length (ws_input c)"
  using assms
  by (auto simp: readFrame_def Let_def dest!: ReadFull_ok readLength_ok
      split: if_splits prod.splits sum.splits)

text \<open>One round of the loop on the way to a message.\<close>

lemma readLoop_ok_step:
  assumes "readLoop acc mop c = (Inr m, c')"
  obtains acc' mop' c1 where "length (ws_input c1) + 6 \<le> length (ws_input c)"
    "ws_maxMessage c1 = ws_maxMessage c"
    "readLoop acc' mop' c1 = (Inr m, c') \<or> c' = c1 \<and> int (length m) \<le> ws_maxMessage c"
proof -
  obtain fr c1 where fr: "readFrame c = (fr, c1)" by (cases "readFrame c")
  obtain fin opc payload where ok: "fr = Inr (fin, opc, payload)"
    using assms by (cases fr) (auto simp: readLoop.simps [of acc mop c] fr)
  have max: "ws_maxMessage c1 = ws_maxMessage c" and shorter: "length (ws_input c1) + 6 \<le> length (ws_input c)"
    using readFrame_max [OF fr] readFrame_consumes [of c] fr ok by auto
  note e = readLoop.simps [of acc mop c, unfolded fr ok prod.case sum.case]
  show thesis
  proof (cases "opc = 9 \<or> opc = 10 \<or> opc = 8")
    case True
    obtain w c2 where w: "writeFrame wsOpcodePong payload c1 = (w, c2)"
      by (cases "writeFrame wsOpcodePong payload c1")
    have c2: "ws_input c2 = ws_input c1" "ws_maxMessage c2 = ws_maxMessage c1"
      using writeFrame_input [of wsOpcodePong payload c1] writeFrame_max [of wsOpcodePong payload c1] w
      by auto
    show thesis
      using assms True w c2 max shorter that [of c2 acc mop] that [of c1 acc mop]
      by (auto simp: e split: sum.splits)
  next
    case False
    then have "\<exists>acc' mop'. readLoop acc' mop' c1 = (Inr m, c') \<or>
        c' = c1 \<and> int (length m) \<le> ws_maxMessage c"
      using assms by (auto simp: e max split: if_splits)
    then show thesis using that [OF shorter max] by blast
  qed
qed

lemma readLoop_bound:
  "readLoop acc mop c = (Inr m, c') \<Longrightarrow>
   int (length m) \<le> ws_maxMessage c \<and> length (ws_input c') + 6 \<le> length (ws_input c)"
proof (induction "length (ws_input c)" arbitrary: acc mop c rule: less_induct)
  case less
  obtain acc' mop' c1 where c1: "length (ws_input c1) + 6 \<le> length (ws_input c)"
      "ws_maxMessage c1 = ws_maxMessage c"
    and rest: "readLoop acc' mop' c1 = (Inr m, c') \<or> c' = c1 \<and> int (length m) \<le> ws_maxMessage c"
    by (rule readLoop_ok_step [OF less.prems])
  from rest show ?case
  proof
    assume "readLoop acc' mop' c1 = (Inr m, c')"
    with less.hyps [of c1 acc' mop'] c1 show ?thesis by simp
  qed (use c1 in simp)
qed

section \<open>Properties\<close>

text \<open>C31. Reading inverts the client's encoding: a frame laid out as the RFC says, with any of the
  three length encodings, any key and any payload within the size limit, is read back as the same
  final flag, opcode and payload, and exactly its bytes are consumed.\<close>

theorem readFrame_decodes:
  assumes "valid_frame (ws_maxMessage c) f" "limit_ok (ws_maxMessage c)"
    and "ws_input c = clientBytes f @ rest"
  shows "readFrame c = (Inr (cf_fin f, cf_opcode f, cf_payload f), c\<lparr>ws_input := rest\<rparr>)"
  by (rule readFrame_client [OF assms])

definition example_conn :: "byte list \<Rightarrow> WSConn" where
  "example_conn input = \<lparr>ws_input = input, ws_output = [], ws_open = True, ws_closedOnce = False,
     ws_maxMessage = defaultMaxMessage\<rparr>"

definition text_frame :: "bool \<Rightarrow> byte \<Rightarrow> byte list \<Rightarrow> ClientFrame" where
  "text_frame fin opcode payload =
     \<lparr>cf_fin = fin, cf_opcode = opcode, cf_key = [1, 2, 3, 4], cf_payload = payload\<rparr>"

theorem readFrame_decodes_witness:
  "readFrame (example_conn (clientBytes (text_frame True 1 (replicate 300 7)) @ [9])) =
     (Inr (True, 1, replicate 300 7), example_conn [9])"
  using readFrame_decodes [of "example_conn (clientBytes (text_frame True 1 (replicate 300 7)) @ [9])"
      "text_frame True 1 (replicate 300 7)" "[9]"]
  by (simp add: example_conn_def text_frame_def valid_frame_def limit_ok_def word_le_nat_alt)

text \<open>Whatever the bytes on the wire, a frame that is accepted obeys the protocol: its opcode
  fits in four bits, its payload is within the size limit, a control frame is final and carries at
  most 125 bytes, and the payload is the unmasked tail of the bytes consumed.\<close>

theorem readFrame_enforces_protocol:
  assumes "readFrame c = (Inr (fin, opcode, payload), c')" "limit_ok (ws_maxMessage c)"
  shows "opcode < 16 \<and> int (length payload) \<le> ws_maxMessage c \<and>
    (opcode \<ge> wsOpcodeClose \<longrightarrow> fin \<and> length payload \<le> 125) \<and>
    (\<exists>header key. ws_input c = header @ key @ applyMask key payload @ ws_input c' \<and>
       length header \<ge> 2 \<and> length key = 4)"
proof -
  obtain header c1 where h: "ReadFull 2 c = (Inr header, c1)"
    and opc: "opcode = header ! 0 AND 0x0F"
    using assms(1) by (auto simp: readFrame_def Let_def split: if_splits prod.splits sum.splits)
  obtain len c2 where l: "readLength (ucast (header ! 1 AND 0x7F)) c1 = (Inr len, c2)"
    and ctl: "opcode \<ge> 8 \<longrightarrow> fin \<and> \<not> len > 125" and lim: "\<not> len > word_of_int (ws_maxMessage c2)"
    using assms(1) h by (auto simp: readFrame_def Let_def split: if_splits prod.splits sum.splits)
  obtain key c3 where k: "ReadFull 4 c2 = (Inr key, c3)"
    using assms(1) h l by (auto simp: readFrame_def Let_def split: if_splits prod.splits sum.splits)
  obtain body where b: "ReadFull (unat len) c3 = (Inr body, c')" and p: "payload = applyMask key body"
    using assms(1) h l k by (auto simp: readFrame_def Let_def split: if_splits prod.splits sum.splits)
  have n: "length payload = unat len" using ReadFull_ok [OF b] p by simp
  have small: "opcode < 16"
    unfolding opc using word_and_le1 [of "header ! 0" "0x0F"] by (simp add: word_le_nat_alt word_less_nat_alt)
  have "ws_maxMessage c2 = ws_maxMessage c"
    using ReadFull_max [OF h] readLength_max [OF l] by simp
  then have "unat len \<le> unat (word_of_int (ws_maxMessage c) :: 64 word)"
    using lim by (simp add: word_less_nat_alt)
  also have "\<dots> = nat (ws_maxMessage c)"
    by (rule limit_unat [OF assms(2)])
  finally have "length payload \<le> nat (ws_maxMessage c)" by (simp only: n)
  then have size: "int (length payload) \<le> ws_maxMessage c"
    using assms(2) by (simp add: limit_ok_def le_nat_iff)
  obtain ext where "ws_input c1 = ext @ ws_input c2"
    using readLength_consumes [OF l] by blast
  then have "ws_input c = (header @ ext) @ key @ applyMask key payload @ ws_input c'"
    using ReadFull_ok [OF h] ReadFull_ok [OF k] ReadFull_ok [OF b] p by simp
  moreover have "length (header @ ext) \<ge> 2" "length key = 4"
    using ReadFull_ok [OF h] ReadFull_ok [OF k] by simp_all
  moreover have "opcode \<ge> wsOpcodeClose \<longrightarrow> fin \<and> length payload \<le> 125"
    using ctl n by (auto simp: word_less_nat_alt)
  ultimately show ?thesis using small size by blast
qed

theorem readFrame_enforces_protocol_witness:
  "\<exists>header key. ws_input (example_conn (clientBytes (text_frame True 9 [5]) @ [9])) =
     header @ key @ applyMask key [5] @ [9] \<and> length header \<ge> 2 \<and> length key = 4"
proof -
  have "readFrame (example_conn (clientBytes (text_frame True 9 [5]) @ [9])) =
      (Inr (True, 9, [5]), example_conn [9])"
    using readFrame_client [of "example_conn (clientBytes (text_frame True 9 [5]) @ [9])"
        "text_frame True 9 [5]" "[9]"]
    by (simp add: example_conn_def text_frame_def valid_frame_def limit_ok_def word_less_nat_alt)
  from readFrame_enforces_protocol [OF this] show ?thesis
    by (simp add: example_conn_def limit_ok_def)
qed

text \<open>C32. Reassembly: if the client sends one text message, split into any number of fragments and
  interleaved with any pings and pongs, and the message is within the size limit, \<open>ReadMessage\<close>
  returns exactly the concatenated payloads, leaves what follows unread, and has answered every
  ping, in order, with a pong that carries the payload of the ping.\<close>

theorem ReadMessage_reassembles:
  assumes "is_message False fs" "\<forall>f \<in> set fs. valid_frame (ws_maxMessage c) f"
    and "limit_ok (ws_maxMessage c)" "int (length (message_of fs)) \<le> ws_maxMessage c" "ws_open c"
    and "ws_input c = concat (map clientBytes fs) @ rest"
  shows "ReadMessage c = (Inr (message_of fs),
    c\<lparr>ws_input := rest, ws_output := ws_output c @ pongs_of fs\<rparr>)"
  unfolding ReadMessage_def using readLoop_message [of 0 fs c "[]" rest] assms by simp

theorem ReadMessage_reassembles_witness:
  "let fs = [text_frame False 1 [65, 66], text_frame True 9 [7], text_frame True 0 [67]]
   in ReadMessage (example_conn (concat (map clientBytes fs) @ [3])) =
     (Inr [65, 66, 67], (example_conn [3])\<lparr>ws_output := [0x8A, 1, 7]\<rparr>)"
  using ReadMessage_reassembles [of "[text_frame False 1 [65, 66], text_frame True 9 [7],
        text_frame True 0 [67]]" "example_conn (concat (map clientBytes
          [text_frame False 1 [65, 66], text_frame True 9 [7], text_frame True 0 [67]]) @ [3])" "[3]"]
  by (simp add: example_conn_def text_frame_def valid_frame_def limit_ok_def word_less_nat_alt
      word_le_nat_alt message_of_def pongs_of_def rfcHeader_def Let_def)

text \<open>Memory stays bounded: no sequence of frames makes \<open>ReadMessage\<close> return a message longer
  than the configured limit, and the loop ends on every finite input because each round consumes
  at least a header and a mask.\<close>

theorem ReadMessage_bounded:
  assumes "ReadMessage c = (Inr message, c')"
  shows "int (length message) \<le> ws_maxMessage c \<and> length (ws_input c') + 6 \<le> length (ws_input c)"
  using assms readLoop_bound unfolding ReadMessage_def by blast

theorem ReadMessage_bounded_witness:
  "int (length [5 :: byte]) \<le> ws_maxMessage (example_conn (clientBytes (text_frame True 1 [5]))) \<and>
   6 \<le> length (clientBytes (text_frame True 1 [5]))"
proof -
  have "ReadMessage (example_conn (clientBytes (text_frame True 1 [5]))) =
      (Inr [5], example_conn [])"
    using readLoop_message [of 0 "[text_frame True 1 [5]]"
        "example_conn (clientBytes (text_frame True 1 [5]))" "[]" "[]"]
    by (simp add: ReadMessage_def example_conn_def text_frame_def valid_frame_def limit_ok_def
        word_le_nat_alt word_less_nat_alt message_of_def pongs_of_def)
  from ReadMessage_bounded [OF this] show ?thesis
    by (simp add: example_conn_def)
qed

end
