(* ===== verification/Protocol.thy ===== *)
theory Protocol
  imports Prelude
begin

text \<open>
  The realtime protocol, \<open>go-core/internal/transport/protocol.go\<close> and \<open>dispatcher.go\<close>: the frame
  record \<open>Envelope\<close>, the closed error taxonomy, parsing and validation of frames, and the
  dispatcher that routes a request frame to the handler of its action.

  \<open>json.Unmarshal\<close> into an \<open>any\<close> is the parameter \<open>unmarshal\<close> (text to value, \<open>None\<close> for invalid
  JSON); the second pass, which decodes the re-marshalled object into the struct, is written out
  (\<open>decodeField\<close>), with the text of a type error as the parameter \<open>typeError\<close>. A JSON number is a
  rational. An \<open>error\<close> value is what the code observes of it: its text, the \<open>ProtocolError\<close> that
  \<open>errors.As\<close> finds, and whether it is a deadline or a cancellation.
\<close>

section \<open>Errors\<close>

record ErrorDefinition =
  ed_Retryable :: bool
  ed_Category :: string
  ed_Message :: string

definition errdef :: "bool \<Rightarrow> string \<Rightarrow> string \<Rightarrow> ErrorDefinition" where
  "errdef retryable category message =
     \<lparr>ed_Retryable = retryable, ed_Category = category, ed_Message = message\<rparr>"

definition ErrorTaxonomy :: "(string \<times> ErrorDefinition) list" where
  "ErrorTaxonomy =
    [(''INVALID_JSON'', errdef False ''protocol'' ''frame payload is not valid JSON''),
     (''INVALID_FRAME'', errdef False ''protocol'' ''frame payload must be a JSON object''),
     (''INVALID_TYPE'', errdef False ''protocol'' ''frame type is not supported''),
     (''INVALID_ACTION'', errdef False ''protocol'' ''request frames require action''),
     (''INVALID_REQUEST_ID'', errdef False ''protocol'' ''request_id must be a non-empty string''),
     (''INVALID_TIMEOUT'', errdef False ''protocol'' ''timeout_ms must be a positive integer''),
     (''INVALID_IDEMPOTENCY_KEY'', errdef False ''protocol'' ''idempotency_key must be a non-empty string''),
     (''BAD_REQUEST'', errdef False ''client'' ''request payload is semantically invalid''),
     (''UNAUTHORIZED'', errdef False ''auth'' ''authentication is required or invalid''),
     (''FORBIDDEN'', errdef False ''auth'' ''caller is not allowed to perform this action''),
     (''NOT_FOUND'', errdef False ''routing'' ''resource was not found''),
     (''CONFLICT'', errdef False ''mutation'' ''request conflicts with current state''),
     (''UNSUPPORTED_ACTION'', errdef False ''routing'' ''action is not registered in the dispatcher''),
     (''TIMEOUT'', errdef True ''mutation'' ''request timed out''),
     (''CANCELED'', errdef True ''mutation'' ''request was canceled''),
     (''RATE_LIMITED'', errdef True ''provider'' ''request was rate limited''),
     (''UNAVAILABLE'', errdef True ''provider'' ''service is unavailable''),
     (''INTERNAL_ERROR'', errdef True ''server'' ''request handling failed'')]"

record ProtocolError =
  pe_Code :: string
  pe_Message :: string
  pe_Retryable :: bool
  pe_Category :: string
  pe_Details :: go_map

definition NewProtocolFrameError :: "string \<Rightarrow> string \<Rightarrow> go_map \<Rightarrow> ProtocolError" where
  "NewProtocolFrameError code message details =
     (let code = ToUpper (TrimSpace code);
          (code, d) = (case map_of ErrorTaxonomy code of
             Some d \<Rightarrow> (code, d)
           | None \<Rightarrow> (''INTERNAL_ERROR'', the (map_of ErrorTaxonomy ''INTERNAL_ERROR'')));
          message = (if TrimSpace message = [] then ed_Message d else message)
      in \<lparr>pe_Code = code, pe_Message = message, pe_Retryable = ed_Retryable d,
          pe_Category = ed_Category d, pe_Details = details\<rparr>)"

record go_error =
  ge_Text :: string
  ge_Protocol :: "ProtocolError option"
  ge_DeadlineExceeded :: bool
  ge_Canceled :: bool

definition ErrorCode :: "go_error \<Rightarrow> string" where
  "ErrorCode err = (case ge_Protocol err of Some pe \<Rightarrow> pe_Code pe | None \<Rightarrow> ''INTERNAL_ERROR'')"

section \<open>Frames\<close>

text \<open>The \<open>Error\<close> field is an \<open>any\<close>: nothing, the text of an error, a \<open>ProtocolError\<close>, or what a
  client sent.\<close>

datatype frame_error = NoError | ErrorText string | ErrorProtocol ProtocolError | ErrorAny any

record Envelope =
  en_Type :: string
  en_RequestID :: string
  en_CorrelationID :: string
  en_Action :: string
  en_Data :: go_map
  en_Error :: frame_error
  en_Final :: bool
  en_Ack :: bool
  en_IdempotencyKey :: string
  en_TimeoutMS :: int

definition zero_Envelope :: Envelope where
  "zero_Envelope = \<lparr>en_Type = [], en_RequestID = [], en_CorrelationID = [], en_Action = [],
     en_Data = [], en_Error = NoError, en_Final = False, en_Ack = False, en_IdempotencyKey = [],
     en_TimeoutMS = 0\<rparr>"

definition requestFrameTypes :: "string list" where
  "requestFrameTypes = [''command'', ''subscribe'', ''unsubscribe'', ''cancel'']"

definition serverFrameTypes :: "string list" where
  "serverFrameTypes = [''ack'', ''event'', ''response'', ''error'', ''snapshot'', ''delta'',
     ''heartbeat'', ''pong'', ''control.ack'']"

definition ValidateEnvelope :: "Envelope \<Rightarrow> ProtocolError option" where
  "ValidateEnvelope envelope =
     (let typ = ToLower (TrimSpace (en_Type envelope)) in
      if typ \<notin> set requestFrameTypes \<and> typ \<notin> set serverFrameTypes
      then Some (NewProtocolFrameError ''INVALID_TYPE'' (''unsupported frame type: '' @ typ) [])
      else if TrimSpace (en_RequestID envelope) = [] \<and> typ \<noteq> ''heartbeat''
      then Some (NewProtocolFrameError ''INVALID_REQUEST_ID'' [] [])
      else if typ \<in> set requestFrameTypes \<and> TrimSpace (en_Action envelope) = []
      then Some (NewProtocolFrameError ''INVALID_ACTION'' [] [])
      else if en_TimeoutMS envelope < 0
      then Some (NewProtocolFrameError ''INVALID_TIMEOUT'' [] [])
      else None)"

section \<open>Parsing\<close>

text \<open>A number that \<open>json.Unmarshal\<close> accepts for an \<open>int\<close> field after \<open>json.Marshal\<close> printed the
  \<open>float64\<close>: an integer below the 64-bit bound.\<close>

definition json_int :: "rat \<Rightarrow> int option" where
  "json_int x = (if x = of_int \<lfloor>x\<rfloor> \<and> - (2 ^ 63) \<le> \<lfloor>x\<rfloor> \<and> \<lfloor>x\<rfloor> < 2 ^ 63 then Some \<lfloor>x\<rfloor> else None)"

text \<open>The struct fields by their JSON names; \<open>encoding/json\<close> takes the field whose name is the key,
  or else the one whose name is the key up to letter case.\<close>

definition fieldNames :: "string list" where
  "fieldNames = [''type'', ''request_id'', ''correlation_id'', ''action'', ''data'', ''error'',
     ''final'', ''ack'', ''idempotency_key'', ''timeout_ms'']"

definition fieldOf :: "string \<Rightarrow> string option" where
  "fieldOf key = (if key \<in> set fieldNames then Some key else find (EqualFold key) fieldNames)"

text \<open>One key of the object: a null leaves the field alone, a value of the wrong type is an error.\<close>

definition setField :: "string \<Rightarrow> any \<Rightarrow> Envelope \<Rightarrow> Envelope option" where
  "setField name v env =
     (case v of
        AnyNil \<Rightarrow> Some (if name = ''error'' then env\<lparr>en_Error := NoError\<rparr>
                        else if name = ''data'' then env\<lparr>en_Data := []\<rparr> else env)
      | AnyString s \<Rightarrow>
          if name = ''type'' then Some (env\<lparr>en_Type := s\<rparr>)
          else if name = ''request_id'' then Some (env\<lparr>en_RequestID := s\<rparr>)
          else if name = ''correlation_id'' then Some (env\<lparr>en_CorrelationID := s\<rparr>)
          else if name = ''action'' then Some (env\<lparr>en_Action := s\<rparr>)
          else if name = ''idempotency_key'' then Some (env\<lparr>en_IdempotencyKey := s\<rparr>)
          else if name = ''error'' then Some (env\<lparr>en_Error := ErrorAny v\<rparr>)
          else None
      | AnyBool b \<Rightarrow>
          if name = ''final'' then Some (env\<lparr>en_Final := b\<rparr>)
          else if name = ''ack'' then Some (env\<lparr>en_Ack := b\<rparr>)
          else if name = ''error'' then Some (env\<lparr>en_Error := ErrorAny v\<rparr>)
          else None
      | AnyMap m \<Rightarrow>
          if name = ''data'' then Some (env\<lparr>en_Data := fold (\<lambda>(k, x). map_set k x) m (en_Data env)\<rparr>)
          else if name = ''error'' then Some (env\<lparr>en_Error := ErrorAny v\<rparr>)
          else None
      | AnyFloat x \<Rightarrow>
          if name = ''timeout_ms'' then map_option (\<lambda>i. env\<lparr>en_TimeoutMS := i\<rparr>) (json_int x)
          else if name = ''error'' then Some (env\<lparr>en_Error := ErrorAny v\<rparr>)
          else None
      | _ \<Rightarrow> if name = ''error'' then Some (env\<lparr>en_Error := ErrorAny v\<rparr>) else None)"

text \<open>The keys in the order \<open>json.Marshal\<close> prints them; decoding goes on after a type error and
  reports the first one.\<close>

fun decodeFields :: "(string \<Rightarrow> any \<Rightarrow> string) \<Rightarrow> go_map \<Rightarrow> Envelope \<Rightarrow> string option \<Rightarrow>
    string option \<times> Envelope" where
  "decodeFields typeError [] env err = (err, env)"
| "decodeFields typeError ((k, v) # m) env err =
     (case fieldOf k of
        None \<Rightarrow> decodeFields typeError m env err
      | Some name \<Rightarrow>
          (case setField name v env of
             Some env' \<Rightarrow> decodeFields typeError m env' err
           | None \<Rightarrow> decodeFields typeError m env
               (case err of Some e \<Rightarrow> Some e | None \<Rightarrow> Some (typeError k v))))"

definition decodeEnvelope :: "(string \<Rightarrow> any \<Rightarrow> string) \<Rightarrow> go_map \<Rightarrow> string + Envelope" where
  "decodeEnvelope typeError frame =
     (case decodeFields typeError (sort_key fst frame) zero_Envelope None of
        (Some e, _) \<Rightarrow> Inl e
      | (None, env) \<Rightarrow> Inr env)"

text \<open>The checks of \<open>ParseEnvelope\<close> on the decoded object.\<close>

definition badTimeout :: "any option \<Rightarrow> bool" where
  "badTimeout v \<longleftrightarrow> (case v of
     None \<Rightarrow> False
   | Some AnyNil \<Rightarrow> False
   | Some (AnyFloat x) \<Rightarrow> x \<le> 0 \<or> json_int x = None
   | Some _ \<Rightarrow> True)"

definition badIdempotencyKey :: "any option \<Rightarrow> bool" where
  "badIdempotencyKey v \<longleftrightarrow> (case v of
     None \<Rightarrow> False
   | Some AnyNil \<Rightarrow> False
   | Some (AnyString s) \<Rightarrow> TrimSpace s = []
   | Some _ \<Rightarrow> True)"

definition badData :: "any option \<Rightarrow> bool" where
  "badData v \<longleftrightarrow> (case v of
     None \<Rightarrow> False
   | Some AnyNil \<Rightarrow> False
   | Some (AnyMap m) \<Rightarrow> False
   | Some _ \<Rightarrow> True)"

definition ParseEnvelope :: "(string \<Rightarrow> any option) \<Rightarrow> (string \<Rightarrow> any \<Rightarrow> string) \<Rightarrow> string \<Rightarrow>
    ProtocolError + Envelope" where
  "ParseEnvelope unmarshal typeError raw =
     (case unmarshal raw of
        None \<Rightarrow> Inl (NewProtocolFrameError ''INVALID_JSON'' [] [])
      | Some (AnyMap frame) \<Rightarrow>
          if badTimeout (map_of frame ''timeout_ms'')
          then Inl (NewProtocolFrameError ''INVALID_TIMEOUT'' [] [])
          else if badIdempotencyKey (map_of frame ''idempotency_key'')
          then Inl (NewProtocolFrameError ''INVALID_IDEMPOTENCY_KEY'' [] [])
          else if badData (map_of frame ''data'')
          then Inl (NewProtocolFrameError ''INVALID_FRAME'' ''data must be a JSON object'' [])
          else
            (case decodeEnvelope typeError frame of
               Inl e \<Rightarrow> Inl (NewProtocolFrameError ''INVALID_FRAME'' e [])
             | Inr envelope \<Rightarrow>
                 let envelope = envelope\<lparr>en_Type := ToLower (TrimSpace (en_Type envelope)),
                                         en_Action := TrimSpace (en_Action envelope)\<rparr> in
                 case ValidateEnvelope envelope of
                   Some err \<Rightarrow> Inl err
                 | None \<Rightarrow> Inr envelope)
      | Some _ \<Rightarrow> Inl (NewProtocolFrameError ''INVALID_FRAME'' [] []))"

section \<open>Reply frames\<close>

definition AckEnvelope :: "Envelope \<Rightarrow> string \<Rightarrow> Envelope" where
  "AckEnvelope request mode = zero_Envelope\<lparr>en_Type := ''ack'', en_RequestID := en_RequestID request,
     en_CorrelationID := en_CorrelationID request, en_Action := en_Action request, en_Ack := True,
     en_Data := [(''accepted'', AnyBool True), (''mode'', AnyString mode),
       (''idempotency_key'', AnyString (en_IdempotencyKey request)),
       (''timeout_ms'', AnyInt (en_TimeoutMS request))]\<rparr>"

definition ResponseEnvelope :: "Envelope \<Rightarrow> go_map \<Rightarrow> Envelope" where
  "ResponseEnvelope request data = zero_Envelope\<lparr>en_Type := ''response'',
     en_RequestID := en_RequestID request, en_CorrelationID := en_CorrelationID request,
     en_Action := en_Action request, en_Data := data, en_Final := True\<rparr>"

definition EventEnvelope :: "Envelope \<Rightarrow> string \<Rightarrow> go_map \<Rightarrow> bool \<Rightarrow> Envelope" where
  "EventEnvelope request frameType data final =
     (let frameType = (if frameType \<noteq> ''snapshot'' \<and> frameType \<noteq> ''delta'' then ''event'' else frameType)
      in zero_Envelope\<lparr>en_Type := frameType, en_RequestID := en_RequestID request,
        en_CorrelationID := en_CorrelationID request, en_Action := en_Action request,
        en_Data := data, en_Final := final\<rparr>)"

definition ErrorEnvelope :: "Envelope \<Rightarrow> string \<Rightarrow> string \<Rightarrow> go_map \<Rightarrow> Envelope" where
  "ErrorEnvelope request code message details = zero_Envelope\<lparr>en_Type := ''error'',
     en_RequestID := en_RequestID request, en_CorrelationID := en_CorrelationID request,
     en_Action := en_Action request,
     en_Error := ErrorProtocol (NewProtocolFrameError code message details), en_Final := True\<rparr>"

section \<open>Dispatcher\<close>

text \<open>An emitter and a handler work on the state \<open>'w\<close> of the program around them and return the
  error, if any; a handler gets the emitter as an argument and may call it any number of times.\<close>

type_synonym 'w Emitter = "Envelope \<Rightarrow> 'w \<Rightarrow> go_error option \<times> 'w"
type_synonym 'w DispatchHandler = "Envelope \<Rightarrow> 'w Emitter \<Rightarrow> 'w \<Rightarrow> go_error option \<times> 'w"

record 'w HandlerRegistration =
  hr_Handler :: "'w DispatchHandler"
  hr_Mode :: string
  hr_SendAck :: bool

type_synonym 'w Dispatcher = "string \<rightharpoonup> 'w HandlerRegistration"

definition Register :: "string \<Rightarrow> string \<Rightarrow> bool \<Rightarrow> 'w DispatchHandler option \<Rightarrow> 'w Dispatcher \<Rightarrow> 'w Dispatcher" where
  "Register action mode sendAck handler d =
     (let action = ToLower (TrimSpace action) in
      case handler of
        None \<Rightarrow> d
      | Some h \<Rightarrow>
          if action = [] then d
          else d(action \<mapsto> \<lparr>hr_Handler = h, hr_Mode = (if mode \<noteq> ''stream'' then ''single'' else mode),
                            hr_SendAck = sendAck\<rparr>))"

text \<open>The closure that \<open>RegisterSingle\<close> installs.\<close>

definition singleHandler :: "(Envelope \<Rightarrow> 'w \<Rightarrow> (go_error + go_map) \<times> 'w) \<Rightarrow> 'w DispatchHandler" where
  "singleHandler handler request emit w =
     (case handler request w of
        (Inl err, w) \<Rightarrow> (Some err, w)
      | (Inr payload, w) \<Rightarrow> emit (ResponseEnvelope request payload) w)"

definition RegisterSingle :: "string \<Rightarrow> bool \<Rightarrow> (Envelope \<Rightarrow> 'w \<Rightarrow> (go_error + go_map) \<times> 'w) \<Rightarrow>
    'w Dispatcher \<Rightarrow> 'w Dispatcher" where
  "RegisterSingle action sendAck handler d =
     Register action ''single'' sendAck (Some (singleHandler handler)) d"

definition Supports :: "string \<Rightarrow> 'w Dispatcher \<Rightarrow> bool" where
  "Supports action d \<longleftrightarrow> d (ToLower (TrimSpace action)) \<noteq> None"

text \<open>\<open>Actions\<close>: the registered keys, in any enumeration, sorted.\<close>

definition Actions :: "string list \<Rightarrow> 'w Dispatcher \<Rightarrow> string list" where
  "Actions keys d = sort (filter (\<lambda>a. d a \<noteq> None) keys)"

definition errorCodeOf :: "go_error \<Rightarrow> string" where
  "errorCodeOf err = (if ge_DeadlineExceeded err then ''TIMEOUT''
     else if ge_Canceled err then ''CANCELED'' else ErrorCode err)"

definition DispatchRequest :: "'w Dispatcher \<Rightarrow> Envelope \<Rightarrow> 'w Emitter \<Rightarrow> 'w \<Rightarrow> go_error option \<times> 'w" where
  "DispatchRequest d request emit w =
     (case d (ToLower (TrimSpace (en_Action request))) of
        None \<Rightarrow> emit (ErrorEnvelope request ''UNSUPPORTED_ACTION''
                  (''unsupported action: '' @ en_Action request) []) w
      | Some registration \<Rightarrow>
          (case (if en_Ack request \<and> hr_SendAck registration
                 then emit (AckEnvelope request (hr_Mode registration)) w else (None, w)) of
             (Some err, w) \<Rightarrow> (Some err, w)
           | (None, w) \<Rightarrow>
               (case hr_Handler registration request emit w of
                  (None, w) \<Rightarrow> (None, w)
                | (Some err, w) \<Rightarrow>
                    emit (ErrorEnvelope request (errorCodeOf err) (ge_Text err)
                      [(''handler'', AnyString (en_Action request))]) w)))"

section \<open>Lemmas\<close>

lemma taxonomy_messages: "map_of ErrorTaxonomy code = Some d \<Longrightarrow> TrimSpace (ed_Message d) \<noteq> []"
proof -
  have "\<forall>p \<in> set ErrorTaxonomy. TrimSpace (ed_Message (snd p)) \<noteq> []"
    by code_simp
  then show "map_of ErrorTaxonomy code = Some d \<Longrightarrow> ?thesis"
    by (auto dest!: map_of_SomeD)
qed

lemma NewProtocolFrameError_known:
  assumes "map_of ErrorTaxonomy (ToUpper (TrimSpace code)) = Some d"
  shows "pe_Code (NewProtocolFrameError code m ds) = ToUpper (TrimSpace code)"
    and "pe_Category (NewProtocolFrameError code m ds) = ed_Category d"
    and "pe_Retryable (NewProtocolFrameError code m ds) = ed_Retryable d"
  using assms by (simp_all add: NewProtocolFrameError_def Let_def)

lemma NewProtocolFrameError_taxonomy:
  "\<exists>d. map_of ErrorTaxonomy (pe_Code (NewProtocolFrameError code m ds)) = Some d \<and>
     pe_Retryable (NewProtocolFrameError code m ds) = ed_Retryable d \<and>
     pe_Category (NewProtocolFrameError code m ds) = ed_Category d \<and>
     TrimSpace (pe_Message (NewProtocolFrameError code m ds)) \<noteq> []"
proof (cases "map_of ErrorTaxonomy (ToUpper (TrimSpace code))")
  case None
  obtain d where "map_of ErrorTaxonomy ''INTERNAL_ERROR'' = Some d"
    by (simp add: ErrorTaxonomy_def)
  with None show ?thesis
    using taxonomy_messages by (auto simp: NewProtocolFrameError_def Let_def)
next
  case (Some d)
  then show ?thesis
    using taxonomy_messages by (auto simp: NewProtocolFrameError_def Let_def)
qed

text \<open>The errors of the parser belong to the category \<open>protocol\<close>, none of which is retryable.\<close>

definition parser_codes :: "string list" where
  "parser_codes = [''INVALID_JSON'', ''INVALID_FRAME'', ''INVALID_TYPE'', ''INVALID_ACTION'',
     ''INVALID_REQUEST_ID'', ''INVALID_TIMEOUT'', ''INVALID_IDEMPOTENCY_KEY'']"

lemma parser_codes_protocol:
  assumes "code \<in> set parser_codes"
  shows "pe_Code (NewProtocolFrameError code m ds) = code"
    and "pe_Category (NewProtocolFrameError code m ds) = ''protocol''"
    and "\<not> pe_Retryable (NewProtocolFrameError code m ds)"
proof -
  have "\<forall>code \<in> set parser_codes. ToUpper (TrimSpace code) = code \<and>
      (case map_of ErrorTaxonomy code of
         None \<Rightarrow> False | Some d \<Rightarrow> ed_Category d = ''protocol'' \<and> \<not> ed_Retryable d)"
    by code_simp
  with assms have "ToUpper (TrimSpace code) = code" and
    "case map_of ErrorTaxonomy code of
       None \<Rightarrow> False | Some d \<Rightarrow> ed_Category d = ''protocol'' \<and> \<not> ed_Retryable d"
    by blast+
  then show "pe_Code (NewProtocolFrameError code m ds) = code"
    and "pe_Category (NewProtocolFrameError code m ds) = ''protocol''"
    and "\<not> pe_Retryable (NewProtocolFrameError code m ds)"
    using NewProtocolFrameError_known [of code] by (auto split: option.splits)
qed

text \<open>What \<open>ValidateEnvelope\<close> accepts.\<close>

definition envelope_ok :: "Envelope \<Rightarrow> bool" where
  "envelope_ok env \<longleftrightarrow> (let typ = ToLower (TrimSpace (en_Type env)) in
     (typ \<in> set requestFrameTypes \<or> typ \<in> set serverFrameTypes) \<and>
     (typ \<noteq> ''heartbeat'' \<longrightarrow> TrimSpace (en_RequestID env) \<noteq> []) \<and>
     (typ \<in> set requestFrameTypes \<longrightarrow> TrimSpace (en_Action env) \<noteq> []) \<and> 0 \<le> en_TimeoutMS env)"

lemma ValidateEnvelope_None: "ValidateEnvelope env = None \<longleftrightarrow> envelope_ok env"
  by (auto simp: ValidateEnvelope_def envelope_ok_def Let_def)

lemma ValidateEnvelope_Some:
  "ValidateEnvelope env = Some e \<Longrightarrow> \<exists>code \<in> set parser_codes. \<exists>m. e = NewProtocolFrameError code m []"
  by (auto simp: ValidateEnvelope_def Let_def parser_codes_def split: if_splits)

lemma ParseEnvelope_Inl:
  assumes "ParseEnvelope um te raw = Inl e"
  shows "\<exists>code \<in> set parser_codes. \<exists>m. e = NewProtocolFrameError code m []"
proof -
  have mem: "c \<in> {''INVALID_JSON'', ''INVALID_TIMEOUT'', ''INVALID_IDEMPOTENCY_KEY'', ''INVALID_FRAME''}
      \<Longrightarrow> c \<in> set parser_codes" for c
    by (auto simp: parser_codes_def)
  show ?thesis
  proof (cases "\<exists>env. ValidateEnvelope env = Some e")
    case True
    then show ?thesis using ValidateEnvelope_Some by blast
  next
    case False
    then have "\<exists>c m. c \<in> {''INVALID_JSON'', ''INVALID_TIMEOUT'', ''INVALID_IDEMPOTENCY_KEY'',
        ''INVALID_FRAME''} \<and> e = NewProtocolFrameError c m []"
      using assms unfolding ParseEnvelope_def Let_def
      by (simp split: option.splits any.splits if_splits sum.splits) blast+
    then show ?thesis using mem by blast
  qed
qed

lemma ParseEnvelope_Inr:
  assumes "ParseEnvelope um te raw = Inr env"
  shows "envelope_ok env" and "en_Type env = ToLower (TrimSpace (en_Type env))"
    and "TrimSpace (en_Action env) = en_Action env"
proof -
  obtain e0 where "ValidateEnvelope env = None"
    and env: "env = e0\<lparr>en_Type := ToLower (TrimSpace (en_Type e0)), en_Action := TrimSpace (en_Action e0)\<rparr>"
    using assms unfolding ParseEnvelope_def Let_def
    by (auto split: option.splits any.splits if_splits sum.splits)
  then show "envelope_ok env" "en_Type env = ToLower (TrimSpace (en_Type env))"
      "TrimSpace (en_Action env) = en_Action env"
    by (simp_all add: ValidateEnvelope_None normal_type)
qed

section \<open>The object a client sends for a frame\<close>

text \<open>The JSON object of a frame with the \<open>omitempty\<close> rules of the struct, keys in their order.\<close>

definition frameFields :: "Envelope \<Rightarrow> go_map" where
  "frameFields env =
     [(''ack'', AnyBool (en_Ack env)), (''action'', AnyString (en_Action env)),
      (''correlation_id'', AnyString (en_CorrelationID env)), (''data'', AnyMap (en_Data env)),
      (''final'', AnyBool (en_Final env)), (''idempotency_key'', AnyString (en_IdempotencyKey env)),
      (''request_id'', AnyString (en_RequestID env)),
      (''timeout_ms'', AnyFloat (of_int (en_TimeoutMS env))), (''type'', AnyString (en_Type env))]"

definition omitted :: "any \<Rightarrow> bool" where
  "omitted v \<longleftrightarrow> v \<in> {AnyBool False, AnyString [], AnyMap [], AnyFloat 0}"

definition frameOf :: "Envelope \<Rightarrow> go_map" where
  "frameOf env = filter (\<lambda>(k, v). \<not> omitted v) (frameFields env)"

lemma frameOf_sorted: "sort_key fst (frameOf env) = frameOf env"
proof -
  have "sorted (map fst (frameFields env))"
    unfolding frameFields_def by simp
  then show ?thesis
    unfolding frameOf_def by (intro sort_key_id_if_sorted sorted_filter)
qed

lemma fold_map_set_append:
  "distinct (map fst (acc @ m)) \<Longrightarrow> fold (\<lambda>(k, x). map_set k x) m acc = acc @ m"
proof (induction m arbitrary: acc)
  case (Cons p m)
  then show ?case by (cases p) (auto simp: map_set_fresh)
qed simp

lemma map_of_filter_val:
  "distinct (map fst m) \<Longrightarrow> map_of (filter (\<lambda>(k, v). P v) m) k =
     (case map_of m k of Some v \<Rightarrow> if P v then Some v else None | None \<Rightarrow> None)"
  by (induction m) (auto simp: map_of_eq_None_iff image_iff split: option.split)

lemma decode_step:
  assumes "fieldOf k = Some nm" "setField nm v e = Some e'" "omitted v \<Longrightarrow> e' = e"
  shows "decodeFields te (filter (\<lambda>(k, v). \<not> omitted v) ((k, v) # m)) e None =
    decodeFields te (filter (\<lambda>(k, v). \<not> omitted v) m) e' None"
  using assms by simp

lemma json_int_of_int: "- (2 ^ 63) \<le> i \<Longrightarrow> i < 2 ^ 63 \<Longrightarrow> json_int (of_int i) = Some i"
  by (simp add: json_int_def)

lemma decode_frameOf:
  assumes "distinct (map fst (en_Data env))" "0 \<le> en_TimeoutMS env" "en_TimeoutMS env < 2 ^ 63"
    and "en_Error env = NoError"
  shows "decodeFields te (frameOf env) zero_Envelope None = (None, env)"
proof -
  note sides = fieldOf_def fieldNames_def setField_def omitted_def zero_Envelope_def
    json_int_of_int [of "en_TimeoutMS env"] fold_map_set_append [of "[]" "en_Data env"]
  show ?thesis
    unfolding frameOf_def frameFields_def
    by ((rule trans [OF decode_step], simp add: sides, use assms in \<open>simp add: sides\<close>,
        simp add: sides)+, use assms in \<open>simp add: sides\<close>)
qed

section \<open>Dispatching with a recording emitter\<close>

text \<open>The log of the frames sent, beside the rest of the program's state.\<close>

definition emitLog :: "(Envelope list \<times> 'v) Emitter" where
  "emitLog e w = (None, (fst w @ [e], snd w))"

text \<open>Dispatchers filled by \<open>RegisterSingle\<close> with handlers that do not send frames themselves.\<close>

inductive single_dispatcher :: "(Envelope list \<times> 'v) Dispatcher \<Rightarrow> bool" where
  single_empty: "single_dispatcher Map.empty"
| single_register: "single_dispatcher d \<Longrightarrow> (\<And>r w. fst (snd (h r w)) = fst w) \<Longrightarrow>
    single_dispatcher (RegisterSingle action sendAck h d)"

lemma single_dispatcher_handlers:
  "single_dispatcher d \<Longrightarrow> d a = Some reg \<Longrightarrow>
   \<exists>h. hr_Handler reg = singleHandler h \<and> (\<forall>r w. fst (snd (h r w)) = fst w)"
proof (induction arbitrary: a reg rule: single_dispatcher.induct)
  case (single_register d h action sendAck)
  then show ?case
    by (auto simp: RegisterSingle_def Register_def Let_def split: if_splits)
qed simp

lemma singleHandler_log:
  assumes "\<And>r w. fst (snd (h r w)) = fst w"
  shows "\<exists>v. singleHandler h r emitLog w =
    (case fst (h r w) of Inl err \<Rightarrow> (Some err, (fst w, v))
     | Inr payload \<Rightarrow> (None, (fst w @ [ResponseEnvelope r payload], v)))"
  using assms [of r w] by (cases "h r w") (auto simp: singleHandler_def emitLog_def split: sum.split)

section \<open>Properties\<close>

text \<open>Every error the server puts into a frame comes from the taxonomy: whatever code and text a
  caller passes, the code of the error is one of the taxonomy's, its category and retryability are
  those the taxonomy gives for it, and its message is not blank.\<close>

theorem protocol_errors_closed:
  "let e = NewProtocolFrameError code message details in
   \<exists>d. map_of ErrorTaxonomy (pe_Code e) = Some d \<and> pe_Retryable e = ed_Retryable d \<and>
     pe_Category e = ed_Category d \<and> TrimSpace (pe_Message e) \<noteq> []"
  unfolding Let_def by (rule NewProtocolFrameError_taxonomy)

text \<open>Whatever text arrives, the parser either rejects it with a protocol error that is not
  retryable or returns a frame that satisfies the frame rules: a known type in canonical form, a
  request id unless it is a heartbeat, an action in a request frame, and a timeout that is not
  negative.\<close>

theorem ParseEnvelope_contract:
  "case ParseEnvelope unmarshal typeError raw of
     Inl e \<Rightarrow> pe_Category e = ''protocol'' \<and> pe_Retryable e = False
   | Inr env \<Rightarrow> en_Type env \<in> set (requestFrameTypes @ serverFrameTypes) \<and>
       (en_Type env = ''heartbeat'' \<or> TrimSpace (en_RequestID env) \<noteq> []) \<and>
       (en_Type env \<in> set serverFrameTypes \<or> en_Action env \<noteq> []) \<and> en_TimeoutMS env \<ge> 0"
proof (cases "ParseEnvelope unmarshal typeError raw")
  case (Inl e)
  then show ?thesis
    using ParseEnvelope_Inl [OF Inl] parser_codes_protocol by auto
next
  case (Inr env)
  have "ToLower (TrimSpace (en_Type env)) = en_Type env"
    using ParseEnvelope_Inr(2) [OF Inr] by simp
  with ParseEnvelope_Inr(1,3) [OF Inr] Inr show ?thesis
    by (auto simp: envelope_ok_def Let_def)
qed

text \<open>Round trip: the JSON object of a valid frame in canonical form (written with the
  \<open>omitempty\<close> rules of the struct) is parsed back to exactly that frame.\<close>

theorem ParseEnvelope_roundtrip:
  assumes "unmarshal raw = Some (AnyMap (frameOf env))"
    and "ValidateEnvelope env = None" "ToLower (TrimSpace (en_Type env)) = en_Type env"
    and "TrimSpace (en_Action env) = en_Action env" "en_Error env = NoError"
    and "distinct (map fst (en_Data env))" "en_TimeoutMS env < 2 ^ 63"
    and "en_IdempotencyKey env = [] \<or> TrimSpace (en_IdempotencyKey env) \<noteq> []"
  shows "ParseEnvelope unmarshal typeError raw = Inr env"
proof -
  have t0: "0 \<le> en_TimeoutMS env"
    using assms(2) by (simp add: ValidateEnvelope_None envelope_ok_def Let_def)
  have f: "map_of (frameOf env) k = (case map_of (frameFields env) k of
      Some v \<Rightarrow> if \<not> omitted v then Some v else None | None \<Rightarrow> None)" for k
    unfolding frameOf_def by (rule map_of_filter_val) (simp add: frameFields_def)
  have "\<not> badTimeout (map_of (frameOf env) ''timeout_ms'')"
    using t0 assms(7) by (simp add: f frameFields_def badTimeout_def omitted_def json_int_of_int)
  moreover have "\<not> badIdempotencyKey (map_of (frameOf env) ''idempotency_key'')"
    using assms(8) by (auto simp: f frameFields_def badIdempotencyKey_def omitted_def)
  moreover have "\<not> badData (map_of (frameOf env) ''data'')"
    by (simp add: f frameFields_def badData_def omitted_def)
  moreover have "decodeEnvelope typeError (frameOf env) = Inr env"
    using decode_frameOf [OF assms(6) t0 assms(7,5)] by (simp add: decodeEnvelope_def frameOf_sorted)
  ultimately show ?thesis
    using assms(1-4) by (simp add: ParseEnvelope_def Let_def)
qed

definition example_request :: Envelope where
  "example_request = zero_Envelope\<lparr>en_Type := ''command'', en_RequestID := ''r1'',
     en_Action := ''task.submit'', en_Ack := True, en_TimeoutMS := 250,
     en_Data := [(''goal'', AnyString ''x'')]\<rparr>"

theorem ParseEnvelope_roundtrip_witness:
  "ParseEnvelope (\<lambda>raw. Some (AnyMap (frameOf example_request))) (\<lambda>k v. ''type error'') ''...'' =
     Inr example_request"
proof -
  have "ValidateEnvelope example_request = None" "ToLower (TrimSpace ''command'') = ''command''"
      "TrimSpace ''task.submit'' = ''task.submit''"
    by code_simp+
  then show ?thesis
    using ParseEnvelope_roundtrip [of "\<lambda>raw. Some (AnyMap (frameOf example_request))" "''...''"
        example_request "\<lambda>k v. ''type error''"]
    by (simp add: example_request_def zero_Envelope_def)
qed

theorem ParseEnvelope_contract_witness:
  "\<exists>env. ParseEnvelope (\<lambda>raw. Some (AnyMap (frameOf example_request))) (\<lambda>k v. ''type error'') ''...'' = Inr env
     \<and> en_Type env = ''command'' \<and> TrimSpace (en_RequestID env) \<noteq> [] \<and> en_TimeoutMS env \<ge> 0"
proof -
  have "map_sum (\<lambda>e. ()) en_Type (ParseEnvelope (\<lambda>raw. Some (AnyMap (frameOf example_request))) (\<lambda>k v. ''type error'') ''...'') =
      Inr ''command''"
    by code_simp
  then show ?thesis
    using ParseEnvelope_contract [of "\<lambda>raw. Some (AnyMap (frameOf example_request))" "\<lambda>k v. ''type error''" "''...''"]
    by (auto split: sum.splits simp: map_sum_def)
qed

text \<open>One final answer per request: a request sent to a dispatcher whose actions are registered
  with \<open>RegisterSingle\<close> is answered by at most one acknowledgement, which comes first and is not
  final, followed by exactly one final frame that carries the id of the request; it is an error
  frame if the action is unknown or the handler fails and a response otherwise.\<close>

theorem dispatch_answers_once:
  assumes "single_dispatcher d"
  shows "\<exists>acks answer v. DispatchRequest d request emitLog ([], w) = (None, (acks @ [answer], v)) \<and>
    (acks = [] \<or> (\<exists>mode. acks = [AckEnvelope request mode])) \<and>
    filter en_Final (acks @ [answer]) = [answer] \<and> en_RequestID answer = en_RequestID request \<and>
    en_Type answer \<in> {''response'', ''error''} \<and>
    (Supports (en_Action request) d \<or> en_Type answer = ''error'')"
proof (cases "d (ToLower (TrimSpace (en_Action request)))")
  case None
  then show ?thesis
    by (auto simp: DispatchRequest_def emitLog_def ErrorEnvelope_def zero_Envelope_def)
next
  case (Some reg)
  obtain h where h: "hr_Handler reg = singleHandler h" and pure: "\<And>r w. fst (snd (h r w)) = fst w"
    using single_dispatcher_handlers [OF assms Some] by blast
  define acks where "acks = (if en_Ack request \<and> hr_SendAck reg
    then [AckEnvelope request (hr_Mode reg)] else [])"
  obtain v where run: "singleHandler h request emitLog (acks, w) =
      (case fst (h request (acks, w)) of Inl err \<Rightarrow> (Some err, (acks, v))
       | Inr payload \<Rightarrow> (None, (acks @ [ResponseEnvelope request payload], v)))"
    using singleHandler_log [of h request "(acks, w)", OF pure] unfolding fst_conv by blast
  have "\<exists>answer. DispatchRequest d request emitLog ([], w) = (None, (acks @ [answer], v)) \<and>
      en_Final answer \<and> en_RequestID answer = en_RequestID request \<and>
      en_Type answer \<in> {''response'', ''error''}"
    using run by (auto simp: DispatchRequest_def Some h emitLog_def acks_def ErrorEnvelope_def
        ResponseEnvelope_def zero_Envelope_def split: sum.splits if_splits)
  moreover have "filter en_Final acks = []"
    by (simp add: acks_def AckEnvelope_def zero_Envelope_def)
  moreover have "acks = [] \<or> (\<exists>mode. acks = [AckEnvelope request mode])"
    by (auto simp: acks_def)
  ultimately show ?thesis
    using Some by (fastforce simp: Supports_def)
qed

theorem dispatch_answers_once_witness:
  "let d = RegisterSingle ''task.submit'' True (\<lambda>r w. (Inr [], w)) Map.empty in
   \<exists>acks answer v. DispatchRequest d example_request emitLog ([], 0 :: nat) = (None, (acks @ [answer], v)) \<and>
     en_RequestID answer = ''r1''"
proof -
  have "single_dispatcher (RegisterSingle ''task.submit'' True (\<lambda>r w. (Inr [], w)) Map.empty)"
    by (intro single_register single_empty) simp
  from dispatch_answers_once [OF this, of example_request "0 :: nat"] show ?thesis
    unfolding Let_def by (auto simp: example_request_def)
qed

end
