(* ===== verification/Session.thy ===== *)
theory Session
  imports Protocol
begin

text \<open>
  A realtime session, \<open>go-core/internal/transport/session.go\<close>: subprotocol negotiation, acceptance,
  the cancel functions of requests in flight, subscriptions, control frames and shutdown.

  A cancel function is a number; calling it appends the number to \<open>ss_cancelled\<close>. The calls of the
  two hooks are logged in \<open>ss_subscribeCalls\<close> and \<open>ss_disconnectCalls\<close>. The HTTP headers are the
  list of the values of each header. Where the code ranges over a map, the definition takes the
  enumeration of its keys. The random session id is an argument.
\<close>

section \<open>State\<close>

record SubscriptionBinding =
  sb_ID :: string
  sb_Topic :: string
  sb_Filter :: "(string \<times> string) list"
  sb_CreatedAt :: time

record HandshakeResult =
  hs_SessionID :: string
  hs_Principal :: string
  hs_Subprotocol :: string
  hs_AcceptedAt :: time

datatype SessionError = AuthError string | ProtocolErr string | PlainError string

type_synonym headers = "string \<Rightarrow> string list"

record Session =
  ss_sessionID :: string
  ss_supportedSubprotocols :: "string list"
  ss_sendTimeout :: duration
  ss_heartbeatInterval :: duration
  ss_authHandler :: "headers \<Rightarrow> SessionError + string"
  ss_onSubscribe :: bool
  ss_onDisconnect :: bool
  ss_principal :: string
  ss_subprotocol :: string
  ss_acceptedAt :: time
  ss_accepted :: bool
  ss_closed :: bool
  ss_requestCancels :: "string \<rightharpoonup> nat"
  ss_subscriptions :: "string \<rightharpoonup> SubscriptionBinding"
  ss_cancelled :: "nat list"
  ss_subscribeCalls :: "SubscriptionBinding list"
  ss_disconnectCalls :: "string list"

definition DefaultWSSubprotocols :: "string list" where
  "DefaultWSSubprotocols = [''chat.v1'', ''chat.json'']"

definition headerGet :: "headers \<Rightarrow> string \<Rightarrow> string" where
  "headerGet h name = (case h name of [] \<Rightarrow> [] | v # _ \<Rightarrow> v)"

definition DefaultAuthHandler :: "headers \<Rightarrow> SessionError + string" where
  "DefaultAuthHandler h =
     (let who = TrimSpace (headerGet h ''X-Principal'');
          who = (if who = [] then TrimSpace (headerGet h ''X-User'') else who);
          who = (if who = [] then ''anonymous'' else who)
      in Inr who)"

definition NewSession :: "string \<Rightarrow> string list \<Rightarrow> duration \<Rightarrow> duration \<Rightarrow>
    (headers \<Rightarrow> SessionError + string) option \<Rightarrow> bool \<Rightarrow> bool \<Rightarrow> Session" where
  "NewSession sessionID supported sendTimeout heartbeatInterval authHandler onSubscribe onDisconnect =
     \<lparr>ss_sessionID = sessionID,
      ss_supportedSubprotocols = (if supported = [] then DefaultWSSubprotocols else supported),
      ss_sendTimeout = (if sendTimeout \<le> 0 then 5 * second else sendTimeout),
      ss_heartbeatInterval = (if heartbeatInterval \<le> 0 then 30 * second else heartbeatInterval),
      ss_authHandler = (case authHandler of None \<Rightarrow> DefaultAuthHandler | Some f \<Rightarrow> f),
      ss_onSubscribe = onSubscribe, ss_onDisconnect = onDisconnect, ss_principal = [],
      ss_subprotocol = [], ss_acceptedAt = zero_time, ss_accepted = False, ss_closed = False,
      ss_requestCancels = Map.empty, ss_subscriptions = Map.empty, ss_cancelled = [],
      ss_subscribeCalls = [], ss_disconnectCalls = []\<rparr>"

section \<open>Negotiation\<close>

definition NegotiateSubprotocol :: "string list \<Rightarrow> string list \<Rightarrow> SessionError + string" where
  "NegotiateSubprotocol requested supported =
     (let supported = (if supported = [] then DefaultWSSubprotocols else supported) in
      if requested = [] then Inr (hd supported)
      else case find (\<lambda>item. item \<in> set supported) requested of
        Some item \<Rightarrow> Inr item
      | None \<Rightarrow> Inl (ProtocolErr ''no compatible websocket subprotocol''))"

text \<open>\<open>Header.Get\<close> after an empty \<open>Header.Values\<close> is empty too, so that branch adds no token.\<close>

definition NegotiateSubprotocolFromHeaders :: "headers \<Rightarrow> string list \<Rightarrow> SessionError + string" where
  "NegotiateSubprotocolFromHeaders h supported =
     (let requested = h ''Sec-WebSocket-Protocol'';
          requested = (if requested = [] \<and> headerGet h ''Sec-WebSocket-Protocol'' \<noteq> []
                       then [headerGet h ''Sec-WebSocket-Protocol''] else requested);
          tokens = filter (\<lambda>t. t \<noteq> []) (map TrimSpace (concat (map (split_on CHR '','') requested)))
      in NegotiateSubprotocol tokens supported)"

definition Accept :: "time \<Rightarrow> headers \<Rightarrow> Session \<Rightarrow> (SessionError + HandshakeResult) \<times> Session" where
  "Accept now h s =
     (case ss_authHandler s h of
        Inl err \<Rightarrow> (Inl err, s)
      | Inr who \<Rightarrow>
          (case NegotiateSubprotocolFromHeaders h (ss_supportedSubprotocols s) of
             Inl err \<Rightarrow> (Inl err, s)
           | Inr subprotocol \<Rightarrow>
               if ss_closed s then (Inl (PlainError ''session already closed''), s)
               else
                 let s = s\<lparr>ss_principal := who, ss_subprotocol := subprotocol,
                           ss_acceptedAt := now, ss_accepted := True\<rparr>
                 in (Inr \<lparr>hs_SessionID = ss_sessionID s, hs_Principal = who,
                          hs_Subprotocol = subprotocol, hs_AcceptedAt = now\<rparr>, s)))"

section \<open>Requests in flight\<close>

definition TrackRequest :: "string \<Rightarrow> nat option \<Rightarrow> Session \<Rightarrow> SessionError option \<times> Session" where
  "TrackRequest requestID cancel s =
     (if TrimSpace requestID = [] then (Some (ProtocolErr ''request_id is required''), s)
      else case cancel of
        None \<Rightarrow> (Some (ProtocolErr ''request cancel func is required''), s)
      | Some c \<Rightarrow>
          if ss_closed s then (Some (PlainError ''session already closed''), s)
          else (None, s\<lparr>ss_requestCancels := (ss_requestCancels s)(requestID \<mapsto> c)\<rparr>))"

definition CancelRequest :: "string \<Rightarrow> Session \<Rightarrow> bool \<times> Session" where
  "CancelRequest requestID s =
     (case ss_requestCancels s requestID of
        None \<Rightarrow> (False, s)
      | Some c \<Rightarrow> (True, s\<lparr>ss_requestCancels := (ss_requestCancels s)(requestID := None),
                         ss_cancelled := ss_cancelled s @ [c]\<rparr>))"

definition FinishRequest :: "string \<Rightarrow> Session \<Rightarrow> Session" where
  "FinishRequest requestID s =
     s\<lparr>ss_requestCancels := (ss_requestCancels s)(requestID := None)\<rparr>"

definition pendingCancels :: "string list \<Rightarrow> Session \<Rightarrow> nat list" where
  "pendingCancels ids s = List.map_filter (ss_requestCancels s) ids"

definition CancelAllRequests :: "string list \<Rightarrow> Session \<Rightarrow> nat \<times> Session" where
  "CancelAllRequests ids s =
     (let cancels = pendingCancels ids s
      in (length cancels, s\<lparr>ss_requestCancels := Map.empty, ss_cancelled := ss_cancelled s @ cancels\<rparr>))"

definition ActiveRequestIDs :: "string list \<Rightarrow> Session \<Rightarrow> string list" where
  "ActiveRequestIDs ids s = filter (\<lambda>k. ss_requestCancels s k \<noteq> None) ids"

section \<open>Subscriptions\<close>

definition subscriptionIDFromData :: "string \<Rightarrow> (string \<times> string) list \<Rightarrow> string" where
  "subscriptionIDFromData topic flt =
     (if flt = [] then topic else topic @ '':'' @ nat_to_string (length flt))"

definition RegisterSubscription :: "time \<Rightarrow> SubscriptionBinding \<Rightarrow> Session \<Rightarrow>
    (SessionError + SubscriptionBinding) \<times> Session" where
  "RegisterSubscription now binding s =
     (if TrimSpace (sb_Topic binding) = []
      then (Inl (ProtocolErr ''subscription topic is required''), s)
      else
        let binding = (if TrimSpace (sb_ID binding) = []
              then binding\<lparr>sb_ID := subscriptionIDFromData (sb_Topic binding) (sb_Filter binding)\<rparr>
              else binding);
            binding = (if sb_CreatedAt binding = zero_time then binding\<lparr>sb_CreatedAt := now\<rparr> else binding) in
        if ss_closed s then (Inl (PlainError ''session already closed''), s)
        else
          let s = s\<lparr>ss_subscriptions := (ss_subscriptions s)(sb_ID binding \<mapsto> binding)\<rparr>;
              s = (if ss_onSubscribe s
                   then s\<lparr>ss_subscribeCalls := ss_subscribeCalls s @ [binding]\<rparr> else s)
          in (Inr binding, s))"

definition RemoveSubscription :: "string \<Rightarrow> Session \<Rightarrow> bool \<times> Session" where
  "RemoveSubscription k s =
     (if ss_subscriptions s k \<noteq> None
      then (True, s\<lparr>ss_subscriptions := (ss_subscriptions s)(k := None)\<rparr>) else (False, s))"

definition ClearSubscriptions :: "string list \<Rightarrow> Session \<Rightarrow> nat \<times> Session" where
  "ClearSubscriptions ids s =
     (length (filter (\<lambda>k. ss_subscriptions s k \<noteq> None) ids), s\<lparr>ss_subscriptions := Map.empty\<rparr>)"

definition Subscriptions :: "string list \<Rightarrow> Session \<Rightarrow> SubscriptionBinding list" where
  "Subscriptions ids s = List.map_filter (ss_subscriptions s) ids"

section \<open>Control frames\<close>

text \<open>\<open>fmt.Sprint\<close> of a value that is not a string is the parameter \<open>sprint\<close>.\<close>

definition asString :: "(any \<Rightarrow> string) \<Rightarrow> go_map \<Rightarrow> string \<Rightarrow> string" where
  "asString sprint data key =
     (case map_of data key of
        None \<Rightarrow> []
      | Some AnyNil \<Rightarrow> []
      | Some (AnyString s) \<Rightarrow> TrimSpace s
      | Some v \<Rightarrow> TrimSpace (sprint v))"

fun firstNonEmpty :: "string list \<Rightarrow> string" where
  "firstNonEmpty [] = []"
| "firstNonEmpty (v # vs) = (if TrimSpace v \<noteq> [] then TrimSpace v else firstNonEmpty vs)"

definition BuildEnvelope :: "string \<Rightarrow> string \<Rightarrow> string \<Rightarrow> string \<Rightarrow> go_map \<Rightarrow> string option \<Rightarrow> bool \<Rightarrow> Envelope" where
  "BuildEnvelope typ requestID correlationID action data err final =
     zero_Envelope\<lparr>en_Type := typ, en_RequestID := requestID, en_CorrelationID := correlationID,
       en_Action := action, en_Data := data, en_Final := final,
       en_Error := (case err of None \<Rightarrow> NoError | Some e \<Rightarrow> ErrorText e)\<rparr>"

definition HeartbeatEnvelope :: "string \<Rightarrow> Session \<Rightarrow> Envelope" where
  "HeartbeatEnvelope ts s = BuildEnvelope ''heartbeat'' [] [] []
     [(''session_id'', AnyString (ss_sessionID s)), (''ts'', AnyString ts)] None False"

definition HandleControlFrame :: "(any \<Rightarrow> string) \<Rightarrow> string \<Rightarrow> Envelope \<Rightarrow> Session \<Rightarrow>
    Envelope option \<times> Session" where
  "HandleControlFrame sprint ts envelope s =
     (let kind = ToLower (TrimSpace (firstNonEmpty [en_Action envelope, en_Type envelope]));
          reply = (\<lambda>typ action data final. BuildEnvelope typ (en_RequestID envelope)
            (en_CorrelationID envelope) action data None final) in
      if kind = ''ping''
      then (Some (reply ''pong'' ''pong'' [(''session_id'', AnyString (ss_sessionID s))] False), s)
      else if kind = ''heartbeat'' then (Some (HeartbeatEnvelope ts s), s)
      else if kind = ''cancel'' then
        let requestID = firstNonEmpty [asString sprint (en_Data envelope) ''request_id'',
              asString sprint (en_Data envelope) ''target_request_id'', en_RequestID envelope];
            (canceled, s) = CancelRequest requestID s
        in (Some (reply ''control.ack'' ''cancel''
              [(''request_id'', AnyString requestID), (''canceled'', AnyBool canceled)] True), s)
      else if kind = ''unsubscribe'' then
        let subscriptionID = firstNonEmpty [asString sprint (en_Data envelope) ''subscription_id'',
              asString sprint (en_Data envelope) ''id''];
            (removed, s) = RemoveSubscription subscriptionID s;
            s = (if removed then snd (CancelRequest subscriptionID s) else s)
        in (Some (reply ''control.ack'' ''unsubscribe''
              [(''subscription_id'', AnyString subscriptionID), (''removed'', AnyBool removed)] True), s)
      else (None, s))"

section \<open>Shutdown\<close>

definition CloseSession :: "string list \<Rightarrow> Session \<Rightarrow> Session" where
  "CloseSession ids s =
     (if ss_closed s then s
      else s\<lparr>ss_closed := True, ss_requestCancels := Map.empty, ss_subscriptions := Map.empty,
             ss_cancelled := ss_cancelled s @ pendingCancels ids s,
             ss_disconnectCalls := (if ss_onDisconnect s then ss_disconnectCalls s @ [ss_sessionID s]
               else ss_disconnectCalls s)\<rparr>)"

section \<open>Reachable sessions\<close>

text \<open>Every call on a session, one step each; an enumeration of the request map lists its keys
  without repetition.\<close>

inductive session_step :: "Session \<Rightarrow> Session \<Rightarrow> bool" where
  step_accept: "session_step s (snd (Accept now h s))"
| step_track: "session_step s (snd (TrackRequest r c s))"
| step_cancel: "session_step s (snd (CancelRequest r s))"
| step_finish: "session_step s (FinishRequest r s)"
| step_cancel_all: "distinct ids \<Longrightarrow> dom (ss_requestCancels s) \<subseteq> set ids \<Longrightarrow>
    session_step s (snd (CancelAllRequests ids s))"
| step_subscribe: "session_step s (snd (RegisterSubscription now b s))"
| step_unsubscribe: "session_step s (snd (RemoveSubscription k s))"
| step_clear: "session_step s (snd (ClearSubscriptions ids s))"
| step_control: "session_step s (snd (HandleControlFrame sprint ts env s))"
| step_close: "distinct ids \<Longrightarrow> dom (ss_requestCancels s) \<subseteq> set ids \<Longrightarrow>
    session_step s (CloseSession ids s)"

inductive session_reachable :: "Session \<Rightarrow> bool" where
  session_new: "session_reachable (NewSession sid sups st hb auth os od)"
| session_next: "session_reachable s \<Longrightarrow> session_step s t \<Longrightarrow> session_reachable t"

definition session_inv :: "Session \<Rightarrow> bool" where
  "session_inv s \<longleftrightarrow>
     (ss_closed s \<longrightarrow> ss_requestCancels s = Map.empty \<and> ss_subscriptions s = Map.empty) \<and>
     (\<forall>k b. ss_subscriptions s k = Some b \<longrightarrow> sb_ID b = k \<and> TrimSpace (sb_Topic b) \<noteq> []) \<and>
     (\<forall>k c. ss_requestCancels s k = Some c \<longrightarrow> TrimSpace k \<noteq> []) \<and>
     (ss_accepted s \<longrightarrow> ss_subprotocol s \<in> set (ss_supportedSubprotocols s)) \<and>
     ss_supportedSubprotocols s \<noteq> [] \<and>
     ss_disconnectCalls s = (if ss_closed s \<and> ss_onDisconnect s then [ss_sessionID s] else [])"

lemma session_inv_new: "session_inv (NewSession sid sups st hb auth os od)"
  by (simp add: session_inv_def NewSession_def DefaultWSSubprotocols_def)

lemma NegotiateSubprotocol_supported:
  "NegotiateSubprotocol req sups = Inr p \<Longrightarrow> sups \<noteq> [] \<Longrightarrow> p \<in> set sups"
  by (auto simp: NegotiateSubprotocol_def Let_def find_Some_iff split: if_splits option.splits)

lemma Accept_cases:
  assumes "ss_supportedSubprotocols s \<noteq> []"
  shows "snd (Accept now h s) = s \<or> (\<exists>w p. p \<in> set (ss_supportedSubprotocols s) \<and>
    snd (Accept now h s) = s\<lparr>ss_principal := w, ss_subprotocol := p, ss_acceptedAt := now,
      ss_accepted := True\<rparr>)"
proof (cases "ss_authHandler s h")
  case (Inr w)
  show ?thesis
  proof (cases "NegotiateSubprotocolFromHeaders h (ss_supportedSubprotocols s)")
    case negotiated: (Inr p)
    then have "p \<in> set (ss_supportedSubprotocols s)"
      unfolding NegotiateSubprotocolFromHeaders_def Let_def
      using assms by (rule NegotiateSubprotocol_supported)
    then show ?thesis
      using Inr negotiated by (cases "ss_closed s") (auto simp: Accept_def Let_def)
  qed (simp add: Accept_def Inr)
qed (simp add: Accept_def)

lemma session_inv_accept: "session_inv s \<Longrightarrow> session_inv (snd (Accept now h s))"
  using Accept_cases [of s now h] by (auto simp: session_inv_def)

lemma session_inv_cancel: "session_inv s \<Longrightarrow> session_inv (snd (CancelRequest r s))"
  by (auto simp: session_inv_def CancelRequest_def split: option.splits if_splits)

lemma session_inv_remove: "session_inv s \<Longrightarrow> session_inv (snd (RemoveSubscription k s))"
  by (auto simp: session_inv_def RemoveSubscription_def split: if_splits)

lemma session_inv_control: "session_inv s \<Longrightarrow> session_inv (snd (HandleControlFrame sprint ts env s))"
  by (auto simp: HandleControlFrame_def Let_def split_def session_inv_cancel session_inv_remove)

lemma session_inv_subscribe: "session_inv s \<Longrightarrow> session_inv (snd (RegisterSubscription now b s))"
  by (auto simp: session_inv_def RegisterSubscription_def Let_def)

lemma session_inv_track: "session_inv s \<Longrightarrow> session_inv (snd (TrackRequest r c s))"
  by (auto simp: session_inv_def TrackRequest_def split: option.splits)

lemma session_inv_drop:
  "session_inv s \<Longrightarrow> session_inv (s\<lparr>ss_requestCancels := (ss_requestCancels s)(r := None)\<rparr>)"
  "session_inv s \<Longrightarrow> session_inv (s\<lparr>ss_requestCancels := Map.empty, ss_cancelled := cs\<rparr>)"
  "session_inv s \<Longrightarrow> session_inv (s\<lparr>ss_subscriptions := Map.empty\<rparr>)"
  by (simp_all add: session_inv_def)

lemma session_inv_close: "session_inv s \<Longrightarrow> session_inv (CloseSession ids s)"
  by (simp add: session_inv_def CloseSession_def)

lemma session_step_inv: "session_step s t \<Longrightarrow> session_inv s \<Longrightarrow> session_inv t"
  by (induction rule: session_step.induct)
    (simp_all add: session_inv_accept session_inv_track session_inv_cancel session_inv_remove
      session_inv_control session_inv_subscribe session_inv_close session_inv_drop
      FinishRequest_def CancelAllRequests_def ClearSubscriptions_def Let_def)

lemma session_reachable_inv: "session_reachable s \<Longrightarrow> session_inv s"
  by (induction rule: session_reachable.induct) (auto intro: session_inv_new session_step_inv)

section \<open>Properties\<close>

text \<open>The life cycle of a session: after any sequence of calls, a closed session holds neither
  requests nor subscriptions, an accepted one speaks a subprotocol the server supports, every
  subscription is stored under its own id and names a topic, and the disconnect hook has been
  called once if the session is closed and never before.\<close>

theorem session_lifecycle:
  assumes "session_reachable s"
  shows "(ss_closed s \<longrightarrow> ss_requestCancels s = Map.empty \<and> ss_subscriptions s = Map.empty) \<and>
    (ss_accepted s \<longrightarrow> ss_subprotocol s \<in> set (ss_supportedSubprotocols s)) \<and>
    (\<forall>k b. ss_subscriptions s k = Some b \<longrightarrow> sb_ID b = k \<and> TrimSpace (sb_Topic b) \<noteq> []) \<and>
    ss_disconnectCalls s = (if ss_closed s \<and> ss_onDisconnect s then [ss_sessionID s] else [])"
  using session_reachable_inv [OF assms] unfolding session_inv_def by blast

definition example_session :: Session where
  "example_session = CloseSession [''r1'']
     (snd (TrackRequest ''r1'' (Some 7) (NewSession ''sess_1'' [] 0 0 None True True)))"

lemma example_session_reachable: "session_reachable example_session"
proof -
  have "session_reachable (snd (TrackRequest ''r1'' (Some 7) (NewSession ''sess_1'' [] 0 0 None True True)))"
    by (rule session_next [OF session_new step_track])
  then show ?thesis
    unfolding example_session_def
    by (rule session_next [OF _ step_close])
      (auto simp: TrackRequest_def NewSession_def split: if_splits)
qed

theorem session_lifecycle_witness:
  "ss_requestCancels example_session = Map.empty \<and> ss_disconnectCalls example_session = [''sess_1'']"
proof -
  have "ss_closed example_session" "ss_onDisconnect example_session"
      "ss_sessionID example_session = ''sess_1''"
    by (simp_all add: example_session_def CloseSession_def TrackRequest_def NewSession_def)
  then show ?thesis
    using session_lifecycle [OF example_session_reachable] by simp
qed

text \<open>Subprotocol negotiation picks the first protocol the client asks for that the server
  supports, and the server's first one if the client asks for none; it fails exactly if the client
  asks for protocols none of which is supported.\<close>

theorem NegotiateSubprotocol_spec:
  assumes "supported \<noteq> []"
  shows "case NegotiateSubprotocol requested supported of
      Inr p \<Rightarrow> p \<in> set supported \<and>
        (if requested = [] then p = hd supported
         else \<exists>before after. requested = before @ p # after \<and> set before \<inter> set supported = {})
    | Inl e \<Rightarrow> requested \<noteq> [] \<and> set requested \<inter> set supported = {}"
proof (cases "find (\<lambda>item. item \<in> set supported) requested")
  case None
  then have "set requested \<inter> set supported = {}"
    by (auto simp: find_None_iff)
  then show ?thesis
    using None assms by (auto simp: NegotiateSubprotocol_def)
next
  case (Some p)
  then have ne: "requested \<noteq> []" by auto
  obtain i where i: "i < length requested" "p = requested ! i" "p \<in> set supported"
      "\<forall>j < i. requested ! j \<notin> set supported"
    using Some by (auto simp: find_Some_iff)
  then have "requested = take i requested @ p # drop (Suc i) requested"
    by (simp add: id_take_nth_drop)
  moreover have "set (take i requested) \<inter> set supported = {}"
    using i(1,4) by (auto simp: in_set_conv_nth)
  ultimately show ?thesis
    using Some ne i(3) assms by (auto simp: NegotiateSubprotocol_def)
qed

theorem NegotiateSubprotocol_spec_witness:
  "NegotiateSubprotocol [''x'', ''chat.json''] DefaultWSSubprotocols = Inr ''chat.json'' \<and>
   (\<exists>before after. [''x'', ''chat.json''] = before @ ''chat.json'' # after \<and>
      set before \<inter> set DefaultWSSubprotocols = {})"
  using NegotiateSubprotocol_spec [of DefaultWSSubprotocols "[''x'', ''chat.json'']"]
  by (simp add: NegotiateSubprotocol_def DefaultWSSubprotocols_def)

text \<open>Closing an open session calls the cancel function of every request in flight, each as often
  as it is registered, and no other.\<close>

theorem CloseSession_cancels_requests:
  assumes "\<not> ss_closed s" "distinct ids" "set ids = dom (ss_requestCancels s)"
  shows "\<exists>cs. ss_cancelled (CloseSession ids s) = ss_cancelled s @ cs \<and>
    mset cs = image_mset (\<lambda>k. the (ss_requestCancels s k)) (mset_set (dom (ss_requestCancels s)))"
proof -
  have "List.map_filter m ids = map (\<lambda>k. the (m k)) ids" if "set ids \<subseteq> dom m"
    for m :: "string \<rightharpoonup> nat" and ids
    using that by (induction ids) (auto simp: List.map_filter_simps)
  then have "pendingCancels ids s = map (\<lambda>k. the (ss_requestCancels s k)) ids"
    using assms(3) by (simp add: pendingCancels_def)
  moreover have "mset_set (dom (ss_requestCancels s)) = mset ids"
    using assms(2,3) by (metis mset_set_set)
  ultimately show ?thesis
    using assms(1) by (auto simp: CloseSession_def)
qed

theorem CloseSession_cancels_requests_witness:
  "let s = snd (TrackRequest ''r1'' (Some 7) (NewSession ''sess_1'' [] 0 0 None True True)) in
   ss_cancelled (CloseSession [''r1''] s) = [7]"
  using CloseSession_cancels_requests [of
      "snd (TrackRequest ''r1'' (Some 7) (NewSession ''sess_1'' [] 0 0 None True True))" "[''r1'']"]
  by (simp add: TrackRequest_def NewSession_def Let_def TrimSpace_def is_space_def)

text \<open>A request id that is tracked twice loses the first cancel function: it is called neither
  by a cancel of that request nor by closing the session.\<close>

theorem TrackRequest_twice_leaks:
  assumes "\<not> ss_closed s" "TrimSpace r \<noteq> []" "c \<noteq> d" "c \<notin> set (ss_cancelled s)"
    and "c \<notin> ran (ss_requestCancels s)"
  shows "let s' = snd (TrackRequest r (Some d) (snd (TrackRequest r (Some c) s)))
    in c \<notin> set (ss_cancelled (snd (CancelRequest r s'))) \<and> c \<notin> set (ss_cancelled (CloseSession ids s'))"
proof -
  have "c \<notin> set (List.map_filter m ids)" if "c \<notin> ran m" for m :: "string \<rightharpoonup> nat"
    using that by (induction ids) (auto simp: List.map_filter_simps ran_def split: option.splits)
  moreover have "c \<notin> ran ((ss_requestCancels s)(r \<mapsto> d))"
    using assms(3,5) by (auto simp: ran_def)
  ultimately show ?thesis
    using assms by (simp add: TrackRequest_def CancelRequest_def CloseSession_def pendingCancels_def Let_def)
qed

theorem TrackRequest_twice_leaks_witness:
  "let s = snd (TrackRequest ''r1'' (Some 2) (snd (TrackRequest ''r1'' (Some 1)
       (NewSession ''sess_1'' [] 0 0 None True True))))
   in 1 \<notin> set (ss_cancelled (CloseSession [''r1''] s))"
  using TrackRequest_twice_leaks [of "NewSession ''sess_1'' [] 0 0 None True True" "''r1''" 1 2 "[''r1'']"]
  by (simp add: NewSession_def Let_def TrimSpace_def is_space_def)

text \<open>Two subscriptions to one topic without ids of their own, with different filters of the
  same size, get the same id: the second silently replaces the first.\<close>

theorem subscription_ids_collide:
  assumes "\<not> ss_closed s" "TrimSpace (sb_Topic a) \<noteq> []" "sb_Topic b = sb_Topic a"
    and "sb_ID a = []" "sb_ID b = []" "length (sb_Filter a) = length (sb_Filter b)"
    and "sb_Filter a \<noteq> sb_Filter b"
  shows "let s' = snd (RegisterSubscription now b (snd (RegisterSubscription now a s)));
      k = subscriptionIDFromData (sb_Topic a) (sb_Filter a)
    in map_option sb_Filter (ss_subscriptions s' k) = Some (sb_Filter b) \<and>
      dom (ss_subscriptions s') = insert k (dom (ss_subscriptions s))"
  using assms by (auto simp: RegisterSubscription_def subscriptionIDFromData_def Let_def)

theorem subscription_ids_collide_witness:
  "let binding = (\<lambda>v. \<lparr>sb_ID = [], sb_Topic = ''task'', sb_Filter = [(''id'', v)], sb_CreatedAt = 1\<rparr>);
       s = NewSession ''sess_1'' [] 0 0 None True True;
       s' = snd (RegisterSubscription 1 (binding ''b'') (snd (RegisterSubscription 1 (binding ''a'') s)))
   in dom (ss_subscriptions s') = {''task:1''}"
proof -
  have k: "subscriptionIDFromData ''task'' [(''id'', ''a'')] = ''task:1''"
    by code_simp
  show ?thesis
    using subscription_ids_collide [of "NewSession ''sess_1'' [] 0 0 None True True"
        "\<lparr>sb_ID = [], sb_Topic = ''task'', sb_Filter = [(''id'', ''a'')], sb_CreatedAt = 1\<rparr>"
        "\<lparr>sb_ID = [], sb_Topic = ''task'', sb_Filter = [(''id'', ''b'')], sb_CreatedAt = 1\<rparr>" 1]
    by (simp add: NewSession_def Let_def TrimSpace_def is_space_def k)
qed

end
