(* ===== verification/Hub.thy ===== *)
theory Hub
  imports Domain
begin

text \<open>
  The realtime event hub, \<open>go-core/internal/realtime/hub.go\<close>: a bounded history per topic and
  subscribers with a buffered channel of 32 events; a publisher never waits for a subscriber.

  A channel is the list of the events buffered in it. A closed subscription leaves the map of the
  hub but its reader can still drain the channel, so all subscribers ever created live in
  \<open>hb_heap\<close> and the map is the set \<open>hb_active\<close> of its keys. \<open>Publish\<close> works in a locked part, which
  takes the list of the subscribers, and one delivery per subscriber outside the lock; Go leaves
  the order of that list open, so it is an argument (\<open>ids\<close>).
\<close>

record subscriber =
  su_topic :: string
  su_ch :: "StreamEvent list"
  su_closed :: bool

record Hub =
  hb_name :: string
  hb_historySize :: int
  hb_nextID :: nat
  hb_heap :: "nat \<rightharpoonup> subscriber"
  hb_active :: "nat set"
  hb_history :: "string \<Rightarrow> StreamEvent list"
  hb_dropped :: nat

abbreviation (input) channel_capacity :: nat where
  "channel_capacity \<equiv> 32"

definition NewHub :: "string \<Rightarrow> int \<Rightarrow> Hub" where
  "NewHub name historySize =
     \<lparr>hb_name = name, hb_historySize = (if historySize \<le> 0 then 64 else historySize), hb_nextID = 0,
      hb_heap = Map.empty, hb_active = {}, hb_history = (\<lambda>_. []), hb_dropped = 0\<rparr>"

section \<open>Subscribers\<close>

text \<open>\<open>publish\<close> is a non-blocking send; \<open>closeSubscriber\<close> closes the channel once.\<close>

definition publish :: "StreamEvent \<Rightarrow> subscriber \<Rightarrow> bool \<times> subscriber" where
  "publish event s =
     (if su_closed s then (False, s)
      else if length (su_ch s) < channel_capacity then (True, s\<lparr>su_ch := su_ch s @ [event]\<rparr>)
      else (False, s))"

definition closeSubscriber :: "subscriber \<Rightarrow> subscriber" where
  "closeSubscriber s = (if su_closed s then s else s\<lparr>su_closed := True\<rparr>)"

section \<open>Publishing\<close>

definition appendBounded :: "StreamEvent list \<Rightarrow> StreamEvent \<Rightarrow> int \<Rightarrow> StreamEvent list" where
  "appendBounded events event limit =
     (let events = events @ [event] in
      if int (length events) \<le> limit then events
      else drop (nat (int (length events) - limit)) events)"

definition topicOf :: "string \<Rightarrow> string" where
  "topicOf topic = (if topic = [] then ''all'' else topic)"

text \<open>The locked part: number the event and append it to the history of its topic.\<close>

definition publishLocked :: "time \<Rightarrow> string \<Rightarrow> string \<Rightarrow> string \<Rightarrow> go_map \<Rightarrow> Hub \<Rightarrow> StreamEvent \<times> Hub" where
  "publishLocked now topic kind entityID payload h =
     (let topic = topicOf topic;
          h = h\<lparr>hb_nextID := hb_nextID h + 1\<rparr>;
          event = \<lparr>se_ID = hb_name h @ ''-'' @ nat_to_string (hb_nextID h), se_Stream = hb_name h,
                   se_Topic = topic, se_Kind = kind, se_EntityID = entityID, se_Timestamp = now,
                   se_Payload = payload\<rparr>
      in (event, h\<lparr>hb_history := (hb_history h)(topic :=
            appendBounded (hb_history h topic) event (hb_historySize h))\<rparr>))"

text \<open>One round of the loop over the subscribers.\<close>

definition deliverOne :: "StreamEvent \<Rightarrow> nat \<Rightarrow> Hub \<Rightarrow> Hub" where
  "deliverOne event i h =
     (case hb_heap h i of
        None \<Rightarrow> h
      | Some s \<Rightarrow>
          if su_topic s \<noteq> ''all'' \<and> su_topic s \<noteq> se_Topic event then h
          else
            let (ok, s) = publish event s;
                h = h\<lparr>hb_heap := (hb_heap h)(i \<mapsto> s)\<rparr>
            in if \<not> ok then h\<lparr>hb_dropped := hb_dropped h + 1\<rparr> else h)"

definition HubPublish :: "time \<Rightarrow> nat list \<Rightarrow> string \<Rightarrow> string \<Rightarrow> string \<Rightarrow> go_map \<Rightarrow> Hub \<Rightarrow> StreamEvent \<times> Hub" where
  "HubPublish now ids topic kind entityID payload h =
     (let (event, h) = publishLocked now topic kind entityID payload h
      in (event, fold (deliverOne event) ids h))"

section \<open>Subscribing\<close>

definition HubSubscribe :: "string \<Rightarrow> Hub \<Rightarrow> nat \<times> Hub" where
  "HubSubscribe topic h =
     (let h = h\<lparr>hb_nextID := hb_nextID h + 1\<rparr>;
          i = hb_nextID h
      in (i, h\<lparr>hb_heap := (hb_heap h)(i \<mapsto>
                 \<lparr>su_topic = topicOf topic, su_ch = [], su_closed = False\<rparr>),
               hb_active := insert i (hb_active h)\<rparr>))"

text \<open>The closure that closes a subscription.\<close>

definition closeSubscription :: "nat \<Rightarrow> Hub \<Rightarrow> Hub" where
  "closeSubscription i h =
     (if i \<in> hb_active h
      then h\<lparr>hb_active := hb_active h - {i}, hb_heap := (hb_heap h)(i := map_option closeSubscriber (hb_heap h i))\<rparr>
      else h)"

text \<open>A receive on the channel of a subscription: an event, or nothing if the buffer is empty.\<close>

definition receive :: "nat \<Rightarrow> Hub \<Rightarrow> StreamEvent option \<times> Hub" where
  "receive i h =
     (case hb_heap h i of
        None \<Rightarrow> (None, h)
      | Some s \<Rightarrow>
          (case su_ch s of
             [] \<Rightarrow> (None, h)
           | e # rest \<Rightarrow> (Some e, h\<lparr>hb_heap := (hb_heap h)(i \<mapsto> s\<lparr>su_ch := rest\<rparr>)\<rparr>)))"

section \<open>Views\<close>

text \<open>\<open>sort.Slice\<close> may place events of one instant in any order; the model takes the stable order
  over the enumeration \<open>topics\<close> of the history map.\<close>

definition HubSnapshot :: "string list \<Rightarrow> string \<Rightarrow> Hub \<Rightarrow> StreamEvent list" where
  "HubSnapshot topics topic h =
     (if topic = [] \<or> topic = ''all''
      then sort_key se_Timestamp (concat (map (hb_history h) topics))
      else hb_history h topic)"

record HubStatsView =
  hv_stream :: string
  hv_subscriber_count :: nat
  hv_history_size :: int
  hv_topics :: "string list"
  hv_history_counts :: "(string \<times> nat) list"
  hv_dropped_events :: nat

definition HubStats :: "string list \<Rightarrow> Hub \<Rightarrow> HubStatsView" where
  "HubStats topics h =
     \<lparr>hv_stream = hb_name h, hv_subscriber_count = card (hb_active h),
      hv_history_size = hb_historySize h, hv_topics = sort topics,
      hv_history_counts = map (\<lambda>t. (t, length (hb_history h t))) topics,
      hv_dropped_events = hb_dropped h\<rparr>"

section \<open>Bounded history\<close>

lemma appendBounded_lastn:
  "0 < limit \<Longrightarrow> appendBounded events event limit = lastn (nat limit) (events @ [event])"
proof -
  assume "0 < limit"
  then obtain k where "limit = int k" by (metis zero_less_imp_eq_int)
  moreover have "nat (int (length xs) - int k) = length xs - k" for xs :: "StreamEvent list"
    by linarith
  ultimately show ?thesis
    unfolding appendBounded_def lastn_def Let_def by (simp only: of_nat_le_iff nat_int) simp
qed

lemma deliverOne_frame [simp]:
  "hb_history (deliverOne e i h) = hb_history h" "hb_nextID (deliverOne e i h) = hb_nextID h"
  "hb_name (deliverOne e i h) = hb_name h" "hb_historySize (deliverOne e i h) = hb_historySize h"
  "hb_active (deliverOne e i h) = hb_active h"
  by (auto simp: deliverOne_def Let_def split_def split: option.splits)

lemma deliver_frame [simp]:
  "hb_history (fold (deliverOne e) ids h) = hb_history h"
  "hb_nextID (fold (deliverOne e) ids h) = hb_nextID h"
  "hb_name (fold (deliverOne e) ids h) = hb_name h"
  "hb_historySize (fold (deliverOne e) ids h) = hb_historySize h"
  "hb_active (fold (deliverOne e) ids h) = hb_active h"
  by (induction ids arbitrary: h) auto

section \<open>A log of the events published\<close>

text \<open>Calls on a hub in any order; \<open>hub_run\<close> returns the events published, in order.\<close>

datatype hub_op =
    CallPublish time "nat list" string string string go_map
  | CallSubscribe string
  | CallClose nat
  | CallReceive nat

fun hub_call :: "hub_op \<Rightarrow> Hub \<Rightarrow> StreamEvent list \<times> Hub" where
  "hub_call (CallPublish now ids topic kind entity payload) h =
     (let (e, h) = HubPublish now ids topic kind entity payload h in ([e], h))"
| "hub_call (CallSubscribe topic) h = ([], snd (HubSubscribe topic h))"
| "hub_call (CallClose i) h = ([], closeSubscription i h)"
| "hub_call (CallReceive i) h = ([], snd (receive i h))"

fun hub_run :: "hub_op list \<Rightarrow> Hub \<Rightarrow> StreamEvent list \<times> Hub" where
  "hub_run [] h = ([], h)"
| "hub_run (c # cs) h =
     (let (es, h) = hub_call c h; (fs, h) = hub_run cs h in (es @ fs, h))"

lemma hub_run_snoc:
  "hub_run (cs @ [c]) h = (let (es, h1) = hub_run cs h; (fs, h2) = hub_call c h1 in (es @ fs, h2))"
  by (induction cs arbitrary: h) (auto simp: Let_def split_def)

lemma hub_call_frame:
  "hb_name (snd (hub_call c h)) = hb_name h"
  "hb_historySize (snd (hub_call c h)) = hb_historySize h"
  "hb_nextID h \<le> hb_nextID (snd (hub_call c h))"
  by (cases c; simp add: HubPublish_def publishLocked_def HubSubscribe_def closeSubscription_def
      receive_def Let_def split_def split: option.splits list.splits)+

lemma hub_call_history:
  "hb_history (snd (hub_call c h)) t = (case fst (hub_call c h) of
     [] \<Rightarrow> hb_history h t
   | e # _ \<Rightarrow> if se_Topic e = t then appendBounded (hb_history h t) e (hb_historySize h)
        else hb_history h t)"
  by (cases c; simp add: HubPublish_def publishLocked_def HubSubscribe_def closeSubscription_def
      receive_def Let_def split_def split: option.splits list.splits)

lemma hub_call_ids:
  "fst (hub_call c h) = [] \<or> (\<exists>e. fst (hub_call c h) = [e] \<and>
     se_ID e = hb_name h @ ''-'' @ nat_to_string (Suc (hb_nextID h)) \<and>
     hb_nextID (snd (hub_call c h)) = Suc (hb_nextID h))"
  by (cases c) (simp_all add: HubPublish_def publishLocked_def Let_def split_def)


section \<open>Histories and event ids\<close>

lemma hub_run_frame:
  "hb_name (snd (hub_run cs h)) = hb_name h"
  "hb_historySize (snd (hub_run cs h)) = hb_historySize h"
  by (induction cs arbitrary: h) (simp_all add: Let_def split_def hub_call_frame)

lemma hub_run_history:
  assumes "0 < hb_historySize h" "hb_history h t = []"
  shows "hb_history (snd (hub_run cs h)) t =
    lastn (nat (hb_historySize h)) (filter (\<lambda>e. se_Topic e = t) (fst (hub_run cs h)))"
proof (induction cs rule: rev_induct)
  case Nil
  then show ?case using assms by (simp add: lastn_def)
next
  case (snoc c cs)
  obtain es h1 where r: "hub_run cs h = (es, h1)" by (cases "hub_run cs h")
  obtain fs h2 where c: "hub_call c h1 = (fs, h2)" by (cases "hub_call c h1")
  have size: "hb_historySize h1 = hb_historySize h" using hub_run_frame(2) [of cs h] r by simp
  have h2: "hb_history h2 t = (case fs of [] \<Rightarrow> hb_history h1 t
      | e # _ \<Rightarrow> if se_Topic e = t then appendBounded (hb_history h1 t) e (hb_historySize h)
          else hb_history h1 t)"
    using hub_call_history [of c h1 t] unfolding c size by simp
  have one: "fs = [] \<or> (\<exists>e. fs = [e])" using hub_call_ids [of c h1] c by auto
  have run: "hub_run (cs @ [c]) h = (es @ fs, h2)"
    using r c by (simp add: hub_run_snoc)
  have ih: "hb_history h1 t = lastn (nat (hb_historySize h)) (filter (\<lambda>e. se_Topic e = t) es)"
    using snoc r by simp
  show ?case
    unfolding run fst_conv snd_conv h2 ih using one assms(1)
    by (auto simp: appendBounded_lastn lastn_snoc)
qed

lemma hub_run_ids:
  "distinct (map se_ID (fst (hub_run cs h))) \<and>
   (\<forall>e \<in> set (fst (hub_run cs h)). \<exists>n > hb_nextID h. se_ID e = hb_name h @ ''-'' @ nat_to_string n)"
proof (induction cs arbitrary: h)
  case (Cons c cs)
  obtain es h1 where c: "hub_call c h = (es, h1)" by (cases "hub_call c h")
  have name: "hb_name h1 = hb_name h" and mono: "hb_nextID h \<le> hb_nextID h1"
    using hub_call_frame(1) [of c h] hub_call_frame(3) [of h c] c by simp_all
  note ih = Cons.IH [of h1, unfolded name]
  have run: "fst (hub_run (c # cs) h) = es @ fst (hub_run cs h1)"
    by (simp add: c split_def Let_def)
  consider "es = []" | e where "es = [e]" "se_ID e = hb_name h @ ''-'' @ nat_to_string (Suc (hb_nextID h))"
      "hb_nextID h1 = Suc (hb_nextID h)"
    using hub_call_ids [of c h] c by auto
  then show ?case
  proof cases
    case 1
    then show ?thesis using ih mono unfolding run by (auto intro: le_less_trans)
  next
    case 2
    have "se_ID e \<notin> se_ID ` set (fst (hub_run cs h1))"
      using ih 2 by (auto dest!: nat_to_string_inj)
    then show ?thesis
      using ih 2 unfolding run by (fastforce dest: Suc_lessD)
  qed
qed simp

section \<open>Properties\<close>

text \<open>The history of a topic is a window of the log: after any sequence of publishes,
  subscriptions, closes and receives on a fresh hub, it holds exactly the last \<open>historySize\<close> events
  that were published to the topic, in order.\<close>

theorem hub_history_window:
  "let (events, h) = hub_run cs (NewHub name limit) in
   hb_history h topic = lastn (nat (if limit \<le> 0 then 64 else limit))
     (filter (\<lambda>e. se_Topic e = topic) events)"
  using hub_run_history [of "NewHub name limit" topic cs]
  by (simp add: NewHub_def split_def Let_def split: if_splits)

text \<open>Event ids are unique: no two events a hub publishes in its life have the same id, although
  subscriptions draw their numbers from the same counter.\<close>

theorem hub_event_ids_unique:
  "distinct (map se_ID (fst (hub_run cs (NewHub name limit))))"
  using hub_run_ids by blast


text \<open>Who gets an event: open subscribers of the topic or of \<open>all\<close> with room in their channel.\<close>

definition wants :: "StreamEvent \<Rightarrow> subscriber \<Rightarrow> bool" where
  "wants e s \<longleftrightarrow> su_topic s = ''all'' \<or> su_topic s = se_Topic e"

definition has_room :: "subscriber \<Rightarrow> bool" where
  "has_room s \<longleftrightarrow> \<not> su_closed s \<and> length (su_ch s) < channel_capacity"

lemma deliver_all:
  assumes "distinct ids"
  shows "hb_heap (fold (deliverOne e) ids h) i =
      (if i \<in> set ids then map_option (\<lambda>s. if wants e s \<and> has_room s
         then s\<lparr>su_ch := su_ch s @ [e]\<rparr> else s) (hb_heap h i) else hb_heap h i) \<and>
    hb_dropped (fold (deliverOne e) ids h) = hb_dropped h +
      length (filter (\<lambda>i. \<exists>s. hb_heap h i = Some s \<and> wants e s \<and> \<not> has_room s) ids)"
  using assms
proof (induction ids arbitrary: h)
  case (Cons j ids)
  let ?h = "deliverOne e j h"
  have heap: "hb_heap ?h = (hb_heap h)(j := map_option (\<lambda>s. if wants e s \<and> has_room s
         then s\<lparr>su_ch := su_ch s @ [e]\<rparr> else s) (hb_heap h j))"
    and drop: "hb_dropped ?h = hb_dropped h +
      (if \<exists>s. hb_heap h j = Some s \<and> wants e s \<and> \<not> has_room s then 1 else 0)"
    by (auto simp: deliverOne_def publish_def wants_def has_room_def Let_def fun_eq_iff
        split: option.splits)
  have same: "filter (\<lambda>i. \<exists>s. hb_heap ?h i = Some s \<and> wants e s \<and> \<not> has_room s) ids =
      filter (\<lambda>i. \<exists>s. hb_heap h i = Some s \<and> wants e s \<and> \<not> has_room s) ids"
    using Cons.prems by (intro filter_cong refl) (auto simp: heap)
  note ih = Cons.IH [of ?h, unfolded same]
  have "hb_heap (fold (deliverOne e) (j # ids) h) i = (if i \<in> set (j # ids)
      then map_option (\<lambda>s. if wants e s \<and> has_room s then s\<lparr>su_ch := su_ch s @ [e]\<rparr> else s)
        (hb_heap h i) else hb_heap h i)"
    using ih Cons.prems by (auto simp: heap)
  moreover have "hb_dropped (fold (deliverOne e) (j # ids) h) = hb_dropped h +
      length (filter (\<lambda>i. \<exists>s. hb_heap h i = Some s \<and> wants e s \<and> \<not> has_room s) (j # ids))"
    using ih Cons.prems by (auto simp: drop)
  ultimately show ?case by blast
qed simp

text \<open>A publish reaches every subscriber of the hub or is counted: each active subscriber of the
  topic or of \<open>all\<close> gets the event at the end of its channel if the channel is open and has room
  among its 32 places, every other channel is unchanged, and the dropped counter grows by the
  number of subscribers that wanted the event and had no room. This holds for every order in which
  Go enumerates the subscribers.\<close>

theorem hub_publish_accounts_for_all:
  assumes "distinct ids" "set ids = hb_active h"
  shows "let (e, h') = HubPublish now ids topic kind entity payload h;
      gets = (\<lambda>s. (su_topic s = ''all'' \<or> su_topic s = se_Topic e) \<and> \<not> su_closed s \<and> length (su_ch s) < 32);
      misses = (\<lambda>s. (su_topic s = ''all'' \<or> su_topic s = se_Topic e) \<and> (su_closed s \<or> length (su_ch s) \<ge> 32))
    in hb_heap h' = (\<lambda>i. map_option (\<lambda>s. if i \<in> hb_active h \<and> gets s
        then s\<lparr>su_ch := su_ch s @ [e]\<rparr> else s) (hb_heap h i)) \<and>
      hb_dropped h' = hb_dropped h +
        card {i \<in> hb_active h. \<exists>s. hb_heap h i = Some s \<and> misses s}"
proof -
  obtain e h1 where p: "publishLocked now topic kind entity payload h = (e, h1)"
    by (cases "publishLocked now topic kind entity payload h")
  have h1: "hb_heap h1 = hb_heap h" "hb_dropped h1 = hb_dropped h"
    using p by (auto simp: publishLocked_def Let_def)
  note out = deliver_all [OF assms(1), of e h1, unfolded h1]
  have "card {i \<in> hb_active h. \<exists>s. hb_heap h i = Some s \<and> wants e s \<and> \<not> has_room s} =
      length (filter (\<lambda>i. \<exists>s. hb_heap h i = Some s \<and> wants e s \<and> \<not> has_room s) ids)"
    using assms by (metis (no_types, lifting) distinct_card distinct_filter set_filter Collect_cong)
  moreover have "hb_heap (fold (deliverOne e) ids h1) = (\<lambda>i. map_option (\<lambda>s. if i \<in> hb_active h \<and>
      wants e s \<and> has_room s then s\<lparr>su_ch := su_ch s @ [e]\<rparr> else s) (hb_heap h i))"
    using out assms(2) by (auto simp: fun_eq_iff option.map_ident intro: option.map_cong)
  ultimately show ?thesis
    using out p by (simp add: HubPublish_def Let_def wants_def has_room_def not_less conj_assoc)
qed

theorem hub_publish_accounts_for_all_witness:
  "let h = snd (HubSubscribe ''tasks'' (NewHub ''h'' 4));
     (e, h') = HubPublish 5 [1] ''tasks'' ''k'' ''x'' [] h
   in map_option su_ch (hb_heap h' 1) = Some [e] \<and> hb_dropped h' = 0"
  using hub_publish_accounts_for_all [of "[1]" "snd (HubSubscribe ''tasks'' (NewHub ''h'' 4))" 5 "''tasks''"
      "''k''" "''x''" "[]"]
  by (simp add: HubSubscribe_def NewHub_def Let_def split_def HubPublish_def publishLocked_def topicOf_def)

end
