(* ===== verification/Registry.thy ===== *)
theory Registry
  imports Domain
begin

text \<open>
  The agent registry, \<open>go-core/internal/kernel/registry.go\<close>: the agents by id, the modules by name
  and the runtime state of each agent. The maps are association lists with distinct keys, because
  the listings sort them. An agent is what the kernel observes of the interface value: its info and
  whether it takes an assigned model. A registration listener is a number; its calls are logged.
\<close>

record Agent =
  ag_Info :: AgentInfo
  ag_SupportsAssignedModelOverride :: bool

record Registry =
  rg_agents :: "(string \<times> Agent) list"
  rg_modules :: "(string \<times> ModuleInfo) list"
  rg_runtimeStates :: "(string \<times> AgentRuntimeState) list"
  rg_agentRegistrations :: "nat list"
  rg_listenerCalls :: "(nat \<times> string) list"

definition NewRegistry :: Registry where
  "NewRegistry = \<lparr>rg_agents = [], rg_modules = [], rg_runtimeStates = [],
     rg_agentRegistrations = [], rg_listenerCalls = []\<rparr>"

definition RegisterAgent :: "time \<Rightarrow> Agent \<Rightarrow> Registry \<Rightarrow> Registry" where
  "RegisterAgent now agent r =
     (let info = ag_Info agent;
          r = r\<lparr>rg_agents := map_set (ai_ID info) agent (rg_agents r)\<rparr>;
          state = (case map_of (rg_runtimeStates r) (ai_ID info) of
             None \<Rightarrow> zero_AgentRuntimeState\<lparr>rs_AgentID := ai_ID info, rs_Provider := ai_Provider info,
                       rs_Status := ai_Status info, rs_PriorityScore := 1, rs_UpdatedAt := now\<rparr>
           | Some state \<Rightarrow> state\<lparr>rs_Provider := ai_Provider info,
                       rs_Status := (if rs_Status state = AgentStatusEmpty then ai_Status info
                         else rs_Status state), rs_UpdatedAt := now\<rparr>);
          r = r\<lparr>rg_runtimeStates := map_set (ai_ID info) state (rg_runtimeStates r)\<rparr>
      in r\<lparr>rg_listenerCalls := rg_listenerCalls r @
            map (\<lambda>listener. (listener, ai_ID info)) (rg_agentRegistrations r)\<rparr>)"

definition OnAgentRegistered :: "nat option \<Rightarrow> Registry \<Rightarrow> Registry" where
  "OnAgentRegistered listener r =
     (case listener of
        None \<Rightarrow> r
      | Some l \<Rightarrow> r\<lparr>rg_agentRegistrations := rg_agentRegistrations r @ [l]\<rparr>)"

definition RegisterModule :: "ModuleInfo \<Rightarrow> Registry \<Rightarrow> Registry" where
  "RegisterModule mdl r = r\<lparr>rg_modules := map_set (mi_Name mdl) mdl (rg_modules r)\<rparr>"

definition Agents :: "Registry \<Rightarrow> Agent list" where
  "Agents r = sort_key (\<lambda>a. ai_ID (ag_Info a)) (map snd (rg_agents r))"

definition AgentByID :: "string \<Rightarrow> Registry \<Rightarrow> Agent option" where
  "AgentByID agentID r = map_of (rg_agents r) agentID"

definition AgentInfos :: "Registry \<Rightarrow> AgentInfo list" where
  "AgentInfos r = sort_key ai_ID (map (\<lambda>(_, agent).
     let info = ag_Info agent in
     case map_of (rg_runtimeStates r) (ai_ID info) of
       None \<Rightarrow> info
     | Some state \<Rightarrow> if rs_Status state \<noteq> AgentStatusEmpty
         then info\<lparr>ai_Status := rs_Status state\<rparr> else info) (rg_agents r))"

definition SetRuntimeState :: "time \<Rightarrow> AgentRuntimeState \<Rightarrow> Registry \<Rightarrow> Registry" where
  "SetRuntimeState now state r =
     (if rs_AgentID state = [] then r
      else
        let state = (if rs_UpdatedAt state = zero_time then state\<lparr>rs_UpdatedAt := now\<rparr> else state);
            state = (case map_of (rg_runtimeStates r) (rs_AgentID state) of
               None \<Rightarrow> state
             | Some existing \<Rightarrow>
                 state\<lparr>rs_Provider := (if rs_Provider state = [] then rs_Provider existing
                         else rs_Provider state),
                       rs_Status := (if rs_Status state = AgentStatusEmpty then rs_Status existing
                         else rs_Status state)\<rparr>)
        in r\<lparr>rg_runtimeStates := map_set (rs_AgentID state) state (rg_runtimeStates r)\<rparr>)"

definition RuntimeState :: "string \<Rightarrow> Registry \<Rightarrow> AgentRuntimeState option" where
  "RuntimeState agentID r = map_of (rg_runtimeStates r) agentID"

definition RuntimeStates :: "Registry \<Rightarrow> AgentRuntimeState list" where
  "RuntimeStates r = sort_key rs_AgentID (map snd (rg_runtimeStates r))"

definition Modules :: "Registry \<Rightarrow> ModuleInfo list" where
  "Modules r = sort_key mi_Name (map snd (rg_modules r))"

definition ModuleInfos :: "Registry \<Rightarrow> ModuleInfo list" where
  "ModuleInfos r = Modules r"

section \<open>Well-formed registries\<close>

text \<open>Keys are the ids of what they map to, and every registered agent has a runtime state.\<close>

definition registry_ok :: "Registry \<Rightarrow> bool" where
  "registry_ok r \<longleftrightarrow> distinct (map fst (rg_agents r)) \<and> distinct (map fst (rg_runtimeStates r)) \<and>
     (\<forall>(k, a) \<in> set (rg_agents r). ai_ID (ag_Info a) = k) \<and>
     (\<forall>(k, s) \<in> set (rg_runtimeStates r). rs_AgentID s = k) \<and>
     fst ` set (rg_agents r) \<subseteq> fst ` set (rg_runtimeStates r)"

lemma set_map_set: "set (map_set k v m) \<subseteq> insert (k, v) (set m)"
  by (induction k v m rule: map_set.induct) auto

lemma fst_map_set: "fst ` set (map_set k v m) = insert k (fst ` set m)"
  by (induction k v m rule: map_set.induct) auto

lemma registry_ok_set_state:
  "registry_ok r \<Longrightarrow> rs_AgentID s = k \<Longrightarrow>
   registry_ok (r\<lparr>rg_runtimeStates := map_set k s (rg_runtimeStates r)\<rparr>)"
  using set_map_set [of k s "rg_runtimeStates r"]
  by (auto simp: registry_ok_def distinct_map_set fst_map_set)

lemma registry_ok_SetRuntimeState: "registry_ok r \<Longrightarrow> registry_ok (SetRuntimeState now s r)"
  by (simp add: SetRuntimeState_def Let_def registry_ok_set_state split: option.split)

lemma registry_ok_state_key: "registry_ok r \<Longrightarrow> RuntimeState k r = Some s \<Longrightarrow> rs_AgentID s = k"
  by (auto simp: registry_ok_def RuntimeState_def dest!: map_of_SomeD)

lemma registry_ok_RegisterAgent: "registry_ok r \<Longrightarrow> registry_ok (RegisterAgent now a r)"
proof -
  assume ok: "registry_ok r"
  let ?k = "ai_ID (ag_Info a)"
  have "rs_AgentID s = ?k" if "map_of (rg_runtimeStates r) ?k = Some s" for s
    using registry_ok_state_key [OF ok] that by (simp add: RuntimeState_def)
  moreover have "registry_ok (r\<lparr>rg_agents := map_set ?k a (rg_agents r),
      rg_runtimeStates := map_set ?k s (rg_runtimeStates r), rg_listenerCalls := ls\<rparr>)"
    if "rs_AgentID s = ?k" for s ls
    using ok that set_map_set [of ?k a "rg_agents r"] set_map_set [of ?k s "rg_runtimeStates r"]
    by (auto simp: registry_ok_def distinct_map_set fst_map_set)
  ultimately show ?thesis
    by (auto simp: RegisterAgent_def Let_def split: option.split)
qed

lemma registry_ok_new: "registry_ok NewRegistry"
  by (simp add: registry_ok_def NewRegistry_def)

end
