(* ===== verification/RuntimeManager.thy ===== *)
theory RuntimeManager
  imports Registry
begin

text \<open>
  The runtime manager, \<open>go-core/internal/kernel/runtime_manager.go\<close>: the health of every agent lane
  (error rate, suppression, load), the routing weights derived from it, and the synchronisation with
  provider health and the model catalogue.

  Rates, loads and weights are exact rationals for the code's \<open>float64\<close>; error rates stay multiples
  of 1/4, which \<open>float64\<close> represents exactly. Each call reads the clock once (\<open>now\<close>). The model
  catalogue behind \<open>providerRegistry\<close> is the map of its snapshots, \<open>None\<close> for a nil registry. The
  probe callback is an argument of the call that invokes it.
\<close>

section \<open>State\<close>

record RuntimeManager =
  rm_registry :: Registry
  rm_providerRegistry :: "(string \<rightharpoonup> ProviderCatalogSnapshot) option"
  rm_routingWeights :: "(string \<times> rat) list"

record CapacitySnapshot =
  cs_InFlight :: int
  cs_AgentSlotUsage :: rat
  cs_ModelSlotUsage :: rat
  cs_GlobalSlotUsage :: rat

definition NewRuntimeManager :: "Registry \<Rightarrow> (string \<rightharpoonup> ProviderCatalogSnapshot) option \<Rightarrow> RuntimeManager" where
  "NewRuntimeManager registry providerRegistry =
     \<lparr>rm_registry = registry, rm_providerRegistry = providerRegistry, rm_routingWeights = []\<rparr>"

section \<open>Arithmetic helpers\<close>

definition clampRuntimeLoad :: "rat \<Rightarrow> rat" where
  "clampRuntimeLoad value = (if value < 0 then 0 else if value > 1 then 1 else value)"

definition maxRuntimeFloat :: "rat list \<Rightarrow> rat" where
  "maxRuntimeFloat values = fold (\<lambda>v m. if v > m then v else m) values 0"

definition maxRuntimeInt :: "int \<Rightarrow> int \<Rightarrow> int" where
  "maxRuntimeInt value low = (if value < low then low else value)"

definition liveLoadPressure :: "AgentRuntimeState \<Rightarrow> rat" where
  "liveLoadPressure state = clampRuntimeLoad (maxRuntimeFloat [rs_AgentSlotUsage state,
     maxRuntimeFloat [rs_ModelSlotUsage state, rs_GlobalSlotUsage state]])"

definition suppressed :: "time \<Rightarrow> AgentRuntimeState \<Rightarrow> bool" where
  "suppressed now state = (case rs_SuppressedUntil state of None \<Rightarrow> False | Some until \<Rightarrow> until > now)"

definition runtimePriorityWeight :: "time \<Rightarrow> AgentRuntimeState \<Rightarrow> rat" where
  "runtimePriorityWeight now state =
     (let weight = (case rs_Status state of
            AgentStatusReady \<Rightarrow> 1
          | AgentStatusBusy \<Rightarrow> 4 / 5
          | AgentStatusDegraded \<Rightarrow> 9 / 20
          | AgentStatusMaintenance \<Rightarrow> 0
          | AgentStatusOffline \<Rightarrow> 0
          | _ \<Rightarrow> 1 / 2) in
      if suppressed now state then 0
      else
        let weight = (if rs_ErrorRate state > 0
              then weight * max (1 / 20) (1 - rs_ErrorRate state) else weight);
            loadPenalty = max (rs_AgentSlotUsage state)
              (max (rs_ModelSlotUsage state) (rs_GlobalSlotUsage state));
            weight = (if loadPenalty > 0
              then weight * max (1 / 10) (1 - loadPenalty * (13 / 20)) else weight)
        in if weight < 0 then 0 else if weight > 1 then 1 else weight)"

section \<open>Lane state\<close>

definition defaultState :: "time \<Rightarrow> AgentInfo \<Rightarrow> AgentRuntimeState" where
  "defaultState now info = zero_AgentRuntimeState\<lparr>rs_AgentID := ai_ID info,
     rs_Provider := ai_Provider info, rs_Status := ai_Status info, rs_PriorityScore := 1,
     rs_UpdatedAt := now\<rparr>"

definition normalizeState :: "time \<Rightarrow> AgentRuntimeState \<Rightarrow> AgentRuntimeState" where
  "normalizeState now state =
     (let state = (if rs_UpdatedAt state = zero_time then state\<lparr>rs_UpdatedAt := now\<rparr> else state) in
      if rs_SuppressedUntil state \<noteq> None \<and> \<not> suppressed now state
      then
        let state = state\<lparr>rs_SuppressedUntil := None\<rparr>;
            state = (if rs_Status state = AgentStatusMaintenance
                     then state\<lparr>rs_Status := AgentStatusReady\<rparr> else state)
        in if rs_ErrorRate state < 1 / 4 then state\<lparr>rs_DisabledReason := []\<rparr> else state
      else state)"

definition setState :: "time \<Rightarrow> AgentRuntimeState \<Rightarrow> RuntimeManager \<Rightarrow> RuntimeManager" where
  "setState now state m = m\<lparr>rm_registry := SetRuntimeState now state (rm_registry m)\<rparr>"

definition State :: "time \<Rightarrow> string \<Rightarrow> RuntimeManager \<Rightarrow> (AgentRuntimeState \<times> bool) \<times> RuntimeManager" where
  "State now agentID m =
     (case RuntimeState agentID (rm_registry m) of
        None \<Rightarrow>
          (case AgentByID agentID (rm_registry m) of
             None \<Rightarrow> ((zero_AgentRuntimeState, False), m)
           | Some agent \<Rightarrow>
               let state = defaultState now (ag_Info agent)
               in ((state, True), setState now state m))
      | Some state \<Rightarrow>
          let state = normalizeState now state
          in ((state, True), setState now state m))"

definition Allows :: "time \<Rightarrow> AgentInfo \<Rightarrow> RuntimeManager \<Rightarrow> bool \<times> RuntimeManager" where
  "Allows now info m =
     (let ((state, ok), m) = State now (ai_ID info) m in
      (if \<not> ok then False
       else if rs_Status state = AgentStatusOffline \<or> rs_Status state = AgentStatusMaintenance then False
       else \<not> suppressed now state, m))"

section \<open>Routing weights\<close>

text \<open>One iteration of the loop of \<open>RefreshRoutingWeights\<close>.\<close>

definition refreshOne :: "time \<Rightarrow> AgentInfo \<Rightarrow> (string \<times> rat) list \<times> RuntimeManager \<Rightarrow>
    (string \<times> rat) list \<times> RuntimeManager" where
  "refreshOne now info = (\<lambda>(weights, m).
     let ((state, ok), m) = State now (ai_ID info) m;
         weight = runtimePriorityWeight now state;
         state = state\<lparr>rs_PriorityScore := weight, rs_UpdatedAt := now\<rparr>;
         m = setState now state m
     in (map_set (ai_ID info) weight weights, m))"

definition RefreshRoutingWeights :: "time \<Rightarrow> RuntimeManager \<Rightarrow> (string \<times> rat) list \<times> RuntimeManager" where
  "RefreshRoutingWeights now m =
     (let (weights, m) = fold (refreshOne now) (AgentInfos (rm_registry m)) ([], m)
      in (weights, m\<lparr>rm_routingWeights := weights\<rparr>))"

definition weightOf :: "string \<Rightarrow> (string \<times> rat) list \<Rightarrow> rat" where
  "weightOf agentID weights = (case map_of weights agentID of None \<Rightarrow> 0 | Some w \<Rightarrow> w)"

definition RoutingWeight :: "time \<Rightarrow> string \<Rightarrow> RuntimeManager \<Rightarrow> rat \<times> RuntimeManager" where
  "RoutingWeight now agentID m =
     (case map_of (rm_routingWeights m) agentID of
        Some weight \<Rightarrow> (weight, m)
      | None \<Rightarrow> let (weights, m) = RefreshRoutingWeights now m in (weightOf agentID weights, m))"

definition RoutingWeights :: "time \<Rightarrow> RuntimeManager \<Rightarrow> (string \<times> rat) list \<times> RuntimeManager" where
  "RoutingWeights now m =
     (if rm_routingWeights m = [] then RefreshRoutingWeights now m else (rm_routingWeights m, m))"

section \<open>Pressure\<close>

definition combinePressure :: "rat \<Rightarrow> rat list \<Rightarrow> rat" where
  "combinePressure factor pressures =
     (if pressures = [] then 0
      else clampRuntimeLoad (maxRuntimeFloat [maxRuntimeFloat pressures * factor,
        sum_list pressures / of_nat (length pressures)]))"

definition providerPressure :: "string \<Rightarrow> RuntimeManager \<Rightarrow> rat" where
  "providerPressure provider m =
     (let provider = ToLower (TrimSpace provider) in
      if provider = [] then 0
      else combinePressure (13 / 20) (map liveLoadPressure
        (filter (\<lambda>state. EqualFold (TrimSpace (rs_Provider state)) provider)
          (RuntimeStates (rm_registry m)))))"

definition runtimeAgentMatchesWorkerClass :: "AgentInfo \<Rightarrow> string \<Rightarrow> bool" where
  "runtimeAgentMatchesWorkerClass info workerClass =
     (let agentType = ToLower (TrimSpace (ai_Type info));
          has = (\<lambda>w. Contains agentType w) in
      if workerClass = [] then False
      else if has workerClass then True
      else if workerClass = ''code'' then has ''coder'' \<or> has ''coding'' \<or> has ''implement''
      else if workerClass = ''review'' then has ''review''
      else if workerClass = ''test'' then has ''test'' \<or> has ''qa''
      else if workerClass = ''retrieval'' then has ''research'' \<or> has ''analysis''
      else if workerClass = ''merge'' then has ''orchestrator'' \<or> has ''review'' \<or> has ''analysis''
      else if workerClass = ''verification'' then has ''verify'' \<or> has ''review'' \<or> has ''test''
      else if workerClass = ''planner'' then has ''plan'' \<or> has ''orchestrator''
      else workerClass = ''fallback'')"

text \<open>One iteration of the loop of \<open>workerClassPressure\<close>, which normalises the states it reads.\<close>

definition classPressureOne :: "time \<Rightarrow> string \<Rightarrow> string \<Rightarrow> Agent \<Rightarrow> rat list \<times> RuntimeManager \<Rightarrow>
    rat list \<times> RuntimeManager" where
  "classPressureOne now workerClass provider agent = (\<lambda>(ps, m).
     let info = ag_Info agent in
     if provider \<noteq> [] \<and> \<not> EqualFold (TrimSpace (ai_Provider info)) provider then (ps, m)
     else if \<not> runtimeAgentMatchesWorkerClass info workerClass then (ps, m)
     else
       let ((state, ok), m) = State now (ai_ID info) m
       in if \<not> ok then (ps, m) else (ps @ [liveLoadPressure state], m))"

definition workerClassPressure :: "time \<Rightarrow> string \<Rightarrow> string \<Rightarrow> RuntimeManager \<Rightarrow> rat \<times> RuntimeManager" where
  "workerClassPressure now workerClass provider m =
     (let workerClass = ToLower (TrimSpace workerClass);
          provider = ToLower (TrimSpace provider) in
      if workerClass = [] then (0, m)
      else
        let (ps, m) = fold (classPressureOne now workerClass provider) (Agents (rm_registry m)) ([], m)
        in (combinePressure (3 / 5) ps, m))"

definition CapacityPressure :: "time \<Rightarrow> AgentInfo \<Rightarrow> string \<Rightarrow> RuntimeManager \<Rightarrow> rat \<times> RuntimeManager" where
  "CapacityPressure now info workerClass m =
     (let ((state, ok), m) = State now (ai_ID info) m in
      if \<not> ok then (1 / 2, m)
      else
        let pp = providerPressure (ai_Provider info) m;
            (cp, m) = workerClassPressure now workerClass (ai_Provider info) m
        in (clampRuntimeLoad (maxRuntimeFloat [liveLoadPressure state, rs_ErrorRate state, pp, cp]), m))"

section \<open>Lane operations\<close>

text \<open>Store a lane state and recompute the weights, the common end of the operations below.\<close>

definition commit :: "time \<Rightarrow> AgentRuntimeState \<Rightarrow> RuntimeManager \<Rightarrow> RuntimeManager" where
  "commit now state m = snd (RefreshRoutingWeights now (setState now state m))"

definition UpdateCapacitySnapshot :: "time \<Rightarrow> string \<Rightarrow> CapacitySnapshot \<Rightarrow> RuntimeManager \<Rightarrow>
    (AgentRuntimeState \<times> bool) \<times> RuntimeManager" where
  "UpdateCapacitySnapshot now agentID snapshot m =
     (let ((state, ok), m) = State now (TrimSpace agentID) m in
      if \<not> ok then ((zero_AgentRuntimeState, False), m)
      else
        let state = state\<lparr>rs_InFlight := maxRuntimeInt (cs_InFlight snapshot) 0,
              rs_AgentSlotUsage := clampRuntimeLoad (cs_AgentSlotUsage snapshot),
              rs_ModelSlotUsage := clampRuntimeLoad (cs_ModelSlotUsage snapshot),
              rs_GlobalSlotUsage := clampRuntimeLoad (cs_GlobalSlotUsage snapshot),
              rs_UpdatedAt := now\<rparr>
        in ((state, True), commit now state m))"

definition SuppressLane :: "time \<Rightarrow> string \<Rightarrow> string \<Rightarrow> int \<Rightarrow> RuntimeManager \<Rightarrow>
    (AgentRuntimeState \<times> bool) \<times> RuntimeManager" where
  "SuppressLane now agentID reason seconds m =
     (let ((state, ok), m) = State now agentID m in
      if \<not> ok then ((zero_AgentRuntimeState, False), m)
      else
        let seconds = (if seconds \<le> 0 then 300 else seconds);
            state = state\<lparr>rs_Status := AgentStatusMaintenance,
              rs_DisabledReason := firstNonEmptyString [TrimSpace reason, ''suppressed by runtime policy''],
              rs_SuppressedUntil := Some (now + seconds * second), rs_UpdatedAt := now\<rparr>
        in ((state, True), commit now state m))"

definition RecoverLane :: "time \<Rightarrow> string \<Rightarrow> RuntimeManager \<Rightarrow>
    (AgentRuntimeState \<times> bool) \<times> RuntimeManager" where
  "RecoverLane now agentID m =
     (let ((state, ok), m) = State now agentID m in
      if \<not> ok then ((zero_AgentRuntimeState, False), m)
      else
        let state = state\<lparr>rs_SuppressedUntil := None, rs_DisabledReason := []\<rparr>;
            state = (case AgentByID agentID (rm_registry m) of
               None \<Rightarrow> state
             | Some agent \<Rightarrow> state\<lparr>rs_Status := ai_Status (ag_Info agent)\<rparr>);
            state = (if rs_ErrorRate state \<ge> 1 / 4 then state\<lparr>rs_Status := AgentStatusDegraded\<rparr> else state);
            state = (if rs_ErrorRate state < 1 / 4 \<and> rs_Status state = AgentStatusMaintenance
                     then state\<lparr>rs_Status := AgentStatusReady\<rparr> else state);
            state = state\<lparr>rs_UpdatedAt := now\<rparr>
        in ((state, True), commit now state m))"

definition RecordRuntimeFailure :: "time \<Rightarrow> string \<Rightarrow> string \<Rightarrow> RuntimeManager \<Rightarrow>
    AgentRuntimeState \<times> RuntimeManager" where
  "RecordRuntimeFailure now agentID detail m =
     (let ((state, ok), m) = State now agentID m;
          state = state\<lparr>rs_ErrorRate := min 1 (rs_ErrorRate state + 1 / 4),
            rs_LastError := TrimSpace detail\<rparr>;
          state = (if rs_ErrorRate state \<ge> 3 / 4 then state\<lparr>rs_Status := AgentStatusMaintenance\<rparr>
                   else state\<lparr>rs_Status := AgentStatusDegraded\<rparr>);
          state = state\<lparr>rs_UpdatedAt := now\<rparr>
      in (state, commit now state m))"

definition RecordSuccess :: "time \<Rightarrow> string \<Rightarrow> RuntimeManager \<Rightarrow> AgentRuntimeState \<times> RuntimeManager" where
  "RecordSuccess now agentID m =
     (let ((state, ok), m) = State now agentID m;
          state = state\<lparr>rs_ErrorRate := max 0 (rs_ErrorRate state - 1 / 2)\<rparr>;
          state = (if \<not> suppressed now state then
                     if rs_ErrorRate state < 1 / 4
                     then state\<lparr>rs_Status := AgentStatusReady, rs_DisabledReason := []\<rparr>
                     else state\<lparr>rs_Status := AgentStatusDegraded\<rparr>
                   else state);
          state = state\<lparr>rs_LastError := [], rs_UpdatedAt := now\<rparr>
      in (state, commit now state m))"

definition QuarantineAgent :: "time \<Rightarrow> string \<Rightarrow> string \<Rightarrow> RuntimeManager \<Rightarrow>
    AgentRuntimeState \<times> RuntimeManager" where
  "QuarantineAgent now agentID reason m =
     (let ((state, ok), m) = SuppressLane now agentID
            (firstNonEmptyString [TrimSpace reason, ''quarantined after repeated runtime failures'']) 900 m
      in (state, m))"

definition RecoveryActionForFailure :: "time \<Rightarrow> string \<Rightarrow> RuntimeManager \<Rightarrow> string \<times> RuntimeManager" where
  "RecoveryActionForFailure now agentID m =
     (let ((state, ok), m) = State now agentID m in
      (if \<not> ok then ''unknown''
       else if rs_ErrorRate state \<ge> 3 / 4 then ''quarantine_agent''
       else if rs_ErrorRate state \<ge> 1 / 4 then ''degrade_lane''
       else ''observe'', m))"

section \<open>Catalogue checks\<close>

definition catalogueSnapshot :: "string \<Rightarrow> (string \<rightharpoonup> ProviderCatalogSnapshot) \<Rightarrow> ProviderCatalogSnapshot option" where
  "catalogueSnapshot provider reg = reg (ToLower (TrimSpace provider))"

definition providerSnapshotRoutingUsable :: "ProviderCatalogSnapshot \<Rightarrow> time \<Rightarrow> bool" where
  "providerSnapshotRoutingUsable snapshot now =
     (if pc_ObservedAt snapshot = zero_time then False
      else
        let ttl = pc_RefreshIntervalSec snapshot * second;
            ttl = (if ttl \<le> 0 then 300 * second else ttl);
            ttl = (if ttl < 60 * second then 60 * second else ttl)
        in \<not> (pc_ObservedAt snapshot + 2 * ttl < now))"

definition providerModelRoutingReady :: "ProviderModelStatus \<Rightarrow> bool" where
  "providerModelRoutingReady model \<longleftrightarrow> pm_Available model \<and>
     EqualFold (TrimSpace (pm_Status model)) ''ready'' \<and>
     EqualFold (TrimSpace (pm_VerificationStatus model)) ''confirmed''"

text \<open>The reason a model that is not ready is given.\<close>

definition modelReason :: "ProviderModelStatus \<Rightarrow> string" where
  "modelReason model =
     (let reason = TrimSpace (pm_Reason model);
          reason = (case pm_LastError model of
             None \<Rightarrow> reason
           | Some e \<Rightarrow> if TrimSpace (xe_Message e) \<noteq> [] then xe_Message e else reason) in
      if reason = [] then
        if TrimSpace (pm_VerificationStatus model) = ''verifying''
        then ''model verification is still in progress''
        else if TrimSpace (pm_VerificationStatus model) = ''unconfirmed'' then ''model is not confirmed''
        else ''model is not ready for runtime routing''
      else reason)"

fun modelStatus :: "ProviderModelStatus list \<Rightarrow> string \<Rightarrow> bool \<times> string \<times> bool" where
  "modelStatus [] modelName = (False, [], False)"
| "modelStatus (model # ms) modelName =
     (if \<not> EqualFold (pm_ModelName model) modelName then modelStatus ms modelName
      else if providerModelRoutingReady model then (True, [], True)
      else (False, modelReason model, True))"

definition providerSnapshotModelStatus :: "ProviderCatalogSnapshot \<Rightarrow> string \<Rightarrow> bool \<times> string \<times> bool" where
  "providerSnapshotModelStatus snapshot modelName = modelStatus (pc_Models snapshot) modelName"

definition firstReadyProviderModel :: "ProviderCatalogSnapshot \<Rightarrow> ProviderModelStatus option" where
  "firstReadyProviderModel snapshot = find providerModelRoutingReady (pc_Models snapshot)"

definition confirmedAgentModel :: "time \<Rightarrow> Agent \<Rightarrow> ProviderCatalogSnapshot option \<Rightarrow> RuntimeManager \<Rightarrow> bool \<times> string" where
  "confirmedAgentModel now agent snapshot m =
     (let modelName = TrimSpace (ai_ModelName (ag_Info agent));
          override = ag_SupportsAssignedModelOverride agent in
      case rm_providerRegistry m of
        None \<Rightarrow> (True, [])
      | Some _ \<Rightarrow>
          (case snapshot of
             None \<Rightarrow> (False, ''provider model registry snapshot is unavailable'')
           | Some snap \<Rightarrow>
               let anyReady = (firstReadyProviderModel snap \<noteq> None) in
               if \<not> providerSnapshotRoutingUsable snap now
               then (False, ''provider model registry snapshot is stale'')
               else if modelName = [] then
                 if override then
                   if anyReady then (True, [])
                   else (False, ''provider has no confirmed executable models for dynamic assignment'')
                 else (False, ''agent has no configured model'')
               else
                 let (ready, reason, found) = providerSnapshotModelStatus snap modelName in
                 if found then
                   if ready then (True, [])
                   else if override \<and> anyReady then (True, [])
                   else (False, ''model '' @ modelName @ '' is not confirmed: '' @ reason)
                 else if override then
                   if anyReady then (True, [])
                   else (False, ''provider has no confirmed executable models for dynamic assignment'')
                 else if pc_Status snap = ''unavailable'' \<and> TrimSpace (pc_Error snap) \<noteq> []
                 then (False, ''provider catalog is unavailable: '' @ pc_Error snap)
                 else (False, ''model '' @ modelName @ '' is not registered in the provider catalog'')))"

definition ProviderModelReadyStatus :: "time \<Rightarrow> string \<Rightarrow> string \<Rightarrow> RuntimeManager \<Rightarrow> bool \<times> bool" where
  "ProviderModelReadyStatus now provider modelName m =
     (case rm_providerRegistry m of
        None \<Rightarrow> (False, False)
      | Some reg \<Rightarrow>
          (case catalogueSnapshot provider reg of
             None \<Rightarrow> (False, False)
           | Some snapshot \<Rightarrow>
               if \<not> providerSnapshotRoutingUsable snapshot now then (False, False)
               else let (ready, _, found) = providerSnapshotModelStatus snapshot modelName in (ready, found)))"

definition SupportsAssignedModel :: "time \<Rightarrow> Agent \<Rightarrow> string \<Rightarrow> RuntimeManager \<Rightarrow> bool" where
  "SupportsAssignedModel now agent modelName m =
     (let assignedModel = TrimSpace modelName; info = ag_Info agent in
      if assignedModel = [] then False
      else if EqualFold (TrimSpace (ai_ModelName info)) assignedModel then
        (case rm_providerRegistry m of
           None \<Rightarrow> True
         | Some reg \<Rightarrow>
             (case catalogueSnapshot (ai_Provider info) reg of
                None \<Rightarrow> False
              | Some snapshot \<Rightarrow>
                  if \<not> providerSnapshotRoutingUsable snapshot now then False
                  else let (ready, known) = ProviderModelReadyStatus now (ai_Provider info) assignedModel m
                    in known \<and> ready))
      else if rm_providerRegistry m = None \<or> \<not> ag_SupportsAssignedModelOverride agent then False
      else let (ready, known) = ProviderModelReadyStatus now (ai_Provider info) assignedModel m
        in known \<and> ready)"

section \<open>Provider health\<close>

text \<open>One iteration of the loop of \<open>ProbeProviderRuntime\<close> over the agents of the provider.\<close>

definition probeOne :: "time \<Rightarrow> string \<Rightarrow> ProviderHealth \<Rightarrow> ProviderCatalogSnapshot option \<Rightarrow> Agent \<Rightarrow>
    AgentRuntimeState list \<times> RuntimeManager \<Rightarrow> AgentRuntimeState list \<times> RuntimeManager" where
  "probeOne now provider health snapshot agent = (\<lambda>(states, m).
     let info = ag_Info agent in
     if ToLower (ai_Provider info) \<noteq> provider then (states, m)
     else
       let ((state, ok), m) = State now (ai_ID info) m;
           state = state\<lparr>rs_Provider := ai_Provider info, rs_LastProbeStatus := ph_Status health,
             rs_LastProbeError := ph_Error health\<rparr>;
           (confirmed, reason) = confirmedAgentModel now agent snapshot m;
           state = (if \<not> ph_Configured health
              then state\<lparr>rs_Status := AgentStatusOffline, rs_DisabledReason := ''provider not configured''\<rparr>
              else if \<not> ph_Available health
              then state\<lparr>rs_Status := AgentStatusDegraded,
                     rs_DisabledReason := firstNonEmptyString [ph_Error health, ''provider probe failed'']\<rparr>
              else if \<not> confirmed
              then state\<lparr>rs_Status := AgentStatusDegraded, rs_DisabledReason := reason\<rparr>
              else if \<not> suppressed now state
              then let state = state\<lparr>rs_Status := AgentStatusReady\<rparr>
                in if rs_ErrorRate state < 1 / 4 then state\<lparr>rs_DisabledReason := []\<rparr> else state
              else state);
           state = state\<lparr>rs_UpdatedAt := now\<rparr>;
           m = setState now state m
       in (states @ [state], m))"

datatype ProbeResult = ProbeError string | ProbeUnavailable string
  | ProbeOK string ProviderHealth "AgentRuntimeState list"

text \<open>\<open>probe\<close> is the result of the probe callback, \<open>None\<close> if no callback is configured.\<close>

definition ProbeProviderRuntime :: "time \<Rightarrow> (string \<rightharpoonup> ProviderHealth) option \<Rightarrow> string \<Rightarrow> RuntimeManager \<Rightarrow>
    ProbeResult \<times> RuntimeManager" where
  "ProbeProviderRuntime now probe provider m =
     (let provider = TrimSpace (ToLower provider) in
      if provider = [] then (ProbeError ''provider is required'', m)
      else case probe of
        None \<Rightarrow> (ProbeUnavailable ''provider probe callback is not configured'', m)
      | Some healths \<Rightarrow>
          (case healths provider of
             None \<Rightarrow> (ProbeError ''provider not found'', m)
           | Some health \<Rightarrow>
               let snapshot = Option.bind (rm_providerRegistry m) (catalogueSnapshot provider);
                   (states, m) = fold (probeOne now provider health snapshot)
                     (Agents (rm_registry m)) ([], m);
                   (weights, m) = RefreshRoutingWeights now m
               in (ProbeOK provider health states, m)))"

text \<open>\<open>ProbeAgentRuntime\<close> adds the agent and its state to the probe of its provider.\<close>

definition ProbeAgentRuntime :: "time \<Rightarrow> (string \<rightharpoonup> ProviderHealth) option \<Rightarrow> string \<Rightarrow> RuntimeManager \<Rightarrow>
    (ProbeResult \<times> AgentInfo \<times> AgentRuntimeState) option \<times> RuntimeManager" where
  "ProbeAgentRuntime now probe agentID m =
     (case AgentByID agentID (rm_registry m) of
        None \<Rightarrow> (None, m)
      | Some agent \<Rightarrow>
          let info = ag_Info agent;
              (payload, m) = ProbeProviderRuntime now probe (ai_Provider info) m;
              ((state, ok), m) = State now agentID m
          in (Some (payload, info, state), m))"

text \<open>The index of the health map by normalised provider name; \<open>rows\<close> enumerates the map.\<close>

definition healthByProvider :: "(string \<times> ProviderHealth) list \<Rightarrow> string \<rightharpoonup> ProviderHealth" where
  "healthByProvider rows = fold (\<lambda>(provider, health) idx.
     let key = ToLower (TrimSpace provider);
         key = (if key = [] then ToLower (TrimSpace (ph_Provider health)) else key)
     in if key = [] then idx else idx(key \<mapsto> health)) rows Map.empty"

text \<open>The new lane state that a health row gives a lane that is not suppressed.\<close>

definition healthState :: "time \<Rightarrow> Agent \<Rightarrow> ProviderHealth \<Rightarrow> RuntimeManager \<Rightarrow> AgentRuntimeState \<Rightarrow> AgentRuntimeState" where
  "healthState now agent health m state =
     (let state = state\<lparr>rs_LastProbeStatus := ph_Status health, rs_LastProbeError := ph_Error health\<rparr> in
      if \<not> ph_Configured health
      then state\<lparr>rs_Status := AgentStatusOffline, rs_DisabledReason := ''provider not configured''\<rparr>
      else if \<not> ph_Available health
      then state\<lparr>rs_Status := AgentStatusDegraded,
             rs_DisabledReason := firstNonEmptyString [ph_Error health, ''provider probe failed'']\<rparr>
      else
        let snapshot = Option.bind (rm_providerRegistry m) (catalogueSnapshot (ai_Provider (ag_Info agent)));
            (confirmed, reason) = confirmedAgentModel now agent snapshot m in
        if \<not> confirmed then state\<lparr>rs_Status := AgentStatusDegraded, rs_DisabledReason := reason\<rparr>
        else if rs_ErrorRate state \<ge> 1 / 4
        then state\<lparr>rs_Status := AgentStatusDegraded,
               rs_DisabledReason := (if rs_DisabledReason state = [] then ''runtime error budget exceeded''
                 else rs_DisabledReason state)\<rparr>
        else if rs_Status state = AgentStatusBusy then state\<lparr>rs_DisabledReason := []\<rparr>
        else state\<lparr>rs_Status := AgentStatusReady, rs_DisabledReason := []\<rparr>)"

definition syncOne :: "time \<Rightarrow> (string \<rightharpoonup> ProviderHealth) \<Rightarrow> Agent \<Rightarrow> RuntimeManager \<Rightarrow> RuntimeManager" where
  "syncOne now healths agent m =
     (let info = ag_Info agent;
          ((state, ok), m) = State now (ai_ID info) m;
          state = state\<lparr>rs_Provider := ai_Provider info\<rparr> in
      if suppressed now state then
        setState now (state\<lparr>rs_Status := AgentStatusMaintenance,
          rs_DisabledReason := (if rs_DisabledReason state = [] then ''suppressed by runtime policy''
            else rs_DisabledReason state), rs_UpdatedAt := now\<rparr>) m
      else
        let state = (case healths (ToLower (TrimSpace (ai_Provider info))) of
               None \<Rightarrow> state
             | Some health \<Rightarrow> healthState now agent health m state)
        in setState now (state\<lparr>rs_UpdatedAt := now\<rparr>) m)"

definition SyncProviderHealth :: "time \<Rightarrow> (string \<times> ProviderHealth) list \<Rightarrow> RuntimeManager \<Rightarrow>
    AgentRuntimeState list \<times> RuntimeManager" where
  "SyncProviderHealth now rows m =
     (let healths = healthByProvider rows;
          m = fold (syncOne now healths) (Agents (rm_registry m)) m;
          (weights, m) = RefreshRoutingWeights now m
      in (RuntimeStates (rm_registry m), m))"

section \<open>Lanes\<close>

abbreviation (input) lane :: "RuntimeManager \<Rightarrow> string \<rightharpoonup> AgentRuntimeState" where
  "lane m \<equiv> map_of (rg_runtimeStates (rm_registry m))"

definition mergeState :: "time \<Rightarrow> AgentRuntimeState \<Rightarrow> AgentRuntimeState option \<Rightarrow> AgentRuntimeState" where
  "mergeState now state old =
     (let state = (if rs_UpdatedAt state = zero_time then state\<lparr>rs_UpdatedAt := now\<rparr> else state) in
      case old of
        None \<Rightarrow> state
      | Some e \<Rightarrow> state\<lparr>rs_Provider := (if rs_Provider state = [] then rs_Provider e else rs_Provider state),
          rs_Status := (if rs_Status state = AgentStatusEmpty then rs_Status e else rs_Status state)\<rparr>)"

lemma lane_setState:
  "lane (setState now s m) = (if rs_AgentID s = [] then lane m
     else (lane m)(rs_AgentID s \<mapsto> mergeState now s (lane m (rs_AgentID s))))"
  by (auto simp: setState_def SetRuntimeState_def mergeState_def Let_def split: option.split)

lemma mergeState_AgentID [simp]: "rs_AgentID (mergeState now s old) = rs_AgentID s"
  by (simp add: mergeState_def Let_def split: option.split)

lemma normalizeState_fixed [simp]:
  "rs_AgentID (normalizeState now s) = rs_AgentID s"
  "rs_Provider (normalizeState now s) = rs_Provider s"
  "rs_ErrorRate (normalizeState now s) = rs_ErrorRate s"
  "rs_AgentSlotUsage (normalizeState now s) = rs_AgentSlotUsage s"
  "rs_ModelSlotUsage (normalizeState now s) = rs_ModelSlotUsage s"
  "rs_GlobalSlotUsage (normalizeState now s) = rs_GlobalSlotUsage s"
  "rs_PriorityScore (normalizeState now s) = rs_PriorityScore s"
  "rs_Status (normalizeState now s) = AgentStatusEmpty \<longleftrightarrow> rs_Status s = AgentStatusEmpty"
  by (simp_all add: normalizeState_def Let_def)

lemma mergeState_id:
  assumes "rs_Provider s = rs_Provider e" "rs_Status s = AgentStatusEmpty \<longrightarrow> rs_Status e = AgentStatusEmpty"
    and "rs_UpdatedAt s = 0 \<longrightarrow> now = 0"
  shows "mergeState now s (Some e) = s"
  using assms by (cases s) (auto simp: mergeState_def Let_def)

lemma merge_normalized: "mergeState now (normalizeState now s) (Some s) = normalizeState now s"
proof (rule mergeState_id)
  show "rs_UpdatedAt (normalizeState now s) = 0 \<longrightarrow> now = 0"
    by (simp add: normalizeState_def Let_def)
qed simp_all

text \<open>A manager is tracked: its registry is well formed and agent ids are not empty.\<close>

definition tracked :: "RuntimeManager \<Rightarrow> bool" where
  "tracked m \<longleftrightarrow> registry_ok (rm_registry m) \<and> [] \<notin> fst ` set (rg_agents (rm_registry m)) \<and>
     [] \<notin> fst ` set (rg_runtimeStates (rm_registry m))"

lemma tracked_lane: "tracked m \<Longrightarrow> lane m k = Some s \<Longrightarrow> rs_AgentID s = k \<and> k \<noteq> []"
  using registry_ok_state_key [of "rm_registry m" k s]
  by (auto simp: tracked_def RuntimeState_def dest: map_of_SomeD) (metis fst_conv image_eqI map_of_SomeD)

lemma setState_agents [simp]: "rg_agents (rm_registry (setState now s m)) = rg_agents (rm_registry m)"
  by (simp add: setState_def SetRuntimeState_def Let_def split: option.split)

lemma setState_rest [simp]:
  "rm_routingWeights (setState now s m) = rm_routingWeights m"
  "rm_providerRegistry (setState now s m) = rm_providerRegistry m"
  by (simp_all add: setState_def)

lemma tracked_setState: "tracked m \<Longrightarrow> tracked (setState now s m)"
proof -
  have "fst ` set (rg_runtimeStates (rm_registry (setState now s m))) =
      (if rs_AgentID s = [] then {} else {rs_AgentID s}) \<union> fst ` set (rg_runtimeStates (rm_registry m))"
    by (simp add: setState_def SetRuntimeState_def Let_def fst_map_set split: option.split)
  moreover have "registry_ok (rm_registry m) \<Longrightarrow> registry_ok (rm_registry (setState now s m))"
    by (simp add: setState_def registry_ok_SetRuntimeState)
  ultimately show "tracked m \<Longrightarrow> ?thesis"
    unfolding tracked_def setState_agents by auto
qed

text \<open>Reading a lane stores it in normal form.\<close>

lemma State_lane:
  assumes "tracked m" "lane m k = Some s"
  shows "State now k m = ((normalizeState now s, True), setState now (normalizeState now s) m)"
    and "lane (setState now (normalizeState now s) m) = (lane m)(k \<mapsto> normalizeState now s)"
proof -
  show "State now k m = ((normalizeState now s, True), setState now (normalizeState now s) m)"
    using assms by (simp add: State_def RuntimeState_def Let_def)
  show "lane (setState now (normalizeState now s) m) = (lane m)(k \<mapsto> normalizeState now s)"
    using tracked_lane [OF assms] assms(2) by (simp add: lane_setState merge_normalized)
qed

lemma State_unknown:
  assumes "tracked m" "lane m k = None"
  shows "State now k m = ((zero_AgentRuntimeState, False), m)"
proof -
  have "map_of (rg_agents (rm_registry m)) k = None"
    using assms by (auto simp: tracked_def registry_ok_def map_of_eq_None_iff)
  then show ?thesis using assms by (simp add: State_def RuntimeState_def AgentByID_def)
qed

section \<open>Refreshing the weights\<close>

text \<open>The lane after a refresh: its normal form with the weight as its priority.\<close>

definition refreshed :: "time \<Rightarrow> AgentRuntimeState \<Rightarrow> AgentRuntimeState" where
  "refreshed now s = (let n = normalizeState now s
     in n\<lparr>rs_PriorityScore := runtimePriorityWeight now n, rs_UpdatedAt := now\<rparr>)"

lemma refreshOne_effect:
  assumes "tracked m" "lane m (ai_ID info) = Some s"
  shows "fst (refreshOne now info (ws, m)) =
      map_set (ai_ID info) (runtimePriorityWeight now (normalizeState now s)) ws"
    and "lane (snd (refreshOne now info (ws, m))) = (lane m)(ai_ID info \<mapsto> refreshed now s)"
    and "tracked (snd (refreshOne now info (ws, m)))"
    and "rg_agents (rm_registry (snd (refreshOne now info (ws, m)))) = rg_agents (rm_registry m)"
proof -
  let ?n = "normalizeState now s"
  let ?s = "?n\<lparr>rs_PriorityScore := runtimePriorityWeight now ?n, rs_UpdatedAt := now\<rparr>"
  have k: "rs_AgentID s = ai_ID info" "ai_ID info \<noteq> []"
    using tracked_lane [OF assms] by auto
  have run: "refreshOne now info (ws, m) =
      (map_set (ai_ID info) (runtimePriorityWeight now ?n) ws, setState now ?s (setState now ?n m))"
    using State_lane(1) [OF assms] by (simp add: refreshOne_def Let_def)
  show "fst (refreshOne now info (ws, m)) =
      map_set (ai_ID info) (runtimePriorityWeight now ?n) ws"
    by (simp add: run)
  show "lane (snd (refreshOne now info (ws, m))) = (lane m)(ai_ID info \<mapsto> refreshed now s)"
    using k by (simp add: run lane_setState [of now ?s] State_lane(2) [OF assms] mergeState_id
        refreshed_def Let_def)
  show "tracked (snd (refreshOne now info (ws, m)))"
    by (simp add: run tracked_setState assms(1))
  show "rg_agents (rm_registry (snd (refreshOne now info (ws, m)))) = rg_agents (rm_registry m)"
    by (simp add: run)
qed

lemma refresh_fold:
  assumes "tracked m" "distinct (map ai_ID infos)" "\<forall>i \<in> set infos. lane m (ai_ID i) \<noteq> None"
  shows "tracked (snd (fold (refreshOne now) infos (ws, m))) \<and>
    rg_agents (rm_registry (snd (fold (refreshOne now) infos (ws, m)))) = rg_agents (rm_registry m) \<and>
    lane (snd (fold (refreshOne now) infos (ws, m))) =
      (\<lambda>k. if k \<in> ai_ID ` set infos then map_option (refreshed now) (lane m k) else lane m k) \<and>
    map_of (fst (fold (refreshOne now) infos (ws, m))) =
      (\<lambda>k. if k \<in> ai_ID ` set infos
        then map_option (\<lambda>s. runtimePriorityWeight now (normalizeState now s)) (lane m k)
        else map_of ws k)"
  using assms
proof (induction infos arbitrary: ws m)
  case (Cons i infos)
  obtain s where s: "lane m (ai_ID i) = Some s" using Cons.prems(3) by auto
  obtain ws' m' where r: "refreshOne now i (ws, m) = (ws', m')" by (cases "refreshOne now i (ws, m)")
  note e = refreshOne_effect [OF Cons.prems(1) s, of now ws, unfolded r fst_conv snd_conv]
  have "\<forall>j \<in> set infos. lane m' (ai_ID j) \<noteq> None"
    using Cons.prems(3) by (simp add: e(2))
  note ih = Cons.IH [OF e(3) _ this, of ws']
  show ?case
    using ih Cons.prems(2) by (auto simp: r e(1,2,4) s fun_eq_iff)
qed simp

lemma AgentInfos_ids:
  assumes "registry_ok r"
  shows "distinct (map ai_ID (AgentInfos r))" "ai_ID ` set (AgentInfos r) = fst ` set (rg_agents r)"
proof -
  let ?f = "\<lambda>(_ :: string, agent). let info = ag_Info agent in
     case map_of (rg_runtimeStates r) (ai_ID info) of
       None \<Rightarrow> info
     | Some state \<Rightarrow> if rs_Status state \<noteq> AgentStatusEmpty
         then info\<lparr>ai_Status := rs_Status state\<rparr> else info"
  have key: "ai_ID (?f p) = fst p" if "p \<in> set (rg_agents r)" for p
    using assms that by (auto simp: registry_ok_def Let_def split: option.splits)
  then have eq: "map (ai_ID \<circ> ?f) (rg_agents r) = map fst (rg_agents r)"
    by (intro map_cong) auto
  have "mset (map ai_ID (AgentInfos r)) = mset (map fst (rg_agents r))"
    unfolding AgentInfos_def eq [symmetric] by (simp add: multiset.map_comp)
  moreover have "distinct (map fst (rg_agents r))"
    using assms by (simp add: registry_ok_def)
  ultimately show "distinct (map ai_ID (AgentInfos r))"
    by (metis mset_eq_imp_distinct_iff)
  show "ai_ID ` set (AgentInfos r) = fst ` set (rg_agents r)"
    using \<open>mset (map ai_ID (AgentInfos r)) = mset (map fst (rg_agents r))\<close>
    by (metis mset_eq_setD set_map)
qed

lemma Refresh_effect:
  assumes "tracked m"
  defines "agents \<equiv> fst ` set (rg_agents (rm_registry m))"
  shows "tracked (snd (RefreshRoutingWeights now m))"
    and "rg_agents (rm_registry (snd (RefreshRoutingWeights now m))) = rg_agents (rm_registry m)"
    and "lane (snd (RefreshRoutingWeights now m)) =
      (\<lambda>k. if k \<in> agents then map_option (refreshed now) (lane m k) else lane m k)"
    and "map_of (fst (RefreshRoutingWeights now m)) = (\<lambda>k. if k \<in> agents
        then map_option (\<lambda>s. runtimePriorityWeight now (normalizeState now s)) (lane m k) else None)"
    and "rm_routingWeights (snd (RefreshRoutingWeights now m)) = fst (RefreshRoutingWeights now m)"
proof -
  have ok: "registry_ok (rm_registry m)" using assms(1) by (simp add: tracked_def)
  have "lane m (ai_ID i) \<noteq> None" if "i \<in> set (AgentInfos (rm_registry m))" for i
  proof -
    have "ai_ID i \<in> agents" using AgentInfos_ids(2) [OF ok] that by (auto simp: agents_def)
    then have "ai_ID i \<in> fst ` set (rg_runtimeStates (rm_registry m))"
      using ok by (auto simp: registry_ok_def agents_def)
    then show ?thesis by (simp add: map_of_eq_None_iff)
  qed
  note f = refresh_fold [OF assms(1) AgentInfos_ids(1) [OF ok], of now "[]"]
  then have f: "tracked (snd (fold (refreshOne now) (AgentInfos (rm_registry m)) ([], m)))"
    "rg_agents (rm_registry (snd (fold (refreshOne now) (AgentInfos (rm_registry m)) ([], m)))) =
       rg_agents (rm_registry m)"
    "lane (snd (fold (refreshOne now) (AgentInfos (rm_registry m)) ([], m))) =
      (\<lambda>k. if k \<in> agents then map_option (refreshed now) (lane m k) else lane m k)"
    "map_of (fst (fold (refreshOne now) (AgentInfos (rm_registry m)) ([], m))) =
      (\<lambda>k. if k \<in> agents
        then map_option (\<lambda>s. runtimePriorityWeight now (normalizeState now s)) (lane m k) else None)"
    using \<open>\<And>i. i \<in> set (AgentInfos (rm_registry m)) \<Longrightarrow> lane m (ai_ID i) \<noteq> None\<close>
    by (simp_all add: AgentInfos_ids(2) [OF ok] agents_def cong: if_cong)
  have "tracked (x\<lparr>rm_routingWeights := w\<rparr>) = tracked x" for x w
    by (simp add: tracked_def)
  then show "tracked (snd (RefreshRoutingWeights now m))"
    "rg_agents (rm_registry (snd (RefreshRoutingWeights now m))) = rg_agents (rm_registry m)"
    "lane (snd (RefreshRoutingWeights now m)) =
      (\<lambda>k. if k \<in> agents then map_option (refreshed now) (lane m k) else lane m k)"
    "map_of (fst (RefreshRoutingWeights now m)) = (\<lambda>k. if k \<in> agents
        then map_option (\<lambda>s. runtimePriorityWeight now (normalizeState now s)) (lane m k) else None)"
    "rm_routingWeights (snd (RefreshRoutingWeights now m)) = fst (RefreshRoutingWeights now m)"
    using f by (simp_all add: RefreshRoutingWeights_def Let_def split_def)
qed

section \<open>Bounds\<close>

definition lane_ok :: "AgentRuntimeState \<Rightarrow> bool" where
  "lane_ok s \<longleftrightarrow> rs_ErrorRate s \<in> {0, 1 / 4, 1 / 2, 3 / 4, 1} \<and>
     rs_AgentSlotUsage s \<in> {0..1} \<and> rs_ModelSlotUsage s \<in> {0..1} \<and> rs_GlobalSlotUsage s \<in> {0..1} \<and>
     rs_PriorityScore s \<in> {0..1}"

definition lanes_ok :: "RuntimeManager \<Rightarrow> bool" where
  "lanes_ok m \<longleftrightarrow> tracked m \<and> (\<forall>k s. lane m k = Some s \<longrightarrow> lane_ok s) \<and>
     (\<forall>k w. map_of (rm_routingWeights m) k = Some w \<longrightarrow> w \<in> {0..1})"

lemma weight_unit: "runtimePriorityWeight now s \<in> {0..1}"
proof -
  have c: "(if w < 0 then 0 else if w > 1 then 1 else w) \<in> {0..1}" for w :: rat
    by simp
  show ?thesis
    unfolding runtimePriorityWeight_def Let_def
    by (cases "suppressed now s") (simp_all only: if_True if_False c, simp)
qed

lemma lane_ok_merge: "lane_ok s \<Longrightarrow> lane_ok (mergeState now s old)"
  by (simp add: lane_ok_def mergeState_def Let_def split: option.split)

lemma lane_ok_normalize: "lane_ok s \<Longrightarrow> lane_ok (normalizeState now s)"
  by (simp add: lane_ok_def)

lemma lane_ok_refreshed: "lane_ok s \<Longrightarrow> lane_ok (refreshed now s)"
  using weight_unit [of now "normalizeState now s"] by (simp add: lane_ok_def refreshed_def Let_def)

lemma lane_ok_zero: "lane_ok zero_AgentRuntimeState"
  by (simp add: lane_ok_def zero_AgentRuntimeState_def)

lemma lane_ok_frame [simp]:
  "lane_ok (s\<lparr>rs_Status := st\<rparr>) = lane_ok s" "lane_ok (s\<lparr>rs_DisabledReason := t\<rparr>) = lane_ok s"
  "lane_ok (s\<lparr>rs_SuppressedUntil := u\<rparr>) = lane_ok s" "lane_ok (s\<lparr>rs_UpdatedAt := v\<rparr>) = lane_ok s"
  "lane_ok (s\<lparr>rs_LastError := t\<rparr>) = lane_ok s" "lane_ok (s\<lparr>rs_LastProbeStatus := t\<rparr>) = lane_ok s"
  "lane_ok (s\<lparr>rs_LastProbeError := t\<rparr>) = lane_ok s" "lane_ok (s\<lparr>rs_Provider := t\<rparr>) = lane_ok s"
  "lane_ok (s\<lparr>rs_InFlight := i\<rparr>) = lane_ok s"
  by (simp_all add: lane_ok_def)

lemma lanes_ok_setState: "lanes_ok m \<Longrightarrow> lane_ok s \<Longrightarrow> lanes_ok (setState now s m)"
  by (auto simp: lanes_ok_def tracked_setState lane_setState lane_ok_merge split: if_splits)

lemma lanes_ok_State:
  assumes "lanes_ok m"
  shows "lane_ok (fst (fst (State now k m)))" and "lanes_ok (snd (State now k m))"
proof -
  have tr: "tracked m" using assms by (simp add: lanes_ok_def)
  have "lane_ok (fst (fst (State now k m))) \<and> lanes_ok (snd (State now k m))"
  proof (cases "lane m k")
    case None
    then show ?thesis using State_unknown [OF tr] assms lane_ok_zero by simp
  next
    case (Some s)
    then have "lane_ok (normalizeState now s)"
      using assms by (intro lane_ok_normalize) (simp add: lanes_ok_def)
    then show ?thesis using State_lane(1) [OF tr Some] assms lanes_ok_setState by simp
  qed
  then show "lane_ok (fst (fst (State now k m)))" "lanes_ok (snd (State now k m))" by auto
qed

lemma lanes_ok_Refresh: "lanes_ok m \<Longrightarrow> lanes_ok (snd (RefreshRoutingWeights now m))"
proof -
  assume ok: "lanes_ok m"
  then have tr: "tracked m" by (simp add: lanes_ok_def)
  have "lane_ok s" if "lane (snd (RefreshRoutingWeights now m)) k = Some s" for k s
    using that ok lane_ok_refreshed
    by (auto simp: Refresh_effect(3) [OF tr] lanes_ok_def split: if_splits)
  moreover have "w \<in> {0..1}" if w: "map_of (rm_routingWeights (snd (RefreshRoutingWeights now m))) k = Some w" for k w
  proof -
    obtain s where "w = runtimePriorityWeight now s"
      using w by (auto simp: Refresh_effect(4,5) [OF tr] split: if_splits)
    then show ?thesis using weight_unit by simp
  qed
  ultimately show ?thesis
    unfolding lanes_ok_def using Refresh_effect(1) [OF tr] by blast
qed

lemma lanes_ok_commit: "lanes_ok m \<Longrightarrow> lane_ok s \<Longrightarrow> lanes_ok (commit now s m)"
  by (simp add: commit_def lanes_ok_Refresh lanes_ok_setState)

lemma clamp_unit: "clampRuntimeLoad x \<in> {0..1}"
  by (simp add: clampRuntimeLoad_def)

section \<open>Weights and admission\<close>

definition statusWeight :: "AgentStatus \<Rightarrow> rat" where
  "statusWeight st = (case st of AgentStatusReady \<Rightarrow> 1 | AgentStatusBusy \<Rightarrow> 4 / 5
     | AgentStatusDegraded \<Rightarrow> 9 / 20 | AgentStatusMaintenance \<Rightarrow> 0 | AgentStatusOffline \<Rightarrow> 0 | _ \<Rightarrow> 1 / 2)"

definition errorFactor :: "rat \<Rightarrow> rat" where
  "errorFactor e = (if e > 0 then max (1 / 20) (1 - e) else 1)"

definition loadFactor :: "AgentRuntimeState \<Rightarrow> rat" where
  "loadFactor s = (let p = max (rs_AgentSlotUsage s) (max (rs_ModelSlotUsage s) (rs_GlobalSlotUsage s))
     in if p > 0 then max (1 / 10) (1 - p * (13 / 20)) else 1)"

lemma factors_unit [simp]: "0 < errorFactor e" "0 \<le> errorFactor e" "errorFactor e \<le> 1"
    "0 < loadFactor s" "0 \<le> loadFactor s" "loadFactor s \<le> 1"
    "\<not> errorFactor e < 0" "\<not> loadFactor s < 0"
  by (auto simp: errorFactor_def loadFactor_def Let_def max_def)

lemma runtimePriorityWeight_product:
  "runtimePriorityWeight now s = (if suppressed now s then 0
     else statusWeight (rs_Status s) * errorFactor (rs_ErrorRate s) * loadFactor s)"
proof -
  let ?w = "statusWeight (rs_Status s) * errorFactor (rs_ErrorRate s) * loadFactor s"
  have st: "0 \<le> statusWeight (rs_Status s)" "statusWeight (rs_Status s) \<le> 1"
    by (simp_all add: statusWeight_def split: AgentStatus.split)
  have "0 \<le> ?w" using st by simp
  moreover have "?w \<le> 1"
    using st by (intro mult_le_one) auto
  moreover have "(if rs_ErrorRate s > 0 then x * max (1 / 20) (1 - rs_ErrorRate s) else x) =
      x * errorFactor (rs_ErrorRate s)" for x
    by (simp add: errorFactor_def)
  moreover have "(if max (rs_AgentSlotUsage s) (max (rs_ModelSlotUsage s) (rs_GlobalSlotUsage s)) > 0
      then x * max (1 / 10) (1 - max (rs_AgentSlotUsage s) (max (rs_ModelSlotUsage s)
        (rs_GlobalSlotUsage s)) * (13 / 20)) else x) = x * loadFactor s" for x
    by (simp add: loadFactor_def Let_def)
  ultimately show ?thesis
    unfolding runtimePriorityWeight_def Let_def statusWeight_def [symmetric] by simp
qed

lemma weight_positive:
  "runtimePriorityWeight now s > 0 \<longleftrightarrow> \<not> suppressed now s \<and>
     rs_Status s \<noteq> AgentStatusOffline \<and> rs_Status s \<noteq> AgentStatusMaintenance"
proof -
  have "0 < statusWeight st \<longleftrightarrow> st \<noteq> AgentStatusOffline \<and> st \<noteq> AgentStatusMaintenance" for st
    by (cases st) (simp_all add: statusWeight_def)
  then show ?thesis
    by (simp add: runtimePriorityWeight_product zero_less_mult_iff)
qed

lemma weight_antimono:
  assumes "rs_ErrorRate s \<le> rs_ErrorRate t" "rs_Status t = rs_Status s"
    and "rs_AgentSlotUsage s \<le> rs_AgentSlotUsage t" "rs_ModelSlotUsage s \<le> rs_ModelSlotUsage t"
      "rs_GlobalSlotUsage s \<le> rs_GlobalSlotUsage t" "rs_SuppressedUntil t = rs_SuppressedUntil s"
  shows "runtimePriorityWeight now t \<le> runtimePriorityWeight now s"
proof -
  have e: "errorFactor (rs_ErrorRate t) \<le> errorFactor (rs_ErrorRate s)"
    using assms(1) by (auto simp: errorFactor_def max_def)
  have l: "loadFactor t \<le> loadFactor s"
    using assms(3-5) by (auto simp: loadFactor_def Let_def max_def)
  have "0 \<le> statusWeight (rs_Status s)" by (simp add: statusWeight_def split: AgentStatus.split)
  then have "statusWeight (rs_Status s) * errorFactor (rs_ErrorRate t) * loadFactor t \<le>
      statusWeight (rs_Status s) * errorFactor (rs_ErrorRate s) * loadFactor s"
    using e l by (intro mult_mono mult_left_mono mult_nonneg_nonneg) auto
  then show ?thesis
    using assms(2,6) by (simp add: runtimePriorityWeight_product suppressed_def)
qed

lemma Allows_lane:
  assumes "tracked m" "lane m (ai_ID info) = Some s"
  shows "fst (Allows now info m) \<longleftrightarrow> \<not> suppressed now (normalizeState now s) \<and>
    rs_Status (normalizeState now s) \<noteq> AgentStatusOffline \<and>
    rs_Status (normalizeState now s) \<noteq> AgentStatusMaintenance"
  using State_lane(1) [OF assms] by (auto simp: Allows_def Let_def)

lemma refreshed_normal:
  assumes "t \<ge> now"
  shows "rs_Status (normalizeState t (refreshed now s)) = rs_Status (normalizeState t s)"
    "suppressed t (normalizeState t (refreshed now s)) = suppressed t (normalizeState t s)"
  using assms by (auto simp: refreshed_def normalizeState_def suppressed_def Let_def split: option.splits)

section \<open>Reachable managers\<close>

inductive manager_step :: "RuntimeManager \<Rightarrow> RuntimeManager \<Rightarrow> bool" where
  mgr_register: "ai_ID (ag_Info a) \<noteq> [] \<Longrightarrow>
    manager_step m (m\<lparr>rm_registry := RegisterAgent now a (rm_registry m)\<rparr>)"
| mgr_state: "manager_step m (snd (State now k m))"
| mgr_allows: "manager_step m (snd (Allows now info m))"
| mgr_refresh: "manager_step m (snd (RefreshRoutingWeights now m))"
| mgr_capacity: "manager_step m (snd (UpdateCapacitySnapshot now k snap m))"
| mgr_suppress: "manager_step m (snd (SuppressLane now k reason secs m))"
| mgr_recover: "manager_step m (snd (RecoverLane now k m))"
| mgr_failure: "manager_step m (snd (RecordRuntimeFailure now k detail m))"
| mgr_success: "manager_step m (snd (RecordSuccess now k m))"
| mgr_quarantine: "manager_step m (snd (QuarantineAgent now k reason m))"
| mgr_probe: "manager_step m (snd (ProbeProviderRuntime now probe provider m))"
| mgr_sync: "manager_step m (snd (SyncProviderHealth now rows m))"

inductive manager_reachable :: "RuntimeManager \<Rightarrow> bool" where
  mgr_start: "manager_reachable (NewRuntimeManager NewRegistry reg)"
| mgr_next: "manager_reachable m \<Longrightarrow> manager_step m n \<Longrightarrow> manager_reachable n"

lemma lanes_ok_new: "lanes_ok (NewRuntimeManager NewRegistry reg)"
  by (simp add: lanes_ok_def tracked_def NewRuntimeManager_def registry_ok_new) (simp add: NewRegistry_def)

lemma lanes_ok_register:
  assumes "lanes_ok m" "ai_ID (ag_Info a) \<noteq> []"
  shows "lanes_ok (m\<lparr>rm_registry := RegisterAgent now a (rm_registry m)\<rparr>)"
proof -
  let ?r = "RegisterAgent now a (rm_registry m)" and ?k = "ai_ID (ag_Info a)"
  have ok: "registry_ok ?r" using assms(1) by (simp add: lanes_ok_def tracked_def registry_ok_RegisterAgent)
  have agents: "fst ` set (rg_agents ?r) = insert ?k (fst ` set (rg_agents (rm_registry m)))"
    by (simp add: RegisterAgent_def Let_def fst_map_set)
  obtain s where st: "rg_runtimeStates ?r = map_set ?k s (rg_runtimeStates (rm_registry m))"
    and s: "lane_ok s"
  proof (cases "lane m ?k")
    case None
    then show thesis
      using that by (simp add: RegisterAgent_def Let_def)
        (simp add: lane_ok_def zero_AgentRuntimeState_def)
  next
    case (Some e)
    then have "lane_ok e" using assms(1) by (simp add: lanes_ok_def)
    with Some show thesis
      using that by (simp add: RegisterAgent_def Let_def)
  qed
  then show ?thesis
    using assms ok agents by (auto simp: lanes_ok_def tracked_def fst_map_set split: if_splits)
qed

lemma lanes_ok_Suppress: "lanes_ok m \<Longrightarrow> lanes_ok (snd (SuppressLane now k reason secs m))"
  using lanes_ok_State [of m now k]
  by (auto simp: SuppressLane_def Let_def split_def intro!: lanes_ok_commit)

lemma lanes_ok_ops:
  assumes "lanes_ok m"
  shows "lanes_ok (snd (UpdateCapacitySnapshot now k snap m))"
    and "lanes_ok (snd (RecoverLane now k m))"
    and "lanes_ok (snd (RecordRuntimeFailure now k detail m))"
    and "lanes_ok (snd (RecordSuccess now k m))"
proof -
  note st = lanes_ok_State [OF assms, of now]
  show "lanes_ok (snd (UpdateCapacitySnapshot now k snap m))"
    using st [of "TrimSpace k"] clamp_unit
    by (auto simp: UpdateCapacitySnapshot_def Let_def split_def lane_ok_def intro!: lanes_ok_commit)
  show "lanes_ok (snd (RecoverLane now k m))"
    using st [of k]
    by (auto simp: RecoverLane_def Let_def split_def split: option.split intro!: lanes_ok_commit)
  show "lanes_ok (snd (RecordRuntimeFailure now k detail m))"
    using st [of k]
    by (auto simp: RecordRuntimeFailure_def Let_def split_def lane_ok_def min_def intro!: lanes_ok_commit)
  show "lanes_ok (snd (RecordSuccess now k m))"
    using st [of k]
    by (auto simp: RecordSuccess_def Let_def split_def lane_ok_def max_def intro!: lanes_ok_commit)
qed

lemma healthState_ok: "lane_ok s \<Longrightarrow> lane_ok (healthState now a h m s)"
  by (simp add: healthState_def Let_def split_def)

lemma lanes_ok_sync: "lanes_ok m \<Longrightarrow> lanes_ok (snd (SyncProviderHealth now rows m))"
proof -
  have one: "lanes_ok (syncOne now hs a m)" if "lanes_ok m" for hs a m
  proof -
    let ?s = "(fst (fst (State now (ai_ID (ag_Info a)) m)))\<lparr>rs_Provider := ai_Provider (ag_Info a)\<rparr>"
    note st = lanes_ok_State [OF that, of now "ai_ID (ag_Info a)"]
    have s: "lane_ok ?s" using st(1) by simp
    show ?thesis
      using s healthState_ok [OF s] st(2)
      by (auto simp: syncOne_def Let_def split_def intro!: lanes_ok_setState split: option.split)
  qed
  have "lanes_ok (fold (syncOne now hs) as m)" if "lanes_ok m" for hs as m
    using that by (induction as arbitrary: m) (simp_all add: one)
  then show "lanes_ok m \<Longrightarrow> ?thesis"
    by (simp add: SyncProviderHealth_def Let_def split_def lanes_ok_Refresh)
qed

lemma lanes_ok_probe: "lanes_ok m \<Longrightarrow> lanes_ok (snd (ProbeProviderRuntime now probe provider m))"
proof -
  have one: "lanes_ok (snd (probeOne now p h sn a (xs, m)))" if "lanes_ok m" for p h sn a xs m
    using lanes_ok_State [OF that, of now "ai_ID (ag_Info a)"] that
    by (auto simp: probeOne_def Let_def split_def intro!: lanes_ok_setState)
  have "lanes_ok (snd (fold (probeOne now p h sn) as q))" if "lanes_ok (snd q)" for p h sn as q
    using that
  proof (induction as arbitrary: q)
    case (Cons a as)
    then show ?case using one [of "snd q" p h sn a "fst q"] by simp
  qed simp
  then show "lanes_ok m \<Longrightarrow> ?thesis"
    by (auto simp: ProbeProviderRuntime_def Let_def split_def lanes_ok_Refresh split: option.split)
qed

lemma manager_step_ok: "manager_step m n \<Longrightarrow> lanes_ok m \<Longrightarrow> lanes_ok n"
  by (induction rule: manager_step.induct)
    (simp_all add: lanes_ok_register lanes_ok_State lanes_ok_Refresh lanes_ok_ops lanes_ok_Suppress
      lanes_ok_sync lanes_ok_probe Allows_def QuarantineAgent_def Let_def split_def)

lemma manager_reachable_ok: "manager_reachable m \<Longrightarrow> lanes_ok m"
  by (induction rule: manager_reachable.induct) (auto intro: lanes_ok_new manager_step_ok)

section \<open>One lane after an operation\<close>

lemma commit_lane:
  assumes "tracked m" "lane m k = Some e" "rs_AgentID s = k" "rs_Provider s = rs_Provider e"
    and "rs_Status s \<noteq> AgentStatusEmpty" "rs_UpdatedAt s = now"
  shows "tracked (commit now s m)"
    and "lane (commit now s m) k = Some s \<or> lane (commit now s m) k = Some (refreshed now s)"
proof -
  have tr: "tracked (setState now s m)" using assms(1) by (rule tracked_setState)
  show "tracked (commit now s m)" unfolding commit_def by (rule Refresh_effect(1) [OF tr])
  have "k \<noteq> []" using tracked_lane [OF assms(1,2)] by simp
  then have "lane (setState now s m) k = Some s"
    using assms(2-6) by (simp add: lane_setState mergeState_id)
  then show "lane (commit now s m) k = Some s \<or> lane (commit now s m) k = Some (refreshed now s)"
    unfolding commit_def Refresh_effect(3) [OF tr] by simp
qed

text \<open>Whether the lane is admitted depends only on its status and suppression.\<close>

lemma commit_Allows:
  assumes "tracked m" "lane m (ai_ID info) = Some e" "rs_AgentID s = ai_ID info"
    and "rs_Provider s = rs_Provider e" "rs_Status s \<noteq> AgentStatusEmpty" "rs_UpdatedAt s = now" "now \<le> t"
  shows "fst (Allows t info (commit now s m)) \<longleftrightarrow> \<not> suppressed t (normalizeState t s) \<and>
    rs_Status (normalizeState t s) \<noteq> AgentStatusOffline \<and>
    rs_Status (normalizeState t s) \<noteq> AgentStatusMaintenance"
  using commit_lane [OF assms(1-6)] Allows_lane refreshed_normal [OF assms(7)] by metis

section \<open>Properties\<close>


definition example_agent :: Agent where
  "example_agent = \<lparr>ag_Info = \<lparr>ai_ID = ''a1'', ai_Type = ''coder'', ai_Provider = ''p'', ai_ModelName = ''m'',
     ai_Capabilities = [], ai_Status = AgentStatusReady\<rparr>, ag_SupportsAssignedModelOverride = False\<rparr>"

definition example_manager :: RuntimeManager where
  "example_manager = (NewRuntimeManager NewRegistry None)\<lparr>rm_registry :=
     RegisterAgent 1 example_agent NewRegistry\<rparr>"

lemma example_manager_reachable: "manager_reachable example_manager"
proof -
  have "manager_step (NewRuntimeManager NewRegistry None)
      ((NewRuntimeManager NewRegistry None)\<lparr>rm_registry := RegisterAgent 1 example_agent
        (rm_registry (NewRuntimeManager NewRegistry None))\<rparr>)"
    by (rule mgr_register) (simp add: example_agent_def)
  then show ?thesis
    using mgr_next [OF mgr_start] by (simp add: example_manager_def NewRuntimeManager_def)
qed

lemma example_lane: "\<exists>s. RuntimeState ''a1'' (rm_registry example_manager) = Some s \<and>
    rs_ErrorRate s = 0 \<and> rs_Status s = AgentStatusReady \<and> rs_SuppressedUntil s = None"
  by (simp add: example_manager_def RegisterAgent_def NewRegistry_def example_agent_def RuntimeState_def
      Let_def zero_AgentRuntimeState_def)


text \<open>Routing and admission agree: after the weights are refreshed, an agent has a positive routing
  weight exactly if the manager admits it, so no agent that is offline, in maintenance or suppressed
  attracts work and every admitted one can be chosen.\<close>

theorem weights_agree_with_admission:
  assumes "manager_reachable m" "AgentByID k (rm_registry m) = Some agent"
  shows "let (weights, m') = RefreshRoutingWeights now m
    in weightOf k weights > 0 \<longleftrightarrow> fst (Allows now (ag_Info agent) m')"
proof -
  have tr: "tracked m" using manager_reachable_ok [OF assms(1)] by (simp add: lanes_ok_def)
  have mem: "(k, agent) \<in> set (rg_agents (rm_registry m))"
    using assms(2) by (auto simp: AgentByID_def dest: map_of_SomeD)
  have agents: "\<forall>(k, a) \<in> set (rg_agents (rm_registry m)). ai_ID (ag_Info a) = k"
    using tr by (simp add: tracked_def registry_ok_def)
  have k: "k \<in> fst ` set (rg_agents (rm_registry m))" "ai_ID (ag_Info agent) = k"
    using mem bspec [OF agents mem] by (force, simp)
  have "k \<in> fst ` set (rg_runtimeStates (rm_registry m))"
    using k(1) tr unfolding tracked_def registry_ok_def by blast
  then have "lane m k \<noteq> None" by (simp add: map_of_eq_None_iff)
  then obtain s where s: "lane m k = Some s" by blast
  let ?m = "snd (RefreshRoutingWeights now m)"
  have w: "map_of (fst (RefreshRoutingWeights now m)) k =
      Some (runtimePriorityWeight now (normalizeState now s))"
    using k(1) s by (simp add: Refresh_effect(4) [OF tr])
  have "lane ?m (ai_ID (ag_Info agent)) = Some (refreshed now s)"
    using k s by (simp add: Refresh_effect(3) [OF tr])
  note a = Allows_lane [OF Refresh_effect(1) [OF tr] this, of now, unfolded refreshed_normal [OF order_refl]]
  show ?thesis
    by (simp add: split_def weightOf_def w a weight_positive)
qed

theorem weights_agree_with_admission_witness:
  "let (weights, m') = RefreshRoutingWeights 5 example_manager
   in weightOf ''a1'' weights > 0 \<longleftrightarrow> fst (Allows 5 (ag_Info example_agent) m')"
  using weights_agree_with_admission [OF example_manager_reachable, of "''a1''" example_agent 5]
  by (simp add: example_manager_def RegisterAgent_def NewRegistry_def AgentByID_def Let_def example_agent_def)

text \<open>Suppression is a timed ban: from the moment a known lane is suppressed for \<open>n\<close> seconds (300
  if the number is not positive) until that instant, the manager admits no work to it, and from
  that instant on it admits work again, whatever the state of the lane was before.\<close>

theorem suppression_is_a_timed_ban:
  assumes "manager_reachable m" "RuntimeState (ai_ID info) (rm_registry m) = Some s" "now \<le> t"
  shows "let m' = snd (SuppressLane now (ai_ID info) reason secs m);
      until = now + (if secs \<le> 0 then 300 else secs) * second
    in fst (Allows t info m') \<longleftrightarrow> t \<ge> until"
proof -
  have tr: "tracked m" using manager_reachable_ok [OF assms(1)] by (simp add: lanes_ok_def)
  have s: "lane m (ai_ID info) = Some s" using assms(2) by (simp add: RuntimeState_def)
  let ?n = "normalizeState now s" and ?until = "now + (if secs \<le> 0 then 300 else secs) * second"
  let ?m = "setState now ?n m"
  let ?x = "?n\<lparr>rs_Status := AgentStatusMaintenance,
    rs_DisabledReason := firstNonEmptyString [TrimSpace reason, ''suppressed by runtime policy''],
    rs_SuppressedUntil := Some ?until, rs_UpdatedAt := now\<rparr>"
  have run: "snd (SuppressLane now (ai_ID info) reason secs m) = commit now ?x ?m"
    using State_lane(1) [OF tr s] by (simp add: SuppressLane_def Let_def)
  have lane: "lane ?m (ai_ID info) = Some ?n" using State_lane(2) [OF tr s] by simp
  have "fst (Allows t info (commit now ?x ?m)) \<longleftrightarrow> \<not> suppressed t (normalizeState t ?x) \<and>
      rs_Status (normalizeState t ?x) \<noteq> AgentStatusOffline \<and>
      rs_Status (normalizeState t ?x) \<noteq> AgentStatusMaintenance"
    using tracked_setState [OF tr] lane assms(3) tracked_lane [OF tr s]
    by (intro commit_Allows [of _ _ ?n]) simp_all
  also have "\<dots> \<longleftrightarrow> t \<ge> ?until"
    by (auto simp: normalizeState_def suppressed_def Let_def)
  finally show ?thesis by (simp only: Let_def run)
qed

theorem suppression_is_a_timed_ban_witness:
  "let m = snd (SuppressLane 5 ''a1'' [] 10 example_manager) in
   fst (Allows 6 (ag_Info example_agent) m) = False \<and>
   fst (Allows (5 + 10 * second) (ag_Info example_agent) m) = True"
proof -
  obtain s where s: "RuntimeState (ai_ID (ag_Info example_agent)) (rm_registry example_manager) = Some s"
    using example_lane by (auto simp: example_agent_def)
  show ?thesis
    using suppression_is_a_timed_ban [OF example_manager_reachable s, of 5 6 "[]" 10]
      suppression_is_a_timed_ban [OF example_manager_reachable s, of 5 "5 + 10 * second" "[]" 10]
    by (simp add: Let_def example_agent_def)
qed

text \<open>Failures escalate: each failure of a known lane raises its error rate by a quarter up to 1;
  below three quarters the lane is degraded and, if it is not suppressed, still admitted; from
  three quarters on it is in maintenance, not admitted, and the recovery action is quarantine.\<close>

theorem failures_escalate:
  assumes "manager_reachable m" "RuntimeState (ai_ID info) (rm_registry m) = Some s"
    and "rs_SuppressedUntil s = None"
  shows "let (s', m') = RecordRuntimeFailure now (ai_ID info) detail m
    in rs_ErrorRate s' = min 1 (rs_ErrorRate s + 1 / 4) \<and>
      rs_Status s' = (if rs_ErrorRate s' \<ge> 3 / 4 then AgentStatusMaintenance else AgentStatusDegraded) \<and>
      (fst (Allows now info m') \<longleftrightarrow> rs_ErrorRate s' < 3 / 4) \<and>
      fst (RecoveryActionForFailure now (ai_ID info) m') =
        (if rs_ErrorRate s' \<ge> 3 / 4 then ''quarantine_agent'' else ''degrade_lane'')"
proof -
  have ok: "lanes_ok m" by (rule manager_reachable_ok [OF assms(1)])
  then have tr: "tracked m" by (simp add: lanes_ok_def)
  have s: "lane m (ai_ID info) = Some s" using assms(2) by (simp add: RuntimeState_def)
  have "lane_ok s" using ok s by (simp add: lanes_ok_def)
  then have "0 \<le> rs_ErrorRate s" unfolding lane_ok_def by (elim conjE insertE) simp_all
  let ?n = "normalizeState now s"
  define e where "e = min 1 (rs_ErrorRate s + 1 / 4)"
  let ?m = "setState now ?n m"
  define x where "x = ?n\<lparr>rs_ErrorRate := e, rs_LastError := TrimSpace detail,
    rs_Status := (if e \<ge> 3 / 4 then AgentStatusMaintenance else AgentStatusDegraded), rs_UpdatedAt := now\<rparr>"
  have run: "RecordRuntimeFailure now (ai_ID info) detail m = (x, commit now x ?m)"
    using State_lane(1) [OF tr s] by (simp add: RecordRuntimeFailure_def Let_def x_def flip: e_def)
  have x: "rs_ErrorRate x = e" "rs_SuppressedUntil x = None" "rs_UpdatedAt x = now"
      "rs_Status x = (if e \<ge> 3 / 4 then AgentStatusMaintenance else AgentStatusDegraded)"
      "rs_AgentID x = ai_ID info" "rs_Provider x = rs_Provider ?n"
    using assms(3) tracked_lane [OF tr s]
    by (simp_all add: x_def) (simp add: normalizeState_def Let_def)
  have lane: "lane ?m (ai_ID info) = Some ?n" using State_lane(2) [OF tr s] by simp
  have st: "rs_Status x \<noteq> AgentStatusEmpty" by (simp add: x(4))
  have allows: "fst (Allows now info (commit now x ?m)) \<longleftrightarrow> e < 3 / 4"
    using commit_Allows [OF tracked_setState [OF tr] lane x(5,6) st x(3) order_refl] x(2-4)
    by (auto simp: normalizeState_def suppressed_def Let_def)
  have after: "tracked (commit now x ?m)"
    "lane (commit now x ?m) (ai_ID info) = Some x \<or> lane (commit now x ?m) (ai_ID info) = Some (refreshed now x)"
    using commit_lane [OF tracked_setState [OF tr] lane x(5,6) st x(3)] by auto
  have "fst (RecoveryActionForFailure now (ai_ID info) (commit now x ?m)) =
      (if e \<ge> 3 / 4 then ''quarantine_agent'' else ''degrade_lane'')"
    using after(2) State_lane(1) [OF after(1)] \<open>0 \<le> rs_ErrorRate s\<close> x(1) e_def
    by (auto simp: RecoveryActionForFailure_def Let_def refreshed_def)
  then show ?thesis
    by (simp add: run x allows flip: e_def)
qed

theorem failures_escalate_witness:
  "let (s', m') = RecordRuntimeFailure 5 ''a1'' ''boom'' example_manager
   in rs_ErrorRate s' = 1 / 4 \<and> fst (Allows 5 (ag_Info example_agent) m')"
proof -
  obtain s where s: "RuntimeState (ai_ID (ag_Info example_agent)) (rm_registry example_manager) = Some s"
      "rs_SuppressedUntil s = None" "rs_ErrorRate s = 0"
    using example_lane by (auto simp: example_agent_def)
  show ?thesis
    using failures_escalate [OF example_manager_reachable s(1,2), of 5 "''boom''"] s(3)
    by (auto simp: split_def Let_def example_agent_def)
qed

end
