(* ===== verification/TaskPolicy.thy ===== *)
theory TaskPolicy
  imports Domain
begin

text \<open>
  The policies of \<open>kernel/task_policy.go\<close> and \<open>kernel/policy.go\<close>: which capability a task
  needs, which tasks are repository work for the sourcecraft lane, and the checks before a task
  is routed and before it runs on an agent; with the integer settings of
  \<open>kernel/orchestrator.go\<close>, which are read from the environment.
\<close>

section \<open>Enumerations as text\<close>

fun complexityText :: "Complexity \<Rightarrow> string" where
  "complexityText ComplexityLow = ''low''"
| "complexityText ComplexityMedium = ''medium''"
| "complexityText ComplexityHigh = ''high''"
| "complexityText ComplexityCritical = ''critical''"
| "complexityText (ComplexityOther s) = s"

fun taskTypeText :: "TaskType \<Rightarrow> string" where
  "taskTypeText TaskTypePlan = ''plan''"
| "taskTypeText TaskTypeCode = ''code''"
| "taskTypeText TaskTypeReview = ''review''"
| "taskTypeText TaskTypeTest = ''test''"
| "taskTypeText TaskTypeDocs = ''docs''"
| "taskTypeText TaskTypeFix = ''fix''"
| "taskTypeText TaskTypeResearch = ''research''"
| "taskTypeText (TaskTypeOther s) = s"

fun taskStatusText :: "TaskStatus \<Rightarrow> string" where
  "taskStatusText TaskStatusQueued = ''queued''"
| "taskStatusText TaskStatusAccepted = ''accepted''"
| "taskStatusText TaskStatusRejected = ''rejected''"
| "taskStatusText TaskStatusWaitingInput = ''waiting_input''"
| "taskStatusText TaskStatusRunning = ''running''"
| "taskStatusText TaskStatusCompleted = ''completed''"
| "taskStatusText TaskStatusDeadLettered = ''dead_lettered''"
| "taskStatusText TaskStatusDone = ''done''"
| "taskStatusText TaskStatusFailed = ''failed''"
| "taskStatusText (TaskStatusOther s) = s"

fun agentStatusText :: "AgentStatus \<Rightarrow> string" where
  "agentStatusText AgentStatusReady = ''ready''"
| "agentStatusText AgentStatusBusy = ''busy''"
| "agentStatusText AgentStatusDegraded = ''degraded''"
| "agentStatusText AgentStatusOffline = ''offline''"
| "agentStatusText AgentStatusMaintenance = ''maintenance''"
| "agentStatusText (AgentStatusOther s) = s"

section \<open>Settings\<close>

text \<open>
  \<open>strconv.Atoi\<close>: an optional sign and at least one decimal digit, in the range of a 64-bit
  \<open>int\<close>. The process environment is a function from names to values, empty where unset.
\<close>

definition is_digit :: "char \<Rightarrow> bool" where
  "is_digit c \<longleftrightarrow> CHR ''0'' \<le> c \<and> c \<le> CHR ''9''"

definition digits_value :: "string \<Rightarrow> int" where
  "digits_value s = foldl (\<lambda>a c. 10 * a + (int (of_char c) - 48)) 0 s"

definition Atoi :: "string \<Rightarrow> int option" where
  "Atoi s =
     (let neg = (s \<noteq> [] \<and> s ! 0 = CHR ''-'');
          body = (if s \<noteq> [] \<and> (s ! 0 = CHR ''-'' \<or> s ! 0 = CHR ''+'') then drop 1 s else s);
          v = (if neg then - digits_value body else digits_value body)
      in if body \<noteq> [] \<and> list_all is_digit body \<and> - (2 ^ 63) \<le> v \<and> v < 2 ^ 63
         then Some v else None)"

definition envInt :: "(string \<Rightarrow> string) \<Rightarrow> string \<Rightarrow> int \<Rightarrow> int" where
  "envInt getenv key fallback =
     (let value = TrimSpace (getenv key) in
      if value = [] then fallback
      else (case Atoi value of
              None \<Rightarrow> fallback
            | Some parsed \<Rightarrow> if parsed < 0 then fallback else parsed))"

lemma envInt_nonneg: "0 \<le> fallback \<Longrightarrow> 0 \<le> envInt getenv key fallback"
  by (auto simp: envInt_def Let_def split: option.split)

section \<open>Capabilities and repository work\<close>

definition sourcecraftKeywords :: "string list" where
  "sourcecraftKeywords = [''sourcecraft'', ''src '', '' src'', ''repo'', ''repository'',
     ''pull request'', ''pr '', '' pr'', ''issue'', ''release'', ''branch'', ''tag'',
     ''changelog'', ''quota'', ''status'']"

definition sourcecraftCapabilities :: "string list" where
  "sourcecraftCapabilities = [''sourcecraft'', ''repo_ops'', ''pr_flow'', ''release_flow'',
     ''issue_flow'', ''branch_governance'']"

definition SourcecraftTaskFamilies :: "string list" where
  "SourcecraftTaskFamilies = [''repo_ops'', ''pr_flow'', ''release_flow'', ''issue_flow'',
     ''branch_governance'']"

definition sourcecraftSafeActionsByFamily :: "(string \<times> string list) list" where
  "sourcecraftSafeActionsByFamily =
     [(''repo_ops'', [''repo_summary'', ''status'', ''current_branch'']),
      (''pr_flow'', [''repo_summary'', ''status'', ''pr_checks'']),
      (''release_flow'', [''repo_summary'', ''status'', ''repo_governance_report'']),
      (''issue_flow'', [''repo_summary'', ''status'']),
      (''branch_governance'', [''current_branch'', ''status'', ''repo_governance_report''])]"

definition sourcecraftRoutableTaskTypes :: "TaskType list" where
  "sourcecraftRoutableTaskTypes = [TaskTypePlan, TaskTypeDocs, TaskTypeResearch]"

definition capabilityByTaskType :: "(TaskType \<times> string) list" where
  "capabilityByTaskType =
     [(TaskTypePlan, ''plan''), (TaskTypeCode, ''code''), (TaskTypeReview, ''review''),
      (TaskTypeTest, ''test''), (TaskTypeDocs, ''docs''), (TaskTypeFix, ''fix''),
      (TaskTypeResearch, ''research'')]"

definition SourcecraftSafeActions :: "string list" where
  "SourcecraftSafeActions = [''repo_summary'', ''status'', ''current_branch'', ''pr_checks'',
     ''repo_governance_report'']"

definition compactStrings :: "string list \<Rightarrow> string list" where
  "compactStrings values = filter (\<lambda>v. v \<noteq> []) (map TrimSpace values)"

definition taskText :: "Task \<Rightarrow> string" where
  "taskText task = ToLower (join_with '' ''
     ([ti_Description (t_Input task)] @ compactStrings (ti_Files (t_Input task))
      @ compactStrings (ti_Constraints (t_Input task))
      @ compactStrings (ti_AcceptanceCriteria (t_Input task))))"

definition isSourcecraftWork :: "Task \<Rightarrow> bool" where
  "isSourcecraftWork task =
     (TrimSpace (ToLower (t_RequiredCapability task)) \<in> set sourcecraftCapabilities
      \<or> (t_Type task \<in> set sourcecraftRoutableTaskTypes
         \<and> list_ex (Contains (taskText task)) sourcecraftKeywords))"

definition inferCapability :: "Task \<Rightarrow> string" where
  "inferCapability task =
     (if TrimSpace (t_RequiredCapability task) \<noteq> [] then TrimSpace (t_RequiredCapability task)
      else if isSourcecraftWork task then ''sourcecraft''
      else (case map_of capabilityByTaskType (t_Type task) of
              Some capability \<Rightarrow> capability
            | None \<Rightarrow> ''general''))"

definition SourcecraftTaskFamily :: "Task \<Rightarrow> string" where
  "SourcecraftTaskFamily task =
     (let capability = TrimSpace (ToLower (t_RequiredCapability task)); text = taskText task in
      if capability \<in> set sourcecraftCapabilities \<and> capability \<noteq> [] \<and> capability \<noteq> ''sourcecraft''
      then capability
      else if Contains text ''pull request'' \<or> Contains text '' pr'' \<or> Contains text ''pr ''
      then ''pr_flow''
      else if Contains text ''release'' \<or> Contains text ''tag'' \<or> Contains text ''changelog''
      then ''release_flow''
      else if Contains text ''issue'' then ''issue_flow''
      else if Contains text ''branch'' then ''branch_governance''
      else ''repo_ops'')"

definition SourcecraftRecommendedActions :: "Task \<Rightarrow> string list" where
  "SourcecraftRecommendedActions task =
     (case map_of sourcecraftSafeActionsByFamily (SourcecraftTaskFamily task) of
        Some (a # actions) \<Rightarrow> a # actions
      | _ \<Rightarrow> the (map_of sourcecraftSafeActionsByFamily ''repo_ops''))"

definition supportsCapability :: "string list \<Rightarrow> string \<Rightarrow> bool" where
  "supportsCapability capabilities required = list_ex (\<lambda>c. c = required \<or> c = ''*'') capabilities"

text \<open>\<open>toString\<close> of \<open>kernel/router.go\<close>: the text of a string value, else empty.\<close>

fun toString :: "any option \<Rightarrow> string" where
  "toString (Some (AnyString s)) = s"
| "toString _ = []"

text \<open>\<open>cloneHints\<close> copies a map, so the copy is the same value.\<close>

definition cloneHints :: "go_map \<Rightarrow> go_map" where
  "cloneHints hints = hints"

section \<open>Policy decisions\<close>

record PolicyDecision =
  pd_Decision :: string
  pd_Severity :: string
  pd_Reasons :: "string list"
  pd_Evidence :: go_map
  pd_PolicyVersion :: string
  pd_NextAction :: string
  pd_AgentID :: string

definition policyVersion :: string where
  "policyVersion = ''go-core-policy-v1''"

definition rejectRequest :: "string \<Rightarrow> PolicyDecision" where
  "rejectRequest reason = \<lparr>pd_Decision = ''reject'', pd_Severity = ''error'', pd_Reasons = [reason],
     pd_Evidence = [], pd_PolicyVersion = policyVersion, pd_NextAction = ''fix_request'',
     pd_AgentID = []\<rparr>"

definition preflightPolicy :: "Task \<Rightarrow> PolicyDecision" where
  "preflightPolicy task =
     (if t_Type task = TaskTypeOther [] then rejectRequest ''task type is required''
      else if TrimSpace (ti_Description (t_Input task)) = []
      then rejectRequest ''task description is required''
      else \<lparr>pd_Decision = ''allow'', pd_Severity = ''info'', pd_Reasons = [], pd_Evidence = [],
            pd_PolicyVersion = policyVersion, pd_NextAction = ''route_task'', pd_AgentID = []\<rparr>)"

definition timeStruct :: "time option \<Rightarrow> any" where
  "timeStruct t = (case t of None \<Rightarrow> AnyNil | Some i \<Rightarrow> AnyInt i)"

definition runtimeStateStruct :: "AgentRuntimeState \<Rightarrow> any" where
  "runtimeStateStruct s = AnyStruct
     [(''AgentID'', AnyString (rs_AgentID s)), (''Provider'', AnyString (rs_Provider s)),
      (''Status'', AnyString (agentStatusText (rs_Status s))),
      (''PriorityScore'', AnyFloat (rs_PriorityScore s)), (''InFlight'', AnyInt (rs_InFlight s)),
      (''AgentSlotUsage'', AnyFloat (rs_AgentSlotUsage s)),
      (''ModelSlotUsage'', AnyFloat (rs_ModelSlotUsage s)),
      (''GlobalSlotUsage'', AnyFloat (rs_GlobalSlotUsage s)),
      (''ErrorRate'', AnyFloat (rs_ErrorRate s)),
      (''DisabledReason'', AnyString (rs_DisabledReason s)),
      (''LastError'', AnyString (rs_LastError s)),
      (''LastProbeStatus'', AnyString (rs_LastProbeStatus s)),
      (''LastProbeError'', AnyString (rs_LastProbeError s)),
      (''LastProbeLatencyMS'', AnyInt (rs_LastProbeLatencyMS s)),
      (''SuppressedUntil'', timeStruct (rs_SuppressedUntil s)),
      (''UpdatedAt'', AnyInt (rs_UpdatedAt s))]"

definition assignmentReasons ::
  "Task \<Rightarrow> TaskAcceptance \<Rightarrow> AgentInfo \<Rightarrow> AgentRuntimeState \<Rightarrow> string list" where
  "assignmentReasons task acceptance info state =
     (case rs_SuppressedUntil state of
        Some u \<Rightarrow> if ta_AcceptedAt acceptance < u then [''agent lane is currently suppressed''] else []
      | None \<Rightarrow> [])
     @ (if rs_Status state = AgentStatusOffline \<or> rs_Status state = AgentStatusMaintenance
        then [''agent is not routable in current runtime state''] else [])
     @ (if t_AssignedProvider task \<noteq> [] \<and> \<not> EqualFold (t_AssignedProvider task) (ai_Provider info)
        then [''assigned provider does not match routed agent''] else [])"

definition assignmentPolicy ::
  "Task \<Rightarrow> TaskAcceptance \<Rightarrow> AgentInfo \<Rightarrow> AgentRuntimeState \<Rightarrow> PolicyDecision" where
  "assignmentPolicy task acceptance info state =
     (let reasons = assignmentReasons task acceptance info state in
      if reasons \<noteq> []
      then \<lparr>pd_Decision = ''reject'', pd_Severity = ''error'', pd_Reasons = reasons,
            pd_Evidence = [(''runtime_state'', runtimeStateStruct state),
              (''provider'', AnyString (ai_Provider info))],
            pd_PolicyVersion = policyVersion, pd_NextAction = ''reroute_or_recover'',
            pd_AgentID = ai_ID info\<rparr>
      else \<lparr>pd_Decision = ''allow'', pd_Severity = ''info'', pd_Reasons = [], pd_Evidence = [],
            pd_PolicyVersion = policyVersion, pd_NextAction = ''execute'', pd_AgentID = ai_ID info\<rparr>)"

definition decisionBlocks :: "PolicyDecision \<Rightarrow> bool" where
  "decisionBlocks d \<longleftrightarrow> EqualFold (pd_Decision d) ''reject'' \<or> EqualFold (pd_Decision d) ''block''"

end
