(* ===== verification/Planner.thy ===== *)
theory Planner
  imports TaskPolicy
begin

text \<open>
  The planner of \<open>kernel/planner.go\<close>, which completes a task with its capability and model and
  lays out the steps that carry it out. The model selector of \<open>kernel/model_selector.go\<close> is the
  parameter \<open>select\<close>; the environment of the process is the parameter \<open>getenv\<close>.
\<close>

section \<open>Worker classes, budgets and clusters\<close>

definition workerClassForCapability :: "string \<Rightarrow> string" where
  "workerClassForCapability capability =
     (let c = ToLower (TrimSpace capability) in
      if c \<in> set [''plan'', ''analysis''] then ''planner''
      else if c \<in> set [''code'', ''sourcecraft'', ''fix''] then ''code''
      else if c \<in> set [''review'', ''security''] then ''review''
      else if c = ''test'' then ''test''
      else if c = ''research'' then ''retrieval''
      else if c = ''docs'' then ''merge''
      else ''general'')"

definition stepContextBudget :: "string \<Rightarrow> string list \<Rightarrow> int" where
  "stepContextBudget capability files =
     (let cls = workerClassForCapability capability;
          base = (if cls \<in> set [''planner'', ''review'', ''merge''] then 10
                  else if cls \<in> set [''test'', ''retrieval''] then 8 else 6);
          base = base + int (length files) * 2
      in if base > 18 then 18 else base)"

definition maxFilesPerCodeCluster :: "Task \<Rightarrow> int" where
  "maxFilesPerCodeCluster task =
     (case t_Complexity task of
        ComplexityLow \<Rightarrow> 3 | ComplexityMedium \<Rightarrow> 3 | ComplexityHigh \<Rightarrow> 2 | _ \<Rightarrow> 1)"

text \<open>
  The loop of \<open>clusterPlanFiles\<close>: consecutive blocks \<open>files[start:end]\<close> of at most \<open>m\<close> files
  below \<open>limit\<close>. The caller never passes \<open>m = 0\<close>.
\<close>

function clusterLoop :: "string list \<Rightarrow> nat \<Rightarrow> nat \<Rightarrow> nat \<Rightarrow> string list list" where
  "clusterLoop files m limit start =
     (if m = 0 \<or> limit \<le> start then []
      else drop start (take (min (start + m) limit) files) # clusterLoop files m limit (start + m))"
  by pat_completeness auto

termination
  by (relation "measure (\<lambda>(files, m, limit, start). limit - start)") auto

declare clusterLoop.simps [simp del]

definition clusterPlanFiles :: "(string \<Rightarrow> string) \<Rightarrow> string list \<Rightarrow> int \<Rightarrow> string list list" where
  "clusterPlanFiles getenv files maxPerCluster =
     (if files = [] then []
      else
        let m = (if maxPerCluster \<le> 0 then 2 else maxPerCluster);
            m = (if m > 3 then 3 else m);
            maxClusteredFiles = envInt getenv ''GO_CORE_MAX_CLUSTER_PLAN_FILES'' 12;
            limit = (if maxClusteredFiles > 0 \<and> int (length files) > maxClusteredFiles
                     then maxClusteredFiles else int (length files))
        in clusterLoop files (nat m) (nat limit) 0)"

section \<open>Steps\<close>

definition zero_PlanStep :: PlanStep where
  "zero_PlanStep = \<lparr>ps_ID = [], ps_Title = [], ps_Capability = [], ps_WorkerClass = [],
     ps_ClusterID = [], ps_ContextBudget = 0, ps_ConflictKeys = [], ps_Dependencies = [],
     ps_Files = []\<rparr>"

text \<open>A step literal that leaves the worker class, cluster, budget and conflict keys unset.\<close>

definition plainStep :: "string \<Rightarrow> string \<Rightarrow> string \<Rightarrow> string list \<Rightarrow> string list \<Rightarrow> PlanStep" where
  "plainStep id' title capability deps files = zero_PlanStep\<lparr>ps_ID := id', ps_Title := title,
     ps_Capability := capability, ps_Dependencies := deps, ps_Files := files\<rparr>"

text \<open>A step literal of \<open>codeSteps\<close>, with the fields its capability and files determine.\<close>

definition codeStep ::
  "string \<Rightarrow> string \<Rightarrow> string \<Rightarrow> string \<Rightarrow> string list \<Rightarrow> string list \<Rightarrow> PlanStep" where
  "codeStep id' title capability cluster deps files =
     \<lparr>ps_ID = id', ps_Title = title, ps_Capability = capability,
      ps_WorkerClass = workerClassForCapability capability, ps_ClusterID = cluster,
      ps_ContextBudget = stepContextBudget capability files, ps_ConflictKeys = files,
      ps_Dependencies = deps, ps_Files = files\<rparr>"

definition branchID :: "Task \<Rightarrow> nat \<Rightarrow> string" where
  "branchID task index = t_ID task @ ''-branch-'' @ nat_to_string (index + 1)"

definition branchStep :: "Task \<Rightarrow> string \<Rightarrow> string \<Rightarrow> nat \<times> string list \<Rightarrow> PlanStep" where
  "branchStep task capability analyzeID ic =
     (case ic of (index, clusterFiles) \<Rightarrow>
        codeStep (branchID task index)
          (''implement changes for '' @ join_with '', '' clusterFiles) capability
          (t_ID task @ ''-cluster-'' @ nat_to_string (index + 1)) [analyzeID] clusterFiles)"

definition parallelizable :: "Task \<Rightarrow> string list \<Rightarrow> bool" where
  "parallelizable task files \<longleftrightarrow>
     length files > 1
     \<and> (t_Complexity task = ComplexityHigh \<or> t_Complexity task = ComplexityCritical
        \<or> length files > 2 \<or> length (ti_AcceptanceCriteria (t_Input task)) > 1)"

definition codeSteps :: "(string \<Rightarrow> string) \<Rightarrow> Task \<Rightarrow> string \<Rightarrow> PlanStep list" where
  "codeSteps getenv task analyzeID =
     (let files = compactStrings (ti_Files (t_Input task));
          capability = (if t_RequiredCapability task = ''sourcecraft'' then ''code''
                        else t_RequiredCapability task)
      in if \<not> parallelizable task files
         then [codeStep (t_ID task @ ''-implement'') ''implement requested changes'' capability []
                 [analyzeID] files,
               codeStep (t_ID task @ ''-review'') ''review code changes'' ''review'' []
                 [t_ID task @ ''-implement''] files,
               codeStep (t_ID task @ ''-test'') ''run validation checks'' ''test'' []
                 [t_ID task @ ''-review''] files]
         else
           let clusters = clusterPlanFiles getenv files (maxFilesPerCodeCluster task);
               branchIDs = map (branchID task) [0..<length clusters]
           in map (branchStep task capability analyzeID) (enumerate 0 clusters)
              @ [codeStep (t_ID task @ ''-merge-review'') ''merge and review parallel branches''
                   ''review'' (t_ID task @ ''-merge'') branchIDs files,
                 codeStep (t_ID task @ ''-test'') ''run validation checks'' ''test''
                   (t_ID task @ ''-verify'') [t_ID task @ ''-merge-review''] files])"

definition draftCapability :: "TaskType \<Rightarrow> string" where
  "draftCapability ty =
     (case ty of
        TaskTypeDocs \<Rightarrow> ''docs'' | TaskTypeResearch \<Rightarrow> ''research''
      | TaskTypeCode \<Rightarrow> ''code'' | TaskTypeFix \<Rightarrow> ''code''
      | TaskTypeReview \<Rightarrow> ''review'' | TaskTypeTest \<Rightarrow> ''test'' | _ \<Rightarrow> ''plan'')"

definition sourcecraftSteps :: "Task \<Rightarrow> string \<Rightarrow> PlanStep list" where
  "sourcecraftSteps task analyzeID =
     (let files = compactStrings (ti_Files (t_Input task));
          contextID = t_ID task @ ''-repo-context'';
          policyID = t_ID task @ ''-workflow-policy'';
          draftID = t_ID task @ ''-draft-sourcecraft'';
          reviewID = t_ID task @ ''-review-sourcecraft''
      in [plainStep contextID ''inspect repository workflow context'' ''research'' [analyzeID] files,
          plainStep policyID ''map sourcecraft repo policy and guardrails'' ''plan'' [contextID] files,
          plainStep draftID (''draft '' @ SourcecraftTaskFamily task @ '' delegation plan'')
            (draftCapability (t_Type task)) [policyID] files,
          plainStep reviewID ''review recommended repo actions'' ''review'' [draftID] files]
         @ (if t_Type task = TaskTypeCode \<or> t_Type task = TaskTypeFix \<or> t_Type task = TaskTypeTest
            then [plainStep (t_ID task @ ''-validate-sourcecraft'')
                    ''validate workflow handoff and execution readiness'' ''test'' [reviewID] files]
            else []))"

definition defaultSteps :: "(string \<Rightarrow> string) \<Rightarrow> Task \<Rightarrow> PlanStep list" where
  "defaultSteps getenv task =
     (let files = compactStrings (ti_Files (t_Input task));
          mainCapability = t_RequiredCapability task;
          tid = t_ID task;
          analyzeID = tid @ ''-analyze'';
          analyze = plainStep analyzeID ''analyze task scope and constraints'' ''plan'' [] files
      in if isSourcecraftWork task then analyze # sourcecraftSteps task analyzeID
         else analyze #
           (if t_Type task = TaskTypeCode \<or> t_Type task = TaskTypeFix
            then codeSteps getenv task analyzeID
            else if t_Type task = TaskTypePlan
            then [plainStep (tid @ ''-draft-plan'') ''draft execution plan'' mainCapability [analyzeID] files,
                  plainStep (tid @ ''-review-plan'') ''review planning output'' ''review''
                    [tid @ ''-draft-plan''] files]
            else if t_Type task = TaskTypeReview
            then [plainStep (tid @ ''-audit'') ''audit implementation and risks'' mainCapability
                    [analyzeID] files,
                  plainStep (tid @ ''-report'') ''produce review report'' ''docs'' [tid @ ''-audit''] files]
            else if t_Type task = TaskTypeTest
            then [plainStep (tid @ ''-run-tests'') ''run test scenarios'' mainCapability [analyzeID] files,
                  plainStep (tid @ ''-verify-results'') ''verify failing and passing paths'' ''review''
                    [tid @ ''-run-tests''] files]
            else if t_Type task = TaskTypeDocs \<or> t_Type task = TaskTypeResearch
            then [plainStep (tid @ ''-collect-context'') ''collect supporting context'' mainCapability
                    [analyzeID] files,
                  plainStep (tid @ ''-write-output'') ''produce deliverable'' (t_RequiredCapability task)
                    [tid @ ''-collect-context''] files,
                  plainStep (tid @ ''-review-output'') ''review deliverable'' ''review''
                    [tid @ ''-write-output''] files]
            else [plainStep (tid @ ''-execute'') (ti_Description (t_Input task)) mainCapability
                    [analyzeID] files,
                  plainStep (tid @ ''-verify'') ''verify completion'' ''review'' [tid @ ''-execute''] files]))"

section \<open>Preparing a task\<close>

definition shouldUseDynamicParallelPlanRouting :: "Task \<Rightarrow> bool" where
  "shouldUseDynamicParallelPlanRouting task =
     (map_of (t_RoutingHints task) ''parallel_plan'' = Some (AnyBool True)
      \<and> TrimSpace (toString (map_of (t_RoutingHints task) ''plan_step_id'')) \<noteq> []
      \<and> ToLower (TrimSpace (t_RequiredCapability task)) \<in> set [''plan'', ''analysis''])"

definition buildPlan :: "(string \<Rightarrow> string) \<Rightarrow> time \<Rightarrow> Task \<Rightarrow> ModelSelection \<Rightarrow> ExecutionPlan" where
  "buildPlan getenv now task selection =
     \<lparr>ep_TaskID = t_ID task, ep_Complexity = ms_Complexity selection,
      ep_PrimaryCapability = t_RequiredCapability task, ep_Selection = selection,
      ep_Steps = defaultSteps getenv task, ep_CreatedAt = now\<rparr>"

definition laneFields :: "SupportLane \<Rightarrow> go_map" where
  "laneFields l =
     [(''Provider'', AnyString (sl_Provider l)), (''ModelName'', AnyString (sl_ModelName l)),
      (''Role'', AnyString (sl_Role l)),
      (''MaxComplexity'', AnyString (complexityText (sl_MaxComplexity l))),
      (''Capabilities'', AnyStrings (sl_Capabilities l)),
      (''SupportedTaskTypes'', AnyStrings (map taskTypeText (sl_SupportedTaskTypes l))),
      (''Reason'', AnyString (sl_Reason l))]"

definition setHint :: "string \<Rightarrow> any \<Rightarrow> Task \<Rightarrow> Task" where
  "setHint k v task = task\<lparr>t_RoutingHints := map_set k v (t_RoutingHints task)\<rparr>"

text \<open>The assignments of \<open>Prepare\<close> to the task and its routing hints, in their order.\<close>

definition Prepare ::
  "(string \<Rightarrow> string) \<Rightarrow> (Task \<Rightarrow> ModelSelection) \<Rightarrow> time \<Rightarrow> Task \<Rightarrow> Task \<times> ExecutionPlan" where
  "Prepare getenv select now task =
     (let task = task\<lparr>t_RoutingHints := cloneHints (t_RoutingHints task)\<rparr>;
          task = task\<lparr>t_RequiredCapability := inferCapability task\<rparr>;
          selection = select task;
          task = task\<lparr>t_Complexity := ms_Complexity selection\<rparr>;
          task = (if t_AssignedProvider task = [] \<and> \<not> shouldUseDynamicParallelPlanRouting task
                  then task\<lparr>t_AssignedProvider := ms_Provider selection\<rparr> else task);
          task = (if t_AssignedModel task = [] \<and> \<not> shouldUseDynamicParallelPlanRouting task
                  then task\<lparr>t_AssignedModel := ms_ModelName selection\<rparr> else task);
          task = setHint ''required_capability'' (AnyString (t_RequiredCapability task)) task;
          task = setHint ''sourcecraft_work'' (AnyBool (isSourcecraftWork task)) task;
          task = setHint ''selected_provider'' (AnyString (t_AssignedProvider task)) task;
          task = setHint ''selected_model'' (AnyString (t_AssignedModel task)) task;
          task = (if ms_SupportLanes selection \<noteq> []
                  then setHint ''ai_kernel_helper'' (AnyBool True)
                    (setHint ''support_lanes'' (AnyStructs (map laneFields (ms_SupportLanes selection))) task)
                  else task);
          task = (if ms_SelectionTrace selection \<noteq> []
                  then setHint ''selection_trace'' (AnyMap (cloneHints (ms_SelectionTrace selection))) task
                  else task);
          task = (if isSourcecraftWork task
                  then setHint ''sourcecraft_mutation_supported'' (AnyBool False)
                    (setHint ''sourcecraft_runtime_mode'' (AnyString ''planning_only'')
                      (setHint ''sourcecraft_recommended_actions''
                         (AnyStrings (SourcecraftRecommendedActions task))
                        (setHint ''sourcecraft_task_family'' (AnyString (SourcecraftTaskFamily task)) task)))
                  else task)
      in (task, buildPlan getenv now task selection))"

section \<open>Plans are ordered\<close>

text \<open>
  A list of steps is ordered when every step has a new id and depends only on ids of earlier
  steps; \<open>seen\<close> are the ids before the list.
\<close>

fun ordered_after :: "string set \<Rightarrow> PlanStep list \<Rightarrow> bool" where
  "ordered_after seen [] = True"
| "ordered_after seen (s # ss) =
     (ps_ID s \<notin> seen \<and> set (ps_Dependencies s) \<subseteq> seen \<and> ordered_after (insert (ps_ID s) seen) ss)"

lemma ordered_after_append:
  "ordered_after seen (xs @ ys) \<longleftrightarrow>
     ordered_after seen xs \<and> ordered_after (seen \<union> ps_ID ` set xs) ys"
  by (induction xs arbitrary: seen) auto

lemma ordered_after_distinct:
  "ordered_after seen ss \<Longrightarrow> distinct (map ps_ID ss) \<and> ps_ID ` set ss \<inter> seen = {}"
proof (induction ss arbitrary: seen)
  case (Cons s ss)
  then show ?case using Cons.IH [of "insert (ps_ID s) seen"] by force
qed simp

text \<open>Steps with new distinct ids that depend on earlier ids only, in any order.\<close>

lemma ordered_after_independent:
  assumes "distinct (map ps_ID ss)" and "\<forall>s \<in> set ss. ps_ID s \<notin> seen \<and> set (ps_Dependencies s) \<subseteq> seen"
  shows "ordered_after seen ss"
  using assms
proof (induction ss arbitrary: seen)
  case (Cons s ss)
  have "ordered_after (insert (ps_ID s) seen) ss"
    using Cons.prems by (intro Cons.IH) (auto simp: rev_image_eqI)
  with Cons.prems show ?case by simp
qed simp

lemma ps_ID_step [simp]:
  "ps_ID (plainStep i t c d f) = i" "ps_ID (codeStep i t c cl d f) = i"
  "ps_Dependencies (plainStep i t c d f) = d" "ps_Dependencies (codeStep i t c cl d f) = d"
  "ps_Files (plainStep i t c d f) = f" "ps_Files (codeStep i t c cl d f) = f"
  "ps_ConflictKeys (plainStep i t c d f) = []" "ps_ConflictKeys (codeStep i t c cl d f) = f"
  by (simp_all add: plainStep_def codeStep_def zero_PlanStep_def)

lemma branchStep_simps [simp]:
  "ps_ID (branchStep task c a ic) = branchID task (fst ic)"
  "ps_Dependencies (branchStep task c a ic) = [a]"
  "ps_Files (branchStep task c a ic) = snd ic"
  "ps_ConflictKeys (branchStep task c a ic) = snd ic"
  by (simp_all add: branchStep_def split_beta)

lemma branchID_inj: "inj (branchID task)"
  by (rule injI) (auto simp: branchID_def dest: nat_to_string_inj)

lemma branchID_neq [simp]:
  "branchID task i \<noteq> t_ID task @ ''-analyze''"
  "branchID task i \<noteq> t_ID task @ ''-merge-review''"
  "branchID task i \<noteq> t_ID task @ ''-test''"
  by (simp_all add: branchID_def)

lemma branch_ids: "map ps_ID (map (branchStep task c a) (enumerate 0 cs)) = map (branchID task) [0..<length cs]"
  by (rule nth_equalityI) (simp_all add: nth_enumerate_eq)

lemma codeSteps_ordered:
  "ordered_after {t_ID task @ ''-analyze''} (codeSteps getenv task (t_ID task @ ''-analyze''))"
proof (cases "parallelizable task (compactStrings (ti_Files (t_Input task)))")
  case False
  then show ?thesis by (simp add: codeSteps_def Let_def)
next
  case True
  define cs where "cs = clusterPlanFiles getenv (compactStrings (ti_Files (t_Input task))) (maxFilesPerCodeCluster task)"
  define c where "c = (if t_RequiredCapability task = ''sourcecraft'' then ''code'' else t_RequiredCapability task)"
  define bs where "bs = map (branchStep task c (t_ID task @ ''-analyze'')) (enumerate 0 cs)"
  have ids: "map ps_ID bs = map (branchID task) [0..<length cs]"
    unfolding bs_def by (rule branch_ids)
  then have set_ids: "ps_ID ` set bs = set (map (branchID task) [0..<length cs])"
    by (metis set_map)
  have "distinct (map ps_ID bs)"
    unfolding ids by (simp add: distinct_map inj_on_subset [OF branchID_inj])
  then have "ordered_after {t_ID task @ ''-analyze''} bs"
    by (rule ordered_after_independent) (auto simp: bs_def)
  moreover have "t_ID task @ ''-merge-review'' \<notin> ps_ID ` set bs" "t_ID task @ ''-test'' \<notin> ps_ID ` set bs"
    unfolding set_ids set_map image_iff by (metis branchID_neq)+
  moreover have "codeSteps getenv task (t_ID task @ ''-analyze'') = bs @
      [codeStep (t_ID task @ ''-merge-review'') ''merge and review parallel branches'' ''review''
         (t_ID task @ ''-merge'') (map (branchID task) [0..<length cs]) (compactStrings (ti_Files (t_Input task))),
       codeStep (t_ID task @ ''-test'') ''run validation checks'' ''test'' (t_ID task @ ''-verify'')
         [t_ID task @ ''-merge-review''] (compactStrings (ti_Files (t_Input task)))]"
    using True by (simp only: codeSteps_def Let_def cs_def c_def bs_def if_False not_True_eq_False)
  moreover have "set (map (branchID task) [0..<length cs]) \<subseteq> {t_ID task @ ''-analyze''} \<union> ps_ID ` set bs"
    unfolding set_ids by (rule Un_upper2)
  ultimately show ?thesis
    by (simp add: ordered_after_append)
qed

lemma sourcecraftSteps_ordered:
  "ordered_after {t_ID task @ ''-analyze''} (sourcecraftSteps task (t_ID task @ ''-analyze''))"
  by (simp add: sourcecraftSteps_def Let_def)

lemma defaultSteps_ordered: "ordered_after {} (defaultSteps getenv task)"
  using codeSteps_ordered [of task getenv] sourcecraftSteps_ordered [of task]
  by (simp add: defaultSteps_def Let_def)

section \<open>Clusters\<close>

lemma clusterLoop_concat: "0 < m \<Longrightarrow> concat (clusterLoop files m limit start) = drop start (take limit files)"
proof (induction files m limit start rule: clusterLoop.induct)
  case (1 files m limit start)
  show ?case
  proof (cases "limit \<le> start")
    case True
    then show ?thesis by (simp add: clusterLoop.simps)
  next
    case False
    then have IH: "concat (clusterLoop files m limit (start + m)) = drop (start + m) (take limit files)"
      using 1 by simp
    have "drop start (take (min (start + m) limit) files) = take m (drop start (take limit files))"
      by (cases "start + m \<le> limit") (auto simp: drop_take min_def)
    moreover have "drop (start + m) (take limit files) = drop m (drop start (take limit files))"
      by (simp add: add.commute)
    ultimately show ?thesis
      using False "1.prems" IH append_take_drop_id [of m "drop start (take limit files)"]
      by (simp add: clusterLoop.simps [of files m limit start] del: drop_drop)
  qed
qed

lemma clusterLoop_lengths:
  "c \<in> set (clusterLoop files m limit start) \<Longrightarrow> limit \<le> length files \<Longrightarrow> c \<noteq> [] \<and> length c \<le> m"
proof (induction files m limit start rule: clusterLoop.induct)
  case (1 files m limit start)
  from "1.prems"(1) have g: "m \<noteq> 0" "\<not> limit \<le> start"
    by (auto simp: clusterLoop.simps [of files m limit start] split: if_splits)
  then consider "c = drop start (take (min (start + m) limit) files)"
    | "c \<in> set (clusterLoop files m limit (start + m))"
    using "1.prems"(1) by (auto simp: clusterLoop.simps [of files m limit start])
  then show ?case
  proof cases
    case 1
    then show ?thesis using g \<open>limit \<le> length files\<close> by (auto simp: min_def)
  next
    case 2
    then show ?thesis using 1 g by simp
  qed
qed

text \<open>How many of the files the clusters take.\<close>

definition clusterLimit :: "(string \<Rightarrow> string) \<Rightarrow> string list \<Rightarrow> nat" where
  "clusterLimit getenv files =
     (let n = envInt getenv ''GO_CORE_MAX_CLUSTER_PLAN_FILES'' 12 in
      if n > 0 \<and> int (length files) > n then nat n else length files)"

definition clusterWidth :: "int \<Rightarrow> nat" where
  "clusterWidth k = nat (let m = (if k \<le> 0 then 2 else k) in if m > 3 then 3 else m)"

lemma clusterPlanFiles_eq:
  "clusterPlanFiles getenv files k =
     (if files = [] then [] else clusterLoop files (clusterWidth k) (clusterLimit getenv files) 0)"
proof -
  define n where "n = envInt getenv ''GO_CORE_MAX_CLUSTER_PLAN_FILES'' 12"
  show ?thesis
    unfolding clusterPlanFiles_def clusterLimit_def clusterWidth_def Let_def n_def [symmetric]
    by (cases "n > 0 \<and> int (length files) > n") (simp_all only: if_True if_False nat_int simp_thms)
qed

lemma clusterPlanFiles_concat:
  "concat (clusterPlanFiles getenv files k) = take (clusterLimit getenv files) files"
  by (simp add: clusterPlanFiles_eq clusterLoop_concat clusterWidth_def Let_def)

lemma clusterPlanFiles_lengths:
  "c \<in> set (clusterPlanFiles getenv files k) \<Longrightarrow> c \<noteq> [] \<and> length c \<le> 3 \<and> (0 < k \<longrightarrow> int (length c) \<le> k)"
proof -
  assume "c \<in> set (clusterPlanFiles getenv files k)"
  then have "c \<in> set (clusterLoop files (clusterWidth k) (clusterLimit getenv files) 0)"
    by (simp add: clusterPlanFiles_eq split: if_splits)
  moreover have "clusterLimit getenv files \<le> length files"
    by (auto simp: clusterLimit_def Let_def)
  ultimately have "c \<noteq> [] \<and> length c \<le> clusterWidth k"
    by (rule clusterLoop_lengths)
  then show ?thesis
    by (auto simp: clusterWidth_def Let_def split: if_splits)
qed

section \<open>Properties\<close>

text \<open>Every plan the planner lays out is executable in the order it is written, whatever the
  task, the settings and the selected model: the ids of its steps are distinct and each step
  depends only on steps before it.\<close>

theorem plans_are_ordered:
  "ordered_after {} (ep_Steps (snd (Prepare getenv select now task)))"
  by (simp add: Prepare_def Let_def buildPlan_def defaultSteps_ordered)

definition example_code_task :: Task where
  "example_code_task = zero_Task\<lparr>t_ID := ''t'', t_Type := TaskTypeCode, t_RequiredCapability := ''code'',
     t_Input := zero_TaskInput\<lparr>ti_Files := [''a'', ''b'', ''c'', ''d'']\<rparr>\<rparr>"

text \<open>The parallel branches of a code task split its files: their clusters are non-empty, hold at
  most three files and no more than the complexity of the task allows, and put together they are
  the files of the task in order, cut off at the configured maximum (12 unless the environment
  says otherwise).\<close>

theorem code_branches_partition_files:
  fixes getenv :: "string \<Rightarrow> string" and analyzeID :: string
  assumes "parallelizable task (compactStrings (ti_Files (t_Input task)))"
  defines "branches \<equiv> butlast (butlast (codeSteps getenv task analyzeID))"
  shows "concat (map ps_Files branches) =
      take (clusterLimit getenv (compactStrings (ti_Files (t_Input task))))
        (compactStrings (ti_Files (t_Input task)))
    \<and> (\<forall>s \<in> set branches. ps_Files s \<noteq> [] \<and> length (ps_Files s) \<le> 3
         \<and> int (length (ps_Files s)) \<le> maxFilesPerCodeCluster task
         \<and> ps_ConflictKeys s = ps_Files s \<and> ps_Dependencies s = [analyzeID])"
proof -
  define files where "files = compactStrings (ti_Files (t_Input task))"
  define c where "c = (if t_RequiredCapability task = ''sourcecraft'' then ''code'' else t_RequiredCapability task)"
  define cs where "cs = clusterPlanFiles getenv files (maxFilesPerCodeCluster task)"
  have b: "branches = map (branchStep task c analyzeID) (enumerate 0 cs)"
    using assms(1) unfolding branches_def codeSteps_def Let_def files_def c_def cs_def
    by (simp add: butlast_append)
  have "map ps_Files branches = cs"
    unfolding b by (rule nth_equalityI) (simp_all add: nth_enumerate_eq)
  then have "concat (map ps_Files branches) = take (clusterLimit getenv files) files"
    by (simp add: cs_def clusterPlanFiles_concat)
  moreover have "0 < maxFilesPerCodeCluster task"
    by (simp add: maxFilesPerCodeCluster_def split: Complexity.split)
  then have "ps_Files s \<noteq> [] \<and> length (ps_Files s) \<le> 3
      \<and> int (length (ps_Files s)) \<le> maxFilesPerCodeCluster task" if "s \<in> set branches" for s
    using that clusterPlanFiles_lengths [of "ps_Files s" getenv files "maxFilesPerCodeCluster task"]
      \<open>map ps_Files branches = cs\<close> unfolding cs_def by (metis image_eqI set_map)
  moreover have "ps_ConflictKeys s = ps_Files s \<and> ps_Dependencies s = [analyzeID]" if "s \<in> set branches" for s
    using that by (auto simp: b)
  ultimately show ?thesis
    unfolding files_def by blast
qed

theorem code_branches_partition_files_witness:
  "concat (map ps_Files (butlast (butlast (codeSteps (\<lambda>_. []) example_code_task ''t-analyze'')))) =
     [''a'', ''b'', ''c'', ''d'']"
proof -
  have p: "parallelizable example_code_task (compactStrings (ti_Files (t_Input example_code_task)))"
    by code_simp
  have t: "take (clusterLimit (\<lambda>_. []) (compactStrings (ti_Files (t_Input example_code_task))))
      (compactStrings (ti_Files (t_Input example_code_task))) = [''a'', ''b'', ''c'', ''d'']"
    by code_simp
  show ?thesis
    using code_branches_partition_files [OF p, of "\<lambda>_. []" "''t-analyze''"] t by simp
qed

text \<open>Files beyond the maximum have no branch: with the default settings, no branch of a code task
  with more than twelve distinct files implements the thirteenth file, although the review and
  the tests that follow list it.\<close>

theorem code_branches_drop_files:
  assumes "distinct (compactStrings (ti_Files (t_Input task)))"
    and "12 < length (compactStrings (ti_Files (t_Input task)))"
    and "getenv ''GO_CORE_MAX_CLUSTER_PLAN_FILES'' = []"
  defines "file \<equiv> compactStrings (ti_Files (t_Input task)) ! 12"
  shows "(\<forall>s \<in> set (butlast (butlast (codeSteps getenv task analyzeID))). file \<notin> set (ps_Files s))
    \<and> file \<in> set (ps_Files (last (codeSteps getenv task analyzeID)))"
proof -
  define files where "files = compactStrings (ti_Files (t_Input task))"
  define c where "c = (if t_RequiredCapability task = ''sourcecraft'' then ''code'' else t_RequiredCapability task)"
  define cs where "cs = clusterPlanFiles getenv files (maxFilesPerCodeCluster task)"
  have p: "parallelizable task files"
    using assms(2) by (simp add: parallelizable_def files_def)
  have b: "butlast (butlast (codeSteps getenv task analyzeID)) = map (branchStep task c analyzeID) (enumerate 0 cs)"
    using p unfolding codeSteps_def Let_def files_def c_def cs_def by (simp add: butlast_append)
  have "clusterLimit getenv files = 12"
    using assms(2,3) by (simp add: clusterLimit_def envInt_def Let_def files_def)
  then have "concat cs = take 12 files"
    by (simp add: cs_def clusterPlanFiles_concat)
  moreover have "file \<notin> set (take 12 files)"
  proof
    assume "file \<in> set (take 12 files)"
    then obtain i where "i < 12" "i < length files" "files ! i = files ! 12"
      by (auto simp: in_set_conv_nth file_def files_def)
    then show False
      using nth_eq_iff_index_eq [of files i 12] assms(1,2) by (simp add: files_def)
  qed
  ultimately have "file \<notin> set cl" if "cl \<in> set cs" for cl
    using that by (metis UnionI concat_eq_Nil_conv image_eqI in_set_conv_decomp set_concat)
  moreover have "ps_Files s \<in> set cs" if "s \<in> set (map (branchStep task c analyzeID) (enumerate 0 cs))" for s
    using that by (auto simp: in_set_enumerate_eq)
  moreover have "last (codeSteps getenv task analyzeID) =
      codeStep (t_ID task @ ''-test'') ''run validation checks'' ''test'' (t_ID task @ ''-verify'')
        [t_ID task @ ''-merge-review''] files"
    using p unfolding codeSteps_def Let_def files_def by simp
  moreover have "file \<in> set files"
    using assms(2) by (simp add: file_def files_def)
  ultimately show ?thesis
    unfolding b by auto
qed

text \<open>A task with the thirteen one-letter files from \<open>a\<close> to \<open>m\<close>.\<close>

definition example_wide_task :: Task where
  "example_wide_task = example_code_task\<lparr>t_Input := zero_TaskInput\<lparr>ti_Files := map (\<lambda>c. [c]) ''abcdefghijklm''\<rparr>\<rparr>"

theorem code_branches_drop_files_witness:
  "\<forall>s \<in> set (butlast (butlast (codeSteps (\<lambda>_. []) example_wide_task ''t-analyze''))). ''m'' \<notin> set (ps_Files s)"
proof -
  have "distinct (compactStrings (ti_Files (t_Input example_wide_task)))"
    and "12 < length (compactStrings (ti_Files (t_Input example_wide_task)))"
    and "compactStrings (ti_Files (t_Input example_wide_task)) ! 12 = ''m''"
    by code_simp+
  then show ?thesis
    using code_branches_drop_files [of example_wide_task "\<lambda>_. []" "''t-analyze''"] by simp
qed

text \<open>Repository work is planned with safe actions only: whatever the task says, the recommended
  actions are not empty, belong to the published list of safe actions, and the family they are
  chosen by is one of the published families.\<close>

theorem recommended_actions_are_safe:
  "SourcecraftRecommendedActions task \<noteq> []
   \<and> set (SourcecraftRecommendedActions task) \<subseteq> set SourcecraftSafeActions
   \<and> SourcecraftTaskFamily task \<in> set SourcecraftTaskFamilies"
proof -
  have fam: "SourcecraftTaskFamily task \<in> set SourcecraftTaskFamilies"
    unfolding SourcecraftTaskFamily_def SourcecraftTaskFamilies_def sourcecraftCapabilities_def Let_def
    by (auto split: if_split)
  have "list_all (\<lambda>f. case map_of sourcecraftSafeActionsByFamily f of
      Some (a # as) \<Rightarrow> set (a # as) \<subseteq> set SourcecraftSafeActions | _ \<Rightarrow> False) SourcecraftTaskFamilies"
    by code_simp
  with fam have "case map_of sourcecraftSafeActionsByFamily (SourcecraftTaskFamily task) of
      Some (a # as) \<Rightarrow> set (a # as) \<subseteq> set SourcecraftSafeActions | _ \<Rightarrow> False"
    by (simp add: list_all_iff)
  with fam show ?thesis
    by (auto simp: SourcecraftRecommendedActions_def split: option.splits list.splits)
qed

text \<open>The checks before a task runs: a task passes both policies exactly when it has a type and a
  description, the lane of the agent is neither suppressed at the time of acceptance nor offline
  nor in maintenance, and the agent is of the provider the task asks for, if it asks for one.\<close>

theorem policies_admit:
  "\<not> decisionBlocks (preflightPolicy task) \<and> \<not> decisionBlocks (assignmentPolicy task acceptance info state)
   \<longleftrightarrow> t_Type task \<noteq> TaskTypeOther [] \<and> TrimSpace (ti_Description (t_Input task)) \<noteq> []
     \<and> (rs_SuppressedUntil state = None \<or> the (rs_SuppressedUntil state) \<le> ta_AcceptedAt acceptance)
     \<and> rs_Status state \<notin> {AgentStatusOffline, AgentStatusMaintenance}
     \<and> (t_AssignedProvider task = [] \<or> EqualFold (t_AssignedProvider task) (ai_Provider info))"
proof -
  have rej: "decisionBlocks (rejectRequest r)" for r
    by (simp add: decisionBlocks_def rejectRequest_def)
  have "\<not> EqualFold ''allow'' ''reject''" "\<not> EqualFold ''allow'' ''block''"
    by code_simp+
  then have allow: "\<not> decisionBlocks d" if "pd_Decision d = ''allow''" for d
    using that by (simp add: decisionBlocks_def)
  have "\<not> decisionBlocks (preflightPolicy task) \<longleftrightarrow>
      t_Type task \<noteq> TaskTypeOther [] \<and> TrimSpace (ti_Description (t_Input task)) \<noteq> []"
    by (simp add: preflightPolicy_def rej allow)
  moreover have "\<not> decisionBlocks (assignmentPolicy task acceptance info state) \<longleftrightarrow>
      assignmentReasons task acceptance info state = []"
    by (simp add: assignmentPolicy_def Let_def allow) (simp add: decisionBlocks_def)
  moreover have "assignmentReasons task acceptance info state = [] \<longleftrightarrow>
      (rs_SuppressedUntil state = None \<or> the (rs_SuppressedUntil state) \<le> ta_AcceptedAt acceptance)
     \<and> rs_Status state \<notin> {AgentStatusOffline, AgentStatusMaintenance}
     \<and> (t_AssignedProvider task = [] \<or> EqualFold (t_AssignedProvider task) (ai_Provider info))"
    by (auto simp: assignmentReasons_def split: option.splits if_splits)
  ultimately show ?thesis by blast
qed

end
