(* ===== verification/ParallelPlan.thy ===== *)
theory ParallelPlan
  imports Planner "HOL-Library.Product_Lexorder"
begin

text \<open>
  Parallel plans, \<open>kernel/advanced_planner.go\<close>: the artifact a plan is turned into, the choice of
  the tasks that may run together, the loop that runs a plan and checkpoints it, and the saving
  and loading of checkpoints.

  The loop starts goroutines and waits for their results on a channel. Its model takes the
  results as a list of arrivals: an arrival says which of the tasks that are running answers
  next, when, and with which workflow record or error, so a theorem for all lists of arrivals
  holds for every order in which the goroutines can answer. Weights and costs are rational
  numbers. The stores a checkpoint is written to are the fields of a record of operations on a
  world; a store that is not configured (\<open>nil\<close>) is \<open>None\<close>.
\<close>

section \<open>Data\<close>

record PlanArtifact =
  pt_RootTaskID :: string
  pt_PrimaryCapability :: string
  pt_TaskCount :: int
  pt_Tasks :: "PlanTaskArtifact list"
  pt_ParallelGroups :: "string list list"
  pt_Handoffs :: "go_map list"
  pt_CreatedAt :: time

record ParallelPlanCheckpoint =
  ck_Kind :: string
  ck_RootTaskID :: string
  ck_SessionID :: string
  ck_Branch :: string
  ck_RootTask :: Task
  ck_Plan :: ExecutionPlan
  ck_PlanArtifact :: PlanArtifact
  ck_PendingTaskIDs :: "string list"
  ck_CompletedTaskIDs :: "string list"
  ck_ResultsByTaskID :: go_map
  ck_BatchNo :: int
  ck_Status :: ParallelPlanStatus
  ck_UpdatedAt :: time

record ExecutionPlanPreview =
  ev_Task :: Task
  ev_Plan :: ExecutionPlan
  ev_PlanArtifact :: PlanArtifact
  ev_PendingTaskIDs :: "string list"
  ev_CheckpointBranch :: string
  ev_CreatedAt :: time

record ExecutionPlanRun =
  er_Task :: Task
  er_Plan :: ExecutionPlan
  er_PlanArtifact :: PlanArtifact
  er_Checkpoint :: ParallelPlanCheckpoint
  er_Workflows :: "WorkflowRecord list"
  er_StartedAt :: time
  er_CompletedAt :: time

section \<open>From a plan to its artifact\<close>

definition shouldUseDynamicStepRouting :: "PlanStep \<Rightarrow> bool" where
  "shouldUseDynamicStepRouting step =
     (ToLower (TrimSpace (ps_Capability step)) \<in> set [''plan'', ''analysis'']
      \<or> ps_Dependencies step = [])"

definition stepAssignment :: "Task \<Rightarrow> ExecutionPlan \<Rightarrow> PlanStep \<Rightarrow> string \<times> string" where
  "stepAssignment task plan step =
     (if shouldUseDynamicStepRouting step then ([], [])
      else (firstNonEmptyString [t_AssignedProvider task, ms_Provider (ep_Selection plan)],
            firstNonEmptyString [t_AssignedModel task, ms_ModelName (ep_Selection plan)]))"

definition draftLayer :: "PlanStep \<Rightarrow> string" where
  "draftLayer step =
     (if ps_Dependencies step = [] then ''analysis''
      else if ps_Capability step = ''review'' \<or> ps_Capability step = ''docs'' then ''review''
      else if Contains (ps_ID step) ''test'' then ''verification''
      else if Contains (ps_ID step) ''branch-'' then ''parallel''
      else ''execution'')"

definition estimatePlanStepCost :: "Task \<Rightarrow> ExecutionPlan \<Rightarrow> PlanStep \<Rightarrow> rat" where
  "estimatePlanStepCost task plan step =
     (case ep_Complexity plan of
        ComplexityMedium \<Rightarrow> 3/2 | ComplexityHigh \<Rightarrow> 5/2 | ComplexityCritical \<Rightarrow> 4 | _ \<Rightarrow> 1)
     + of_nat (length (ps_Files step)) * (35/100)
     + of_nat (length (ps_Dependencies step)) * (25/100)
     + of_nat (length (ti_AcceptanceCriteria (t_Input task))) * (15/100)
     + (if ps_Capability step = ''review'' \<or> ps_Capability step = ''test'' then 1/2 else 0)"

definition estimatePlanStepWeight :: "Task \<Rightarrow> ExecutionPlan \<Rightarrow> PlanStep \<Rightarrow> rat" where
  "estimatePlanStepWeight task plan step =
     estimatePlanStepCost task plan step
     + of_nat (length (ps_Files step)) * (4/10)
     + of_nat (length (ps_Dependencies step)) * (2/10)
     + (if ps_Capability step = ''review'' \<or> ps_Capability step = ''test'' then 35/100 else 0)
     + (if ep_Complexity plan = ComplexityCritical then 75/100 else 0)"

text \<open>
  \<open>parallelGroups\<close> collects the steps with one and the same single dependency, in a Go map from
  the dependency to the ids; the groups of more than one step come out sorted.
\<close>

definition groupOf :: "PlanStep list \<Rightarrow> string \<Rightarrow> string list" where
  "groupOf steps key = map ps_ID (filter (\<lambda>s. ps_Dependencies s = [key]) steps)"

definition parallelGroups :: "PlanStep list \<Rightarrow> string list list" where
  "parallelGroups steps =
     (let singles = filter (\<lambda>s. length (ps_Dependencies s) = 1) steps;
          keys = filter (\<lambda>k. length (groupOf steps k) > 1)
                   (remdups (map (\<lambda>s. ps_Dependencies s ! 0) singles))
      in map (\<lambda>k. sort (groupOf steps k)) (sort keys))"

definition buildPlanTaskArtifact :: "Task \<Rightarrow> ExecutionPlan \<Rightarrow> PlanStep \<Rightarrow> PlanTaskArtifact" where
  "buildPlanTaskArtifact task plan step =
     (let (stepProvider, stepModel) = stepAssignment task plan step;
          workerClass = firstNonEmptyString [ps_WorkerClass step, workerClassForCapability (ps_Capability step)];
          clusterID = firstNonEmptyString [ps_ClusterID step, ps_ID step];
          contextBudget = (if ps_ContextBudget step \<le> 0
                           then stepContextBudget (ps_Capability step) (ps_Files step)
                           else ps_ContextBudget step);
          conflictKeys = (if ps_ConflictKeys step = [] then ps_Files step else ps_ConflictKeys step)
      in \<lparr>pa_TaskID = ps_ID step, pa_Title = ps_Title step, pa_Capability = ps_Capability step,
          pa_WorkerClass = workerClass, pa_ClusterID = clusterID, pa_ContextBudget = contextBudget,
          pa_ConflictKeys = conflictKeys, pa_Provider = stepProvider, pa_ModelName = stepModel,
          pa_Files = ps_Files step, pa_Dependencies = ps_Dependencies step, pa_BranchID = clusterID,
          pa_DraftLayer = draftLayer step, pa_EstimatedCost = estimatePlanStepCost task plan step,
          pa_Weight = estimatePlanStepWeight task plan step,
          pa_ExecutionContract =
            [(''root_task_id'', AnyString (t_ID task)), (''session_id'', AnyString (t_SessionID task)),
             (''step_id'', AnyString (ps_ID step)),
             (''required_capability'', AnyString (ps_Capability step)),
             (''worker_class'', AnyString workerClass), (''cluster_id'', AnyString clusterID),
             (''context_budget'', AnyInt contextBudget), (''conflict_keys'', AnyStrings conflictKeys),
             (''selected_provider'', AnyString stepProvider), (''selected_model'', AnyString stepModel),
             (''review_depth'', AnyInt (t_ReviewDepth task)),
             (''checkpoint_policy'',
              AnyString (firstNonEmptyString [t_CheckpointPolicy task, ''on_plan_preview''])),
             (''resume_token'', AnyString (firstNonEmptyString [t_ResumeToken task, ps_ID step])),
             (''repo_fingerprint'', AnyString (t_RepoFingerprint task)),
             (''acceptance_criteria'', AnyStrings (ti_AcceptanceCriteria (t_Input task)))]\<rparr>)"

definition handoffsOf :: "PlanStep \<Rightarrow> go_map list" where
  "handoffsOf step = map (\<lambda>d. [(''from'', AnyString d), (''to'', AnyString (ps_ID step)),
     (''kind'', AnyString ''dependency'')]) (ps_Dependencies step)"

definition buildPlanArtifact :: "time \<Rightarrow> Task \<Rightarrow> ExecutionPlan \<Rightarrow> PlanArtifact" where
  "buildPlanArtifact now task plan =
     (let tasks = map (buildPlanTaskArtifact task plan) (ep_Steps plan) in
      \<lparr>pt_RootTaskID = t_ID task, pt_PrimaryCapability = ep_PrimaryCapability plan,
       pt_TaskCount = int (length tasks), pt_Tasks = tasks,
       pt_ParallelGroups = parallelGroups (ep_Steps plan),
       pt_Handoffs = concat (map handoffsOf (ep_Steps plan)), pt_CreatedAt = now\<rparr>)"

section \<open>Choosing the tasks that may run\<close>

definition completedSet :: "string list \<Rightarrow> string set" where
  "completedSet ids = set (compactStrings ids)"

definition readyPlanArtifacts ::
  "PlanTaskArtifact list \<Rightarrow> string list \<Rightarrow> string list \<Rightarrow> PlanTaskArtifact list" where
  "readyPlanArtifacts tasks pending completed =
     sort_key pa_TaskID
       (filter (\<lambda>task. pa_TaskID task \<in> completedSet pending
                  \<and> list_all (\<lambda>d. d \<in> completedSet completed) (pa_Dependencies task)) tasks)"

definition conflictKeys :: "PlanTaskArtifact \<Rightarrow> string set" where
  "conflictKeys task = set (compactStrings (pa_ConflictKeys task))"

definition hasConflictKeys :: "PlanTaskArtifact \<Rightarrow> string set \<Rightarrow> bool" where
  "hasConflictKeys task used =
     list_ex (\<lambda>key. TrimSpace key \<noteq> [] \<and> TrimSpace key \<in> used) (pa_ConflictKeys task)"

definition registerConflictKeys :: "PlanTaskArtifact \<Rightarrow> string set \<Rightarrow> string set" where
  "registerConflictKeys task used = used \<union> conflictKeys task"

definition collectArtifactConflictKeys :: "(string \<times> PlanTaskArtifact) list \<Rightarrow> string set" where
  "collectArtifactConflictKeys running = foldr (\<lambda>(k, task). registerConflictKeys task) running {}"

fun scheduleLoop :: "PlanTaskArtifact list \<Rightarrow> string set \<Rightarrow> PlanTaskArtifact list" where
  "scheduleLoop [] used = []"
| "scheduleLoop (task # tasks) used =
     (if hasConflictKeys task used then scheduleLoop tasks used
      else task # scheduleLoop tasks (registerConflictKeys task used))"

definition scheduleReadyArtifactsWithConflicts ::
  "PlanTaskArtifact list \<Rightarrow> string set \<Rightarrow> PlanTaskArtifact list" where
  "scheduleReadyArtifactsWithConflicts ready activeConflicts =
     (if length ready \<le> 1
      then (if length ready = 1 \<and> hasConflictKeys (ready ! 0) activeConflicts then [] else ready)
      else scheduleLoop
             (sort_key (\<lambda>t. (pa_Weight t, length (pa_Files t), pa_TaskID t)) ready) activeConflicts)"

definition removePending :: "string list \<Rightarrow> string \<Rightarrow> string list" where
  "removePending pending taskID = filter (\<lambda>candidate. candidate \<noteq> taskID) pending"

section \<open>Tasks and their results\<close>

definition taskTypeForCapability :: "TaskType \<Rightarrow> string \<Rightarrow> TaskType" where
  "taskTypeForCapability rootType capability =
     (let c = ToLower (TrimSpace capability) in
      if c \<in> set [''plan'', ''analysis''] then TaskTypePlan
      else if c \<in> set [''code'', ''sourcecraft''] then TaskTypeCode
      else if c \<in> set [''review'', ''security''] then TaskTypeReview
      else if c = ''test'' then TaskTypeTest
      else if c = ''docs'' then TaskTypeDocs
      else if c = ''fix'' then TaskTypeFix
      else if c = ''research'' then TaskTypeResearch
      else if rootType \<noteq> TaskTypeOther [] then rootType
      else TaskTypePlan)"

text \<open>Assigning a list of keys of a map one after the other.\<close>

definition map_set_all :: "(string \<times> any) list \<Rightarrow> go_map \<Rightarrow> go_map" where
  "map_set_all kvs m = foldl (\<lambda>m (k, v). map_set k v m) m kvs"

definition buildPlanTask :: "Task \<Rightarrow> PlanTaskArtifact \<Rightarrow> int \<Rightarrow> Task" where
  "buildPlanTask rootTask artifact batchNo =
     (let sessionID = firstNonEmptyString [t_SessionID rootTask, t_ID rootTask];
          shared = [(''worker_class'', AnyString (pa_WorkerClass artifact)),
                    (''cluster_id'', AnyString (pa_ClusterID artifact)),
                    (''context_budget'', AnyInt (pa_ContextBudget artifact)),
                    (''conflict_keys'', AnyStrings (pa_ConflictKeys artifact)),
                    (''task_weight'', AnyFloat (pa_Weight artifact))];
          contract = map_set_all (shared @
                       [(''root_task_id'', AnyString (t_ID rootTask)), (''session_id'', AnyString sessionID),
                        (''step_id'', AnyString (pa_TaskID artifact)), (''plan_batch_no'', AnyInt batchNo),
                        (''parallel_plan'', AnyBool True)]) (pa_ExecutionContract artifact);
          hints = map_set_all
                    ([(''root_task_id'', AnyString (t_ID rootTask)), (''plan_step_id'', AnyString (pa_TaskID artifact)),
                      (''plan_batch_no'', AnyInt batchNo), (''parallel_plan'', AnyBool True)] @ shared)
                    (t_RoutingHints rootTask)
      in rootTask\<lparr>t_ID := pa_TaskID artifact, t_SessionID := sessionID, t_ParentTaskID := t_ID rootTask,
              t_Type := taskTypeForCapability (t_Type rootTask) (pa_Capability artifact),
              t_RequiredCapability := pa_Capability artifact,
              t_AssignedProvider := pa_Provider artifact, t_AssignedModel := pa_ModelName artifact,
              t_Input := (t_Input rootTask)\<lparr>ti_Description := pa_Title artifact, ti_Files := pa_Files artifact\<rparr>,
              t_Dependencies := pa_Dependencies artifact,
              t_BranchID := firstNonEmptyString [pa_BranchID artifact, pa_TaskID artifact],
              t_DraftLayer := pa_DraftLayer artifact, t_EstimatedCost := pa_EstimatedCost artifact,
              t_ExecutionContract := contract,
              t_ResumeToken := firstNonEmptyString [t_ResumeToken rootTask, pa_TaskID artifact],
              t_RoutingHints := hints\<rparr>)"

definition isSuccessfulPlanStatus :: "TaskStatus \<Rightarrow> bool" where
  "isSuccessfulPlanStatus status \<longleftrightarrow> status = TaskStatusCompleted \<or> status = TaskStatusDone"

definition validatePlanWorkflow :: "WorkflowRecord \<Rightarrow> string option" where
  "validatePlanWorkflow record =
     (let taskID = t_ID (wf_Task record); acc = wf_Acceptance record in
      if \<not> isSuccessfulPlanStatus (ta_Status acc)
      then let reason = TrimSpace (ta_Reason acc);
               reason = (case wf_Result record of
                           Some r \<Rightarrow> if reason = [] then TrimSpace (ro_Summary (ar_Output r)) else reason
                         | None \<Rightarrow> reason);
               reason = firstNonEmptyString [reason, ''workflow did not reach a successful terminal status'']
           in Some (''plan task '' @ taskID @ '' finished with status ''
                    @ taskStatusText (ta_Status acc) @ '': '' @ reason)
      else (case wf_Result record of
              None \<Rightarrow> None
            | Some r \<Rightarrow>
                if \<not> isSuccessfulPlanStatus (ar_Status r)
                then let reason = firstNonEmptyString [TrimSpace (ro_Summary (ar_Output r)),
                                    ''agent result did not reach a successful terminal status'']
                     in Some (''plan task '' @ taskID @ '' produced result status ''
                              @ taskStatusText (ar_Status r) @ '': '' @ reason)
                else None))"

definition workflowSummary :: "WorkflowRecord \<Rightarrow> go_map" where
  "workflowSummary record =
     (let acc = wf_Acceptance record in
      [(''task_id'', AnyString (t_ID (wf_Task record))),
       (''status'', AnyString (taskStatusText (ta_Status acc))),
       (''agent_id'', AnyString (ta_AgentID acc)), (''provider'', AnyString (ta_Provider acc)),
       (''model_name'', AnyString (ta_ModelName acc)), (''capability'', AnyString (ta_Capability acc)),
       (''reason'', AnyString (ta_Reason acc)), (''updated_at'', AnyInt (wf_UpdatedAt record)),
       (''dependencies'', AnyStrings (t_Dependencies (wf_Task record)))]
      @ (case wf_Result record of
           None \<Rightarrow> []
         | Some r \<Rightarrow>
             [(''result_status'', AnyString (taskStatusText (ar_Status r))),
              (''confidence'', AnyFloat (ar_Confidence r)),
              (''files_changed'', AnyStrings (ro_FilesChanged (ar_Output r))),
              (''commands_run'', AnyStrings (ro_CommandsRun (ar_Output r))),
              (''summary'', AnyString (ro_Summary (ar_Output r)))]
             @ (if ar_Errors r \<noteq> [] then [(''errors'', AnyStrings (ar_Errors r))] else [])))"

section \<open>Saving and loading checkpoints\<close>

definition checkpointBranchName :: "string \<Rightarrow> string" where
  "checkpointBranchName rootTaskID = ''parallel_plan:'' @ rootTaskID"

definition checkpointStaticBranchName :: "string \<Rightarrow> string" where
  "checkpointStaticBranchName rootTaskID = ''parallel_plan_static:'' @ rootTaskID"

definition parallelPlanRuntimePath :: "string \<Rightarrow> string" where
  "parallelPlanRuntimePath rootTaskID = ''parallel_plan/'' @ rootTaskID"

definition parallelPlanStaticPath :: "string \<Rightarrow> string" where
  "parallelPlanStaticPath rootTaskID = ''parallel_plan_static/'' @ rootTaskID"

text \<open>
  The two maps a checkpoint is split into, with their keys as fields: the runtime part changes
  with every task, the static part holds the root task, the plan and its artifact.
\<close>

datatype CheckpointPayload =
    RuntimePayload
      (rp_Kind: string) (rp_RootTaskID: string) (rp_SessionID: string) (rp_Branch: string)
      (rp_PendingTaskIDs: "string list") (rp_CompletedTaskIDs: "string list")
      (rp_ResultsByTaskID: go_map) (rp_BatchNo: int) (rp_Status: ParallelPlanStatus)
      (rp_UpdatedAt: time)
  | StaticPayload
      (sp_Kind: string) (sp_RootTaskID: string) (sp_SessionID: string) (sp_Branch: string)
      (sp_RootTask: Task) (sp_Plan: ExecutionPlan) (sp_PlanArtifact: PlanArtifact)

text \<open>The operations of \<open>state.Store\<close> and of the VFS manager that the planner calls.\<close>

record 'w plan_store =
  st_SaveSessionState :: "(string \<Rightarrow> string \<Rightarrow> CheckpointPayload \<Rightarrow> string \<Rightarrow> string \<Rightarrow> 'w \<Rightarrow> string option \<times> 'w) option"
  st_GetSessionState :: "string \<Rightarrow> string \<Rightarrow> 'w \<Rightarrow> string + CheckpointPayload option"
  st_WriteCheckpoint :: "(string \<Rightarrow> string \<Rightarrow> CheckpointPayload \<Rightarrow> go_map \<Rightarrow> 'w \<Rightarrow> string option \<times> 'w) option"
  st_ReadCheckpoint :: "string \<Rightarrow> 'w \<Rightarrow> string + CheckpointPayload option"

definition savePayload ::
  "'w plan_store \<Rightarrow> string \<Rightarrow> string \<Rightarrow> string \<Rightarrow> string \<Rightarrow> string \<Rightarrow> go_map \<Rightarrow> CheckpointPayload \<Rightarrow> 'w
   \<Rightarrow> string option \<times> 'w" where
  "savePayload st sessionID branch contextVersion path taskID metadata payload w =
     (let (err, w) = (case st_SaveSessionState st of
                        None \<Rightarrow> (None, w)
                      | Some save \<Rightarrow> save sessionID branch payload ''parallel_plan'' contextVersion w)
      in case err of
           Some e \<Rightarrow> (Some e, w)
         | None \<Rightarrow> (case st_WriteCheckpoint st of
                      None \<Rightarrow> (None, w)
                    | Some write \<Rightarrow> write path taskID payload metadata w))"

definition parallelStatusText :: "ParallelPlanStatus \<Rightarrow> string" where
  "parallelStatusText s =
     (case s of ParallelPlanStatusPlanned \<Rightarrow> ''planned'' | ParallelPlanStatusRunning \<Rightarrow> ''running''
      | ParallelPlanStatusBlocked \<Rightarrow> ''blocked'' | ParallelPlanStatusFailed \<Rightarrow> ''failed''
      | ParallelPlanStatusCompleted \<Rightarrow> ''completed'' | ParallelPlanStatusOther t \<Rightarrow> t)"

definition saveParallelCheckpoint ::
  "'w plan_store \<Rightarrow> ParallelPlanCheckpoint \<Rightarrow> 'w \<Rightarrow> string option \<times> 'w" where
  "saveParallelCheckpoint st ck w =
     savePayload st (ck_SessionID ck) (ck_Branch ck) ''checkpoint_runtime''
       (parallelPlanRuntimePath (ck_RootTaskID ck)) (ck_RootTaskID ck)
       [(''checkpoint_kind'', AnyString ''parallel_plan_runtime''),
        (''session_id'', AnyString (ck_SessionID ck)), (''branch'', AnyString (ck_Branch ck)),
        (''status'', AnyString (parallelStatusText (ck_Status ck))),
        (''batch_no'', AnyInt (ck_BatchNo ck))]
       (RuntimePayload (ck_Kind ck) (ck_RootTaskID ck) (ck_SessionID ck) (ck_Branch ck)
          (ck_PendingTaskIDs ck) (ck_CompletedTaskIDs ck) (ck_ResultsByTaskID ck) (ck_BatchNo ck)
          (ck_Status ck) (ck_UpdatedAt ck)) w"

definition saveParallelCheckpointStatic ::
  "'w plan_store \<Rightarrow> ParallelPlanCheckpoint \<Rightarrow> 'w \<Rightarrow> string option \<times> 'w" where
  "saveParallelCheckpointStatic st ck w =
     savePayload st (ck_SessionID ck) (checkpointStaticBranchName (ck_RootTaskID ck)) ''checkpoint_static''
       (parallelPlanStaticPath (ck_RootTaskID ck)) (ck_RootTaskID ck)
       [(''checkpoint_kind'', AnyString ''parallel_plan_static''),
        (''session_id'', AnyString (ck_SessionID ck)), (''branch'', AnyString (ck_Branch ck))]
       (StaticPayload (ck_Kind ck) (ck_RootTaskID ck) (ck_SessionID ck) (ck_Branch ck)
          (ck_RootTask ck) (ck_Plan ck) (ck_PlanArtifact ck)) w"

definition zero_ModelSelection :: ModelSelection where
  "zero_ModelSelection = \<lparr>ms_Provider = [], ms_ModelName = [], ms_Complexity = ComplexityOther [],
     ms_RequiresSecondaryReview = False, ms_Reason = [], ms_DetectedKeywords = [],
     ms_MatchedHighRiskRules = [], ms_MatchedLowRiskExemptions = [], ms_SupportLanes = [],
     ms_SelectionTrace = []\<rparr>"

definition zero_ExecutionPlan :: ExecutionPlan where
  "zero_ExecutionPlan = \<lparr>ep_TaskID = [], ep_Complexity = ComplexityOther [],
     ep_PrimaryCapability = [], ep_Selection = zero_ModelSelection, ep_Steps = [],
     ep_CreatedAt = zero_time\<rparr>"

definition zero_PlanArtifact :: PlanArtifact where
  "zero_PlanArtifact = \<lparr>pt_RootTaskID = [], pt_PrimaryCapability = [], pt_TaskCount = 0,
     pt_Tasks = [], pt_ParallelGroups = [], pt_Handoffs = [], pt_CreatedAt = zero_time\<rparr>"

definition zero_ParallelPlanCheckpoint :: ParallelPlanCheckpoint where
  "zero_ParallelPlanCheckpoint = \<lparr>ck_Kind = [], ck_RootTaskID = [], ck_SessionID = [],
     ck_Branch = [], ck_RootTask = zero_Task, ck_Plan = zero_ExecutionPlan,
     ck_PlanArtifact = zero_PlanArtifact, ck_PendingTaskIDs = [], ck_CompletedTaskIDs = [],
     ck_ResultsByTaskID = [], ck_BatchNo = 0, ck_Status = ParallelPlanStatusOther [],
     ck_UpdatedAt = zero_time\<rparr>"

text \<open>
  \<open>decodeSessionState\<close> writes a map as JSON and reads it back into a checkpoint: a key of the
  map sets the field it names and every other field keeps its zero value. The generic map of
  results goes through JSON as well; what that makes of it (numbers become floats, typed slices
  become generic ones) is the parameter \<open>json\<close>.
\<close>

fun decodeSessionState :: "(go_map \<Rightarrow> go_map) \<Rightarrow> CheckpointPayload \<Rightarrow> ParallelPlanCheckpoint" where
  "decodeSessionState json (RuntimePayload kind rootID session branch pending completed results batch status updated) =
     zero_ParallelPlanCheckpoint\<lparr>ck_Kind := kind, ck_RootTaskID := rootID, ck_SessionID := session,
       ck_Branch := branch, ck_PendingTaskIDs := pending, ck_CompletedTaskIDs := completed,
       ck_ResultsByTaskID := json results, ck_BatchNo := batch, ck_Status := status,
       ck_UpdatedAt := updated\<rparr>"
| "decodeSessionState json (StaticPayload kind rootID session branch task plan artifact) =
     zero_ParallelPlanCheckpoint\<lparr>ck_Kind := kind, ck_RootTaskID := rootID, ck_SessionID := session,
       ck_Branch := branch, ck_RootTask := task, ck_Plan := plan, ck_PlanArtifact := artifact\<rparr>"

text \<open>The lookup both loaders make: the VFS first, then the session store.\<close>

definition readPayload ::
  "'w plan_store \<Rightarrow> string \<Rightarrow> string \<Rightarrow> string \<Rightarrow> 'w \<Rightarrow> string + CheckpointPayload option" where
  "readPayload st path sessionID branch w =
     (let fromStore = (if Option.is_none (st_SaveSessionState st) then Inr None
                       else st_GetSessionState st sessionID branch w)
      in if Option.is_none (st_WriteCheckpoint st) then fromStore
         else (case st_ReadCheckpoint st path w of
                 Inl e \<Rightarrow> Inl e
               | Inr (Some p) \<Rightarrow> Inr (Some p)
               | Inr None \<Rightarrow> fromStore))"

definition loadParallelCheckpointStatic ::
  "(go_map \<Rightarrow> go_map) \<Rightarrow> 'w plan_store \<Rightarrow> string \<Rightarrow> string \<Rightarrow> 'w \<Rightarrow> string + ParallelPlanCheckpoint option" where
  "loadParallelCheckpointStatic json st sessionID rootTaskID w =
     (if sessionID = [] \<or> rootTaskID = [] then Inr None
      else map_sum id (map_option (decodeSessionState json))
             (readPayload st (parallelPlanStaticPath rootTaskID) sessionID
                (checkpointStaticBranchName rootTaskID) w))"

definition hydrateParallelCheckpoint ::
  "(go_map \<Rightarrow> go_map) \<Rightarrow> 'w plan_store \<Rightarrow> ParallelPlanCheckpoint \<Rightarrow> 'w \<Rightarrow> string + ParallelPlanCheckpoint" where
  "hydrateParallelCheckpoint json st ck w =
     (if t_ID (ck_RootTask ck) \<noteq> [] \<and> pt_Tasks (ck_PlanArtifact ck) \<noteq> [] then Inr ck
      else (case loadParallelCheckpointStatic json st (ck_SessionID ck) (ck_RootTaskID ck) w of
              Inl e \<Rightarrow> Inl e
            | Inr None \<Rightarrow> Inr ck
            | Inr (Some s) \<Rightarrow>
                let ck = (if t_ID (ck_RootTask ck) = [] then ck\<lparr>ck_RootTask := ck_RootTask s\<rparr> else ck);
                    ck = (if ep_TaskID (ck_Plan ck) = [] \<and> ep_Steps (ck_Plan ck) = []
                          then ck\<lparr>ck_Plan := ck_Plan s\<rparr> else ck);
                    ck = (if pt_Tasks (ck_PlanArtifact ck) = []
                          then ck\<lparr>ck_PlanArtifact := ck_PlanArtifact s\<rparr> else ck)
                in Inr ck))"

definition LoadParallelCheckpoint ::
  "(go_map \<Rightarrow> go_map) \<Rightarrow> 'w plan_store \<Rightarrow> string \<Rightarrow> string \<Rightarrow> 'w \<Rightarrow> string + ParallelPlanCheckpoint option" where
  "LoadParallelCheckpoint json st sessionID rootTaskID w =
     (if sessionID = [] \<or> rootTaskID = [] then Inr None
      else (case readPayload st (parallelPlanRuntimePath rootTaskID) sessionID
                   (checkpointBranchName rootTaskID) w of
              Inl e \<Rightarrow> Inl e
            | Inr None \<Rightarrow> Inr None
            | Inr (Some p) \<Rightarrow>
                let ck = decodeSessionState json p;
                    ck = (if ck_RootTaskID ck = [] then ck\<lparr>ck_RootTaskID := rootTaskID\<rparr> else ck);
                    ck = (if ck_SessionID ck = [] then ck\<lparr>ck_SessionID := sessionID\<rparr> else ck);
                    ck = (if ck_Branch ck = [] then ck\<lparr>ck_Branch := checkpointBranchName rootTaskID\<rparr> else ck)
                in map_sum id Some (hydrateParallelCheckpoint json st ck w)))"

section \<open>Running a plan\<close>

text \<open>
  The state of the loop of \<open>executeParallelPlan\<close>: the checkpoint, the map of running tasks by id,
  the workflows of the finished ones, and the tasks submitted so far (one per goroutine started).
\<close>

record 'w PlanExec =
  px_ck :: ParallelPlanCheckpoint
  px_running :: "(string \<times> PlanTaskArtifact) list"
  px_workflows :: "WorkflowRecord list"
  px_submitted :: "Task list"
  px_world :: 'w

text \<open>An answer on the result channel: which running task, when, its record and its error.\<close>

record Arrival =
  av_pick :: nat
  av_now :: time
  av_record :: WorkflowRecord
  av_err :: "string option"

text \<open>
  How a call ends: it returns a run, it returns an error (with the checkpoint as it was last
  written), or it still waits for running tasks when the arrivals are used up.
\<close>

datatype 'w PlanOutcome =
    PlanReturned ExecutionPlanRun 'w
  | PlanError string ParallelPlanCheckpoint 'w
  | PlanWaiting "'w PlanExec"

definition startOne :: "PlanTaskArtifact \<Rightarrow> 'w PlanExec \<Rightarrow> 'w PlanExec" where
  "startOne artifact x =
     (if map_of (px_running x) (pa_TaskID artifact) \<noteq> None then x
      else x\<lparr>px_running := map_set (pa_TaskID artifact) artifact (px_running x),
             px_submitted := px_submitted x @
               [buildPlanTask (ck_RootTask (px_ck x)) artifact (ck_BatchNo (px_ck x))]\<rparr>)"

definition startReady :: "'w PlanExec \<Rightarrow> 'w PlanExec" where
  "startReady x =
     (let ck = px_ck x;
          ready = scheduleReadyArtifactsWithConflicts
                    (readyPlanArtifacts (pt_Tasks (ck_PlanArtifact ck)) (ck_PendingTaskIDs ck)
                       (ck_CompletedTaskIDs ck))
                    (collectArtifactConflictKeys (px_running x))
      in fold startOne ready x)"

definition failPlan :: "'w plan_store \<Rightarrow> time \<Rightarrow> string \<Rightarrow> string \<Rightarrow> 'w PlanExec \<Rightarrow> 'w PlanOutcome" where
  "failPlan st now taskID err x =
     (let ck = px_ck x;
          ck = ck\<lparr>ck_ResultsByTaskID := map_set taskID
                    (AnyMap [(''task_id'', AnyString taskID), (''status'', AnyString ''failed''),
                             (''error'', AnyString err)]) (ck_ResultsByTaskID ck),
                  ck_Status := ParallelPlanStatusFailed, ck_UpdatedAt := now\<rparr>
      in PlanError err ck (snd (saveParallelCheckpoint st ck (px_world x))))"

definition receiveResult :: "'w plan_store \<Rightarrow> Arrival \<Rightarrow> 'w PlanExec \<Rightarrow> 'w PlanOutcome + 'w PlanExec" where
  "receiveResult st a x =
     (let artifact = snd (px_running x ! (av_pick a mod length (px_running x)));
          taskID = pa_TaskID artifact;
          x = x\<lparr>px_running := map_delete taskID (px_running x)\<rparr>
      in case av_err a of
           Some err \<Rightarrow> Inl (failPlan st (av_now a) taskID err x)
         | None \<Rightarrow>
             (case validatePlanWorkflow (av_record a) of
                Some err \<Rightarrow> Inl (failPlan st (av_now a) taskID err x)
              | None \<Rightarrow>
                  let ck = px_ck x;
                      ck = ck\<lparr>ck_ResultsByTaskID := map_set taskID (AnyMap (workflowSummary (av_record a)))
                                (ck_ResultsByTaskID ck),
                              ck_PendingTaskIDs := removePending (ck_PendingTaskIDs ck) taskID,
                              ck_CompletedTaskIDs := ck_CompletedTaskIDs ck @ [taskID],
                              ck_BatchNo := ck_BatchNo ck + 1, ck_UpdatedAt := av_now a\<rparr>;
                      (err, w) = saveParallelCheckpoint st ck (px_world x)
                  in case err of
                       Some e \<Rightarrow> Inl (PlanError e ck w)
                     | None \<Rightarrow> Inr (x\<lparr>px_ck := ck, px_workflows := px_workflows x @ [av_record a],
                                      px_world := w\<rparr>)))"

definition blockPlan :: "'w plan_store \<Rightarrow> time \<Rightarrow> 'w PlanExec \<Rightarrow> 'w PlanOutcome" where
  "blockPlan st now x =
     (let ck = (px_ck x)\<lparr>ck_Status := ParallelPlanStatusBlocked, ck_UpdatedAt := now\<rparr>
      in PlanError (''parallel plan '' @ ck_RootTaskID ck @ '' is blocked by unresolved dependencies'')
           ck (snd (saveParallelCheckpoint st ck (px_world x))))"

definition finishPlan :: "'w plan_store \<Rightarrow> time \<Rightarrow> time \<Rightarrow> 'w PlanExec \<Rightarrow> 'w PlanOutcome" where
  "finishPlan st startedAt now x =
     (let ck = (px_ck x)\<lparr>ck_Status := ParallelPlanStatusCompleted, ck_UpdatedAt := now\<rparr>;
          (err, w) = saveParallelCheckpoint st ck (px_world x)
      in case err of
           Some e \<Rightarrow> PlanError e ck w
         | None \<Rightarrow> PlanReturned \<lparr>er_Task = ck_RootTask ck, er_Plan = ck_Plan ck,
             er_PlanArtifact = ck_PlanArtifact ck, er_Checkpoint = ck, er_Workflows = px_workflows x,
             er_StartedAt = startedAt, er_CompletedAt = now\<rparr> w)"

text \<open>The loop, one arrival per turn; \<open>now\<close> is the time at the head of the loop.\<close>

fun planLoop :: "'w plan_store \<Rightarrow> time \<Rightarrow> time \<Rightarrow> Arrival list \<Rightarrow> 'w PlanExec \<Rightarrow> 'w PlanOutcome" where
  "planLoop st startedAt now arrivals x =
     (if ck_PendingTaskIDs (px_ck x) = [] \<and> px_running x = [] then finishPlan st startedAt now x
      else
        let x = startReady x in
        if px_running x = [] then blockPlan st now x
        else (case arrivals of
                [] \<Rightarrow> PlanWaiting x
              | a # rest \<Rightarrow> (case receiveResult st a x of
                               Inl outcome \<Rightarrow> outcome
                             | Inr x \<Rightarrow> planLoop st startedAt (av_now a) rest x)))"

declare planLoop.simps [simp del]

definition prepareCheckpoint :: "time \<Rightarrow> ParallelPlanCheckpoint \<Rightarrow> ParallelPlanCheckpoint" where
  "prepareCheckpoint now ck =
     (let ck = (if ck_SessionID ck = [] then ck\<lparr>ck_SessionID := t_SessionID (ck_RootTask ck)\<rparr> else ck);
          ck = (if ck_SessionID ck = [] then ck\<lparr>ck_SessionID := ck_RootTaskID ck\<rparr> else ck);
          ck = (if ck_Branch ck = [] then ck\<lparr>ck_Branch := checkpointBranchName (ck_RootTaskID ck)\<rparr> else ck);
          ck = (if t_ID (ck_RootTask ck) = []
                then ck\<lparr>ck_RootTask := zero_Task\<lparr>t_ID := ck_RootTaskID ck, t_SessionID := ck_SessionID ck,
                          t_Type := TaskTypePlan\<rparr>\<rparr> else ck);
          ck = (if t_SessionID (ck_RootTask ck) = []
                then ck\<lparr>ck_RootTask := (ck_RootTask ck)\<lparr>t_SessionID := ck_SessionID ck\<rparr>\<rparr> else ck);
          ck = (if t_CreatedAt (ck_RootTask ck) = zero_time
                then ck\<lparr>ck_RootTask := (ck_RootTask ck)\<lparr>t_CreatedAt := now\<rparr>\<rparr> else ck)
      in if ck_BatchNo ck \<le> 0 then ck\<lparr>ck_BatchNo := 1\<rparr> else ck)"

definition executeParallelPlan ::
  "'w plan_store \<Rightarrow> time \<Rightarrow> Arrival list \<Rightarrow> ParallelPlanCheckpoint \<Rightarrow> 'w \<Rightarrow> 'w PlanOutcome" where
  "executeParallelPlan st now arrivals ck w =
     (if ck_RootTaskID ck = [] then PlanError ''parallel checkpoint is missing root task id'' ck w
      else
        let ck = prepareCheckpoint now ck;
            (err, w) = saveParallelCheckpointStatic st ck w
        in case err of
             Some e \<Rightarrow> PlanError e ck w
           | None \<Rightarrow>
               if ck_Status ck = ParallelPlanStatusCompleted
               then PlanReturned \<lparr>er_Task = ck_RootTask ck, er_Plan = ck_Plan ck,
                      er_PlanArtifact = ck_PlanArtifact ck, er_Checkpoint = ck, er_Workflows = [],
                      er_StartedAt = now, er_CompletedAt = ck_UpdatedAt ck\<rparr> w
               else
                 let ck = ck\<lparr>ck_Status := ParallelPlanStatusRunning, ck_UpdatedAt := now\<rparr>;
                     (err, w) = saveParallelCheckpoint st ck w
                 in case err of
                      Some e \<Rightarrow> PlanError e ck w
                    | None \<Rightarrow> planLoop st now now arrivals
                        \<lparr>px_ck = ck, px_running = [], px_workflows = [], px_submitted = [],
                         px_world = w\<rparr>)"

definition previewTask :: "string \<Rightarrow> time \<Rightarrow> Task \<Rightarrow> Task" where
  "previewTask freshID now task =
     (let task = (if t_ID task = [] then task\<lparr>t_ID := freshID\<rparr> else task);
          task = (if t_SessionID task = [] then task\<lparr>t_SessionID := t_ID task\<rparr> else task);
          task = (if t_CreatedAt task = zero_time then task\<lparr>t_CreatedAt := now\<rparr> else task);
          task = (if t_Priority task = PriorityOther [] then task\<lparr>t_Priority := PriorityNormal\<rparr> else task);
          task = (if t_MemoryScope task = [] then task\<lparr>t_MemoryScope := ''session''\<rparr> else task)
      in if t_CachePolicy task = [] then task\<lparr>t_CachePolicy := ''read_write''\<rparr> else task)"

definition previewCheckpoint ::
  "(string \<Rightarrow> string) \<Rightarrow> (Task \<Rightarrow> ModelSelection) \<Rightarrow> string \<Rightarrow> time \<Rightarrow> Task \<Rightarrow> ParallelPlanCheckpoint" where
  "previewCheckpoint getenv select freshID now task =
     (let (task, plan) = Prepare getenv select now (previewTask freshID now task);
          artifact = buildPlanArtifact now task plan
      in \<lparr>ck_Kind = ''parallel_plan_checkpoint'', ck_RootTaskID = t_ID task,
          ck_SessionID = t_SessionID task, ck_Branch = checkpointBranchName (t_ID task),
          ck_RootTask = task, ck_Plan = plan, ck_PlanArtifact = artifact,
          ck_PendingTaskIDs = map pa_TaskID (pt_Tasks artifact), ck_CompletedTaskIDs = [],
          ck_ResultsByTaskID = [], ck_BatchNo = 1, ck_Status = ParallelPlanStatusPlanned,
          ck_UpdatedAt = now\<rparr>)"

definition PreviewExecutionPlan ::
  "(string \<Rightarrow> string) \<Rightarrow> (Task \<Rightarrow> ModelSelection) \<Rightarrow> 'w plan_store \<Rightarrow> string \<Rightarrow> time \<Rightarrow> Task \<Rightarrow> 'w
   \<Rightarrow> (string + ExecutionPlanPreview) \<times> 'w" where
  "PreviewExecutionPlan getenv select st freshID now task w =
     (let ck = previewCheckpoint getenv select freshID now task;
          (err, w) = saveParallelCheckpointStatic st ck w
      in case err of
           Some e \<Rightarrow> (Inl e, w)
         | None \<Rightarrow>
             let (err, w) = saveParallelCheckpoint st ck w
             in case err of
                  Some e \<Rightarrow> (Inl e, w)
                | None \<Rightarrow> (Inr \<lparr>ev_Task = ck_RootTask ck, ev_Plan = ck_Plan ck,
                    ev_PlanArtifact = ck_PlanArtifact ck, ev_PendingTaskIDs = ck_PendingTaskIDs ck,
                    ev_CheckpointBranch = ck_Branch ck, ev_CreatedAt = ck_UpdatedAt ck\<rparr>, w))"

definition ResumeExecutionPlan ::
  "(go_map \<Rightarrow> go_map) \<Rightarrow> 'w plan_store \<Rightarrow> time \<Rightarrow> Arrival list \<Rightarrow> string \<Rightarrow> string \<Rightarrow> 'w \<Rightarrow> 'w PlanOutcome" where
  "ResumeExecutionPlan json st now arrivals sessionID rootTaskID w =
     (case LoadParallelCheckpoint json st sessionID rootTaskID w of
        Inl e \<Rightarrow> PlanError e zero_ParallelPlanCheckpoint w
      | Inr None \<Rightarrow> PlanError (''parallel checkpoint not found: '' @ rootTaskID)
                      zero_ParallelPlanCheckpoint w
      | Inr (Some ck) \<Rightarrow> executeParallelPlan st now arrivals ck w)"

definition RunExecutionPlan ::
  "(go_map \<Rightarrow> go_map) \<Rightarrow> (string \<Rightarrow> string) \<Rightarrow> (Task \<Rightarrow> ModelSelection) \<Rightarrow> 'w plan_store \<Rightarrow> string
   \<Rightarrow> time \<Rightarrow> Arrival list \<Rightarrow> Task \<Rightarrow> 'w \<Rightarrow> 'w PlanOutcome" where
  "RunExecutionPlan json getenv select st freshID now arrivals task w =
     (case PreviewExecutionPlan getenv select st freshID now task w of
        (Inl e, w) \<Rightarrow> PlanError e zero_ParallelPlanCheckpoint w
      | (Inr preview, w) \<Rightarrow>
          ResumeExecutionPlan json st now arrivals (t_SessionID (ev_Task preview)) (t_ID (ev_Task preview)) w)"

section \<open>Scheduling\<close>

lemma hasConflictKeys_iff: "hasConflictKeys task used \<longleftrightarrow> conflictKeys task \<inter> used \<noteq> {}"
  by (auto simp: hasConflictKeys_def conflictKeys_def compactStrings_def list_ex_iff)

lemma collectArtifactConflictKeys_eq:
  "collectArtifactConflictKeys running = (\<Union>(k, a) \<in> set running. conflictKeys a)"
  by (induction running) (fastforce simp: collectArtifactConflictKeys_def registerConflictKeys_def)+

abbreviation (input) compatible :: "PlanTaskArtifact \<Rightarrow> PlanTaskArtifact \<Rightarrow> bool" where
  "compatible a b \<equiv> conflictKeys a \<inter> conflictKeys b = {}"

lemma scheduleLoop_props:
  "set (scheduleLoop tasks used) \<subseteq> set tasks
   \<and> (\<forall>t \<in> set (scheduleLoop tasks used). conflictKeys t \<inter> used = {})
   \<and> sorted_wrt compatible (scheduleLoop tasks used)"
proof (induction tasks used rule: scheduleLoop.induct)
  case (2 task tasks used)
  show ?case
  proof (cases "hasConflictKeys task used")
    case True
    then show ?thesis using 2(1) by auto
  next
    case False
    define r where "r = scheduleLoop tasks (registerConflictKeys task used)"
    have r: "set r \<subseteq> set tasks" "\<forall>t \<in> set r. conflictKeys t \<inter> (used \<union> conflictKeys task) = {}"
      "sorted_wrt compatible r"
      using 2(2) [OF False] unfolding r_def registerConflictKeys_def by auto
    have "scheduleLoop (task # tasks) used = task # r"
      using False by (simp add: r_def)
    moreover have "conflictKeys task \<inter> used = {}"
      using False by (simp add: hasConflictKeys_iff)
    ultimately show ?thesis
      using r by (simp only: list.set sorted_wrt.simps) blast
  qed
qed simp

lemma schedule_props:
  assumes "s = scheduleReadyArtifactsWithConflicts ready used"
  shows "set s \<subseteq> set ready" and "\<forall>t \<in> set s. conflictKeys t \<inter> used = {}" and "sorted_wrt compatible s"
proof -
  have "set s \<subseteq> set ready \<and> (\<forall>t \<in> set s. conflictKeys t \<inter> used = {}) \<and> sorted_wrt compatible s"
  proof (cases "length ready \<le> 1")
    case True
    then consider "ready = []" | t where "ready = [t]"
      by (cases ready) auto
    then show ?thesis
      by cases (auto simp: assms scheduleReadyArtifactsWithConflicts_def hasConflictKeys_iff)
  next
    case False
    define so where "so = sort_key (\<lambda>t. (pa_Weight t, length (pa_Files t), pa_TaskID t)) ready"
    have "s = scheduleLoop so used" and "set so = set ready"
      using False by (simp_all add: assms scheduleReadyArtifactsWithConflicts_def so_def)
    then show ?thesis
      using scheduleLoop_props [of so used] by simp
  qed
  then show "set s \<subseteq> set ready" and "\<forall>t \<in> set s. conflictKeys t \<inter> used = {}" and "sorted_wrt compatible s"
    by auto
qed

text \<open>With no task running, a ready task is always scheduled: the schedule starts the first one.\<close>

lemma schedule_progress: "ready \<noteq> [] \<Longrightarrow> scheduleReadyArtifactsWithConflicts ready {} \<noteq> []"
proof -
  assume ne: "ready \<noteq> []"
  have nc: "\<not> hasConflictKeys t {}" for t
    by (simp add: hasConflictKeys_iff)
  define so where "so = sort_key (\<lambda>t. (pa_Weight t, length (pa_Files t), pa_TaskID t)) ready"
  have "so \<noteq> []"
    using ne unfolding so_def by (metis length_0_conv length_sort)
  then have "scheduleLoop so {} \<noteq> []"
    by (cases so) (simp_all add: nc)
  then show ?thesis
    using ne by (simp add: scheduleReadyArtifactsWithConflicts_def nc so_def)
qed

lemma set_readyPlanArtifacts:
  "t \<in> set (readyPlanArtifacts tasks pending completed) \<longleftrightarrow>
     t \<in> set tasks \<and> pa_TaskID t \<in> completedSet pending \<and> set (pa_Dependencies t) \<subseteq> completedSet completed"
  by (auto simp: readyPlanArtifacts_def list_all_iff)

lemma completedSet_mono: "completedSet xs \<subseteq> completedSet (xs @ ys)"
  by (auto simp: completedSet_def compactStrings_def)

lemma completedSet_trimmed: "k \<in> completedSet xs \<Longrightarrow> TrimSpace k = k \<and> k \<noteq> []"
  by (auto simp: completedSet_def compactStrings_def)

lemma completedSet_removePending:
  assumes "k \<in> completedSet xs" and "k \<noteq> tid" and "TrimSpace tid = tid"
  shows "k \<in> completedSet (removePending xs tid)"
  using assms by (auto simp: completedSet_def compactStrings_def removePending_def)

lemma completedSet_id:
  "\<forall>k \<in> set xs. TrimSpace k = k \<and> k \<noteq> [] \<Longrightarrow> completedSet xs = set xs"
  by (force simp: completedSet_def compactStrings_def)

section \<open>The invariant of the loop\<close>

abbreviation (input) px_tasks :: "'w PlanExec \<Rightarrow> PlanTaskArtifact list" where
  "px_tasks x \<equiv> pt_Tasks (ck_PlanArtifact (px_ck x))"

definition runnable :: "ParallelPlanCheckpoint \<Rightarrow> PlanTaskArtifact \<Rightarrow> bool" where
  "runnable ck a \<longleftrightarrow> a \<in> set (pt_Tasks (ck_PlanArtifact ck))
     \<and> pa_TaskID a \<in> completedSet (ck_PendingTaskIDs ck)
     \<and> set (pa_Dependencies a) \<subseteq> completedSet (ck_CompletedTaskIDs ck)"

definition exec_inv :: "'w PlanExec \<Rightarrow> bool" where
  "exec_inv x \<longleftrightarrow> distinct (map fst (px_running x))
     \<and> (\<forall>k a. (k, a) \<in> set (px_running x) \<longrightarrow> k = pa_TaskID a \<and> runnable (px_ck x) a)
     \<and> (\<forall>k a k' a'. (k, a) \<in> set (px_running x) \<longrightarrow> (k', a') \<in> set (px_running x) \<longrightarrow> k \<noteq> k'
          \<longrightarrow> compatible a a')"

lemma startOne_eq:
  "startOne a x = (if pa_TaskID a \<in> fst ` set (px_running x) then x
     else x\<lparr>px_running := px_running x @ [(pa_TaskID a, a)],
            px_submitted := px_submitted x @
              [buildPlanTask (ck_RootTask (px_ck x)) a (ck_BatchNo (px_ck x))]\<rparr>)"
  by (auto simp: startOne_def map_set_fresh map_of_eq_None_iff)

lemma px_ck_startOne [simp]:
  "px_ck (startOne a x) = px_ck x" "px_workflows (startOne a x) = px_workflows x"
  "px_world (startOne a x) = px_world x"
  by (simp_all add: startOne_eq)

lemma px_ck_fold_startOne [simp]:
  "px_ck (fold startOne as x) = px_ck x" "px_workflows (fold startOne as x) = px_workflows x"
  "px_world (fold startOne as x) = px_world x"
  by (induction as arbitrary: x) simp_all

lemma exec_inv_startOne:
  assumes "exec_inv x" and "runnable (px_ck x) a" and "\<forall>k b. (k, b) \<in> set (px_running x) \<longrightarrow> compatible a b"
  shows "exec_inv (startOne a x)"
  using assms unfolding exec_inv_def startOne_eq by (auto simp: Int_commute)

lemma exec_inv_fold_startOne:
  assumes "exec_inv x" and "\<forall>a \<in> set as. runnable (px_ck x) a"
    and "\<forall>a \<in> set as. \<forall>k b. (k, b) \<in> set (px_running x) \<longrightarrow> compatible a b" and "sorted_wrt compatible as"
  shows "exec_inv (fold startOne as x)"
  using assms
proof (induction as arbitrary: x)
  case (Cons a as)
  have "exec_inv (startOne a x)"
    using Cons.prems by (intro exec_inv_startOne) auto
  moreover have "\<forall>c \<in> set as. \<forall>k b. (k, b) \<in> set (px_running (startOne a x)) \<longrightarrow> compatible c b"
    using Cons.prems by (auto simp: startOne_eq)
  ultimately have "exec_inv (fold startOne as (startOne a x))"
    using Cons.prems by (intro Cons.IH) auto
  then show ?case by simp
qed simp

lemma startReady_fold:
  obtains as where "startReady x = fold startOne as x" "\<forall>a \<in> set as. runnable (px_ck x) a"
    "\<forall>a \<in> set as. \<forall>k b. (k, b) \<in> set (px_running x) \<longrightarrow> compatible a b" "sorted_wrt compatible as"
proof -
  define ready where "ready = readyPlanArtifacts (px_tasks x) (ck_PendingTaskIDs (px_ck x)) (ck_CompletedTaskIDs (px_ck x))"
  define as where "as = scheduleReadyArtifactsWithConflicts ready (collectArtifactConflictKeys (px_running x))"
  note s = schedule_props [OF as_def]
  have "startReady x = fold startOne as x"
    by (simp add: startReady_def Let_def as_def ready_def)
  moreover have "\<forall>a \<in> set as. runnable (px_ck x) a"
    using s(1) unfolding runnable_def ready_def by (metis set_readyPlanArtifacts subsetD)
  moreover have "\<forall>a \<in> set as. \<forall>k b. (k, b) \<in> set (px_running x) \<longrightarrow> compatible a b"
    using s(2) by (fastforce simp: collectArtifactConflictKeys_eq)
  ultimately show ?thesis
    using that s(3) by blast
qed

lemma px_ck_startReady [simp]:
  "px_ck (startReady x) = px_ck x" "px_workflows (startReady x) = px_workflows x"
  "px_world (startReady x) = px_world x"
  by (simp_all add: startReady_def Let_def)

lemma exec_inv_startReady: "exec_inv x \<Longrightarrow> exec_inv (startReady x)"
  using startReady_fold [of x] exec_inv_fold_startOne by metis

text \<open>What a successful answer does to the state.\<close>

lemma receiveResult_Inr:
  assumes "receiveResult st a x = Inr y"
  defines "art \<equiv> snd (px_running x ! (av_pick a mod length (px_running x)))"
  shows "px_running y = map_delete (pa_TaskID art) (px_running x)"
    and "ck_PlanArtifact (px_ck y) = ck_PlanArtifact (px_ck x)"
    and "ck_PendingTaskIDs (px_ck y) = removePending (ck_PendingTaskIDs (px_ck x)) (pa_TaskID art)"
    and "ck_CompletedTaskIDs (px_ck y) = ck_CompletedTaskIDs (px_ck x) @ [pa_TaskID art]"
    and "px_submitted y = px_submitted x"
    and "px_workflows y = px_workflows x @ [av_record a]"
    and "validatePlanWorkflow (av_record a) = None"
  using assms(1) unfolding art_def
  by (auto simp: receiveResult_def Let_def failPlan_def split: option.splits prod.splits)

lemma picked_running:
  "px_running x \<noteq> [] \<Longrightarrow> px_running x ! (av_pick a mod length (px_running x)) \<in> set (px_running x)"
  by (simp add: nth_mem)

lemma set_map_delete: "set (map_delete k m) = {(k', v). (k', v) \<in> set m \<and> k' \<noteq> k}"
  by (induction k m rule: map_delete.induct) auto

lemma distinct_map_delete: "distinct (map fst m) \<Longrightarrow> distinct (map fst (map_delete k m))"
  by (induction k m rule: map_delete.induct) (auto simp: set_map_delete)

lemma exec_inv_receive:
  assumes "exec_inv x" and "px_running x \<noteq> []" and "receiveResult st a x = Inr y"
  shows "exec_inv y"
proof -
  obtain k art where kart: "px_running x ! (av_pick a mod length (px_running x)) = (k, art)"
    by fastforce
  note r = receiveResult_Inr [OF assms(3), unfolded kart snd_conv]
  have "(k, art) \<in> set (px_running x)"
    using picked_running [OF assms(2)] kart by metis
  then have tid: "TrimSpace (pa_TaskID art) = pa_TaskID art"
    using assms(1) completedSet_trimmed by (auto simp: exec_inv_def runnable_def)
  have "runnable (px_ck y) b" if "(l, b) \<in> set (px_running x)" "l \<noteq> pa_TaskID art" for l b
  proof -
    have "runnable (px_ck x) b" "pa_TaskID b \<noteq> pa_TaskID art"
      using assms(1) that unfolding exec_inv_def by blast+
    then show ?thesis
      unfolding runnable_def r
      using completedSet_mono completedSet_removePending [OF _ _ tid] by blast
  qed
  then show ?thesis
    using assms(1) unfolding exec_inv_def r
    by (simp add: set_map_delete distinct_map_delete) blast
qed

section \<open>Runs of the loop\<close>

lemma running_fold_startOne: "set (px_running x) \<subseteq> set (px_running (fold startOne as x))"
proof (induction as arbitrary: x)
  case (Cons a as)
  have "set (px_running x) \<subseteq> set (px_running (startOne a x))"
    by (auto simp: startOne_eq)
  then show ?case using Cons.IH [of "startOne a x"] by auto
qed simp

text \<open>
  How the loop can end, for any property its two moves keep: it waits, it finishes, it is
  blocked, or an answer stops it.
\<close>

lemma planLoop_cases:
  assumes "P x" and "\<And>x. P x \<Longrightarrow> P (startReady x)"
    and "\<And>a x y. P x \<Longrightarrow> px_running x \<noteq> [] \<Longrightarrow> receiveResult st a x = Inr y \<Longrightarrow> P y"
  obtains (waits) y where "P y" "planLoop st s now arrivals x = PlanWaiting y"
  | (finishes) y n where "P y" "ck_PendingTaskIDs (px_ck y) = []" "px_running y = []"
      "planLoop st s now arrivals x = finishPlan st s n y"
  | (blocked) y n where "P y" "px_running (startReady y) = []" "ck_PendingTaskIDs (px_ck y) \<noteq> []"
      "planLoop st s now arrivals x = blockPlan st n (startReady y)"
  | (stopped) y a out where "P y" "px_running y \<noteq> []" "receiveResult st a y = Inl out"
      "planLoop st s now arrivals x = out"
proof -
  have mono: "px_running x = []" if "px_running (startReady x) = []" for x :: "'a PlanExec"
    using that running_fold_startOne [of x] unfolding startReady_def Let_def
    by (metis set_empty subset_empty)
  have "(\<exists>y. P y \<and> planLoop st s now arrivals x = PlanWaiting y)
    \<or> (\<exists>y n. P y \<and> ck_PendingTaskIDs (px_ck y) = [] \<and> px_running y = []
         \<and> planLoop st s now arrivals x = finishPlan st s n y)
    \<or> (\<exists>y n. P y \<and> px_running (startReady y) = [] \<and> ck_PendingTaskIDs (px_ck y) \<noteq> []
         \<and> planLoop st s now arrivals x = blockPlan st n (startReady y))
    \<or> (\<exists>y a out. P y \<and> px_running y \<noteq> [] \<and> receiveResult st a y = Inl out
         \<and> planLoop st s now arrivals x = out)"
    using assms(1)
  proof (induction arrivals arbitrary: x now)
    case Nil
    then show ?case
      using assms(2) mono [of x] by (simp add: planLoop.simps [of st s now "[]"] Let_def) blast
  next
    case (Cons a rest)
    show ?case
    proof (cases "ck_PendingTaskIDs (px_ck x) = [] \<and> px_running x = []")
      case True
      then show ?thesis using Cons.prems by (simp add: planLoop.simps [of st s now "_ # _"]) blast
    next
      case False
      show ?thesis
      proof (cases "px_running (startReady x) = []")
        case True
        then show ?thesis
          using False Cons.prems mono [of x] by (simp add: planLoop.simps [of st s now "_ # _"] Let_def) blast
      next
        case ne: False
        show ?thesis
        proof (cases "receiveResult st a (startReady x)")
          case (Inl out)
          then have "planLoop st s now (a # rest) x = out"
            using False ne by (auto simp: planLoop.simps [of st s now "_ # _"] Let_def)
          then show ?thesis using Inl ne Cons.prems assms(2) by blast
        next
          case (Inr y)
          then have "planLoop st s now (a # rest) x = planLoop st s (av_now a) rest y"
            using False ne by (auto simp: planLoop.simps [of st s now "_ # _"] Let_def)
          moreover have "P y" using Inr ne Cons.prems assms(2,3) by blast
          ultimately show ?thesis using Cons.IH [of y "av_now a"] by simp
        qed
      qed
    qed
  qed
  then show ?thesis using waits finishes blocked stopped by blast
qed

lemma exec_inv_start: "exec_inv \<lparr>px_ck = ck, px_running = [], px_workflows = ws, px_submitted = ts, px_world = w\<rparr>"
  by (simp add: exec_inv_def)

lemma executeParallelPlan_loop:
  assumes "executeParallelPlan st now arrivals ck w = PlanWaiting x"
  obtains ck' w' where "planLoop st now now arrivals
      \<lparr>px_ck = ck', px_running = [], px_workflows = [], px_submitted = [], px_world = w'\<rparr> = PlanWaiting x"
  using assms by (auto simp: executeParallelPlan_def Let_def split: if_splits option.splits prod.splits)

lemma planLoop_waiting_inv:
  assumes "planLoop st s now arrivals x = PlanWaiting y" and "exec_inv x"
  shows "exec_inv y"
proof (rule planLoop_cases [of exec_inv x st s now arrivals])
  show "exec_inv x" by (rule assms(2))
next
  fix z n
  assume "planLoop st s now arrivals x = finishPlan st s n z"
  then show ?thesis using assms(1) by (auto simp: finishPlan_def Let_def split: option.splits prod.splits)
next
  fix z n
  assume "planLoop st s now arrivals x = blockPlan st n (startReady z)"
  then show ?thesis using assms(1) by (simp add: blockPlan_def Let_def)
next
  fix z a out
  assume "receiveResult st a z = Inl out" "planLoop st s now arrivals x = out"
  then show ?thesis
    using assms(1) by (auto simp: receiveResult_def failPlan_def Let_def split: option.splits prod.splits)
qed (use assms(1) exec_inv_startReady exec_inv_receive in auto)

section \<open>Bookkeeping\<close>

lemma px_running_startOne:
  "mset (map t_ID (px_submitted (startOne a x))) + mset (map fst (px_running x)) =
   mset (map t_ID (px_submitted x)) + mset (map fst (px_running (startOne a x)))"
  by (auto simp: startOne_eq buildPlanTask_def Let_def)

lemma multiset_cancel:
  fixes a :: "'x multiset"
  assumes "a + c = b + d" and "b + e = f + c"
  shows "a + e = f + d"
proof -
  have "(a + e) + c = (b + d) + e"
    unfolding assms(1) [symmetric] by (simp add: ac_simps)
  also have "\<dots> = (f + c) + d"
    unfolding assms(2) [symmetric] by (simp add: ac_simps)
  finally have "(a + e) + c = (f + d) + c"
    by (simp add: ac_simps)
  then show ?thesis by (rule add_right_imp_eq)
qed

lemma submitted_startReady:
  "mset (map t_ID (px_submitted (startReady x))) + mset (map fst (px_running x)) =
   mset (map t_ID (px_submitted x)) + mset (map fst (px_running (startReady x)))"
proof -
  have "mset (map t_ID (px_submitted (fold startOne as x))) + mset (map fst (px_running x)) =
      mset (map t_ID (px_submitted x)) + mset (map fst (px_running (fold startOne as x)))" for as
  proof (induction as arbitrary: x)
    case (Cons a as)
    show ?case
      using multiset_cancel [OF Cons.IH [of "startOne a x"] px_running_startOne [of a x]]
      by (simp only: fold_simps)
  qed simp
  then show ?thesis by (simp add: startReady_def Let_def)
qed

lemma mset_map_delete:
  "distinct (map fst m) \<Longrightarrow> k \<in> fst ` set m \<Longrightarrow> mset (map fst m) = add_mset k (mset (map fst (map_delete k m)))"
proof (induction k m rule: map_delete.induct)
  case (2 k k' v' m)
  show ?case
  proof (cases "k = k'")
    case True
    then have "map_delete k m = m"
      using 2(3) by (induction k m rule: map_delete.induct) auto
    then show ?thesis using True by simp
  next
    case False
    then show ?thesis using 2 by auto
  qed
qed simp

text \<open>A list of finished ids respects the dependencies when each task's dependencies are finished before it.\<close>

definition deps_respected :: "PlanTaskArtifact list \<Rightarrow> string list \<Rightarrow> string list \<Rightarrow> bool" where
  "deps_respected tasks before finished \<longleftrightarrow>
     (\<forall>i < length finished. \<exists>a \<in> set tasks. pa_TaskID a = finished ! i
        \<and> set (pa_Dependencies a) \<subseteq> completedSet (before @ take i finished))"

lemma deps_respected_snoc:
  assumes "deps_respected tasks before finished" and "a \<in> set tasks"
    and "set (pa_Dependencies a) \<subseteq> completedSet (before @ finished)"
  shows "deps_respected tasks before (finished @ [pa_TaskID a])"
  using assms by (auto simp: deps_respected_def nth_append less_Suc_eq)

text \<open>
  The books of a run that started with \<open>pending\<close> and \<open>completed\<close>: every pending task is still
  pending or finished, once; the submitted tasks are the running and the finished ones.
\<close>

definition plan_book ::
  "PlanTaskArtifact list \<Rightarrow> string list \<Rightarrow> string list \<Rightarrow> 'w PlanExec \<Rightarrow> string list \<Rightarrow> bool" where
  "plan_book tasks pending completed x finished \<longleftrightarrow>
     exec_inv x \<and> px_tasks x = tasks
     \<and> ck_CompletedTaskIDs (px_ck x) = completed @ finished
     \<and> mset (ck_PendingTaskIDs (px_ck x)) + mset finished = mset pending
     \<and> mset (map t_ID (px_submitted x)) = mset (map fst (px_running x)) + mset finished
     \<and> length (px_workflows x) = length finished
     \<and> deps_respected tasks completed finished"

lemma plan_book_start:
  "plan_book (pt_Tasks (ck_PlanArtifact ck)) (ck_PendingTaskIDs ck) (ck_CompletedTaskIDs ck)
     \<lparr>px_ck = ck, px_running = [], px_workflows = [], px_submitted = [], px_world = w\<rparr> []"
  by (simp add: plan_book_def exec_inv_start deps_respected_def)

lemma plan_book_startReady:
  "plan_book tasks pending completed x finished \<Longrightarrow> plan_book tasks pending completed (startReady x) finished"
  using submitted_startReady [of x] exec_inv_startReady [of x]
  unfolding plan_book_def
  by (simp add: add.assoc add.left_commute)

lemma running_pending:
  assumes "exec_inv x" and "(k, a) \<in> set (px_running x)" and "\<forall>p \<in> set (ck_PendingTaskIDs (px_ck x)). TrimSpace p = p \<and> p \<noteq> []"
  shows "k = pa_TaskID a" and "k \<in> set (ck_PendingTaskIDs (px_ck x))"
  using assms completedSet_id [of "ck_PendingTaskIDs (px_ck x)"] unfolding exec_inv_def runnable_def by blast+

lemma plan_book_receive:
  assumes b: "plan_book tasks pending completed x finished" and ne: "px_running x \<noteq> []"
    and r: "receiveResult st a x = Inr y"
    and p: "distinct pending" "\<forall>p \<in> set pending. TrimSpace p = p \<and> p \<noteq> []"
  shows "\<exists>t. plan_book tasks pending completed y (finished @ [t])"
    and "length (ck_PendingTaskIDs (px_ck y)) < length (ck_PendingTaskIDs (px_ck x))"
proof -
  obtain k art where kart: "px_running x ! (av_pick a mod length (px_running x)) = (k, art)"
    by fastforce
  note rr = receiveResult_Inr [OF r, unfolded kart snd_conv]
  have inv: "exec_inv x" using b by (simp add: plan_book_def)
  have mem: "(k, art) \<in> set (px_running x)"
    using picked_running [OF ne] kart by metis
  have pm: "mset (ck_PendingTaskIDs (px_ck x)) + mset finished = mset pending"
    using b by (simp add: plan_book_def)
  then have sub: "set (ck_PendingTaskIDs (px_ck x)) \<subseteq> set pending"
    by (metis mset_subset_eq_add_left set_mset_mono set_mset_mset)
  then have k: "k = pa_TaskID art" "k \<in> set (ck_PendingTaskIDs (px_ck x))"
    using running_pending [OF inv mem] p(2) by blast+
  have "distinct (ck_PendingTaskIDs (px_ck x))"
    using pm p(1) by (metis distinct_append mset_append mset_eq_imp_distinct_iff)
  then have rem: "mset (ck_PendingTaskIDs (px_ck x)) = add_mset k (mset (removePending (ck_PendingTaskIDs (px_ck x)) k))"
    using k(2) distinct_remove1_removeAll [of "ck_PendingTaskIDs (px_ck x)" k]
      mset_remove1 [of k "ck_PendingTaskIDs (px_ck x)"] insert_DiffM [of k "mset (ck_PendingTaskIDs (px_ck x))"]
    by (simp add: removePending_def removeAll_filter_not_eq eq_commute)
  have del: "mset (map fst (px_running x)) = add_mset k (mset (map fst (map_delete k (px_running x))))"
    using inv mem by (intro mset_map_delete) (force simp: exec_inv_def)+
  have art: "art \<in> set tasks" "set (pa_Dependencies art) \<subseteq> completedSet (completed @ finished)"
    using inv mem b unfolding exec_inv_def runnable_def plan_book_def by auto
  have "plan_book tasks pending completed y (finished @ [k])"
    using b rem del exec_inv_receive [OF inv ne r] art
      deps_respected_snoc [of tasks completed finished art]
    unfolding plan_book_def rr k(1) [symmetric] by simp
  then show "\<exists>t. plan_book tasks pending completed y (finished @ [t])" by blast
  show "length (ck_PendingTaskIDs (px_ck y)) < length (ck_PendingTaskIDs (px_ck x))"
    using arg_cong [OF rem, of size] unfolding rr k(1) [symmetric] by simp
qed

section \<open>Plans that can be resumed\<close>

fun artifacts_ordered :: "string set \<Rightarrow> PlanTaskArtifact list \<Rightarrow> bool" where
  "artifacts_ordered seen [] = True"
| "artifacts_ordered seen (a # as) =
     (pa_TaskID a \<notin> seen \<and> set (pa_Dependencies a) \<subseteq> seen \<and> artifacts_ordered (insert (pa_TaskID a) seen) as)"

text \<open>
  A checkpoint that can be run or resumed: its tasks are ordered by their dependencies and have
  trimmed ids, and each of them is either pending or completed.
\<close>

definition resumable :: "ParallelPlanCheckpoint \<Rightarrow> bool" where
  "resumable ck \<longleftrightarrow>
     (let tasks = pt_Tasks (ck_PlanArtifact ck); ids = pa_TaskID ` set tasks in
      artifacts_ordered {} tasks
      \<and> (\<forall>k \<in> ids. TrimSpace k = k \<and> k \<noteq> [])
      \<and> distinct (ck_PendingTaskIDs ck)
      \<and> set (ck_PendingTaskIDs ck) \<subseteq> ids
      \<and> ids - set (ck_PendingTaskIDs ck) \<subseteq> set (ck_CompletedTaskIDs ck))"

lemma artifacts_ordered_first:
  assumes "artifacts_ordered seen tasks" and "\<exists>a \<in> set tasks. pa_TaskID a \<in> P"
  obtains a where "a \<in> set tasks" "pa_TaskID a \<in> P"
    "set (pa_Dependencies a) \<subseteq> seen \<union> (pa_TaskID ` set tasks - P)"
  using assms
proof (induction seen tasks arbitrary: thesis rule: artifacts_ordered.induct)
  case (2 seen a as)
  show ?case
  proof (cases "pa_TaskID a \<in> P")
    case True
    then show ?thesis using 2 by (intro "2.prems"(1) [of a]) auto
  next
    case False
    then have "\<exists>a \<in> set as. pa_TaskID a \<in> P" using "2.prems"(3) by auto
    moreover have "artifacts_ordered (insert (pa_TaskID a) seen) as" using "2.prems"(2) by simp
    ultimately obtain b where "b \<in> set as" "pa_TaskID b \<in> P"
      "set (pa_Dependencies b) \<subseteq> insert (pa_TaskID a) seen \<union> (pa_TaskID ` set as - P)"
      using "2.IH" by metis
    then show ?thesis using False by (intro "2.prems"(1) [of b]) auto
  qed
qed simp

lemma plan_book_resumable:
  assumes "resumable ck" and "plan_book (pt_Tasks (ck_PlanArtifact ck)) (ck_PendingTaskIDs ck) (ck_CompletedTaskIDs ck) x finished"
  shows "resumable (px_ck x)"
proof -
  have m: "mset (ck_PendingTaskIDs (px_ck x)) + mset finished = mset (ck_PendingTaskIDs ck)"
    using assms(2) by (simp add: plan_book_def)
  then have "set (ck_PendingTaskIDs (px_ck x)) \<union> set finished = set (ck_PendingTaskIDs ck)"
    by (metis set_mset_mset set_mset_union)
  moreover have "distinct (ck_PendingTaskIDs (px_ck x))"
    using m assms(1) by (metis (no_types, lifting) distinct_append mset_append mset_eq_imp_distinct_iff resumable_def)
  ultimately show ?thesis
    using assms unfolding resumable_def plan_book_def Let_def by auto
qed

text \<open>A checkpoint that can be resumed is never blocked: with nothing running, some task is started.\<close>

lemma resumable_progress:
  assumes "resumable (px_ck x)" and "ck_PendingTaskIDs (px_ck x) \<noteq> []"
  shows "px_running (startReady x) \<noteq> []"
proof (cases "px_running x = []")
  case False
  then show ?thesis
    using running_fold_startOne [of x] unfolding startReady_def Let_def by (metis set_empty subset_empty)
next
  case True
  define ck where "ck = px_ck x"
  have tr: "\<forall>k \<in> pa_TaskID ` set (pt_Tasks (ck_PlanArtifact ck)). TrimSpace k = k \<and> k \<noteq> []"
    and sub: "set (ck_PendingTaskIDs ck) \<subseteq> pa_TaskID ` set (pt_Tasks (ck_PlanArtifact ck))"
    and cov: "pa_TaskID ` set (pt_Tasks (ck_PlanArtifact ck)) - set (ck_PendingTaskIDs ck) \<subseteq> set (ck_CompletedTaskIDs ck)"
    and ord: "artifacts_ordered {} (pt_Tasks (ck_PlanArtifact ck))"
    using assms(1) by (simp_all add: resumable_def Let_def ck_def)
  have "\<exists>a \<in> set (pt_Tasks (ck_PlanArtifact ck)). pa_TaskID a \<in> set (ck_PendingTaskIDs ck)"
    using assms(2) sub by (cases "ck_PendingTaskIDs ck") (auto simp: ck_def)
  then obtain a where a: "a \<in> set (pt_Tasks (ck_PlanArtifact ck))" "pa_TaskID a \<in> set (ck_PendingTaskIDs ck)"
    "set (pa_Dependencies a) \<subseteq> pa_TaskID ` set (pt_Tasks (ck_PlanArtifact ck)) - set (ck_PendingTaskIDs ck)"
    using artifacts_ordered_first [OF ord] by (metis sup_bot_left)
  have inC: "k \<in> completedSet ks" if "k \<in> set ks" "k \<in> pa_TaskID ` set (pt_Tasks (ck_PlanArtifact ck))" for k ks
    using tr that by (force simp: completedSet_def compactStrings_def)
  have "a \<in> set (readyPlanArtifacts (pt_Tasks (ck_PlanArtifact ck)) (ck_PendingTaskIDs ck) (ck_CompletedTaskIDs ck))"
    unfolding set_readyPlanArtifacts using a cov inC by blast
  then obtain s ss where s: "scheduleReadyArtifactsWithConflicts
      (readyPlanArtifacts (pt_Tasks (ck_PlanArtifact ck)) (ck_PendingTaskIDs ck) (ck_CompletedTaskIDs ck)) {} = s # ss"
    by (metis empty_iff list.exhaust schedule_progress set_empty)
  have "startReady x = fold startOne ss (startOne s x)"
    using s True by (simp add: startReady_def Let_def ck_def collectArtifactConflictKeys_eq)
  moreover have "px_running (startOne s x) \<noteq> []"
    using True by (simp add: startOne_eq)
  ultimately show ?thesis
    using running_fold_startOne [of "startOne s x" ss] by (metis set_empty subset_empty)
qed

lemma receiveResult_good:
  assumes "av_err a = None" and "validatePlanWorkflow (av_record a) = None"
    and "\<And>ck w. fst (saveParallelCheckpoint st ck w) = None"
  shows "\<exists>y. receiveResult st a x = Inr y"
  using assms(1,2) assms(3) by (simp add: receiveResult_def Let_def split_beta)

lemma planLoop_completes:
  assumes ck: "resumable ck" and save: "\<And>ck w. fst (saveParallelCheckpoint st ck w) = None"
    and "\<forall>a \<in> set arrivals. av_err a = None \<and> validatePlanWorkflow (av_record a) = None"
    and "plan_book (pt_Tasks (ck_PlanArtifact ck)) (ck_PendingTaskIDs ck) (ck_CompletedTaskIDs ck) x finished"
    and "length (ck_PendingTaskIDs (px_ck x)) \<le> length arrivals"
  shows "\<exists>y f n. planLoop st s now arrivals x = finishPlan st s n y
    \<and> plan_book (pt_Tasks (ck_PlanArtifact ck)) (ck_PendingTaskIDs ck) (ck_CompletedTaskIDs ck) y f
    \<and> ck_PendingTaskIDs (px_ck y) = [] \<and> px_running y = []"
  using assms(3-5)
proof (induction arrivals arbitrary: x finished now)
  case Nil
  have "exec_inv x" using Nil.prems by (simp add: plan_book_def)
  then have "px_running x = []"
    using Nil.prems running_pending [of x] by (cases "px_running x") auto
  then show ?case
    using Nil.prems by (auto simp: planLoop.simps)
next
  case (Cons a rest)
  have inv: "exec_inv x" using Cons.prems by (simp add: plan_book_def)
  show ?case
  proof (cases "ck_PendingTaskIDs (px_ck x) = []")
    case True
    then have "px_running x = []"
      using running_pending [OF inv] by (cases "px_running x") auto
    then show ?thesis
      using Cons.prems True by (auto simp: planLoop.simps [of st s now "_ # _"])
  next
    case False
    define z where "z = startReady x"
    have z: "plan_book (pt_Tasks (ck_PlanArtifact ck)) (ck_PendingTaskIDs ck) (ck_CompletedTaskIDs ck) z finished"
      unfolding z_def using Cons.prems by (intro plan_book_startReady)
    have ne: "px_running z \<noteq> []"
      unfolding z_def using plan_book_resumable [OF ck Cons.prems(2)] False by (rule resumable_progress)
    obtain y where y: "receiveResult st a z = Inr y"
      using receiveResult_good [OF _ _ save] Cons.prems(1) by (metis list.set_intros(1))
    have "planLoop st s now (a # rest) x = planLoop st s (av_now a) rest y"
      using False ne y by (simp add: planLoop.simps [of st s now "_ # _"] Let_def z_def)
    moreover have "distinct (ck_PendingTaskIDs ck)" "\<forall>p \<in> set (ck_PendingTaskIDs ck). TrimSpace p = p \<and> p \<noteq> []"
      using ck unfolding resumable_def Let_def by blast+
    note r = plan_book_receive [OF z ne y this]
    obtain t where "plan_book (pt_Tasks (ck_PlanArtifact ck)) (ck_PendingTaskIDs ck) (ck_CompletedTaskIDs ck) y (finished @ [t])"
      using r(1) by blast
    moreover have "length (ck_PendingTaskIDs (px_ck y)) \<le> length rest"
      using r(2) Cons.prems(3) by (simp add: z_def)
    ultimately show ?thesis
      using Cons.IH [of y "finished @ [t]" "av_now a"] Cons.prems(1) by simp
  qed
qed

section \<open>Plans of the planner\<close>

lemma buildPlanTaskArtifact_simps [simp]:
  "pa_TaskID (buildPlanTaskArtifact task plan step) = ps_ID step"
  "pa_Dependencies (buildPlanTaskArtifact task plan step) = ps_Dependencies step"
  by (simp_all add: buildPlanTaskArtifact_def Let_def split_beta)

lemma artifacts_ordered_map:
  "artifacts_ordered seen (map (buildPlanTaskArtifact task plan) steps) = ordered_after seen steps"
  by (induction steps arbitrary: seen) auto

lemma prepare_ID: "t_ID (fst (Prepare getenv select now task)) = t_ID task"
  by (simp add: Prepare_def Let_def setHint_def)

lemma prepare_steps:
  "ep_Steps (snd (Prepare getenv select now task)) = defaultSteps getenv (fst (Prepare getenv select now task))"
  by (simp add: Prepare_def Let_def buildPlan_def)

text \<open>Every step id is the id of the task with a suffix that ends in a letter or digit.\<close>

definition suffixed :: "string \<Rightarrow> string \<Rightarrow> bool" where
  "suffixed tid k \<longleftrightarrow> (\<exists>u. k = tid @ u \<and> u \<noteq> [] \<and> \<not> is_space (hd u) \<and> \<not> is_space (last u))"

lemma suffixedI: "u \<noteq> [] \<Longrightarrow> \<not> is_space (hd u) \<Longrightarrow> \<not> is_space (last u) \<Longrightarrow> suffixed tid (tid @ u)"
  unfolding suffixed_def by blast

lemma last_nat_to_string: "\<not> is_space (last (nat_to_string n))"
proof -
  have "\<not> is_space (digit_char d)" if "d < 10" for d
  proof -
    have "\<forall>d \<in> set [0..<10]. \<not> is_space (digit_char d)" by code_simp
    then show ?thesis using that by simp
  qed
  then show ?thesis
    by (subst nat_to_string.simps) simp
qed

lemma branchID_suffixed: "suffixed (t_ID task) (branchID task i)"
proof -
  have "\<not> is_space (hd (''-branch-'' @ nat_to_string (i + 1)))" by (simp add: is_space_def)
  moreover have "\<not> is_space (last (''-branch-'' @ nat_to_string (i + 1)))"
    using last_nat_to_string nat_to_string_neq_Nil by (metis last_append)
  ultimately show ?thesis
    unfolding branchID_def by (intro suffixedI) simp_all
qed

lemma codeSteps_suffixed: "s \<in> set (codeSteps getenv task a) \<Longrightarrow> suffixed (t_ID task) (ps_ID s)"
  unfolding codeSteps_def Let_def
  by (auto simp: is_space_def branchID_suffixed intro!: suffixedI split: if_splits)

lemma sourcecraftSteps_suffixed: "s \<in> set (sourcecraftSteps task a) \<Longrightarrow> suffixed (t_ID task) (ps_ID s)"
  unfolding sourcecraftSteps_def Let_def
  by (auto simp: is_space_def intro!: suffixedI split: if_splits)

lemma defaultSteps_suffixed:
  assumes "s \<in> set (defaultSteps getenv task)"
  shows "suffixed (t_ID task) (ps_ID s)"
proof -
  have "suffixed (t_ID task) (t_ID task @ u)"
    if "u \<in> set [''-analyze'', ''-draft-plan'', ''-review-plan'', ''-audit'', ''-report'', ''-run-tests'',
      ''-verify-results'', ''-collect-context'', ''-write-output'', ''-review-output'', ''-execute'', ''-verify'']" for u
  proof -
    have "\<forall>u \<in> set [''-analyze'', ''-draft-plan'', ''-review-plan'', ''-audit'', ''-report'', ''-run-tests'',
      ''-verify-results'', ''-collect-context'', ''-write-output'', ''-review-output'', ''-execute'', ''-verify''].
      u \<noteq> [] \<and> \<not> is_space (hd u) \<and> \<not> is_space (last u)"
      by code_simp
    then show ?thesis using that suffixedI by blast
  qed
  then show ?thesis
    using assms codeSteps_suffixed sourcecraftSteps_suffixed
    unfolding defaultSteps_def Let_def by (auto split: if_splits)
qed

lemma suffixed_trimmed:
  assumes "suffixed tid k" and "tid = [] \<or> \<not> is_space (hd tid)"
  shows "TrimSpace k = k \<and> k \<noteq> []"
  using assms by (intro conjI TrimSpace_id) (auto simp: suffixed_def trimmed_def hd_append split: if_splits)

lemma previewTask_ID: "t_ID (previewTask freshID now task) = (if t_ID task = [] then freshID else t_ID task)"
  by (simp add: previewTask_def Let_def)

lemma previewCheckpoint_simps:
  fixes getenv select freshID now task
  defines "p \<equiv> Prepare getenv select now (previewTask freshID now task)"
  shows "pt_Tasks (ck_PlanArtifact (previewCheckpoint getenv select freshID now task)) =
      map (buildPlanTaskArtifact (fst p) (snd p)) (defaultSteps getenv (fst p))"
    and "ck_PendingTaskIDs (previewCheckpoint getenv select freshID now task) =
      map ps_ID (defaultSteps getenv (fst p))"
    and "ck_RootTaskID (previewCheckpoint getenv select freshID now task) = t_ID (fst p)"
    and "ck_Status (previewCheckpoint getenv select freshID now task) = ParallelPlanStatusPlanned"
  by (simp_all add: previewCheckpoint_def buildPlanArtifact_def Let_def split_beta p_def [symmetric]
      prepare_steps [of getenv select now "previewTask freshID now task", folded p_def])

lemma previewCheckpoint_resumable:
  fixes getenv select freshID now task
  defines "tid \<equiv> (if t_ID task = [] then freshID else t_ID task)"
  assumes "tid = [] \<or> \<not> is_space (hd tid)"
  shows "resumable (previewCheckpoint getenv select freshID now task)"
proof -
  define t where "t = fst (Prepare getenv select now (previewTask freshID now task))"
  have id: "t_ID t = tid"
    by (simp add: t_def prepare_ID previewTask_ID tid_def)
  have ord: "ordered_after {} (defaultSteps getenv t)"
    by (rule defaultSteps_ordered)
  have "\<forall>s \<in> set (defaultSteps getenv t). TrimSpace (ps_ID s) = ps_ID s \<and> ps_ID s \<noteq> []"
    using defaultSteps_suffixed [of _ getenv t] suffixed_trimmed assms(2) id by metis
  then show ?thesis
    using ord ordered_after_distinct [OF ord]
    unfolding resumable_def Let_def previewCheckpoint_simps t_def [symmetric]
    by (simp add: artifacts_ordered_map image_image)
qed

section \<open>Completion\<close>

lemma execute_completes:
  assumes "resumable ck" and "ck_RootTaskID ck \<noteq> []" and "ck_Status ck \<noteq> ParallelPlanStatusCompleted"
    and "\<forall>ck w. fst (saveParallelCheckpoint st ck w) = None \<and> fst (saveParallelCheckpointStatic st ck w) = None"
    and "\<forall>a \<in> set arrivals. av_err a = None \<and> validatePlanWorkflow (av_record a) = None"
    and "length (ck_PendingTaskIDs ck) \<le> length arrivals"
  shows "\<exists>run w' finished. executeParallelPlan st now arrivals ck w = PlanReturned run w'
    \<and> ck_Status (er_Checkpoint run) = ParallelPlanStatusCompleted
    \<and> ck_PendingTaskIDs (er_Checkpoint run) = []
    \<and> ck_CompletedTaskIDs (er_Checkpoint run) = ck_CompletedTaskIDs ck @ finished
    \<and> mset finished = mset (ck_PendingTaskIDs ck)
    \<and> deps_respected (pt_Tasks (ck_PlanArtifact ck)) (ck_CompletedTaskIDs ck) finished
    \<and> length (er_Workflows run) = length finished"
proof -
  define ck1 where "ck1 = (prepareCheckpoint now ck)\<lparr>ck_Status := ParallelPlanStatusRunning, ck_UpdatedAt := now\<rparr>"
  have pc: "ck_PlanArtifact (prepareCheckpoint now ck) = ck_PlanArtifact ck"
    "ck_PendingTaskIDs (prepareCheckpoint now ck) = ck_PendingTaskIDs ck"
    "ck_CompletedTaskIDs (prepareCheckpoint now ck) = ck_CompletedTaskIDs ck"
    "ck_Status (prepareCheckpoint now ck) = ck_Status ck"
    by (simp_all add: prepareCheckpoint_def Let_def)
  then have ck1: "ck_PlanArtifact ck1 = ck_PlanArtifact ck" "ck_PendingTaskIDs ck1 = ck_PendingTaskIDs ck"
    "ck_CompletedTaskIDs ck1 = ck_CompletedTaskIDs ck"
    by (simp_all add: ck1_def)
  define w1 where "w1 = snd (saveParallelCheckpoint st ck1 (snd (saveParallelCheckpointStatic st (prepareCheckpoint now ck) w)))"
  define x where "x = \<lparr>px_ck = ck1, px_running = [], px_workflows = [], px_submitted = [], px_world = w1\<rparr>"
  have ex: "executeParallelPlan st now arrivals ck w = planLoop st now now arrivals x"
    using assms(2-4) pc(4)
    by (simp add: executeParallelPlan_def Let_def split_beta ck1_def [symmetric] w1_def [symmetric] x_def)
  have "plan_book (pt_Tasks (ck_PlanArtifact ck)) (ck_PendingTaskIDs ck) (ck_CompletedTaskIDs ck) x []"
    using plan_book_start [of ck1 w1] by (simp add: x_def ck1)
  then obtain y f n where y: "planLoop st now now arrivals x = finishPlan st now n y"
    "plan_book (pt_Tasks (ck_PlanArtifact ck)) (ck_PendingTaskIDs ck) (ck_CompletedTaskIDs ck) y f"
    "ck_PendingTaskIDs (px_ck y) = []"
    using planLoop_completes [OF assms(1), of st arrivals x "[]" now now] assms(4-6)
    unfolding x_def PlanExec.simps ck1 by blast
  have "\<exists>run w'. finishPlan st now n y = PlanReturned run w'
      \<and> er_Checkpoint run = (px_ck y)\<lparr>ck_Status := ParallelPlanStatusCompleted, ck_UpdatedAt := n\<rparr>
      \<and> er_Workflows run = px_workflows y"
    using assms(4) by (simp add: finishPlan_def Let_def split_beta)
  then show ?thesis
    using y unfolding ex plan_book_def by auto
qed

section \<open>Properties\<close>

text \<open>C21. While a plan runs, whatever the order in which its tasks answer: tasks that run at the same
  time have no conflict key in common, no task runs under two entries, and a task that runs is
  a pending task of the plan whose dependencies are all completed.\<close>

theorem running_tasks_never_conflict:
  assumes "executeParallelPlan st now arrivals ck w = PlanWaiting x"
  shows "distinct (map fst (px_running x))
    \<and> (\<forall>k a k' a'. (k, a) \<in> set (px_running x) \<and> (k', a') \<in> set (px_running x) \<and> k \<noteq> k'
         \<longrightarrow> conflictKeys a \<inter> conflictKeys a' = {})
    \<and> (\<forall>k a. (k, a) \<in> set (px_running x) \<longrightarrow> k = pa_TaskID a
         \<and> a \<in> set (pt_Tasks (ck_PlanArtifact (px_ck x)))
         \<and> k \<in> completedSet (ck_PendingTaskIDs (px_ck x))
         \<and> set (pa_Dependencies a) \<subseteq> completedSet (ck_CompletedTaskIDs (px_ck x)))"
proof -
  obtain ck' w' where "planLoop st now now arrivals
      \<lparr>px_ck = ck', px_running = [], px_workflows = [], px_submitted = [], px_world = w'\<rparr> = PlanWaiting x"
    using executeParallelPlan_loop [OF assms] by blast
  then have "exec_inv x"
    by (rule planLoop_waiting_inv [OF _ exec_inv_start])
  then show ?thesis
    unfolding exec_inv_def runnable_def by blast
qed

definition example_select :: "Task \<Rightarrow> ModelSelection" where
  "example_select t = zero_ModelSelection\<lparr>ms_Provider := ''p'', ms_ModelName := ''m'', ms_Complexity := ComplexityHigh\<rparr>"

text \<open>A planner without stores, where every save succeeds at once.\<close>

definition no_store :: "unit plan_store" where
  "no_store = \<lparr>st_SaveSessionState = None, st_GetSessionState = (\<lambda>s b w. Inr None),
     st_WriteCheckpoint = None, st_ReadCheckpoint = (\<lambda>p w. Inr None)\<rparr>"

definition example_checkpoint :: ParallelPlanCheckpoint where
  "example_checkpoint = previewCheckpoint (\<lambda>_. []) example_select ''t'' 1 example_code_task"

definition example_record :: WorkflowRecord where
  "example_record = \<lparr>wf_Task = zero_Task, wf_Plan = zero_ExecutionPlan,
     wf_Acceptance = \<lparr>ta_TaskID = [], ta_Status = TaskStatusCompleted, ta_AgentID = [],
       ta_Complexity = ComplexityLow, ta_Reason = [], ta_Capability = [], ta_Provider = [],
       ta_ModelName = [], ta_RequiresSecondaryReview = False, ta_AcceptedAt = 1\<rparr>,
     wf_Result = None, wf_UpdatedAt = 1\<rparr>"

definition good_arrival :: "nat \<Rightarrow> Arrival" where
  "good_arrival n = \<lparr>av_pick = n, av_now = 2, av_record = example_record, av_err = None\<rparr>"

fun waiting_running :: "'w PlanOutcome \<Rightarrow> string list option" where
  "waiting_running (PlanWaiting x) = Some (map fst (px_running x))"
| "waiting_running _ = None"

text \<open>After the analysis of the example task, its two branches of two files each run together.\<close>

theorem running_tasks_never_conflict_witness:
  "\<exists>x a b. executeParallelPlan no_store 1 [good_arrival 0] example_checkpoint () = PlanWaiting x
     \<and> px_running x = [(''t-branch-1'', a), (''t-branch-2'', b)] \<and> conflictKeys a \<inter> conflictKeys b = {}"
proof -
  have w: "waiting_running (executeParallelPlan no_store 1 [good_arrival 0] example_checkpoint ()) =
      Some [''t-branch-1'', ''t-branch-2'']"
    by code_simp
  then obtain x where x: "executeParallelPlan no_store 1 [good_arrival 0] example_checkpoint () = PlanWaiting x"
    by (cases "executeParallelPlan no_store 1 [good_arrival 0] example_checkpoint ()") simp_all
  with w have ids: "map fst (px_running x) = [''t-branch-1'', ''t-branch-2'']" by simp
  then obtain a b where r: "px_running x = [(''t-branch-1'', a), (''t-branch-2'', b)]"
    by (auto simp: map_eq_Cons_conv)
  have "(''t-branch-1'', a) \<in> set (px_running x) \<and> (''t-branch-2'', b) \<in> set (px_running x)
      \<and> ''t-branch-1'' \<noteq> ''t-branch-2''"
    using r by simp
  then have "conflictKeys a \<inter> conflictKeys b = {}"
    using running_tasks_never_conflict [OF x] by blast
  with x r show ?thesis by blast
qed

text \<open>C23. A plan runs to completion: if a checkpoint can be resumed, every save succeeds and every
  task that runs answers, in whatever order, with a successful record, the call returns after
  as many answers as there were pending tasks. Then no task is pending, each task that was
  pending has been completed exactly once and after its dependencies, and the run has one
  workflow for each.\<close>

theorem plan_runs_to_completion:
  assumes "resumable ck" and "ck_RootTaskID ck \<noteq> []" and "ck_Status ck \<noteq> ParallelPlanStatusCompleted"
    and "\<forall>ck w. fst (saveParallelCheckpoint st ck w) = None \<and> fst (saveParallelCheckpointStatic st ck w) = None"
    and "\<forall>a \<in> set arrivals. av_err a = None \<and> validatePlanWorkflow (av_record a) = None"
    and "length (ck_PendingTaskIDs ck) \<le> length arrivals"
  shows "\<exists>run w' finished. executeParallelPlan st now arrivals ck w = PlanReturned run w'
    \<and> ck_Status (er_Checkpoint run) = ParallelPlanStatusCompleted
    \<and> ck_PendingTaskIDs (er_Checkpoint run) = []
    \<and> ck_CompletedTaskIDs (er_Checkpoint run) = ck_CompletedTaskIDs ck @ finished
    \<and> mset finished = mset (ck_PendingTaskIDs ck)
    \<and> deps_respected (pt_Tasks (ck_PlanArtifact ck)) (ck_CompletedTaskIDs ck) finished
    \<and> length (er_Workflows run) = length finished"
  using assms by (rule execute_completes)

lemma no_store_saves:
  "fst (saveParallelCheckpoint no_store ck w) = None \<and> fst (saveParallelCheckpointStatic no_store ck w) = None"
  by (simp add: saveParallelCheckpoint_def saveParallelCheckpointStatic_def savePayload_def no_store_def)

theorem plan_runs_to_completion_witness:
  "\<exists>run finished. executeParallelPlan no_store 1 (map good_arrival [0, 1, 0, 5, 0]) example_checkpoint () = PlanReturned run ()
     \<and> ck_CompletedTaskIDs (er_Checkpoint run) = finished
     \<and> mset finished = mset [''t-analyze'', ''t-branch-1'', ''t-branch-2'', ''t-merge-review'', ''t-test'']"
proof -
  have ids: "ck_PendingTaskIDs example_checkpoint = [''t-analyze'', ''t-branch-1'', ''t-branch-2'', ''t-merge-review'', ''t-test'']"
    and "ck_CompletedTaskIDs example_checkpoint = []" and "ck_RootTaskID example_checkpoint \<noteq> []"
    and "ck_Status example_checkpoint \<noteq> ParallelPlanStatusCompleted"
    by code_simp+
  moreover have "resumable example_checkpoint"
    unfolding example_checkpoint_def
    by (rule previewCheckpoint_resumable) (simp add: example_code_task_def is_space_def)
  moreover have "\<forall>a \<in> set (map good_arrival [0, 1, 0, 5, 0]). av_err a = None \<and> validatePlanWorkflow (av_record a) = None"
    by code_simp
  ultimately show ?thesis
    using plan_runs_to_completion [of example_checkpoint no_store "map good_arrival [0, 1, 0, 5, 0]" 1 "()"] no_store_saves
    by auto
qed

text \<open>What an interrupted call leaves of a checkpoint: some pending tasks are completed, the others
  are still pending.\<close>

definition leaves :: "ParallelPlanCheckpoint \<Rightarrow> ParallelPlanCheckpoint \<Rightarrow> bool" where
  "leaves ck ck' \<longleftrightarrow> resumable ck' \<and> (\<exists>finished. ck_CompletedTaskIDs ck' = ck_CompletedTaskIDs ck @ finished
     \<and> mset (ck_PendingTaskIDs ck') + mset finished = mset (ck_PendingTaskIDs ck))"

definition on_the_way :: "ParallelPlanCheckpoint \<Rightarrow> 'w PlanExec \<Rightarrow> bool" where
  "on_the_way ck x \<longleftrightarrow> (\<exists>f. plan_book (pt_Tasks (ck_PlanArtifact ck)) (ck_PendingTaskIDs ck) (ck_CompletedTaskIDs ck) x f)"

lemma leaves_same:
  assumes "resumable ck" "ck_PlanArtifact c = ck_PlanArtifact ck" "ck_PendingTaskIDs c = ck_PendingTaskIDs ck"
    "ck_CompletedTaskIDs c = ck_CompletedTaskIDs ck"
  shows "leaves ck c"
  using assms by (simp add: leaves_def resumable_def)

lemma leaves_on_the_way:
  assumes "resumable ck" "on_the_way ck x" "ck_PlanArtifact c = ck_PlanArtifact (px_ck x)"
    "ck_PendingTaskIDs c = ck_PendingTaskIDs (px_ck x)" "ck_CompletedTaskIDs c = ck_CompletedTaskIDs (px_ck x)"
  shows "leaves ck c"
proof -
  obtain f where f: "plan_book (pt_Tasks (ck_PlanArtifact ck)) (ck_PendingTaskIDs ck) (ck_CompletedTaskIDs ck) x f"
    using assms(2) unfolding on_the_way_def by blast
  then show ?thesis
    using plan_book_resumable [OF assms(1) f] assms(3-5) unfolding leaves_def plan_book_def resumable_def by auto
qed

lemma on_the_way_receive:
  assumes "resumable ck" "on_the_way ck x" "px_running x \<noteq> []" "receiveResult st a x = Inr y"
  shows "on_the_way ck y"
proof -
  have d: "distinct (ck_PendingTaskIDs ck)" "\<forall>p \<in> set (ck_PendingTaskIDs ck). TrimSpace p = p \<and> p \<noteq> []"
    using assms(1) unfolding resumable_def Let_def by blast+
  obtain f where f: "plan_book (pt_Tasks (ck_PlanArtifact ck)) (ck_PendingTaskIDs ck) (ck_CompletedTaskIDs ck) x f"
    using assms(2) unfolding on_the_way_def by blast
  show ?thesis
    using plan_book_receive(1) [OF f assms(3,4) d] unfolding on_the_way_def by blast
qed

text \<open>A result that stops the call is a failed one, whose task stays pending, or a good one whose save
  failed: then the checkpoint is the one a store that saves would have gone on with.\<close>

lemma leaves_receive:
  assumes ck: "resumable ck" and b: "on_the_way ck x" and ne: "px_running x \<noteq> []"
    and r: "receiveResult st a x = Inl (PlanError e c w')"
  shows "leaves ck c"
proof (cases "av_err a = None \<and> validatePlanWorkflow (av_record a) = None")
  case False
  then show ?thesis
    using r by (intro leaves_on_the_way [OF ck b]) (auto simp: receiveResult_def failPlan_def Let_def split: option.splits)
next
  case True
  define ok where "ok = st\<lparr>st_SaveSessionState := None, st_WriteCheckpoint := None\<rparr>"
  have ok: "fst (saveParallelCheckpoint ok ck w) = None" for ck w
    by (simp add: saveParallelCheckpoint_def savePayload_def ok_def)
  obtain y where y: "receiveResult ok a x = Inr y"
    using receiveResult_good [OF _ _ ok] True by blast
  have "c = px_ck y"
    using r y True ok by (auto simp: receiveResult_def Let_def split_beta split: option.splits)
  then show ?thesis
    using leaves_on_the_way [OF ck on_the_way_receive [OF ck b ne y]] by simp
qed

lemma leaves_planLoop:
  assumes ck: "resumable ck" and x: "on_the_way ck x" and e: "planLoop st s now arrivals x = PlanError e ck' w'"
  shows "leaves ck ck'"
proof (rule planLoop_cases [of "on_the_way ck" x st s now arrivals])
  fix y n assume "on_the_way ck y" "planLoop st s now arrivals x = finishPlan st s n y"
  then show ?thesis using e
    by (intro leaves_on_the_way [OF ck, of y]) (auto simp: finishPlan_def Let_def split: option.splits prod.splits)
next
  fix y n assume "on_the_way ck y" "planLoop st s now arrivals x = blockPlan st n (startReady y)"
  then show ?thesis using e by (intro leaves_on_the_way [OF ck, of y]) (auto simp: blockPlan_def Let_def)
next
  fix y a out assume "on_the_way ck y" "px_running y \<noteq> []" "receiveResult st a y = Inl out" "planLoop st s now arrivals x = out"
  then show ?thesis using e leaves_receive [OF ck] by auto
next
  fix y assume "on_the_way ck y" then show "on_the_way ck (startReady y)"
    unfolding on_the_way_def using plan_book_startReady by blast
next
  fix a z y assume "on_the_way ck z" "px_running z \<noteq> []" "receiveResult st a z = Inr y"
  then show "on_the_way ck y" by (rule on_the_way_receive [OF ck])
qed (use x e in auto)


definition bad_arrival :: Arrival where
  "bad_arrival = (good_arrival 1)\<lparr>av_err := Some ''agent crashed''\<rparr>"

fun error_parts :: "'w PlanOutcome \<Rightarrow> (string \<times> string list \<times> string list) option" where
  "error_parts (PlanError e ck w) = Some (e, ck_PendingTaskIDs ck, ck_CompletedTaskIDs ck)"
| "error_parts _ = None"


text \<open>A plan for a task whose id starts with white space never starts: the ids are trimmed when the
  pending and completed sets are built, but looked up untrimmed, so no step is ever ready and the
  run ends as blocked although its steps have no unresolved dependency.\<close>

theorem padded_ids_block:
  assumes "t_ID task = c # cs" and "is_space c"
    and "\<forall>ck w. fst (saveParallelCheckpoint st ck w) = None \<and> fst (saveParallelCheckpointStatic st ck w) = None"
  shows "\<exists>ck' w'. executeParallelPlan st now arrivals (previewCheckpoint getenv select freshID now task) w =
      PlanError (''parallel plan '' @ t_ID task @ '' is blocked by unresolved dependencies'') ck' w'
    \<and> ck_CompletedTaskIDs ck' = []"
proof -
  define ck where "ck = previewCheckpoint getenv select freshID now task"
  define t where "t = fst (Prepare getenv select now (previewTask freshID now task))"
  define ck1 where "ck1 = (prepareCheckpoint now ck)\<lparr>ck_Status := ParallelPlanStatusRunning, ck_UpdatedAt := now\<rparr>"
  define w1 where "w1 = snd (saveParallelCheckpoint st ck1 (snd (saveParallelCheckpointStatic st (prepareCheckpoint now ck) w)))"
  define x where "x = \<lparr>px_ck = ck1, px_running = [], px_workflows = [], px_submitted = [], px_world = w1\<rparr>"
  have id: "t_ID t = c # cs"
    by (simp add: t_def prepare_ID previewTask_ID assms(1))
  note pv = previewCheckpoint_simps [of getenv select freshID now task, folded ck_def t_def]
  have pc: "ck_PlanArtifact ck1 = ck_PlanArtifact ck" "ck_PendingTaskIDs ck1 = ck_PendingTaskIDs ck"
    "ck_CompletedTaskIDs ck1 = ck_CompletedTaskIDs ck" "ck_RootTaskID ck1 = ck_RootTaskID ck"
    "ck_Status (prepareCheckpoint now ck) = ck_Status ck"
    by (simp_all add: ck1_def prepareCheckpoint_def Let_def)
  have ex: "executeParallelPlan st now arrivals ck w = planLoop st now now arrivals x"
    using assms(3) pc(5) pv(3,4) id
    by (simp add: executeParallelPlan_def Let_def split_beta ck1_def [symmetric] w1_def [symmetric] x_def)
  have "pa_TaskID a \<notin> completedSet ks" if "a \<in> set (pt_Tasks (ck_PlanArtifact ck))" for a ks
  proof
    assume "pa_TaskID a \<in> completedSet ks"
    then have "trimmed (pa_TaskID a)" using completedSet_trimmed trimmed_TrimSpace by metis
    moreover have "suffixed (t_ID t) (pa_TaskID a)"
      using that defaultSteps_suffixed [of _ getenv t] unfolding pv by auto
    then obtain u where "pa_TaskID a = (c # cs) @ u"
      unfolding id suffixed_def by blast
    ultimately show False using assms(2) by (simp add: trimmed_def)
  qed
  then have "readyPlanArtifacts (pt_Tasks (ck_PlanArtifact ck)) ps qs = []" for ps qs
    using set_readyPlanArtifacts [of _ "pt_Tasks (ck_PlanArtifact ck)" ps qs] by (metis list.set_intros(1) list.exhaust)
  then have sr: "startReady x = x"
    by (simp add: startReady_def Let_def x_def pc scheduleReadyArtifactsWithConflicts_def)
  have "defaultSteps getenv t \<noteq> []"
    by (simp add: defaultSteps_def Let_def)
  then have "planLoop st now now arrivals x = blockPlan st now x"
    by (subst planLoop.simps) (simp only: sr Let_def, simp add: x_def pc pv)
  then show ?thesis
    unfolding ck_def [symmetric] ex using assms(1) id
    by (simp add: blockPlan_def Let_def x_def pc pv) (simp add: ck_def previewCheckpoint_def Let_def split_beta)
qed

theorem padded_ids_block_witness:
  "\<exists>ck' w'. executeParallelPlan no_store 1 [] (previewCheckpoint (\<lambda>_. []) example_select ''t'' 1
       (example_code_task\<lparr>t_ID := '' t''\<rparr>)) () =
     PlanError ''parallel plan  t is blocked by unresolved dependencies'' ck' w'"
  using padded_ids_block [of "example_code_task\<lparr>t_ID := '' t''\<rparr>" "CHR '' ''" "''t''" no_store 1 "[]"
      "\<lambda>_. []" example_select "''t''" "()"] no_store_saves
  by (auto simp: is_space_def)

end
