(* ===== verification/FileStore.thy ===== *)
theory FileStore
  imports Domain
begin

text \<open>
  The store of \<open>state/file_store.go\<close>: nine maps in memory, written to one JSON file after every
  change, by way of a temporary file that is renamed. The nine maps of a store are grouped in the
  payload that \<open>persistLocked\<close> writes. The state saved for a session is a type parameter, since
  the store only copies it. Copies (\<open>cloneMap\<close>, \<open>cloneVectorChunk\<close> and the like) are the same
  value.

  The file system is a map from paths to contents. An operation takes the fault it meets when it
  writes: none, a write that fails and leaves some bytes in the temporary file, or a rename that
  fails. JSON is two parameters, \<open>enc\<close> and \<open>dec\<close>; what is assumed of them is that decoding
  inverts encoding.
\<close>

section \<open>Data\<close>

record 's SessionState =
  sv_SessionID :: string
  sv_Branch :: string
  sv_Version :: int
  sv_PromptVersion :: string
  sv_ContextVersion :: string
  sv_State :: 's
  sv_UpdatedAt :: time
  sv_StorageMode :: string

record InvalidationEvent =
  iv_SessionID :: string
  iv_Branch :: string
  iv_Reason :: string
  iv_Payload :: go_map
  iv_LoggedAt :: time
  iv_StorageMode :: string

record VectorChunk =
  vc_ChunkID :: string
  vc_SessionID :: string
  vc_Branch :: string
  vc_Source :: string
  vc_SourceID :: string
  vc_ChunkIndex :: int
  vc_Text :: string
  vc_NormalizedText :: string
  vc_Terms :: "string list"
  vc_Embedding :: "rat list"
  vc_Metadata :: go_map
  vc_CreatedAt :: time

record RAGDocument =
  rd_DocumentID :: string
  rd_Scope :: string
  rd_OwnerType :: string
  rd_OwnerID :: string
  rd_SourceType :: string
  rd_SourceRef :: string
  rd_Title :: string
  rd_ContentText :: string
  rd_ContentSummary :: string
  rd_Metadata :: go_map
  rd_Importance :: rat
  rd_RepoID :: string
  rd_Branch :: string
  rd_CommitSHA :: string
  rd_ArtifactIDs :: "string list"
  rd_CreatedAt :: time
  rd_UpdatedAt :: time
  rd_LastAccessedAt :: time

record RAGMemoryRecord =
  rr_MemoryID :: string
  rr_MemoryType :: string
  rr_Scope :: string
  rr_OwnerID :: string
  rr_Content :: go_map
  rr_Summary :: string
  rr_Embedding :: "rat list"
  rr_Metadata :: go_map
  rr_Confidence :: rat
  rr_Importance :: rat
  rr_RepoID :: string
  rr_Branch :: string
  rr_CommitSHA :: string
  rr_CreatedAt :: time
  rr_UpdatedAt :: time

record TaskSignature =
  sg_Key :: string
  sg_TaskType :: TaskType
  sg_Capability :: string
  sg_Complexity :: Complexity
  sg_Project :: string
  sg_RepoPath :: string
  sg_RepoFingerprint :: string
  sg_Branch :: string
  sg_Files :: "string list"
  sg_Modules :: "string list"
  sg_Extensions :: "string list"
  sg_Constraints :: "string list"
  sg_Description :: string
  sg_NormalizedText :: string
  sg_Embedding :: "rat list"
  sg_CreatedAt :: time

record RouteMemoryRecord =
  rt_RouteID :: string
  rt_SessionID :: string
  rt_TaskID :: string
  rt_ParentTaskID :: string
  rt_RootTaskID :: string
  rt_TaskSignature :: TaskSignature
  rt_TaskType :: TaskType
  rt_Capability :: string
  rt_Complexity :: Complexity
  rt_Project :: string
  rt_RepoPath :: string
  rt_RepoFingerprint :: string
  rt_Branch :: string
  rt_AgentID :: string
  rt_Provider :: string
  rt_ModelName :: string
  rt_PlanMode :: string
  rt_Success :: bool
  rt_Confidence :: rat
  rt_LatencyMS :: int
  rt_ReviewPassed :: bool
  rt_TestsPassed :: bool
  rt_CostEstimate :: rat
  rt_ErrorCount :: int
  rt_Summary :: string
  rt_Embedding :: "rat list"
  rt_Metadata :: go_map
  rt_CreatedAt :: time
  rt_UpdatedAt :: time

record VFSArtifact =
  va_ArtifactID :: string
  va_StorageURI :: string
  va_SHA256 :: string
  va_SizeBytes :: int
  va_MIMEType :: string
  va_Content :: string
  va_Metadata :: go_map
  va_CreatedAt :: time

record VFSCheckpointRecord =
  vk_Path :: string
  vk_TaskID :: string
  vk_AgentID :: string
  vk_Checkpoint :: go_map
  vk_Checksum :: string
  vk_Integrity :: string
  vk_Metadata :: go_map
  vk_StorageURI :: string
  vk_CreatedAt :: time
  vk_UpdatedAt :: time

record 's filePayload =
  fp_Workflows :: "(string \<times> WorkflowRecord) list"
  fp_SessionStates :: "(string \<times> 's SessionState) list"
  fp_Invalidations :: "(string \<times> InvalidationEvent list) list"
  fp_VectorChunks :: "(string \<times> VectorChunk) list"
  fp_RAGDocuments :: "(string \<times> RAGDocument) list"
  fp_RAGMemories :: "(string \<times> RAGMemoryRecord) list"
  fp_RouteMemories :: "(string \<times> RouteMemoryRecord) list"
  fp_VFSArtifacts :: "(string \<times> VFSArtifact) list"
  fp_VFSCheckpoints :: "(string \<times> VFSCheckpointRecord) list"

record 's FileStore =
  fs_path :: string
  fs_storageMode :: string
  fs_data :: "'s filePayload"

definition empty_payload :: "'s filePayload" where
  "empty_payload = \<lparr>fp_Workflows = [], fp_SessionStates = [], fp_Invalidations = [],
     fp_VectorChunks = [], fp_RAGDocuments = [], fp_RAGMemories = [], fp_RouteMemories = [],
     fp_VFSArtifacts = [], fp_VFSCheckpoints = []\<rparr>"

section \<open>Loading and persisting\<close>

type_synonym files = "string \<rightharpoonup> string"

datatype io_fault = NoFault | WriteFails string string | RenameFails string

definition load :: "(string \<Rightarrow> 's filePayload option) \<Rightarrow> files \<Rightarrow> string \<Rightarrow> string + 's filePayload" where
  "load dec fls path =
     (case fls path of
        None \<Rightarrow> Inr empty_payload
      | Some content \<Rightarrow>
          if content = [] then Inr empty_payload
          else (case dec content of None \<Rightarrow> Inl ''invalid json'' | Some p \<Rightarrow> Inr p))"

definition NewFileStore :: "(string \<Rightarrow> 's filePayload option) \<Rightarrow> files \<Rightarrow> string \<Rightarrow> string + 's FileStore" where
  "NewFileStore dec fls path =
     (let path = (if path = [] then ''memory_store/go_core_state.json'' else path) in
      case load dec fls path of
        Inl e \<Rightarrow> Inl e
      | Inr p \<Rightarrow> Inr \<lparr>fs_path = path, fs_storageMode = ''go_file_store'', fs_data = p\<rparr>)"

definition persistLocked ::
  "('s filePayload \<Rightarrow> string option) \<Rightarrow> io_fault \<Rightarrow> 's FileStore \<Rightarrow> files \<Rightarrow> string option \<times> files" where
  "persistLocked enc fault s fls =
     (case enc (fs_data s) of
        None \<Rightarrow> (Some ''json: unsupported value'', fls)
      | Some content \<Rightarrow>
          let tmpPath = fs_path s @ ''.tmp'' in
          (case fault of
             WriteFails partial e \<Rightarrow> (Some e, fls(tmpPath \<mapsto> partial))
           | RenameFails e \<Rightarrow> (Some e, fls(tmpPath \<mapsto> content))
           | NoFault \<Rightarrow> (None, fls(tmpPath := None, fs_path s \<mapsto> content))))"

text \<open>An operation that changes the maps and then persists them, even when that fails.\<close>

definition update ::
  "('s filePayload \<Rightarrow> string option) \<Rightarrow> io_fault \<Rightarrow> ('s filePayload \<Rightarrow> 's filePayload)
   \<Rightarrow> 's FileStore \<times> files \<Rightarrow> string option \<times> 's FileStore \<times> files" where
  "update enc fault f sf =
     (let s = (fst sf)\<lparr>fs_data := f (fs_data (fst sf))\<rparr>; (err, fls) = persistLocked enc fault s (snd sf)
      in (err, s, fls))"

section \<open>Workflows\<close>

definition SaveWorkflow where
  "SaveWorkflow enc fault record =
     update enc fault (\<lambda>p. p\<lparr>fp_Workflows := map_set (t_ID (wf_Task record)) record (fp_Workflows p)\<rparr>)"

definition GetWorkflow :: "'s FileStore \<Rightarrow> string \<Rightarrow> WorkflowRecord option" where
  "GetWorkflow s workflowID = map_of (fp_Workflows (fs_data s)) workflowID"

definition ListWorkflows :: "'s FileStore \<Rightarrow> WorkflowRecord list" where
  "ListWorkflows s = sort_key (\<lambda>r. - wf_UpdatedAt r) (map snd (fp_Workflows (fs_data s)))"

definition WorkflowCount :: "'s FileStore \<Rightarrow> int" where
  "WorkflowCount s = int (length (fp_Workflows (fs_data s)))"

section \<open>Sessions\<close>

definition sessionKey :: "string \<Rightarrow> string \<Rightarrow> string" where
  "sessionKey sessionID branch = sessionID @ ''::'' @ branch"

definition currentVersion :: "'s FileStore \<Rightarrow> string \<Rightarrow> string \<Rightarrow> int" where
  "currentVersion s sessionID branch =
     (case map_of (fp_SessionStates (fs_data s)) (sessionKey sessionID branch) of
        Some current \<Rightarrow> sv_Version current
      | None \<Rightarrow> 0)"

definition SaveSessionState ::
  "('s filePayload \<Rightarrow> string option) \<Rightarrow> io_fault \<Rightarrow> time \<Rightarrow> string \<Rightarrow> string \<Rightarrow> 's \<Rightarrow> string \<Rightarrow> string
   \<Rightarrow> int option \<Rightarrow> 's FileStore \<times> files
   \<Rightarrow> (string option \<times> 's SessionState option) \<times> 's FileStore \<times> files" where
  "SaveSessionState enc fault now sessionID branch stateValue promptVersion contextVersion expectedVersion sf =
     (let cur = currentVersion (fst sf) sessionID branch in
      if expectedVersion \<noteq> None \<and> the expectedVersion \<noteq> cur
      then ((Some ''session state version conflict'', None), sf)
      else
        let next = \<lparr>sv_SessionID = sessionID, sv_Branch = branch, sv_Version = cur + 1,
                    sv_PromptVersion = promptVersion, sv_ContextVersion = contextVersion,
                    sv_State = stateValue, sv_UpdatedAt = now, sv_StorageMode = fs_storageMode (fst sf)\<rparr>;
            (err, sf) = update enc fault
              (\<lambda>p. p\<lparr>fp_SessionStates := map_set (sessionKey sessionID branch) next (fp_SessionStates p)\<rparr>) sf
        in ((err, Some next), sf))"

definition GetSessionState :: "'s FileStore \<Rightarrow> string \<Rightarrow> string \<Rightarrow> 's SessionState option" where
  "GetSessionState s sessionID branch =
     map_of (fp_SessionStates (fs_data s)) (sessionKey sessionID branch)"

definition invalidationsOf :: "'s filePayload \<Rightarrow> string \<Rightarrow> InvalidationEvent list" where
  "invalidationsOf p key = (case map_of (fp_Invalidations p) key of None \<Rightarrow> [] | Some es \<Rightarrow> es)"

definition RecordInvalidation ::
  "('s filePayload \<Rightarrow> string option) \<Rightarrow> io_fault \<Rightarrow> time \<Rightarrow> string \<Rightarrow> string \<Rightarrow> string \<Rightarrow> go_map
   \<Rightarrow> 's FileStore \<times> files \<Rightarrow> (string option \<times> InvalidationEvent) \<times> 's FileStore \<times> files" where
  "RecordInvalidation enc fault now sessionID branch reason payload sf =
     (let event = \<lparr>iv_SessionID = sessionID, iv_Branch = branch, iv_Reason = reason, iv_Payload = payload,
                   iv_LoggedAt = now, iv_StorageMode = fs_storageMode (fst sf)\<rparr>;
          key = sessionKey sessionID branch;
          (err, sf) = update enc fault
            (\<lambda>p. p\<lparr>fp_Invalidations := map_set key (invalidationsOf p key @ [event]) (fp_Invalidations p)\<rparr>) sf
      in ((err, event), sf))"

definition RecentInvalidations :: "'s FileStore \<Rightarrow> string \<Rightarrow> string \<Rightarrow> int \<Rightarrow> InvalidationEvent list" where
  "RecentInvalidations s sessionID branch limit =
     (let events = invalidationsOf (fs_data s) (sessionKey sessionID branch);
          start = (if limit > 0 \<and> int (length events) > limit then length events - nat limit else 0)
      in drop start events)"

section \<open>Memories and artifacts\<close>

text \<open>The upserts skip items with a blank id and fill in missing times.\<close>

definition upsertAll :: "('a \<Rightarrow> string) \<Rightarrow> ('a \<Rightarrow> 'a) \<Rightarrow> 'a list \<Rightarrow> (string \<times> 'a) list \<Rightarrow> (string \<times> 'a) list" where
  "upsertAll key fillIn items m =
     fold (\<lambda>i m. if TrimSpace (key i) = [] then m else map_set (key i) (fillIn i) m) items m"

definition filled :: "time \<Rightarrow> time \<Rightarrow> time" where
  "filled dflt t = (if t = zero_time then dflt else t)"

definition fieldWanted :: "string \<Rightarrow> string \<Rightarrow> bool" where
  "fieldWanted wanted actual \<longleftrightarrow> TrimSpace wanted = [] \<or> actual = TrimSpace wanted"

definition limited :: "int \<Rightarrow> 'a list \<Rightarrow> 'a list" where
  "limited limit xs = (if limit > 0 \<and> int (length xs) > limit then take (nat limit) xs else xs)"

definition UpsertVectorChunks where
  "UpsertVectorChunks enc fault chunks =
     update enc fault (\<lambda>p. p\<lparr>fp_VectorChunks := upsertAll vc_ChunkID (\<lambda>c. c) chunks (fp_VectorChunks p)\<rparr>)"

definition ListVectorChunks :: "'s FileStore \<Rightarrow> string \<Rightarrow> string \<Rightarrow> int \<Rightarrow> VectorChunk list" where
  "ListVectorChunks s sessionID branch limit =
     limited limit (sort_key (\<lambda>c. - vc_CreatedAt c)
       (filter (\<lambda>c. fieldWanted sessionID (vc_SessionID c) \<and> fieldWanted branch (vc_Branch c))
          (map snd (fp_VectorChunks (fs_data s)))))"

definition completeRAGDocument :: "time \<Rightarrow> RAGDocument \<Rightarrow> RAGDocument" where
  "completeRAGDocument now d =
     (let created = filled now (rd_CreatedAt d)
      in d\<lparr>rd_CreatedAt := created, rd_UpdatedAt := filled created (rd_UpdatedAt d)\<rparr>)"

definition UpsertRAGDocuments where
  "UpsertRAGDocuments enc fault now documents =
     update enc fault (\<lambda>p. p\<lparr>fp_RAGDocuments :=
       upsertAll rd_DocumentID (completeRAGDocument now) documents (fp_RAGDocuments p)\<rparr>)"

text \<open>The listings sort by the time of the last update, then of the creation, the newest first.\<close>

definition ListRAGDocuments :: "'s FileStore \<Rightarrow> string \<Rightarrow> string \<Rightarrow> int \<Rightarrow> RAGDocument list" where
  "ListRAGDocuments s scope ownerID limit =
     limited limit (sort_key (\<lambda>d. - rd_UpdatedAt d) (sort_key (\<lambda>d. - rd_CreatedAt d)
       (filter (\<lambda>d. fieldWanted scope (rd_Scope d) \<and> fieldWanted ownerID (rd_OwnerID d))
          (map snd (fp_RAGDocuments (fs_data s))))))"

definition completeRAGMemory :: "time \<Rightarrow> RAGMemoryRecord \<Rightarrow> RAGMemoryRecord" where
  "completeRAGMemory now d =
     (let created = filled now (rr_CreatedAt d)
      in d\<lparr>rr_CreatedAt := created, rr_UpdatedAt := filled created (rr_UpdatedAt d)\<rparr>)"

definition UpsertRAGMemories where
  "UpsertRAGMemories enc fault now memories =
     update enc fault (\<lambda>p. p\<lparr>fp_RAGMemories :=
       upsertAll rr_MemoryID (completeRAGMemory now) memories (fp_RAGMemories p)\<rparr>)"

definition ListRAGMemories :: "'s FileStore \<Rightarrow> string \<Rightarrow> string \<Rightarrow> int \<Rightarrow> RAGMemoryRecord list" where
  "ListRAGMemories s scope ownerID limit =
     limited limit (sort_key (\<lambda>d. - rr_UpdatedAt d) (sort_key (\<lambda>d. - rr_CreatedAt d)
       (filter (\<lambda>d. fieldWanted scope (rr_Scope d) \<and> fieldWanted ownerID (rr_OwnerID d))
          (map snd (fp_RAGMemories (fs_data s))))))"

definition completeRouteMemory :: "time \<Rightarrow> RouteMemoryRecord \<Rightarrow> RouteMemoryRecord" where
  "completeRouteMemory now d =
     (let created = filled now (rt_CreatedAt d)
      in d\<lparr>rt_CreatedAt := created, rt_UpdatedAt := filled created (rt_UpdatedAt d)\<rparr>)"

definition UpsertRouteMemories where
  "UpsertRouteMemories enc fault now memories =
     update enc fault (\<lambda>p. p\<lparr>fp_RouteMemories :=
       upsertAll rt_RouteID (completeRouteMemory now) memories (fp_RouteMemories p)\<rparr>)"

definition ListRouteMemories :: "'s FileStore \<Rightarrow> string \<Rightarrow> string \<Rightarrow> string \<Rightarrow> int \<Rightarrow> RouteMemoryRecord list" where
  "ListRouteMemories s project repoFingerprint capability limit =
     limited limit (sort_key (\<lambda>d. - rt_UpdatedAt d) (sort_key (\<lambda>d. - rt_CreatedAt d)
       (filter (\<lambda>d. fieldWanted project (rt_Project d) \<and> fieldWanted repoFingerprint (rt_RepoFingerprint d)
                  \<and> fieldWanted capability (rt_Capability d))
          (map snd (fp_RouteMemories (fs_data s))))))"

definition completeVFSArtifact :: "time \<Rightarrow> VFSArtifact \<Rightarrow> VFSArtifact" where
  "completeVFSArtifact now a = a\<lparr>va_CreatedAt := filled now (va_CreatedAt a)\<rparr>"

definition UpsertVFSArtifacts where
  "UpsertVFSArtifacts enc fault now artifacts =
     update enc fault (\<lambda>p. p\<lparr>fp_VFSArtifacts :=
       upsertAll va_ArtifactID (completeVFSArtifact now) artifacts (fp_VFSArtifacts p)\<rparr>)"

definition GetVFSArtifact :: "'s FileStore \<Rightarrow> string \<Rightarrow> VFSArtifact option" where
  "GetVFSArtifact s artifactID = map_of (fp_VFSArtifacts (fs_data s)) (TrimSpace artifactID)"

definition completeVFSCheckpoint :: "time \<Rightarrow> VFSCheckpointRecord \<Rightarrow> VFSCheckpointRecord" where
  "completeVFSCheckpoint now c =
     (let created = filled now (vk_CreatedAt c)
      in c\<lparr>vk_CreatedAt := created, vk_UpdatedAt := filled created (vk_UpdatedAt c)\<rparr>)"

definition UpsertVFSCheckpoints where
  "UpsertVFSCheckpoints enc fault now checkpoints =
     update enc fault (\<lambda>p. p\<lparr>fp_VFSCheckpoints :=
       upsertAll vk_Path (completeVFSCheckpoint now) checkpoints (fp_VFSCheckpoints p)\<rparr>)"

definition GetVFSCheckpoint :: "'s FileStore \<Rightarrow> string \<Rightarrow> VFSCheckpointRecord option" where
  "GetVFSCheckpoint s path = map_of (fp_VFSCheckpoints (fs_data s)) (TrimSpace path)"

record StoreSnapshot =
  sn_storage_mode :: string
  sn_path :: string
  sn_workflow_count :: nat
  sn_session_count :: nat
  sn_invalidation_count :: nat
  sn_vector_chunk_count :: nat
  sn_rag_document_count :: nat
  sn_rag_memory_count :: nat
  sn_route_memory_count :: nat
  sn_vfs_artifact_count :: nat
  sn_vfs_checkpoint_count :: nat

definition StoreSnapshotOf :: "'s FileStore \<Rightarrow> StoreSnapshot" where
  "StoreSnapshotOf s =
     (let p = fs_data s in
      \<lparr>sn_storage_mode = fs_storageMode s, sn_path = fs_path s,
       sn_workflow_count = length (fp_Workflows p), sn_session_count = length (fp_SessionStates p),
       sn_invalidation_count = length (fp_Invalidations p),
       sn_vector_chunk_count = length (fp_VectorChunks p),
       sn_rag_document_count = length (fp_RAGDocuments p),
       sn_rag_memory_count = length (fp_RAGMemories p),
       sn_route_memory_count = length (fp_RouteMemories p),
       sn_vfs_artifact_count = length (fp_VFSArtifacts p),
       sn_vfs_checkpoint_count = length (fp_VFSCheckpoints p)\<rparr>)"

section \<open>Calls\<close>

text \<open>The operations that change a store, as data, and what one of them does under a fault.\<close>

datatype 's store_op =
    OpWorkflow WorkflowRecord
  | OpSession time string string 's string string "int option"
  | OpInvalidate time string string string go_map
  | OpChunks "VectorChunk list"
  | OpDocuments time "RAGDocument list"
  | OpMemories time "RAGMemoryRecord list"
  | OpRoutes time "RouteMemoryRecord list"
  | OpArtifacts time "VFSArtifact list"
  | OpCheckpoints time "VFSCheckpointRecord list"

fun store_call ::
  "('s filePayload \<Rightarrow> string option) \<Rightarrow> io_fault \<Rightarrow> 's store_op \<Rightarrow> 's FileStore \<times> files
   \<Rightarrow> string option \<times> 's FileStore \<times> files" where
  "store_call enc fault (OpWorkflow r) sf = SaveWorkflow enc fault r sf"
| "store_call enc fault (OpSession now sid br v pv cv ev) sf =
     (case SaveSessionState enc fault now sid br v pv cv ev sf of ((err, _), sf') \<Rightarrow> (err, sf'))"
| "store_call enc fault (OpInvalidate now sid br reason payload) sf =
     (case RecordInvalidation enc fault now sid br reason payload sf of ((err, _), sf') \<Rightarrow> (err, sf'))"
| "store_call enc fault (OpChunks cs) sf = UpsertVectorChunks enc fault cs sf"
| "store_call enc fault (OpDocuments now ds) sf = UpsertRAGDocuments enc fault now ds sf"
| "store_call enc fault (OpMemories now ms) sf = UpsertRAGMemories enc fault now ms sf"
| "store_call enc fault (OpRoutes now rs) sf = UpsertRouteMemories enc fault now rs sf"
| "store_call enc fault (OpArtifacts now as) sf = UpsertVFSArtifacts enc fault now as sf"
| "store_call enc fault (OpCheckpoints now cs) sf = UpsertVFSCheckpoints enc fault now cs sf"

lemmas store_op_defs = SaveWorkflow_def UpsertVectorChunks_def UpsertRAGDocuments_def
  UpsertRAGMemories_def UpsertRouteMemories_def UpsertVFSArtifacts_def UpsertVFSCheckpoints_def

text \<open>Every call is an update of the maps, or a version conflict that changes nothing.\<close>

lemma store_call_cases:
  obtains (updates) f where "store_call enc fault op sf = update enc fault f sf"
      "\<And>k. (case map_of (fp_SessionStates (fs_data (fst sf))) k of Some c \<Rightarrow> sv_Version c | None \<Rightarrow> 0)
         \<le> (case map_of (fp_SessionStates (f (fs_data (fst sf)))) k of Some c \<Rightarrow> sv_Version c | None \<Rightarrow> 0)"
  | (conflict) "store_call enc fault op sf = (Some ''session state version conflict'', sf)"
proof (cases op)
  case (OpSession now sid br v pv cv ev)
  define cur where "cur = currentVersion (fst sf) sid br"
  define nxt where "nxt = \<lparr>sv_SessionID = sid, sv_Branch = br, sv_Version = cur + 1, sv_PromptVersion = pv,
      sv_ContextVersion = cv, sv_State = v, sv_UpdatedAt = now, sv_StorageMode = fs_storageMode (fst sf)\<rparr>"
  show ?thesis
  proof (cases "ev \<noteq> None \<and> the ev \<noteq> cur")
    case True
    then show ?thesis
      using conflict OpSession by (simp add: SaveSessionState_def cur_def)
  next
    case False
    have "store_call enc fault op sf = update enc fault
        (\<lambda>p. p\<lparr>fp_SessionStates := map_set (sessionKey sid br) nxt (fp_SessionStates p)\<rparr>) sf"
      using False OpSession
      by (auto simp: SaveSessionState_def cur_def [symmetric] nxt_def [symmetric] Let_def split_beta)
    then show ?thesis
      by (rule updates) (auto simp: nxt_def cur_def currentVersion_def split: option.split)
  qed
next
  case (OpInvalidate now sid br reason payload)
  show ?thesis
    by (rule updates [of "\<lambda>p. p\<lparr>fp_Invalidations := map_set (sessionKey sid br)
          (invalidationsOf p (sessionKey sid br) @ [\<lparr>iv_SessionID = sid, iv_Branch = br, iv_Reason = reason,
             iv_Payload = payload, iv_LoggedAt = now, iv_StorageMode = fs_storageMode (fst sf)\<rparr>])
          (fp_Invalidations p)\<rparr>"])
      (simp_all add: OpInvalidate RecordInvalidation_def Let_def split_beta)
qed (rule updates, simp add: store_op_defs, simp)+

lemma fs_path_update: "update enc fault f sf = (err, s, fls) \<Longrightarrow> fs_path s = fs_path (fst sf) \<and> fs_data s = f (fs_data (fst sf))"
  by (auto simp: update_def Let_def split: prod.splits)

lemma store_call_path: "store_call enc fault op sf = (err, s, fls) \<Longrightarrow> fs_path s = fs_path (fst sf)"
  by (rule store_call_cases [of enc fault op sf]) (auto dest: fs_path_update)

lemma update_load:
  assumes "\<And>p c. enc p = Some c \<Longrightarrow> c \<noteq> [] \<and> dec c = Some p"
    and "update enc fault f sf = (err, s, fls)"
  shows "load dec fls (fs_path s) = (if err = None then Inr (fs_data s) else load dec (snd sf) (fs_path s))"
  using assms by (auto simp: update_def persistLocked_def load_def Let_def split: option.splits io_fault.splits)

lemma store_call_load:
  assumes "\<And>p c. enc p = Some c \<Longrightarrow> c \<noteq> [] \<and> dec c = Some p"
    and "store_call enc fault op sf = (err, s, fls)"
  shows "load dec fls (fs_path s) = (if err = None then Inr (fs_data s) else load dec (snd sf) (fs_path s))"
proof (rule store_call_cases [of enc fault op sf])
  fix f assume "store_call enc fault op sf = update enc fault f sf"
  then have "update enc fault f sf = (err, s, fls)" using assms(2) by simp
  with assms(1) show ?thesis by (rule update_load)
qed (use assms(2) in auto)

text \<open>A sequence of calls, each with its fault; the last component is the content committed last.\<close>

fun store_run ::
  "('s filePayload \<Rightarrow> string option) \<Rightarrow> (io_fault \<times> 's store_op) list \<Rightarrow> ('s FileStore \<times> files) \<times> 's filePayload
   \<Rightarrow> ('s FileStore \<times> files) \<times> 's filePayload" where
  "store_run enc [] st = st"
| "store_run enc ((fault, op) # calls) (sf, committed) =
     (case store_call enc fault op sf of
        (err, s, fls) \<Rightarrow> store_run enc calls ((s, fls), if err = None then fs_data s else committed))"

lemma store_run_load:
  assumes "\<And>p c. enc p = Some c \<Longrightarrow> c \<noteq> [] \<and> dec c = Some p"
    and "load dec (snd sf) (fs_path (fst sf)) = Inr committed"
    and "store_run enc calls (sf, committed) = ((s', fls'), committed')"
  shows "load dec fls' (fs_path s') = Inr committed' \<and> fs_path s' = fs_path (fst sf)"
  using assms(2,3)
proof (induction calls arbitrary: sf committed)
  case (Cons call calls)
  obtain fault op where c: "call = (fault, op)" by fastforce
  obtain err s fls where r: "store_call enc fault op sf = (err, s, fls)" by (metis prod_cases3)
  have "load dec (snd (s, fls)) (fs_path (fst (s, fls))) = Inr (if err = None then fs_data s else committed)"
    using store_call_load [OF assms(1) r] store_call_path [OF r] Cons.prems(1) by simp
  then show ?case
    using Cons.IH Cons.prems(2) store_call_path [OF r] by (fastforce simp: c r)
qed simp

lemma store_call_version_mono:
  "currentVersion (fst sf) sid br \<le> currentVersion (fst (snd (store_call enc fault op sf))) sid br"
proof (rule store_call_cases [of enc fault op sf])
  fix f assume f: "store_call enc fault op sf = update enc fault f sf"
    "\<And>k. (case map_of (fp_SessionStates (fs_data (fst sf))) k of Some c \<Rightarrow> sv_Version c | None \<Rightarrow> 0)
         \<le> (case map_of (fp_SessionStates (f (fs_data (fst sf)))) k of Some c \<Rightarrow> sv_Version c | None \<Rightarrow> 0)"
  obtain err s fls where r: "update enc fault f sf = (err, s, fls)" by (metis prod_cases3)
  then show ?thesis
    using f fs_path_update [OF r] by (simp add: currentVersion_def)
qed simp

lemma store_run_version_mono:
  "currentVersion (fst sf) sid br \<le> currentVersion (fst (fst (store_run enc calls (sf, c)))) sid br"
proof (induction calls arbitrary: sf c)
  case (Cons call calls)
  obtain fault op where call: "call = (fault, op)" by fastforce
  obtain err s fls where r: "store_call enc fault op sf = (err, s, fls)" by (metis prod_cases3)
  have "currentVersion (fst sf) sid br \<le> currentVersion s sid br"
    using store_call_version_mono [of sf sid br enc fault op] by (simp add: r)
  also have "\<dots> \<le> currentVersion (fst (fst (store_run enc calls ((s, fls), if err = None then fs_data s else c)))) sid br"
    using Cons.IH [of "(s, fls)"] by simp
  finally show ?case by (simp add: call r)
qed simp

section \<open>Properties\<close>

text \<open>C24. The file survives faults: whatever calls are made on a store and whatever writes or renames
  fail on the way, with bytes left behind in the temporary file or not, a store opened from the
  file afterwards holds exactly what the last successful call had committed.\<close>

theorem store_file_is_last_commit:
  assumes "\<And>p c. enc p = Some c \<Longrightarrow> c \<noteq> [] \<and> dec c = Some p"
    and "NewFileStore dec fls path = Inr s"
    and "store_run enc calls ((s, fls), fs_data s) = ((s', fls'), committed)"
  shows "NewFileStore dec fls' path = Inr (s\<lparr>fs_data := committed\<rparr>)"
proof -
  define p where "p = (if path = [] then ''memory_store/go_core_state.json'' else path)"
  have s: "load dec fls p = Inr (fs_data s)" "fs_path s = p" "fs_storageMode s = ''go_file_store''"
    using assms(2) by (auto simp: NewFileStore_def p_def Let_def split: sum.splits)
  then have "load dec fls' p = Inr committed"
    using store_run_load [where sf = "(s, fls)" and committed = "fs_data s", OF assms(1) _ assms(3)]
    by (metis fst_conv snd_conv)
  then show ?thesis
    using s by (simp add: NewFileStore_def p_def [symmetric])
qed

text \<open>Two versions of one session, for the instances below, and a codec that knows them.\<close>

definition example_session_state :: "int \<Rightarrow> nat SessionState" where
  "example_session_state v = \<lparr>sv_SessionID = ''s'', sv_Branch = ''b'', sv_Version = v, sv_PromptVersion = [],
     sv_ContextVersion = [], sv_State = 7, sv_UpdatedAt = 1, sv_StorageMode = ''go_file_store''\<rparr>"

definition example_payload :: "int \<Rightarrow> nat filePayload" where
  "example_payload v = empty_payload\<lparr>fp_SessionStates := [(''s::b'', example_session_state v)]\<rparr>"

definition example_enc :: "nat filePayload \<Rightarrow> string option" where
  "example_enc p = (if p = example_payload 1 then Some ''1'' else if p = example_payload 2 then Some ''2'' else None)"

definition example_dec :: "string \<Rightarrow> nat filePayload option" where
  "example_dec c = (if c = ''1'' then Some (example_payload 1) else if c = ''2'' then Some (example_payload 2) else None)"

definition example_store :: "nat FileStore" where
  "example_store = \<lparr>fs_path = ''f'', fs_storageMode = ''go_file_store'', fs_data = empty_payload\<rparr>"

definition save_op :: "nat store_op" where
  "save_op = OpSession 1 ''s'' ''b'' 7 [] [] None"

lemma example_codec: "example_enc p = Some c \<Longrightarrow> c \<noteq> [] \<and> example_dec c = Some p"
  by (auto simp: example_enc_def example_dec_def split: if_splits)

text \<open>A save succeeds, the next one fails after half a write: the file still has version 1.\<close>

theorem store_file_is_last_commit_witness:
  "\<exists>s' fls'. store_run example_enc [(NoFault, save_op), (WriteFails ''junk'' ''disk full'', save_op)]
       ((example_store, Map.empty), empty_payload) = ((s', fls'), example_payload 1)
     \<and> NewFileStore example_dec fls' ''f'' = Inr (example_store\<lparr>fs_data := example_payload 1\<rparr>)"
proof -
  define r where "r = store_run example_enc [(NoFault, save_op), (WriteFails ''junk'' ''disk full'', save_op)]
       ((example_store, Map.empty), empty_payload)"
  have new: "NewFileStore example_dec Map.empty ''f'' = Inr example_store"
    by (simp add: NewFileStore_def load_def example_store_def)
  have c: "snd r = example_payload 1"
    by (simp add: r_def save_op_def SaveSessionState_def currentVersion_def example_store_def empty_payload_def
        Let_def update_def persistLocked_def example_enc_def example_payload_def example_session_state_def
        sessionKey_def)
  obtain s' fls' where r: "r = ((s', fls'), example_payload 1)"
    using c by (metis prod.collapse)
  have "fs_data example_store = empty_payload" by (simp add: example_store_def)
  then have "store_run example_enc [(NoFault, save_op), (WriteFails ''junk'' ''disk full'', save_op)]
       ((example_store, Map.empty), fs_data example_store) = ((s', fls'), example_payload 1)"
    using r unfolding r_def by (simp only:)
  from store_file_is_last_commit [OF example_codec new this]
  have "NewFileStore example_dec fls' ''f'' = Inr (example_store\<lparr>fs_data := example_payload 1\<rparr>)" .
  then show ?thesis using r unfolding r_def by blast
qed

text \<open>C25. Optimistic locking: a save with an expected version succeeds in changing the state exactly
  when that version is the current one, which it raises by one; a writer that read an older
  version is refused without any effect, however many calls of whatever kind, failed ones
  included, lie between its read and its write.\<close>

theorem stale_writers_are_refused:
  assumes "currentVersion s sid br = v"
    and "SaveSessionState enc fault now sid br x pv cv (Some v) (s, fls) = ((err, res), sf1)"
    and "store_run enc calls (sf1, c) = (sf2, c2)"
  shows "(\<exists>st. res = Some st \<and> sv_Version st = v + 1 \<and> sv_State st = x \<and> GetSessionState (fst sf1) sid br = Some st)
    \<and> currentVersion (fst sf1) sid br = v + 1
    \<and> SaveSessionState enc fault' now' sid br y pv' cv' (Some v) sf2 =
        ((Some ''session state version conflict'', None), sf2)"
proof -
  have 1: "\<exists>st. res = Some st \<and> sv_Version st = v + 1 \<and> sv_State st = x \<and> GetSessionState (fst sf1) sid br = Some st"
    using assms(1,2)
    by (auto simp: SaveSessionState_def Let_def update_def GetSessionState_def split: prod.splits)
  then have 2: "currentVersion (fst sf1) sid br = v + 1"
    by (auto simp: currentVersion_def GetSessionState_def)
  then have "v < currentVersion (fst sf2) sid br"
    using store_run_version_mono [of sf1 sid br enc calls c] assms(3) by simp
  then show ?thesis
    using 1 2 by (auto simp: SaveSessionState_def Let_def)
qed

theorem stale_writers_are_refused_witness:
  "\<exists>sf. SaveSessionState example_enc NoFault 1 ''s'' ''b'' 7 [] [] (Some 0) (example_store, Map.empty) =
       ((None, Some (example_session_state 1)), sf)
     \<and> SaveSessionState example_enc NoFault 2 ''s'' ''b'' 8 [] [] (Some 0) sf =
       ((Some ''session state version conflict'', None), sf)"
proof -
  define r where "r = SaveSessionState example_enc NoFault 1 ''s'' ''b'' 7 [] [] (Some 0) (example_store, Map.empty)"
  have f: "fst r = (None, Some (example_session_state 1))"
    by (simp add: r_def SaveSessionState_def currentVersion_def example_store_def empty_payload_def
        Let_def update_def persistLocked_def example_enc_def example_payload_def example_session_state_def
        sessionKey_def)
  have 0: "currentVersion example_store ''s'' ''b'' = 0"
    by (simp add: currentVersion_def example_store_def empty_payload_def)
  have r: "r = ((None, Some (example_session_state 1)), snd r)"
    using f by (metis prod.collapse)
  have "store_run example_enc [] (snd r, empty_payload) = (snd r, empty_payload)" by simp
  from stale_writers_are_refused [OF 0 r [unfolded r_def] this [unfolded r_def]]
  show ?thesis using r unfolding r_def by blast
qed

text \<open>A save whose file write fails is reported as an error but kept in memory: the next read
  returns the new state, and the caller that retries with the version it expected is refused.\<close>

theorem failed_save_is_kept:
  assumes "currentVersion s sid br = v" and "enc (fs_data (fst sf1)) = Some content" and "fault = WriteFails junk e"
    and "SaveSessionState enc fault now sid br x pv cv (Some v) (s, fls) = ((err, res), sf1)"
  shows "err = Some e \<and> GetSessionState (fst sf1) sid br = res \<and> res \<noteq> None
    \<and> SaveSessionState enc NoFault now sid br x pv cv (Some v) sf1 =
        ((Some ''session state version conflict'', None), sf1)"
proof -
  define nxt where "nxt = \<lparr>sv_SessionID = sid, sv_Branch = br, sv_Version = v + 1, sv_PromptVersion = pv,
      sv_ContextVersion = cv, sv_State = x, sv_UpdatedAt = now, sv_StorageMode = fs_storageMode s\<rparr>"
  have r: "res = Some nxt" "GetSessionState (fst sf1) sid br = Some nxt" "err = Some e"
    using assms by (auto simp: SaveSessionState_def Let_def update_def GetSessionState_def persistLocked_def
        nxt_def split: prod.splits option.splits)
  then have "currentVersion (fst sf1) sid br = v + 1"
    by (simp add: currentVersion_def GetSessionState_def nxt_def)
  then show ?thesis
    using r by (simp add: SaveSessionState_def Let_def)
qed

theorem failed_save_is_kept_witness:
  "\<exists>sf. SaveSessionState example_enc (WriteFails [] ''disk full'') 1 ''s'' ''b'' 7 [] [] (Some 0) (example_store, Map.empty) =
       ((Some ''disk full'', Some (example_session_state 1)), sf)
     \<and> GetSessionState (fst sf) ''s'' ''b'' = Some (example_session_state 1)"
proof -
  define r where "r = SaveSessionState example_enc (WriteFails [] ''disk full'') 1 ''s'' ''b'' 7 [] [] (Some 0) (example_store, Map.empty)"
  have f: "fst r = (Some ''disk full'', Some (example_session_state 1))" "fs_data (fst (snd r)) = example_payload 1"
    by (simp_all add: r_def SaveSessionState_def currentVersion_def example_store_def empty_payload_def
        Let_def update_def persistLocked_def example_enc_def example_payload_def example_session_state_def
        sessionKey_def)
  have 0: "currentVersion example_store ''s'' ''b'' = 0"
    by (simp add: currentVersion_def example_store_def empty_payload_def)
  have e: "example_enc (fs_data (fst (snd r))) = Some ''1''"
    by (simp add: f(2) example_enc_def)
  have r: "r = ((Some ''disk full'', Some (example_session_state 1)), snd r)"
    using f by (metis prod.collapse)
  from failed_save_is_kept [OF 0 e [unfolded r_def] refl r [unfolded r_def]]
  show ?thesis using r unfolding r_def by blast
qed

text \<open>Session keys collide: the key joins session and branch with two colons without escaping
  them, so what is saved for branch \<open>b::c\<close> of session \<open>a\<close> is what a read of branch \<open>c\<close> of session
  \<open>a::b\<close> returns.\<close>

theorem session_keys_collide:
  "GetSessionState (fst (snd (SaveSessionState enc fault now a (b @ ''::'' @ c) x pv cv None (s, fls)))) (a @ ''::'' @ b) c =
   snd (fst (SaveSessionState enc fault now a (b @ ''::'' @ c) x pv cv None (s, fls)))"
  by (simp add: SaveSessionState_def GetSessionState_def sessionKey_def update_def Let_def split_beta)

lemma RecentInvalidations_lastn:
  "0 < n \<Longrightarrow> RecentInvalidations s sid br (int n) = lastn n (invalidationsOf (fs_data s) (sessionKey sid br))"
  by (auto simp: RecentInvalidations_def lastn_def Let_def)

end
