(* ===== verification/Vfs.thy ===== *)
theory Vfs
  imports FileStore
begin

text \<open>
  The checkpoint manager of \<open>vfs/manager.go\<close>. Long strings of a checkpoint are moved out into
  artifacts, named by the hash of their content, and put back when the checkpoint is read. The
  manager works on any \<open>state.Store\<close>: the four operations it calls are a record of functions on
  a world, what it needs of them is the locale \<open>vfs_laws\<close>, and the file store provides them.
  Parameters: \<open>sha\<close> is SHA-256 and \<open>marshal\<close> the JSON encoding of a map.
\<close>

record 'w vfs_store =
  vs_UpsertVFSArtifacts :: "VFSArtifact list \<Rightarrow> 'w \<Rightarrow> string option \<times> 'w"
  vs_GetVFSArtifact :: "string \<Rightarrow> 'w \<Rightarrow> string + VFSArtifact option"
  vs_UpsertVFSCheckpoints :: "VFSCheckpointRecord list \<Rightarrow> 'w \<Rightarrow> string option \<times> 'w"
  vs_GetVFSCheckpoint :: "string \<Rightarrow> 'w \<Rightarrow> string + VFSCheckpointRecord option"

section \<open>Names and rules\<close>

definition defaultArtifactThreshold :: nat where
  "defaultArtifactThreshold = 2048"

definition shouldExternalizeString :: "string \<Rightarrow> string \<Rightarrow> nat \<Rightarrow> bool" where
  "shouldExternalizeString key value threshold =
     (if length value < threshold then False
      else if ToLower (TrimSpace key) \<in> set [''summary'', ''diff'', ''markdown'', ''raw_output'',
                ''raw_response'', ''logs''] then True
      else length value \<ge> threshold * 2)"

definition guessArtifactMime :: "string \<Rightarrow> string" where
  "guessArtifactMime key =
     (let k = ToLower (TrimSpace key) in
      if k = ''markdown'' then ''text/markdown'' else if k = ''diff'' then ''text/x-diff'' else ''text/plain'')"

fun replaceTokens :: "string \<Rightarrow> string" where
  "replaceTokens [] = []"
| "replaceTokens (c # s) =
     (if c = CHR ''/'' \<or> c = CHR 0x5C \<or> c = CHR '':'' then CHR ''_'' # replaceTokens s
      else case s of
             [] \<Rightarrow> [c]
           | d # s' \<Rightarrow> if c = CHR ''.'' \<and> d = CHR ''.'' then CHR ''_'' # replaceTokens s'
                       else c # replaceTokens s)"

definition sanitizeStorageToken :: "string \<Rightarrow> string" where
  "sanitizeStorageToken value = replaceTokens (TrimSpace value)"

definition checkpointStorageURI :: "string \<Rightarrow> string" where
  "checkpointStorageURI path = ''postgres://go_vfs_checkpoints/'' @ sanitizeStorageToken path"

definition artifactStorageURI :: "string \<Rightarrow> string" where
  "artifactStorageURI artifactID = ''postgres://go_vfs_artifacts/'' @ sanitizeStorageToken artifactID"

definition checksumValue :: "(string \<Rightarrow> string) \<Rightarrow> (go_map \<Rightarrow> string) \<Rightarrow> go_map \<Rightarrow> string" where
  "checksumValue sha marshal value = hex_encode (sha (marshal value))"

section \<open>Moving strings out\<close>

definition persistArtifact :: "(string \<Rightarrow> string) \<Rightarrow> time \<Rightarrow> string \<Rightarrow> string \<Rightarrow> VFSArtifact" where
  "persistArtifact sha now key content =
     (let artifactID = hex_encode (sha content) in
      \<lparr>va_ArtifactID = artifactID, va_StorageURI = artifactStorageURI artifactID,
       va_SHA256 = artifactID, va_SizeBytes = int (length content), va_MIMEType = guessArtifactMime key,
       va_Content = content, va_Metadata = [(''field'', AnyString key)], va_CreatedAt = now\<rparr>)"

definition artifactRef :: "VFSArtifact \<Rightarrow> any" where
  "artifactRef a = AnyMap [(''$vfs_artifact'', AnyString (va_ArtifactID a)), (''sha256'', AnyString (va_SHA256 a)),
     (''size_bytes'', AnyInt (va_SizeBytes a)), (''mime_type'', AnyString (va_MIMEType a))]"

fun externalized :: "string \<Rightarrow> any \<Rightarrow> string option" where
  "externalized key (AnyString text) =
     (if shouldExternalizeString key text defaultArtifactThreshold then Some text else None)"
| "externalized key _ = None"

fun walkValue :: "(string \<Rightarrow> string) \<Rightarrow> time \<Rightarrow> any \<Rightarrow> VFSArtifact list \<times> any"
  and walkMap :: "(string \<Rightarrow> string) \<Rightarrow> time \<Rightarrow> (string \<times> any) list \<Rightarrow> VFSArtifact list \<times> (string \<times> any) list"
  and walkList :: "(string \<Rightarrow> string) \<Rightarrow> time \<Rightarrow> any list \<Rightarrow> VFSArtifact list \<times> any list" where
  "walkValue sha now (AnyMap m) = (let (as, m') = walkMap sha now m in (as, AnyMap m'))"
| "walkValue sha now (AnyList vs) = (let (as, vs') = walkList sha now vs in (as, AnyList vs'))"
| "walkValue sha now v = ([], v)"
| "walkMap sha now [] = ([], [])"
| "walkMap sha now ((key, child) # m) =
     (let (as, v) = (case externalized key child of
                       Some text \<Rightarrow> (let a = persistArtifact sha now key text in ([a], artifactRef a))
                     | None \<Rightarrow> walkValue sha now child);
          (bs, m') = walkMap sha now m
      in (as @ bs, (key, v) # m'))"
| "walkList sha now [] = ([], [])"
| "walkList sha now (child # vs) =
     (let (as, v) = walkValue sha now child; (bs, vs') = walkList sha now vs in (as @ bs, v # vs'))"

definition extractArtifacts :: "(string \<Rightarrow> string) \<Rightarrow> time \<Rightarrow> go_map \<Rightarrow> VFSArtifact list \<times> go_map" where
  "extractArtifacts sha now value = walkMap sha now value"

section \<open>Putting strings back\<close>

definition artifactRefID :: "go_map \<Rightarrow> string option" where
  "artifactRefID m = (case map_of m ''$vfs_artifact'' of
     Some (AnyString ref) \<Rightarrow> if TrimSpace ref \<noteq> [] then Some ref else None
   | _ \<Rightarrow> None)"

fun walkHydrate :: "(string \<Rightarrow> string + VFSArtifact option) \<Rightarrow> any \<Rightarrow> string + any"
  and hydrateMap :: "(string \<Rightarrow> string + VFSArtifact option) \<Rightarrow> (string \<times> any) list \<Rightarrow> string + (string \<times> any) list"
  and hydrateList :: "(string \<Rightarrow> string + VFSArtifact option) \<Rightarrow> any list \<Rightarrow> string + any list" where
  "walkHydrate get (AnyMap m) =
     (case artifactRefID m of
        Some ref \<Rightarrow>
          (case get ref of
             Inl e \<Rightarrow> Inl e
           | Inr None \<Rightarrow> Inl (''vfs artifact '' @ ref @ '' not found in store'')
           | Inr (Some a) \<Rightarrow> Inr (AnyString (va_Content a)))
      | None \<Rightarrow> map_sum id AnyMap (hydrateMap get m))"
| "walkHydrate get (AnyList vs) = map_sum id AnyList (hydrateList get vs)"
| "walkHydrate get v = Inr v"
| "hydrateMap get [] = Inr []"
| "hydrateMap get ((key, child) # m) =
     (case walkHydrate get child of
        Inl e \<Rightarrow> Inl e
      | Inr v \<Rightarrow> map_sum id (\<lambda>m'. (key, v) # m') (hydrateMap get m))"
| "hydrateList get [] = Inr []"
| "hydrateList get (child # vs) =
     (case walkHydrate get child of
        Inl e \<Rightarrow> Inl e
      | Inr v \<Rightarrow> map_sum id (\<lambda>vs'. v # vs') (hydrateList get vs))"

text \<open>
  \<open>rehydrateArtifacts\<close>: the result is cast to a map, and a failed cast leaves the nil map, which
  happens when the whole checkpoint is itself a reference.
\<close>

definition rehydrateArtifacts :: "(string \<Rightarrow> string + VFSArtifact option) \<Rightarrow> go_map \<Rightarrow> string + go_map" where
  "rehydrateArtifacts get value =
     (case walkHydrate get (AnyMap value) of
        Inl e \<Rightarrow> Inl e
      | Inr (AnyMap m) \<Rightarrow> Inr m
      | Inr _ \<Rightarrow> Inr [])"

section \<open>Checkpoints\<close>

definition zero_VFSCheckpointRecord :: VFSCheckpointRecord where
  "zero_VFSCheckpointRecord = \<lparr>vk_Path = [], vk_TaskID = [], vk_AgentID = [], vk_Checkpoint = [],
     vk_Checksum = [], vk_Integrity = [], vk_Metadata = [], vk_StorageURI = [], vk_CreatedAt = zero_time,
     vk_UpdatedAt = zero_time\<rparr>"

definition checkpointRecord ::
  "(string \<Rightarrow> string) \<Rightarrow> (go_map \<Rightarrow> string) \<Rightarrow> time \<Rightarrow> VFSCheckpointRecord \<Rightarrow> VFSCheckpointRecord" where
  "checkpointRecord sha marshal now record =
     (let replaced = snd (extractArtifacts sha now (vk_Checkpoint record)) in
      record\<lparr>vk_Path := TrimSpace (vk_Path record),
        vk_CreatedAt := (if vk_CreatedAt record = zero_time then now else vk_CreatedAt record),
        vk_UpdatedAt := now, vk_Checkpoint := replaced, vk_Checksum := checksumValue sha marshal replaced,
        vk_Integrity := ''ok'', vk_StorageURI := checkpointStorageURI (TrimSpace (vk_Path record))\<rparr>)"

definition WriteCheckpoint ::
  "(string \<Rightarrow> string) \<Rightarrow> (go_map \<Rightarrow> string) \<Rightarrow> 'w vfs_store \<Rightarrow> time \<Rightarrow> VFSCheckpointRecord \<Rightarrow> 'w
   \<Rightarrow> (string + VFSCheckpointRecord) \<times> 'w" where
  "WriteCheckpoint sha marshal vs now record w =
     (if TrimSpace (vk_Path record) = [] then (Inl ''checkpoint path is required'', w)
      else
        let artifacts = fst (extractArtifacts sha now (vk_Checkpoint record));
            record = checkpointRecord sha marshal now record;
            (err, w) = (if artifacts \<noteq> [] then vs_UpsertVFSArtifacts vs artifacts w else (None, w))
        in case err of
             Some e \<Rightarrow> (Inl e, w)
           | None \<Rightarrow>
               let (err, w) = vs_UpsertVFSCheckpoints vs [record] w
               in case err of Some e \<Rightarrow> (Inl e, w) | None \<Rightarrow> (Inr record, w))"

definition ReadCheckpoint ::
  "(string \<Rightarrow> string) \<Rightarrow> (go_map \<Rightarrow> string) \<Rightarrow> 'w vfs_store \<Rightarrow> string \<Rightarrow> 'w
   \<Rightarrow> string + VFSCheckpointRecord option" where
  "ReadCheckpoint sha marshal vs path w =
     (case vs_GetVFSCheckpoint vs path w of
        Inl e \<Rightarrow> Inl e
      | Inr None \<Rightarrow> Inr None
      | Inr (Some record) \<Rightarrow>
          (case rehydrateArtifacts (\<lambda>i. vs_GetVFSArtifact vs i w) (vk_Checkpoint record) of
             Inl e \<Rightarrow> Inl e
           | Inr rehydrated \<Rightarrow>
               let record = record\<lparr>vk_Checkpoint := rehydrated\<rparr>;
                   integrity = (if checksumValue sha marshal rehydrated \<noteq> vk_Checksum record then ''corrupt''
                                else if TrimSpace (vk_Integrity record) = [] then ''ok''
                                else vk_Integrity record)
               in Inr (Some (record\<lparr>vk_Integrity := integrity\<rparr>))))"

section \<open>What the manager needs of a store\<close>

text \<open>
  The laws, each for calls that report success: an artifact that was upserted is found under its
  id as long as one id has one content, a checkpoint is found under its path, and writing
  checkpoints leaves the artifacts alone.
\<close>

locale vfs_laws =
  fixes vs :: "'w vfs_store"
  assumes artifact_found:
    "vs_UpsertVFSArtifacts vs as w = (None, w') \<Longrightarrow> a \<in> set as \<Longrightarrow>
     \<forall>b \<in> set as. va_ArtifactID b = va_ArtifactID a \<longrightarrow> va_Content b = va_Content a \<Longrightarrow>
     TrimSpace (va_ArtifactID a) = va_ArtifactID a \<Longrightarrow> va_ArtifactID a \<noteq> [] \<Longrightarrow>
     \<exists>b. vs_GetVFSArtifact vs (va_ArtifactID a) w' = Inr (Some b) \<and> va_Content b = va_Content a"
    and checkpoint_found:
    "vs_UpsertVFSCheckpoints vs [c] w = (None, w') \<Longrightarrow> TrimSpace (vk_Path c) = vk_Path c \<Longrightarrow> vk_Path c \<noteq> [] \<Longrightarrow>
     vk_CreatedAt c \<noteq> zero_time \<Longrightarrow> vk_UpdatedAt c \<noteq> zero_time \<Longrightarrow> TrimSpace path = vk_Path c \<Longrightarrow>
     vs_GetVFSCheckpoint vs path w' = Inr (Some c)"
    and artifacts_kept:
    "vs_UpsertVFSCheckpoints vs cs w = (None, w') \<Longrightarrow> vs_GetVFSArtifact vs i w' = vs_GetVFSArtifact vs i w"

text \<open>The file store as a provider: its world is a store and the files.\<close>

definition file_vfs ::
  "('s filePayload \<Rightarrow> string option) \<Rightarrow> io_fault \<Rightarrow> time \<Rightarrow> ('s FileStore \<times> files) vfs_store" where
  "file_vfs enc fault now = \<lparr>
     vs_UpsertVFSArtifacts = UpsertVFSArtifacts enc fault now,
     vs_GetVFSArtifact = (\<lambda>i w. Inr (GetVFSArtifact (fst w) i)),
     vs_UpsertVFSCheckpoints = UpsertVFSCheckpoints enc fault now,
     vs_GetVFSCheckpoint = (\<lambda>p w. Inr (GetVFSCheckpoint (fst w) p))\<rparr>"

lemma snd_update: "fst (snd (update enc fault f sf)) = (fst sf)\<lparr>fs_data := f (fs_data (fst sf))\<rparr>"
  by (simp add: update_def Let_def split_beta)

lemma map_of_upsertAll_other:
  "k \<notin> key ` set items \<Longrightarrow> map_of (upsertAll key fillIn items m) k = map_of m k"
  unfolding upsertAll_def by (induction items arbitrary: m) auto

lemma map_of_upsertAll:
  "k \<in> key ` set items \<Longrightarrow> TrimSpace k \<noteq> [] \<Longrightarrow>
   \<exists>j \<in> set items. key j = k \<and> map_of (upsertAll key fillIn items m) k = Some (fillIn j)"
proof (induction items arbitrary: m)
  case (Cons x items)
  define m' where "m' = (if TrimSpace (key x) = [] then m else map_set (key x) (fillIn x) m)"
  have u: "upsertAll key fillIn (x # items) m = upsertAll key fillIn items m'"
    by (simp add: upsertAll_def m'_def)
  show ?case
  proof (cases "k \<in> key ` set items")
    case True
    then show ?thesis using Cons unfolding u by (metis list.set_intros(2))
  next
    case False
    then have "k = key x" using Cons.prems by auto
    then show ?thesis
      using Cons.prems map_of_upsertAll_other [OF False] unfolding u m'_def by simp
  qed
qed simp

interpretation file_vfs: vfs_laws "file_vfs enc fault now" for enc fault now
proof
  fix as w w' a
  assume u: "vs_UpsertVFSArtifacts (file_vfs enc fault now) as w = (None, w')" and a: "a \<in> set as"
    and f: "\<forall>b \<in> set as. va_ArtifactID b = va_ArtifactID a \<longrightarrow> va_Content b = va_Content a"
    and t: "TrimSpace (va_ArtifactID a) = va_ArtifactID a" "va_ArtifactID a \<noteq> []"
  have "fst w' = fst (snd (UpsertVFSArtifacts enc fault now as w))"
    using u by (simp add: file_vfs_def)
  moreover obtain j where "j \<in> set as" "va_ArtifactID j = va_ArtifactID a"
    "map_of (upsertAll va_ArtifactID (completeVFSArtifact now) as (fp_VFSArtifacts (fs_data (fst w)))) (va_ArtifactID a)
      = Some (completeVFSArtifact now j)"
    using map_of_upsertAll [of "va_ArtifactID a" va_ArtifactID as] a t by (metis imageI)
  ultimately show "\<exists>b. vs_GetVFSArtifact (file_vfs enc fault now) (va_ArtifactID a) w' = Inr (Some b) \<and> va_Content b = va_Content a"
    using f t by (simp add: file_vfs_def GetVFSArtifact_def UpsertVFSArtifacts_def snd_update completeVFSArtifact_def)
next
  fix c w w' path
  assume u: "vs_UpsertVFSCheckpoints (file_vfs enc fault now) [c] w = (None, w')"
    and c: "TrimSpace (vk_Path c) = vk_Path c" "vk_Path c \<noteq> []" "vk_CreatedAt c \<noteq> 0" "vk_UpdatedAt c \<noteq> 0"
    and p: "TrimSpace path = vk_Path c"
  have "fst w' = fst (snd (UpsertVFSCheckpoints enc fault now [c] w))"
    using u by (simp add: file_vfs_def)
  then have "fp_VFSCheckpoints (fs_data (fst w')) = map_set (vk_Path c) c (fp_VFSCheckpoints (fs_data (fst w)))"
    using c by (simp add: UpsertVFSCheckpoints_def snd_update upsertAll_def completeVFSCheckpoint_def filled_def)
  then show "vs_GetVFSCheckpoint (file_vfs enc fault now) path w' = Inr (Some c)"
    using p by (simp add: file_vfs_def GetVFSCheckpoint_def)
next
  fix cs w w' i
  assume "vs_UpsertVFSCheckpoints (file_vfs enc fault now) cs w = (None, w')"
  then have "fst w' = fst (snd (UpsertVFSCheckpoints enc fault now cs w))"
    by (simp add: file_vfs_def)
  then show "vs_GetVFSArtifact (file_vfs enc fault now) i w' = vs_GetVFSArtifact (file_vfs enc fault now) i w"
    by (simp add: file_vfs_def GetVFSArtifact_def UpsertVFSCheckpoints_def snd_update)
qed

section \<open>Extraction and rehydration\<close>

text \<open>Values without references of their own, which the manager would mistake for its own.\<close>

fun no_refs :: "any \<Rightarrow> bool" and no_refs_map :: "(string \<times> any) list \<Rightarrow> bool" and no_refs_list :: "any list \<Rightarrow> bool" where
  "no_refs (AnyMap m) = (artifactRefID m = None \<and> no_refs_map m)"
| "no_refs (AnyList vs) = no_refs_list vs"
| "no_refs v = True"
| "no_refs_map [] = True"
| "no_refs_map ((k, v) # m) = (no_refs v \<and> no_refs_map m)"
| "no_refs_list [] = True"
| "no_refs_list (v # vs) = (no_refs v \<and> no_refs_list vs)"

definition walkChild :: "(string \<Rightarrow> string) \<Rightarrow> time \<Rightarrow> string \<Rightarrow> any \<Rightarrow> VFSArtifact list \<times> any" where
  "walkChild sha now key child = (case externalized key child of
     Some text \<Rightarrow> (let a = persistArtifact sha now key text in ([a], artifactRef a))
   | None \<Rightarrow> walkValue sha now child)"

lemma walkMap_Cons:
  "walkMap sha now ((key, child) # m) =
     (fst (walkChild sha now key child) @ fst (walkMap sha now m),
      (key, snd (walkChild sha now key child)) # snd (walkMap sha now m))"
  by (simp add: walkChild_def Let_def split_beta split: option.split)

lemma map_of_walkMap: "map_of (snd (walkMap sha now m)) k = map_option (\<lambda>v. snd (walkChild sha now k v)) (map_of m k)"
  by (induction m) (auto simp: walkMap_Cons simp del: walkMap.simps(2))

lemma artifactRefID_walkMap:
  assumes "artifactRefID m = None"
  shows "artifactRefID (snd (walkMap sha now m)) = None"
proof (cases "map_of m ''$vfs_artifact''")
  case None
  then show ?thesis by (simp add: artifactRefID_def map_of_walkMap)
next
  case (Some v)
  then show ?thesis
    using assms
    by (cases v) (auto simp: artifactRefID_def map_of_walkMap walkChild_def artifactRef_def split_beta Let_def
        split: if_splits option.splits)
qed

definition content_found :: "(string \<Rightarrow> string + VFSArtifact option) \<Rightarrow> VFSArtifact \<Rightarrow> bool" where
  "content_found get a \<longleftrightarrow> TrimSpace (va_ArtifactID a) \<noteq> []
     \<and> (\<exists>b. get (va_ArtifactID a) = Inr (Some b) \<and> va_Content b = va_Content a)"

lemma externalized_Some: "externalized key v = Some text \<Longrightarrow> v = AnyString text"
  by (cases v) (auto split: if_splits)

lemma walkHydrate_ref:
  "content_found get (persistArtifact sha now key text) \<Longrightarrow>
   walkHydrate get (artifactRef (persistArtifact sha now key text)) = Inr (AnyString text)"
  by (auto simp: content_found_def artifactRef_def artifactRefID_def persistArtifact_def Let_def)

lemma hydrate_inverts_walk:
  "no_refs v \<Longrightarrow> \<forall>a \<in> set (fst (walkValue sha now v)). content_found get a \<Longrightarrow>
     walkHydrate get (snd (walkValue sha now v)) = Inr v"
  "no_refs_map m \<Longrightarrow> \<forall>a \<in> set (fst (walkMap sha now m)). content_found get a \<Longrightarrow>
     hydrateMap get (snd (walkMap sha now m)) = Inr m"
  "no_refs_list vs \<Longrightarrow> \<forall>a \<in> set (fst (walkList sha now vs)). content_found get a \<Longrightarrow>
     hydrateList get (snd (walkList sha now vs)) = Inr vs"
proof (induction v and m and vs rule: no_refs_no_refs_map_no_refs_list.induct)
  case (1 m)
  then show ?case
    using artifactRefID_walkMap [of m sha now] by (simp add: split_beta)
next
  case (5 k v m)
  have child: "walkHydrate get (snd (walkChild sha now k v)) = Inr v"
    using 5 walkHydrate_ref
    by (auto simp: walkChild_def walkMap_Cons Let_def simp del: walkMap.simps(2)
        split: option.splits dest: externalized_Some)
  show ?case
    using 5 child by (simp add: walkMap_Cons del: walkMap.simps(2))
qed (simp_all add: split_beta)

text \<open>A value that loses a string changes.\<close>

lemma walk_changes:
  "fst (walkValue sha now v) \<noteq> [] \<Longrightarrow> snd (walkValue sha now v) \<noteq> v"
  "fst (walkMap sha now m) \<noteq> [] \<Longrightarrow> snd (walkMap sha now m) \<noteq> m"
  "fst (walkList sha now vs) \<noteq> [] \<Longrightarrow> snd (walkList sha now vs) \<noteq> vs"
proof (induction v and m and vs rule: no_refs_no_refs_map_no_refs_list.induct)
  case (5 k v m)
  have "fst (walkChild sha now k v) \<noteq> [] \<Longrightarrow> snd (walkChild sha now k v) \<noteq> v"
    using 5(1) by (auto simp: walkChild_def Let_def artifactRef_def split: option.splits dest: externalized_Some)
  then show ?case
    using 5 by (auto simp: walkMap_Cons simp del: walkMap.simps(2))
qed (auto simp: split_beta)

text \<open>The artifacts of a value: ids are hashes of contents, and contents are long.\<close>

lemma walk_artifacts:
  "a \<in> set (fst (walkValue sha now v)) \<Longrightarrow> va_ArtifactID a = hex_encode (sha (va_Content a))"
  "a \<in> set (fst (walkMap sha now m)) \<Longrightarrow> va_ArtifactID a = hex_encode (sha (va_Content a))"
  "a \<in> set (fst (walkList sha now vs)) \<Longrightarrow> va_ArtifactID a = hex_encode (sha (va_Content a))"
proof (induction v and m and vs rule: no_refs_no_refs_map_no_refs_list.induct)
  case (5 k v m)
  have "a \<in> set (fst (walkChild sha now k v)) \<Longrightarrow> va_ArtifactID a = hex_encode (sha (va_Content a))"
    using 5(1) by (auto simp: walkChild_def Let_def persistArtifact_def split: option.splits)
  then show ?case
    using 5 by (auto simp: walkMap_Cons simp del: walkMap.simps(2))
qed (auto simp: split_beta)

section \<open>Hexadecimal names\<close>

lemma hex_digit_facts: "d < 16 \<Longrightarrow> \<not> is_space (hex_digit d)" "d < 16 \<Longrightarrow> e < 16 \<Longrightarrow> hex_digit d = hex_digit e \<Longrightarrow> d = e"
proof -
  have "\<forall>d \<in> set [0..<16]. \<not> is_space (hex_digit d) \<and> (\<forall>e \<in> set [0..<16]. hex_digit d = hex_digit e \<longrightarrow> d = e)"
    by code_simp
  then show "d < 16 \<Longrightarrow> \<not> is_space (hex_digit d)" "d < 16 \<Longrightarrow> e < 16 \<Longrightarrow> hex_digit d = hex_digit e \<Longrightarrow> d = e"
    by auto
qed

lemma char_div_16: "of_char c div 16 < (16 :: nat)"
  using nat_of_char_less_256 [of c] by (simp add: less_mult_imp_div_less)

lemma hex_encode_Cons:
  "hex_encode (c # s) = hex_digit (of_char c div 16) # hex_digit (of_char c mod 16) # hex_encode s"
  by (simp add: hex_encode_def)

lemma hex_encode_inj: "hex_encode s = hex_encode t \<Longrightarrow> s = t"
proof (induction s arbitrary: t)
  case Nil
  then show ?case by (cases t) (simp_all add: hex_encode_def)
next
  case (Cons c s)
  then obtain d t' where t: "t = d # t'"
    by (cases t) (simp_all add: hex_encode_def)
  note lt = char_div_16
  have "of_char c div 16 = (of_char d div 16 :: nat)" "of_char c mod 16 = (of_char d mod 16 :: nat)"
    using Cons.prems lt hex_digit_facts(2) by (auto simp: t hex_encode_Cons)
  then have "of_char c = (of_char d :: nat)"
    by (metis div_mult_mod_eq)
  then show ?case
    using Cons by (simp add: t hex_encode_Cons)
qed

lemma hex_encode_space: "c \<in> set (hex_encode s) \<Longrightarrow> \<not> is_space c"
  using char_div_16 by (auto simp: hex_encode_def hex_digit_facts(1))

lemma TrimSpace_hex: "TrimSpace (hex_encode s) = hex_encode s"
  using hex_encode_space [of "hd (hex_encode s)" s] hex_encode_space [of "last (hex_encode s)" s]
  by (intro TrimSpace_id) (auto simp: trimmed_def)

lemma hex_encode_Nil: "hex_encode s = [] \<longleftrightarrow> s = []"
  by (cases s) (simp_all add: hex_encode_def)

section \<open>Writing and reading\<close>

definition externals :: "(string \<Rightarrow> string) \<Rightarrow> time \<Rightarrow> go_map \<Rightarrow> string set" where
  "externals sha now m = va_Content ` set (fst (extractArtifacts sha now m))"

text \<open>What a read returns for the record of a write.\<close>

definition readBack ::
  "(string \<Rightarrow> string) \<Rightarrow> (go_map \<Rightarrow> string) \<Rightarrow> go_map \<Rightarrow> VFSCheckpointRecord \<Rightarrow> VFSCheckpointRecord" where
  "readBack sha marshal original record = record\<lparr>vk_Checkpoint := original,
     vk_Integrity := (if checksumValue sha marshal original = vk_Checksum record then ''ok'' else ''corrupt'')\<rparr>"

context vfs_laws
begin

lemma upsert_found:
  assumes "vs_UpsertVFSArtifacts vs (fst (extractArtifacts sha now m)) w = (None, w')"
    and "inj_on sha (externals sha now m)" and "\<And>s. sha s \<noteq> []"
    and "a \<in> set (fst (extractArtifacts sha now m))"
  shows "content_found (\<lambda>i. vs_GetVFSArtifact vs i w') a"
proof -
  have ids: "\<forall>b \<in> set (fst (extractArtifacts sha now m)). va_ArtifactID b = hex_encode (sha (va_Content b))"
    using walk_artifacts(2) by (simp add: extractArtifacts_def)
  then have "\<forall>b \<in> set (fst (extractArtifacts sha now m)). va_ArtifactID b = va_ArtifactID a \<longrightarrow> va_Content b = va_Content a"
    using assms(2,4) hex_encode_inj unfolding externals_def inj_on_def by (metis imageI)
  then have "\<exists>b. vs_GetVFSArtifact vs (va_ArtifactID a) w' = Inr (Some b) \<and> va_Content b = va_Content a"
    using artifact_found [OF assms(1,4)] ids assms(3,4) TrimSpace_hex hex_encode_Nil by metis
  then show ?thesis
    using ids assms(3,4) by (simp add: content_found_def TrimSpace_hex hex_encode_Nil)
qed

lemma write_read:
  assumes wr: "WriteCheckpoint sha marshal vs now record w = (Inr record', w')"
    and refs: "no_refs (AnyMap (vk_Checkpoint record))"
    and sha: "inj_on sha (externals sha now (vk_Checkpoint record))" "\<And>s. sha s \<noteq> []"
    and now: "now \<noteq> 0" and path: "TrimSpace path = TrimSpace (vk_Path record)"
  shows "ReadCheckpoint sha marshal vs path w' =
    Inr (Some (readBack sha marshal (vk_Checkpoint record) (checkpointRecord sha marshal now record)))"
proof -
  define m where "m = vk_Checkpoint record"
  define as where "as = fst (extractArtifacts sha now m)"
  define rec where "rec = checkpointRecord sha marshal now record"
  have p: "TrimSpace (vk_Path record) \<noteq> []"
    using wr by (auto simp: WriteCheckpoint_def split: if_splits)
  obtain w1 where w1: "(if as \<noteq> [] then vs_UpsertVFSArtifacts vs as w else (None, w)) = (None, w1)"
    and w2: "vs_UpsertVFSCheckpoints vs [rec] w1 = (None, w')"
    using wr p unfolding WriteCheckpoint_def Let_def as_def rec_def m_def
    by (auto split: prod.splits option.splits if_splits)
  have rec: "vk_Path rec = TrimSpace (vk_Path record)" "vk_CreatedAt rec \<noteq> 0" "vk_UpdatedAt rec \<noteq> 0"
    "vk_Checkpoint rec = snd (extractArtifacts sha now m)" "vk_Integrity rec = ''ok''"
    using now by (simp_all add: rec_def checkpointRecord_def Let_def m_def)
  have got: "vs_GetVFSCheckpoint vs path w' = Inr (Some rec)"
    using checkpoint_found [OF w2] rec p path by simp
  have "content_found (\<lambda>i. vs_GetVFSArtifact vs i w') a" if "a \<in> set as" for a
  proof -
    have "vs_UpsertVFSArtifacts vs as w = (None, w1)"
      using w1 that by (auto split: if_splits)
    then have "content_found (\<lambda>i. vs_GetVFSArtifact vs i w1) a"
      using upsert_found [of sha now m w w1 a] sha that by (simp add: as_def m_def)
    then show ?thesis
      using artifacts_kept [OF w2] by (simp add: content_found_def)
  qed
  then have "hydrateMap (\<lambda>i. vs_GetVFSArtifact vs i w') (vk_Checkpoint rec) = Inr m"
    using refs hydrate_inverts_walk(2) [of m sha now] unfolding rec as_def m_def extractArtifacts_def by simp
  moreover have "artifactRefID (vk_Checkpoint rec) = None"
    using refs artifactRefID_walkMap unfolding rec extractArtifacts_def m_def by simp
  ultimately have "rehydrateArtifacts (\<lambda>i. vs_GetVFSArtifact vs i w') (vk_Checkpoint rec) = Inr m"
    by (simp add: rehydrateArtifacts_def)
  moreover have "TrimSpace ''ok'' = ''ok''" by code_simp
  ultimately show ?thesis
    using got rec(5) unfolding ReadCheckpoint_def readBack_def rec_def [symmetric] m_def [symmetric]
    by (simp add: Let_def)
qed

end

section \<open>Properties\<close>

text \<open>C26. Round trip of checkpoints: what a successful write of a checkpoint stores, with its long
  strings moved out to artifacts, a read of the same path, with or without white space around
  it, returns with the original content, provided the content has no references of its own and
  the hash separates the strings moved out.\<close>

theorem vfs_roundtrip:
  assumes "WriteCheckpoint sha marshal (file_vfs enc fault now) now record w = (Inr record', w')"
    and "no_refs (AnyMap (vk_Checkpoint record))"
    and "inj_on sha (externals sha now (vk_Checkpoint record))" and "\<And>s. sha s \<noteq> []"
    and "now \<noteq> 0" and "TrimSpace path = TrimSpace (vk_Path record)"
  shows "\<exists>r. ReadCheckpoint sha marshal (file_vfs enc fault now) path w' = Inr (Some r)
    \<and> vk_Checkpoint r = vk_Checkpoint record \<and> vk_TaskID r = vk_TaskID record
    \<and> vk_Metadata r = vk_Metadata record"
  using file_vfs.write_read [OF assms]
  by (simp add: readBack_def checkpointRecord_def Let_def)

text \<open>C40. The integrity flag is wrong for every checkpoint with an artifact: the checksum is taken of
  the content with references when it is written and of the restored content when it is read,
  so a checkpoint that is restored perfectly is flagged as corrupt, unless the hash of the two
  encodings collides.\<close>

theorem restored_checkpoints_flagged_corrupt:
  assumes "WriteCheckpoint sha marshal (file_vfs enc fault now) now record w = (Inr record', w')"
    and "no_refs (AnyMap (vk_Checkpoint record))"
    and "inj_on sha (externals sha now (vk_Checkpoint record))" and "\<And>s. sha s \<noteq> []"
    and "now \<noteq> 0" and "externals sha now (vk_Checkpoint record) \<noteq> {}"
    and "inj_on (sha \<circ> marshal) {vk_Checkpoint record, vk_Checkpoint record'}"
  shows "\<exists>r. ReadCheckpoint sha marshal (file_vfs enc fault now) (vk_Path record) w' = Inr (Some r)
    \<and> vk_Checkpoint r = vk_Checkpoint record \<and> vk_Integrity r = ''corrupt''"
proof -
  have rec': "record' = checkpointRecord sha marshal now record"
    using assms(1) unfolding WriteCheckpoint_def Let_def by (auto split: if_splits option.splits prod.splits)
  have cp: "vk_Checkpoint record' = snd (extractArtifacts sha now (vk_Checkpoint record))"
    by (simp add: rec' checkpointRecord_def Let_def)
  then have "vk_Checkpoint record' \<noteq> vk_Checkpoint record"
    using walk_changes(2) assms(6) by (simp add: externals_def extractArtifacts_def)
  then have "sha (marshal (vk_Checkpoint record)) \<noteq> sha (marshal (vk_Checkpoint record'))"
    using assms(7) by (auto simp: inj_on_def)
  then have "checksumValue sha marshal (vk_Checkpoint record) \<noteq> vk_Checksum record'"
    using hex_encode_inj cp by (auto simp: rec' checkpointRecord_def checksumValue_def Let_def)
  then show ?thesis
    using file_vfs.write_read [OF assms(1-5) refl] by (simp add: readBack_def rec' checkpointRecord_def Let_def)
qed

text \<open>A checkpoint with a long summary, a separating hash and an encoding for the instances.\<close>

definition long_summary :: string where
  "long_summary = replicate 2048 CHR ''a''"

definition example_vfs_record :: VFSCheckpointRecord where
  "example_vfs_record = zero_VFSCheckpointRecord\<lparr>vk_Path := ''p'', vk_Checkpoint := [(''summary'', AnyString long_summary)]\<rparr>"

definition example_marshal :: "go_map \<Rightarrow> string" where
  "example_marshal m = (case m of [(k, AnyString s)] \<Rightarrow> ''o'' | _ \<Rightarrow> ''r'')"

definition example_sha :: "string \<Rightarrow> string" where
  "example_sha s = CHR ''h'' # s"

lemma example_vfs_facts:
  "extractArtifacts example_sha 1 (vk_Checkpoint example_vfs_record) =
     ([persistArtifact example_sha 1 ''summary'' long_summary],
      [(''summary'', artifactRef (persistArtifact example_sha 1 ''summary'' long_summary))])"
  "externals example_sha 1 (vk_Checkpoint example_vfs_record) = {long_summary}"
  "no_refs (AnyMap (vk_Checkpoint example_vfs_record))"
  "inj_on example_sha A" "example_sha s \<noteq> []"
proof -
  have "ToLower (TrimSpace ''summary'') = ''summary''" by code_simp
  then have "shouldExternalizeString ''summary'' long_summary defaultArtifactThreshold"
    by (simp add: shouldExternalizeString_def long_summary_def defaultArtifactThreshold_def)
  then show e: "extractArtifacts example_sha 1 (vk_Checkpoint example_vfs_record) =
     ([persistArtifact example_sha 1 ''summary'' long_summary],
      [(''summary'', artifactRef (persistArtifact example_sha 1 ''summary'' long_summary))])"
    by (simp add: extractArtifacts_def example_vfs_record_def Let_def)
  then show "externals example_sha 1 (vk_Checkpoint example_vfs_record) = {long_summary}"
    by (simp add: externals_def persistArtifact_def Let_def)
  show "no_refs (AnyMap (vk_Checkpoint example_vfs_record))"
    by (simp add: example_vfs_record_def artifactRefID_def)
qed (simp_all add: example_sha_def inj_on_def)

definition example_vfs_world :: "nat FileStore \<times> files" where
  "example_vfs_world = (example_store, Map.empty)"

definition vfs_enc :: "nat filePayload \<Rightarrow> string option" where
  "vfs_enc p = Some ''x''"

lemma example_vfs_checkpoint: "vk_Checkpoint example_vfs_record = [(''summary'', AnyString long_summary)]"
  by (simp add: example_vfs_record_def)

lemma example_vfs_path: "vk_Path example_vfs_record = ''p''" "TrimSpace '' p '' = TrimSpace ''p''" "TrimSpace ''p'' \<noteq> []"
  by (simp_all add: example_vfs_record_def TrimSpace_def is_space_def)

lemma example_vfs_write:
  "\<exists>w'. WriteCheckpoint example_sha example_marshal (file_vfs vfs_enc NoFault 1) 1 example_vfs_record example_vfs_world =
     (Inr (checkpointRecord example_sha example_marshal 1 example_vfs_record), w')"
proof -
  define rec where "rec = checkpointRecord example_sha example_marshal 1 example_vfs_record"
  define a where "a = persistArtifact example_sha 1 ''summary'' long_summary"
  have u: "\<exists>w'. update vfs_enc NoFault f w = (None, w')" for f w
    by (simp add: update_def persistLocked_def vfs_enc_def Let_def)
  obtain w1 where w1: "vs_UpsertVFSArtifacts (file_vfs vfs_enc NoFault 1) [a] example_vfs_world = (None, w1)"
    using u unfolding file_vfs_def UpsertVFSArtifacts_def vfs_store.simps by blast
  obtain w2 where w2: "vs_UpsertVFSCheckpoints (file_vfs vfs_enc NoFault 1) [rec] w1 = (None, w2)"
    using u unfolding file_vfs_def UpsertVFSCheckpoints_def vfs_store.simps by blast
  show ?thesis
    unfolding WriteCheckpoint_def Let_def example_vfs_facts(1) fst_conv example_vfs_path(1)
      rec_def [symmetric] a_def [symmetric]
    using w1 w2 example_vfs_path(3) by simp
qed

theorem vfs_roundtrip_witness:
  "\<exists>record' w' r. WriteCheckpoint example_sha example_marshal (file_vfs vfs_enc NoFault 1) 1 example_vfs_record
       example_vfs_world = (Inr record', w')
     \<and> ReadCheckpoint example_sha example_marshal (file_vfs vfs_enc NoFault 1) '' p '' w' = Inr (Some r)
     \<and> vk_Checkpoint r = [(''summary'', AnyString long_summary)]"
proof -
  obtain rec w' where w: "WriteCheckpoint example_sha example_marshal (file_vfs vfs_enc NoFault 1) 1 example_vfs_record
      example_vfs_world = (Inr rec, w')"
    using example_vfs_write by blast
  have "TrimSpace '' p '' = TrimSpace (vk_Path example_vfs_record)"
    using example_vfs_path by simp
  from vfs_roundtrip [OF w example_vfs_facts(3) example_vfs_facts(4,5) one_neq_zero this]
  show ?thesis using w unfolding example_vfs_checkpoint by blast
qed

theorem restored_checkpoints_flagged_corrupt_witness:
  "\<exists>record' w' r. WriteCheckpoint example_sha example_marshal (file_vfs vfs_enc NoFault 1) 1 example_vfs_record
       example_vfs_world = (Inr record', w')
     \<and> ReadCheckpoint example_sha example_marshal (file_vfs vfs_enc NoFault 1) ''p'' w' = Inr (Some r)
     \<and> vk_Checkpoint r = [(''summary'', AnyString long_summary)] \<and> vk_Integrity r = ''corrupt''"
proof -
  define rec where "rec = checkpointRecord example_sha example_marshal 1 example_vfs_record"
  obtain w' where w: "WriteCheckpoint example_sha example_marshal (file_vfs vfs_enc NoFault 1) 1 example_vfs_record example_vfs_world =
     (Inr rec, w')"
    using example_vfs_write unfolding rec_def by blast
  have "vk_Checkpoint rec = [(''summary'', artifactRef (persistArtifact example_sha 1 ''summary'' long_summary))]"
    by (simp add: rec_def checkpointRecord_def Let_def example_vfs_facts(1))
  then have i: "inj_on (example_sha \<circ> example_marshal) {vk_Checkpoint example_vfs_record, vk_Checkpoint rec}"
    by (simp add: inj_on_def example_marshal_def example_sha_def example_vfs_record_def artifactRef_def)
  have ne: "externals example_sha 1 (vk_Checkpoint example_vfs_record) \<noteq> {}"
    by (simp add: example_vfs_facts(2))
  from restored_checkpoints_flagged_corrupt [OF w example_vfs_facts(3) example_vfs_facts(4,5) one_neq_zero ne i]
  show ?thesis using w unfolding example_vfs_checkpoint example_vfs_path(1) by blast
qed

end
