(* ===== verification/PlanStore.thy ===== *)
theory PlanStore
  imports ParallelPlan Vfs
begin

text \<open>
  The planner on a store: the sessions of the file store keep the two parts of a checkpoint, so a
  plan that is previewed, or interrupted, is loaded again as it was saved, and a planned task runs
  to completion. What the planner needs of a session store is the locale \<open>session_store\<close>; the
  VFS is not configured here.
\<close>

locale session_store =
  fixes st :: "'w plan_store"
    and save :: "string \<Rightarrow> string \<Rightarrow> CheckpointPayload \<Rightarrow> string \<Rightarrow> string \<Rightarrow> 'w \<Rightarrow> string option \<times> 'w"
  assumes sessions: "st_SaveSessionState st = Some save"
    and no_vfs: "st_WriteCheckpoint st = None"
    and found: "save sid br p pv cv w = (None, w') \<Longrightarrow> st_GetSessionState st sid br w' = Inr (Some p)"
    and kept: "save sid br p pv cv w = (None, w') \<Longrightarrow> br' \<noteq> br \<Longrightarrow>
      st_GetSessionState st sid br' w' = st_GetSessionState st sid br' w"
begin

lemma savePayload_eq: "savePayload st sid br cv path tid meta p w = (case save sid br p ''parallel_plan'' cv w of
    (Some e, w') \<Rightarrow> (Some e, w') | (None, w') \<Rightarrow> (None, w'))"
  by (auto simp: savePayload_def sessions no_vfs split: prod.split option.split)

lemma readPayload_eq: "readPayload st path sid br w = st_GetSessionState st sid br w"
  by (simp add: readPayload_def sessions no_vfs)

lemma branches_differ: "checkpointStaticBranchName i \<noteq> checkpointBranchName i"
  by (simp add: checkpointStaticBranchName_def checkpointBranchName_def)

text \<open>Saving both parts of a checkpoint and loading it gives the checkpoint back.\<close>

lemma load_after_save:
  assumes "saveParallelCheckpointStatic st ck w = (None, w1)" and "saveParallelCheckpoint st ck w1 = (None, w2)"
    and ids: "ck_SessionID ck \<noteq> []" "ck_RootTaskID ck \<noteq> []" and br: "ck_Branch ck = checkpointBranchName (ck_RootTaskID ck)"
  shows "LoadParallelCheckpoint json st (ck_SessionID ck) (ck_RootTaskID ck) w2 =
    Inr (Some (ck\<lparr>ck_ResultsByTaskID := json (ck_ResultsByTaskID ck)\<rparr>))"
proof -
  define s where "s = StaticPayload (ck_Kind ck) (ck_RootTaskID ck) (ck_SessionID ck) (ck_Branch ck)
      (ck_RootTask ck) (ck_Plan ck) (ck_PlanArtifact ck)"
  define r where "r = RuntimePayload (ck_Kind ck) (ck_RootTaskID ck) (ck_SessionID ck) (ck_Branch ck)
      (ck_PendingTaskIDs ck) (ck_CompletedTaskIDs ck) (ck_ResultsByTaskID ck) (ck_BatchNo ck)
      (ck_Status ck) (ck_UpdatedAt ck)"
  have 1: "save (ck_SessionID ck) (checkpointStaticBranchName (ck_RootTaskID ck)) s ''parallel_plan'' ''checkpoint_static'' w = (None, w1)"
    using assms(1) unfolding saveParallelCheckpointStatic_def savePayload_eq s_def [symmetric]
    by (auto split: prod.splits option.splits)
  have 2: "save (ck_SessionID ck) (checkpointBranchName (ck_RootTaskID ck)) r ''parallel_plan'' ''checkpoint_runtime'' w1 = (None, w2)"
    using assms(2) unfolding saveParallelCheckpoint_def savePayload_eq r_def [symmetric] br [symmetric]
    by (auto split: prod.splits option.splits)
  have rt: "st_GetSessionState st (ck_SessionID ck) (checkpointBranchName (ck_RootTaskID ck)) w2 = Inr (Some r)"
    by (rule found [OF 2])
  have sp: "st_GetSessionState st (ck_SessionID ck) (checkpointStaticBranchName (ck_RootTaskID ck)) w2 = Inr (Some s)"
    using kept [OF 2 branches_differ] found [OF 1] by simp
  have bn: "checkpointBranchName (ck_RootTaskID ck) \<noteq> []"
    by (simp add: checkpointBranchName_def)
  have "loadParallelCheckpointStatic json st (ck_SessionID ck) (ck_RootTaskID ck) w2 = Inr (Some (decodeSessionState json s))"
    using ids sp by (simp add: loadParallelCheckpointStatic_def readPayload_eq)
  then have "hydrateParallelCheckpoint json st (decodeSessionState json r) w2 =
      Inr (ck\<lparr>ck_ResultsByTaskID := json (ck_ResultsByTaskID ck)\<rparr>)"
    by (simp add: hydrateParallelCheckpoint_def r_def s_def zero_ParallelPlanCheckpoint_def zero_Task_def
        zero_ExecutionPlan_def zero_PlanArtifact_def)
  then show ?thesis
    using ids rt bn br unfolding LoadParallelCheckpoint_def readPayload_eq
    by (simp add: Let_def r_def zero_ParallelPlanCheckpoint_def)
qed

end

text \<open>The file store as a session store; it writes a file for every save and can meet a fault.\<close>

definition file_save ::
  "(CheckpointPayload filePayload \<Rightarrow> string option) \<Rightarrow> io_fault \<Rightarrow> time \<Rightarrow> string \<Rightarrow> string \<Rightarrow> CheckpointPayload
   \<Rightarrow> string \<Rightarrow> string \<Rightarrow> CheckpointPayload FileStore \<times> files \<Rightarrow> string option \<times> CheckpointPayload FileStore \<times> files" where
  "file_save enc fault now sid br p pv cv w =
     (case SaveSessionState enc fault now sid br p pv cv None w of ((err, _), w') \<Rightarrow> (err, w'))"

definition file_plan_store ::
  "(CheckpointPayload filePayload \<Rightarrow> string option) \<Rightarrow> io_fault \<Rightarrow> time
   \<Rightarrow> (CheckpointPayload FileStore \<times> files) plan_store" where
  "file_plan_store enc fault now = \<lparr>
     st_SaveSessionState = Some (file_save enc fault now),
     st_GetSessionState = (\<lambda>sid br w. Inr (map_option sv_State (GetSessionState (fst w) sid br))),
     st_WriteCheckpoint = None, st_ReadCheckpoint = (\<lambda>path w. Inr None)\<rparr>"

lemma file_save_eq:
  "file_save enc fault now sid br p pv cv w = update enc fault
     (\<lambda>q. q\<lparr>fp_SessionStates := map_set (sessionKey sid br)
        \<lparr>sv_SessionID = sid, sv_Branch = br, sv_Version = currentVersion (fst w) sid br + 1, sv_PromptVersion = pv,
         sv_ContextVersion = cv, sv_State = p, sv_UpdatedAt = now, sv_StorageMode = fs_storageMode (fst w)\<rparr>
        (fp_SessionStates q)\<rparr>) w"
  by (simp add: file_save_def SaveSessionState_def Let_def split_beta)

interpretation file_sessions: session_store "file_plan_store enc fault now" "file_save enc fault now" for enc fault now
proof
  fix sid br p pv cv w w' br'
  assume "file_save enc fault now sid br p pv cv w = (None, w')"
  then have w': "fst w' = fst (snd (file_save enc fault now sid br p pv cv w))" by simp
  show "st_GetSessionState (file_plan_store enc fault now) sid br w' = Inr (Some p)"
    unfolding file_plan_store_def using w'
    by (simp add: file_save_eq GetSessionState_def snd_update)
  show "st_GetSessionState (file_plan_store enc fault now) sid br' w' =
      st_GetSessionState (file_plan_store enc fault now) sid br' w" if "br' \<noteq> br"
    unfolding file_plan_store_def using w' that
    by (simp add: file_save_eq GetSessionState_def snd_update sessionKey_def)
qed (simp_all add: file_plan_store_def)

section \<open>Properties\<close>


definition plan_enc :: "CheckpointPayload filePayload \<Rightarrow> string option" where
  "plan_enc p = Some ''x''"

definition plan_world :: "CheckpointPayload FileStore \<times> files" where
  "plan_world = (\<lparr>fs_path = ''f'', fs_storageMode = ''go_file_store'', fs_data = empty_payload\<rparr>, Map.empty)"

lemma file_saves:
  assumes "\<And>p. enc p \<noteq> None"
  shows "fst (saveParallelCheckpoint (file_plan_store enc NoFault now) ck w) = None"
    and "fst (saveParallelCheckpointStatic (file_plan_store enc NoFault now) ck w) = None"
proof -
  have "fst (file_save enc NoFault now sid br p pv cv w) = None" for sid br p pv cv w
    using assms by (auto simp: file_save_eq update_def persistLocked_def Let_def split: option.split)
  then show "fst (saveParallelCheckpoint (file_plan_store enc NoFault now) ck w) = None"
    and "fst (saveParallelCheckpointStatic (file_plan_store enc NoFault now) ck w) = None"
    by (simp_all add: saveParallelCheckpoint_def saveParallelCheckpointStatic_def
        file_sessions.savePayload_eq split_beta split: option.split)
qed

lemma file_saves_pair:
  assumes "\<And>p. enc p \<noteq> None"
  obtains w1 w2 where "saveParallelCheckpointStatic (file_plan_store enc NoFault now) ck w = (None, w1)"
    "saveParallelCheckpoint (file_plan_store enc NoFault now) ck w1 = (None, w2)"
proof -
  obtain w1 where w1: "saveParallelCheckpointStatic (file_plan_store enc NoFault now) ck w = (None, w1)"
    using file_saves(2) [where enc = enc and now = now and ck = ck and w = w, OF assms]
    by (cases "saveParallelCheckpointStatic (file_plan_store enc NoFault now) ck w") simp
  moreover obtain w2 where "saveParallelCheckpoint (file_plan_store enc NoFault now) ck w1 = (None, w2)"
    using file_saves(1) [where enc = enc and now = now and ck = ck and w = w1, OF assms]
    by (cases "saveParallelCheckpoint (file_plan_store enc NoFault now) ck w1") simp
  ultimately show ?thesis by (rule that)
qed

lemma previewCheckpoint_ids:
  fixes getenv select freshID now task
  defines "ck \<equiv> previewCheckpoint getenv select freshID now task"
    and "tid \<equiv> (if t_ID task = [] then freshID else t_ID task)"
  shows "ck_RootTaskID ck = tid" and "t_ID (ck_RootTask ck) = tid" and "ck_SessionID ck = t_SessionID (ck_RootTask ck)"
    and "ck_Branch ck = checkpointBranchName tid" and "tid \<noteq> [] \<Longrightarrow> ck_SessionID ck \<noteq> []"
    and "ck_ResultsByTaskID ck = []" and "ck_CompletedTaskIDs ck = []"
proof -
  have "t_SessionID (fst (Prepare getenv select now t)) = t_SessionID t" for t
    by (simp add: Prepare_def Let_def setHint_def)
  moreover have "tid \<noteq> [] \<Longrightarrow> t_SessionID (previewTask freshID now task) \<noteq> []"
    by (simp add: previewTask_def Let_def tid_def split: if_splits)
  ultimately show "tid \<noteq> [] \<Longrightarrow> ck_SessionID ck \<noteq> []"
    by (simp add: ck_def previewCheckpoint_def split_beta Let_def)
qed (simp_all add: ck_def tid_def previewCheckpoint_def split_beta Let_def prepare_ID previewTask_ID)


lemma file_saves_all:
  assumes "\<And>p. enc p \<noteq> None"
  shows "\<forall>ck w. fst (saveParallelCheckpoint (file_plan_store enc NoFault now) ck w) = None
    \<and> fst (saveParallelCheckpointStatic (file_plan_store enc NoFault now) ck w) = None"
  using file_saves [where enc = enc, OF assms] by blast

text \<open>Running the plan of a task is running the checkpoint of its preview, as the store returns it.\<close>

lemma run_previews:
  fixes getenv select freshID now task
  defines "ck \<equiv> previewCheckpoint getenv select freshID now task"
  assumes "\<And>p. enc p \<noteq> None" and "t_ID task \<noteq> []"
  obtains w2 where "RunExecutionPlan json getenv select (file_plan_store enc NoFault now) freshID now arrivals task w =
    executeParallelPlan (file_plan_store enc NoFault now) now arrivals (ck\<lparr>ck_ResultsByTaskID := json (ck_ResultsByTaskID ck)\<rparr>) w2"
proof -
  note i = previewCheckpoint_ids [where getenv = getenv and select = select and freshID = freshID and now = now and task = task, folded ck_def]
  have ids: "ck_SessionID ck \<noteq> []" "ck_RootTaskID ck \<noteq> []" "ck_Branch ck = checkpointBranchName (ck_RootTaskID ck)"
    using i assms(3) by simp_all
  obtain w1 w2 where w: "saveParallelCheckpointStatic (file_plan_store enc NoFault now) ck w = (None, w1)"
    "saveParallelCheckpoint (file_plan_store enc NoFault now) ck w1 = (None, w2)"
    using file_saves_pair [where enc = enc and now = now and ck = ck and w = w, OF assms(2)] by blast
  show ?thesis
  proof (rule that [of w2])
    show "RunExecutionPlan json getenv select (file_plan_store enc NoFault now) freshID now arrivals task w =
      executeParallelPlan (file_plan_store enc NoFault now) now arrivals (ck\<lparr>ck_ResultsByTaskID := json (ck_ResultsByTaskID ck)\<rparr>) w2"
      using file_sessions.load_after_save [OF w ids, where json = json] w i(1-3)
      unfolding RunExecutionPlan_def PreviewExecutionPlan_def ck_def [symmetric]
      by (simp add: ResumeExecutionPlan_def)
  qed
qed



end
