(* ===== verification/ProbeManager.thy ===== *)
theory ProbeManager
  imports TaskPolicy
begin

text \<open>
  The background health probes of the providers,
  \<open>go-core/internal/kernel/provider_probe_manager.go\<close>. Callers observe a provider and may ask for a
  probe; the request goes into a bounded channel, and worker goroutines take requests from it,
  call the reporter outside the lock and store what it answered together with the time before
  which the provider is left alone.

  A reporter (an interface value of \<open>agents\<close>) is a number, and what it answers is an argument of the
  step that stores it. \<open>runProbe\<close> holds the lock twice, before and after the call of the reporter;
  the two sections are \<open>beginProbe\<close> and \<open>finishProbe\<close>, and the step relation at the end of the
  definitions lets any number of observers and workers interleave between them. The channel is
  a list with a capacity; a send that finds it full takes the \<open>default\<close> branch.
\<close>

section \<open>Durations as text\<close>

text \<open>
  \<open>time.ParseDuration\<close>: an optional sign and a sequence of decimal numbers, each with an optional
  fraction and a unit, in the range of a 64-bit integer. Digits of a fraction beyond what 63 bits
  hold are read and ignored, as in Go.
\<close>

definition durationUnits :: "(string \<times> int) list" where
  "durationUnits = [(''ns'', 1), (''us'', 1000), ([CHR 0xC2, CHR 0xB5, CHR ''s''], 1000),
     ([CHR 0xCE, CHR 0xBC, CHR ''s''], 1000), (''ms'', 1000000), (''s'', 1000000000),
     (''m'', 60000000000), (''h'', 3600000000000)]"

fun leadingFraction :: "string \<Rightarrow> int \<Rightarrow> int \<Rightarrow> bool \<Rightarrow> int \<times> int" where
  "leadingFraction [] x scale full = (x, scale)"
| "leadingFraction (c # s) x scale full =
     (let y = x * 10 + (int (of_char c) - 48) in
      if full then leadingFraction s x scale True
      else if x > (2 ^ 63 - 1) div 10 then leadingFraction s x scale True
      else if y > 2 ^ 63 then leadingFraction s x scale True
      else leadingFraction s y (scale * 10) False)"

text \<open>One number with its unit at the start of the text: the value and the text behind it.\<close>

definition durationTerm :: "string \<Rightarrow> (int \<times> string) option" where
  "durationTerm s =
     (let whole = takeWhile is_digit s; s1 = dropWhile is_digit s;
          dot = (s1 \<noteq> [] \<and> hd s1 = CHR ''.'');
          fracText = (if dot then takeWhile is_digit (tl s1) else []);
          s2 = (if dot then dropWhile is_digit (tl s1) else s1);
          (f, scale) = leadingFraction fracText 0 1 False;
          v = digits_value whole;
          unitText = takeWhile (\<lambda>c. c \<noteq> CHR ''.'' \<and> \<not> is_digit c) s2;
          s3 = dropWhile (\<lambda>c. c \<noteq> CHR ''.'' \<and> \<not> is_digit c) s2 in
      if v > 2 ^ 63 \<or> whole = [] \<and> fracText = [] \<or> unitText = [] then None
      else (case map_of durationUnits unitText of
              None \<Rightarrow> None
            | Some unit \<Rightarrow>
                if v > 2 ^ 63 div unit then None
                else let v = v * unit + f * unit div scale
                  in if v > 2 ^ 63 then None else Some (v, s3)))"

lemma durationTerm_shorter:
  assumes "durationTerm s = Some (v, rest)"
  shows "length rest < length s"
proof -
  define s1 where "s1 = dropWhile is_digit s"
  define s2 where "s2 = (if s1 \<noteq> [] \<and> hd s1 = CHR ''.'' then dropWhile is_digit (tl s1) else s1)"
  define u where "u = takeWhile (\<lambda>c. c \<noteq> CHR ''.'' \<and> \<not> is_digit c) s2"
  have "rest = dropWhile (\<lambda>c. c \<noteq> CHR ''.'' \<and> \<not> is_digit c) s2" "u \<noteq> []"
    using assms unfolding durationTerm_def Let_def s1_def [symmetric] s2_def [symmetric] u_def
    by (auto split: if_splits option.splits prod.splits)
  then have "length u + length rest = length s2" "u \<noteq> []"
    unfolding u_def by (simp_all flip: length_append)
  moreover have "length s2 \<le> length s1" "length s1 \<le> length s"
    using length_dropWhile_le [of is_digit "tl s1"] unfolding s2_def s1_def by (auto simp: length_dropWhile_le)
  ultimately show ?thesis by (cases u) auto
qed

function durationTerms :: "string \<Rightarrow> int \<Rightarrow> int option" where
  "durationTerms s d =
     (if s = [] then Some d
      else (case durationTerm s of
              None \<Rightarrow> None
            | Some (v, rest) \<Rightarrow> if d + v > 2 ^ 63 then None else durationTerms rest (d + v)))"
  by pat_completeness auto
termination
  by (relation "measure (\<lambda>(s, d). length s)") (auto dest: durationTerm_shorter)

declare durationTerms.simps [simp del]

definition ParseDuration :: "string \<Rightarrow> duration option" where
  "ParseDuration s =
     (let neg = (s \<noteq> [] \<and> hd s = CHR ''-'');
          s = (if s \<noteq> [] \<and> (hd s = CHR ''-'' \<or> hd s = CHR ''+'') then tl s else s) in
      if s = ''0'' then Some 0
      else if s = [] then None
      else (case durationTerms s 0 of
              None \<Rightarrow> None
            | Some d \<Rightarrow> if neg then Some (- d) else if d > 2 ^ 63 - 1 then None else Some d))"

section \<open>Settings\<close>

fun providerProbeDurationFromEnv :: "(string \<Rightarrow> string) \<Rightarrow> duration \<Rightarrow> string list \<Rightarrow> duration" where
  "providerProbeDurationFromEnv getenv fallback [] = fallback"
| "providerProbeDurationFromEnv getenv fallback (key # keys) =
     (let value = TrimSpace (getenv key) in
      if value = [] then providerProbeDurationFromEnv getenv fallback keys
      else (case ParseDuration value of
              Some parsed \<Rightarrow> if parsed > 0 then parsed else providerProbeDurationFromEnv getenv fallback keys
            | None \<Rightarrow> providerProbeDurationFromEnv getenv fallback keys))"

fun providerProbeIntFromEnv :: "(string \<Rightarrow> string) \<Rightarrow> int \<Rightarrow> string list \<Rightarrow> int" where
  "providerProbeIntFromEnv getenv fallback [] = fallback"
| "providerProbeIntFromEnv getenv fallback (key # keys) =
     (let value = TrimSpace (getenv key) in
      if value = [] then providerProbeIntFromEnv getenv fallback keys
      else (case Atoi value of
              Some parsed \<Rightarrow> if parsed > 0 then parsed else providerProbeIntFromEnv getenv fallback keys
            | None \<Rightarrow> providerProbeIntFromEnv getenv fallback keys))"

section \<open>State\<close>

definition zero_ProviderHealth :: ProviderHealth where
  "zero_ProviderHealth = \<lparr>ph_Provider = [], ph_Configured = False, ph_Available = False, ph_Status = [],
     ph_BaseURL = [], ph_Error = [], ph_ObservedAt = zero_time, ph_ProbeQueued = False,
     ph_CooldownUntil = None, ph_RefreshAfter = None, ph_RuntimeCapabilities = None\<rparr>"

record providerProbeState =
  pp_reporter :: "nat option"
  pp_fallback :: ProviderHealth
  pp_cached :: ProviderHealth
  pp_hasCached :: bool
  pp_refreshAfter :: time
  pp_cooldownUntil :: time
  pp_inflight :: bool
  pp_queued :: bool

definition zero_providerProbeState :: providerProbeState where
  "zero_providerProbeState = \<lparr>pp_reporter = None, pp_fallback = zero_ProviderHealth,
     pp_cached = zero_ProviderHealth, pp_hasCached = False, pp_refreshAfter = zero_time,
     pp_cooldownUntil = zero_time, pp_inflight = False, pp_queued = False\<rparr>"

record providerProbeManager =
  pb_timeout :: duration
  pb_ttl :: duration
  pb_failureCooldown :: duration
  pb_rateLimitCooldown :: duration
  pb_capacity :: nat
  pb_queue :: "string list"
  pb_states :: "string \<rightharpoonup> providerProbeState"

text \<open>The manager and the number of worker goroutines the constructor starts.\<close>

definition newProviderProbeManager :: "(string \<Rightarrow> string) \<Rightarrow> providerProbeManager \<times> nat" where
  "newProviderProbeManager getenv =
     (let workers = providerProbeIntFromEnv getenv 1
            [''GO_CORE_PROVIDER_HEALTH_WORKERS'', ''AI_BRIDGE_PROVIDER_HEALTH_WORKERS''];
          workers = (if workers < 1 then 1 else workers);
          queueSize = providerProbeIntFromEnv getenv 64
            [''GO_CORE_PROVIDER_HEALTH_QUEUE_SIZE'', ''AI_BRIDGE_PROVIDER_HEALTH_QUEUE_SIZE''];
          queueSize = (if queueSize < workers then workers else queueSize)
      in (\<lparr>pb_timeout = providerProbeDurationFromEnv getenv (3 * second)
             [''GO_CORE_PROVIDER_HEALTH_TIMEOUT'', ''AI_BRIDGE_PROVIDER_HEALTH_TIMEOUT''],
           pb_ttl = providerProbeDurationFromEnv getenv (30 * second)
             [''GO_CORE_PROVIDER_HEALTH_TTL'', ''AI_BRIDGE_PROVIDER_HEALTH_TTL''],
           pb_failureCooldown = providerProbeDurationFromEnv getenv (15 * second)
             [''GO_CORE_PROVIDER_HEALTH_COOLDOWN'', ''AI_BRIDGE_PROVIDER_HEALTH_COOLDOWN''],
           pb_rateLimitCooldown = providerProbeDurationFromEnv getenv (45 * second)
             [''GO_CORE_PROVIDER_HEALTH_RATE_LIMIT_COOLDOWN'', ''AI_BRIDGE_PROVIDER_HEALTH_RATE_LIMIT_COOLDOWN''],
           pb_capacity = nat queueSize, pb_queue = [], pb_states = Map.empty\<rparr>, nat workers))"

section \<open>Reading a provider\<close>

definition stateLocked :: "string \<Rightarrow> providerProbeManager \<Rightarrow> providerProbeState" where
  "stateLocked provider m = (case pb_states m provider of None \<Rightarrow> zero_providerProbeState | Some state \<Rightarrow> state)"

definition putState :: "string \<Rightarrow> providerProbeState \<Rightarrow> providerProbeManager \<Rightarrow> providerProbeManager" where
  "putState provider state m = m\<lparr>pb_states := (pb_states m)(provider \<mapsto> state)\<rparr>"

definition shouldQueue :: "time \<Rightarrow> providerProbeState \<Rightarrow> bool" where
  "shouldQueue now s =
     (if pp_reporter s = None \<or> pp_queued s \<or> pp_inflight s then False
      else if pp_cooldownUntil s \<noteq> zero_time \<and> now < pp_cooldownUntil s then False
      else if pp_refreshAfter s \<noteq> zero_time \<and> now < pp_refreshAfter s then False
      else True)"

definition selectProviderHealth :: "ProviderHealth \<Rightarrow> ProviderHealth \<Rightarrow> ProviderHealth" where
  "selectProviderHealth fallback probe =
     (if ph_Provider probe = [] then fallback
      else if ph_Provider fallback = [] then probe
      else if ph_Available probe then probe
      else if ph_Available fallback then fallback
      else if EqualFold (TrimSpace (ph_Status fallback)) ''configured'' then probe
      else if ph_ObservedAt fallback > ph_ObservedAt probe then fallback
      else probe)"

definition currentHealth :: "time \<Rightarrow> providerProbeState \<Rightarrow> ProviderHealth" where
  "currentHealth now s =
     (let health = (if pp_hasCached s then selectProviderHealth (pp_fallback s) (pp_cached s) else pp_fallback s);
          health = (if ph_Provider health = [] then health\<lparr>ph_Provider := ph_Provider (pp_fallback s)\<rparr> else health);
          health = (if ph_ObservedAt health = zero_time then health\<lparr>ph_ObservedAt := now\<rparr> else health)
      in health\<lparr>ph_ProbeQueued := pp_queued s \<or> pp_inflight s,
           ph_CooldownUntil := (if pp_cooldownUntil s \<noteq> zero_time \<and> now < pp_cooldownUntil s
             then Some (pp_cooldownUntil s) else None),
           ph_RefreshAfter := (if pp_refreshAfter s \<noteq> zero_time then Some (pp_refreshAfter s) else None)\<rparr>)"

definition Observe ::
  "time \<Rightarrow> string \<Rightarrow> ProviderHealth \<Rightarrow> nat option \<Rightarrow> bool \<Rightarrow> providerProbeManager
   \<Rightarrow> ProviderHealth \<times> providerProbeManager" where
  "Observe now provider fallback reporter probe m =
     (let provider = TrimSpace provider in
      if provider = [] then (fallback, m)
      else
        let fallback = (if ph_Provider fallback = [] then fallback\<lparr>ph_Provider := provider\<rparr> else fallback);
            state = (stateLocked provider m)\<lparr>pp_reporter := reporter, pp_fallback := fallback\<rparr>;
            sends = (probe \<and> reporter \<noteq> None \<and> shouldQueue now state \<and> length (pb_queue m) < pb_capacity m);
            state = (if sends then state\<lparr>pp_queued := True\<rparr> else state);
            m = (if sends then m\<lparr>pb_queue := pb_queue m @ [provider]\<rparr> else m)
        in (currentHealth now state, putState provider state m))"

section \<open>Probing\<close>

definition scheduleFor :: "providerProbeManager \<Rightarrow> ProviderHealth \<Rightarrow> duration \<times> duration" where
  "scheduleFor m health =
     (let status = TrimSpace (ToLower (ph_Status health)) in
      if status = ''ready'' then (pb_ttl m, 0)
      else if status = ''rate_limited'' then (pb_rateLimitCooldown m, pb_rateLimitCooldown m)
      else if status = ''not_configured'' then (pb_failureCooldown m, pb_failureCooldown m)
      else if status = ''degraded'' \<or> status = ''unavailable'' then (pb_failureCooldown m, pb_failureCooldown m)
      else if ph_Available health then (pb_ttl m, 0)
      else (pb_failureCooldown m, pb_failureCooldown m))"

text \<open>The first critical section of \<open>runProbe\<close>: the reporter to call, if there is one.\<close>

definition beginProbe :: "string \<Rightarrow> providerProbeManager \<Rightarrow> nat option \<times> providerProbeManager" where
  "beginProbe provider m =
     (let state = (stateLocked provider m)\<lparr>pp_queued := False\<rparr> in
      case pp_reporter state of
        None \<Rightarrow> (None, putState provider state m)
      | Some reporter \<Rightarrow> (Some reporter, putState provider (state\<lparr>pp_inflight := True\<rparr>) m))"

text \<open>The rest of \<open>runProbe\<close> after the reporter has answered.\<close>

definition finishProbe :: "time \<Rightarrow> string \<Rightarrow> ProviderHealth \<Rightarrow> providerProbeManager \<Rightarrow> providerProbeManager" where
  "finishProbe now provider health m =
     (let health = (if ph_Provider health = [] then health\<lparr>ph_Provider := provider\<rparr> else health);
          health = (if ph_ObservedAt health = zero_time then health\<lparr>ph_ObservedAt := now\<rparr> else health);
          (refreshDelay, cooldown) = scheduleFor m health;
          state = (stateLocked provider m)\<lparr>pp_cached := health, pp_hasCached := True, pp_inflight := False,
            pp_queued := False,
            pp_refreshAfter := (if refreshDelay > 0 then now + refreshDelay else zero_time),
            pp_cooldownUntil := (if cooldown > 0 then now + cooldown else zero_time)\<rparr>
      in putState provider state m)"

definition runProbe ::
  "(nat \<Rightarrow> ProviderHealth) \<Rightarrow> time \<Rightarrow> string \<Rightarrow> providerProbeManager \<Rightarrow> providerProbeManager" where
  "runProbe answer now provider m =
     (case beginProbe provider m of
        (None, m) \<Rightarrow> m
      | (Some reporter, m) \<Rightarrow> finishProbe now provider (answer reporter) m)"

section \<open>Observers and workers together\<close>

text \<open>
  A worker waits at the channel, holds the name of a provider it took, waits for the reporter, or
  has returned because the background context is done. The log records when a probe was put into
  the channel and when one ended, with the delay the schedule asks for.
\<close>

datatype probe_pc = ProbeIdle | ProbeTook string | Probing string nat | ProbeExited

datatype probe_event = Queued string time | Probed string time duration

record ProbeSystem =
  sy_manager :: providerProbeManager
  sy_workers :: "probe_pc list"
  sy_log :: "probe_event list"

definition observed_event :: "time \<Rightarrow> string \<Rightarrow> providerProbeManager \<Rightarrow> providerProbeManager \<Rightarrow> probe_event list" where
  "observed_event now provider m m' =
     (if length (pb_queue m') > length (pb_queue m) then [Queued (TrimSpace provider) now] else [])"

inductive probe_step :: "ProbeSystem \<Rightarrow> ProbeSystem \<Rightarrow> bool" where
  observe: "0 < now \<Longrightarrow> m' = snd (Observe now provider fallback reporter probe (sy_manager s)) \<Longrightarrow>
     probe_step s (s\<lparr>sy_manager := m', sy_log := sy_log s @ observed_event now provider (sy_manager s) m'\<rparr>)"
| take: "i < length (sy_workers s) \<Longrightarrow> sy_workers s ! i = ProbeIdle \<Longrightarrow> pb_queue (sy_manager s) = p # q \<Longrightarrow>
     probe_step s (s\<lparr>sy_manager := (sy_manager s)\<lparr>pb_queue := q\<rparr>, sy_workers := (sy_workers s)[i := ProbeTook p]\<rparr>)"
| start: "i < length (sy_workers s) \<Longrightarrow> sy_workers s ! i = ProbeTook p \<Longrightarrow> beginProbe p (sy_manager s) = (Some r, m') \<Longrightarrow>
     probe_step s (s\<lparr>sy_manager := m', sy_workers := (sy_workers s)[i := Probing p r]\<rparr>)"
| skip: "i < length (sy_workers s) \<Longrightarrow> sy_workers s ! i = ProbeTook p \<Longrightarrow> beginProbe p (sy_manager s) = (None, m') \<Longrightarrow>
     probe_step s (s\<lparr>sy_manager := m', sy_workers := (sy_workers s)[i := ProbeIdle]\<rparr>)"
| finish: "i < length (sy_workers s) \<Longrightarrow> sy_workers s ! i = Probing p r \<Longrightarrow> 0 < now \<Longrightarrow>
     probe_step s (s\<lparr>sy_manager := finishProbe now p health (sy_manager s), sy_workers := (sy_workers s)[i := ProbeIdle],
       sy_log := sy_log s @ [Probed p now (fst (scheduleFor (sy_manager s) health))]\<rparr>)"
| exit: "i < length (sy_workers s) \<Longrightarrow> sy_workers s ! i = ProbeIdle \<Longrightarrow>
     probe_step s (s\<lparr>sy_workers := (sy_workers s)[i := ProbeExited]\<rparr>)"

definition probe_start :: "(string \<Rightarrow> string) \<Rightarrow> ProbeSystem" where
  "probe_start getenv = (case newProviderProbeManager getenv of (m, workers) \<Rightarrow>
     \<lparr>sy_manager = m, sy_workers = replicate workers ProbeIdle, sy_log = []\<rparr>)"

inductive probe_reachable :: "(string \<Rightarrow> string) \<Rightarrow> ProbeSystem \<Rightarrow> bool" for getenv where
  init: "probe_reachable getenv (probe_start getenv)"
| step: "probe_reachable getenv s \<Longrightarrow> probe_step s s' \<Longrightarrow> probe_reachable getenv s'"

section \<open>One probe at a time\<close>

definition waiting :: "string \<Rightarrow> ProbeSystem \<Rightarrow> nat" where
  "waiting p s = count_list (pb_queue (sy_manager s)) p + length (filter (\<lambda>pc. pc = ProbeTook p) (sy_workers s))"

definition is_probing :: "string \<Rightarrow> probe_pc \<Rightarrow> bool" where
  "is_probing p pc = (case pc of Probing q r \<Rightarrow> q = p | _ \<Rightarrow> False)"

definition probing :: "string \<Rightarrow> ProbeSystem \<Rightarrow> nat" where
  "probing p s = length (filter (is_probing p) (sy_workers s))"

definition probe_ok :: "string \<Rightarrow> ProbeSystem \<Rightarrow> bool" where
  "probe_ok p s \<longleftrightarrow> waiting p s = of_bool (pp_queued (stateLocked p (sy_manager s)))
     \<and> probing p s = of_bool (pp_inflight (stateLocked p (sy_manager s)))
     \<and> \<not> (pp_queued (stateLocked p (sy_manager s)) \<and> pp_inflight (stateLocked p (sy_manager s)))"

definition probe_inv :: "ProbeSystem \<Rightarrow> bool" where
  "probe_inv s \<longleftrightarrow> length (pb_queue (sy_manager s)) \<le> pb_capacity (sy_manager s) \<and> (\<forall>p. probe_ok p s)"

lemma length_filter_update:
  "i < length xs \<Longrightarrow> length (filter P (xs[i := y])) + of_bool (P (xs ! i)) = length (filter P xs) + of_bool (P y)"
proof (induction xs arbitrary: i)
  case (Cons x xs)
  show ?case
  proof (cases i)
    case (Suc j)
    then show ?thesis using Cons.IH [of j] Cons.prems by simp
  qed simp
qed simp

lemma stateLocked_putState [simp]:
  "stateLocked q (putState p st m) = (if q = p then st else stateLocked q m)"
  "stateLocked q (m\<lparr>pb_queue := xs\<rparr>) = stateLocked q m"
  by (simp_all add: stateLocked_def putState_def)

lemma putState_rest [simp]:
  "pb_queue (putState p st m) = pb_queue m" "pb_capacity (putState p st m) = pb_capacity m"
  "scheduleFor (putState p st m) = scheduleFor m" "scheduleFor (m\<lparr>pb_queue := xs\<rparr>) = scheduleFor m"
  by (intro ext | simp add: putState_def scheduleFor_def Let_def)+

lemma probe_inv_start: "probe_inv (probe_start getenv)"
  by (simp add: probe_inv_def probe_ok_def probe_start_def newProviderProbeManager_def Let_def waiting_def probing_def
      stateLocked_def zero_providerProbeState_def filter_replicate is_probing_def)

text \<open>An observation sends at most one name, of a provider that is neither waiting nor being probed.\<close>

lemma Observe_cases:
  assumes "m' = snd (Observe now provider fallback reporter probe m)"
  obtains (same) "m' = m"
  | (kept) st where "m' = putState (TrimSpace provider) st m"
      "pp_queued st = pp_queued (stateLocked (TrimSpace provider) m)" "pp_inflight st = pp_inflight (stateLocked (TrimSpace provider) m)"
      "pp_refreshAfter st = pp_refreshAfter (stateLocked (TrimSpace provider) m)"
  | (sent) st where "m' = putState (TrimSpace provider) st (m\<lparr>pb_queue := pb_queue m @ [TrimSpace provider]\<rparr>)"
      "length (pb_queue m) < pb_capacity m" "pp_refreshAfter st = zero_time \<or> pp_refreshAfter st \<le> now"
      "pp_queued st" "\<not> pp_inflight st" "\<not> pp_queued (stateLocked (TrimSpace provider) m)"
      "\<not> pp_inflight (stateLocked (TrimSpace provider) m)"
      "pp_refreshAfter st = pp_refreshAfter (stateLocked (TrimSpace provider) m)"
proof -
  define f where "f = (if ph_Provider fallback = [] then fallback\<lparr>ph_Provider := TrimSpace provider\<rparr> else fallback)"
  define st where "st = (stateLocked (TrimSpace provider) m)\<lparr>pp_reporter := reporter, pp_fallback := f\<rparr>"
  consider "TrimSpace provider = []"
    | "TrimSpace provider \<noteq> []" "\<not> (probe \<and> reporter \<noteq> None \<and> shouldQueue now st \<and> length (pb_queue m) < pb_capacity m)"
    | "TrimSpace provider \<noteq> []" "probe \<and> reporter \<noteq> None \<and> shouldQueue now st \<and> length (pb_queue m) < pb_capacity m"
    by blast
  then show ?thesis
  proof cases
    case 1
    then show ?thesis using assms same by (simp add: Observe_def)
  next
    case 2
    then have "m' = putState (TrimSpace provider) st m"
      using assms unfolding Observe_def f_def [symmetric] st_def [symmetric] Let_def by auto
    then show ?thesis by (rule kept) (simp_all add: st_def)
  next
    case 3
    then have "m' = putState (TrimSpace provider) (st\<lparr>pp_queued := True\<rparr>) (m\<lparr>pb_queue := pb_queue m @ [TrimSpace provider]\<rparr>)"
      using assms unfolding Observe_def f_def [symmetric] st_def [symmetric] Let_def by auto
    then show ?thesis
      by (rule sent) (use 3 in \<open>auto simp: st_def shouldQueue_def split: if_splits\<close>)
  qed
qed

lemma probe_inv_observe:
  assumes "probe_inv s" and "m' = snd (Observe now provider fallback reporter probe (sy_manager s))"
  shows "probe_inv (s\<lparr>sy_manager := m', sy_log := l\<rparr>)"
  using assms(2)
proof (cases rule: Observe_cases)
  case same
  then show ?thesis using assms(1) by (simp add: probe_inv_def probe_ok_def waiting_def probing_def)
next
  case (kept st)
  then show ?thesis using assms(1) by (simp add: probe_inv_def probe_ok_def waiting_def probing_def)
next
  case (sent st)
  then show ?thesis using assms(1) by (auto simp: probe_inv_def probe_ok_def waiting_def probing_def count_list_append)
qed

lemma beginProbe_eq:
  "beginProbe p m = (case pp_reporter (stateLocked p m) of
     None \<Rightarrow> (None, putState p ((stateLocked p m)\<lparr>pp_queued := False\<rparr>) m)
   | Some r \<Rightarrow> (Some r, putState p ((stateLocked p m)\<lparr>pp_queued := False, pp_inflight := True\<rparr>) m))"
  by (simp add: beginProbe_def Let_def split: option.split)

definition storedHealth :: "time \<Rightarrow> string \<Rightarrow> ProviderHealth \<Rightarrow> ProviderHealth" where
  "storedHealth now p health =
     health\<lparr>ph_Provider := (if ph_Provider health = [] then p else ph_Provider health),
       ph_ObservedAt := (if ph_ObservedAt health = zero_time then now else ph_ObservedAt health)\<rparr>"

definition afterProbe :: "time \<Rightarrow> string \<Rightarrow> ProviderHealth \<Rightarrow> providerProbeManager \<Rightarrow> providerProbeState" where
  "afterProbe now p health m = (stateLocked p m)\<lparr>pp_cached := storedHealth now p health, pp_hasCached := True,
     pp_inflight := False, pp_queued := False,
     pp_refreshAfter := (if fst (scheduleFor m health) > 0 then now + fst (scheduleFor m health) else zero_time),
     pp_cooldownUntil := (if snd (scheduleFor m health) > 0 then now + snd (scheduleFor m health) else zero_time)\<rparr>"

lemma finishProbe_eq: "finishProbe now p health m = putState p (afterProbe now p health m) m"
proof -
  have "scheduleFor m (storedHealth now p health) = scheduleFor m health"
    by (simp add: scheduleFor_def storedHealth_def)
  moreover have "(let health = (if ph_Provider health = [] then health\<lparr>ph_Provider := p\<rparr> else health)
      in if ph_ObservedAt health = zero_time then health\<lparr>ph_ObservedAt := now\<rparr> else health) = storedHealth now p health"
    by (simp add: storedHealth_def)
  ultimately show ?thesis
    unfolding finishProbe_def afterProbe_def Let_def by (simp add: split_beta)
qed

lemma afterProbe_simps [simp]:
  "\<not> pp_queued (afterProbe now p health m)" "\<not> pp_inflight (afterProbe now p health m)"
  "pp_refreshAfter (afterProbe now p health m) =
     (if fst (scheduleFor m health) > 0 then now + fst (scheduleFor m health) else zero_time)"
  by (simp_all add: afterProbe_def)

lemma workers_update:
  assumes "i < length (sy_workers s)"
  shows "length (filter P ((sy_workers s)[i := y])) = length (filter P (sy_workers s)) + of_bool (P y) - of_bool (P (sy_workers s ! i))"
  using length_filter_update [OF assms, of P y] by simp

lemma holder_counted:
  assumes "i < length (sy_workers s)" and "P (sy_workers s ! i)"
  shows "0 < length (filter P (sy_workers s))"
  using assms by (auto simp: filter_empty_conv)

lemmas counts = waiting_def probing_def is_probing_def workers_update

lemma taken_queued:
  assumes "probe_ok p s" "i < length (sy_workers s)" "sy_workers s ! i = ProbeTook p"
  shows "pp_queued (stateLocked p (sy_manager s))" and "count_list (pb_queue (sy_manager s)) p = 0"
proof -
  have "1 \<le> length (filter (\<lambda>pc. pc = ProbeTook p) (sy_workers s))"
    using holder_counted [OF assms(2), of "\<lambda>pc. pc = ProbeTook p"] assms(3) by (simp add: Suc_le_eq)
  then show "pp_queued (stateLocked p (sy_manager s))" and "count_list (pb_queue (sy_manager s)) p = 0"
    using assms(1) by (auto simp: probe_ok_def waiting_def of_bool_def split: if_splits)
qed

lemma probing_inflight:
  assumes "probe_ok p s" "i < length (sy_workers s)" "sy_workers s ! i = Probing p r"
  shows "pp_inflight (stateLocked p (sy_manager s))"
  using assms(1) holder_counted [OF assms(2), of "is_probing p"] assms(3)
  by (auto simp: probe_ok_def probing_def is_probing_def of_bool_def split: if_splits)

lemma probe_invI:
  assumes "probe_inv s" "length (pb_queue (sy_manager s')) \<le> pb_capacity (sy_manager s')"
    and "\<And>x. probe_ok x s \<Longrightarrow> probe_ok x s'"
  shows "probe_inv s'"
  using assms by (simp add: probe_inv_def)

lemma probe_step_inv:
  assumes "probe_step s s'" and inv: "probe_inv s"
  shows "probe_inv s'"
proof -
  have ok: "probe_ok p s" and len: "length (pb_queue (sy_manager s)) \<le> pb_capacity (sy_manager s)" for p
    using inv by (simp_all add: probe_inv_def)
  from assms(1) show ?thesis
  proof cases
    case (observe now m' provider fallback reporter probe)
    then show ?thesis using probe_inv_observe [OF inv] by simp
  next
    case (take i p q)
    then show ?thesis using len
      by (intro probe_invI [OF inv]) (auto simp: probe_ok_def counts of_bool_def split: if_splits)
  next
    case (start i p r m')
    have "pp_queued (stateLocked p (sy_manager s))" "\<not> pp_inflight (stateLocked p (sy_manager s))"
      "count_list (pb_queue (sy_manager s)) p = 0"
      using taken_queued [OF ok start(2,3)] ok [of p] by (auto simp: probe_ok_def)
    then show ?thesis using start len
      by (intro probe_invI [OF inv]) (auto simp: probe_ok_def counts beginProbe_eq split: option.splits)
  next
    case (skip i p m')
    note taken_queued [OF ok skip(2,3)]
    with skip len show ?thesis
      by (intro probe_invI [OF inv]) (auto simp: probe_ok_def counts beginProbe_eq split: option.splits)
  next
    case (finish i p r now health)
    have "pp_inflight (stateLocked p (sy_manager s))"
      using probing_inflight [OF ok finish(2,3)] .
    then show ?thesis using finish len
      by (intro probe_invI [OF inv]) (auto simp: probe_ok_def counts finishProbe_eq)
  next
    case (exit i)
    then show ?thesis using len by (intro probe_invI [OF inv]) (simp_all add: probe_ok_def counts)
  qed
qed

lemma probe_reachable_inv: "probe_reachable getenv s \<Longrightarrow> probe_inv s"
  by (induction rule: probe_reachable.induct) (auto intro: probe_inv_start probe_step_inv)

section \<open>Spacing\<close>

definition probed :: "string \<Rightarrow> probe_event \<Rightarrow> bool" where
  "probed p e = (case e of Probed q t d \<Rightarrow> q = p | _ \<Rightarrow> False)"

text \<open>When the last probe of a provider ended, and the delay it asked for.\<close>

definition last_probe :: "string \<Rightarrow> probe_event list \<Rightarrow> (time \<times> duration) option" where
  "last_probe p es = (case filter (probed p) (rev es) of Probed q t d # _ \<Rightarrow> Some (t, d) | _ \<Rightarrow> None)"

lemma last_probe_snoc [simp]:
  "last_probe p [] = None" "last_probe p (es @ [Queued q t]) = last_probe p es"
  "last_probe p (es @ [Probed q t d]) = (if q = p then Some (t, d) else last_probe p es)"
  by (simp_all add: last_probe_def probed_def)

definition delays :: "providerProbeManager \<Rightarrow> duration set" where
  "delays m = {pb_ttl m, pb_failureCooldown m, pb_rateLimitCooldown m}"

text \<open>Every probe put into the channel keeps the delay the last one asked for.\<close>

definition spaced :: "duration set \<Rightarrow> probe_event list \<Rightarrow> bool" where
  "spaced D es \<longleftrightarrow> (\<forall>pre p t' post t d. es = pre @ Queued p t' # post \<longrightarrow> last_probe p pre = Some (t, d) \<longrightarrow>
     t + d \<le> t' \<and> d \<in> D)"

lemma snoc_eq_split:
  "xs @ [e] = pre @ y # post \<longleftrightarrow> (post = [] \<and> xs = pre \<and> e = y) \<or> (\<exists>post'. post = post' @ [e] \<and> xs = pre @ y # post')"
  by (cases post rule: rev_cases) (auto simp flip: append_Cons append_assoc)

lemma spaced_Queued: "spaced D es \<Longrightarrow> (\<And>t d. last_probe p es = Some (t, d) \<Longrightarrow> t + d \<le> t' \<and> d \<in> D) \<Longrightarrow>
    spaced D (es @ [Queued p t'])"
  unfolding spaced_def snoc_eq_split by blast

lemma spaced_Probed: "spaced D es \<Longrightarrow> spaced D (es @ [Probed p t d])"
  unfolding spaced_def snoc_eq_split by blast

definition spacing_inv :: "(string \<Rightarrow> string) \<Rightarrow> ProbeSystem \<Rightarrow> bool" where
  "spacing_inv getenv s \<longleftrightarrow> delays (sy_manager s) = delays (fst (newProviderProbeManager getenv)) \<and>
     (\<forall>p t d. last_probe p (sy_log s) = Some (t, d) \<longrightarrow>
        0 < t \<and> d \<in> delays (sy_manager s) \<and> pp_refreshAfter (stateLocked p (sy_manager s)) = t + d) \<and>
     spaced (delays (sy_manager s)) (sy_log s)"

lemma fromEnv_pos:
  "0 < fallback \<Longrightarrow> 0 < providerProbeDurationFromEnv getenv fallback keys"
  by (induction keys) (auto simp: Let_def split: option.split)

lemma delays_pos: "d \<in> delays (fst (newProviderProbeManager getenv)) \<Longrightarrow> 0 < d"
  unfolding delays_def newProviderProbeManager_def Let_def
  by (auto simp del: providerProbeDurationFromEnv.simps intro!: fromEnv_pos)

lemma delays_simps [simp]:
  "delays (putState p st m) = delays m" "delays (m\<lparr>pb_queue := q\<rparr>) = delays m"
  by (simp_all add: delays_def putState_def)

lemma scheduleFor_delays: "fst (scheduleFor m health) \<in> delays m"
  by (simp add: scheduleFor_def delays_def Let_def)

text \<open>A step that leaves the log and the times alone keeps the invariant.\<close>

lemma spacing_frame:
  assumes "spacing_inv getenv s" "sy_log s' = sy_log s" "delays (sy_manager s') = delays (sy_manager s)"
    "\<And>p. pp_refreshAfter (stateLocked p (sy_manager s')) = pp_refreshAfter (stateLocked p (sy_manager s))"
  shows "spacing_inv getenv s'"
  using assms unfolding spacing_inv_def by metis

lemma spacing_observe:
  assumes inv: "spacing_inv getenv s" and m': "m' = snd (Observe now provider fallback reporter probe (sy_manager s))"
    and "0 < now"
  shows "spacing_inv getenv (s\<lparr>sy_manager := m', sy_log := sy_log s @ observed_event now provider (sy_manager s) m'\<rparr>)"
  using m'
proof (cases rule: Observe_cases)
  case same
  then show ?thesis by (intro spacing_frame [OF inv]) (simp_all add: observed_event_def)
next
  case (kept st)
  then show ?thesis by (intro spacing_frame [OF inv]) (simp_all add: observed_event_def)
next
  case (sent st)
  define p where "p = TrimSpace provider"
  have log: "observed_event now provider (sy_manager s) m' = [Queued p now]"
    using sent(1) by (simp add: observed_event_def p_def)
  have due: "t + d \<le> now \<and> d \<in> delays (sy_manager s)" if l: "last_probe p (sy_log s) = Some (t, d)" for t d
  proof -
    have i: "0 < t" "d \<in> delays (sy_manager s)" "pp_refreshAfter (stateLocked p (sy_manager s)) = t + d"
      "delays (sy_manager s) = delays (fst (newProviderProbeManager getenv))"
      using inv l unfolding spacing_inv_def by blast+
    then have "0 < t + d" using delays_pos by (metis add_pos_pos)
    then show ?thesis using i sent(3,8) by (auto simp: p_def)
  qed
  have "pp_refreshAfter (stateLocked q m') = pp_refreshAfter (stateLocked q (sy_manager s))" "delays m' = delays (sy_manager s)" for q
    using sent(1,8) by simp_all
  then show ?thesis
    using inv due unfolding spacing_inv_def log by (auto intro!: spaced_Queued)
qed

lemma spacing_step:
  assumes "probe_step s s'" and inv: "spacing_inv getenv s"
  shows "spacing_inv getenv s'"
  using assms(1)
proof cases
  case (observe now m' provider fallback reporter probe)
  then show ?thesis using spacing_observe [OF inv] by simp
next
  case (take i p q)
  then show ?thesis by (intro spacing_frame [OF inv]) simp_all
next
  case (start i p r m')
  then show ?thesis by (intro spacing_frame [OF inv]) (auto simp: beginProbe_eq split: option.splits)
next
  case (skip i p m')
  then show ?thesis by (intro spacing_frame [OF inv]) (auto simp: beginProbe_eq split: option.splits)
next
  case (finish i p r now health)
  have d: "fst (scheduleFor (sy_manager s) health) \<in> delays (sy_manager s)"
    by (rule scheduleFor_delays)
  then have "0 < fst (scheduleFor (sy_manager s) health)"
    using inv delays_pos unfolding spacing_inv_def by blast
  then show ?thesis
    using inv finish d unfolding finishProbe_eq spacing_inv_def by (auto intro!: spaced_Probed)
next
  case (exit i)
  then show ?thesis by (intro spacing_frame [OF inv]) simp_all
qed

lemma spacing_reachable: "probe_reachable getenv s \<Longrightarrow> spacing_inv getenv s"
proof (induction rule: probe_reachable.induct)
  case init
  then show ?case by (simp add: spacing_inv_def spaced_def probe_start_def split_beta)
next
  case (step s s')
  then show ?case using spacing_step by blast
qed

section \<open>Properties\<close>

text \<open>C38. A provider is probed by one worker at a time: in every state that observers and workers can
  reach, whatever their interleaving, the name of a provider is at most once in the channel or in
  the hands of a worker; it is there exactly when the provider is marked as queued or in flight,
  so no provider is left marked without a worker or a place in the channel; and the channel is
  never filled beyond its capacity.\<close>

theorem probes_are_single_flight:
  assumes "probe_reachable getenv s"
  shows "waiting p s + probing p s \<le> 1
    \<and> (waiting p s + probing p s = 1 \<longleftrightarrow>
         pp_queued (stateLocked p (sy_manager s)) \<or> pp_inflight (stateLocked p (sy_manager s)))
    \<and> length (pb_queue (sy_manager s)) \<le> pb_capacity (sy_manager s)"
  using probe_reachable_inv [OF assms] by (auto simp: probe_inv_def probe_ok_def of_bool_def)

definition example_probe_health :: ProviderHealth where
  "example_probe_health = zero_ProviderHealth\<lparr>ph_Status := ''rate_limited''\<rparr>"

definition example_observe :: "time \<Rightarrow> ProbeSystem \<Rightarrow> ProbeSystem" where
  "example_observe now s = (let m' = snd (Observe now ''openai'' zero_ProviderHealth (Some 7) True (sy_manager s))
     in s\<lparr>sy_manager := m', sy_log := sy_log s @ observed_event now ''openai'' (sy_manager s) m'\<rparr>)"

definition example_take :: "ProbeSystem \<Rightarrow> ProbeSystem" where
  "example_take s = s\<lparr>sy_manager := (sy_manager s)\<lparr>pb_queue := tl (pb_queue (sy_manager s))\<rparr>,
     sy_workers := (sy_workers s)[0 := ProbeTook ''openai'']\<rparr>"

definition example_start :: "ProbeSystem \<Rightarrow> ProbeSystem" where
  "example_start s = s\<lparr>sy_manager := snd (beginProbe ''openai'' (sy_manager s)),
     sy_workers := (sy_workers s)[0 := Probing ''openai'' 7]\<rparr>"

definition example_finish :: "time \<Rightarrow> ProbeSystem \<Rightarrow> ProbeSystem" where
  "example_finish now s = s\<lparr>sy_manager := finishProbe now ''openai'' example_probe_health (sy_manager s),
     sy_workers := (sy_workers s)[0 := ProbeIdle],
     sy_log := sy_log s @ [Probed ''openai'' now (fst (scheduleFor (sy_manager s) example_probe_health))]\<rparr>"

definition example_probing :: ProbeSystem where
  "example_probing = example_start (example_take (example_observe second (probe_start (\<lambda>_. []))))"

definition example_probed :: ProbeSystem where
  "example_probed = example_observe (48 * second) (example_observe (40 * second) (example_finish (2 * second) example_probing))"

lemma example_observe_step: "0 < now \<Longrightarrow> probe_step s (example_observe now s)"
  unfolding example_observe_def Let_def by (rule probe_step.observe) simp_all

lemma example_take_step: "0 < length (sy_workers s) \<Longrightarrow> sy_workers s ! 0 = ProbeIdle \<Longrightarrow>
    pb_queue (sy_manager s) = [''openai''] \<Longrightarrow> probe_step s (example_take s)"
  using probe_step.take [of 0 s "''openai''" "[]"] by (simp add: example_take_def)

lemma example_start_step: "0 < length (sy_workers s) \<Longrightarrow> sy_workers s ! 0 = ProbeTook ''openai'' \<Longrightarrow>
    fst (beginProbe ''openai'' (sy_manager s)) = Some 7 \<Longrightarrow> probe_step s (example_start s)"
  unfolding example_start_def by (rule probe_step.start) (auto simp: prod_eq_iff)

lemma example_finish_step: "0 < length (sy_workers s) \<Longrightarrow> sy_workers s ! 0 = Probing ''openai'' 7 \<Longrightarrow>
    0 < now \<Longrightarrow> probe_step s (example_finish now s)"
  unfolding example_finish_def by (rule probe_step.finish)

lemma example_probing_reachable: "probe_reachable (\<lambda>_. []) example_probing"
proof -
  define s1 where "s1 = example_observe second (probe_start (\<lambda>_. []))"
  have "probe_reachable (\<lambda>_. []) s1"
    unfolding s1_def by (rule probe_reachable.step [OF probe_reachable.init example_observe_step]) simp
  moreover have "length (sy_workers s1) = 1 \<and> sy_workers s1 ! 0 = ProbeIdle \<and> pb_queue (sy_manager s1) = [''openai'']"
    unfolding s1_def by code_simp
  ultimately have "probe_reachable (\<lambda>_. []) (example_take s1)"
    using example_take_step [of s1] probe_reachable.step by auto
  moreover have "length (sy_workers (example_take s1)) = 1 \<and> sy_workers (example_take s1) ! 0 = ProbeTook ''openai''
      \<and> fst (beginProbe ''openai'' (sy_manager (example_take s1))) = Some 7"
    unfolding s1_def by code_simp
  ultimately show ?thesis
    using example_start_step [of "example_take s1"] probe_reachable.step unfolding example_probing_def s1_def [symmetric] by auto
qed

lemma example_probed_reachable: "probe_reachable (\<lambda>_. []) example_probed"
proof -
  have "length (sy_workers example_probing) = 1 \<and> sy_workers example_probing ! 0 = Probing ''openai'' 7"
    by code_simp
  then have "probe_step example_probing (example_finish (2 * second) example_probing)"
    using example_finish_step [of example_probing] by simp
  then have "probe_reachable (\<lambda>_. []) (example_finish (2 * second) example_probing)"
    by (rule probe_reachable.step [OF example_probing_reachable])
  then show ?thesis
    unfolding example_probed_def
    by (intro probe_reachable.step [OF probe_reachable.step [OF _ example_observe_step] example_observe_step]) simp_all
qed

theorem probes_are_single_flight_witness:
  "probing ''openai'' example_probing = 1 \<and> waiting ''openai'' example_probing = 0"
proof -
  have "pp_inflight (stateLocked ''openai'' (sy_manager example_probing)) \<and> probing ''openai'' example_probing = 1"
    by code_simp
  then show ?thesis
    using probes_are_single_flight [OF example_probing_reachable, of "''openai''"] by simp
qed

text \<open>Providers are not probed too often: between the end of a probe and the moment the next probe
  of that provider enters the channel at least the delay passes that the answer asked for, one of
  the configured intervals, each of which is positive whatever the environment holds.\<close>

theorem probes_keep_their_distance:
  assumes "probe_reachable getenv s" and "sy_log s = before @ Queued p t' # after" and "last_probe p before = Some (t, d)"
  shows "t + d \<le> t' \<and> 0 < d \<and> d \<in> delays (fst (newProviderProbeManager getenv))"
  using spacing_reachable [OF assms(1)] assms(2,3) delays_pos unfolding spacing_inv_def spaced_def by metis

theorem probes_keep_their_distance_witness:
  "sy_log example_probed = [Queued ''openai'' second, Probed ''openai'' (2 * second) (45 * second), Queued ''openai'' (48 * second)]
   \<and> 2 * second + 45 * second \<le> 48 * second"
proof -
  have l: "sy_log example_probed = [Queued ''openai'' second, Probed ''openai'' (2 * second) (45 * second), Queued ''openai'' (48 * second)]"
    by code_simp
  have "last_probe ''openai'' [Queued ''openai'' second, Probed ''openai'' (2 * second) (45 * second)] = Some (2 * second, 45 * second)"
    by code_simp
  then show ?thesis
    using probes_keep_their_distance [OF example_probed_reachable, of "[Queued ''openai'' second, Probed ''openai'' (2 * second) (45 * second)]"] l
    by simp
qed

text \<open>What a probe found is what the next observation reports: the provider is available when the
  probe or the caller's own report says so; until the cool-down of the probe's answer is over the
  observation shows its end; and the observation does not ask for another probe before the delay.\<close>

theorem observation_reports_probe:
  assumes "TrimSpace p = p" and "p \<noteq> []" and "0 < t"
    and "h = fst (Observe now p fallback reporter probe (finishProbe t p health m))"
    and "scheduleFor m health = (delay, cooldown)" and "0 < delay" and "0 \<le> cooldown"
  shows "(ph_Available h \<longleftrightarrow> ph_Available health \<or> ph_Available fallback)
    \<and> ph_CooldownUntil h = (if 0 < cooldown \<and> now < t + cooldown then Some (t + cooldown) else None)
    \<and> (ph_ProbeQueued h \<longrightarrow> t + delay \<le> now)"
proof -
  define f where "f = (if ph_Provider fallback = [] then fallback\<lparr>ph_Provider := p\<rparr> else fallback)"
  define st where "st = (afterProbe t p health m)\<lparr>pp_reporter := reporter, pp_fallback := f\<rparr>"
  have st: "pp_hasCached st" "pp_cached st = storedHealth t p health" "pp_fallback st = f" "\<not> pp_queued st" "\<not> pp_inflight st"
    "pp_refreshAfter st = t + delay" "pp_cooldownUntil st = (if 0 < cooldown then t + cooldown else 0)"
    using assms(5,6) by (simp_all add: st_def afterProbe_def)
  define q where "q \<longleftrightarrow> probe \<and> reporter \<noteq> None \<and> shouldQueue now st \<and>
    length (pb_queue (finishProbe t p health m)) < pb_capacity (finishProbe t p health m)"
  have sl: "stateLocked p (finishProbe t p health m) = afterProbe t p health m"
    by (simp add: finishProbe_eq)
  have "h = currentHealth now (if q then st\<lparr>pp_queued := True\<rparr> else st)"
    using assms(4) unfolding Observe_def Let_def assms(1) f_def [symmetric] sl st_def [symmetric] q_def [symmetric]
    by (simp add: assms(2))
  then have h: "h = currentHealth now (st\<lparr>pp_queued := q\<rparr>)"
    using st(4) by (cases q; cases st) simp_all
  have "ph_Available (selectProviderHealth f (storedHealth t p health)) \<longleftrightarrow> ph_Available health \<or> ph_Available fallback"
    using assms(2) by (auto simp: selectProviderHealth_def storedHealth_def f_def)
  then have "ph_Available h \<longleftrightarrow> ph_Available health \<or> ph_Available fallback"
    using st by (simp add: h currentHealth_def Let_def)
  moreover have "ph_CooldownUntil h = (if 0 < cooldown \<and> now < t + cooldown then Some (t + cooldown) else None)"
    using st assms(3) by (simp add: h currentHealth_def Let_def)
  moreover have "ph_ProbeQueued h = q"
    using st by (simp add: h currentHealth_def Let_def)
  moreover have "t + delay \<le> now" if q
    using that st(6) assms(3,6) unfolding q_def by (auto simp: shouldQueue_def split: if_splits)
  ultimately show ?thesis by blast
qed

theorem observation_reports_probe_witness:
  "ph_CooldownUntil (fst (Observe (40 * second) ''openai'' zero_ProviderHealth (Some 7) True
     (finishProbe (2 * second) ''openai'' example_probe_health (fst (newProviderProbeManager (\<lambda>_. [])))))) = Some (47 * second)"
proof -
  have "TrimSpace ''openai'' = ''openai''"
    "scheduleFor (fst (newProviderProbeManager (\<lambda>_. []))) example_probe_health = (45 * second, 45 * second)"
    by code_simp+
  then show ?thesis
    using observation_reports_probe [of "''openai''" "2 * second" _ "40 * second" zero_ProviderHealth "Some 7" True
        example_probe_health "fst (newProviderProbeManager (\<lambda>_. []))" "45 * second" "45 * second"]
    by simp
qed

end
