(* ===== verification/ProviderConfig.thy ===== *)
theory ProviderConfig
  imports ProbeManager
begin

text \<open>
  The configuration of a provider and the choice of a cloud provider, from
  \<open>go-core/internal/agents/openai_compatible.go\<close>, and the environment readers of
  \<open>kernel/model_registry.go\<close>. The configurations are the map by provider name, as an association
  list; iteration over the map follows the order of the list.
\<close>

section \<open>Strings\<close>

text \<open>\<open>strings.TrimRight\<close> with a one-byte cutset, \<open>strings.HasSuffix\<close>, \<open>strconv.ParseBool\<close>.\<close>

definition TrimRight :: "string \<Rightarrow> char \<Rightarrow> string" where
  "TrimRight s c = rev (dropWhile (\<lambda>x. x = c) (rev s))"

definition HasSuffix :: "string \<Rightarrow> string \<Rightarrow> bool" where
  "HasSuffix s suf \<longleftrightarrow> HasPrefix (rev s) (rev suf)"

definition ParseBool :: "string \<Rightarrow> bool option" where
  "ParseBool s =
     (if s \<in> set [''1'', ''t'', ''T'', ''TRUE'', ''true'', ''True''] then Some True
      else if s \<in> set [''0'', ''f'', ''F'', ''FALSE'', ''false'', ''False''] then Some False
      else None)"

text \<open>\<open>firstNonEmpty\<close> of package \<open>agents\<close> trims the values it looks at.\<close>

fun firstNonEmpty :: "string list \<Rightarrow> string" where
  "firstNonEmpty [] = []"
| "firstNonEmpty (v # vs) = (if TrimSpace v \<noteq> [] then TrimSpace v else firstNonEmpty vs)"

section \<open>Provider configuration\<close>

record OpenAICompatibleConfig =
  cf_Provider :: string
  cf_ProviderID :: string
  cf_BaseURL :: string
  cf_APIKey :: string
  cf_DefaultModel :: string
  cf_ModelsEndpoint :: string
  cf_ChatCompletionsEndpoint :: string
  cf_ResponsesEndpoint :: string
  cf_MessagesEndpoint :: string
  cf_MessagesCountTokensEndpoint :: string
  cf_CodexEndpoint :: string
  cf_Timeout :: duration
  cf_RequireKey :: bool
  cf_NativeStreaming :: bool
  cf_AllowPseudoRealtime :: bool

definition zero_OpenAICompatibleConfig :: OpenAICompatibleConfig where
  "zero_OpenAICompatibleConfig = \<lparr>cf_Provider = [], cf_ProviderID = [], cf_BaseURL = [], cf_APIKey = [],
     cf_DefaultModel = [], cf_ModelsEndpoint = [], cf_ChatCompletionsEndpoint = [], cf_ResponsesEndpoint = [],
     cf_MessagesEndpoint = [], cf_MessagesCountTokensEndpoint = [], cf_CodexEndpoint = [], cf_Timeout = 0,
     cf_RequireKey = False, cf_NativeStreaming = False, cf_AllowPseudoRealtime = False\<rparr>"

definition Configured :: "OpenAICompatibleConfig \<Rightarrow> bool" where
  "Configured c =
     (if TrimSpace (cf_BaseURL c) = [] \<or> TrimSpace (cf_DefaultModel c) = [] then False
      else \<not> cf_RequireKey c \<or> TrimSpace (cf_APIKey c) \<noteq> [])"

definition EffectiveProviderID :: "OpenAICompatibleConfig \<Rightarrow> string" where
  "EffectiveProviderID c = firstNonEmpty [cf_ProviderID c, cf_Provider c]"

definition ModelsURL :: "OpenAICompatibleConfig \<Rightarrow> string" where
  "ModelsURL c = firstNonEmpty [TrimSpace (cf_ModelsEndpoint c), TrimRight (cf_BaseURL c) CHR ''/'' @ ''/models'']"

definition ChatCompletionsURL :: "OpenAICompatibleConfig \<Rightarrow> string" where
  "ChatCompletionsURL c =
     firstNonEmpty [TrimSpace (cf_ChatCompletionsEndpoint c), TrimRight (cf_BaseURL c) CHR ''/'' @ ''/chat/completions'']"

text \<open>The remaining endpoints: the configured one, else a path below the base URL if there is one.\<close>

definition endpointURL :: "string \<Rightarrow> string \<Rightarrow> OpenAICompatibleConfig \<Rightarrow> string" where
  "endpointURL endpoint path c =
     (let endpoint = TrimSpace endpoint in
      if endpoint \<noteq> [] then endpoint
      else let base = TrimRight (cf_BaseURL c) CHR ''/'' in if base = [] then [] else base @ path)"

definition ResponsesURL :: "OpenAICompatibleConfig \<Rightarrow> string" where
  "ResponsesURL c = endpointURL (cf_ResponsesEndpoint c) ''/responses'' c"

definition MessagesURL :: "OpenAICompatibleConfig \<Rightarrow> string" where
  "MessagesURL c = endpointURL (cf_MessagesEndpoint c) ''/messages'' c"

definition MessagesCountTokensURL :: "OpenAICompatibleConfig \<Rightarrow> string" where
  "MessagesCountTokensURL c = endpointURL (cf_MessagesCountTokensEndpoint c) ''/messages/count_tokens'' c"

definition CodexURL :: "OpenAICompatibleConfig \<Rightarrow> string" where
  "CodexURL c = TrimSpace (cf_CodexEndpoint c)"

definition looksLikeCodexSaleEndpoint :: "string \<Rightarrow> bool" where
  "looksLikeCodexSaleEndpoint value =
     (let trimmed = TrimSpace (ToLower value) in trimmed \<noteq> [] \<and> Contains trimmed ''codex.sale'')"

definition LooksLikeCodexSaleAlias :: "OpenAICompatibleConfig \<Rightarrow> bool" where
  "LooksLikeCodexSaleAlias c =
     (if EqualFold (TrimSpace (cf_ProviderID c)) ''codexsale'' then True
      else list_ex looksLikeCodexSaleEndpoint [cf_BaseURL c, cf_ModelsEndpoint c, cf_ChatCompletionsEndpoint c,
        cf_ResponsesEndpoint c, cf_MessagesEndpoint c, cf_MessagesCountTokensEndpoint c, cf_CodexEndpoint c])"

section \<open>The cloud provider\<close>

type_synonym provider_configs = "(string \<times> OpenAICompatibleConfig) list"

fun firstEnv :: "(string \<Rightarrow> string) \<Rightarrow> string list \<Rightarrow> string" where
  "firstEnv getenv [] = []"
| "firstEnv getenv (key # keys) =
     (let value = TrimSpace (getenv key) in if value \<noteq> [] then value else firstEnv getenv keys)"

definition CloudProviderPreference :: "(string \<Rightarrow> string) \<Rightarrow> string" where
  "CloudProviderPreference getenv =
     (let preference = ToLower (TrimSpace (firstEnv getenv [''AI_BRIDGE_CLOUD_PROVIDER'', ''GO_CORE_CLOUD_PROVIDER'']))
      in if preference = [] then ''auto'' else preference)"

definition configuredIn :: "provider_configs \<Rightarrow> string \<Rightarrow> bool" where
  "configuredIn configs provider = (case map_of configs provider of None \<Rightarrow> False | Some cfg \<Rightarrow> Configured cfg)"

definition SelectCloudProvider :: "provider_configs \<Rightarrow> string \<Rightarrow> string" where
  "SelectCloudProvider configs preference =
     (let preference = ToLower (TrimSpace preference);
          openaiReady = configuredIn configs ''openai'';
          codexReady = configuredIn configs ''codexsale'';
          openaiCfg = (case map_of configs ''openai'' of None \<Rightarrow> zero_OpenAICompatibleConfig | Some cfg \<Rightarrow> cfg) in
      if preference \<noteq> [] \<and> preference \<noteq> ''auto'' \<and> configuredIn configs preference then preference
      else if codexReady \<and> (\<not> openaiReady \<or> LooksLikeCodexSaleAlias openaiCfg) then ''codexsale''
      else if openaiReady then ''openai''
      else if codexReady then ''codexsale''
      else (case find (configuredIn configs) [''mistral'', ''mimo'', ''antigravity''] of
              Some provider \<Rightarrow> provider
            | None \<Rightarrow>
                (case find (\<lambda>(provider, cfg). \<not> EqualFold provider ''local'' \<and> \<not> EqualFold provider ''ai_kernel''
                             \<and> Configured cfg) configs of
                   Some (provider, _) \<Rightarrow> provider
                 | None \<Rightarrow> ''openai'')))"

definition PreferredCloudProvider :: "(string \<Rightarrow> string) \<Rightarrow> provider_configs \<Rightarrow> string" where
  "PreferredCloudProvider getenv configs = SelectCloudProvider configs (CloudProviderPreference getenv)"

section \<open>Environment\<close>

fun registryEnvBool :: "(string \<Rightarrow> string) \<Rightarrow> bool \<Rightarrow> string list \<Rightarrow> bool" where
  "registryEnvBool getenv fallback [] = fallback"
| "registryEnvBool getenv fallback (candidate # keys) =
     (let value = TrimSpace (getenv candidate) in
      if value = [] then registryEnvBool getenv fallback keys
      else ParseBool value = Some True)"

fun registryEnvDuration :: "(string \<Rightarrow> string) \<Rightarrow> duration \<Rightarrow> string list \<Rightarrow> duration" where
  "registryEnvDuration getenv fallback [] = fallback"
| "registryEnvDuration getenv fallback (candidate # keys) =
     (let value = TrimSpace (getenv candidate) in
      if value = [] then registryEnvDuration getenv fallback keys
      else (case ParseDuration value of
              Some parsed \<Rightarrow> if parsed > 0 then parsed else registryEnvDuration getenv fallback keys
            | None \<Rightarrow> registryEnvDuration getenv fallback keys))"

fun registryEnvInt :: "(string \<Rightarrow> string) \<Rightarrow> int \<Rightarrow> string list \<Rightarrow> int" where
  "registryEnvInt getenv fallback [] = fallback"
| "registryEnvInt getenv fallback (candidate # keys) =
     (let value = TrimSpace (getenv candidate) in
      if value = [] then registryEnvInt getenv fallback keys
      else (case Atoi value of Some parsed \<Rightarrow> parsed | None \<Rightarrow> registryEnvInt getenv fallback keys))"

section \<open>Properties\<close>

definition example_config :: OpenAICompatibleConfig where
  "example_config = zero_OpenAICompatibleConfig \<lparr>cf_BaseURL := ''http://m'', cf_DefaultModel := ''m''\<rparr>"

text \<open>The selected cloud provider is a configured one whenever a configured one besides the local
  providers exists, and the preference wins if it is configured.\<close>

theorem cloud_provider_is_configured:
  assumes "distinct (map fst configs)" and "(provider, cfg) \<in> set configs" and "Configured cfg"
    and "\<not> EqualFold provider ''local''" and "\<not> EqualFold provider ''ai_kernel''"
  shows "configuredIn configs (SelectCloudProvider configs preference)
    \<and> (configuredIn configs (ToLower (TrimSpace preference)) \<and> ToLower (TrimSpace preference) \<noteq> [] \<and> ToLower (TrimSpace preference) \<noteq> ''auto''
       \<longrightarrow> SelectCloudProvider configs preference = ToLower (TrimSpace preference))"
proof -
  let ?P = "\<lambda>(provider, cfg). \<not> EqualFold provider ''local'' \<and> \<not> EqualFold provider ''ai_kernel'' \<and> Configured cfg"
  obtain p c where pc: "find ?P configs = Some (p, c)"
    using assms by (cases "find ?P configs") (auto simp: find_None_iff)
  then have "(p, c) \<in> set configs" "Configured c"
    by (auto simp: find_Some_iff) (metis nth_mem)
  then have "configuredIn configs p"
    using assms(1) by (simp add: configuredIn_def)
  moreover define known where "known = find (configuredIn configs) [''mistral'', ''mimo'', ''antigravity'']"
  moreover have "configuredIn configs x" if "known = Some x" for x
    using that unfolding known_def by (simp split: if_splits)
  ultimately show ?thesis
    unfolding SelectCloudProvider_def Let_def pc known_def [symmetric]
    by (cases known) simp_all
qed

theorem cloud_provider_is_configured_witness:
  "configuredIn [(''mimo'', example_config)] (SelectCloudProvider [(''mimo'', example_config)] ''mimo'')"
proof -
  have "Configured example_config" by code_simp
  moreover have "\<not> EqualFold ''mimo'' ''local''" "\<not> EqualFold ''mimo'' ''ai_kernel''" by code_simp+
  ultimately show ?thesis
    using cloud_provider_is_configured [where provider = "''mimo''" and preference = "''mimo''"
        and cfg = example_config and configs = "[(''mimo'', example_config)]"] by simp
qed

end
