(* ===== verification/ModelCatalog.thy ===== *)
theory ModelCatalog
  imports FileStore
begin

text \<open>
  The list of models the kernel may use, \<open>go-core/internal/kernel/model_catalog.go\<close>: a text file
  with one \<open>provider:model\<close> per line, read when the registry starts and written after every
  refresh. The entries are an association list from providers to their models. The file system
  and the faults of a write are those of \<open>FileStore\<close>; reading may fail when the file is opened
  or while it is scanned.
\<close>

section \<open>Paths\<close>

text \<open>\<open>filepath.Clean\<close> and \<open>filepath.Dir\<close>, with the parts already seen in reverse order.\<close>

fun cleanParts :: "bool \<Rightarrow> string list \<Rightarrow> string list \<Rightarrow> string list" where
  "cleanParts rooted seen [] = rev seen"
| "cleanParts rooted seen (part # parts) =
     (if part = [] \<or> part = ''.'' then cleanParts rooted seen parts
      else if part = ''..'' then
        (case seen of
           [] \<Rightarrow> if rooted then cleanParts rooted [] parts else cleanParts rooted [''..''] parts
         | s # ss \<Rightarrow> if s = ''..'' then cleanParts rooted (''..'' # seen) parts else cleanParts rooted ss parts)
      else cleanParts rooted (part # seen) parts)"

definition CleanPath :: "string \<Rightarrow> string" where
  "CleanPath path =
     (let rooted = HasPrefix path ''/'';
          out = (if rooted then ''/'' else []) @ join_with ''/'' (cleanParts rooted [] (split_on CHR ''/'' path))
      in if out = [] then ''.'' else out)"

definition DirOf :: "string \<Rightarrow> string" where
  "DirOf path = CleanPath (rev (dropWhile (\<lambda>c. c \<noteq> CHR ''/'') (rev path)))"

section \<open>Entries\<close>

definition defaultModelCatalogPath :: string where
  "defaultModelCatalogPath = ''config/kernel-models.txt''"

record modelCatalog =
  mc_path :: string
  mc_entries :: "(string \<times> string list) list"

definition allowedModels :: "modelCatalog \<Rightarrow> string \<Rightarrow> string list" where
  "allowedModels c provider = (case map_of (mc_entries c) provider of None \<Rightarrow> [] | Some models \<Rightarrow> models)"

definition catalogAdd :: "string \<Rightarrow> string \<Rightarrow> modelCatalog \<Rightarrow> modelCatalog" where
  "catalogAdd provider model c =
     (let provider = ToLower (TrimSpace provider); model = ToLower (TrimSpace model) in
      if provider = [] \<or> model = [] then c
      else c\<lparr>mc_entries := map_set provider (List.insert model (allowedModels c provider)) (mc_entries c)\<rparr>)"

text \<open>\<open>strings.Cut\<close> at a one-byte separator.\<close>

definition CutAt :: "char \<Rightarrow> string \<Rightarrow> (string \<times> string) option" where
  "CutAt sep s =
     (case dropWhile (\<lambda>c. c \<noteq> sep) s of [] \<Rightarrow> None | _ # after \<Rightarrow> Some (takeWhile (\<lambda>c. c \<noteq> sep) s, after))"

definition parseCatalogEntry :: "string \<Rightarrow> (string \<times> string) option" where
  "parseCatalogEntry line =
     (case CutAt CHR '':'' line of
        None \<Rightarrow> None
      | Some (provider, model) \<Rightarrow>
          let provider = ToLower (TrimSpace provider); model = TrimSpace model in
          if provider = [] \<or> model = [] then None else Some (provider, model))"

definition hasProvider :: "modelCatalog \<Rightarrow> string \<Rightarrow> bool" where
  "hasProvider c provider \<longleftrightarrow> map_of (mc_entries c) (ToLower (TrimSpace provider)) \<noteq> None"

definition catalogFilter :: "modelCatalog \<Rightarrow> string \<Rightarrow> ProviderModelStatus list \<Rightarrow> ProviderModelStatus list" where
  "catalogFilter c provider models =
     (let allowed = allowedModels c (ToLower (TrimSpace provider)) in
      if allowed = [] then models
      else filter (\<lambda>model. ToLower (TrimSpace (pm_ModelName model)) \<in> set allowed) models)"

section \<open>Reading and writing\<close>

text \<open>
  \<open>bufio.Scanner\<close> splits at newlines, drops one carriage return before each and a last empty
  line, and gives up at a line of 64 KiB or more.
\<close>

definition dropCR :: "string \<Rightarrow> string" where
  "dropCR line = (if line \<noteq> [] \<and> last line = CHR 0x0D then butlast line else line)"

definition rawLines :: "string \<Rightarrow> string list" where
  "rawLines content = (let ls = split_on CHR 0x0A content in if last ls = [] then butlast ls else ls)"

datatype read_fault = ReadOk | OpenFails string | ScanFails string

definition catalogLine :: "string \<Rightarrow> modelCatalog \<Rightarrow> modelCatalog" where
  "catalogLine raw c =
     (let line = TrimSpace (dropCR raw) in
      if line = [] \<or> HasPrefix line ''#'' then c
      else (case parseCatalogEntry line of None \<Rightarrow> c | Some (provider, model) \<Rightarrow> catalogAdd provider model c))"

definition loadModelCatalog :: "read_fault \<Rightarrow> files \<Rightarrow> string \<Rightarrow> string + modelCatalog" where
  "loadModelCatalog fault fls path =
     (let path = TrimSpace path;
          path = (if path = [] then defaultModelCatalogPath else path);
          catalog = \<lparr>mc_path = CleanPath path, mc_entries = []\<rparr> in
      case fault of
        OpenFails e \<Rightarrow> Inl (''open model catalog '' @ mc_path catalog @ '': '' @ e)
      | ScanFails e \<Rightarrow> Inl (''scan model catalog '' @ mc_path catalog @ '': '' @ e)
      | ReadOk \<Rightarrow>
          (case fls (mc_path catalog) of
             None \<Rightarrow> Inr catalog
           | Some content \<Rightarrow>
               if list_ex (\<lambda>line. 65536 \<le> length line) (rawLines content)
               then Inl (''scan model catalog '' @ mc_path catalog @ '': bufio.Scanner: token too long'')
               else Inr (fold catalogLine (rawLines content) catalog)))"

definition catalogContent :: "modelCatalog \<Rightarrow> string" where
  "catalogContent c =
     join_with [CHR 0x0A]
       ([''# provider:model'', ''# This file is maintained by go-core model registry and can be edited manually.'']
        @ concat (map (\<lambda>provider. map (\<lambda>model. provider @ '':'' @ model) (sort (allowedModels c provider)))
                      (sort (map fst (mc_entries c)))))
     @ [CHR 0x0A]"

definition writeLocked :: "string option \<Rightarrow> io_fault \<Rightarrow> modelCatalog \<Rightarrow> files \<Rightarrow> string option \<times> files" where
  "writeLocked mkdirFault fault c fls =
     (if mc_path c = [] then (None, fls)
      else if DirOf (mc_path c) \<noteq> ''.'' \<and> mkdirFault \<noteq> None
      then (Some (''mkdir model catalog dir '' @ DirOf (mc_path c) @ '': '' @ the mkdirFault), fls)
      else
        let tmp = mc_path c @ ''.tmp'' in
        case fault of
          WriteFails partial e \<Rightarrow> (Some (''write model catalog temp '' @ tmp @ '': '' @ e), fls(tmp \<mapsto> partial))
        | RenameFails e \<Rightarrow> (Some (''replace model catalog '' @ mc_path c @ '': '' @ e), fls(tmp \<mapsto> catalogContent c))
        | NoFault \<Rightarrow> (None, fls(tmp := None, mc_path c \<mapsto> catalogContent c)))"

definition syncsModel :: "ProviderModelStatus \<Rightarrow> bool" where
  "syncsModel model \<longleftrightarrow>
     TrimSpace (pm_ModelName model) \<noteq> []
     \<and> \<not> (pm_Status model = ''missing'' \<or> pm_Status model = ''disabled'' \<or> pm_InventoryStatus model = ''inventory_missing'')
     \<and> (pm_Available model \<or> pm_InventoryStatus model = ''inventory_verified''
        \<or> pm_VerificationStatus model = ''verifying'' \<or> pm_IsDefault model)"

definition syncProvider ::
  "string option \<Rightarrow> io_fault \<Rightarrow> string \<Rightarrow> ProviderModelStatus list \<Rightarrow> modelCatalog \<times> files
   \<Rightarrow> string option \<times> modelCatalog \<times> files" where
  "syncProvider mkdirFault fault provider models cf =
     (let c = fold (\<lambda>model c. if syncsModel model then catalogAdd (ToLower (TrimSpace provider)) (pm_ModelName model) c else c)
                models (fst cf);
          (err, fls) = writeLocked mkdirFault fault c (snd cf)
      in (err, c, fls))"

section \<open>What the file keeps\<close>

text \<open>Names that fit on a line: normalised, no line break, no colon in the provider, no comment.\<close>

definition entry_ok :: "string \<Rightarrow> string \<Rightarrow> bool" where
  "entry_ok p m \<longleftrightarrow>
     p \<noteq> [] \<and> m \<noteq> [] \<and> ToLower (TrimSpace p) = p \<and> ToLower (TrimSpace m) = m
     \<and> CHR '':'' \<notin> set p \<and> CHR 0x0A \<notin> set p \<and> CHR 0x0A \<notin> set m \<and> hd p \<noteq> CHR ''#''
     \<and> length p + length m + 1 < 65536"

definition catalog_ok :: "modelCatalog \<Rightarrow> bool" where
  "catalog_ok c \<longleftrightarrow> (\<forall>p m. m \<in> set (allowedModels c p) \<longrightarrow> entry_ok p m)"

definition normalName :: "ProviderModelStatus \<Rightarrow> string" where
  "normalName model = ToLower (TrimSpace (pm_ModelName model))"

lemma allowedModels_add:
  "set (allowedModels (catalogAdd provider model c) p) =
     set (allowedModels c p) \<union>
     (if p = ToLower (TrimSpace provider) \<and> p \<noteq> [] \<and> ToLower (TrimSpace model) \<noteq> []
      then {ToLower (TrimSpace model)} else {})"
  by (auto simp: catalogAdd_def allowedModels_def Let_def split: option.split)

lemma mc_path_add [simp]: "mc_path (catalogAdd provider model c) = mc_path c"
  by (simp add: catalogAdd_def Let_def)

lemma ToLower_Nil [simp]: "ToLower s = [] \<longleftrightarrow> s = []"
  by (simp add: ToLower_def)

text \<open>The models a synchronisation adds.\<close>

definition addModels :: "string \<Rightarrow> ProviderModelStatus list \<Rightarrow> modelCatalog \<Rightarrow> modelCatalog" where
  "addModels provider models c =
     fold (\<lambda>model c. if syncsModel model then catalogAdd provider (pm_ModelName model) c else c) models c"

lemma addModels_path [simp]: "mc_path (addModels provider models c) = mc_path c"
  by (induction models arbitrary: c) (simp_all add: addModels_def)

lemma allowedModels_addModels:
  "set (allowedModels (addModels provider models c) p) =
     set (allowedModels c p) \<union>
     {normalName model | model. model \<in> set models \<and> syncsModel model \<and> p = ToLower (TrimSpace provider) \<and> p \<noteq> []}"
proof (induction models arbitrary: c)
  case Nil
  then show ?case by (simp add: addModels_def)
next
  case (Cons model models)
  have *: "addModels provider (model # models) c =
      addModels provider models (if syncsModel model then catalogAdd provider (pm_ModelName model) c else c)"
    by (simp add: addModels_def)
  have "syncsModel model \<Longrightarrow> TrimSpace (pm_ModelName model) \<noteq> []"
    by (simp add: syncsModel_def)
  then show ?case
    unfolding * Cons.IH by (auto simp: allowedModels_add normalName_def)
qed

lemma split_on_append: "sep \<notin> set w \<Longrightarrow> split_on sep (w @ sep # s) = w # split_on sep s"
  by (induction w) auto

lemma split_on_lines:
  assumes "ls \<noteq> []" and "\<forall>l\<in>set ls. sep \<notin> set l"
  shows "split_on sep (join_with [sep] ls @ [sep]) = ls @ [[]]"
  using assms
proof (induction ls rule: list_nonempty_induct)
  case (single l)
  then show ?case using split_on_append [of sep l "[]"] by simp
next
  case (cons l ls)
  then obtain l' ls' where "ls = l' # ls'" by (cases ls) auto
  then show ?case
    using cons split_on_append [of sep l "join_with [sep] ls @ [sep]"] by simp
qed

lemma rawLines_join:
  assumes "ls \<noteq> []" and "\<forall>l\<in>set ls. CHR 0x0A \<notin> set l"
  shows "rawLines (join_with [CHR 0x0A] ls @ [CHR 0x0A]) = ls"
  using split_on_lines [OF assms] by (simp add: rawLines_def)

lemma not_space_colon: "is_space c \<Longrightarrow> c \<noteq> CHR '':''"
  by (auto simp: is_space_def)

lemma takeWhile_colon: "CHR '':'' \<notin> set p \<Longrightarrow> CutAt CHR '':'' (p @ '':'' @ m) = Some (p, m)"
proof -
  assume p: "CHR '':'' \<notin> set p"
  have "dropWhile (\<lambda>c. c \<noteq> CHR '':'') (p @ '':'' @ m) = '':'' @ m"
    using p by (subst dropWhile_append2) auto
  moreover have "takeWhile (\<lambda>c. c \<noteq> CHR '':'') (p @ '':'' @ m) = p"
    using p by (subst takeWhile_append2) auto
  ultimately show ?thesis by (simp add: CutAt_def)
qed

lemma HasPrefix_one: "HasPrefix s [c] \<longleftrightarrow> s \<noteq> [] \<and> hd s = c"
  by (cases s) auto

lemma normal_trimmed: "ToLower (TrimSpace s) = s \<Longrightarrow> trimmed s"
  using trimmed_TrimSpace [of s] by (metis TrimSpace_ToLower trimmed_TrimSpace)

lemma catalogLine_entry:
  assumes "entry_ok p m"
  shows "catalogLine (p @ '':'' @ m) c = catalogAdd p m c"
proof -
  let ?l = "p @ '':'' @ m"
  have p: "p \<noteq> []" "\<not> is_space (hd p)" "TrimSpace p = p" "hd p \<noteq> CHR ''#''" "CHR '':'' \<notin> set p" "ToLower p = p"
    using assms normal_trimmed [of p] by (auto simp: entry_ok_def trimmed_def TrimSpace_id)
  have m: "m \<noteq> []" "\<not> is_space (last m)" "TrimSpace m = m"
    using assms normal_trimmed [of m] by (auto simp: entry_ok_def trimmed_def TrimSpace_id)
  have "trimmed ?l" using p m by (simp add: trimmed_def)
  moreover have "dropCR ?l = ?l"
    using m by (auto simp: dropCR_def is_space_def)
  ultimately have "TrimSpace (dropCR ?l) = ?l" by (simp add: TrimSpace_id)
  then show ?thesis
    using p m by (simp add: catalogLine_def HasPrefix_one takeWhile_colon [simplified] parseCatalogEntry_def)
qed

definition catalogHeader :: "string list" where
  "catalogHeader = [''# provider:model'', ''# This file is maintained by go-core model registry and can be edited manually.'']"

lemma catalogHeader_lines:
  "\<forall>l\<in>set catalogHeader. CHR 0x0A \<notin> set l \<and> length l < 65536 \<and> catalogLine l c = c"
proof -
  have "HasPrefix (TrimSpace (dropCR l)) ''#'' \<and> CHR 0x0A \<notin> set l \<and> length l < 100" if "l \<in> set catalogHeader" for l
    using that unfolding catalogHeader_def by simp (elim disjE; hypsubst; code_simp)
  then show ?thesis by (force simp: catalogLine_def Let_def)
qed

lemma fold_entries:
  assumes "\<forall>(p, m)\<in>set es. entry_ok p m"
  shows "mc_path (fold (\<lambda>(p, m). catalogAdd p m) es c) = mc_path c"
    and "set (allowedModels (fold (\<lambda>(p, m). catalogAdd p m) es c) q) = set (allowedModels c q) \<union> {m. (q, m) \<in> set es}"
  using assms
proof (induction es arbitrary: c)
  case (Cons e es)
  {
    case 1
    then show ?case using Cons.IH(1) by (auto split: prod.split)
  next
    case 2
    then show ?case
      using Cons.IH(2) [of "case e of (p, m) \<Rightarrow> catalogAdd p m c"]
      by (auto simp: allowedModels_add entry_ok_def split: prod.splits)
  }
qed simp_all

lemma fold_catalogLine:
  assumes "\<forall>(p, m)\<in>set es. entry_ok p m"
  shows "fold catalogLine (map (\<lambda>(p, m). p @ '':'' @ m) es) c = fold (\<lambda>(p, m). catalogAdd p m) es c"
  using assms by (induction es arbitrary: c) (auto simp: catalogLine_entry [simplified])

definition catalogPairs :: "modelCatalog \<Rightarrow> (string \<times> string) list" where
  "catalogPairs c = concat (map (\<lambda>p. map (Pair p) (sort (allowedModels c p))) (sort (map fst (mc_entries c))))"

lemma set_catalogPairs: "(p, m) \<in> set (catalogPairs c) \<longleftrightarrow> m \<in> set (allowedModels c p)"
proof -
  have "m \<in> set (allowedModels c p) \<Longrightarrow> p \<in> fst ` set (mc_entries c)"
    unfolding allowedModels_def by (cases "map_of (mc_entries c) p") (auto dest: map_of_SomeD intro: rev_image_eqI)
  then show ?thesis by (auto simp: catalogPairs_def)
qed

lemma catalogContent_pairs:
  "catalogContent c = join_with [CHR 0x0A] (catalogHeader @ map (\<lambda>(p, m). p @ '':'' @ m) (catalogPairs c)) @ [CHR 0x0A]"
  unfolding catalogContent_def catalogHeader_def [symmetric] catalogPairs_def map_concat map_map comp_def prod.case ..

lemma catalog_reload:
  assumes "catalog_ok c" and "fls (mc_path c) = Some (catalogContent c)"
    and path: "mc_path c = CleanPath (if TrimSpace path = [] then defaultModelCatalogPath else TrimSpace path)"
  shows "\<exists>c'. loadModelCatalog ReadOk fls path = Inr c' \<and> mc_path c' = mc_path c
    \<and> (\<forall>p. set (allowedModels c' p) = set (allowedModels c p))"
proof -
  let ?es = "catalogPairs c"
  let ?ls = "catalogHeader @ map (\<lambda>(p, m). p @ '':'' @ m) ?es"
  let ?c0 = "\<lparr>mc_path = mc_path c, mc_entries = []\<rparr>"
  have ok: "\<forall>(p, m)\<in>set ?es. entry_ok p m"
    using assms(1) by (auto simp: set_catalogPairs catalog_ok_def)
  have nl: "\<forall>l\<in>set ?ls. CHR 0x0A \<notin> set l \<and> length l < 65536"
    using ok catalogHeader_lines by (auto simp: entry_ok_def)
  have raw: "rawLines (catalogContent c) = ?ls"
    unfolding catalogContent_pairs by (rule rawLines_join) (use nl in \<open>auto simp: catalogHeader_def\<close>)
  have "fold catalogLine catalogHeader ?c0 = ?c0"
    using catalogHeader_lines by (simp add: catalogHeader_def)
  then have "fold catalogLine ?ls ?c0 = fold (\<lambda>(p, m). catalogAdd p m) ?es ?c0"
    using fold_catalogLine [OF ok] by simp
  moreover have "\<not> list_ex (\<lambda>l. 65536 \<le> length l) ?ls"
    using nl by (force simp: list_ex_iff)
  ultimately have "loadModelCatalog ReadOk fls path = Inr (fold (\<lambda>(p, m). catalogAdd p m) ?es ?c0)"
    using assms(2) by (simp add: loadModelCatalog_def Let_def path [symmetric] raw)
  then show ?thesis
    using fold_entries [OF ok, of ?c0] by (simp add: set_catalogPairs) (simp add: allowedModels_def)
qed

lemma CleanPath_not_Nil [simp]: "CleanPath path \<noteq> []"
  by (simp add: CleanPath_def Let_def)

lemma writeLocked_content:
  assumes "writeLocked mkdirFault fault c fls = (None, fls')" and "mc_path c \<noteq> []"
  shows "fls' (mc_path c) = Some (catalogContent c)"
  using assms by (auto simp: writeLocked_def Let_def split: if_splits io_fault.splits)

text \<open>
  What a refresh writes is what the next start reads: after a synchronisation that reports no
  error, loading the file gives the models that were allowed before and the models the
  synchronisation kept, each under its provider, and nothing else.
\<close>

theorem catalog_survives_restart:
  assumes "catalog_ok c"
    and "mc_path c = CleanPath (if TrimSpace path = [] then defaultModelCatalogPath else TrimSpace path)"
    and "\<forall>model\<in>set models. syncsModel model \<longrightarrow> entry_ok (ToLower (TrimSpace provider)) (normalName model)"
    and "syncProvider mkdirFault fault provider models (c, fls) = (None, c', fls')"
  shows "\<exists>loaded. loadModelCatalog ReadOk fls' path = Inr loaded \<and> mc_path loaded = mc_path c
    \<and> (\<forall>p. set (allowedModels loaded p) = set (allowedModels c p) \<union>
         {normalName model | model. model \<in> set models \<and> syncsModel model \<and> p = ToLower (TrimSpace provider)})"
proof -
  let ?p = "ToLower (TrimSpace provider)"
  have c': "c' = addModels ?p models c"
    and w: "writeLocked mkdirFault fault c' fls = (None, fls')"
    using assms(4) by (auto simp: syncProvider_def addModels_def Let_def split: prod.splits)
  have allowed: "set (allowedModels c' p) = set (allowedModels c p) \<union>
      {normalName model | model. model \<in> set models \<and> syncsModel model \<and> p = ?p \<and> p \<noteq> []}" for p
    unfolding c' allowedModels_addModels normal_type ..
  have "?p \<noteq> []" if "model \<in> set models" "syncsModel model" for model
    using assms(3) that by (auto simp: entry_ok_def)
  then have allowed': "set (allowedModels c' p) = set (allowedModels c p) \<union>
      {normalName model | model. model \<in> set models \<and> syncsModel model \<and> p = ?p}" for p
    unfolding allowed by blast
  have "catalog_ok c'"
    using assms(1,3) unfolding catalog_ok_def allowed' by blast
  moreover have "mc_path c' = mc_path c" by (simp add: c')
  moreover have "fls' (mc_path c') = Some (catalogContent c')"
    using writeLocked_content [OF w] assms(2) by (simp add: c')
  ultimately show ?thesis
    using catalog_reload [of c' fls' path] assms(2) unfolding allowed' by simp
qed

text \<open>
  The catalogue of a provider that has an entry is frozen: a refresh filters the discovered models
  by the catalogue before it synchronises, so no model that the provider adds later enters it.
\<close>

theorem catalogue_admits_no_new_models:
  assumes "allowedModels c (ToLower (TrimSpace provider)) \<noteq> []"
    and "syncProvider mkdirFault fault provider (catalogFilter c provider models) (c, fls) = (err, c', fls')"
  shows "set (allowedModels c' p) = set (allowedModels c p)"
proof -
  have c': "c' = addModels (ToLower (TrimSpace provider)) (catalogFilter c provider models) c"
    using assms(2) by (auto simp: syncProvider_def addModels_def Let_def split: prod.splits)
  show ?thesis
    unfolding c' allowedModels_addModels normal_type
    using assms(1) by (auto simp: catalogFilter_def normalName_def)
qed

definition example_catalog :: modelCatalog where
  "example_catalog = \<lparr>mc_path = ''models.txt'', mc_entries = [(''mimo'', [''small'', ''large''])]\<rparr>"

definition example_discovered :: ProviderModelStatus where
  "example_discovered = \<lparr>pm_Provider = ''mimo'', pm_ModelName = '' Newer '', pm_Available = True, pm_Status = ''ready'',
     pm_Reason = [], pm_InventoryStatus = ''inventory_verified'', pm_TransportStatus = [], pm_VerificationStatus = ''confirmed'',
     pm_Transport = [], pm_ObservedAt = 1, pm_IsDefault = False, pm_Metadata = [], pm_LastHTTPStatus = 200,
     pm_LastProbeLatencyMS = 0, pm_FirstSeenAt = None, pm_VerificationStartedAt = None, pm_LastStateChangeAt = None,
     pm_LastSuccessAt = None, pm_NextVerificationAt = None, pm_ExpiresAt = None, pm_ConsecutiveFailures = 0,
     pm_ConsecutiveSuccesses = 0, pm_RegistrationAttempts = 0, pm_PendingCycles = 0, pm_QueueStatus = [], pm_QueuePosition = 0,
     pm_VerificationIntervalSec = 300, pm_LastError = None\<rparr>"

definition example_synced :: "string option \<times> modelCatalog \<times> files" where
  "example_synced = syncProvider None NoFault ''mimo'' [example_discovered] (example_catalog, \<lambda>_. None)"

lemma example_names:
  "ToLower (TrimSpace ''mimo'') = ''mimo''" "ToLower (TrimSpace ''small'') = ''small''"
  "ToLower (TrimSpace ''large'') = ''large''" "ToLower (TrimSpace ''newer'') = ''newer''"
  by code_simp+

lemma example_catalog_ok: "catalog_ok example_catalog"
proof -
  have "entry_ok ''mimo'' ''small''" "entry_ok ''mimo'' ''large''"
    by (simp_all add: entry_ok_def example_names)
  moreover have "m \<in> {''small'', ''large''} \<and> p = ''mimo''" if "m \<in> set (allowedModels example_catalog p)" for p m
    using that by (auto simp: allowedModels_def example_catalog_def split: if_splits)
  ultimately show ?thesis unfolding catalog_ok_def by blast
qed

lemma example_sync_done: "example_synced = (None, fst (snd example_synced), snd (snd example_synced))"
proof -
  have "DirOf ''models.txt'' = ''.''" by code_simp
  then have "fst (writeLocked None NoFault (addModels ''mimo'' [example_discovered] example_catalog) fls) = None" for fls
    by (simp add: writeLocked_def example_catalog_def)
  then have "fst example_synced = None"
    unfolding example_synced_def syncProvider_def addModels_def [symmetric] fst_conv snd_conv Let_def
      example_names case_prod_beta .
  then show ?thesis by (metis prod.collapse)
qed

theorem catalog_survives_restart_witness:
  "\<exists>loaded. loadModelCatalog ReadOk (snd (snd example_synced)) ''models.txt'' = Inr loaded
     \<and> ''newer'' \<in> set (allowedModels loaded ''mimo'')"
proof -
  have p: "mc_path example_catalog = CleanPath (if TrimSpace ''models.txt'' = [] then defaultModelCatalogPath else TrimSpace ''models.txt'')"
    and n: "normalName example_discovered = ''newer''" "syncsModel example_discovered" "ToLower (TrimSpace ''mimo'') = ''mimo''"
    by code_simp+
  then have m: "\<forall>model\<in>set [example_discovered]. syncsModel model \<longrightarrow> entry_ok (ToLower (TrimSpace ''mimo'')) (normalName model)"
    by (simp add: entry_ok_def example_names)
  obtain loaded where "loadModelCatalog ReadOk (snd (snd example_synced)) ''models.txt'' = Inr loaded"
    and "\<forall>p. set (allowedModels loaded p) = set (allowedModels example_catalog p) \<union>
      {normalName model | model. model \<in> set [example_discovered] \<and> syncsModel model \<and> p = ToLower (TrimSpace ''mimo'')}"
    using catalog_survives_restart [OF example_catalog_ok p m example_sync_done [unfolded example_synced_def]]
    unfolding example_synced_def by blast
  then show ?thesis using n by (intro exI [of _ loaded]) auto
qed

theorem catalogue_admits_no_new_models_witness:
  "''newer'' \<notin> set (allowedModels (fst (snd (syncProvider None NoFault ''mimo''
      (catalogFilter example_catalog ''mimo'' [example_discovered]) (example_catalog, \<lambda>_. None)))) ''mimo'')"
proof -
  have ne: "allowedModels example_catalog (ToLower (TrimSpace ''mimo'')) \<noteq> []" by code_simp
  have "''newer'' \<notin> set (allowedModels example_catalog ''mimo'')" by code_simp
  then show ?thesis
    using catalogue_admits_no_new_models [OF ne, where p = "''mimo''"] by (metis prod.collapse)
qed

end
