(* ===== verification/ModelLifecycle.thy ===== *)
theory ModelLifecycle
  imports ProviderConfig ModelCatalog
begin

text \<open>
  The life of a discovered model, \<open>go-core/internal/kernel/model_registry.go\<close>: what a refresh keeps
  of the previous one, which models are probed, queued or left to cool down, and what a probe does
  to the state of a model. A pointer to a time is an option. A function that changes a model through
  a pointer returns the changed model. The probe of a model, an HTTP request, is a parameter.
\<close>

section \<open>Data\<close>

record modelProbeResult =
  mp_Validated :: bool
  mp_Retryable :: bool
  mp_Reason :: string
  mp_Transport :: string
  mp_HTTPStatus :: int
  mp_LatencyMS :: int
  mp_RequestID :: string
  mp_Error :: "ProviderAPIError option"
  mp_ObservedAt :: time
  mp_SucceededAt :: "time option"

definition zero_modelProbeResult :: modelProbeResult where
  "zero_modelProbeResult = \<lparr>mp_Validated = False, mp_Retryable = False, mp_Reason = [], mp_Transport = [], mp_HTTPStatus = 0,
     mp_LatencyMS = 0, mp_RequestID = [], mp_Error = None, mp_ObservedAt = 0, mp_SucceededAt = None\<rparr>"

definition zero_ProviderAPIError :: ProviderAPIError where
  "zero_ProviderAPIError = \<lparr>xe_Provider = [], xe_Model = [], xe_Operation = [], xe_Endpoint = [], xe_EndpointKind = [],
     xe_HTTPStatus = 0, xe_UpstreamCode = [], xe_UpstreamType = [], xe_Message = [], xe_Retryable = False,
     xe_Category = [], xe_RequestID = [], xe_ObservedAt = 0, xe_LatencyMS = 0\<rparr>"

definition zero_ProviderModelStatus :: ProviderModelStatus where
  "zero_ProviderModelStatus = \<lparr>pm_Provider = [], pm_ModelName = [], pm_Available = False, pm_Status = [], pm_Reason = [],
     pm_InventoryStatus = [], pm_TransportStatus = [], pm_VerificationStatus = [], pm_Transport = [], pm_ObservedAt = 0,
     pm_IsDefault = False, pm_Metadata = [], pm_LastHTTPStatus = 0, pm_LastProbeLatencyMS = 0, pm_FirstSeenAt = None,
     pm_VerificationStartedAt = None, pm_LastStateChangeAt = None, pm_LastSuccessAt = None, pm_NextVerificationAt = None,
     pm_ExpiresAt = None, pm_ConsecutiveFailures = 0, pm_ConsecutiveSuccesses = 0, pm_RegistrationAttempts = 0,
     pm_PendingCycles = 0, pm_QueueStatus = [], pm_QueuePosition = 0, pm_VerificationIntervalSec = 0, pm_LastError = None\<rparr>"

record ProviderModelRegistry =
  mr_configs :: provider_configs
  mr_snapshots :: "(string \<times> ProviderCatalogSnapshot) list"
  mr_refreshInterval :: duration
  mr_timeout :: duration
  mr_enabled :: bool
  mr_validateModels :: bool
  mr_validationLimit :: int
  mr_pendingTTL :: duration
  mr_confirmationTTL :: duration
  mr_retryCooldown :: duration
  mr_unregisteredQLimit :: int
  mr_catalog :: "modelCatalog option"
  mr_refreshing :: bool

text \<open>\<open>int(d.Seconds())\<close>: whole seconds, rounded towards zero.\<close>

definition intSeconds :: "duration \<Rightarrow> int" where
  "intSeconds d = (if d < 0 then - ((- d) div second) else d div second)"

section \<open>Transports and errors\<close>

fun boolMetadata :: "any option \<Rightarrow> bool option" where
  "boolMetadata (Some (AnyBool b)) = Some b"
| "boolMetadata (Some (AnyString s)) =
     (let s = TrimSpace s in if s = [] then None else ParseBool s)"
| "boolMetadata _ = None"

fun metadataMap :: "any option \<Rightarrow> go_map option" where
  "metadataMap (Some (AnyMap m)) = Some m"
| "metadataMap _ = None"

definition selectValidationTransport :: "OpenAICompatibleConfig \<Rightarrow> string \<times> string" where
  "selectValidationTransport cfg =
     (if TrimSpace (ChatCompletionsURL cfg) \<noteq> [] then (''chat_completions'', ChatCompletionsURL cfg)
      else if TrimSpace (ResponsesURL cfg) \<noteq> [] then (''responses'', ResponsesURL cfg)
      else if TrimSpace (MessagesURL cfg) \<noteq> [] then (''messages'', MessagesURL cfg)
      else (''unsupported'', []))"

definition capabilityKey :: "string \<Rightarrow> string" where
  "capabilityKey transport =
     (if transport = ''chat_completions'' then ''completion_chat''
      else if transport = ''responses'' then ''responses''
      else if transport = ''messages'' then ''messages'' else [])"

definition modelSupportsTransport :: "ProviderModelStatus \<Rightarrow> string \<Rightarrow> bool" where
  "modelSupportsTransport model transport =
     (if transport = [] \<or> transport = ''unsupported'' then True
      else
        let declared = (case metadataMap (map_of (pm_Metadata model) ''capabilities'') of
                          None \<Rightarrow> None
                        | Some capabilities \<Rightarrow>
                            if capabilityKey transport = [] then None
                            else boolMetadata (map_of capabilities (capabilityKey transport)));
            name = ToLower (TrimSpace (pm_ModelName model)) in
        case declared of
          Some supported \<Rightarrow> supported
        | None \<Rightarrow>
            name = [] \<or>
            \<not> list_ex (Contains name) [''embed'', ''embedding'', ''moderation'', ''ocr'', ''realtime'', ''transcribe'', ''tts''])"

definition inapplicableValidationReason :: "ProviderModelStatus \<Rightarrow> OpenAICompatibleConfig \<Rightarrow> string" where
  "inapplicableValidationReason model cfg =
     (let transport = fst (selectValidationTransport cfg) in
      if transport = [] \<or> transport = ''unsupported'' then []
      else if modelSupportsTransport model transport then []
      else ''model is present in provider inventory but does not support the configured '' @ transport
           @ '' validation transport'')"

definition sanitizedURL :: "string \<Rightarrow> string" where
  "sanitizedURL raw = takeWhile (\<lambda>c. c \<noteq> CHR ''?'') (TrimSpace raw)"

definition looksLikeRateLimitMessage :: "string \<Rightarrow> bool" where
  "looksLikeRateLimitMessage reason \<longleftrightarrow>
     list_ex (Contains (ToLower (TrimSpace reason)))
       [''service_busy'', ''rate_limit_error'', ''rate limit'', ''too many requests'', ''retry after'']"

definition isRetryableProbeFailure :: "int \<Rightarrow> string \<Rightarrow> bool" where
  "isRetryableProbeFailure statusCode reason \<longleftrightarrow>
     statusCode = 429 \<or> statusCode \<ge> 500
     \<or> list_ex (Contains (ToLower (TrimSpace reason)))
          [''busy'', ''overload'', ''temporar'', ''timeout'', ''try again'', ''unavailable'', ''upstream'', ''rate limit'',
           ''retry after'']"

definition categorizeNotFound :: "string \<Rightarrow> string \<Rightarrow> string" where
  "categorizeNotFound endpointKind message =
     (if Contains message ''model'' then ''model_not_found''
      else if endpointKind = ''chat_completions'' then ''chat_endpoint_not_found''
      else if endpointKind = ''responses'' then ''provider_route_not_found''
      else if endpointKind = ''messages'' then ''provider_route_not_found''
      else ''endpoint_misconfigured'')"

text \<open>The category and whether the failure may be retried, by the status code alone.\<close>

definition classifyStatus :: "string \<Rightarrow> int \<Rightarrow> string \<Rightarrow> bool \<Rightarrow> string \<times> bool" where
  "classifyStatus endpointKind statusCode normalized retryable =
     (if statusCode \<ge> 100 \<and> statusCode < 200 then (''bad_response_schema'', False)
      else if statusCode \<ge> 300 \<and> statusCode < 400 then (''redirect_error'', False)
      else if statusCode = 400 then (''invalid_request'', retryable)
      else if statusCode = 401 then (''auth_error'', retryable)
      else if statusCode = 403 then (''permission_error'', retryable)
      else if statusCode = 404 then (categorizeNotFound endpointKind normalized, False)
      else if statusCode = 408 then (''timeout'', True)
      else if statusCode = 409 then (''provider_internal_error'', retryable)
      else if statusCode = 422 then (''invalid_request'', False)
      else if statusCode = 429 then (''rate_limit'', True)
      else if statusCode \<ge> 500 then (''upstream_unavailable'', True)
      else (''invalid_request'', retryable))"

text \<open>What the text of the message adds: each later rule overrides the earlier ones.\<close>

definition classifyMessage :: "string \<Rightarrow> string \<times> bool \<Rightarrow> string \<times> bool" where
  "classifyMessage normalized cr =
     (let cr = (if looksLikeRateLimitMessage normalized then (''rate_limit'', True) else cr);
          cr = (if Contains normalized ''model'' \<and> Contains normalized ''not found'' then (''model_not_found'', False) else cr)
      in if Contains normalized ''unsupported'' then (''unsupported_model'', False) else cr)"

definition classifyProviderAPIError ::
  "string \<Rightarrow> string \<Rightarrow> string \<Rightarrow> string \<Rightarrow> string \<Rightarrow> int \<Rightarrow> string \<Rightarrow> string \<Rightarrow> time \<Rightarrow> int \<Rightarrow> ProviderAPIError" where
  "classifyProviderAPIError provider model operation endpointKind endpoint statusCode message requestID observedAt latencyMS =
     (let normalized = ToLower (TrimSpace message);
          (category, retryable) = classifyMessage normalized
             (classifyStatus endpointKind statusCode normalized (isRetryableProbeFailure statusCode message))
      in zero_ProviderAPIError\<lparr>xe_Provider := provider, xe_Model := model, xe_Operation := operation, xe_Endpoint := endpoint,
           xe_EndpointKind := endpointKind, xe_HTTPStatus := statusCode, xe_Message := message, xe_Retryable := retryable,
           xe_Category := category, xe_RequestID := requestID, xe_ObservedAt := observedAt, xe_LatencyMS := latencyMS\<rparr>)"

definition failureTransportStatus :: "ProviderAPIError option \<Rightarrow> string" where
  "failureTransportStatus err =
     (case err of
        None \<Rightarrow> ''transport_failed''
      | Some e \<Rightarrow>
          if xe_Category e \<in> {''chat_endpoint_not_found'', ''provider_route_not_found'', ''endpoint_misconfigured'', ''redirect_error''}
          then ''endpoint_misconfigured''
          else if xe_Category e \<in> {''unsupported_model'', ''model_not_found'', ''invalid_request'', ''auth_error'', ''permission_error''}
          then ''transport_failed''
          else if xe_Retryable e then ''retryable_failure'' else ''transport_failed'')"

section \<open>The probe of a model\<close>

text \<open>
  What a probe observes of the outside: the clock when it starts, how long the request took, the
  response of \<open>providerhttp.Do\<close> for a URL and a payload, how the body decodes (the value of its
  field \<open>error\<close>, if any), the text \<open>%v\<close> of a value, and the name of a status code.
\<close>

record HTTPResponse =
  hr_StatusCode :: int
  hr_RequestID :: string
  hr_Body :: string

record probe_env =
  he_now :: time
  he_latencyMS :: int
  he_do :: "string \<Rightarrow> any \<Rightarrow> string + HTTPResponse"
  he_decode :: "string \<Rightarrow> string + any option"
  he_sprint :: "any \<Rightarrow> string"
  he_statusText :: "int \<Rightarrow> string"

definition validationPayload :: "string \<Rightarrow> string \<Rightarrow> string + any \<times> string" where
  "validationPayload transport model =
     (if transport = ''chat_completions'' then
        Inr (AnyMap [(''model'', AnyString model),
                     (''messages'', AnyList [AnyMap [(''role'', AnyString ''user''), (''content'', AnyString ''ping'')]]),
                     (''max_tokens'', AnyInt 1)], ''application/json'')
      else if transport = ''responses'' then
        Inr (AnyMap [(''model'', AnyString model), (''input'', AnyString ''ping''), (''max_output_tokens'', AnyInt 1)],
             ''application/json'')
      else if transport = ''messages'' then
        Inr (AnyMap [(''model'', AnyString model), (''max_tokens'', AnyInt 1),
                     (''messages'', AnyList [AnyMap [(''role'', AnyString ''user''),
                        (''content'', AnyList [AnyMap [(''type'', AnyString ''text''), (''text'', AnyString ''ping'')]])]])],
             ''application/json'')
      else Inl (''no supported validation payload for transport '' @ [CHR 0x22] @ transport @ [CHR 0x22]))"

text \<open>The error of a failed probe and the result that carries it.\<close>

definition probeError :: "OpenAICompatibleConfig \<Rightarrow> string \<Rightarrow> string \<Rightarrow> string \<Rightarrow> string \<Rightarrow> time \<Rightarrow> ProviderAPIError" where
  "probeError cfg model transport message category observedAt =
     zero_ProviderAPIError\<lparr>xe_Provider := cf_Provider cfg, xe_Model := model, xe_Operation := ''probe'',
       xe_EndpointKind := transport, xe_Message := message, xe_Category := category, xe_ObservedAt := observedAt\<rparr>"

definition failedProbe :: "ProviderAPIError \<Rightarrow> modelProbeResult" where
  "failedProbe e =
     zero_modelProbeResult\<lparr>mp_Reason := xe_Message e, mp_Retryable := xe_Retryable e, mp_Transport := xe_EndpointKind e,
       mp_HTTPStatus := xe_HTTPStatus e, mp_LatencyMS := xe_LatencyMS e, mp_RequestID := xe_RequestID e,
       mp_Error := Some e, mp_ObservedAt := xe_ObservedAt e\<rparr>"

text \<open>A response with a status code of the 200 range counts only if its body decodes and reports no error.\<close>

definition judgeResponse ::
  "probe_env \<Rightarrow> OpenAICompatibleConfig \<Rightarrow> string \<Rightarrow> string \<Rightarrow> string \<Rightarrow> HTTPResponse \<Rightarrow> modelProbeResult" where
  "judgeResponse env cfg model transport url response =
     (let requestID = TrimSpace (hr_RequestID response); status = hr_StatusCode response; msg = TrimSpace (hr_Body response);
          fail = (\<lambda>message category. failedProbe ((probeError cfg model transport message category (he_now env))
                    \<lparr>xe_Endpoint := sanitizedURL url, xe_HTTPStatus := status, xe_RequestID := requestID,
                     xe_LatencyMS := he_latencyMS env\<rparr>)) in
      if status \<ge> 200 \<and> status < 300 then
        (if hr_Body response = [] then fail ''provider returned an empty response body'' ''empty_response''
         else
           case he_decode env (hr_Body response) of
             Inl err \<Rightarrow> fail err ''bad_response_schema''
           | Inr (Some e) \<Rightarrow> fail (''provider returned error payload: '' @ he_sprint env e) ''invalid_request''
           | Inr None \<Rightarrow>
               zero_modelProbeResult\<lparr>mp_Validated := True, mp_Transport := transport, mp_HTTPStatus := status,
                 mp_LatencyMS := he_latencyMS env, mp_RequestID := requestID, mp_ObservedAt := he_now env,
                 mp_SucceededAt := Some (he_now env)\<rparr>)
      else
        failedProbe (classifyProviderAPIError (cf_Provider cfg) model ''probe'' transport (sanitizedURL url) status
          (if msg = [] then he_statusText env status else msg) requestID (he_now env) (he_latencyMS env)))"

definition validateModelViaTransport :: "probe_env \<Rightarrow> OpenAICompatibleConfig \<Rightarrow> string \<Rightarrow> modelProbeResult" where
  "validateModelViaTransport env cfg model =
     (let (transport, url) = selectValidationTransport cfg in
      if TrimSpace url = [] then
        failedProbe (probeError cfg model transport ''no validation transport endpoint is configured''
          ''unsupported_endpoint'' (he_now env))
      else
        case validationPayload transport model of
          Inl err \<Rightarrow>
            failedProbe ((probeError cfg model transport err ''invalid_request'' (he_now env))
              \<lparr>xe_Endpoint := sanitizedURL url\<rparr>)
        | Inr (payload, _) \<Rightarrow>
            (case he_do env url payload of
               Inl err \<Rightarrow>
                 failedProbe ((probeError cfg model transport err ''network_error'' (he_now env))
                   \<lparr>xe_Endpoint := sanitizedURL url, xe_Retryable := True, xe_LatencyMS := he_latencyMS env\<rparr>)
             | Inr response \<Rightarrow> judgeResponse env cfg model transport url response))"

section \<open>The state of a model\<close>

definition setModelState ::
  "string \<Rightarrow> string \<Rightarrow> string \<Rightarrow> string \<Rightarrow> string \<Rightarrow> time \<Rightarrow> ProviderModelStatus \<Rightarrow> ProviderModelStatus" where
  "setModelState status inventoryStatus transportStatus verificationStatus reason now model =
     model\<lparr>pm_InventoryStatus := (if inventoryStatus \<noteq> [] then inventoryStatus else pm_InventoryStatus model),
           pm_TransportStatus := (if transportStatus \<noteq> [] then transportStatus else pm_TransportStatus model),
           pm_VerificationStatus := (if verificationStatus \<noteq> [] then verificationStatus else pm_VerificationStatus model),
           pm_LastStateChangeAt :=
             (if pm_Status model \<noteq> status \<or> pm_Reason model \<noteq> reason then Some now else pm_LastStateChangeAt model),
           pm_Status := status, pm_Reason := reason\<rparr>"

definition setMeta :: "string \<Rightarrow> string \<Rightarrow> ProviderModelStatus \<Rightarrow> ProviderModelStatus" where
  "setMeta key value model = model\<lparr>pm_Metadata := map_set key (AnyString value) (pm_Metadata model)\<rparr>"

definition verificationStatusOr :: "ProviderModelStatus \<Rightarrow> string \<Rightarrow> string" where
  "verificationStatusOr model fallback =
     (if TrimSpace (pm_VerificationStatus model) \<noteq> [] then pm_VerificationStatus model else fallback)"

definition modelLifecycleKey :: "string \<Rightarrow> string" where
  "modelLifecycleKey name = ToLower (TrimSpace name)"

definition indexProviderModels :: "ProviderModelStatus list \<Rightarrow> (string \<times> ProviderModelStatus) list" where
  "indexProviderModels models =
     fold (\<lambda>model indexed. let key = modelLifecycleKey (pm_ModelName model) in
             if key = [] then indexed else map_set key model indexed) models []"

text \<open>The metadata of the previous refresh fills the keys that are missing.\<close>

definition fillMetadata :: "go_map \<Rightarrow> go_map \<Rightarrow> go_map" where
  "fillMetadata old new = fold (\<lambda>(k, v) m. if map_of m k = None then map_set k v m else m) old new"

definition mergeProviderLifecycle :: "ProviderModelStatus \<Rightarrow> ProviderModelStatus \<Rightarrow> time \<Rightarrow> int \<Rightarrow> ProviderModelStatus" where
  "mergeProviderLifecycle model previous now verificationIntervalSec =
     (let model = model\<lparr>pm_ObservedAt := now, pm_VerificationIntervalSec := verificationIntervalSec\<rparr> in
      if pm_ModelName previous = [] then model\<lparr>pm_FirstSeenAt := Some now, pm_LastStateChangeAt := Some now\<rparr>
      else
        model\<lparr>pm_FirstSeenAt := (case pm_FirstSeenAt previous of None \<Rightarrow> Some now | Some t \<Rightarrow> Some t),
          pm_VerificationStartedAt := pm_VerificationStartedAt previous,
          pm_LastStateChangeAt := pm_LastStateChangeAt previous,
          pm_LastSuccessAt := pm_LastSuccessAt previous,
          pm_NextVerificationAt := pm_NextVerificationAt previous,
          pm_ExpiresAt := pm_ExpiresAt previous,
          pm_ConsecutiveFailures := pm_ConsecutiveFailures previous,
          pm_ConsecutiveSuccesses := pm_ConsecutiveSuccesses previous,
          pm_RegistrationAttempts := pm_RegistrationAttempts previous,
          pm_PendingCycles := pm_PendingCycles previous,
          pm_QueueStatus := TrimSpace (pm_QueueStatus previous),
          pm_QueuePosition := pm_QueuePosition previous,
          pm_Transport := (if pm_Transport model = [] then pm_Transport previous else pm_Transport model),
          pm_LastHTTPStatus := (if pm_LastHTTPStatus model = 0 then pm_LastHTTPStatus previous else pm_LastHTTPStatus model),
          pm_LastProbeLatencyMS :=
            (if pm_LastProbeLatencyMS model = 0 then pm_LastProbeLatencyMS previous else pm_LastProbeLatencyMS model),
          pm_LastError := (case pm_LastError model of None \<Rightarrow> pm_LastError previous | Some e \<Rightarrow> Some e),
          pm_Metadata := fillMetadata (pm_Metadata previous) (pm_Metadata model)\<rparr>)"

definition canParticipateInRegistration :: "ProviderModelStatus \<Rightarrow> bool" where
  "canParticipateInRegistration model \<longleftrightarrow> pm_Status model \<notin> {''disabled'', ''missing'', ''transport_inapplicable''}"

definition keepConfirmedModelFresh :: "time \<Rightarrow> duration \<Rightarrow> ProviderModelStatus \<Rightarrow> bool \<times> ProviderModelStatus" where
  "keepConfirmedModelFresh now confirmationTTL model =
     (if TrimSpace (pm_VerificationStatus model) \<noteq> ''confirmed'' \<or> \<not> pm_Available model then (False, model)
      else
        case (case pm_ExpiresAt model of
                Some t \<Rightarrow> Some t
              | None \<Rightarrow> (case pm_LastSuccessAt model of None \<Rightarrow> None | Some t \<Rightarrow> Some (t + confirmationTTL))) of
          None \<Rightarrow> (False, model)
        | Some expiresAt \<Rightarrow>
            let model = model\<lparr>pm_ExpiresAt := Some expiresAt\<rparr> in
            if now > expiresAt then
              (False, (setModelState ''registration_stale'' ''inventory_verified'' ''transport_stale'' ''stale''
                 ''confirmed model reached its verification TTL and must be re-registered'' now model)\<lparr>pm_Available := False\<rparr>)
            else
              (True, (setModelState ''ready'' ''inventory_verified'' ''transport_verified'' ''confirmed'' [] now model)
                 \<lparr>pm_QueueStatus := ''confirmed'', pm_QueuePosition := 0, pm_NextVerificationAt := Some expiresAt\<rparr>))"

definition pendingStarted :: "time \<Rightarrow> duration \<Rightarrow> ProviderModelStatus \<Rightarrow> ProviderModelStatus" where
  "pendingStarted now pendingTTL model =
     (case pm_VerificationStartedAt model of
        None \<Rightarrow> model\<lparr>pm_VerificationStartedAt := Some now\<rparr>
      | Some started \<Rightarrow>
          if pendingTTL > 0 \<and> now - started \<ge> pendingTTL
          then setModelState ''registration_stale'' (pm_InventoryStatus model) ''transport_pending'' ''stale''
                 ''model exceeded the pending registration TTL and is waiting for a retry slot'' now model
          else model)"

definition prepareModelForRegistration :: "time \<Rightarrow> duration \<Rightarrow> duration \<Rightarrow> ProviderModelStatus \<Rightarrow> ProviderModelStatus" where
  "prepareModelForRegistration now pendingTTL confirmationTTL model =
     (let model = model\<lparr>pm_InventoryStatus := (if pm_InventoryStatus model = [] then ''inventory_verified'' else pm_InventoryStatus model),
                        pm_TransportStatus := (if pm_TransportStatus model = [] \<or> pm_TransportStatus model = ''transport_verified''
                                               then ''transport_pending'' else pm_TransportStatus model)\<rparr>;
          model = pendingStarted now pendingTTL model;
          model = (if confirmationTTL > 0 \<and> pm_ExpiresAt model = None
                   then model\<lparr>pm_ExpiresAt := (case pm_LastSuccessAt model of None \<Rightarrow> None | Some t \<Rightarrow> Some (t + confirmationTTL))\<rparr>
                   else model);
          model = model\<lparr>pm_Available := False,
                        pm_VerificationStatus := (if TrimSpace (pm_VerificationStatus model) = ''confirmed'' then ''stale''
                                                  else pm_VerificationStatus model)\<rparr>;
          model = (if pm_Status model = [] \<or> pm_Status model = ''ready''
                   then setModelState ''verification_pending'' (pm_InventoryStatus model) (pm_TransportStatus model) ''verifying''
                          ''model discovered in provider inventory and awaiting transport verification'' now model
                   else model)
      in model\<lparr>pm_PendingCycles := pm_PendingCycles model + 1\<rparr>)"

definition registrationDue :: "ProviderModelStatus \<Rightarrow> time \<Rightarrow> bool" where
  "registrationDue model now = (case pm_NextVerificationAt model of None \<Rightarrow> True | Some t \<Rightarrow> \<not> now < t)"

definition markModelCooldown :: "time \<Rightarrow> ProviderModelStatus \<Rightarrow> ProviderModelStatus" where
  "markModelCooldown now model =
     (let reason = (if pm_VerificationStatus model = ''stale''
                    then ''confirmed model expired and is cooling down before re-registration''
                    else ''model is cooling down before the next registration attempt'');
          model = setModelState ''verification_cooldown'' (pm_InventoryStatus model) (pm_TransportStatus model)
                    (verificationStatusOr model ''cooldown'') reason now model
      in setMeta ''probe_status'' ''cooldown''
           (model\<lparr>pm_QueueStatus := ''cooldown'', pm_QueuePosition := 0, pm_Available := False\<rparr>))"

definition markModelTransportInapplicable :: "time \<Rightarrow> string \<Rightarrow> ProviderModelStatus \<Rightarrow> ProviderModelStatus" where
  "markModelTransportInapplicable now reason model =
     setMeta ''probe_status'' ''inapplicable''
       (setModelState ''transport_inapplicable'' ''inventory_verified'' ''transport_inapplicable'' ''skipped'' reason now
          (model\<lparr>pm_Available := False, pm_NextVerificationAt := None, pm_LastError := None, pm_QueueStatus := ''skipped'',
                 pm_QueuePosition := 0\<rparr>))"

definition markModelQueued :: "time \<Rightarrow> int \<Rightarrow> ProviderModelStatus \<Rightarrow> ProviderModelStatus" where
  "markModelQueued now position model =
     setMeta ''probe_status'' ''queued''
       ((setModelState ''registration_queued'' (pm_InventoryStatus model) ''transport_pending''
           (verificationStatusOr model ''verifying'') ''model is queued for registration'' now model)
        \<lparr>pm_QueueStatus := ''queued'', pm_QueuePosition := position, pm_Available := False\<rparr>)"

definition markModelQueueOverflow :: "time \<Rightarrow> ProviderModelStatus \<Rightarrow> ProviderModelStatus" where
  "markModelQueueOverflow now model =
     setMeta ''probe_status'' ''overflow''
       ((setModelState ''registration_overflow'' (pm_InventoryStatus model) ''transport_pending''
           (verificationStatusOr model ''verifying'')
           ''model could not enter the registration queue because the queue limit was reached'' now model)
        \<lparr>pm_QueueStatus := ''overflow'', pm_QueuePosition := 0, pm_Available := False\<rparr>)"

definition startModelVerification :: "time \<Rightarrow> ProviderModelStatus \<Rightarrow> ProviderModelStatus" where
  "startModelVerification now model =
     (let model = model\<lparr>pm_VerificationStartedAt :=
                          (case pm_VerificationStartedAt model of None \<Rightarrow> Some now | Some t \<Rightarrow> Some t),
                        pm_RegistrationAttempts := pm_RegistrationAttempts model + 1\<rparr>
      in setMeta ''probe_status'' ''probing''
           ((setModelState ''verification_pending'' (pm_InventoryStatus model) ''transport_pending'' ''verifying''
               ''model registration is in progress'' now model)
            \<lparr>pm_QueueStatus := ''probing'', pm_QueuePosition := 0\<rparr>))"

definition SucceededAtOr :: "modelProbeResult \<Rightarrow> time \<Rightarrow> time" where
  "SucceededAtOr result fallback = (case mp_SucceededAt result of Some t \<Rightarrow> t | None \<Rightarrow> fallback)"

definition markModelConfirmed :: "modelProbeResult \<Rightarrow> time \<Rightarrow> duration \<Rightarrow> ProviderModelStatus \<Rightarrow> ProviderModelStatus" where
  "markModelConfirmed result now confirmationTTL model =
     (let succeededAt = SucceededAtOr result now;
          expiresAt = (if confirmationTTL > 0 then Some (succeededAt + confirmationTTL) else None);
          model = model\<lparr>pm_Available := True, pm_LastError := None, pm_ConsecutiveFailures := 0,
                        pm_ConsecutiveSuccesses := pm_ConsecutiveSuccesses model + 1, pm_PendingCycles := 0,
                        pm_QueueStatus := ''confirmed'', pm_QueuePosition := 0, pm_LastSuccessAt := Some succeededAt,
                        pm_ExpiresAt := expiresAt, pm_NextVerificationAt := expiresAt\<rparr>
      in setMeta ''probe_status'' ''validated''
           (setModelState ''ready'' ''inventory_verified'' ''transport_verified'' ''confirmed'' [] now model))"

definition markModelFailure :: "modelProbeResult \<Rightarrow> time \<Rightarrow> duration \<Rightarrow> ProviderModelStatus \<Rightarrow> ProviderModelStatus" where
  "markModelFailure result now retryCooldown model =
     (let model = model\<lparr>pm_Reason := mp_Reason result, pm_LastError := mp_Error result,
                        pm_ConsecutiveFailures := pm_ConsecutiveFailures model + 1, pm_ConsecutiveSuccesses := 0,
                        pm_Available := False\<rparr> in
      if mp_Retryable result then
        let model = (if retryCooldown > 0 then model\<lparr>pm_NextVerificationAt := Some (now + retryCooldown)\<rparr> else model)
        in setMeta ''probe_status'' ''transient_failure''
             ((setModelState ''verification_cooldown'' (pm_InventoryStatus model) ''retryable_failure'' ''verifying''
                 (mp_Reason result) now model)\<lparr>pm_QueueStatus := ''cooldown'', pm_QueuePosition := 0\<rparr>)
      else
        setMeta ''probe_status'' ''validation_failed''
          ((setModelState ''validation_failed'' (pm_InventoryStatus model) (failureTransportStatus (mp_Error result)) ''unconfirmed''
              (mp_Reason result) now (model\<lparr>pm_NextVerificationAt := None\<rparr>))
           \<lparr>pm_QueueStatus := ''failed'', pm_QueuePosition := 0\<rparr>))"

definition applyProbeResult ::
  "modelProbeResult \<Rightarrow> time \<Rightarrow> duration \<Rightarrow> duration \<Rightarrow> ProviderModelStatus \<Rightarrow> ProviderModelStatus" where
  "applyProbeResult result now retryCooldown confirmationTTL model =
     (let model = model\<lparr>pm_ObservedAt := mp_ObservedAt result, pm_Transport := mp_Transport result,
                        pm_LastHTTPStatus := mp_HTTPStatus result, pm_LastProbeLatencyMS := mp_LatencyMS result\<rparr>;
          model = (if mp_RequestID result \<noteq> [] then setMeta ''request_id'' (mp_RequestID result) model else model)
      in if mp_Validated result then markModelConfirmed result now confirmationTTL model
         else markModelFailure result now retryCooldown model)"

section \<open>Validation of the discovered models\<close>

definition prioritizeModelValidation :: "ProviderModelStatus list \<Rightarrow> string \<Rightarrow> nat list" where
  "prioritizeModelValidation models defaultModel =
     (let defaultModel = TrimSpace defaultModel;
          first = (if defaultModel = [] then None
                   else find (\<lambda>i. EqualFold (pm_ModelName (models ! i)) defaultModel) [0..<length models])
      in case first of
           None \<Rightarrow> [0..<length models]
         | Some i \<Rightarrow> i # filter (\<lambda>j. j \<noteq> i) [0..<length models])"

record validation_state =
  vs_models :: "ProviderModelStatus list"
  vs_probe :: "nat list"
  vs_queued :: "nat list"

definition updModel :: "nat \<Rightarrow> (ProviderModelStatus \<Rightarrow> ProviderModelStatus) \<Rightarrow> ProviderModelStatus list \<Rightarrow> ProviderModelStatus list" where
  "updModel i f models = models[i := f (models ! i)]"

text \<open>One turn of the loop that decides which models are probed.\<close>

definition admitModel ::
  "ProviderModelRegistry \<Rightarrow> OpenAICompatibleConfig \<Rightarrow> time \<Rightarrow> int \<Rightarrow> nat \<Rightarrow> validation_state \<Rightarrow> validation_state" where
  "admitModel r cfg now queueLimit i s =
     (let model = vs_models s ! i;
          set_model = (\<lambda>m. s\<lparr>vs_models := (vs_models s)[i := m]\<rparr>) in
      if \<not> canParticipateInRegistration model then s
      else
        let (fresh, model) = keepConfirmedModelFresh now (mr_confirmationTTL r) model;
            reason = inapplicableValidationReason model cfg in
        if fresh then set_model model
        else if reason \<noteq> [] then set_model (markModelTransportInapplicable now reason model)
        else
          let model = prepareModelForRegistration now (mr_pendingTTL r) (mr_confirmationTTL r) model in
          if \<not> registrationDue model now then set_model (markModelCooldown now model)
          else if int (length (vs_queued s)) \<ge> queueLimit then set_model (markModelQueueOverflow now model)
          else if mr_validationLimit r \<le> 0 \<or> int (length (vs_probe s)) < mr_validationLimit r
          then (set_model model)\<lparr>vs_queued := vs_queued s @ [i], vs_probe := vs_probe s @ [i]\<rparr>
          else (set_model (markModelQueued now (int (length (vs_queued s)) + 1) model))\<lparr>vs_queued := vs_queued s @ [i]\<rparr>)"

definition indexInQueue :: "nat list \<Rightarrow> nat \<Rightarrow> int" where
  "indexInQueue queue target = (case find (\<lambda>i. queue ! i = target) [0..<length queue] of None \<Rightarrow> -1 | Some i \<Rightarrow> int i)"

text \<open>The probes of the chosen models; \<open>envs i\<close> is what the probe of the model at \<open>i\<close> observes.\<close>

definition probeModel ::
  "ProviderModelRegistry \<Rightarrow> OpenAICompatibleConfig \<Rightarrow> (nat \<Rightarrow> probe_env) \<Rightarrow> time \<Rightarrow> nat
   \<Rightarrow> ProviderModelStatus list \<Rightarrow> ProviderModelStatus list" where
  "probeModel r cfg envs now i models =
     updModel i (\<lambda>model.
       let model = startModelVerification now model;
           result = validateModelViaTransport (envs i) cfg (pm_ModelName model)
       in applyProbeResult result now (mr_retryCooldown r) (mr_confirmationTTL r) model) models"

definition mergeAll ::
  "(string \<times> ProviderModelStatus) list \<Rightarrow> time \<Rightarrow> int \<Rightarrow> ProviderModelStatus list \<Rightarrow> ProviderModelStatus list" where
  "mergeAll previous now interval models =
     map (\<lambda>model. mergeProviderLifecycle model
           (case map_of previous (modelLifecycleKey (pm_ModelName model)) of
              None \<Rightarrow> zero_ProviderModelStatus | Some p \<Rightarrow> p) now interval) models"

definition admitAll ::
  "ProviderModelRegistry \<Rightarrow> OpenAICompatibleConfig \<Rightarrow> time \<Rightarrow> ProviderModelStatus list \<Rightarrow> validation_state" where
  "admitAll r cfg now models =
     (let queueLimit = (if mr_unregisteredQLimit r \<le> 0 then int (length models) else mr_unregisteredQLimit r)
      in fold (admitModel r cfg now queueLimit) (prioritizeModelValidation models (cf_DefaultModel cfg))
           \<lparr>vs_models = models, vs_probe = [], vs_queued = []\<rparr>)"

definition validateDiscoveredModels ::
  "ProviderModelRegistry \<Rightarrow> OpenAICompatibleConfig \<Rightarrow> (nat \<Rightarrow> probe_env) \<Rightarrow> (string \<times> ProviderModelStatus) list \<Rightarrow> time
   \<Rightarrow> ProviderModelStatus list \<Rightarrow> ProviderModelStatus list" where
  "validateDiscoveredModels r cfg envs previous now models =
     (let s = admitAll r cfg now (mergeAll previous now (intSeconds (mr_refreshInterval r)) models);
          probed = fold (probeModel r cfg envs now) (vs_probe s) (vs_models s)
      in fold (\<lambda>i. updModel i (markModelQueued now (indexInQueue (vs_queued s) i + 1)))
           (drop (length (vs_probe s)) (vs_queued s)) probed)"

definition shouldValidateProvider :: "ProviderModelRegistry \<Rightarrow> OpenAICompatibleConfig \<Rightarrow> bool" where
  "shouldValidateProvider r cfg \<longleftrightarrow>
     mr_validateModels r \<and> Configured cfg
     \<and> (TrimSpace (ChatCompletionsURL cfg) \<noteq> [] \<or> TrimSpace (ResponsesURL cfg) \<noteq> [] \<or> TrimSpace (MessagesURL cfg) \<noteq> [])"

section \<open>Which models are probed\<close>

text \<open>
  The reference: of the models that may register, support the transport and are due, in order of
  priority, as many as the queue holds; of those the first ones up to the validation limit.
\<close>

definition mayRegister :: "OpenAICompatibleConfig \<Rightarrow> time \<Rightarrow> ProviderModelStatus \<Rightarrow> bool" where
  "mayRegister cfg now model \<longleftrightarrow>
     canParticipateInRegistration model \<and> inapplicableValidationReason model cfg = [] \<and> registrationDue model now"

definition upTo :: "int \<Rightarrow> 'a list \<Rightarrow> 'a list" where
  "upTo n xs = (if n \<le> 0 then xs else take (nat n) xs)"

definition registrationQueue :: "ProviderModelRegistry \<Rightarrow> OpenAICompatibleConfig \<Rightarrow> time \<Rightarrow> ProviderModelStatus list \<Rightarrow> nat list" where
  "registrationQueue r cfg now models =
     upTo (mr_unregisteredQLimit r)
       (filter (\<lambda>i. mayRegister cfg now (models ! i)) (prioritizeModelValidation models (cf_DefaultModel cfg)))"

lemma keepConfirmed_unavailable:
  "\<not> pm_Available model \<Longrightarrow> keepConfirmedModelFresh now ttl model = (False, model)"
  by (simp add: keepConfirmedModelFresh_def)

lemma setModelState_keeps [simp]:
  "pm_ModelName (setModelState a b c d e now m) = pm_ModelName m"
  "pm_Available (setModelState a b c d e now m) = pm_Available m"
  "pm_NextVerificationAt (setModelState a b c d e now m) = pm_NextVerificationAt m"
  "pm_ExpiresAt (setModelState a b c d e now m) = pm_ExpiresAt m"
  "pm_Status (setModelState a b c d e now m) = a"
  "pm_VerificationStatus (setModelState a b c (v # vs) e now m) = v # vs"
  by (simp_all add: setModelState_def)

lemma setMeta_keeps [simp]:
  "pm_ModelName (setMeta k v m) = pm_ModelName m" "pm_Available (setMeta k v m) = pm_Available m"
  "pm_NextVerificationAt (setMeta k v m) = pm_NextVerificationAt m" "pm_Status (setMeta k v m) = pm_Status m"
  "pm_VerificationStatus (setMeta k v m) = pm_VerificationStatus m" "pm_ExpiresAt (setMeta k v m) = pm_ExpiresAt m"
  by (simp_all add: setMeta_def)

lemma pendingStarted_keeps [simp]:
  "pm_ModelName (pendingStarted now ttl m) = pm_ModelName m"
  "pm_NextVerificationAt (pendingStarted now ttl m) = pm_NextVerificationAt m"
  by (simp_all add: pendingStarted_def split: option.split)

lemma marks_unavailable [simp]:
  "\<not> pm_Available (markModelCooldown now m)" "\<not> pm_Available (markModelTransportInapplicable now reason m)"
  "\<not> pm_Available (markModelQueued now k m)" "\<not> pm_Available (markModelQueueOverflow now m)"
  "\<not> pm_Available (prepareModelForRegistration now p c m)"
  by (simp_all add: markModelCooldown_def markModelTransportInapplicable_def markModelQueued_def
      markModelQueueOverflow_def prepareModelForRegistration_def Let_def)

lemma marks_name [simp]:
  "pm_ModelName (markModelCooldown now m) = pm_ModelName m"
  "pm_ModelName (markModelTransportInapplicable now reason m) = pm_ModelName m"
  "pm_ModelName (markModelQueued now k m) = pm_ModelName m"
  "pm_ModelName (markModelQueueOverflow now m) = pm_ModelName m"
  "pm_ModelName (prepareModelForRegistration now p c m) = pm_ModelName m"
  "pm_ModelName (startModelVerification now m) = pm_ModelName m"
  by (simp_all add: markModelCooldown_def markModelTransportInapplicable_def markModelQueued_def startModelVerification_def
      markModelQueueOverflow_def prepareModelForRegistration_def Let_def)

lemma prepare_next [simp]:
  "pm_NextVerificationAt (prepareModelForRegistration now p c m) = pm_NextVerificationAt m"
  by (simp add: prepareModelForRegistration_def Let_def)

lemma registrationDue_prepare [simp]:
  "registrationDue (prepareModelForRegistration now p c m) now = registrationDue m now"
  by (simp add: registrationDue_def)

lemma probe_decides [simp]:
  "pm_Available (applyProbeResult result now rc ct m) \<longleftrightarrow> mp_Validated result"
  by (simp add: applyProbeResult_def markModelConfirmed_def markModelFailure_def Let_def)

text \<open>What one turn does to the model it looks at, and when it takes the model into the queue.\<close>

definition admitted :: "ProviderModelRegistry \<Rightarrow> OpenAICompatibleConfig \<Rightarrow> time \<Rightarrow> int \<Rightarrow> nat \<Rightarrow> validation_state \<Rightarrow> bool" where
  "admitted r cfg now queueLimit i s \<longleftrightarrow>
     mayRegister cfg now (vs_models s ! i) \<and> int (length (vs_queued s)) < queueLimit"

lemma admitModel_queues:
  assumes "\<not> pm_Available (vs_models s ! i)"
  shows "vs_queued (admitModel r cfg now ql i s) = (if admitted r cfg now ql i s then vs_queued s @ [i] else vs_queued s)"
    and "vs_probe (admitModel r cfg now ql i s) =
      (if admitted r cfg now ql i s \<and> (mr_validationLimit r \<le> 0 \<or> int (length (vs_probe s)) < mr_validationLimit r)
       then vs_probe s @ [i] else vs_probe s)"
  by (simp_all add: admitModel_def admitted_def mayRegister_def keepConfirmed_unavailable [OF assms] Let_def)

lemma admitModel_models:
  assumes "\<not> pm_Available (vs_models s ! i)"
  obtains m where "vs_models (admitModel r cfg now ql i s) = (vs_models s)[i := m]"
    and "\<not> pm_Available m" and "pm_ModelName m = pm_ModelName (vs_models s ! i)"
proof -
  let ?old = "vs_models s ! i"
  let ?p = "prepareModelForRegistration now (mr_pendingTTL r) (mr_confirmationTTL r) ?old"
  consider "\<not> canParticipateInRegistration ?old"
    | "canParticipateInRegistration ?old" "inapplicableValidationReason ?old cfg \<noteq> []"
    | "canParticipateInRegistration ?old" "inapplicableValidationReason ?old cfg = []" by blast
  then show ?thesis
  proof cases
    case 1
    then show ?thesis using that [of ?old] assms by (simp add: admitModel_def)
  next
    case 2
    then show ?thesis
      using that [of "markModelTransportInapplicable now (inapplicableValidationReason ?old cfg) ?old"]
      by (simp add: admitModel_def keepConfirmed_unavailable [OF assms] Let_def)
  next
    case 3
    let ?m = "if \<not> registrationDue ?old now then markModelCooldown now ?p
      else if int (length (vs_queued s)) \<ge> ql then markModelQueueOverflow now ?p
      else if mr_validationLimit r \<le> 0 \<or> int (length (vs_probe s)) < mr_validationLimit r then ?p
      else markModelQueued now (int (length (vs_queued s)) + 1) ?p"
    show ?thesis
      by (rule that [of ?m]) (use 3 in \<open>simp_all add: admitModel_def keepConfirmed_unavailable [OF assms] Let_def\<close>)
  qed
qed

definition unavailable :: "ProviderModelStatus list \<Rightarrow> bool" where
  "unavailable models \<longleftrightarrow> (\<forall>m\<in>set models. \<not> pm_Available m)"

definition probesFirst :: "ProviderModelRegistry \<Rightarrow> validation_state \<Rightarrow> bool" where
  "probesFirst r s \<longleftrightarrow> vs_probe s = upTo (mr_validationLimit r) (vs_queued s)"

lemma admitModel_probesFirst:
  assumes "\<not> pm_Available (vs_models s ! i)" and "probesFirst r s"
  shows "probesFirst r (admitModel r cfg now ql i s)"
  using assms(2) by (auto simp: probesFirst_def upTo_def admitModel_queues [OF assms(1)])

lemma admit_run:
  assumes "distinct is" and "\<forall>i\<in>set is. i < length (vs_models s)" and "unavailable (vs_models s)" and "probesFirst r s"
  shows "let s' = fold (admitModel r cfg now ql) is s in
    vs_queued s' = vs_queued s @ take (nat ql - length (vs_queued s)) (filter (\<lambda>i. mayRegister cfg now (vs_models s ! i)) is)
    \<and> probesFirst r s' \<and> unavailable (vs_models s') \<and> map pm_ModelName (vs_models s') = map pm_ModelName (vs_models s)"
  using assms
proof (induction "is" arbitrary: s)
  case Nil
  then show ?case by simp
next
  case (Cons i "is")
  let ?s = "admitModel r cfg now ql i s"
  have i: "i < length (vs_models s)" and na: "\<not> pm_Available (vs_models s ! i)"
    using Cons.prems by (auto simp: unavailable_def)
  obtain m where m: "vs_models ?s = (vs_models s)[i := m]" "\<not> pm_Available m" "pm_ModelName m = pm_ModelName (vs_models s ! i)"
    using admitModel_models [OF na] by blast
  have "map pm_ModelName (vs_models ?s) = map pm_ModelName (vs_models s)"
    using m i by (simp add: map_update list_update_same_conv)
  moreover have "unavailable (vs_models ?s)"
    using m Cons.prems(3) by (auto simp: unavailable_def dest: set_update_subset_insert [THEN subsetD])
  moreover have "filter (\<lambda>j. mayRegister cfg now (vs_models ?s ! j)) is = filter (\<lambda>j. mayRegister cfg now (vs_models s ! j)) is"
    by (rule filter_cong) (use m Cons.prems(1) in \<open>simp_all, metis nth_list_update_neq\<close>)
  moreover note Cons.IH [of ?s] admitModel_probesFirst [OF na Cons.prems(4)] admitModel_queues(1) [OF na]
  moreover have "int (length (vs_queued s)) < ql \<longleftrightarrow> nat ql - length (vs_queued s) \<noteq> 0"
    by linarith
  ultimately show ?case
    using Cons.prems(1,2) m by (simp add: Let_def admitted_def take_Cons')
qed

lemma prioritize_perm:
  "distinct (prioritizeModelValidation models d)" "set (prioritizeModelValidation models d) = {0..<length models}"
proof -
  have "i < length models" if "find P [0..<length models] = Some i" for P i
    using that by (auto simp: find_Some_iff)
  then show "distinct (prioritizeModelValidation models d)" "set (prioritizeModelValidation models d) = {0..<length models}"
    unfolding prioritizeModelValidation_def Let_def by (auto split: option.splits)
qed

lemma admitAll_spec:
  assumes "unavailable models"
  shows "vs_queued (admitAll r cfg now models) = registrationQueue r cfg now models"
    and "vs_probe (admitAll r cfg now models) = upTo (mr_validationLimit r) (registrationQueue r cfg now models)"
    and "unavailable (vs_models (admitAll r cfg now models))"
    and "map pm_ModelName (vs_models (admitAll r cfg now models)) = map pm_ModelName models"
proof -
  let ?ql = "if mr_unregisteredQLimit r \<le> 0 then int (length models) else mr_unregisteredQLimit r"
  let ?o = "prioritizeModelValidation models (cf_DefaultModel cfg)"
  have len: "length ?o = length models"
    using prioritize_perm [of models "cf_DefaultModel cfg"] by (metis card_atLeastLessThan distinct_card minus_nat.diff_0)
  have "length (filter (\<lambda>i. mayRegister cfg now (models ! i)) ?o) \<le> length models"
    by (metis len length_filter_le)
  then have q: "take (nat ?ql) (filter (\<lambda>i. mayRegister cfg now (models ! i)) ?o) = registrationQueue r cfg now models"
    by (simp add: registrationQueue_def upTo_def)
  let ?s0 = "\<lparr>vs_models = models, vs_probe = [], vs_queued = []\<rparr>"
  have *: "admitAll r cfg now models = fold (admitModel r cfg now ?ql) ?o ?s0"
    by (simp add: admitAll_def Let_def)
  note run = admit_run [of ?o ?s0 r cfg now ?ql]
  have "probesFirst r ?s0" by (simp add: probesFirst_def upTo_def)
  then have r: "vs_queued (admitAll r cfg now models) = registrationQueue r cfg now models
      \<and> probesFirst r (admitAll r cfg now models) \<and> unavailable (vs_models (admitAll r cfg now models))
      \<and> map pm_ModelName (vs_models (admitAll r cfg now models)) = map pm_ModelName models"
    unfolding * using run assms prioritize_perm [of models "cf_DefaultModel cfg"] q by (simp add: Let_def)
  then show "vs_queued (admitAll r cfg now models) = registrationQueue r cfg now models"
    "vs_probe (admitAll r cfg now models) = upTo (mr_validationLimit r) (registrationQueue r cfg now models)"
    "unavailable (vs_models (admitAll r cfg now models))"
    "map pm_ModelName (vs_models (admitAll r cfg now models)) = map pm_ModelName models"
    by (simp_all add: probesFirst_def)
qed

lemma fold_updModel:
  assumes "distinct is"
  shows "length (fold (\<lambda>i. updModel i (f i)) is ms) = length ms"
    and "j < length ms \<Longrightarrow> fold (\<lambda>i. updModel i (f i)) is ms ! j = (if j \<in> set is then f j (ms ! j) else ms ! j)"
  using assms
proof (induction "is" arbitrary: ms)
  case (Cons i "is")
  {
    case 1
    then show ?case using Cons.IH(1) by (simp add: updModel_def)
  next
    case 2
    then show ?case
      using Cons.IH(2) [of "updModel i (f i) ms"] by (cases "i = j") (auto simp: updModel_def)
  }
qed simp_all

text \<open>The models of an inventory, with what the previous refresh knew of them.\<close>

lemma mergeAll_props:
  assumes "unavailable models"
  shows "unavailable (mergeAll previous now iv models)"
    and "map pm_ModelName (mergeAll previous now iv models) = map pm_ModelName models"
    and "map pm_Status (mergeAll previous now iv models) = map pm_Status models"
  using assms by (auto simp: unavailable_def mergeAll_def mergeProviderLifecycle_def Let_def)

text \<open>Nothing before the probes confirms a model.\<close>

definition unconfirmed :: "ProviderModelStatus \<Rightarrow> bool" where
  "unconfirmed m \<longleftrightarrow> TrimSpace (pm_VerificationStatus m) \<noteq> ''confirmed''"

lemma trimmed_words [simp]:
  "TrimSpace ''stale'' \<noteq> ''confirmed''" "TrimSpace ''verifying'' \<noteq> ''confirmed''" "TrimSpace ''cooldown'' \<noteq> ''confirmed''"
  "TrimSpace ''skipped'' \<noteq> ''confirmed''" "TrimSpace ''unconfirmed'' \<noteq> ''confirmed''" "TrimSpace ''confirmed'' = ''confirmed''"
  by code_simp+

lemma setModelState_unconfirmed:
  "unconfirmed m \<Longrightarrow> TrimSpace v \<noteq> ''confirmed'' \<Longrightarrow> unconfirmed (setModelState a b c v e now m)"
  by (simp add: unconfirmed_def setModelState_def)

lemma unconfirmed_fields [simp]:
  "unconfirmed (m\<lparr>pm_QueueStatus := q\<rparr>) = unconfirmed m" "unconfirmed (m\<lparr>pm_QueuePosition := k\<rparr>) = unconfirmed m"
  "unconfirmed (m\<lparr>pm_Available := b\<rparr>) = unconfirmed m" "unconfirmed (m\<lparr>pm_NextVerificationAt := t\<rparr>) = unconfirmed m"
  "unconfirmed (m\<lparr>pm_LastError := le\<rparr>) = unconfirmed m" "unconfirmed (setMeta x y m) = unconfirmed m"
  "unconfirmed (m\<lparr>pm_PendingCycles := n\<rparr>) = unconfirmed m"
  by (simp_all add: unconfirmed_def)

lemma verificationStatusOr_unconfirmed:
  "unconfirmed m \<Longrightarrow> TrimSpace d \<noteq> ''confirmed'' \<Longrightarrow> TrimSpace (verificationStatusOr m d) \<noteq> ''confirmed''"
  by (simp add: verificationStatusOr_def unconfirmed_def)

lemma pendingStarted_unconfirmed: "unconfirmed m \<Longrightarrow> unconfirmed (pendingStarted now ttl m)"
  by (auto simp: pendingStarted_def setModelState_unconfirmed split: option.split) (simp add: unconfirmed_def)

lemma prepare_unconfirmed: "unconfirmed m \<Longrightarrow> unconfirmed (prepareModelForRegistration now p c m)"
proof -
  assume u: "unconfirmed m"
  define m1 where "m1 = m\<lparr>pm_InventoryStatus := (if pm_InventoryStatus m = [] then ''inventory_verified'' else pm_InventoryStatus m),
                        pm_TransportStatus := (if pm_TransportStatus m = [] \<or> pm_TransportStatus m = ''transport_verified''
                                               then ''transport_pending'' else pm_TransportStatus m)\<rparr>"
  have "unconfirmed m1" using u by (simp add: unconfirmed_def m1_def)
  then have "unconfirmed (pendingStarted now p m1)" by (rule pendingStarted_unconfirmed)
  then show ?thesis
    unfolding prepareModelForRegistration_def Let_def m1_def [symmetric]
    by (simp add: unconfirmed_def setModelState_def)
qed

lemma marks_unconfirmed:
  "unconfirmed m \<Longrightarrow> unconfirmed (markModelCooldown now m)"
  "unconfirmed m \<Longrightarrow> unconfirmed (markModelTransportInapplicable now reason m)"
  "unconfirmed m \<Longrightarrow> unconfirmed (markModelQueued now k m)"
  "unconfirmed m \<Longrightarrow> unconfirmed (markModelQueueOverflow now m)"
  by (simp_all add: markModelCooldown_def markModelTransportInapplicable_def markModelQueued_def markModelQueueOverflow_def
      setModelState_unconfirmed verificationStatusOr_unconfirmed Let_def)

lemma admitModel_unconfirmed:
  assumes "list_all unconfirmed (vs_models s)" and "i < length (vs_models s)"
  shows "list_all unconfirmed (vs_models (admitModel r cfg now ql i s))"
proof -
  have u: "unconfirmed (vs_models s ! i)" using assms by (simp add: list_all_length)
  then have k: "keepConfirmedModelFresh now ttl (vs_models s ! i) = (False, vs_models s ! i)" for ttl
    by (simp add: keepConfirmedModelFresh_def unconfirmed_def)
  have upd: "list_all unconfirmed ((vs_models s)[i := m])" if "unconfirmed m" for m
    using that assms(1) by (auto simp: list_all_iff dest: set_update_subset_insert [THEN subsetD])
  show ?thesis
    unfolding admitModel_def k Let_def
    using assms(1) u by (simp add: upd marks_unconfirmed prepare_unconfirmed)
qed

lemma admitAll_unconfirmed:
  assumes "list_all unconfirmed models"
  shows "list_all unconfirmed (vs_models (admitAll r cfg now models))"
proof -
  have "list_all unconfirmed (vs_models (fold (admitModel r cfg now ql) is s)) \<and>
      length (vs_models (fold (admitModel r cfg now ql) is s)) = length (vs_models s)"
    if "list_all unconfirmed (vs_models s)" "\<forall>i\<in>set is. i < length (vs_models s)" for ql "is" s
    using that
  proof (induction "is" arbitrary: s)
    case (Cons i "is")
    have "length (vs_models (admitModel r cfg now ql i s)) = length (vs_models s)"
      unfolding admitModel_def Let_def by (simp split: prod.split)
    then show ?case
      using Cons.IH [of "admitModel r cfg now ql i s"] Cons.prems admitModel_unconfirmed [of s i] by simp
  qed simp
  then show ?thesis
    using assms prioritize_perm [of models "cf_DefaultModel cfg"] by (simp add: admitAll_def Let_def)
qed

lemma mergeAll_unconfirmed: "list_all unconfirmed models \<Longrightarrow> list_all unconfirmed (mergeAll previous now iv models)"
  by (auto simp: list_all_iff mergeAll_def mergeProviderLifecycle_def unconfirmed_def Let_def)

lemma validated_time:
  "mp_Validated (validateModelViaTransport env cfg m) \<Longrightarrow>
     mp_SucceededAt (validateModelViaTransport env cfg m) = Some (he_now env)"
  unfolding validateModelViaTransport_def judgeResponse_def failedProbe_def Let_def
  by (auto simp: zero_modelProbeResult_def split: prod.splits sum.splits option.splits if_splits)

text \<open>The row of a model after validation, by whether it was probed or is left in the queue.\<close>

definition probedRow :: "ProviderModelRegistry \<Rightarrow> OpenAICompatibleConfig \<Rightarrow> (nat \<Rightarrow> probe_env) \<Rightarrow> time \<Rightarrow> nat \<Rightarrow> ProviderModelStatus \<Rightarrow> ProviderModelStatus" where
  "probedRow r cfg envs now i model =
     applyProbeResult (validateModelViaTransport (envs i) cfg (pm_ModelName model)) now (mr_retryCooldown r) (mr_confirmationTTL r)
       (startModelVerification now model)"

lemma probeModel_row: "probeModel r cfg envs now = (\<lambda>j. updModel j (probedRow r cfg envs now j))"
  by (simp add: probeModel_def probedRow_def [abs_def] Let_def fun_eq_iff)

lemma applyProbeResult_name [simp]: "pm_ModelName (applyProbeResult result now rc ct m) = pm_ModelName m"
  by (simp add: applyProbeResult_def markModelConfirmed_def markModelFailure_def Let_def)

lemma validation_row:
  assumes "unavailable models" and "i < length models"
    and "merged = mergeAll previous now (intSeconds (mr_refreshInterval r)) models"
    and "V = upTo (mr_validationLimit r) (registrationQueue r cfg now merged)"
  shows "\<exists>row k. \<not> pm_Available row \<and> pm_ModelName row = pm_ModelName (models ! i)
    \<and> (list_all unconfirmed models \<longrightarrow> unconfirmed row)
    \<and> validateDiscoveredModels r cfg envs previous now models ! i =
       (if i \<in> set V then probedRow r cfg envs now i row
        else if i \<in> set (registrationQueue r cfg now merged) then markModelQueued now k row else row)"
proof -
  have m: "unavailable merged" "length merged = length models" "pm_ModelName (merged ! i) = pm_ModelName (models ! i)"
    using mergeAll_props [OF assms(1)] assms(2,3) by (simp_all, metis length_map, metis length_map nth_map)
  let ?s = "admitAll r cfg now merged" and ?Q = "registrationQueue r cfg now merged"
  note s = admitAll_spec [OF m(1), of r cfg now]
  have len: "length (vs_models ?s) = length models" and name: "pm_ModelName (vs_models ?s ! i) = pm_ModelName (models ! i)"
    using s(4) m assms(2) by (metis length_map, metis length_map nth_map)
  have d: "distinct ?Q"
    by (auto simp: registrationQueue_def upTo_def prioritize_perm)
  have Q: "?Q = V @ drop (length V) ?Q"
    by (auto simp: assms(4) upTo_def min_def)
  then have dV: "distinct V" and rest: "set ?Q = set V \<union> set (drop (length V) ?Q)" "set V \<inter> set (drop (length V) ?Q) = {}"
    using d by (metis distinct_append, metis set_append, metis distinct_append)
  let ?P = "fold (probeModel r cfg envs now) V (vs_models ?s)"
  have P: "length ?P = length models" "?P ! i = (if i \<in> set V then probedRow r cfg envs now i (vs_models ?s ! i) else vs_models ?s ! i)"
    unfolding probeModel_row using fold_updModel [OF dV] len assms(2) by simp_all
  have "validateDiscoveredModels r cfg envs previous now models ! i =
      (if i \<in> set (drop (length V) ?Q) then markModelQueued now (indexInQueue ?Q i + 1) (?P ! i) else ?P ! i)"
    using fold_updModel(2) [of "drop (length V) ?Q" i ?P] d P(1) assms(2)
    by (simp add: validateDiscoveredModels_def assms(3) [symmetric] s(1,2) assms(4) [symmetric] Let_def)
  moreover have "\<not> pm_Available (vs_models ?s ! i)"
    using s(3) len assms(2) by (simp add: unavailable_def)
  moreover have "list_all unconfirmed models \<longrightarrow> unconfirmed (vs_models ?s ! i)"
    using admitAll_unconfirmed [OF mergeAll_unconfirmed] len assms(2,3) by (simp add: list_all_length)
  ultimately show ?thesis
    using P(2) rest name by (intro exI [of _ "vs_models ?s ! i"] exI [of _ "indexInQueue ?Q i + 1"]) auto
qed

lemma length_validate: "length (validateDiscoveredModels r cfg envs previous now models) = length models"
  if "unavailable models"
proof -
  let ?m = "mergeAll previous now (intSeconds (mr_refreshInterval r)) models"
  have "length (vs_models (admitAll r cfg now ?m)) = length models"
    using admitAll_spec(4) [OF mergeAll_props(1) [OF that]] mergeAll_props(2) [OF that] by (metis length_map)
  moreover have "length (fold (\<lambda>i. updModel i (f i)) is ms) = length ms" for f "is" and ms :: "ProviderModelStatus list"
    by (induction "is" arbitrary: ms) (simp_all add: updModel_def)
  ultimately show ?thesis by (simp add: validateDiscoveredModels_def probeModel_row Let_def)
qed

lemma validation_available:
  assumes "unavailable models" and "i < length models"
    and "merged = mergeAll previous now (intSeconds (mr_refreshInterval r)) models"
  shows "pm_Available (validateDiscoveredModels r cfg envs previous now models ! i) \<longleftrightarrow>
     i \<in> set (upTo (mr_validationLimit r) (registrationQueue r cfg now merged))
     \<and> mp_Validated (validateModelViaTransport (envs i) cfg (pm_ModelName (models ! i)))"
proof -
  let ?V = "upTo (mr_validationLimit r) (registrationQueue r cfg now merged)"
  obtain row k where row: "\<not> pm_Available row" "pm_ModelName row = pm_ModelName (models ! i)"
      "validateDiscoveredModels r cfg envs previous now models ! i =
       (if i \<in> set ?V then probedRow r cfg envs now i row
        else if i \<in> set (registrationQueue r cfg now merged) then markModelQueued now k row else row)"
    using validation_row [OF assms refl, where cfg = cfg and envs = envs] by blast
  then show ?thesis by (simp add: probedRow_def)
qed

lemma validation_name:
  assumes "unavailable models"
  shows "map pm_ModelName (validateDiscoveredModels r cfg envs previous now models) = map pm_ModelName models"
proof (rule nth_equalityI)
  fix i assume "i < length (map pm_ModelName (validateDiscoveredModels r cfg envs previous now models))"
  then have i: "i < length models" by (simp add: length_validate [OF assms])
  then show "map pm_ModelName (validateDiscoveredModels r cfg envs previous now models) ! i = map pm_ModelName models ! i"
    using validation_row [OF assms i refl refl, where r = r and cfg = cfg and now = now and previous = previous and envs = envs] length_validate [OF assms]
    by (auto simp: probedRow_def split: if_splits)
qed (simp add: length_validate [OF assms])

lemma confirmed_next_probe:
  assumes "unavailable models" and "i < length models" and "mr_confirmationTTL r > 0"
    and "pm_Available (validateDiscoveredModels r cfg envs previous now models ! i)"
  shows "pm_NextVerificationAt (validateDiscoveredModels r cfg envs previous now models ! i) = Some (he_now (envs i) + mr_confirmationTTL r)"
    and "pm_Status (validateDiscoveredModels r cfg envs previous now models ! i) = ''ready''"
    and "pm_VerificationStatus (validateDiscoveredModels r cfg envs previous now models ! i) = ''confirmed''"
proof -
  let ?V = "upTo (mr_validationLimit r)
    (registrationQueue r cfg now (mergeAll previous now (intSeconds (mr_refreshInterval r)) models))"
  have V: "i \<in> set ?V" and val: "mp_Validated (validateModelViaTransport (envs i) cfg (pm_ModelName (models ! i)))"
    using validation_available [OF assms(1,2) refl, where r = r and cfg = cfg and now = now and previous = previous and envs = envs]
      assms(4) by simp_all
  obtain row where "pm_ModelName row = pm_ModelName (models ! i)"
    and row: "validateDiscoveredModels r cfg envs previous now models ! i = probedRow r cfg envs now i row"
    using validation_row [OF assms(1,2) refl refl, where r = r and cfg = cfg and now = now and previous = previous and envs = envs] V
    by auto
  with val have v: "mp_Validated (validateModelViaTransport (envs i) cfg (pm_ModelName row))" by simp
  show "pm_NextVerificationAt (validateDiscoveredModels r cfg envs previous now models ! i) = Some (he_now (envs i) + mr_confirmationTTL r)"
    "pm_Status (validateDiscoveredModels r cfg envs previous now models ! i) = ''ready''"
    "pm_VerificationStatus (validateDiscoveredModels r cfg envs previous now models ! i) = ''confirmed''"
    using assms(3) validated_time [OF v]
    unfolding row by (simp_all add: v probedRow_def applyProbeResult_def markModelConfirmed_def SucceededAtOr_def Let_def)
qed

text \<open>After validation a row is confirmed exactly if its model is available, and only a probe of this refresh makes it so.\<close>

lemma probe_outcome:
  "pm_Status (markModelConfirmed result now ttl m) = ''ready''"
  "pm_VerificationStatus (markModelConfirmed result now ttl m) = ''confirmed''"
  "unconfirmed (markModelFailure result now rc m)"
  by (simp_all add: markModelConfirmed_def markModelFailure_def unconfirmed_def Let_def)

lemma probedRow_confirmed:
  "unconfirmed (probedRow r cfg envs now i row) \<longleftrightarrow> \<not> pm_Available (probedRow r cfg envs now i row)"
  "pm_Available (probedRow r cfg envs now i row) \<Longrightarrow>
     pm_Status (probedRow r cfg envs now i row) = ''ready'' \<and> pm_VerificationStatus (probedRow r cfg envs now i row) = ''confirmed''"
proof -
  have v: "pm_Available (probedRow r cfg envs now i row) \<longleftrightarrow> mp_Validated (validateModelViaTransport (envs i) cfg (pm_ModelName row))"
    by (simp add: probedRow_def)
  show "unconfirmed (probedRow r cfg envs now i row) \<longleftrightarrow> \<not> pm_Available (probedRow r cfg envs now i row)"
    unfolding v by (simp add: probedRow_def applyProbeResult_def Let_def probe_outcome(3))
      (simp add: unconfirmed_def probe_outcome)
  show "pm_Available (probedRow r cfg envs now i row) \<Longrightarrow>
     pm_Status (probedRow r cfg envs now i row) = ''ready'' \<and> pm_VerificationStatus (probedRow r cfg envs now i row) = ''confirmed''"
    unfolding v by (simp add: probedRow_def applyProbeResult_def Let_def probe_outcome)
qed

lemma validated_rows:
  assumes "unavailable models" and "list_all unconfirmed models" and "m \<in> set (validateDiscoveredModels r cfg envs previous now models)"
  shows "unconfirmed m \<longleftrightarrow> \<not> pm_Available m"
    and "pm_Available m \<Longrightarrow> pm_Status m = ''ready'' \<and> pm_VerificationStatus m = ''confirmed''
      \<and> (\<exists>i<length models. pm_ModelName m = pm_ModelName (models ! i) \<and> mp_Validated (validateModelViaTransport (envs i) cfg (pm_ModelName m)))"
proof -
  obtain i where i: "i < length models" and m: "m = validateDiscoveredModels r cfg envs previous now models ! i"
    using assms(3) length_validate [OF assms(1)] by (metis in_set_conv_nth)
  let ?Q = "registrationQueue r cfg now (mergeAll previous now (intSeconds (mr_refreshInterval r)) models)"
  obtain row k where row: "\<not> pm_Available row" "pm_ModelName row = pm_ModelName (models ! i)" "unconfirmed row"
    and eq: "m = (if i \<in> set (upTo (mr_validationLimit r) ?Q) then probedRow r cfg envs now i row
        else if i \<in> set ?Q then markModelQueued now k row else row)"
    unfolding m
    using validation_row [OF assms(1) i refl refl, where r = r and cfg = cfg and now = now and previous = previous and envs = envs]
      assms(2) by blast
  show "unconfirmed m \<longleftrightarrow> \<not> pm_Available m"
    unfolding eq using row by (simp add: probedRow_confirmed(1) marks_unconfirmed)
  assume a: "pm_Available m"
  then have p: "m = probedRow r cfg envs now i row"
    using row unfolding eq by (simp split: if_splits)
  then have "mp_Validated (validateModelViaTransport (envs i) cfg (pm_ModelName m))" "pm_ModelName m = pm_ModelName (models ! i)"
    using a row(2) by (simp_all add: probedRow_def)
  then show "pm_Status m = ''ready'' \<and> pm_VerificationStatus m = ''confirmed''
      \<and> (\<exists>i<length models. pm_ModelName m = pm_ModelName (models ! i) \<and> mp_Validated (validateModelViaTransport (envs i) cfg (pm_ModelName m)))"
    using probedRow_confirmed(2) a i unfolding p by blast
qed

text \<open>A model whose next verification lies ahead is not probed, hence not available.\<close>

lemma not_due_unavailable:
  assumes "unavailable models" and "i < length models"
    and "map_of previous (modelLifecycleKey (pm_ModelName (models ! i))) = Some p"
    and "pm_ModelName p \<noteq> []" and "pm_NextVerificationAt p = Some t" and "now < t"
  shows "\<not> pm_Available (validateDiscoveredModels r cfg envs previous now models ! i)"
proof -
  let ?m = "mergeAll previous now (intSeconds (mr_refreshInterval r)) models"
  have "pm_NextVerificationAt (?m ! i) = Some t"
    using assms(2-5) by (simp add: mergeAll_def mergeProviderLifecycle_def Let_def)
  then have "\<not> mayRegister cfg now (?m ! i)"
    using assms(6) by (simp add: mayRegister_def registrationDue_def)
  then have "i \<notin> set (registrationQueue r cfg now ?m)"
    by (auto simp: registrationQueue_def upTo_def dest: in_set_takeD)
  then show ?thesis
    using validation_available [OF assms(1,2) refl, where r = r and cfg = cfg and now = now and previous = previous and envs = envs] by (auto simp: upTo_def dest: in_set_takeD)
qed

lemma map_of_index:
  assumes "distinct (map (modelLifecycleKey \<circ> pm_ModelName) models)" and "m \<in> set models"
    and "modelLifecycleKey (pm_ModelName m) \<noteq> []"
  shows "map_of (indexProviderModels models) (modelLifecycleKey (pm_ModelName m)) = Some m"
proof -
  let ?step = "\<lambda>model indexed. let key = modelLifecycleKey (pm_ModelName model) in
             if key = [] then indexed else map_set key model indexed"
  have other: "map_of (fold ?step ms acc) k = map_of acc k"
    if "k \<notin> (modelLifecycleKey \<circ> pm_ModelName) ` set ms" for ms acc and k :: string
    using that by (induction ms arbitrary: acc) (auto simp: Let_def)
  have "map_of (fold ?step ms acc) (modelLifecycleKey (pm_ModelName m)) = Some m"
    if "m \<in> set ms" "distinct (map (modelLifecycleKey \<circ> pm_ModelName) ms)" for ms acc
    using that
  proof (induction ms arbitrary: acc)
    case (Cons x xs)
    show ?case
    proof (cases "m = x")
      case True
      then have "modelLifecycleKey (pm_ModelName m) \<notin> (modelLifecycleKey \<circ> pm_ModelName) ` set xs"
        using Cons.prems(2) by auto
      then show ?thesis
        using True assms(3) other [of "modelLifecycleKey (pm_ModelName m)" xs "map_set (modelLifecycleKey (pm_ModelName m)) m acc"]
        by (simp add: Let_def)
    next
      case False
      then show ?thesis using Cons by (simp add: Let_def)
    qed
  qed simp
  then show ?thesis using assms(1,2) by (simp add: indexProviderModels_def)
qed


text \<open>
  A model that a refresh has confirmed is out of use after the next refresh: its confirmation is
  not carried over, and until the confirmation expires it is not probed again.
\<close>

theorem confirmed_models_are_dropped:
  assumes "\<forall>m\<in>set models. \<not> pm_Available m" and "\<forall>m\<in>set models'. \<not> pm_Available m"
    and "distinct (map (modelLifecycleKey \<circ> pm_ModelName) models)" and "mr_confirmationTTL r > 0"
    and "first = validateDiscoveredModels r cfg envs previous t0 models"
    and "i < length models" and "pm_Available (first ! i)"
    and "j < length models'" and "modelLifecycleKey (pm_ModelName (models' ! j)) = modelLifecycleKey (pm_ModelName (models ! i))"
    and "modelLifecycleKey (pm_ModelName (models ! i)) \<noteq> []"
    and "t1 < he_now (envs i) + mr_confirmationTTL r"
  shows "\<not> pm_Available (validateDiscoveredModels r cfg envs' (indexProviderModels first) t1 models' ! j)"
proof -
  have u: "unavailable models" "unavailable models'" using assms(1,2) by (simp_all add: unavailable_def)
  have names: "map pm_ModelName first = map pm_ModelName models"
    unfolding assms(5) by (rule validation_name [OF u(1)])
  then have len: "length first = length models" and name: "pm_ModelName (first ! i) = pm_ModelName (models ! i)"
    using assms(6) by (metis length_map, metis length_map nth_map)
  have "distinct (map (modelLifecycleKey \<circ> pm_ModelName) first)"
    using assms(3) names by (metis map_map)
  then have "map_of (indexProviderModels first) (modelLifecycleKey (pm_ModelName (models' ! j))) = Some (first ! i)"
    using map_of_index [of first "first ! i"] assms(6,9,10) len name by simp
  moreover have "pm_NextVerificationAt (first ! i) = Some (he_now (envs i) + mr_confirmationTTL r)"
    using confirmed_next_probe(1) [OF u(1) assms(6,4)] assms(5,7) by simp
  moreover have "pm_ModelName (first ! i) \<noteq> []"
    using assms(10) name by (auto simp: modelLifecycleKey_def)
  ultimately show ?thesis
    using not_due_unavailable [OF u(2) assms(8)] assms(11) by blast
qed

section \<open>Examples\<close>

definition example_registry :: ProviderModelRegistry where
  "example_registry = \<lparr>mr_configs = [], mr_snapshots = [], mr_refreshInterval = 300 * second, mr_timeout = 20 * second,
     mr_enabled = True, mr_validateModels = True, mr_validationLimit = 12, mr_pendingTTL = 1800 * second,
     mr_confirmationTTL = 21600 * second, mr_retryCooldown = 600 * second, mr_unregisteredQLimit = 64, mr_catalog = None,
     mr_refreshing = False\<rparr>"

definition example_row :: ProviderModelStatus where
  "example_row = zero_ProviderModelStatus\<lparr>pm_ModelName := ''m'', pm_Status := ''verification_pending'',
     pm_VerificationStatus := ''verifying'', pm_InventoryStatus := ''inventory_verified''\<rparr>"

definition example_probe :: probe_env where
  "example_probe = \<lparr>he_now = 1000, he_latencyMS = 3, he_do = (\<lambda>url payload. Inr \<lparr>hr_StatusCode = 200, hr_RequestID = [], hr_Body = ''{}''\<rparr>),
     he_decode = (\<lambda>body. Inr None), he_sprint = (\<lambda>v. []), he_statusText = (\<lambda>c. [])\<rparr>"

definition example_first :: "ProviderModelStatus list" where
  "example_first = validateDiscoveredModels example_registry example_config (\<lambda>_. example_probe) [] 1000 [example_row]"

lemma example_first_available: "pm_Available (example_first ! 0)"
  by code_simp


theorem confirmed_models_are_dropped_witness:
  "pm_Available (example_first ! 0)
   \<and> \<not> pm_Available (validateDiscoveredModels example_registry example_config (\<lambda>_. example_probe)
         (indexProviderModels example_first) (1000 + 300 * second) [example_row] ! 0)"
proof -
  have k: "modelLifecycleKey (pm_ModelName example_row) \<noteq> []" by code_simp
  have "\<not> pm_Available example_row" "mr_confirmationTTL example_registry = 21600 * second" "he_now example_probe = 1000"
    by (simp_all add: example_row_def zero_ProviderModelStatus_def example_registry_def example_probe_def)
  then show ?thesis
    using confirmed_models_are_dropped [where models = "[example_row]" and models' = "[example_row]" and i = 0 and j = 0
        and r = example_registry and first = example_first and cfg = example_config and envs = "\<lambda>_. example_probe"
        and previous = "[]" and ?t0.0 = 1000 and ?t1.0 = "1000 + 300 * second" and envs' = "\<lambda>_. example_probe"]
      example_first_available k by (simp add: example_first_def)
qed

end
