(* ===== verification/ModelInventory.thy ===== *)
theory ModelInventory
  imports ModelLifecycle
begin

text \<open>
  The inventory of a provider, \<open>go-core/internal/kernel/model_registry.go\<close>: the models a provider
  lists, what is inferred from their names, and how two listings are merged; and the registry of
  model capabilities, \<open>model_capabilities_registry.go\<close>. Decoding JSON is a parameter with one
  function per target type. The metadata of a row is its own map: where a listing nests one model
  in another, the code also writes the annotations of the inner one into the metadata of the outer.
\<close>

section \<open>Metadata\<close>

definition boolValueDefault :: "any option \<Rightarrow> bool \<Rightarrow> bool" where
  "boolValueDefault value fallback =
     (case value of
        Some (AnyBool b) \<Rightarrow> b
      | Some (AnyString s) \<Rightarrow>
          (let t = TrimSpace (ToLower s) in
           if t \<in> set [''true'', ''1'', ''yes'', ''y'', ''on''] then True
           else if t \<in> set [''false'', ''0'', ''no'', ''n'', ''off''] then False
           else fallback)
      | _ \<Rightarrow> fallback)"

text \<open>A value that is not a string counts as an empty one.\<close>

definition anyString :: "any option list \<Rightarrow> string" where
  "anyString values = firstNonEmpty (map any_string values)"

definition stringSliceMetadata :: "any option \<Rightarrow> string list" where
  "stringSliceMetadata value =
     (case value of
        Some (AnyStrings ss) \<Rightarrow> ss
      | Some (AnyList vs) \<Rightarrow> filter (\<lambda>t. t \<noteq> []) (map (\<lambda>v. TrimSpace (any_string (Some v))) vs)
      | _ \<Rightarrow> [])"

definition appendUniqueString :: "string list \<Rightarrow> string \<Rightarrow> string list" where
  "appendUniqueString items value =
     (let value = TrimSpace value in
      if value = [] \<or> value \<in> set items then items else sort (items @ [value]))"

section \<open>What a name tells\<close>

definition inferModelFamily :: "string \<Rightarrow> string" where
  "inferModelFamily modelName =
     (let name = ToLower (TrimSpace modelName) in
      if HasPrefix name ''claude-'' then ''claude''
      else if HasPrefix name ''gpt-'' \<or> HasPrefix name ''o1'' \<or> HasPrefix name ''o3'' \<or> HasPrefix name ''o4'' then ''gpt''
      else if HasPrefix name ''gemini-'' then ''gemini''
      else if HasPrefix name ''gemma-'' \<or> HasPrefix name ''gemma'' \<or> Contains name ''gemma'' then ''gemma''
      else if HasPrefix name ''deepseek-'' then ''deepseek''
      else if HasPrefix name ''glm-'' then ''glm''
      else if HasPrefix name ''kimi-'' then ''kimi''
      else if HasPrefix name ''qwen-'' \<or> HasPrefix name ''qwen'' \<or> Contains name ''qwen'' then ''qwen''
      else if HasPrefix name ''mistral-'' \<or> HasPrefix name ''codestral-'' \<or> HasPrefix name ''devstral-''
              \<or> HasPrefix name ''magistral-'' \<or> Contains name ''mistral'' then ''mistral''
      else if HasPrefix name ''llama-'' then ''llama''
      else [])"

definition familyAliases :: "string \<Rightarrow> string list" where
  "familyAliases family =
     (let family = ToLower (TrimSpace family) in
      if family = ''claude'' then [''anthropic''] else if family = ''gpt'' then [''openai''] else [])"

record ModelCapabilities =
  ca_Streaming :: bool
  ca_ToolCalling :: bool
  ca_PatchStreaming :: bool
  ca_TestStreaming :: bool
  ca_LongContext :: bool

definition inferModelCapabilities :: "string \<Rightarrow> ModelCapabilities" where
  "inferModelCapabilities modelName =
     (let name = ToLower (TrimSpace modelName); family = inferModelFamily modelName;
          streaming = (family \<in> set [''claude'', ''gpt'', ''gemini'', ''gemma'', ''deepseek'', ''glm'', ''kimi'', ''qwen'', ''mistral'', ''llama'']);
          coder = list_ex (Contains name) [''coder'', ''codex'', ''codestral'', ''devstral'', ''antigravity'', ''mimo'', ''sol''];
          patch = coder \<or> (streaming \<and> family \<in> set [''mistral'', ''deepseek'', ''qwen'', ''gemma'', ''llama''])
      in \<lparr>ca_Streaming = streaming,
          ca_ToolCalling = (family \<in> set [''claude'', ''gpt'', ''gemini'', ''deepseek'', ''glm'', ''kimi'', ''qwen'', ''mistral'']),
          ca_PatchStreaming = patch, ca_TestStreaming = patch,
          ca_LongContext = (family \<in> set [''claude'', ''gpt'', ''gemini''])\<rparr>)"

definition modelCapabilitiesFromMetadata :: "string \<Rightarrow> go_map \<Rightarrow> ModelCapabilities" where
  "modelCapabilitiesFromMetadata modelName metadata =
     (let caps = inferModelCapabilities modelName
      in \<lparr>ca_Streaming = boolValueDefault (map_of metadata ''streaming'') (ca_Streaming caps),
          ca_ToolCalling = boolValueDefault (map_of metadata ''tool_calling'') (ca_ToolCalling caps),
          ca_PatchStreaming = boolValueDefault (map_of metadata ''patch_streaming'') (ca_PatchStreaming caps),
          ca_TestStreaming = boolValueDefault (map_of metadata ''test_streaming'') (ca_TestStreaming caps),
          ca_LongContext = boolValueDefault (map_of metadata ''long_context'') (ca_LongContext caps)\<rparr>)"

definition annotateFamily :: "string \<Rightarrow> go_map \<Rightarrow> go_map" where
  "annotateFamily family metadata =
     (if family = [] then metadata
      else
        let metadata = map_set ''resource_pool'' (AnyString family) (map_set ''model_family'' (AnyString family) metadata);
            aliases = familyAliases family;
            metadata = (if aliases \<noteq> [] then map_set ''family_aliases'' (AnyStrings aliases) metadata else metadata)
        in map_set ''resource_pools'' (AnyStrings (fold (\<lambda>a pools. appendUniqueString pools a) aliases [family])) metadata)"

definition annotateProviderModelMetadata :: "string \<Rightarrow> go_map \<Rightarrow> go_map" where
  "annotateProviderModelMetadata modelName metadata =
     (let metadata = annotateFamily (inferModelFamily modelName) metadata;
          caps = modelCapabilitiesFromMetadata modelName metadata;
          put = (\<lambda>key value m. map_set key (AnyBool (boolValueDefault (map_of m key) value)) m)
      in put ''long_context'' (ca_LongContext caps) (put ''test_streaming'' (ca_TestStreaming caps)
           (put ''patch_streaming'' (ca_PatchStreaming caps) (put ''tool_calling'' (ca_ToolCalling caps)
             (put ''streaming'' (ca_Streaming caps) metadata)))))"

section \<open>Reading an inventory\<close>

definition inventoryRow :: "string \<Rightarrow> time \<Rightarrow> string \<Rightarrow> go_map \<Rightarrow> ProviderModelStatus" where
  "inventoryRow provider now name raw =
     (let disabled = (map_of raw ''disabled'' = Some (AnyBool True))
      in zero_ProviderModelStatus\<lparr>pm_Provider := provider, pm_ModelName := name, pm_Available := False,
           pm_Status := (if disabled then ''disabled'' else ''verification_pending''),
           pm_Reason := (if disabled then ''provider reported model as disabled''
                         else ''model discovered in provider inventory and awaiting transport verification''),
           pm_InventoryStatus := ''inventory_verified'',
           pm_TransportStatus := (if disabled then ''transport_unavailable'' else ''transport_pending''),
           pm_VerificationStatus := (if disabled then ''unconfirmed'' else ''verifying''),
           pm_ObservedAt := now, pm_Metadata := annotateProviderModelMetadata name raw\<rparr>)"

definition appendModel :: "string \<Rightarrow> time \<Rightarrow> string \<Rightarrow> go_map \<Rightarrow> ProviderModelStatus list \<Rightarrow> ProviderModelStatus list" where
  "appendModel provider now name raw rows =
     (let name = TrimSpace name in
      if name = [] \<or> list_ex (\<lambda>row. EqualFold (pm_ModelName row) name) rows then rows
      else rows @ [inventoryRow provider now name raw])"

definition itemName :: "go_map \<Rightarrow> string" where
  "itemName item = anyString [map_of item ''id'', map_of item ''name'', map_of item ''model'']"

text \<open>The search of a document of any shape: every map with a name is a model, and so are the maps inside it.\<close>

fun collectProviderModels :: "string \<Rightarrow> time \<Rightarrow> any \<Rightarrow> ProviderModelStatus list \<Rightarrow> ProviderModelStatus list"
  and collectEntries :: "string \<Rightarrow> time \<Rightarrow> (string \<times> any) list \<Rightarrow> ProviderModelStatus list \<Rightarrow> ProviderModelStatus list"
  and collectItems :: "string \<Rightarrow> time \<Rightarrow> any list \<Rightarrow> ProviderModelStatus list \<Rightarrow> ProviderModelStatus list" where
  "collectProviderModels provider now (AnyMap m) rows =
     (let name = anyString [map_of m ''id'', map_of m ''name'', map_of m ''model'', map_of m ''slug''];
          rows = (if name \<noteq> [] then appendModel provider now name m rows else rows)
      in collectEntries provider now m rows)"
| "collectProviderModels provider now (AnyList vs) rows = collectItems provider now vs rows"
| "collectProviderModels provider now _ rows = rows"
| "collectEntries provider now [] rows = rows"
| "collectEntries provider now ((k, v) # m) rows = collectEntries provider now m (collectProviderModels provider now v rows)"
| "collectItems provider now [] rows = rows"
| "collectItems provider now (v # vs) rows = collectItems provider now vs (collectProviderModels provider now v rows)"

definition displayVariants :: "ProviderModelStatus \<Rightarrow> ProviderModelStatus" where
  "displayVariants row =
     (let levels = stringSliceMetadata (map_of (pm_Metadata row) ''supported_reasoning_levels'');
          variants = map (\<lambda>level.
            AnyMap [(''id'', AnyString (pm_ModelName row @ '' '' @ level)), (''display_name'', AnyString (pm_ModelName row @ '' '' @ level)),
                    (''routing_model'', AnyString (pm_ModelName row)), (''reasoning_level'', AnyString level)])
            (filter (\<lambda>level. level \<noteq> []) (map TrimSpace levels))
      in if variants = [] then row
         else row\<lparr>pm_Metadata := map_set ''display_variants'' (AnyList variants) (pm_Metadata row)\<rparr>)"

definition appendDisplayVariants :: "ProviderModelStatus list \<Rightarrow> ProviderModelStatus list" where
  "appendDisplayVariants rows = map displayVariants rows"

text \<open>
  The three decodings that are tried: an object with the fields \<open>data\<close> and \<open>models\<close>, a list of
  objects, any value (whose failure is the error that is reported).
\<close>

record json_decoders =
  jd_wrapped :: "string \<Rightarrow> (go_map list \<times> go_map list) option"
  jd_list :: "string \<Rightarrow> go_map list option"
  jd_any :: "string \<Rightarrow> string + any"

definition appendItems :: "string \<Rightarrow> time \<Rightarrow> go_map list \<Rightarrow> ProviderModelStatus list \<Rightarrow> ProviderModelStatus list" where
  "appendItems provider now items rows = fold (\<lambda>item. appendModel provider now (itemName item) item) items rows"

definition sortRows :: "ProviderModelStatus list \<Rightarrow> ProviderModelStatus list" where
  "sortRows rows = sort_key pm_ModelName rows"

definition parseProviderModels :: "json_decoders \<Rightarrow> time \<Rightarrow> string \<Rightarrow> string \<Rightarrow> string + ProviderModelStatus list" where
  "parseProviderModels jd now provider body =
     (let rows = (case jd_wrapped jd body of
                    None \<Rightarrow> []
                  | Some (datas, models) \<Rightarrow> appendItems provider now models (appendItems provider now datas [])) in
      if rows \<noteq> [] then Inr (sortRows (appendDisplayVariants rows))
      else
        case jd_list jd body of
          Some items \<Rightarrow> Inr (sortRows (appendDisplayVariants (appendItems provider now items [])))
        | None \<Rightarrow>
            (case jd_any jd body of
               Inl err \<Rightarrow> Inl err
             | Inr raw \<Rightarrow> Inr (sortRows (appendDisplayVariants (collectProviderModels provider now raw [])))))"

section \<open>Sources\<close>

record inventorySource =
  is_name :: string
  is_url :: string
  is_optional :: bool

text \<open>An error of a source: of the request, of its status, or of the parser, which has another type.\<close>

datatype inventory_error = RequestFailed string | StatusFailed int string | ParseFailed string

definition inventoryErrorText :: "inventorySource \<Rightarrow> inventory_error \<Rightarrow> string" where
  "inventoryErrorText source err =
     (case err of
        RequestFailed cause \<Rightarrow> is_name source @ '' inventory request failed: '' @ cause
      | StatusFailed _ message \<Rightarrow>
          if TrimSpace message \<noteq> [] then is_name source @ '' inventory request failed: '' @ message
          else is_name source @ '' inventory request failed''
      | ParseFailed e \<Rightarrow> is_name source @ '' inventory parse failed: '' @ e)"

definition looksLikeNotFoundMessage :: "string \<Rightarrow> bool" where
  "looksLikeNotFoundMessage reason \<longleftrightarrow>
     (let n = ToLower (TrimSpace reason); q = [CHR 0x22] in
      n \<noteq> [] \<and>
      (Contains n (q @ ''code'' @ q @ '':'' @ q @ ''not_found'' @ q)
       \<or> (Contains n (q @ ''type'' @ q @ '':'' @ q @ ''invalid_request_error'' @ q) \<and> Contains n ''not found'')
       \<or> Contains n '' not found''))"

definition shouldIgnoreInventorySourceError :: "inventorySource \<Rightarrow> inventory_error \<Rightarrow> bool \<Rightarrow> bool" where
  "shouldIgnoreInventorySourceError source err haveModels =
     (if \<not> is_optional source \<or> \<not> haveModels then False
      else case err of
             ParseFailed _ \<Rightarrow> False
           | RequestFailed _ \<Rightarrow> looksLikeNotFoundMessage []
           | StatusFailed code message \<Rightarrow> code = 404 \<or> looksLikeNotFoundMessage message)"

definition fetchProviderModelsFromSource ::
  "json_decoders \<Rightarrow> (int \<Rightarrow> string) \<Rightarrow> (string \<Rightarrow> string + HTTPResponse) \<Rightarrow> time \<Rightarrow> string \<Rightarrow> inventorySource
   \<Rightarrow> inventory_error + ProviderModelStatus list" where
  "fetchProviderModelsFromSource jd statusText get now provider source =
     (case get (is_url source) of
        Inl err \<Rightarrow> Inl (RequestFailed err)
      | Inr response \<Rightarrow>
          if hr_StatusCode response < 200 \<or> hr_StatusCode response \<ge> 300 then
            let msg = TrimSpace (hr_Body response)
            in Inl (StatusFailed (hr_StatusCode response) (if msg = [] then statusText (hr_StatusCode response) else msg))
          else
            case parseProviderModels jd now provider (hr_Body response) of
              Inl err \<Rightarrow> Inl (ParseFailed err)
            | Inr rows \<Rightarrow> Inr (map (setMeta ''inventory_source'' (is_name source)) rows))"

definition mergeProviderModelStatus :: "ProviderModelStatus \<Rightarrow> ProviderModelStatus \<Rightarrow> string \<Rightarrow> ProviderModelStatus" where
  "mergeProviderModelStatus left right source =
     (let metadata = fillMetadata (pm_Metadata right) (pm_Metadata left)
      in left\<lparr>pm_Available := pm_Available left \<or> pm_Available right, pm_IsDefault := pm_IsDefault left \<or> pm_IsDefault right,
              pm_Metadata := map_set ''inventory_sources''
                (AnyStrings (appendUniqueString (stringSliceMetadata (map_of metadata ''inventory_sources'')) source)) metadata\<rparr>)"

text \<open>
  A row joins the merged list, or the row of the same name that is there. The index \<open>seen\<close> of the
  code is the position of the first row with the same key.
\<close>

definition rowKey :: "ProviderModelStatus \<Rightarrow> string" where
  "rowKey row = ToLower (TrimSpace (pm_ModelName row))"

fun mergeRow :: "string \<Rightarrow> ProviderModelStatus \<Rightarrow> ProviderModelStatus list \<Rightarrow> ProviderModelStatus list" where
  "mergeRow source row [] =
     [row\<lparr>pm_Metadata := map_set ''inventory_sources'' (AnyStrings [source])
            (map_set ''inventory_source'' (AnyString source) (pm_Metadata row))\<rparr>]"
| "mergeRow source row (r # rs) =
     (if rowKey r = rowKey row then mergeProviderModelStatus r row source # rs else r # mergeRow source row rs)"

definition fetchOne ::
  "json_decoders \<Rightarrow> (int \<Rightarrow> string) \<Rightarrow> (string \<Rightarrow> string + HTTPResponse) \<Rightarrow> time \<Rightarrow> string \<Rightarrow> inventorySource
   \<Rightarrow> ProviderModelStatus list \<times> string list \<Rightarrow> ProviderModelStatus list \<times> string list" where
  "fetchOne jd statusText get now provider source me =
     (case fetchProviderModelsFromSource jd statusText get now provider source of
        Inl err \<Rightarrow>
          if shouldIgnoreInventorySourceError source err (fst me \<noteq> []) then me
          else (fst me, snd me @ [inventoryErrorText source err])
      | Inr rows \<Rightarrow> (fold (mergeRow (is_name source)) rows (fst me), snd me))"

definition inventorySources :: "OpenAICompatibleConfig \<Rightarrow> inventorySource list" where
  "inventorySources cfg =
     (let codexURL = TrimSpace (CodexURL cfg)
      in \<lparr>is_name = ''models'', is_url = ModelsURL cfg, is_optional = False\<rparr>
         # (if codexURL \<noteq> [] \<and> codexURL \<noteq> ModelsURL cfg
            then [\<lparr>is_name = ''codex'', is_url = codexURL, is_optional = True\<rparr>] else []))"

definition fetchProviderModels ::
  "json_decoders \<Rightarrow> (int \<Rightarrow> string) \<Rightarrow> (string \<Rightarrow> string + HTTPResponse) \<Rightarrow> time \<Rightarrow> string \<Rightarrow> OpenAICompatibleConfig
   \<Rightarrow> ProviderModelStatus list \<times> string list" where
  "fetchProviderModels jd statusText get now provider cfg =
     (let (merged, errs) = fold (fetchOne jd statusText get now provider) (inventorySources cfg) ([], [])
      in (sortRows merged, errs))"

section \<open>What an inventory looks like\<close>

definition rows_ok :: "ProviderModelStatus list \<Rightarrow> bool" where
  "rows_ok rows \<longleftrightarrow> distinct (map rowKey rows)
     \<and> (\<forall>row\<in>set rows. \<not> pm_Available row \<and> unconfirmed row \<and> pm_ModelName row \<noteq> [] \<and> TrimSpace (pm_ModelName row) = pm_ModelName row)"

lemma inventoryRow_simps [simp]:
  "pm_ModelName (inventoryRow provider now name raw) = name" "\<not> pm_Available (inventoryRow provider now name raw)"
  "unconfirmed (inventoryRow provider now name raw)"
  by (simp_all add: inventoryRow_def Let_def zero_ProviderModelStatus_def unconfirmed_def)

lemma appendModel_ok:
  assumes "rows_ok rows"
  shows "rows_ok (appendModel provider now name raw rows)"
proof (cases "TrimSpace name = [] \<or> list_ex (\<lambda>row. EqualFold (pm_ModelName row) (TrimSpace name)) rows")
  case True
  then show ?thesis using assms by (simp add: appendModel_def Let_def)
next
  case False
  then have "ToLower (TrimSpace (pm_ModelName row)) \<noteq> ToLower (TrimSpace name)" if "row \<in> set rows" for row
    using that assms by (auto simp: rows_ok_def list_ex_iff EqualFold_def)
  then show ?thesis
    using assms False by (auto simp: appendModel_def rows_ok_def rowKey_def Let_def) metis
qed

lemma appendItems_ok: "rows_ok rows \<Longrightarrow> rows_ok (appendItems provider now items rows)"
  unfolding appendItems_def by (induction items arbitrary: rows) (simp_all add: appendModel_ok)

lemma collect_ok:
  "rows_ok rows \<Longrightarrow> rows_ok (collectProviderModels provider now v rows)"
  "rows_ok rows \<Longrightarrow> rows_ok (collectEntries provider now m rows)"
  "rows_ok rows \<Longrightarrow> rows_ok (collectItems provider now vs rows)"
  by (induction provider now v rows and provider now m rows and provider now vs rows
      rule: collectProviderModels_collectEntries_collectItems.induct) (simp_all add: Let_def appendModel_ok)

lemma displayVariants_simps [simp]:
  "pm_ModelName (displayVariants row) = pm_ModelName row" "pm_Available (displayVariants row) = pm_Available row"
  "unconfirmed (displayVariants row) = unconfirmed row" "rowKey (displayVariants row) = rowKey row"
  by (simp_all add: displayVariants_def rowKey_def unconfirmed_def Let_def)

lemma display_ok: "rows_ok rows \<Longrightarrow> rows_ok (appendDisplayVariants rows)"
  by (auto simp: rows_ok_def appendDisplayVariants_def comp_def)

lemma distinct_map_sort_key: "distinct (map f (sort_key g xs)) = distinct (map f xs)"
proof -
  have "mset (map f (sort_key g xs)) = mset (map f xs)" by simp
  then show ?thesis by (metis mset_eq_imp_distinct_iff)
qed

lemma sortRows_ok: "rows_ok (sortRows rows) = rows_ok rows"
  by (simp add: rows_ok_def sortRows_def distinct_map_sort_key)

lemma rows_ok_Nil [simp]: "rows_ok []"
  by (simp add: rows_ok_def)

lemma parse_ok:
  assumes "parseProviderModels jd now provider body = Inr rows"
  shows "rows_ok rows"
proof -
  let ?w = "case jd_wrapped jd body of None \<Rightarrow> []
    | Some (datas, models) \<Rightarrow> appendItems provider now models (appendItems provider now datas [])"
  have "rows_ok ?w" by (simp add: appendItems_ok split: option.split)
  then show ?thesis
    using assms unfolding parseProviderModels_def Let_def
    by (auto simp: sortRows_ok display_ok appendItems_ok collect_ok split: if_splits option.splits sum.splits)
qed

lemma setMeta_row [simp]: "rowKey (setMeta k v m) = rowKey m"
  by (simp add: setMeta_def rowKey_def)

lemma source_ok:
  assumes "fetchProviderModelsFromSource jd statusText get now provider source = Inr rows"
  shows "rows_ok rows"
  using assms unfolding fetchProviderModelsFromSource_def Let_def
  by (auto simp: rows_ok_def comp_def dest!: parse_ok split: sum.splits if_splits)

lemma unconfirmed_metadata [simp]:
  "unconfirmed (m\<lparr>pm_Metadata := md\<rparr>) = unconfirmed m" "unconfirmed (mergeProviderModelStatus left right source) = unconfirmed left"
  by (simp_all add: unconfirmed_def mergeProviderModelStatus_def Let_def)

lemma mergeRow_keys: "set (map rowKey (mergeRow source row rs)) = insert (rowKey row) (set (map rowKey rs))"
  by (induction rs) (auto simp: mergeProviderModelStatus_def rowKey_def Let_def)

lemma mergeRow_ok:
  assumes "rows_ok rs" and "rows_ok [row]"
  shows "rows_ok (mergeRow source row rs)"
  using assms
proof (induction rs)
  case Nil
  then show ?case by (simp add: rows_ok_def)
next
  case (Cons r rs)
  have "rowKey (mergeProviderModelStatus r row source) = rowKey r"
    by (simp add: rowKey_def mergeProviderModelStatus_def Let_def)
  moreover have "rows_ok rs" using Cons.prems by (simp add: rows_ok_def)
  ultimately show ?case
    using Cons.prems Cons.IH mergeRow_keys [of source row rs]
    by (auto simp: rows_ok_def mergeProviderModelStatus_def Let_def unconfirmed_def)
qed

lemma fold_mergeRow_ok:
  "rows_ok rs \<Longrightarrow> rows_ok rows \<Longrightarrow> rows_ok (fold (mergeRow source) rows rs)"
proof (induction rows arbitrary: rs)
  case (Cons row rows)
  have "rows_ok [row]" "rows_ok rows" using Cons.prems by (simp_all add: rows_ok_def)
  then show ?case using Cons.IH [OF mergeRow_ok] Cons.prems(1) by simp
qed simp

lemma fetchOne_ok:
  "rows_ok (fst me) \<Longrightarrow> rows_ok (fst (fetchOne jd statusText get now provider source me))"
  by (auto simp: fetchOne_def fold_mergeRow_ok dest: source_ok split: sum.split)

lemma fetched_rows_ok: "rows_ok (fst (fetchProviderModels jd statusText get now provider cfg))"
proof -
  have "rows_ok (fst (fold (fetchOne jd statusText get now provider) sources me))" if "rows_ok (fst me)" for sources me
    using that by (induction sources arbitrary: me) (simp_all add: fetchOne_ok)
  then show ?thesis by (simp add: fetchProviderModels_def sortRows_ok split_beta)
qed

text \<open>C35. 
  Whatever a provider answers, its inventory names each model once, up to case and white space,
  in order, and marks none of them available: availability comes from probes only.
\<close>

theorem inventory_is_well_formed:
  "let rows = fst (fetchProviderModels jd statusText get now provider cfg) in
   distinct (map rowKey rows) \<and> sorted (map pm_ModelName rows)
   \<and> list_all (\<lambda>row. \<not> pm_Available row \<and> pm_ModelName row \<noteq> [] \<and> TrimSpace (pm_ModelName row) = pm_ModelName row) rows"
proof -
  have "sorted (map pm_ModelName (fst (fetchProviderModels jd statusText get now provider cfg)))"
    by (simp add: fetchProviderModels_def sortRows_def split_beta)
  then show ?thesis
    using fetched_rows_ok [of jd statusText get now provider cfg] by (simp add: rows_ok_def Let_def list_all_iff)
qed

section \<open>The registry of capabilities\<close>

definition LookupCapabilities :: "(string \<Rightarrow> ProviderCatalogSnapshot option) option \<Rightarrow> string \<Rightarrow> string \<Rightarrow> ModelCapabilities option" where
  "LookupCapabilities registry provider modelName =
     (let modelName = TrimSpace modelName in
      if modelName = [] then None
      else
        case registry of
          None \<Rightarrow> Some (inferModelCapabilities modelName)
        | Some snapshotOf \<Rightarrow>
            (case snapshotOf provider of
               None \<Rightarrow> Some (inferModelCapabilities modelName)
             | Some snapshot \<Rightarrow>
                 (case find (\<lambda>model. EqualFold (TrimSpace (pm_ModelName model)) modelName) (pc_Models snapshot) of
                    None \<Rightarrow> Some (inferModelCapabilities modelName)
                  | Some model \<Rightarrow> Some (modelCapabilitiesFromMetadata (pm_ModelName model) (pm_Metadata model)))))"

text \<open>
  The annotations of an inventory row agree with the registry of capabilities: looking a listed
  model up gives the capabilities that were written into its metadata.
\<close>

lemma boolValueDefault_simps [simp]:
  "boolValueDefault (Some (AnyBool b)) d = b" "boolValueDefault v (boolValueDefault v d) = boolValueDefault v d"
  by (simp_all add: boolValueDefault_def Let_def split: option.split any.split)

lemma annotate_capabilities:
  "modelCapabilitiesFromMetadata name (annotateProviderModelMetadata name raw) =
   modelCapabilitiesFromMetadata name (annotateFamily (inferModelFamily name) raw)"
  by (simp add: annotateProviderModelMetadata_def modelCapabilitiesFromMetadata_def Let_def)

end
