(* ===== verification/ModelRegistry.thy ===== *)
theory ModelRegistry
  imports RuntimeManager ModelInventory
begin

text \<open>
  The registry of provider models, \<open>go-core/internal/kernel/model_registry.go\<close>: a snapshot per
  provider, refreshed from the inventory and the probes of its models. What a refresh observes of
  the outside is a record: the inventory requests, the probes by the position of the model, the
  environment, URL parsing and the faults of the catalogue file. The goroutines of a refresh read the
  old snapshots and touch disjoint entries of the catalogue; they run one after the other here, in
  any order.
\<close>

section \<open>Environment of a refresh\<close>

record fetch_env =
  fe_decoders :: json_decoders
  fe_statusText :: "int \<Rightarrow> string"
  fe_get :: "string \<Rightarrow> string + HTTPResponse"
  fe_probes :: "nat \<Rightarrow> probe_env"
  fe_hostname :: "string \<Rightarrow> string option"
  fe_getenv :: "string \<Rightarrow> string"
  fe_mkdirFault :: "string option"
  fe_fault :: io_fault

definition placeholderEndpoint :: "(string \<Rightarrow> string option) \<Rightarrow> string \<Rightarrow> bool" where
  "placeholderEndpoint hostname raw =
     (let trimmed = TrimSpace raw in
      if trimmed = [] then False
      else case hostname trimmed of
             None \<Rightarrow> False
           | Some h \<Rightarrow>
               let host = ToLower (TrimSpace h) in
               if host = [] then False
               else host = ''example'' \<or> HasSuffix host ''.example'' \<or> Contains host ''.example.'')"

definition placeholderEndpointConfigured :: "(string \<Rightarrow> string option) \<Rightarrow> string list \<Rightarrow> bool" where
  "placeholderEndpointConfigured hostname endpoints = list_ex (placeholderEndpoint hostname) endpoints"

definition registryTransportMode :: "OpenAICompatibleConfig \<Rightarrow> RuntimeTransportMode" where
  "registryTransportMode cfg =
     (if cf_NativeStreaming cfg then RuntimeTransportNativeStream
      else if cf_AllowPseudoRealtime cfg then RuntimeTransportPseudoRealtime
      else RuntimeTransportBuffered)"

definition registryMaxParallelRequests :: "(string \<Rightarrow> string) \<Rightarrow> int" where
  "registryMaxParallelRequests getenv =
     (let value = registryEnvInt getenv 0 [''GO_CORE_PROVIDER_MAX_CONCURRENT'', ''AI_BRIDGE_PROVIDER_MAX_CONCURRENT'']
      in if value > 0 then value
         else registryEnvInt getenv 1 [''GO_CORE_MAX_CONCURRENT_PER_MODEL'', ''AI_BRIDGE_MAX_CONCURRENT_PER_MODEL''])"

definition providerRuntimeCapabilitiesFromConfig ::
  "(string \<Rightarrow> string) \<Rightarrow> OpenAICompatibleConfig \<Rightarrow> bool \<Rightarrow> time \<Rightarrow> ProviderRuntimeCapabilities" where
  "providerRuntimeCapabilitiesFromConfig getenv cfg isConnected observedAt =
     (let streaming = cf_NativeStreaming cfg \<or> cf_AllowPseudoRealtime cfg
      in \<lparr>rc_Connected = isConnected, rc_NativeStreaming = cf_NativeStreaming cfg, rc_ToolStreaming = streaming,
          rc_PatchStreaming = streaming, rc_TestStreaming = streaming,
          rc_MaxParallelRequests = registryMaxParallelRequests getenv, rc_SupportsCancellation = True,
          rc_TransportMode = registryTransportMode cfg, rc_ObservedAt = observedAt\<rparr>)"

section \<open>The snapshot of a provider\<close>

fun aggregateModelError :: "ProviderModelStatus list \<Rightarrow> string \<Rightarrow> string" where
  "aggregateModelError [] fallback = fallback"
| "aggregateModelError (model # models) fallback =
     (let message = (case pm_LastError model of None \<Rightarrow> [] | Some e \<Rightarrow> xe_Message e) in
      if TrimSpace message \<noteq> [] then pm_ModelName model @ '': '' @ message
      else if TrimSpace (pm_Reason model) \<noteq> [] then pm_ModelName model @ '': '' @ pm_Reason model
      else aggregateModelError models fallback)"

definition aggregateSourceErrors :: "string list \<Rightarrow> string \<Rightarrow> string" where
  "aggregateSourceErrors errors fallback = (if errors = [] then fallback else join_with ''; '' errors)"

definition emptySnapshot :: "fetch_env \<Rightarrow> ProviderModelRegistry \<Rightarrow> time \<Rightarrow> string \<Rightarrow> OpenAICompatibleConfig \<Rightarrow> ProviderCatalogSnapshot" where
  "emptySnapshot env r now provider cfg =
     \<lparr>pc_Provider = provider, pc_ProviderID = EffectiveProviderID cfg, pc_Configured = Configured cfg, pc_Available = False,
      pc_Status = ''not_configured'', pc_BaseURL = sanitizedURL (cf_BaseURL cfg), pc_ModelsEndpoint = sanitizedURL (ModelsURL cfg),
      pc_ChatCompletionsEndpoint = sanitizedURL (ChatCompletionsURL cfg), pc_ResponsesEndpoint = sanitizedURL (ResponsesURL cfg),
      pc_MessagesEndpoint = sanitizedURL (MessagesURL cfg), pc_MessagesCountTokensEndpoint = sanitizedURL (MessagesCountTokensURL cfg),
      pc_CodexEndpoint = sanitizedURL (CodexURL cfg), pc_DefaultModel = cf_DefaultModel cfg, pc_Models = [], pc_Error = [],
      pc_ObservedAt = now, pc_RefreshIntervalSec = intSeconds (mr_refreshInterval r),
      pc_RuntimeCapabilities = Some (providerRuntimeCapabilitiesFromConfig (fe_getenv env) cfg False now)\<rparr>"

definition syntheticDefault :: "ProviderModelRegistry \<Rightarrow> time \<Rightarrow> string \<Rightarrow> OpenAICompatibleConfig \<Rightarrow> ProviderModelStatus" where
  "syntheticDefault r now provider cfg =
     zero_ProviderModelStatus\<lparr>pm_Provider := provider, pm_ModelName := cf_DefaultModel cfg, pm_Available := False,
       pm_Status := ''verification_pending'',
       pm_Reason := ''configured default model requires direct transport verification because provider inventory is unavailable'',
       pm_InventoryStatus := ''inventory_unavailable'', pm_TransportStatus := ''transport_pending'',
       pm_VerificationStatus := ''verifying'', pm_ObservedAt := now, pm_IsDefault := True,
       pm_VerificationIntervalSec := intSeconds (mr_refreshInterval r),
       pm_Metadata := annotateProviderModelMetadata (cf_DefaultModel cfg) [(''synthetic_inventory'', AnyBool True)]\<rparr>"

definition missingDefault :: "ProviderModelRegistry \<Rightarrow> time \<Rightarrow> string \<Rightarrow> OpenAICompatibleConfig \<Rightarrow> ProviderModelStatus" where
  "missingDefault r now provider cfg =
     zero_ProviderModelStatus\<lparr>pm_Provider := provider, pm_ModelName := cf_DefaultModel cfg, pm_Available := False,
       pm_Status := ''missing'', pm_Reason := ''configured default model is not present in provider inventory'',
       pm_InventoryStatus := ''inventory_missing'', pm_TransportStatus := ''transport_unavailable'',
       pm_VerificationStatus := ''unconfirmed'', pm_ObservedAt := now, pm_IsDefault := True,
       pm_VerificationIntervalSec := intSeconds (mr_refreshInterval r),
       pm_Metadata := annotateProviderModelMetadata (cf_DefaultModel cfg) []\<rparr>"

definition isDefaultModel :: "OpenAICompatibleConfig \<Rightarrow> ProviderModelStatus \<Rightarrow> bool" where
  "isDefaultModel cfg model = EqualFold (pm_ModelName model) (cf_DefaultModel cfg)"

definition withDefaultModel ::
  "ProviderModelRegistry \<Rightarrow> time \<Rightarrow> string \<Rightarrow> OpenAICompatibleConfig \<Rightarrow> ProviderModelStatus list \<Rightarrow> ProviderModelStatus list" where
  "withDefaultModel r now provider cfg models =
     (let defaultFound = list_ex (isDefaultModel cfg) models;
          models = map (\<lambda>model. if isDefaultModel cfg model then model\<lparr>pm_IsDefault := True\<rparr> else model) models
      in if \<not> defaultFound \<and> TrimSpace (cf_DefaultModel cfg) \<noteq> [] then missingDefault r now provider cfg # models else models)"

definition countStatus :: "string list \<Rightarrow> ProviderModelStatus list \<Rightarrow> nat" where
  "countStatus statuses models = length (filter (\<lambda>model. TrimSpace (pm_VerificationStatus model) \<in> set statuses) models)"

text \<open>The status of a provider from the states of its models and the errors of its sources.\<close>

definition judgeSnapshot :: "ProviderModelStatus list \<Rightarrow> string list \<Rightarrow> ProviderCatalogSnapshot \<Rightarrow> ProviderCatalogSnapshot" where
  "judgeSnapshot models sourceErrors snapshot =
     (let confirmedCount = countStatus [''confirmed''] models; pendingCount = countStatus [''verifying''] models;
          inapplicableCount = countStatus [''skipped''] models;
          failedCount = length models - confirmedCount - pendingCount - inapplicableCount;
          snapshot = snapshot\<lparr>pc_Available := confirmedCount > 0\<rparr> in
      if confirmedCount > 0 \<and> (pendingCount > 0 \<or> failedCount > 0 \<or> sourceErrors \<noteq> []) then
        snapshot\<lparr>pc_Status := ''degraded'', pc_Error := aggregateSourceErrors sourceErrors
          (aggregateModelError models ''one or more models are degraded or still verifying'')\<rparr>
      else if confirmedCount > 0 then snapshot\<lparr>pc_Status := ''ready''\<rparr>
      else if pendingCount > 0 then
        snapshot\<lparr>pc_Status := ''verifying'', pc_Error := aggregateSourceErrors sourceErrors
          (aggregateModelError models ''provider inventory discovered models that are still verifying'')\<rparr>
      else if inapplicableCount > 0 \<and> failedCount = 0 \<and> sourceErrors = [] then
        snapshot\<lparr>pc_Status := ''unavailable'', pc_Error := aggregateModelError models
          ''provider inventory does not contain models compatible with the configured validation transport''\<rparr>
      else
        snapshot\<lparr>pc_Status := ''unavailable'', pc_Error := aggregateSourceErrors sourceErrors
          (aggregateModelError models ''no confirmed models are available'')\<rparr>)"

definition SnapshotOf :: "ProviderModelRegistry \<Rightarrow> string \<Rightarrow> ProviderCatalogSnapshot option" where
  "SnapshotOf r provider = map_of (mr_snapshots r) (ToLower (TrimSpace provider))"

text \<open>The models of a provider after validation, and after the catalogue has filtered them.\<close>

definition validatedModels ::
  "fetch_env \<Rightarrow> ProviderModelRegistry \<Rightarrow> time \<Rightarrow> string \<Rightarrow> OpenAICompatibleConfig \<Rightarrow> ProviderModelStatus list \<Rightarrow> ProviderModelStatus list" where
  "validatedModels env r now provider cfg models =
     (if shouldValidateProvider r cfg \<and> models \<noteq> [] then
        let previous = (case SnapshotOf r provider of None \<Rightarrow> [] | Some s \<Rightarrow> indexProviderModels (pc_Models s))
        in validateDiscoveredModels r cfg (fe_probes env) previous now models
      else models)"

definition throughCatalog ::
  "fetch_env \<Rightarrow> string \<Rightarrow> ProviderModelStatus list \<Rightarrow> modelCatalog option \<times> files
   \<Rightarrow> ProviderModelStatus list \<times> modelCatalog option \<times> files" where
  "throughCatalog env provider models cf =
     (case fst cf of
        None \<Rightarrow> (models, cf)
      | Some c \<Rightarrow>
          let models = catalogFilter c provider models;
              (err, c', fls) = syncProvider (fe_mkdirFault env) (fe_fault env) provider models (c, snd cf)
          in (models, Some c', fls))"

definition fetchProviderSnapshot ::
  "fetch_env \<Rightarrow> ProviderModelRegistry \<Rightarrow> time \<Rightarrow> string \<Rightarrow> OpenAICompatibleConfig \<Rightarrow> modelCatalog option \<times> files
   \<Rightarrow> ProviderCatalogSnapshot \<times> modelCatalog option \<times> files" where
  "fetchProviderSnapshot env r now provider cfg cf =
     (let snapshot = emptySnapshot env r now provider cfg in
      if \<not> Configured cfg then
        (snapshot\<lparr>pc_Error := ''provider credentials or endpoint are not configured''\<rparr>, cf)
      else if placeholderEndpointConfigured (fe_hostname env)
                [cf_BaseURL cfg, ModelsURL cfg, ChatCompletionsURL cfg, ResponsesURL cfg, MessagesURL cfg, CodexURL cfg] then
        (snapshot\<lparr>pc_Error := ''provider endpoint uses a placeholder host and must be replaced with a real upstream URL''\<rparr>, cf)
      else
        let (fetched, sourceErrors) = fetchProviderModels (fe_decoders env) (fe_statusText env) (fe_get env) now provider cfg;
            models = (if fetched = [] \<and> TrimSpace (cf_DefaultModel cfg) \<noteq> [] then [syntheticDefault r now provider cfg] else fetched) in
        if models = [] then
          (snapshot\<lparr>pc_Status := ''unavailable'',
                    pc_Error := aggregateSourceErrors sourceErrors ''provider returned an empty model inventory''\<rparr>, cf)
        else
          let models = validatedModels env r now provider cfg (withDefaultModel r now provider cfg models);
              (models, cf) = throughCatalog env provider models cf
          in (judgeSnapshot models sourceErrors
                (snapshot\<lparr>pc_Models := models,
                          pc_RuntimeCapabilities := Some (providerRuntimeCapabilitiesFromConfig (fe_getenv env) cfg True now)\<rparr>), cf))"

section \<open>The registry\<close>

definition NewProviderModelRegistry ::
  "(string \<Rightarrow> string) \<Rightarrow> read_fault \<Rightarrow> files \<Rightarrow> provider_configs \<Rightarrow> ProviderModelRegistry" where
  "NewProviderModelRegistry getenv fault fls configs =
     \<lparr>mr_configs = fold (\<lambda>(key, cfg). map_set (ToLower (TrimSpace key)) cfg) configs [],
      mr_snapshots = [],
      mr_refreshInterval = registryEnvDuration getenv (300 * second)
        [''AI_BRIDGE_MODEL_REFRESH_INTERVAL'', ''GO_CORE_MODEL_REGISTRY_REFRESH_INTERVAL''],
      mr_timeout = registryEnvDuration getenv (20 * second) [''AI_BRIDGE_MODEL_REFRESH_TIMEOUT'', ''GO_CORE_MODEL_REGISTRY_TIMEOUT''],
      mr_enabled = registryEnvBool getenv True [''AI_BRIDGE_MODEL_REFRESH_ENABLED'', ''GO_CORE_MODEL_REGISTRY_ENABLED''],
      mr_validateModels = registryEnvBool getenv True [''AI_BRIDGE_MODEL_VALIDATE_MODELS''],
      mr_validationLimit = registryEnvInt getenv 12 [''AI_BRIDGE_MODEL_VALIDATE_LIMIT''],
      mr_pendingTTL = registryEnvDuration getenv (1800 * second)
        [''AI_BRIDGE_MODEL_PENDING_TTL'', ''GO_CORE_MODEL_REGISTRY_PENDING_TTL''],
      mr_confirmationTTL = registryEnvDuration getenv (21600 * second)
        [''AI_BRIDGE_MODEL_CONFIRMATION_TTL'', ''GO_CORE_MODEL_REGISTRY_CONFIRMATION_TTL''],
      mr_retryCooldown = registryEnvDuration getenv (600 * second)
        [''AI_BRIDGE_MODEL_RETRY_COOLDOWN'', ''GO_CORE_MODEL_REGISTRY_RETRY_COOLDOWN''],
      mr_unregisteredQLimit = registryEnvInt getenv 64
        [''AI_BRIDGE_MODEL_QUEUE_LIMIT'', ''GO_CORE_MODEL_REGISTRY_QUEUE_LIMIT''],
      mr_catalog = (case loadModelCatalog fault fls (firstNonEmptyString
                       [getenv ''GO_CORE_MODEL_CATALOG_PATH'', getenv ''AI_BRIDGE_MODEL_CATALOG_PATH'']) of
                      Inl _ \<Rightarrow> None | Inr c \<Rightarrow> Some c),
      mr_refreshing = False\<rparr>"

definition Snapshots :: "ProviderModelRegistry \<Rightarrow> ProviderCatalogSnapshot list" where
  "Snapshots r = sort_key pc_Provider (map snd (mr_snapshots r))"

definition HealthyModels :: "ProviderModelRegistry \<Rightarrow> time \<Rightarrow> string \<Rightarrow> ProviderModelStatus list" where
  "HealthyModels r now provider =
     (case SnapshotOf r provider of
        None \<Rightarrow> []
      | Some snapshot \<Rightarrow>
          if \<not> providerSnapshotRoutingUsable snapshot now then []
          else filter providerModelRoutingReady (pc_Models snapshot))"

definition refreshTTL :: "ProviderModelRegistry \<Rightarrow> duration" where
  "refreshTTL r =
     (let ttl = (if mr_refreshInterval r \<le> 0 then 300 * second else mr_refreshInterval r)
      in if ttl < 60 * second then 60 * second else ttl)"

definition needsRefreshLocked :: "ProviderModelRegistry \<Rightarrow> time \<Rightarrow> bool" where
  "needsRefreshLocked r now =
     list_ex (\<lambda>(provider, _).
       case map_of (mr_snapshots r) provider of
         None \<Rightarrow> True
       | Some snapshot \<Rightarrow> pc_ObservedAt snapshot = zero_time \<or> now - pc_ObservedAt snapshot \<ge> refreshTTL r) (mr_configs r)"

definition beginRefresh :: "bool \<Rightarrow> time \<Rightarrow> ProviderModelRegistry \<Rightarrow> bool \<times> ProviderModelRegistry" where
  "beginRefresh force now r =
     (if mr_refreshing r then (False, r)
      else if \<not> force \<and> \<not> needsRefreshLocked r now then (False, r)
      else (True, r\<lparr>mr_refreshing := True\<rparr>))"

definition finishRefresh :: "ProviderModelRegistry \<Rightarrow> ProviderModelRegistry" where
  "finishRefresh r = r\<lparr>mr_refreshing := False\<rparr>"

text \<open>The snapshots of all configured providers, taken from the state before the refresh.\<close>

fun fetchAll ::
  "(string \<Rightarrow> fetch_env) \<Rightarrow> ProviderModelRegistry \<Rightarrow> time \<Rightarrow> provider_configs \<Rightarrow> modelCatalog option \<times> files
   \<Rightarrow> ProviderCatalogSnapshot list \<times> modelCatalog option \<times> files" where
  "fetchAll envs r now [] cf = ([], cf)"
| "fetchAll envs r now ((provider, cfg) # configs) cf =
     (let (snapshot, cf) = fetchProviderSnapshot (envs provider) r now provider cfg cf;
          (snapshots, cf) = fetchAll envs r now configs cf
      in (snapshot # snapshots, cf))"

definition refreshSnapshots ::
  "(string \<Rightarrow> fetch_env) \<Rightarrow> time \<Rightarrow> ProviderModelRegistry \<times> files \<Rightarrow> ProviderModelRegistry \<times> files" where
  "refreshSnapshots envs now rf =
     (let r = fst rf; (snapshots, catalog, fls) = fetchAll envs r now (mr_configs r) (mr_catalog r, snd rf)
      in (r\<lparr>mr_snapshots := fold (\<lambda>s. map_set (pc_Provider s) s) snapshots (mr_snapshots r), mr_catalog := catalog\<rparr>, fls))"

definition RefreshWith ::
  "bool \<Rightarrow> (string \<Rightarrow> fetch_env) \<Rightarrow> time \<Rightarrow> ProviderModelRegistry \<times> files \<Rightarrow> ProviderModelRegistry \<times> files" where
  "RefreshWith force envs now rf =
     (case beginRefresh force now (fst rf) of
        (False, _) \<Rightarrow> rf
      | (True, r) \<Rightarrow> (let (r', fls) = refreshSnapshots envs now (r, snd rf) in (finishRefresh r', fls)))"

definition Refresh where
  "Refresh = RefreshWith True"

definition RefreshIfStale where
  "RefreshIfStale = RefreshWith False"

section \<open>What a snapshot says\<close>

lemma withDefault_rows:
  assumes "unavailable models" and "list_all unconfirmed models"
  shows "unavailable (withDefaultModel r now provider cfg models)" and "list_all unconfirmed (withDefaultModel r now provider cfg models)"
  using assms by (auto simp: unavailable_def withDefaultModel_def missingDefault_def zero_ProviderModelStatus_def unconfirmed_def list_all_iff Let_def)

lemma syntheticDefault_row: "\<not> pm_Available (syntheticDefault r now provider cfg)" "unconfirmed (syntheticDefault r now provider cfg)"
  by (simp_all add: syntheticDefault_def zero_ProviderModelStatus_def unconfirmed_def)

text \<open>A row of a snapshot is confirmed only by a probe of its own refresh.\<close>

definition row_ok :: "fetch_env \<Rightarrow> OpenAICompatibleConfig \<Rightarrow> ProviderModelStatus \<Rightarrow> bool" where
  "row_ok env cfg m \<longleftrightarrow> (unconfirmed m \<longleftrightarrow> \<not> pm_Available m)
     \<and> (pm_Available m \<longrightarrow> pm_Status m = ''ready'' \<and> pm_VerificationStatus m = ''confirmed''
          \<and> (\<exists>i. mp_Validated (validateModelViaTransport (fe_probes env i) cfg (pm_ModelName m))))"

lemma validatedModels_rows:
  assumes "unavailable models" and "list_all unconfirmed models"
  shows "list_all (row_ok env cfg) (validatedModels env r now provider cfg models)"
proof (cases "shouldValidateProvider r cfg \<and> models \<noteq> []")
  case True
  then show ?thesis
    using validated_rows [OF assms] by (simp add: validatedModels_def list_all_iff row_ok_def Let_def) blast
next
  case False
  then show ?thesis using assms by (auto simp: validatedModels_def list_all_iff row_ok_def unavailable_def)
qed

lemma throughCatalog_rows: "set (fst (throughCatalog env provider models cf)) \<subseteq> set models"
  by (auto simp: throughCatalog_def catalogFilter_def Let_def split: option.splits prod.splits if_splits)

lemma countStatus_Nil [simp]: "countStatus ss [] = 0"
  by (simp add: countStatus_def)

lemma judgeSnapshot_fields [simp]:
  "pc_Models (judgeSnapshot models errs snap) = pc_Models snap" "pc_Provider (judgeSnapshot models errs snap) = pc_Provider snap"
  "pc_ObservedAt (judgeSnapshot models errs snap) = pc_ObservedAt snap"
  "pc_RefreshIntervalSec (judgeSnapshot models errs snap) = pc_RefreshIntervalSec snap"
  "pc_Available (judgeSnapshot models errs snap) \<longleftrightarrow> countStatus [''confirmed''] models > 0"
  by (simp_all add: judgeSnapshot_def Let_def)

lemma emptySnapshot_fields [simp]:
  "pc_Models (emptySnapshot env r now provider cfg) = []" "pc_Provider (emptySnapshot env r now provider cfg) = provider"
  "pc_ObservedAt (emptySnapshot env r now provider cfg) = now" "\<not> pc_Available (emptySnapshot env r now provider cfg)"
  "pc_RefreshIntervalSec (emptySnapshot env r now provider cfg) = intSeconds (mr_refreshInterval r)"
  by (simp_all add: emptySnapshot_def)

lemma countStatus_confirmed: "countStatus [''confirmed''] models > 0 \<longleftrightarrow> (\<exists>m\<in>set models. \<not> unconfirmed m)"
  by (auto simp: countStatus_def unconfirmed_def filter_empty_conv)

definition snapshot_ok :: "fetch_env \<Rightarrow> OpenAICompatibleConfig \<Rightarrow> ProviderCatalogSnapshot \<Rightarrow> bool" where
  "snapshot_ok env cfg snap \<longleftrightarrow> list_all (row_ok env cfg) (pc_Models snap)
     \<and> (pc_Available snap \<longleftrightarrow> (\<exists>m\<in>set (pc_Models snap). \<not> unconfirmed m))"

lemma fetchProviderSnapshot_ok:
  "snapshot_ok env cfg (fst (fetchProviderSnapshot env r now provider cfg cf))"
  "pc_Provider (fst (fetchProviderSnapshot env r now provider cfg cf)) = provider"
  "pc_ObservedAt (fst (fetchProviderSnapshot env r now provider cfg cf)) = now"
  "pc_RefreshIntervalSec (fst (fetchProviderSnapshot env r now provider cfg cf)) = intSeconds (mr_refreshInterval r)"
proof -
  define f where "f = fetchProviderModels (fe_decoders env) (fe_statusText env) (fe_get env) now provider cfg"
  define models where "models = (if fst f = [] \<and> TrimSpace (cf_DefaultModel cfg) \<noteq> [] then [syntheticDefault r now provider cfg] else fst f)"
  have "rows_ok (fst f)" unfolding f_def by (rule fetched_rows_ok)
  then have m: "unavailable models" "list_all unconfirmed models"
    using syntheticDefault_row by (auto simp: models_def unavailable_def rows_ok_def list_all_iff)
  define t where "t = throughCatalog env provider (validatedModels env r now provider cfg (withDefaultModel r now provider cfg models)) cf"
  have "list_all (row_ok env cfg) (fst t)"
    using validatedModels_rows [OF withDefault_rows [OF m]] throughCatalog_rows unfolding t_def list_all_iff by blast
  then show "snapshot_ok env cfg (fst (fetchProviderSnapshot env r now provider cfg cf))"
    "pc_Provider (fst (fetchProviderSnapshot env r now provider cfg cf)) = provider"
    "pc_ObservedAt (fst (fetchProviderSnapshot env r now provider cfg cf)) = now"
    "pc_RefreshIntervalSec (fst (fetchProviderSnapshot env r now provider cfg cf)) = intSeconds (mr_refreshInterval r)"
    unfolding fetchProviderSnapshot_def Let_def f_def [symmetric] split_beta models_def [symmetric] t_def [symmetric]
    by (simp_all add: snapshot_ok_def countStatus_confirmed)
qed

lemma routing_ready_row: "row_ok env cfg m \<Longrightarrow> providerModelRoutingReady m \<longleftrightarrow> \<not> unconfirmed m"
proof -
  have "EqualFold (TrimSpace ''ready'') ''ready''" "EqualFold (TrimSpace ''confirmed'') ''confirmed''" by code_simp+
  then show "row_ok env cfg m \<Longrightarrow> providerModelRoutingReady m \<longleftrightarrow> \<not> unconfirmed m"
    by (auto simp: row_ok_def providerModelRoutingReady_def)
qed

section \<open>Refreshing\<close>

lemma map_of_fold_map_set:
  assumes "distinct (map key xs)" and "x \<in> set xs"
  shows "map_of (fold (\<lambda>x. map_set (key x) x) xs m) (key x) = Some x"
proof -
  have other: "map_of (fold (\<lambda>x. map_set (key x) x) ys m) k = map_of m k" if "k \<notin> key ` set ys" for ys m k
    using that by (induction ys arbitrary: m) auto
  show ?thesis
    using assms
  proof (induction xs arbitrary: m)
    case (Cons y ys)
    then show ?case using other [of "key x" ys "map_set (key x) x m"] by (cases "x = y") auto
  qed simp
qed

lemma fetchAll_Cons:
  "fst (fetchAll envs r now ((p, cfg) # configs) cf) =
     fst (fetchProviderSnapshot (envs p) r now p cfg cf) #
     fst (fetchAll envs r now configs (snd (fetchProviderSnapshot (envs p) r now p cfg cf)))"
  by (simp add: Let_def split_beta)

lemma fetchAll_providers: "map pc_Provider (fst (fetchAll envs r now configs cf)) = map fst configs"
proof (induction configs arbitrary: cf)
  case (Cons c configs)
  then show ?case by (cases c) (simp add: fetchAll_Cons fetchProviderSnapshot_ok del: fetchAll.simps(2))
qed simp

lemma fetchAll_snapshots:
  "(p, cfg) \<in> set configs \<Longrightarrow>
     \<exists>cf'. fst (fetchProviderSnapshot (envs p) r now p cfg cf') \<in> set (fst (fetchAll envs r now configs cf))"
proof (induction configs arbitrary: cf)
  case (Cons c configs)
  obtain p' cfg' where c: "c = (p', cfg')" by (cases c)
  show ?case
  proof (cases "(p', cfg') = (p, cfg)")
    case True
    then show ?thesis
      by (intro exI [of _ cf]) (simp add: c fetchAll_Cons del: fetchAll.simps(2))
  next
    case False
    then have "(p, cfg) \<in> set configs" using Cons.prems by (auto simp: c)
    from Cons.IH [OF this, of "snd (fetchProviderSnapshot (envs p') r now p' cfg' cf)"]
    obtain cf' where "fst (fetchProviderSnapshot (envs p) r now p cfg cf')
        \<in> set (fst (fetchAll envs r now configs (snd (fetchProviderSnapshot (envs p') r now p' cfg' cf))))" ..
    then show ?thesis
      by (intro exI [of _ cf']) (simp add: c fetchAll_Cons del: fetchAll.simps(2))
  qed
qed simp

lemma refreshed_snapshot:
  assumes "distinct (map fst (mr_configs r))" and "(p, cfg) \<in> set (mr_configs r)"
  shows "\<exists>cf'. map_of (mr_snapshots (fst (refreshSnapshots envs now (r, fls)))) p =
    Some (fst (fetchProviderSnapshot (envs p) r now p cfg cf'))"
proof -
  let ?ss = "fst (fetchAll envs r now (mr_configs r) (mr_catalog r, fls))"
  have d: "distinct (map pc_Provider ?ss)" using assms(1) by (simp add: fetchAll_providers)
  obtain cf' where "fst (fetchProviderSnapshot (envs p) r now p cfg cf') \<in> set ?ss"
    using fetchAll_snapshots [OF assms(2)] by blast
  then have "map_of (fold (\<lambda>s. map_set (pc_Provider s) s) ?ss (mr_snapshots r)) p = Some (fst (fetchProviderSnapshot (envs p) r now p cfg cf'))"
    using map_of_fold_map_set [OF d, of "fst (fetchProviderSnapshot (envs p) r now p cfg cf')"]
    by (simp add: fetchProviderSnapshot_ok(2))
  then show ?thesis
    by (intro exI [of _ cf']) (simp add: refreshSnapshots_def Let_def split_beta)
qed

text \<open>The interval in whole seconds loses less than a second, which the double waiting time makes up for.\<close>

definition usableTTL :: "int \<Rightarrow> duration" where
  "usableTTL sec =
     (let ttl = sec * second; ttl = (if ttl \<le> 0 then 300 * second else ttl) in if ttl < 60 * second then 60 * second else ttl)"

lemma refreshTTL_usable: "refreshTTL r \<le> 2 * usableTTL (intSeconds (mr_refreshInterval r))"
proof (cases "mr_refreshInterval r \<le> 0")
  case True
  then have "intSeconds (mr_refreshInterval r) \<le> 0"
    by (simp add: intSeconds_def pos_imp_zdiv_nonneg_iff)
  then show ?thesis using True by (simp add: refreshTTL_def usableTTL_def Let_def)
next
  case False
  define q where "q = mr_refreshInterval r div second"
  have "mr_refreshInterval r < (q + 1) * second" "q \<ge> 0"
    using False unfolding q_def by (simp_all add: pos_imp_zdiv_nonneg_iff)
  moreover have "intSeconds (mr_refreshInterval r) = q" using False by (simp add: intSeconds_def q_def)
  ultimately show ?thesis using False by (simp add: refreshTTL_def usableTTL_def Let_def)
qed

lemma usable_snapshot:
  "pc_ObservedAt snapshot \<noteq> zero_time \<Longrightarrow>
     providerSnapshotRoutingUsable snapshot t \<longleftrightarrow> t \<le> pc_ObservedAt snapshot + 2 * usableTTL (pc_RefreshIntervalSec snapshot)"
  by (simp add: providerSnapshotRoutingUsable_def usableTTL_def Let_def not_less)

lemma Refresh_unfold:
  assumes "\<not> mr_refreshing r"
  shows "Refresh envs now (r, fls) = (let rf = refreshSnapshots envs now (r\<lparr>mr_refreshing := True\<rparr>, fls) in (finishRefresh (fst rf), snd rf))"
  using assms by (simp add: Refresh_def RefreshWith_def beginRefresh_def Let_def split_beta)

lemma refreshSnapshots_keeps [simp]:
  "mr_configs (fst (refreshSnapshots envs now rf)) = mr_configs (fst rf)"
  "mr_refreshInterval (fst (refreshSnapshots envs now rf)) = mr_refreshInterval (fst rf)"
  by (simp_all add: refreshSnapshots_def Let_def split_beta)

lemma Refresh_snapshot:
  assumes "\<not> mr_refreshing r" and "distinct (map fst (mr_configs r))" and "(p, cfg) \<in> set (mr_configs r)"
  shows "\<exists>snap. map_of (mr_snapshots (fst (Refresh envs now (r, fls)))) p = Some snap
    \<and> snapshot_ok (envs p) cfg snap \<and> pc_ObservedAt snap = now \<and> pc_RefreshIntervalSec snap = intSeconds (mr_refreshInterval r)"
proof -
  let ?r = "r\<lparr>mr_refreshing := True\<rparr>"
  obtain cf' where "map_of (mr_snapshots (fst (refreshSnapshots envs now (?r, fls)))) p =
      Some (fst (fetchProviderSnapshot (envs p) ?r now p cfg cf'))"
    using refreshed_snapshot [of ?r p cfg envs now fls] assms(2,3) by auto
  then show ?thesis
    unfolding Refresh_unfold [OF assms(1)] Let_def
    by (intro exI [of _ "fst (fetchProviderSnapshot (envs p) ?r now p cfg cf')"]) (simp add: finishRefresh_def fetchProviderSnapshot_ok)
qed

text \<open>
  Routing rests on probes only: a model the registry offers after a refresh answered a probe of that
  very refresh without error, and the provider is reported available exactly if it has such a model.
\<close>

theorem healthy_models_were_probed:
  assumes "\<not> mr_refreshing r" and "distinct (map fst (mr_configs r))"
    and "(ToLower (TrimSpace provider), cfg) \<in> set (mr_configs r)"
    and "r' = fst (Refresh envs now (r, fls))"
  shows "\<exists>snap. SnapshotOf r' provider = Some snap
    \<and> (pc_Available snap \<longleftrightarrow> (\<exists>m\<in>set (pc_Models snap). providerModelRoutingReady m))
    \<and> (\<forall>m\<in>set (HealthyModels r' t provider).
         \<exists>i. mp_Validated (validateModelViaTransport (fe_probes (envs (ToLower (TrimSpace provider))) i) cfg (pm_ModelName m)))"
proof -
  let ?p = "ToLower (TrimSpace provider)"
  obtain snap where s: "map_of (mr_snapshots r') ?p = Some snap" "snapshot_ok (envs ?p) cfg snap"
    using Refresh_snapshot [OF assms(1-3)] assms(4) by blast
  have ready: "providerModelRoutingReady m \<longleftrightarrow> \<not> unconfirmed m" "\<not> unconfirmed m \<Longrightarrow> pm_Available m"
    "pm_Available m \<Longrightarrow> \<exists>i. mp_Validated (validateModelViaTransport (fe_probes (envs ?p) i) cfg (pm_ModelName m))"
    if "m \<in> set (pc_Models snap)" for m
    using that s(2) routing_ready_row [of "envs ?p" cfg m] by (auto simp: snapshot_ok_def list_all_iff row_ok_def)
  then have "pc_Available snap \<longleftrightarrow> (\<exists>m\<in>set (pc_Models snap). providerModelRoutingReady m)"
    using s(2) by (auto simp: snapshot_ok_def)
  then show ?thesis
    using s(1) ready by (auto simp: SnapshotOf_def HealthyModels_def)
qed

text \<open>
  After a refresh the registry is fresh: every configured provider has a snapshot, a refresh on
  demand does nothing until the refresh interval (one minute at least) has passed, and the models
  stay in use for twice that long.
\<close>

theorem refreshed_registry_is_fresh:
  assumes "\<not> mr_refreshing r" and "distinct (map fst (mr_configs r))" and "now \<noteq> zero_time"
    and "(r', fls') = Refresh envs now (r, fls)" and "t < now + refreshTTL r"
  shows "RefreshIfStale envs' t (r', fls') = (r', fls')
    \<and> (\<forall>(p, cfg)\<in>set (mr_configs r'). \<exists>snap. map_of (mr_snapshots r') p = Some snap \<and> providerSnapshotRoutingUsable snap t)"
proof -
  have r': "r' = fst (Refresh envs now (r, fls))" using assms(4) by (metis fst_conv)
  have cfg: "mr_configs r' = mr_configs r" "\<not> mr_refreshing r'" "refreshTTL r' = refreshTTL r"
    unfolding r' Refresh_unfold [OF assms(1)] Let_def by (simp_all add: finishRefresh_def refreshTTL_def)
  note ttl = refreshTTL_usable [of r]
  have snap: "\<exists>snap. map_of (mr_snapshots r') p = Some snap \<and> pc_ObservedAt snap = now \<and> providerSnapshotRoutingUsable snap t"
    if pc: "(p, cfg) \<in> set (mr_configs r)" for p cfg
  proof -
    obtain snap where s: "map_of (mr_snapshots r') p = Some snap" "pc_ObservedAt snap = now"
        "pc_RefreshIntervalSec snap = intSeconds (mr_refreshInterval r)"
      using Refresh_snapshot [OF assms(1,2) pc] r' by blast
    have "providerSnapshotRoutingUsable snap t"
      using ttl assms(3,5) s(2,3) by (simp add: usable_snapshot)
    with s show ?thesis by blast
  qed
  then have "\<not> needsRefreshLocked r' t"
    using assms(3,5) cfg by (fastforce simp: needsRefreshLocked_def list_ex_iff)
  then show ?thesis
    using snap cfg by (fastforce simp: RefreshIfStale_def RefreshWith_def beginRefresh_def)
qed

section \<open>Examples\<close>

definition example_env :: fetch_env where
  "example_env = \<lparr>fe_decoders = \<lparr>jd_wrapped = (\<lambda>_. Some ([[(''id'', AnyString ''m'')]], [])), jd_list = (\<lambda>_. None), jd_any = (\<lambda>_. Inl [])\<rparr>,
     fe_statusText = (\<lambda>_. []), fe_get = (\<lambda>_. Inr \<lparr>hr_StatusCode = 200, hr_RequestID = [], hr_Body = ''{}''\<rparr>),
     fe_probes = (\<lambda>_. example_probe), fe_hostname = (\<lambda>_. None), fe_getenv = (\<lambda>_. []), fe_mkdirFault = None, fe_fault = NoFault\<rparr>"

definition example_models :: ProviderModelRegistry where
  "example_models = example_registry\<lparr>mr_configs := [(''p'', example_config)]\<rparr>"

definition example_refreshed :: "ProviderModelRegistry \<times> files" where
  "example_refreshed = Refresh (\<lambda>_. example_env) 1000 (example_models, \<lambda>_. None)"

lemma example_models_fields:
  "\<not> mr_refreshing example_models" "mr_configs example_models = [(''p'', example_config)]"
  "refreshTTL example_models = 300 * second"
  by (simp_all add: example_models_def example_registry_def refreshTTL_def Let_def)

theorem healthy_models_were_probed_witness:
  "\<exists>snap. SnapshotOf (fst example_refreshed) ''p'' = Some snap
     \<and> (pc_Available snap \<longleftrightarrow> (\<exists>m\<in>set (pc_Models snap). providerModelRoutingReady m))"
proof -
  have "ToLower (TrimSpace ''p'') = ''p''" by code_simp
  then show ?thesis
    using healthy_models_were_probed [OF example_models_fields(1), where provider = "''p''" and cfg = example_config
        and envs = "\<lambda>_. example_env" and now = 1000 and fls = "\<lambda>_. None" and r' = "fst example_refreshed"]
    by (simp add: example_models_fields example_refreshed_def) blast
qed

theorem refreshed_registry_is_fresh_witness:
  "RefreshIfStale (\<lambda>_. example_env) 2000 example_refreshed = example_refreshed"
  using refreshed_registry_is_fresh [OF example_models_fields(1), where now = 1000 and t = 2000 and envs = "\<lambda>_. example_env"
      and envs' = "\<lambda>_. example_env" and fls = "\<lambda>_. None" and r' = "fst example_refreshed" and fls' = "snd example_refreshed"]
  by (simp add: example_models_fields example_refreshed_def)

end
