(* ===== verification/ModelSelector.thy ===== *)
theory ModelSelector
  imports ModelRegistry Planner
begin

text \<open>
  The choice of a model for a task, \<open>go-core/internal/kernel/model_selector.go\<close>: the risk and the
  complexity of the task, the policy they lead to, and the score of each healthy model of the
  providers the policy names. The route memory and the retriever are optional functions, as their
  interfaces are; a search that fails is an \<open>Inl\<close>. Parsing a decimal number is a parameter.
\<close>

section \<open>Data\<close>

definition modelQwenCoder :: string where
  "modelQwenCoder = ''gemma4-12b-agentic-fable5:q4_k_m''"

definition modelLocalSmall :: string where
  "modelLocalSmall = ''gemma4-12b-agentic-fable5:q4_k_m''"

definition modelOpenAIHigh :: string where
  "modelOpenAIHigh = ''gpt-5.5''"

definition modelMistral :: string where
  "modelMistral = ''mistral-large-latest''"

definition baseHighRiskKeywords :: "string list" where
  "baseHighRiskKeywords = [''security'', ''auth'', ''rbac'', ''payment'', ''secret'', ''production'', ''migration'', ''destructive'']"

definition permissionContextKeywords :: "string list" where
  "permissionContextKeywords =
     [''auth'', ''authorization'', ''role'', ''rbac'', ''admin'', ''security'', ''token'', ''database'', ''migration'', ''tenant'']"

definition lowRiskPermissionExemptions :: "string list" where
  "lowRiskPermissionExemptions =
     [''permissions-sync-fix'', ''permission docs cleanup'', ''permission ui label'', ''permission comments'', ''permission formatting'']"

record RiskEvaluation =
  re_DetectedKeywords :: "string list"
  re_MatchedHighRiskRules :: "string list"
  re_MatchedLowRiskExemptions :: "string list"
  re_HighRisk :: bool

record RouteSearchResult =
  sr_Record :: RouteMemoryRecord
  sr_Similarity :: rat

record RetrievalKPI =
  kp_Tier :: string
  kp_CandidateCount :: int
  kp_PackedCount :: int
  kp_BestKeywordHits :: int
  kp_BestScore :: rat
  kp_BestTermOverlap :: rat
  kp_CoverageRatio :: rat
  kp_TruncationRatio :: rat
  kp_ApproxLatencyHint :: string

record ModelSelector =
  se_registry :: "ProviderModelRegistry option"
  se_routeMemory :: "(Task \<Rightarrow> int \<Rightarrow> string + RouteSearchResult list) option"
  se_retriever :: "(Task \<Rightarrow> int \<Rightarrow> string + RetrievalKPI) option"

record modelSelectionPolicy =
  po_targetProvider :: string
  po_targetModel :: string
  po_providers :: "string list"
  po_families :: "string list"
  po_models :: "string list"
  po_reason :: string
  po_cloudRequired :: bool
  po_requiresSecondaryReview :: bool

section \<open>Strings and values\<close>

definition containsAny :: "string \<Rightarrow> string list \<Rightarrow> bool" where
  "containsAny text keywords = list_ex (Contains text) keywords"

definition appendIfMissingPreserveOrder :: "string list \<Rightarrow> string \<Rightarrow> string list" where
  "appendIfMissingPreserveOrder items value =
     (let value = TrimSpace value in
      if value = [] \<or> list_ex (\<lambda>item. EqualFold item value) items then items else items @ [value])"

definition dedupeStrings :: "string list \<Rightarrow> string list" where
  "dedupeStrings items = fold (\<lambda>item out. appendIfMissingPreserveOrder out item) items []"

definition dedupeTaskTypes :: "TaskType list \<Rightarrow> TaskType list" where
  "dedupeTaskTypes values = fold (\<lambda>v result. if v \<in> set result then result else result @ [v]) values []"

definition boolValue :: "any option \<Rightarrow> bool" where
  "boolValue value =
     (case value of Some (AnyBool b) \<Rightarrow> b | Some (AnyString s) \<Rightarrow> ParseBool (TrimSpace s) = Some True | _ \<Rightarrow> False)"

definition stringValue :: "any option \<Rightarrow> string" where
  "stringValue value =
     (case value of
        None \<Rightarrow> []
      | Some AnyNil \<Rightarrow> []
      | Some (AnyString s) \<Rightarrow> s
      | Some v \<Rightarrow> if boolValue (Some v) then ''true'' else ''false'')"

definition stringSliceValue :: "any option \<Rightarrow> string list" where
  "stringSliceValue value =
     (case value of
        Some (AnyStrings ss) \<Rightarrow> ss
      | Some (AnyList vs) \<Rightarrow> filter (\<lambda>t. t \<noteq> []) (map (\<lambda>v. stringValue (Some v)) vs)
      | _ \<Rightarrow> [])"

definition intValue :: "any option \<Rightarrow> int" where
  "intValue value =
     (case value of
        Some (AnyInt i) \<Rightarrow> i
      | Some (AnyFloat f) \<Rightarrow> if f < 0 then \<lceil>f\<rceil> else \<lfloor>f\<rfloor>
      | Some (AnyString s) \<Rightarrow> (case Atoi (TrimSpace s) of Some i \<Rightarrow> i | None \<Rightarrow> 0)
      | _ \<Rightarrow> 0)"

definition float64Value :: "(string \<Rightarrow> rat option) \<Rightarrow> any option \<Rightarrow> rat" where
  "float64Value parseFloat value =
     (case value of
        Some (AnyFloat f) \<Rightarrow> f
      | Some (AnyInt i) \<Rightarrow> of_int i
      | Some (AnyString s) \<Rightarrow> (case parseFloat (TrimSpace s) of Some f \<Rightarrow> f | None \<Rightarrow> 0)
      | _ \<Rightarrow> 0)"

definition clampRat :: "rat \<Rightarrow> rat \<Rightarrow> rat \<Rightarrow> rat" where
  "clampRat value minValue maxValue = (if value < minValue then minValue else if value > maxValue then maxValue else value)"

definition maxFloat :: "rat \<Rightarrow> rat \<Rightarrow> rat" where
  "maxFloat left right = (if left \<ge> right then left else right)"

section \<open>Risk and complexity\<close>

definition EvaluateRiskContext :: "string \<Rightarrow> RiskEvaluation" where
  "EvaluateRiskContext text =
     (let text = ToLower (TrimSpace text);
          rules = filter (Contains text) baseHighRiskKeywords;
          permissionContext = containsAny text permissionContextKeywords;
          exemptions = (if permissionContext then filter (Contains text) lowRiskPermissionExemptions else [])
      in \<lparr>re_DetectedKeywords = rules, re_MatchedHighRiskRules = rules, re_MatchedLowRiskExemptions = exemptions,
          re_HighRisk = (rules \<noteq> [] \<and> exemptions = [])\<rparr>)"

definition Classify :: "Task \<Rightarrow> Complexity" where
  "Classify task =
     (if t_Complexity task \<noteq> ComplexityOther [] then t_Complexity task
      else
        let text = taskText task; risk = EvaluateRiskContext text; files = length (compactStrings (ti_Files (t_Input task))) in
        if t_Priority task = PriorityCritical \<or> re_HighRisk risk then ComplexityCritical
        else if t_Priority task = PriorityHigh
                \<or> (t_Type task \<in> {TaskTypePlan, TaskTypeReview} \<and> containsAny text [''architecture'', ''distributed'', ''debugging''])
        then ComplexityHigh
        else if re_MatchedLowRiskExemptions risk \<noteq> [] \<and> t_Type task \<in> {TaskTypeDocs, TaskTypeFix} \<and> files \<le> 2 \<and> length text < 120
        then ComplexityLow
        else if t_Type task \<in> {TaskTypeCode, TaskTypeTest, TaskTypeFix, TaskTypeDocs, TaskTypeResearch} \<or> files > 2
        then ComplexityMedium
        else ComplexityLow)"

definition shouldEscalateToCloud :: "Task \<Rightarrow> Complexity \<Rightarrow> RiskEvaluation \<Rightarrow> bool" where
  "shouldEscalateToCloud task complexity risk \<longleftrightarrow>
     complexity = ComplexityCritical \<or> complexity = ComplexityHigh \<or> t_Priority task = PriorityCritical \<or> re_HighRisk risk"

section \<open>Policies\<close>

definition preferredCloudProvider :: "(string \<Rightarrow> string) \<Rightarrow> ModelSelector \<Rightarrow> string" where
  "preferredCloudProvider getenv s =
     (case se_registry s of None \<Rightarrow> ''openai'' | Some r \<Rightarrow> PreferredCloudProvider getenv (mr_configs r))"

definition orderByPath :: "(string \<Rightarrow> string) \<Rightarrow> ModelSelector \<Rightarrow> string \<Rightarrow> string list" where
  "orderByPath getenv s path =
     (case map_of
        [(''cloud'', [preferredCloudProvider getenv s, ''codexsale'', ''openai'', ''mistral'', ''mimo'', ''antigravity'', ''ai_kernel'', ''local'']),
         (''code'', [''ai_kernel'', ''local'', ''antigravity'', ''codexsale'', ''openai'', ''mistral'', ''mimo'']),
         (''analysis'', [''mistral'', ''codexsale'', ''openai'', ''mimo'', ''antigravity'', ''ai_kernel'', ''local'']),
         (''docs'', [''ai_kernel'', ''local'', ''mistral'', ''mimo'', ''antigravity'', ''codexsale'', ''openai'']),
         (''research'', [''mistral'', ''mimo'', ''codexsale'', ''openai'', ''antigravity'', ''ai_kernel'', ''local'']),
         (''default'', [''local'', ''ai_kernel'', ''mistral'', ''codexsale'', ''openai'', ''mimo'', ''antigravity''])] path of
        None \<Rightarrow> [] | Some order \<Rightarrow> order)"

definition providerPreference :: "(string \<Rightarrow> string) \<Rightarrow> ModelSelector \<Rightarrow> string \<Rightarrow> string list" where
  "providerPreference getenv s path =
     (let ordered = orderByPath getenv s path;
          ordered = (case se_registry s of
                       None \<Rightarrow> ordered
                     | Some r \<Rightarrow>
                         fold (\<lambda>(provider, _) acc.
                             if EqualFold provider ''local'' \<or> EqualFold provider ''ai_kernel'' then acc
                             else appendIfMissingPreserveOrder acc provider) (mr_configs r) ordered)
      in fold (\<lambda>provider acc. appendIfMissingPreserveOrder acc provider)
           [''ai_kernel'', ''local'', ''mistral'', ''codexsale'', ''openai'', ''mimo'', ''antigravity''] ordered)"

definition cloudPolicy :: "(string \<Rightarrow> string) \<Rightarrow> ModelSelector \<Rightarrow> modelSelectionPolicy" where
  "cloudPolicy getenv s =
     \<lparr>po_targetProvider = preferredCloudProvider getenv s, po_targetModel = modelOpenAIHigh,
      po_providers = providerPreference getenv s ''cloud'',
      po_families = [''gpt'', ''claude'', ''gemini'', ''deepseek'', ''mistral'', ''kimi'', ''glm'', ''qwen'', ''llama''],
      po_models = [''gpt-5.6-sol'', modelOpenAIHigh, ''gpt-5.4'', ''gpt-5.4-mini'', ''claude-sonnet-4-6'', modelMistral],
      po_reason = ''high_risk_or_high_complexity'', po_cloudRequired = True, po_requiresSecondaryReview = True\<rparr>"

definition typePolicy :: "(string \<Rightarrow> string) \<Rightarrow> ModelSelector \<Rightarrow> TaskType \<Rightarrow> modelSelectionPolicy" where
  "typePolicy getenv s taskType =
     (if taskType \<in> {TaskTypeCode, TaskTypeFix, TaskTypeTest} then
        \<lparr>po_targetProvider = ''ai_kernel'', po_targetModel = modelQwenCoder, po_providers = providerPreference getenv s ''code'',
         po_families = [''gemma'', ''deepseek'', ''llama'', ''glm'', ''gpt'', ''claude'', ''mistral'', ''gemini''],
         po_models = [modelQwenCoder, ''deepseek-coder'', ''claude-sonnet-4-6'', modelOpenAIHigh],
         po_reason = ''code_specialist_path'', po_cloudRequired = False, po_requiresSecondaryReview = (taskType = TaskTypeTest)\<rparr>
      else if taskType \<in> {TaskTypePlan, TaskTypeReview} then
        \<lparr>po_targetProvider = ''mistral'', po_targetModel = modelMistral, po_providers = providerPreference getenv s ''analysis'',
         po_families = [''claude'', ''gpt'', ''mistral'', ''gemini'', ''kimi'', ''qwen'', ''deepseek'', ''llama''],
         po_models = [''claude-sonnet-4-6'', ''gpt-5.6-sol'', modelOpenAIHigh, modelMistral],
         po_reason = ''analysis_review_path'', po_cloudRequired = False, po_requiresSecondaryReview = (taskType = TaskTypeReview)\<rparr>
      else if taskType = TaskTypeDocs then
        \<lparr>po_targetProvider = ''ai_kernel'', po_targetModel = modelLocalSmall, po_providers = providerPreference getenv s ''docs'',
         po_families = [''gemma'', ''llama'', ''mistral'', ''gpt'', ''claude'', ''gemini''],
         po_models = [modelLocalSmall, modelQwenCoder, modelMistral],
         po_reason = ''docs_path'', po_cloudRequired = False, po_requiresSecondaryReview = False\<rparr>
      else if taskType = TaskTypeResearch then
        \<lparr>po_targetProvider = ''mistral'', po_targetModel = modelMistral, po_providers = providerPreference getenv s ''research'',
         po_families = [''claude'', ''gpt'', ''mistral'', ''gemini'', ''kimi'', ''deepseek'', ''gemma''],
         po_models = [''claude-sonnet-4-6'', modelOpenAIHigh, modelMistral],
         po_reason = ''research_path'', po_cloudRequired = False, po_requiresSecondaryReview = False\<rparr>
      else
        \<lparr>po_targetProvider = ''ai_kernel'', po_targetModel = modelLocalSmall, po_providers = providerPreference getenv s ''default'',
         po_families = [''gemma'', ''llama'', ''gpt'', ''claude'', ''mistral''],
         po_models = [modelLocalSmall, modelQwenCoder, modelOpenAIHigh],
         po_reason = ''policy_default'', po_cloudRequired = False, po_requiresSecondaryReview = False\<rparr>)"

definition selectionPolicy :: "(string \<Rightarrow> string) \<Rightarrow> ModelSelector \<Rightarrow> Task \<Rightarrow> Complexity \<Rightarrow> RiskEvaluation \<Rightarrow> modelSelectionPolicy" where
  "selectionPolicy getenv s task complexity risk =
     (if shouldEscalateToCloud task complexity risk then cloudPolicy getenv s else typePolicy getenv s (t_Type task))"

definition modelFamily :: "ProviderModelStatus \<Rightarrow> string" where
  "modelFamily model =
     (let f = any_string (map_of (pm_Metadata model) ''model_family'')
      in if TrimSpace f \<noteq> [] then f else inferModelFamily (pm_ModelName model))"

definition policyAccepts :: "modelSelectionPolicy \<Rightarrow> ProviderModelStatus \<Rightarrow> bool" where
  "policyAccepts policy model \<longleftrightarrow>
     pm_Available model \<and> EqualFold (TrimSpace (pm_VerificationStatus model)) ''confirmed''
     \<and> (po_families policy = [] \<or> list_ex (EqualFold (modelFamily model)) (po_families policy))"

definition providerOrder :: "modelSelectionPolicy \<Rightarrow> string list" where
  "providerOrder policy = dedupeStrings (po_targetProvider policy # po_providers policy)"

definition expandPolicyModels :: "ModelSelector \<Rightarrow> time \<Rightarrow> modelSelectionPolicy \<Rightarrow> modelSelectionPolicy" where
  "expandPolicyModels s now policy =
     (case se_registry s of
        None \<Rightarrow> policy\<lparr>po_models := dedupeStrings (po_models policy)\<rparr>
      | Some r \<Rightarrow>
          let found = concat (map (\<lambda>provider. filter (policyAccepts policy) (HealthyModels r now provider)) (providerOrder policy))
          in policy\<lparr>po_models := dedupeStrings (fold (\<lambda>model acc. appendIfMissingPreserveOrder acc (pm_ModelName model))
                                                      found (po_models policy))\<rparr>)"

section \<open>Signals\<close>

record selectorSignals =
  si_budgetAction :: string
  si_tokenPressure :: string
  si_peerFailures :: "string list"
  si_vectorMemoryCount :: int
  si_routeResults :: "RouteSearchResult list"
  si_routeMemoryCount :: int
  si_validationHasRAG :: bool
  si_trainedMemory :: bool
  si_retrievalTier :: string
  si_retrievalCoverage :: rat
  si_retrievalPacked :: int
  si_retrievalTruncated :: rat
  si_retrievalBestScore :: rat

definition zero_selectorSignals :: selectorSignals where
  "zero_selectorSignals = \<lparr>si_budgetAction = [], si_tokenPressure = [], si_peerFailures = [], si_vectorMemoryCount = 0,
     si_routeResults = [], si_routeMemoryCount = 0, si_validationHasRAG = False, si_trainedMemory = False,
     si_retrievalTier = [], si_retrievalCoverage = 0, si_retrievalPacked = 0, si_retrievalTruncated = 0,
     si_retrievalBestScore = 0\<rparr>"

definition tierRank :: "string \<Rightarrow> int" where
  "tierRank tier = (case map_of [(''low'', 1), (''medium'', 2), (''high'', 3)] tier of None \<Rightarrow> 0 | Some n \<Rightarrow> n)"

definition strongerRetrievalTier :: "string \<Rightarrow> string \<Rightarrow> string" where
  "strongerRetrievalTier current candidate = (if tierRank candidate > tierRank current then candidate else current)"

definition hintMap :: "go_map \<Rightarrow> string \<Rightarrow> go_map option" where
  "hintMap m key = (case map_of m key of Some (AnyMap v) \<Rightarrow> Some v | _ \<Rightarrow> None)"

definition memorySignals :: "(string \<Rightarrow> rat option) \<Rightarrow> go_map \<Rightarrow> selectorSignals \<Rightarrow> selectorSignals" where
  "memorySignals parseFloat memoryContext signals =
     (let signals = signals\<lparr>si_vectorMemoryCount := intValue (map_of memoryContext ''vector_memory_count''),
                            si_trainedMemory := stringValue (map_of memoryContext ''trained_memory_brief'') \<noteq> []\<rparr>
      in case hintMap memoryContext ''retrieval_kpi'' of
           None \<Rightarrow> signals
         | Some kpi \<Rightarrow>
             signals\<lparr>si_retrievalTier := stringValue (map_of kpi ''tier''),
                     si_retrievalCoverage := float64Value parseFloat (map_of kpi ''coverage_ratio''),
                     si_retrievalPacked := intValue (map_of kpi ''packed_count''),
                     si_retrievalTruncated := float64Value parseFloat (map_of kpi ''truncation_ratio''),
                     si_retrievalBestScore := float64Value parseFloat (map_of kpi ''best_score'')\<rparr>)"

definition hintSignals :: "(string \<Rightarrow> rat option) \<Rightarrow> go_map \<Rightarrow> selectorSignals" where
  "hintSignals parseFloat hints =
     (let signals = zero_selectorSignals;
          signals = (case hintMap hints ''model_budget'' of
                       None \<Rightarrow> signals | Some budget \<Rightarrow> signals\<lparr>si_budgetAction := stringValue (map_of budget ''action'')\<rparr>);
          signals = signals\<lparr>si_tokenPressure := stringValue (map_of hints ''token_pressure''),
                            si_peerFailures := stringSliceValue (map_of hints ''peer_failures'')\<rparr>;
          signals = (case hintMap hints ''validation_context'' of
                       None \<Rightarrow> signals | Some v \<Rightarrow> signals\<lparr>si_validationHasRAG := boolValue (map_of v ''rag_required'')\<rparr>)
      in case hintMap hints ''memory_context'' of None \<Rightarrow> signals | Some m \<Rightarrow> memorySignals parseFloat m signals)"

definition retrieverSignals :: "RetrievalKPI \<Rightarrow> selectorSignals \<Rightarrow> selectorSignals" where
  "retrieverSignals kpi signals =
     signals\<lparr>si_vectorMemoryCount := max (si_vectorMemoryCount signals) (kp_PackedCount kpi),
             si_retrievalTier := strongerRetrievalTier (si_retrievalTier signals) (kp_Tier kpi),
             si_retrievalCoverage := maxFloat (si_retrievalCoverage signals) (kp_CoverageRatio kpi),
             si_retrievalPacked := max (si_retrievalPacked signals) (kp_PackedCount kpi),
             si_retrievalTruncated := maxFloat (si_retrievalTruncated signals) (kp_TruncationRatio kpi),
             si_retrievalBestScore := maxFloat (si_retrievalBestScore signals) (kp_BestScore kpi)\<rparr>"

definition buildSelectorSignals :: "(string \<Rightarrow> rat option) \<Rightarrow> ModelSelector \<Rightarrow> Task \<Rightarrow> selectorSignals" where
  "buildSelectorSignals parseFloat s task =
     (let signals = hintSignals parseFloat (t_RoutingHints task);
          signals = (case se_routeMemory s of
                       None \<Rightarrow> signals
                     | Some search \<Rightarrow>
                         (case search task 10 of
                            Inl _ \<Rightarrow> signals
                          | Inr results \<Rightarrow>
                              signals\<lparr>si_routeResults := results, si_routeMemoryCount := int (length results)\<rparr>))
      in case se_retriever s of
           None \<Rightarrow> signals
         | Some retrieve \<Rightarrow> (case retrieve task 4 of Inl _ \<Rightarrow> signals | Inr kpi \<Rightarrow> retrieverSignals kpi signals))"

definition signalsTrace :: "selectorSignals \<Rightarrow> go_map" where
  "signalsTrace s =
     [(''budget_action'', AnyString (si_budgetAction s)), (''token_pressure'', AnyString (si_tokenPressure s)),
      (''peer_failures'', AnyStrings (si_peerFailures s)), (''vector_memory_count'', AnyInt (si_vectorMemoryCount s)),
      (''route_memory_count'', AnyInt (si_routeMemoryCount s)), (''validation_has_rag'', AnyBool (si_validationHasRAG s)),
      (''trained_memory'', AnyBool (si_trainedMemory s)), (''retrieval_tier'', AnyString (si_retrievalTier s)),
      (''retrieval_coverage'', AnyFloat (si_retrievalCoverage s)), (''retrieval_packed'', AnyInt (si_retrievalPacked s)),
      (''retrieval_truncation'', AnyFloat (si_retrievalTruncated s)), (''retrieval_best_score'', AnyFloat (si_retrievalBestScore s))]"

section \<open>Scores\<close>

record routeHistoryScore =
  hs_Total :: rat
  hs_SampleCount :: int
  hs_SuccessRate :: rat
  hs_ReviewPassRate :: rat
  hs_TestPassRate :: rat
  hs_Confidence :: rat
  hs_Recency :: rat
  hs_CostEfficiency :: rat

definition zero_routeHistoryScore :: routeHistoryScore where
  "zero_routeHistoryScore = \<lparr>hs_Total = 0, hs_SampleCount = 0, hs_SuccessRate = 0, hs_ReviewPassRate = 0, hs_TestPassRate = 0,
     hs_Confidence = 0, hs_Recency = 0, hs_CostEfficiency = 0\<rparr>"

definition recencyScore :: "time \<Rightarrow> time \<Rightarrow> rat" where
  "recencyScore now ts =
     (if ts = zero_time then 35 / 100
      else let age = now - ts; hour = 3600 * second in
           if age \<le> 24 * hour then 1 else if age \<le> 7 * 24 * hour then 8 / 10
           else if age \<le> 30 * 24 * hour then 55 / 100 else 3 / 10)"

definition costEfficiencyScore :: "rat \<Rightarrow> rat" where
  "costEfficiencyScore cost =
     (if cost \<le> 0 then 8 / 10 else if cost \<le> 2 / 100 then 1 else if cost \<le> 8 / 100 then 75 / 100
      else if cost \<le> 2 / 10 then 45 / 100 else 2 / 10)"

definition historyMatches :: "ProviderModelStatus \<Rightarrow> RouteSearchResult \<Rightarrow> bool" where
  "historyMatches model result \<longleftrightarrow>
     (let r = sr_Record result; family = inferModelFamily (pm_ModelName model)
      in EqualFold (rt_Provider r) (pm_Provider model)
         \<and> (EqualFold (rt_ModelName r) (pm_ModelName model) \<or> (family \<noteq> [] \<and> inferModelFamily (rt_ModelName r) = family)))"

definition share :: "('a \<Rightarrow> rat) \<Rightarrow> 'a list \<Rightarrow> rat" where
  "share f xs = sum_list (map f xs) / of_nat (length xs)"

definition scoreRouteHistory :: "time \<Rightarrow> ProviderModelStatus \<Rightarrow> RouteSearchResult list \<Rightarrow> routeHistoryScore" where
  "scoreRouteHistory now model results =
     (let matched = filter (historyMatches model) results in
      if matched = [] then zero_routeHistoryScore
      else
        let success = share (\<lambda>x. of_bool (rt_Success (sr_Record x))) matched;
            review = share (\<lambda>x. of_bool (rt_ReviewPassed (sr_Record x))) matched;
            tests = share (\<lambda>x. of_bool (rt_TestsPassed (sr_Record x))) matched;
            confidence = share (\<lambda>x. clampRat (sr_Similarity x) 0 1 * clampRat (rt_Confidence (sr_Record x)) 0 1) matched;
            recency = share (\<lambda>x. recencyScore now (rt_UpdatedAt (sr_Record x))) matched;
            cost = share (\<lambda>x. costEfficiencyScore (rt_CostEstimate (sr_Record x))) matched
        in \<lparr>hs_Total = success * (26 / 10) + review * (13 / 10) + tests * (12 / 10) + confidence * 1 + recency * (7 / 10) + cost * (6 / 10),
            hs_SampleCount = int (length matched), hs_SuccessRate = success, hs_ReviewPassRate = review, hs_TestPassRate = tests,
            hs_Confidence = confidence, hs_Recency = recency, hs_CostEfficiency = cost\<rparr>)"

definition scoreBudgetFit :: "ProviderModelStatus \<Rightarrow> selectorSignals \<Rightarrow> rat" where
  "scoreBudgetFit model signals =
     (let action = ToLower (si_budgetAction signals); provider = ToLower (pm_Provider model); name = ToLower (pm_ModelName model);
          big = (inferModelFamily (pm_ModelName model) \<in> {''gpt'', ''claude'', ''gemini''}) in
      if action \<in> {''reduce'', ''tighten''} \<and> provider \<in> {''ai_kernel'', ''local'', ''ollama''} then 18 / 10
      else if action \<in> {''reduce'', ''tighten''} \<and> (Contains name ''mini'' \<or> Contains name ''small'') then 1
      else if action \<in> {''reduce'', ''tighten''} \<and> big then - (8 / 10)
      else if action \<in> {''expand'', ''increase''} \<and> big then 8 / 10
      else 0)"

definition scoreRetrievalFit :: "ProviderModelStatus \<Rightarrow> modelSelectionPolicy \<Rightarrow> selectorSignals \<Rightarrow> rat" where
  "scoreRetrievalFit model policy signals =
     (let heavyRetrieval = (si_vectorMemoryCount signals \<ge> 3 \<or> si_validationHasRAG signals \<or> si_trainedMemory signals
                            \<or> si_retrievalTier signals = ''high'' \<or> si_retrievalCoverage signals \<ge> 55 / 100);
          name = ToLower (pm_ModelName model); family = inferModelFamily (pm_ModelName model) in
      if \<not> heavyRetrieval then 0
      else
        2 / 10
        + (if Contains name ''mini'' then - (5 / 10) else 0)
        + (if po_reason policy \<in> {''analysis_review_path'', ''research_path'', ''high_risk_or_high_complexity''}
              \<and> family \<in> {''gpt'', ''claude'', ''gemini'', ''qwen'', ''mistral''} then 9 / 10 else 0)
        + (if si_retrievalTier signals = ''high'' then 4 / 10 else 0)
        + (if si_retrievalCoverage signals \<ge> 6 / 10 then 3 / 10 else 0)
        + (if si_retrievalTruncated signals \<ge> 35 / 100 then 15 / 100 else 0)
        + (if si_retrievalBestScore signals > 0 \<and> si_retrievalBestScore signals < 45 / 100 then - (1 / 10) else 0))"

definition scoreFailurePenalty :: "ProviderModelStatus \<Rightarrow> selectorSignals \<Rightarrow> rat" where
  "scoreFailurePenalty model signals =
     (let provider = ToLower (pm_Provider model); name = ToLower (pm_ModelName model) in
      if list_ex (\<lambda>failure. let value = ToLower failure in
             value = provider \<or> value = name \<or> Contains value provider \<or> Contains value name) (si_peerFailures signals)
      then 22 / 10 else 0)"

text \<open>The index of the first item that equals the value up to case.\<close>

definition foldIndex :: "string \<Rightarrow> string list \<Rightarrow> nat option" where
  "foldIndex value items = find (\<lambda>i. EqualFold value (items ! i)) [0..<length items]"

definition statusScore :: "string \<Rightarrow> int" where
  "statusScore status =
     (if status = ''ready'' then 150 else if status = ''verification_pending'' then 25
      else if status \<in> {''validation_failed'', ''missing'', ''disabled''} then - 500 else 35)"

definition scoreHealthyModel :: "ProviderModelStatus \<Rightarrow> modelSelectionPolicy \<Rightarrow> int" where
  "scoreHealthyModel model policy =
     (case foldIndex (pm_ModelName model) (po_models policy) of None \<Rightarrow> 0 | Some i \<Rightarrow> 1000 - int i * 25)
     + (case foldIndex (modelFamily model) (po_families policy) of None \<Rightarrow> 0 | Some i \<Rightarrow> 700 - int i * 20)
     + statusScore (pm_Status model)
     + (if pm_IsDefault model then 60 else 0)
     + (if EqualFold (pm_ModelName model) (po_targetModel policy) then 80 else 0)"

section \<open>The choice\<close>

record scoredHealthyModel =
  sc_status :: ProviderModelStatus
  sc_score :: rat
  sc_components :: go_map

definition historyFields :: "routeHistoryScore \<Rightarrow> any" where
  "historyFields h =
     AnyStruct [(''total'', AnyFloat (hs_Total h)), (''sample_count'', AnyInt (hs_SampleCount h)), (''success_rate'', AnyFloat (hs_SuccessRate h)),
       (''review_pass_rate'', AnyFloat (hs_ReviewPassRate h)), (''test_pass_rate'', AnyFloat (hs_TestPassRate h)),
       (''confidence'', AnyFloat (hs_Confidence h)), (''recency'', AnyFloat (hs_Recency h)), (''cost_efficiency'', AnyFloat (hs_CostEfficiency h))]"

definition scoreCandidate ::
  "time \<Rightarrow> modelSelectionPolicy \<Rightarrow> selectorSignals \<Rightarrow> nat \<Rightarrow> ProviderModelStatus \<Rightarrow> scoredHealthyModel option" where
  "scoreCandidate now policy signals providerIndex model =
     (let base = scoreHealthyModel model policy in
      if base \<le> 0 then None
      else
        let history = scoreRouteHistory now model (si_routeResults signals);
            budget = scoreBudgetFit model signals;
            retrieval = scoreRetrievalFit model policy signals;
            failurePenalty = scoreFailurePenalty model signals;
            providerPriority = of_int (int (length (providerOrder policy)) - int providerIndex) * (35 / 100)
        in Some \<lparr>sc_status = model,
             sc_score = of_int base + providerPriority + hs_Total history + budget + retrieval - failurePenalty,
             sc_components = [(''base'', AnyInt base), (''provider_priority'', AnyFloat providerPriority), (''history'', historyFields history),
               (''budget'', AnyFloat budget), (''retrieval'', AnyFloat retrieval), (''failure_penalty'', AnyFloat failurePenalty)]\<rparr>)"

definition allCandidates :: "ProviderModelRegistry \<Rightarrow> time \<Rightarrow> modelSelectionPolicy \<Rightarrow> selectorSignals \<Rightarrow> scoredHealthyModel list" where
  "allCandidates r now policy signals =
     concat (map (\<lambda>(i, provider). List.map_filter (scoreCandidate now policy signals i) (HealthyModels r now provider))
               (zip [0..<length (providerOrder policy)] (providerOrder policy)))"

definition rankCandidates :: "scoredHealthyModel list \<Rightarrow> scoredHealthyModel list" where
  "rankCandidates candidates = sort_key (\<lambda>c. - sc_score c) (sort_key (\<lambda>c. pm_ModelName (sc_status c)) candidates)"

definition topCandidateScores :: "scoredHealthyModel list \<Rightarrow> nat \<Rightarrow> any" where
  "topCandidateScores candidates limit =
     AnyList (map (\<lambda>c. AnyMap [(''provider'', AnyString (pm_Provider (sc_status c))), (''model'', AnyString (pm_ModelName (sc_status c))),
        (''score'', AnyFloat (sc_score c)), (''status'', AnyString (pm_Status (sc_status c))),
        (''is_default'', AnyBool (pm_IsDefault (sc_status c))), (''components'', AnyMap (sc_components c))]) (take limit candidates))"

definition resolveAvailableModel ::
  "(string \<Rightarrow> rat option) \<Rightarrow> ModelSelector \<Rightarrow> time \<Rightarrow> Task \<Rightarrow> modelSelectionPolicy \<Rightarrow> go_map \<Rightarrow> (string \<times> string) \<times> go_map" where
  "resolveAvailableModel parseFloat s now task policy trace =
     (case se_registry s of
        None \<Rightarrow> ((po_targetProvider policy, po_targetModel policy), trace)
      | Some r \<Rightarrow>
          let signals = buildSelectorSignals parseFloat s task;
              ranked = rankCandidates (allCandidates r now policy signals);
              trace = map_set ''selector_inputs'' (AnyMap (signalsTrace signals)) trace
          in case ranked of
               [] \<Rightarrow> ((po_targetProvider policy, po_targetModel policy), map_set ''candidate_scores'' (AnyList []) trace)
             | best # _ \<Rightarrow>
                 ((pm_Provider (sc_status best), pm_ModelName (sc_status best)),
                  map_set ''candidate_scores'' (topCandidateScores ranked 6) trace))"

section \<open>Support lanes\<close>

definition shouldAttachAIKernelSupport :: "ModelSelector \<Rightarrow> time \<Rightarrow> Task \<Rightarrow> string \<Rightarrow> modelSelectionPolicy \<Rightarrow> bool" where
  "shouldAttachAIKernelSupport s now task provider policy =
     (if EqualFold provider ''ai_kernel'' \<or> EqualFold (po_targetProvider policy) ''ai_kernel'' then False
      else case se_registry s of
             None \<Rightarrow> False
           | Some r \<Rightarrow>
               if HealthyModels r now ''ai_kernel'' = [] then False
               else if po_cloudRequired policy then True
               else t_Type task \<in> {TaskTypePlan, TaskTypeReview, TaskTypeResearch})"

definition resolveAIKernelSupportModel :: "ModelSelector \<Rightarrow> time \<Rightarrow> TaskType \<Rightarrow> string option" where
  "resolveAIKernelSupportModel s now taskType =
     (case se_registry s of
        None \<Rightarrow> None
      | Some r \<Rightarrow>
          let preferred = (if taskType = TaskTypeDocs then [modelLocalSmall, modelQwenCoder] else [modelQwenCoder]);
              models = HealthyModels r now ''ai_kernel'';
              named = concat (map (\<lambda>candidate. filter (\<lambda>model. EqualFold (pm_ModelName model) candidate) models) preferred)
          in case named of
               model # _ \<Rightarrow> Some (pm_ModelName model)
             | [] \<Rightarrow>
                 map_option pm_ModelName
                   (find (\<lambda>model. pm_Available model \<and> EqualFold (TrimSpace (pm_VerificationStatus model)) ''confirmed'') models))"

definition aiKernelSupportCapabilities :: "TaskType \<Rightarrow> string \<Rightarrow> string list" where
  "aiKernelSupportCapabilities taskType role =
     dedupeStrings ([''docs'', ''code'', ''fix'', ''test'']
       @ (if taskType \<in> {TaskTypePlan, TaskTypeReview} then [''plan'', ''review'']
          else if taskType = TaskTypeResearch then [''research'', ''review''] else [])
       @ (if role = ''parallel'' then [''analysis''] else []))"

definition aiKernelSupportTaskTypes :: "TaskType \<Rightarrow> TaskType list" where
  "aiKernelSupportTaskTypes taskType =
     dedupeTaskTypes ([TaskTypeCode, TaskTypeFix, TaskTypeTest, TaskTypeDocs]
       @ (if taskType \<in> {TaskTypePlan, TaskTypeReview, TaskTypeResearch} then [taskType] else []))"

definition aiKernelSupportReason :: "string \<Rightarrow> string" where
  "aiKernelSupportReason role =
     (if role = ''fallback'' then ''local ai_kernel fallback is available if the primary cloud route degrades''
      else if role = ''parallel''
      then ''local ai_kernel can parallelize repo-local drafting, summarization, and verification subtasks''
      else ''local ai_kernel can assist the primary route with repo-local drafting, verification, and synthesis'')"

definition supportLanes :: "ModelSelector \<Rightarrow> time \<Rightarrow> Task \<Rightarrow> string \<Rightarrow> modelSelectionPolicy \<Rightarrow> SupportLane list" where
  "supportLanes s now task provider policy =
     (if \<not> shouldAttachAIKernelSupport s now task provider policy then []
      else
        case resolveAIKernelSupportModel s now (t_Type task) of
          None \<Rightarrow> []
        | Some modelName \<Rightarrow>
            map (\<lambda>role. \<lparr>sl_Provider = ''ai_kernel'', sl_ModelName = modelName, sl_Role = role, sl_MaxComplexity = ComplexityMedium,
                         sl_Capabilities = aiKernelSupportCapabilities (t_Type task) role,
                         sl_SupportedTaskTypes = aiKernelSupportTaskTypes (t_Type task), sl_Reason = aiKernelSupportReason role\<rparr>)
              ([''helper'', ''fallback''] @ (if t_Type task \<in> {TaskTypePlan, TaskTypeReview, TaskTypeResearch} then [''parallel''] else [])))"

section \<open>Selection\<close>

fun priorityText :: "Priority \<Rightarrow> string" where
  "priorityText PriorityLow = ''low''"
| "priorityText PriorityNormal = ''normal''"
| "priorityText PriorityHigh = ''high''"
| "priorityText PriorityCritical = ''critical''"
| "priorityText (PriorityOther s) = s"

definition initialTrace :: "Task \<Rightarrow> RiskEvaluation \<Rightarrow> go_map" where
  "initialTrace task risk =
     [(''task_type'', AnyString (taskTypeText (t_Type task))), (''priority'', AnyString (priorityText (t_Priority task))),
      (''required_capability'', AnyString (inferCapability task)), (''sourcecraft_work'', AnyBool (isSourcecraftWork task)),
      (''high_risk'', AnyBool (re_HighRisk risk)), (''files'', AnyInt (int (length (compactStrings (ti_Files (t_Input task)))))),
      (''acceptance_criteria'', AnyInt (int (length (compactStrings (ti_AcceptanceCriteria (t_Input task)))))),
      (''constraints'', AnyInt (int (length (compactStrings (ti_Constraints (t_Input task)))))),
      (''live_model_criteria'', AnyStrings
        [''confirmed models are alive only when Available=true and verification_status=confirmed'',
         ''verification_pending or retryable_failure models stay in catalog diagnostics but are excluded from healthy routing'',
         ''validation_failed, missing, disabled, or unavailable inventory entries are treated as dead''])]"

definition finalTrace :: "modelSelectionPolicy \<Rightarrow> string \<times> string \<Rightarrow> SupportLane list \<Rightarrow> go_map \<Rightarrow> go_map" where
  "finalTrace policy choice lanes trace =
     (let trace = fold (\<lambda>(k, v). map_set k v)
            [(''target_provider'', AnyString (po_targetProvider policy)), (''target_model'', AnyString (po_targetModel policy)),
             (''provider_candidates'', AnyStrings (po_providers policy)), (''preferred_families'', AnyStrings (po_families policy)),
             (''preferred_models'', AnyStrings (po_models policy)), (''cloud_required'', AnyBool (po_cloudRequired policy)),
             (''resolved_provider'', AnyString (fst choice)), (''resolved_model'', AnyString (snd choice))] trace
      in if lanes = [] then trace
         else map_set ''ai_kernel_helper_available'' (AnyBool True) (map_set ''support_lanes'' (AnyStructs (map laneFields lanes)) trace))"

definition Select :: "(string \<Rightarrow> string) \<Rightarrow> (string \<Rightarrow> rat option) \<Rightarrow> ModelSelector \<Rightarrow> time \<Rightarrow> Task \<Rightarrow> ModelSelection" where
  "Select getenv parseFloat s now task =
     (let complexity = Classify task;
          risk = EvaluateRiskContext (taskText task);
          policy = expandPolicyModels s now (selectionPolicy getenv s task complexity risk);
          (choice, trace) = resolveAvailableModel parseFloat s now task policy (initialTrace task risk);
          lanes = supportLanes s now task (fst choice) policy
      in \<lparr>ms_Provider = fst choice, ms_ModelName = snd choice, ms_Complexity = complexity,
          ms_RequiresSecondaryReview = po_requiresSecondaryReview policy, ms_Reason = po_reason policy,
          ms_DetectedKeywords = re_DetectedKeywords risk, ms_MatchedHighRiskRules = re_MatchedHighRiskRules risk,
          ms_MatchedLowRiskExemptions = re_MatchedLowRiskExemptions risk, ms_SupportLanes = lanes,
          ms_SelectionTrace = finalTrace policy choice lanes trace\<rparr>)"

section \<open>Properties\<close>

lemma expandPolicyModels_keeps [simp]:
  "po_targetProvider (expandPolicyModels s now policy) = po_targetProvider policy"
  "po_targetModel (expandPolicyModels s now policy) = po_targetModel policy"
  "po_providers (expandPolicyModels s now policy) = po_providers policy"
  "po_families (expandPolicyModels s now policy) = po_families policy"
  "po_reason (expandPolicyModels s now policy) = po_reason policy"
  "po_cloudRequired (expandPolicyModels s now policy) = po_cloudRequired policy"
  "po_requiresSecondaryReview (expandPolicyModels s now policy) = po_requiresSecondaryReview policy"
  by (simp_all add: expandPolicyModels_def Let_def split: option.split)

lemma providerOrder_expand [simp]: "providerOrder (expandPolicyModels s now policy) = providerOrder policy"
  by (simp add: providerOrder_def)

lemma Select_fields:
  "ms_RequiresSecondaryReview (Select getenv parseFloat s now task) =
     po_requiresSecondaryReview (selectionPolicy getenv s task (Classify task) (EvaluateRiskContext (taskText task)))"
  "ms_Complexity (Select getenv parseFloat s now task) = Classify task"
  "ms_Reason (Select getenv parseFloat s now task) =
     po_reason (selectionPolicy getenv s task (Classify task) (EvaluateRiskContext (taskText task)))"
  by (simp_all add: Select_def Let_def split: prod.split)

text \<open>
  A task that is critical, of high priority or complexity, or that touches a high-risk subject is
  sent to the cloud providers and gets a second review, whatever its type.
\<close>

theorem risky_tasks_are_reviewed:
  assumes "t_Priority task = PriorityCritical \<or> re_HighRisk (EvaluateRiskContext (taskText task))
    \<or> t_Complexity task \<in> {ComplexityCritical, ComplexityHigh}
    \<or> (t_Complexity task = ComplexityOther [] \<and> t_Priority task = PriorityHigh)"
  shows "ms_RequiresSecondaryReview (Select getenv parseFloat s now task)
    \<and> ms_Reason (Select getenv parseFloat s now task) = ''high_risk_or_high_complexity''"
proof -
  have "shouldEscalateToCloud task (Classify task) (EvaluateRiskContext (taskText task))"
    using assms by (auto simp: shouldEscalateToCloud_def Classify_def Let_def)
  then show ?thesis by (simp add: Select_fields selectionPolicy_def cloudPolicy_def)
qed

text \<open>The best of a list of candidates.\<close>

lemma rank_best:
  assumes "rankCandidates cs = best # rest"
  shows "best \<in> set cs" and "c \<in> set cs \<Longrightarrow> sc_score c \<le> sc_score best"
proof -
  have s: "set (rankCandidates cs) = set cs" by (simp add: rankCandidates_def)
  then show "best \<in> set cs" using assms by (metis list.set_intros(1))
  have "sorted (map (\<lambda>c. - sc_score c) (best # rest))"
    using assms unfolding rankCandidates_def by (metis sorted_sort_key)
  then show "c \<in> set cs \<Longrightarrow> sc_score c \<le> sc_score best"
    using s assms by fastforce
qed

lemma rank_Nil: "rankCandidates cs = [] \<longleftrightarrow> cs = []"
  by (metis rankCandidates_def set_empty set_sort)

lemma in_allCandidates:
  "c \<in> set (allCandidates r now policy signals) \<longleftrightarrow>
     (\<exists>i<length (providerOrder policy). \<exists>m\<in>set (HealthyModels r now (providerOrder policy ! i)).
        scoreCandidate now policy signals i m = Some c)"
proof -
  have mf: "x \<in> set (List.map_filter f xs) \<longleftrightarrow> (\<exists>y\<in>set xs. f y = Some x)" for f :: "ProviderModelStatus \<Rightarrow> scoredHealthyModel option" and x xs
    by (force simp: List.map_filter_def)
  have "(i, p) \<in> set (zip [0..<length xs] xs) \<longleftrightarrow> i < length xs \<and> p = xs ! i" for i p and xs :: "string list"
    by (auto simp: set_zip intro: exI [where x = i])
  then have "c \<in> set (allCandidates r now policy signals) \<longleftrightarrow>
      (\<exists>i p. (i < length (providerOrder policy) \<and> p = providerOrder policy ! i)
         \<and> (\<exists>m\<in>set (HealthyModels r now p). scoreCandidate now policy signals i m = Some c))"
    unfolding allCandidates_def by (simp add: mf split_beta Bex_def)
  then show ?thesis by blast
qed

lemma scoreCandidate_Some:
  "scoreCandidate now policy signals i m = Some c \<Longrightarrow> sc_status c = m \<and> scoreHealthyModel m policy > 0"
  by (auto simp: scoreCandidate_def Let_def split: if_splits)


lemma find_in_set: "find P xs = Some x \<Longrightarrow> x \<in> set xs"
  by (induction xs) (auto split: if_splits)

lemma support_model:
  assumes "resolveAIKernelSupportModel s now taskType = Some name" and "se_registry s = Some r"
  shows "\<exists>m. m \<in> set (HealthyModels r now ''ai_kernel'') \<and> name = pm_ModelName m"
proof -
  let ?models = "HealthyModels r now ''ai_kernel''"
  define named where "named = concat (map (\<lambda>candidate. filter (\<lambda>model. EqualFold (pm_ModelName model) candidate) ?models)
      (if taskType = TaskTypeDocs then [modelLocalSmall, modelQwenCoder] else [modelQwenCoder]))"
  have sub: "set named \<subseteq> set ?models" by (auto simp: named_def)
  have eq: "(case named of model # _ \<Rightarrow> Some (pm_ModelName model)
      | [] \<Rightarrow> map_option pm_ModelName
          (find (\<lambda>model. pm_Available model \<and> EqualFold (TrimSpace (pm_VerificationStatus model)) ''confirmed'') ?models)) = Some name"
    using assms(1) unfolding resolveAIKernelSupportModel_def assms(2) Let_def option.case named_def [symmetric] by simp
  show ?thesis
  proof (cases named)
    case Nil
    then obtain m where "find (\<lambda>model. pm_Available model \<and> EqualFold (TrimSpace (pm_VerificationStatus model)) ''confirmed'') ?models = Some m"
      "name = pm_ModelName m"
      using eq by (auto simp: map_option_eq_Some)
    from find_in_set [OF this(1)] this(2) show ?thesis by (intro exI [of _ m] conjI)
  next
    case (Cons m ms)
    then have "name = pm_ModelName m" using eq by simp
    then show ?thesis using Cons sub by auto
  qed
qed

text \<open>
  Support lanes are local help for work that leaves the machine: they name a healthy model of the
  local provider, never more than medium complexity, and none is attached to a task that goes to
  the local provider anyway.
\<close>

theorem support_lanes_are_local:
  assumes "supp \<in> set (ms_SupportLanes (Select getenv parseFloat s now task))"
  shows "\<not> EqualFold (ms_Provider (Select getenv parseFloat s now task)) ''ai_kernel'' \<and> sl_Provider supp = ''ai_kernel''
    \<and> sl_MaxComplexity supp = ComplexityMedium
    \<and> (\<exists>r m. se_registry s = Some r \<and> m \<in> set (HealthyModels r now ''ai_kernel'') \<and> sl_ModelName supp = pm_ModelName m)"
proof -
  let ?sel = "Select getenv parseFloat s now task"
  let ?policy = "expandPolicyModels s now (selectionPolicy getenv s task (Classify task) (EvaluateRiskContext (taskText task)))"
  have "ms_SupportLanes ?sel = supportLanes s now task (ms_Provider ?sel) ?policy"
    by (simp add: Select_def Let_def split: prod.split)
  then have l: "supp \<in> set (supportLanes s now task (ms_Provider ?sel) ?policy)" using assms by simp
  then have a: "shouldAttachAIKernelSupport s now task (ms_Provider ?sel) ?policy"
    by (auto simp: supportLanes_def split: if_splits)
  then obtain r where r: "se_registry s = Some r" "\<not> EqualFold (ms_Provider ?sel) ''ai_kernel''"
    by (auto simp: shouldAttachAIKernelSupport_def split: if_splits option.splits)
  obtain name where name: "resolveAIKernelSupportModel s now (t_Type task) = Some name" "sl_ModelName supp = name"
      "sl_Provider supp = ''ai_kernel''" "sl_MaxComplexity supp = ComplexityMedium"
    using l a by (cases "resolveAIKernelSupportModel s now (t_Type task)") (auto simp: supportLanes_def)
  have "\<exists>m. m \<in> set (HealthyModels r now ''ai_kernel'') \<and> name = pm_ModelName m"
    using name(1) r(1) support_model [of s now "t_Type task" name r] by blast
  with r name show ?thesis by blast
qed

section \<open>Examples\<close>

definition example_selector :: ModelSelector where
  "example_selector = \<lparr>se_registry = Some (fst example_refreshed), se_routeMemory = None, se_retriever = None\<rparr>"

definition example_risky :: Task where
  "example_risky = zero_Task\<lparr>t_Type := TaskTypeCode, t_Priority := PriorityCritical\<rparr>"

theorem risky_tasks_are_reviewed_witness:
  "ms_RequiresSecondaryReview (Select (\<lambda>_. []) (\<lambda>_. None) example_selector 1000 example_risky)"
  using risky_tasks_are_reviewed [of example_risky] by (simp add: example_risky_def)


end
