(* ===== verification/RealtimeMetrics.thy ===== *)
theory RealtimeMetrics
  imports Domain
begin

text \<open>
  The live metrics of streaming sessions, \<open>go-core/internal/kernel/realtime_metrics_live.go\<close>: sessions
  by id, metrics by model, histograms of latencies. The router reads a model's summary.

  The collector holds pointers to sessions and to metrics; a change through a pointer is an update
  of the entry in the association list of its map. \<open>fmt.Sprint\<close>, which the code applies to metadata
  values that are no strings, is the argument \<open>sprint\<close>.
\<close>

section \<open>Deltas\<close>

datatype AgentDeltaKind =
    AgentDeltaStarted | AgentDeltaToken | AgentDeltaThoughtSummary | AgentDeltaToolCallStarted
  | AgentDeltaToolCallFinished | AgentDeltaFilePatch | AgentDeltaCommandStarted
  | AgentDeltaCommandFinished | AgentDeltaPartialResult | AgentDeltaFinalResult
  | AgentDeltaHeartbeat | AgentDeltaError | AgentDeltaPatchPreview | AgentDeltaPatchChunk
  | AgentDeltaPatchApplyStart | AgentDeltaPatchApplyFinish | AgentDeltaToolStarted
  | AgentDeltaToolStdout | AgentDeltaToolStderr | AgentDeltaToolFinished | AgentDeltaTestStarted
  | AgentDeltaTestCase | AgentDeltaTestFinished | AgentDeltaOther string

record AgentDelta =
  ad_SessionID :: string
  ad_TaskID :: string
  ad_AgentID :: string
  ad_Provider :: string
  ad_ModelName :: string
  ad_Kind :: AgentDeltaKind
  ad_Sequence :: int
  ad_Content :: string
  ad_Timestamp :: time
  ad_Metadata :: go_map

text \<open>\<open>Time.Sub\<close> saturates at the range of a 64-bit duration; \<open>Duration.Milliseconds\<close> truncates.\<close>

definition Sub :: "time \<Rightarrow> time \<Rightarrow> duration" where
  "Sub t u = max (- (2 ^ 63)) (min (2 ^ 63 - 1) (t - u))"

definition Milliseconds :: "duration \<Rightarrow> int" where
  "Milliseconds d = (if d \<ge> 0 then d div millisecond else - ((- d) div millisecond))"

section \<open>Histograms\<close>

definition liveRealtimeHistogramBoundsMS :: "int list" where
  "liveRealtimeHistogramBoundsMS = [10, 25, 50, 100, 250, 500, 1000, 2500, 5000, 10000]"

record liveRealtimeHistogram =
  hg_Bounds :: "int list"
  hg_Counts :: "int list"
  hg_Sum :: int
  hg_Count :: int

record RealtimeHistogramBucket =
  hb_Le :: int
  hb_Count :: int

record LiveRealtimeHistogramSnapshot =
  hs_Count :: int
  hs_Sum :: int
  hs_Buckets :: "RealtimeHistogramBucket list"

definition newLiveRealtimeHistogram :: liveRealtimeHistogram where
  "newLiveRealtimeHistogram = \<lparr>hg_Bounds = liveRealtimeHistogramBoundsMS,
     hg_Counts = replicate (length liveRealtimeHistogramBoundsMS) 0, hg_Sum = 0, hg_Count = 0\<rparr>"

definition histogramObserve :: "int \<Rightarrow> liveRealtimeHistogram \<Rightarrow> liveRealtimeHistogram" where
  "histogramObserve value h =
     (if value < 0 then h
      else h\<lparr>hg_Sum := hg_Sum h + value, hg_Count := hg_Count h + 1,
        hg_Counts := map2 (\<lambda>bound n. if value \<le> bound then n + 1 else n) (hg_Bounds h) (hg_Counts h)\<rparr>)"

definition histogramSnapshot :: "liveRealtimeHistogram \<Rightarrow> LiveRealtimeHistogramSnapshot" where
  "histogramSnapshot h = \<lparr>hs_Count = hg_Count h, hs_Sum = hg_Sum h,
     hs_Buckets = map2 (\<lambda>bound n. \<lparr>hb_Le = bound, hb_Count = n\<rparr>) (hg_Bounds h) (hg_Counts h)\<rparr>"

definition liveHistogramAverage :: "LiveRealtimeHistogramSnapshot \<Rightarrow> int" where
  "liveHistogramAverage snapshot = (if hs_Count snapshot \<le> 0 then 0 else hs_Sum snapshot div hs_Count snapshot)"

section \<open>Metadata\<close>

definition liveMetadataString :: "(any \<Rightarrow> string) \<Rightarrow> go_map \<Rightarrow> string \<Rightarrow> string" where
  "liveMetadataString sprint metadata key =
     (case map_of metadata key of
        None \<Rightarrow> []
      | Some AnyNil \<Rightarrow> []
      | Some (AnyString s) \<Rightarrow> s
      | Some v \<Rightarrow> TrimSpace (sprint v))"

definition liveMetadataBool :: "go_map \<Rightarrow> string \<Rightarrow> bool" where
  "liveMetadataBool metadata key =
     (case map_of metadata key of
        Some (AnyBool b) \<Rightarrow> b
      | Some (AnyString s) \<Rightarrow> ToLower (TrimSpace s) \<in> set [''1'', ''true'', ''yes'', ''on'']
      | _ \<Rightarrow> False)"

definition liveFailureRate :: "int \<Rightarrow> int \<Rightarrow> rat" where
  "liveFailureRate started failed =
     (if started \<le> 0 \<or> failed \<le> 0 then 0
      else let rate = of_int failed / of_int started in if rate < 0 then 0 else if rate > 1 then 1 else rate)"

definition liveTransportMode :: "(any \<Rightarrow> string) \<Rightarrow> AgentDelta \<Rightarrow> RuntimeTransportMode" where
  "liveTransportMode sprint delta =
     (let raw = TrimSpace (ToLower (liveMetadataString sprint (ad_Metadata delta) ''transport'')) in
      if raw \<noteq> [] then
        (if raw = ''native_stream'' then RuntimeTransportNativeStream
         else if raw = ''pseudo_realtime'' then RuntimeTransportPseudoRealtime
         else RuntimeTransportBuffered)
      else if liveMetadataBool (ad_Metadata delta) ''native_streaming'' then RuntimeTransportNativeStream
      else if liveMetadataBool (ad_Metadata delta) ''pseudo_realtime'' then RuntimeTransportPseudoRealtime
      else RuntimeTransportBuffered)"

section \<open>Models and sessions\<close>

record liveRealtimeModelMetrics =
  lm_Provider :: string
  lm_ModelName :: string
  lm_ActiveSessions :: int
  lm_SessionsStarted :: int
  lm_SessionsCompleted :: int
  lm_SessionsFailed :: int
  lm_NativeStreamSessions :: int
  lm_PseudoRealtimeSessions :: int
  lm_BufferedSessions :: int
  lm_TokensStreamedTotal :: int
  lm_ToolsStartedTotal :: int
  lm_ToolsFinishedTotal :: int
  lm_PatchesPreviewedTotal :: int
  lm_PatchesAppliedTotal :: int
  lm_TestsStartedTotal :: int
  lm_TestsFinishedTotal :: int
  lm_TimeToFirstTokenMS :: liveRealtimeHistogram
  lm_TimeToFirstToolMS :: liveRealtimeHistogram
  lm_TimeToFirstPatchMS :: liveRealtimeHistogram
  lm_TimeToFirstResultMS :: liveRealtimeHistogram
  lm_TimeToFirstTestMS :: liveRealtimeHistogram
  lm_TotalCompletionMS :: liveRealtimeHistogram

record LiveRealtimeModelMetricsSnapshot =
  mm_Metrics :: liveRealtimeModelMetrics
  mm_FailureRate :: rat
  mm_AvgTimeToFirstTokenMS :: int
  mm_AvgTotalCompletionMS :: int
  mm_TimeToFirstTokenMS :: LiveRealtimeHistogramSnapshot
  mm_TimeToFirstToolMS :: LiveRealtimeHistogramSnapshot
  mm_TimeToFirstPatchMS :: LiveRealtimeHistogramSnapshot
  mm_TimeToFirstResultMS :: LiveRealtimeHistogramSnapshot
  mm_TimeToFirstTestMS :: LiveRealtimeHistogramSnapshot
  mm_TotalCompletionMS :: LiveRealtimeHistogramSnapshot

text \<open>The snapshot of a model repeats its names and counters; they are kept as \<open>mm_Metrics\<close>.\<close>

definition newLiveRealtimeModelMetrics :: "string \<Rightarrow> string \<Rightarrow> liveRealtimeModelMetrics" where
  "newLiveRealtimeModelMetrics provider modelName = \<lparr>lm_Provider = provider, lm_ModelName = modelName,
     lm_ActiveSessions = 0, lm_SessionsStarted = 0, lm_SessionsCompleted = 0, lm_SessionsFailed = 0,
     lm_NativeStreamSessions = 0, lm_PseudoRealtimeSessions = 0, lm_BufferedSessions = 0,
     lm_TokensStreamedTotal = 0, lm_ToolsStartedTotal = 0, lm_ToolsFinishedTotal = 0,
     lm_PatchesPreviewedTotal = 0, lm_PatchesAppliedTotal = 0, lm_TestsStartedTotal = 0,
     lm_TestsFinishedTotal = 0, lm_TimeToFirstTokenMS = newLiveRealtimeHistogram,
     lm_TimeToFirstToolMS = newLiveRealtimeHistogram, lm_TimeToFirstPatchMS = newLiveRealtimeHistogram,
     lm_TimeToFirstResultMS = newLiveRealtimeHistogram, lm_TimeToFirstTestMS = newLiveRealtimeHistogram,
     lm_TotalCompletionMS = newLiveRealtimeHistogram\<rparr>"

definition modelSnapshot :: "liveRealtimeModelMetrics \<Rightarrow> LiveRealtimeModelMetricsSnapshot" where
  "modelSnapshot m =
     (let ttft = histogramSnapshot (lm_TimeToFirstTokenMS m);
          totalCompletion = histogramSnapshot (lm_TotalCompletionMS m)
      in \<lparr>mm_Metrics = m, mm_FailureRate = liveFailureRate (lm_SessionsStarted m) (lm_SessionsFailed m),
           mm_AvgTimeToFirstTokenMS = liveHistogramAverage ttft,
           mm_AvgTotalCompletionMS = liveHistogramAverage totalCompletion,
           mm_TimeToFirstTokenMS = ttft,
           mm_TimeToFirstToolMS = histogramSnapshot (lm_TimeToFirstToolMS m),
           mm_TimeToFirstPatchMS = histogramSnapshot (lm_TimeToFirstPatchMS m),
           mm_TimeToFirstResultMS = histogramSnapshot (lm_TimeToFirstResultMS m),
           mm_TimeToFirstTestMS = histogramSnapshot (lm_TimeToFirstTestMS m),
           mm_TotalCompletionMS = totalCompletion\<rparr>)"

record liveRealtimeSession =
  ls_SessionID :: string
  ls_Provider :: string
  ls_ModelName :: string
  ls_StartedAt :: time
  ls_Active :: bool
  ls_Completed :: bool
  ls_HasToken :: bool
  ls_HasTool :: bool
  ls_HasPatch :: bool
  ls_HasResult :: bool
  ls_HasTest :: bool
  ls_TransportMode :: RuntimeTransportMode
  ls_TransportCounted :: bool

definition newSessionState :: "string \<Rightarrow> string \<Rightarrow> string \<Rightarrow> time \<Rightarrow> bool \<Rightarrow> liveRealtimeSession" where
  "newSessionState sessionID provider modelName startedAt live = \<lparr>ls_SessionID = sessionID, ls_Provider = provider,
     ls_ModelName = modelName, ls_StartedAt = startedAt, ls_Active = live, ls_Completed = False,
     ls_HasToken = False, ls_HasTool = False, ls_HasPatch = False, ls_HasResult = False, ls_HasTest = False,
     ls_TransportMode = RuntimeTransportOther [], ls_TransportCounted = False\<rparr>"

record LiveRealtimeMetricsCollector =
  lc_sessions :: "(string \<times> liveRealtimeSession) list"
  lc_models :: "(string \<times> liveRealtimeModelMetrics) list"

definition NewLiveRealtimeMetricsCollector :: LiveRealtimeMetricsCollector where
  "NewLiveRealtimeMetricsCollector = \<lparr>lc_sessions = [], lc_models = []\<rparr>"

definition liveRealtimeModelKey :: "string \<Rightarrow> string \<Rightarrow> string" where
  "liveRealtimeModelKey provider modelName = ToLower (TrimSpace provider) @ ''::'' @ TrimSpace modelName"

definition ensureModel ::
  "string \<Rightarrow> string \<Rightarrow> LiveRealtimeMetricsCollector \<Rightarrow> liveRealtimeModelMetrics \<times> LiveRealtimeMetricsCollector" where
  "ensureModel provider modelName c =
     (let key = liveRealtimeModelKey provider modelName in
      case map_of (lc_models c) key of
        Some metrics \<Rightarrow> (metrics, c)
      | None \<Rightarrow> let metrics = newLiveRealtimeModelMetrics provider modelName
          in (metrics, c\<lparr>lc_models := map_set key metrics (lc_models c)\<rparr>))"

text \<open>A change of the metrics of a model through the pointer that \<open>ensureModel\<close> returns.\<close>

definition withModel ::
  "string \<Rightarrow> string \<Rightarrow> (liveRealtimeModelMetrics \<Rightarrow> liveRealtimeModelMetrics)
   \<Rightarrow> LiveRealtimeMetricsCollector \<Rightarrow> LiveRealtimeMetricsCollector" where
  "withModel provider modelName f c =
     (let (metrics, c) = ensureModel provider modelName c
      in c\<lparr>lc_models := map_set (liveRealtimeModelKey provider modelName) (f metrics) (lc_models c)\<rparr>)"

definition countStart :: "liveRealtimeModelMetrics \<Rightarrow> liveRealtimeModelMetrics" where
  "countStart m = m\<lparr>lm_ActiveSessions := lm_ActiveSessions m + 1, lm_SessionsStarted := lm_SessionsStarted m + 1\<rparr>"

definition dropActive :: "liveRealtimeModelMetrics \<Rightarrow> liveRealtimeModelMetrics" where
  "dropActive m = (if lm_ActiveSessions m > 0 then m\<lparr>lm_ActiveSessions := lm_ActiveSessions m - 1\<rparr> else m)"

definition dropStarted :: "liveRealtimeModelMetrics \<Rightarrow> liveRealtimeModelMetrics" where
  "dropStarted m = (if lm_SessionsStarted m > 0 then m\<lparr>lm_SessionsStarted := lm_SessionsStarted m - 1\<rparr> else m)"

section \<open>Operations\<close>

definition blank :: "string \<Rightarrow> bool" where
  "blank s \<longleftrightarrow> TrimSpace s = []"

definition putSession :: "string \<Rightarrow> liveRealtimeSession \<Rightarrow> LiveRealtimeMetricsCollector \<Rightarrow> LiveRealtimeMetricsCollector" where
  "putSession sessionID session c = c\<lparr>lc_sessions := map_set sessionID session (lc_sessions c)\<rparr>"

text \<open>The session \<open>ObserveSession\<close> works on, and what it takes back from the model the session leaves.\<close>

definition openSession :: "string \<Rightarrow> time \<Rightarrow> LiveRealtimeMetricsCollector \<Rightarrow> liveRealtimeSession" where
  "openSession sessionID startedAt c =
     (let session = (case map_of (lc_sessions c) sessionID of
            Some s \<Rightarrow> s | None \<Rightarrow> newSessionState sessionID [] [] startedAt True);
          session = (if ls_StartedAt session = zero_time then session\<lparr>ls_StartedAt := startedAt\<rparr> else session)
      in if \<not> ls_Active session \<and> \<not> ls_Completed session then session\<lparr>ls_Active := True\<rparr> else session)"

definition leaveModel :: "liveRealtimeSession \<Rightarrow> LiveRealtimeMetricsCollector \<Rightarrow> LiveRealtimeMetricsCollector" where
  "leaveModel session c =
     (let c = withModel (ls_Provider session) (ls_ModelName session) dropActive c
      in if \<not> ls_HasToken session \<and> \<not> ls_HasTool session \<and> \<not> ls_HasPatch session
            \<and> \<not> ls_HasResult session \<and> \<not> ls_HasTest session
         then withModel (ls_Provider session) (ls_ModelName session) dropStarted c
         else c)"

definition ObserveSession ::
  "string \<Rightarrow> string \<Rightarrow> string \<Rightarrow> time \<Rightarrow> LiveRealtimeMetricsCollector \<Rightarrow> LiveRealtimeMetricsCollector" where
  "ObserveSession sessionID provider modelName startedAt c =
     (if blank sessionID \<or> blank provider \<or> blank modelName then c
      else
        let newSession = (map_of (lc_sessions c) sessionID = None);
            session = openSession sessionID startedAt c;
            providerChanged = (ls_Provider session \<noteq> [] \<and> ls_Provider session \<noteq> provider);
            modelChanged = (ls_ModelName session \<noteq> [] \<and> ls_ModelName session \<noteq> modelName);
            c = (if providerChanged \<or> modelChanged then leaveModel session c else c) in
        if ls_Provider session = provider \<and> ls_ModelName session = modelName then
          putSession sessionID session (if newSession then withModel provider modelName countStart c else c)
        else
          let session = session\<lparr>ls_Provider := provider, ls_ModelName := modelName\<rparr>;
              c = putSession sessionID session (snd (ensureModel provider modelName c)) in
          if \<not> newSession \<and> \<not> providerChanged \<and> \<not> modelChanged \<and> ls_Active session then c
          else withModel provider modelName countStart c)"

text \<open>The part of \<open>ObserveDelta\<close> that depends on the kind of the delta.\<close>

definition countDelta ::
  "AgentDeltaKind \<Rightarrow> int \<Rightarrow> liveRealtimeSession \<times> liveRealtimeModelMetrics
   \<Rightarrow> liveRealtimeSession \<times> liveRealtimeModelMetrics" where
  "countDelta kind latency = (\<lambda>(s, m).
     case kind of
       AgentDeltaToken \<Rightarrow>
         let m = m\<lparr>lm_TokensStreamedTotal := lm_TokensStreamedTotal m + 1\<rparr>
         in if \<not> ls_HasToken s then (s\<lparr>ls_HasToken := True\<rparr>,
              m\<lparr>lm_TimeToFirstTokenMS := histogramObserve latency (lm_TimeToFirstTokenMS m)\<rparr>) else (s, m)
     | AgentDeltaToolStarted \<Rightarrow>
         let m = m\<lparr>lm_ToolsStartedTotal := lm_ToolsStartedTotal m + 1\<rparr>
         in if \<not> ls_HasTool s then (s\<lparr>ls_HasTool := True\<rparr>,
              m\<lparr>lm_TimeToFirstToolMS := histogramObserve latency (lm_TimeToFirstToolMS m)\<rparr>) else (s, m)
     | AgentDeltaToolFinished \<Rightarrow> (s, m\<lparr>lm_ToolsFinishedTotal := lm_ToolsFinishedTotal m + 1\<rparr>)
     | AgentDeltaPatchPreview \<Rightarrow>
         let m = m\<lparr>lm_PatchesPreviewedTotal := lm_PatchesPreviewedTotal m + 1\<rparr>
         in if \<not> ls_HasPatch s then (s\<lparr>ls_HasPatch := True\<rparr>,
              m\<lparr>lm_TimeToFirstPatchMS := histogramObserve latency (lm_TimeToFirstPatchMS m)\<rparr>) else (s, m)
     | AgentDeltaPatchApplyFinish \<Rightarrow> (s, m\<lparr>lm_PatchesAppliedTotal := lm_PatchesAppliedTotal m + 1\<rparr>)
     | AgentDeltaPartialResult \<Rightarrow>
         if \<not> ls_HasResult s then (s\<lparr>ls_HasResult := True\<rparr>,
           m\<lparr>lm_TimeToFirstResultMS := histogramObserve latency (lm_TimeToFirstResultMS m)\<rparr>) else (s, m)
     | AgentDeltaFinalResult \<Rightarrow>
         if \<not> ls_HasResult s then (s\<lparr>ls_HasResult := True\<rparr>,
           m\<lparr>lm_TimeToFirstResultMS := histogramObserve latency (lm_TimeToFirstResultMS m)\<rparr>) else (s, m)
     | AgentDeltaTestStarted \<Rightarrow>
         let m = m\<lparr>lm_TestsStartedTotal := lm_TestsStartedTotal m + 1\<rparr>
         in if \<not> ls_HasTest s then (s\<lparr>ls_HasTest := True\<rparr>,
              m\<lparr>lm_TimeToFirstTestMS := histogramObserve latency (lm_TimeToFirstTestMS m)\<rparr>) else (s, m)
     | AgentDeltaTestFinished \<Rightarrow> (s, m\<lparr>lm_TestsFinishedTotal := lm_TestsFinishedTotal m + 1\<rparr>)
     | _ \<Rightarrow> (s, m))"

definition countTransport ::
  "RuntimeTransportMode \<Rightarrow> liveRealtimeSession \<times> liveRealtimeModelMetrics
   \<Rightarrow> liveRealtimeSession \<times> liveRealtimeModelMetrics" where
  "countTransport mode = (\<lambda>(s, m).
     if ls_TransportCounted s then (s, m)
     else (s\<lparr>ls_TransportMode := mode, ls_TransportCounted := True\<rparr>,
       (case mode of
          RuntimeTransportNativeStream \<Rightarrow> m\<lparr>lm_NativeStreamSessions := lm_NativeStreamSessions m + 1\<rparr>
        | RuntimeTransportPseudoRealtime \<Rightarrow> m\<lparr>lm_PseudoRealtimeSessions := lm_PseudoRealtimeSessions m + 1\<rparr>
        | _ \<Rightarrow> m\<lparr>lm_BufferedSessions := lm_BufferedSessions m + 1\<rparr>)))"

definition deltaLatencyMS :: "AgentDelta \<Rightarrow> liveRealtimeSession \<Rightarrow> int" where
  "deltaLatencyMS delta session =
     (if ls_StartedAt session = zero_time \<or> ad_Timestamp delta = zero_time then 0
      else Milliseconds (Sub (ad_Timestamp delta) (ls_StartedAt session)))"

text \<open>The rest of \<open>ObserveDelta\<close> once the session is bound to a model.\<close>

definition recordDelta ::
  "(any \<Rightarrow> string) \<Rightarrow> AgentDelta \<Rightarrow> liveRealtimeSession \<Rightarrow> LiveRealtimeMetricsCollector \<Rightarrow> LiveRealtimeMetricsCollector" where
  "recordDelta sprint delta session c =
     (let (model, c) = ensureModel (ls_Provider session) (ls_ModelName session) c;
          (session, model) = countTransport (liveTransportMode sprint delta) (session, model);
          session = (if ls_StartedAt session = zero_time then session\<lparr>ls_StartedAt := ad_Timestamp delta\<rparr> else session);
          (session, model) = countDelta (ad_Kind delta) (deltaLatencyMS delta session) (session, model)
      in putSession (ad_SessionID delta) session
           (c\<lparr>lc_models := map_set (liveRealtimeModelKey (ls_Provider session) (ls_ModelName session)) model (lc_models c)\<rparr>))"

definition ObserveDelta ::
  "(any \<Rightarrow> string) \<Rightarrow> AgentDelta \<Rightarrow> LiveRealtimeMetricsCollector \<Rightarrow> LiveRealtimeMetricsCollector" where
  "ObserveDelta sprint delta c =
     (if blank (ad_SessionID delta) \<or> blank (ad_Provider delta) \<or> blank (ad_ModelName delta) then c
      else
        let (session, c) = (case map_of (lc_sessions c) (ad_SessionID delta) of
               Some s \<Rightarrow> (s, c)
             | None \<Rightarrow> (newSessionState (ad_SessionID delta) (ad_Provider delta) (ad_ModelName delta) (ad_Timestamp delta) True,
                 withModel (ad_Provider delta) (ad_ModelName delta) countStart c)) in
        if ls_Provider session = [] \<or> ls_ModelName session = [] then
          recordDelta sprint delta (session\<lparr>ls_Provider := ad_Provider delta, ls_ModelName := ad_ModelName delta\<rparr>)
            (withModel (ad_Provider delta) (ad_ModelName delta) countStart c)
        else recordDelta sprint delta session c)"

definition countComplete :: "bool \<Rightarrow> time \<Rightarrow> time \<Rightarrow> liveRealtimeModelMetrics \<Rightarrow> liveRealtimeModelMetrics" where
  "countComplete failed startedAt finishedAt m =
     (let m = m\<lparr>lm_SessionsCompleted := lm_SessionsCompleted m + 1\<rparr>;
          m = (if failed then m\<lparr>lm_SessionsFailed := lm_SessionsFailed m + 1\<rparr> else m)
      in if startedAt \<noteq> zero_time \<and> finishedAt \<noteq> zero_time
         then m\<lparr>lm_TotalCompletionMS := histogramObserve (Milliseconds (Sub finishedAt startedAt)) (lm_TotalCompletionMS m)\<rparr>
         else m)"

definition CompleteSession ::
  "string \<Rightarrow> string \<Rightarrow> string \<Rightarrow> time \<Rightarrow> bool \<Rightarrow> LiveRealtimeMetricsCollector \<Rightarrow> LiveRealtimeMetricsCollector" where
  "CompleteSession sessionID provider modelName finishedAt failed c =
     (if blank sessionID then c
      else
        let session = (case map_of (lc_sessions c) sessionID of
               Some s \<Rightarrow> s | None \<Rightarrow> newSessionState sessionID provider modelName finishedAt False);
            session = (if ls_Provider session = [] then session\<lparr>ls_Provider := provider\<rparr> else session);
            session = (if ls_ModelName session = [] then session\<lparr>ls_ModelName := modelName\<rparr> else session) in
        if blank (ls_Provider session) \<or> blank (ls_ModelName session) then putSession sessionID session c
        else
          let c = snd (ensureModel (ls_Provider session) (ls_ModelName session) c);
              c = (if ls_Active session then withModel (ls_Provider session) (ls_ModelName session) dropActive c else c);
              completed = ls_Completed session;
              session = session\<lparr>ls_Active := False, ls_Completed := True\<rparr>;
              c = putSession sessionID session c in
          if completed then c
          else withModel (ls_Provider session) (ls_ModelName session)
            (countComplete failed (ls_StartedAt session) finishedAt) c)"

section \<open>Reading\<close>

record LiveRealtimeMetricsSnapshot =
  lv_ActiveSessions :: int
  lv_TrackedSessions :: int
  lv_Models :: "LiveRealtimeModelMetricsSnapshot list"

definition Snapshot :: "LiveRealtimeMetricsCollector \<Rightarrow> LiveRealtimeMetricsSnapshot" where
  "Snapshot c = \<lparr>lv_ActiveSessions = sum_list (map (lm_ActiveSessions \<circ> snd) (lc_models c)),
     lv_TrackedSessions = int (length (lc_sessions c)),
     lv_Models = map modelSnapshot (sort_key lm_Provider (sort_key lm_ModelName (map snd (lc_models c))))\<rparr>"

record LiveRealtimeModelSummary =
  lr_Provider :: string
  lr_ModelName :: string
  lr_FailureRate :: rat
  lr_NativeStreamSessions :: int
  lr_PseudoRealtimeSessions :: int
  lr_BufferedSessions :: int
  lr_AvgTimeToFirstTokenMS :: int
  lr_AvgTotalCompletionMS :: int

definition ModelSummary :: "string \<Rightarrow> string \<Rightarrow> LiveRealtimeMetricsCollector \<Rightarrow> LiveRealtimeModelSummary option" where
  "ModelSummary provider model c =
     (case map_of (lc_models c) (liveRealtimeModelKey provider model) of
        None \<Rightarrow> None
      | Some metrics \<Rightarrow>
          let snapshot = modelSnapshot metrics
          in Some \<lparr>lr_Provider = lm_Provider metrics, lr_ModelName = lm_ModelName metrics,
               lr_FailureRate = mm_FailureRate snapshot,
               lr_NativeStreamSessions = lm_NativeStreamSessions metrics,
               lr_PseudoRealtimeSessions = lm_PseudoRealtimeSessions metrics,
               lr_BufferedSessions = lm_BufferedSessions metrics,
               lr_AvgTimeToFirstTokenMS = mm_AvgTimeToFirstTokenMS snapshot,
               lr_AvgTotalCompletionMS = mm_AvgTotalCompletionMS snapshot\<rparr>)"

section \<open>Counters\<close>

definition session_key :: "liveRealtimeSession \<Rightarrow> string" where
  "session_key s = liveRealtimeModelKey (ls_Provider s) (ls_ModelName s)"

text \<open>How many sessions of a model satisfy a condition, and the value of one of its counters.\<close>

definition sessions_of :: "(liveRealtimeSession \<Rightarrow> bool) \<Rightarrow> string \<Rightarrow> LiveRealtimeMetricsCollector \<Rightarrow> int" where
  "sessions_of Q k c = int (length (filter (\<lambda>(_, s). session_key s = k \<and> Q s) (lc_sessions c)))"

definition counter :: "(liveRealtimeModelMetrics \<Rightarrow> int) \<Rightarrow> string \<Rightarrow> LiveRealtimeMetricsCollector \<Rightarrow> int" where
  "counter g k c = (case map_of (lc_models c) k of None \<Rightarrow> 0 | Some m \<Rightarrow> g m)"

lemma length_filter_map_set:
  assumes "distinct (map fst m)"
  shows "int (length (filter P (map_set k v m))) = int (length (filter P m)) + of_bool (P (k, v))
    - (case map_of m k of None \<Rightarrow> 0 | Some w \<Rightarrow> of_bool (P (k, w)))"
  using assms
proof (induction m)
  case (Cons p m)
  obtain a b where p: "p = (a, b)" by (cases p)
  have "k = a \<Longrightarrow> map_of m k = None"
    using Cons.prems by (auto simp: p map_of_eq_None_iff)
  then show ?case using Cons by (auto simp: p)
qed simp

lemma sessions_of_put:
  assumes "distinct (map fst (lc_sessions c))"
  shows "sessions_of Q k (putSession i s c) = sessions_of Q k c + of_bool (session_key s = k \<and> Q s)
    - (case map_of (lc_sessions c) i of None \<Rightarrow> 0 | Some t \<Rightarrow> of_bool (session_key t = k \<and> Q t))"
  using length_filter_map_set [OF assms, of "\<lambda>(_, s). session_key s = k \<and> Q s" i s]
  by (simp add: sessions_of_def putSession_def split: option.splits)

lemma ensureModel_simps [simp]:
  "lc_sessions (snd (ensureModel p n c)) = lc_sessions c"
  "map_of (lc_models (snd (ensureModel p n c))) (liveRealtimeModelKey p n) = Some (fst (ensureModel p n c))"
  "lc_sessions (withModel p n f c) = lc_sessions c"
  by (simp_all add: ensureModel_def withModel_def Let_def split_beta split: option.split)

lemma lc_putSession [simp]:
  "lc_models (putSession i s c) = lc_models c" "lc_sessions (putSession i s c) = map_set i s (lc_sessions c)"
  by (simp_all add: putSession_def)

text \<open>Counters that a new model starts at zero.\<close>

definition from_zero :: "(liveRealtimeModelMetrics \<Rightarrow> int) \<Rightarrow> bool" where
  "from_zero g \<longleftrightarrow> (\<forall>p n. g (newLiveRealtimeModelMetrics p n) = 0)"

lemma from_zero_counters [simp]:
  "from_zero lm_ActiveSessions" "from_zero lm_SessionsStarted" "from_zero lm_SessionsCompleted" "from_zero lm_SessionsFailed"
  by (simp_all add: from_zero_def newLiveRealtimeModelMetrics_def)

lemma counter_ensure:
  assumes "from_zero g"
  shows "counter g k (snd (ensureModel p n c)) = counter g k c"
    and "g (fst (ensureModel p n c)) = counter g (liveRealtimeModelKey p n) c"
  using assms by (auto simp: counter_def ensureModel_def Let_def from_zero_def split: option.split)

lemma counter_with:
  assumes "from_zero g"
  shows "counter g k (withModel p n f c) =
    (if k = liveRealtimeModelKey p n then g (f (fst (ensureModel p n c))) else counter g k c)"
  using counter_ensure(1) [OF assms, of k p n c]
  by (auto simp: withModel_def counter_def split_beta)

lemma counter_put [simp]: "counter g k (putSession i s c) = counter g k c"
  by (simp add: counter_def)

lemmas counters = counter_with counter_ensure countStart_def dropActive_def dropStarted_def

lemma sessions_of_with [simp]:
  "sessions_of Q k (withModel p n f c) = sessions_of Q k c" "sessions_of Q k (snd (ensureModel p n c)) = sessions_of Q k c"
  by (simp_all add: sessions_of_def)

section \<open>Sessions in order\<close>

text \<open>
  The order of calls the orchestrator is meant to keep: a session is observed before it is completed
  and is not moved to another model afterwards.
\<close>

inductive live_step :: "LiveRealtimeMetricsCollector \<Rightarrow> LiveRealtimeMetricsCollector \<Rightarrow> bool" where
  observe: "(\<And>s. map_of (lc_sessions c) sid = Some s \<Longrightarrow> ls_Completed s \<Longrightarrow> ls_Provider s = provider \<and> ls_ModelName s = modelName) \<Longrightarrow>
     live_step c (ObserveSession sid provider modelName startedAt c)"
| delta: "live_step c (ObserveDelta sprint d c)"
| finish: "map_of (lc_sessions c) sid \<noteq> None \<Longrightarrow> live_step c (CompleteSession sid provider modelName finishedAt failed c)"

inductive live_reachable :: "LiveRealtimeMetricsCollector \<Rightarrow> bool" where
  new: "live_reachable NewLiveRealtimeMetricsCollector"
| step: "live_reachable c \<Longrightarrow> live_step c c' \<Longrightarrow> live_reachable c'"

text \<open>A session is bound to a model and is either active or completed; the counters agree with the sessions.\<close>

definition session_ok :: "liveRealtimeSession \<Rightarrow> bool" where
  "session_ok s \<longleftrightarrow> \<not> blank (ls_Provider s) \<and> \<not> blank (ls_ModelName s) \<and> ls_Active s = (\<not> ls_Completed s)"

definition counts_ok :: "string \<Rightarrow> LiveRealtimeMetricsCollector \<Rightarrow> bool" where
  "counts_ok k c \<longleftrightarrow> counter lm_ActiveSessions k c = sessions_of ls_Active k c
     \<and> counter lm_SessionsCompleted k c = sessions_of ls_Completed k c
     \<and> sessions_of (\<lambda>_. True) k c \<le> counter lm_SessionsStarted k c
     \<and> 0 \<le> counter lm_SessionsFailed k c \<and> counter lm_SessionsFailed k c \<le> counter lm_SessionsCompleted k c"

definition live_inv :: "LiveRealtimeMetricsCollector \<Rightarrow> bool" where
  "live_inv c \<longleftrightarrow> distinct (map fst (lc_sessions c)) \<and> (\<forall>i s. map_of (lc_sessions c) i = Some s \<longrightarrow> session_ok s)
     \<and> (\<forall>k. counts_ok k c)"

lemma live_inv_new: "live_inv NewLiveRealtimeMetricsCollector"
  by (simp add: live_inv_def counts_ok_def NewLiveRealtimeMetricsCollector_def sessions_of_def counter_def)

lemma blank_Nil [simp]: "blank []"
  by (simp add: blank_def)

lemma sessions_of_member:
  assumes "map_of (lc_sessions c) i = Some s" "Q s"
  shows "0 < sessions_of Q (session_key s) c"
proof -
  have "(i, s) \<in> set (filter (\<lambda>(_, t). session_key t = session_key s \<and> Q t) (lc_sessions c))"
    using assms map_of_SomeD by fastforce
  then show ?thesis unfolding sessions_of_def by (cases "filter (\<lambda>(_, t). session_key t = session_key s \<and> Q t) (lc_sessions c)") auto
qed


text \<open>
  An operation stores one session; it keeps the invariant when each counter follows the change of the
  sessions it counts.
\<close>

definition was :: "(liveRealtimeSession \<Rightarrow> bool) \<Rightarrow> string \<Rightarrow> string \<Rightarrow> LiveRealtimeMetricsCollector \<Rightarrow> int" where
  "was Q i k c = (case map_of (lc_sessions c) i of None \<Rightarrow> 0 | Some t \<Rightarrow> of_bool (session_key t = k \<and> Q t))"

lemma live_inv_put:
  assumes inv: "live_inv c" and s: "lc_sessions c' = map_set i s (lc_sessions c)" and ok: "session_ok s"
    and act: "\<And>k. counter lm_ActiveSessions k c' - counter lm_ActiveSessions k c =
      of_bool (session_key s = k \<and> ls_Active s) - was ls_Active i k c"
    and com: "\<And>k. counter lm_SessionsCompleted k c' - counter lm_SessionsCompleted k c =
      of_bool (session_key s = k \<and> ls_Completed s) - was ls_Completed i k c"
    and sta: "\<And>k. counter lm_SessionsStarted k c' - counter lm_SessionsStarted k c \<ge>
      of_bool (session_key s = k) - was (\<lambda>_. True) i k c"
    and fai: "\<And>k. 0 \<le> counter lm_SessionsFailed k c' - counter lm_SessionsFailed k c"
      "\<And>k. counter lm_SessionsFailed k c' - counter lm_SessionsFailed k c \<le>
         counter lm_SessionsCompleted k c' - counter lm_SessionsCompleted k c"
  shows "live_inv c'"
proof -
  have d: "distinct (map fst (lc_sessions c))"
    using inv by (simp add: live_inv_def)
  have n: "sessions_of Q k c' = sessions_of Q k c + of_bool (session_key s = k \<and> Q s) - was Q i k c" for Q k
    using sessions_of_put [OF d, of Q k i s] by (simp add: sessions_of_def was_def s split: option.split)
  have "counts_ok k c'" for k
  proof -
    have "counts_ok k c" using inv by (simp add: live_inv_def)
    then show ?thesis
      using act [of k] com [of k] sta [of k] fai [of k] n [of ls_Active k] n [of ls_Completed k] n [of "\<lambda>_. True" k]
      unfolding counts_ok_def by auto
  qed
  then show ?thesis
    using inv d ok by (auto simp: live_inv_def s distinct_map_set split: if_splits)
qed

lemma counter_same:
  assumes "from_zero g" "\<And>m. g (f m) = g m"
  shows "counter g k (withModel p n f c) = counter g k c"
  using counter_ensure(2) [OF assms(1), of p n c] assms by (simp add: counter_with)

lemma counter_start:
  "counter lm_ActiveSessions k (withModel p n countStart c) = counter lm_ActiveSessions k c + of_bool (k = liveRealtimeModelKey p n)"
  "counter lm_SessionsStarted k (withModel p n countStart c) = counter lm_SessionsStarted k c + of_bool (k = liveRealtimeModelKey p n)"
  "counter lm_SessionsCompleted k (withModel p n countStart c) = counter lm_SessionsCompleted k c"
  "counter lm_SessionsFailed k (withModel p n countStart c) = counter lm_SessionsFailed k c"
  by (simp_all add: counter_with counter_ensure(2) countStart_def)

lemma counter_dropActive:
  "0 < counter lm_ActiveSessions (liveRealtimeModelKey p n) c \<Longrightarrow>
     counter lm_ActiveSessions k (withModel p n dropActive c) = counter lm_ActiveSessions k c - of_bool (k = liveRealtimeModelKey p n)"
  "counter lm_SessionsStarted k (withModel p n dropActive c) = counter lm_SessionsStarted k c"
  "counter lm_SessionsCompleted k (withModel p n dropActive c) = counter lm_SessionsCompleted k c"
  "counter lm_SessionsFailed k (withModel p n dropActive c) = counter lm_SessionsFailed k c"
  by (simp_all add: counter_with counter_ensure(2) dropActive_def)

lemma counter_dropStarted:
  "counter lm_ActiveSessions k (withModel p n dropStarted c) = counter lm_ActiveSessions k c"
  "counter lm_SessionsStarted k (withModel p n dropStarted c) \<ge> counter lm_SessionsStarted k c - of_bool (k = liveRealtimeModelKey p n)"
  "counter lm_SessionsCompleted k (withModel p n dropStarted c) = counter lm_SessionsCompleted k c"
  "counter lm_SessionsFailed k (withModel p n dropStarted c) = counter lm_SessionsFailed k c"
  by (simp_all add: counter_with counter_ensure(2) dropStarted_def)

lemma active_counted:
  assumes "live_inv c" "map_of (lc_sessions c) i = Some t" "ls_Active t"
  shows "0 < counter lm_ActiveSessions (liveRealtimeModelKey (ls_Provider t) (ls_ModelName t)) c"
  using sessions_of_member [of c i t ls_Active] assms unfolding session_key_def
  by (simp add: live_inv_def counts_ok_def)

lemma ObserveSession_new:
  assumes "map_of (lc_sessions c) i = None" "\<not> blank i" "\<not> blank p" "\<not> blank n"
  shows "\<exists>s. ObserveSession i p n t c = withModel p n countStart (putSession i s (snd (ensureModel p n c)))
    \<and> ls_Provider s = p \<and> ls_ModelName s = n \<and> ls_Active s \<and> \<not> ls_Completed s"
proof -
  define s where "s = openSession i t c"
  have s: "ls_Provider s = []" "ls_ModelName s = []" "ls_Active s" "\<not> ls_Completed s"
    by (simp_all add: s_def openSession_def assms(1) newSessionState_def Let_def)
  have "p \<noteq> []" "n \<noteq> []" using assms by auto
  then have "ObserveSession i p n t c = withModel p n countStart
      (putSession i (s\<lparr>ls_Provider := p, ls_ModelName := n\<rparr>) (snd (ensureModel p n c)))"
    unfolding ObserveSession_def Let_def s_def [symmetric] using assms s by simp
  then show ?thesis using s by (intro exI [of _ "s\<lparr>ls_Provider := p, ls_ModelName := n\<rparr>"]) simp
qed

lemma ObserveSession_known:
  assumes "map_of (lc_sessions c) i = Some s" "session_ok s" "\<not> blank i" "\<not> blank p" "\<not> blank n"
  shows "\<exists>s'. ObserveSession i p n t c = (if ls_Provider s = p \<and> ls_ModelName s = n then putSession i s' c
      else withModel p n countStart (putSession i s' (snd (ensureModel p n (leaveModel s c)))))
    \<and> ls_Provider s' = p \<and> ls_ModelName s' = n \<and> ls_Active s' = ls_Active s \<and> ls_Completed s' = ls_Completed s"
proof -
  define u where "u = openSession i t c"
  have nn: "ls_Provider s \<noteq> []" "ls_ModelName s \<noteq> []" "ls_Active s = (\<not> ls_Completed s)"
    using assms(2) by (auto simp: session_ok_def)
  have u: "ls_Provider u = ls_Provider s" "ls_ModelName u = ls_ModelName s" "ls_Active u = ls_Active s"
    "ls_Completed u = ls_Completed s" "leaveModel u = leaveModel s"
  proof -
    have "u = s \<or> u = s\<lparr>ls_StartedAt := t\<rparr>"
      using nn(3) by (simp add: u_def openSession_def assms(1) Let_def)
    moreover have "leaveModel (s\<lparr>ls_StartedAt := t\<rparr>) = leaveModel s"
      by (rule ext) (simp add: leaveModel_def Let_def)
    ultimately show "ls_Provider u = ls_Provider s" "ls_ModelName u = ls_ModelName s" "ls_Active u = ls_Active s"
      "ls_Completed u = ls_Completed s" "leaveModel u = leaveModel s" by auto
  qed
  have "ObserveSession i p n t c = (if ls_Provider s = p \<and> ls_ModelName s = n then putSession i u c
      else withModel p n countStart (putSession i (u\<lparr>ls_Provider := p, ls_ModelName := n\<rparr>) (snd (ensureModel p n (leaveModel u c)))))"
  proof (cases "ls_Provider s = p \<and> ls_ModelName s = n")
    case True
    then show ?thesis
      unfolding ObserveSession_def Let_def u_def [symmetric] u(1-4) using assms(1,3-5) by simp
  next
    case False
    then show ?thesis
      unfolding ObserveSession_def Let_def u_def [symmetric] u(1-4) using assms(1,3-5) nn(1,2)
      by (cases "ls_Provider s = p"; cases "ls_ModelName s = n") simp_all
  qed
  then show ?thesis
    using u by (intro exI [of _ "if ls_Provider s = p \<and> ls_ModelName s = n then u else u\<lparr>ls_Provider := p, ls_ModelName := n\<rparr>"]) simp
qed

lemma live_inv_leave:
  fixes c s
  assumes "live_inv c" "map_of (lc_sessions c) i = Some s" "ls_Active s"
  defines "d \<equiv> leaveModel s c"
  shows "lc_sessions d = lc_sessions c"
    and "counter lm_ActiveSessions k d = counter lm_ActiveSessions k c - of_bool (k = session_key s)"
    and "counter lm_SessionsStarted k d \<ge> counter lm_SessionsStarted k c - of_bool (k = session_key s)"
    and "counter lm_SessionsCompleted k d = counter lm_SessionsCompleted k c"
    and "counter lm_SessionsFailed k d = counter lm_SessionsFailed k c"
proof -
  let ?e = "withModel (ls_Provider s) (ls_ModelName s) dropActive c"
  note a = active_counted [OF assms(1-3)]
  show "lc_sessions d = lc_sessions c"
    by (simp add: d_def leaveModel_def Let_def)
  show "counter lm_ActiveSessions k d = counter lm_ActiveSessions k c - of_bool (k = session_key s)"
    using a by (simp add: d_def leaveModel_def Let_def session_key_def counter_dropActive counter_dropStarted)
  show "counter lm_SessionsCompleted k d = counter lm_SessionsCompleted k c"
    "counter lm_SessionsFailed k d = counter lm_SessionsFailed k c"
    by (simp_all add: d_def leaveModel_def Let_def counter_dropActive counter_dropStarted)
  show "counter lm_SessionsStarted k d \<ge> counter lm_SessionsStarted k c - of_bool (k = session_key s)"
    using counter_dropStarted(2) [where k = k and p = "ls_Provider s" and n = "ls_ModelName s" and c = ?e]
    by (simp add: d_def leaveModel_def Let_def session_key_def counter_dropActive)
qed

lemma live_inv_observe:
  assumes inv: "live_inv c" and "\<And>s. map_of (lc_sessions c) i = Some s \<Longrightarrow> ls_Completed s \<Longrightarrow> ls_Provider s = p \<and> ls_ModelName s = n"
  shows "live_inv (ObserveSession i p n t c)"
proof (cases "blank i \<or> blank p \<or> blank n")
  case True
  then show ?thesis using inv by (simp add: ObserveSession_def)
next
  case False
  then have nb: "\<not> blank i" "\<not> blank p" "\<not> blank n" by simp_all
  show ?thesis
  proof (cases "map_of (lc_sessions c) i")
    case None
    obtain s where s: "ObserveSession i p n t c = withModel p n countStart (putSession i s (snd (ensureModel p n c)))"
      "ls_Provider s = p" "ls_ModelName s = n" "ls_Active s" "\<not> ls_Completed s"
      using ObserveSession_new [OF None nb] by blast
    show ?thesis
      by (rule live_inv_put [OF inv, of _ i s])
        (use s nb None in \<open>auto simp: session_ok_def session_key_def was_def counter_start counter_ensure(1)\<close>)
  next
    case (Some s)
    then have ok: "session_ok s" using inv by (simp add: live_inv_def)
    obtain s' where s': "ObserveSession i p n t c = (if ls_Provider s = p \<and> ls_ModelName s = n then putSession i s' c
        else withModel p n countStart (putSession i s' (snd (ensureModel p n (leaveModel s c)))))"
      "ls_Provider s' = p" "ls_ModelName s' = n" "ls_Active s' = ls_Active s" "ls_Completed s' = ls_Completed s"
      using ObserveSession_known [OF Some ok nb] by blast
    have ok': "session_ok s'" using s' nb ok by (simp add: session_ok_def)
    show ?thesis
    proof (cases "ls_Provider s = p \<and> ls_ModelName s = n")
      case True
      show ?thesis
        by (rule live_inv_put [OF inv, of _ i s']) (use s' True Some ok' in \<open>auto simp: session_key_def was_def\<close>)
    next
      case False
      then have act: "ls_Active s" "\<not> ls_Completed s"
        using assms(2) [OF Some] ok by (auto simp: session_ok_def)
      note l = live_inv_leave [OF inv Some act(1)]
      have key: "session_key s' = liveRealtimeModelKey p n" by (simp add: session_key_def s')
      have o: "ObserveSession i p n t c = withModel p n countStart (putSession i s' (snd (ensureModel p n (leaveModel s c))))"
        using s'(1) False by simp
      show ?thesis
        unfolding o
      proof (rule live_inv_put [OF inv, of _ i s'])
        show "of_bool (session_key s' = k) - was (\<lambda>_. True) i k c \<le> counter lm_SessionsStarted k
            (withModel p n countStart (putSession i s' (snd (ensureModel p n (leaveModel s c))))) - counter lm_SessionsStarted k c" for k
          using l(3) [of k] by (simp add: key Some was_def counter_start counter_ensure(1) eq_commute [of _ k])
      qed (simp_all add: key Some was_def counter_start counter_ensure(1) eq_commute [of _ k for k] l s'(4,5) act ok')
    qed
  qed
qed

definition session_kept :: "liveRealtimeSession \<Rightarrow> liveRealtimeSession \<Rightarrow> bool" where
  "session_kept s t \<longleftrightarrow> ls_Provider t = ls_Provider s \<and> ls_ModelName t = ls_ModelName s \<and> ls_Active t = ls_Active s
     \<and> ls_Completed t = ls_Completed s"

definition model_kept :: "liveRealtimeModelMetrics \<Rightarrow> liveRealtimeModelMetrics \<Rightarrow> bool" where
  "model_kept m n \<longleftrightarrow> lm_ActiveSessions n = lm_ActiveSessions m \<and> lm_SessionsStarted n = lm_SessionsStarted m \<and>
     lm_SessionsCompleted n = lm_SessionsCompleted m \<and> lm_SessionsFailed n = lm_SessionsFailed m"

lemma countTransport_kept:
  "session_kept s (fst (countTransport mode (s, m)))" "model_kept m (snd (countTransport mode (s, m)))"
  by (simp_all add: session_kept_def model_kept_def countTransport_def split: RuntimeTransportMode.split)

lemma countDelta_kept:
  "session_kept s (fst (countDelta kind lat (s, m)))" "model_kept m (snd (countDelta kind lat (s, m)))"
  by (cases kind; simp add: session_kept_def model_kept_def countDelta_def Let_def)+

text \<open>A delta stores a session that differs from the bound one in its marks only.\<close>

lemma recordDelta_effect:
  "\<exists>t n. recordDelta sprint d s b = putSession (ad_SessionID d) t (withModel (ls_Provider s) (ls_ModelName s) (\<lambda>_. n) b)
    \<and> session_kept s t \<and> model_kept (fst (ensureModel (ls_Provider s) (ls_ModelName s) b)) n"
proof -
  define m where "m = fst (ensureModel (ls_Provider s) (ls_ModelName s) b)"
  define p where "p = countTransport (liveTransportMode sprint d) (s, m)"
  define u where "u = (if ls_StartedAt (fst p) = zero_time then (fst p)\<lparr>ls_StartedAt := ad_Timestamp d\<rparr> else fst p)"
  define q where "q = countDelta (ad_Kind d) (deltaLatencyMS d u) (u, snd p)"
  have "session_kept s (fst p)" "model_kept m (snd p)" "session_kept u (fst q)" "model_kept (snd p) (snd q)"
    unfolding p_def q_def by (rule countTransport_kept countDelta_kept)+
  moreover have "session_kept (fst p) u" by (simp add: u_def session_kept_def)
  ultimately have s1: "session_kept s (fst q)" "model_kept m (snd q)"
    unfolding session_kept_def model_kept_def by metis+
  have "recordDelta sprint d s b = putSession (ad_SessionID d) (fst q)
      ((snd (ensureModel (ls_Provider s) (ls_ModelName s) b))\<lparr>lc_models := map_set
        (liveRealtimeModelKey (ls_Provider (fst q)) (ls_ModelName (fst q))) (snd q)
        (lc_models (snd (ensureModel (ls_Provider s) (ls_ModelName s) b)))\<rparr>)"
    unfolding recordDelta_def Let_def split_beta q_def u_def p_def m_def by simp
  then show ?thesis
    using s1 unfolding m_def by (intro exI [of _ "fst q"] exI [of _ "snd q"]) (simp add: withModel_def split_beta session_kept_def)
qed

lemma ObserveDelta_effect:
  assumes "\<not> blank (ad_SessionID d)" "\<not> blank (ad_Provider d)" "\<not> blank (ad_ModelName d)"
    and "(s, b) = (case map_of (lc_sessions c) (ad_SessionID d) of
        Some s \<Rightarrow> (s, c)
      | None \<Rightarrow> (newSessionState (ad_SessionID d) (ad_Provider d) (ad_ModelName d) (ad_Timestamp d) True,
          withModel (ad_Provider d) (ad_ModelName d) countStart c))"
    and "\<not> blank (ls_Provider s)" "\<not> blank (ls_ModelName s)"
  shows "ObserveDelta sprint d c = recordDelta sprint d s b"
proof -
  have "ls_Provider s \<noteq> []" "ls_ModelName s \<noteq> []" using assms(5,6) by auto
  then show ?thesis
    using assms(1-3) unfolding ObserveDelta_def assms(4) [symmetric] by simp
qed

lemma counter_model_kept:
  assumes "model_kept (fst (ensureModel p n c)) x"
  shows "counter lm_ActiveSessions k (withModel p n (\<lambda>_. x) c) = counter lm_ActiveSessions k c"
    "counter lm_SessionsStarted k (withModel p n (\<lambda>_. x) c) = counter lm_SessionsStarted k c"
    "counter lm_SessionsCompleted k (withModel p n (\<lambda>_. x) c) = counter lm_SessionsCompleted k c"
    "counter lm_SessionsFailed k (withModel p n (\<lambda>_. x) c) = counter lm_SessionsFailed k c"
  using assms by (simp_all add: counter_with counter_ensure(2) model_kept_def)

lemma live_inv_delta:
  assumes inv: "live_inv c"
  shows "live_inv (ObserveDelta sprint d c)"
proof (cases "blank (ad_SessionID d) \<or> blank (ad_Provider d) \<or> blank (ad_ModelName d)")
  case True
  then show ?thesis using inv by (simp add: ObserveDelta_def)
next
  case False
  define sb where "sb = (case map_of (lc_sessions c) (ad_SessionID d) of
        Some s \<Rightarrow> (s, c)
      | None \<Rightarrow> (newSessionState (ad_SessionID d) (ad_Provider d) (ad_ModelName d) (ad_Timestamp d) True,
          withModel (ad_Provider d) (ad_ModelName d) countStart c))"
  have ok: "session_ok (fst sb)"
    using inv False by (auto simp: sb_def live_inv_def session_ok_def newSessionState_def split: option.split)
  then obtain t n where t: "ObserveDelta sprint d c = putSession (ad_SessionID d) t
      (withModel (ls_Provider (fst sb)) (ls_ModelName (fst sb)) (\<lambda>_. n) (snd sb))" "session_kept (fst sb) t"
    "model_kept (fst (ensureModel (ls_Provider (fst sb)) (ls_ModelName (fst sb)) (snd sb))) n"
    using ObserveDelta_effect [of d "fst sb" "snd sb" c sprint] recordDelta_effect [of sprint d "fst sb" "snd sb"] False
    unfolding sb_def [symmetric] session_ok_def by auto
  have tk: "session_ok t" "session_key t = session_key (fst sb)" "ls_Active t = ls_Active (fst sb)" "ls_Completed t = ls_Completed (fst sb)"
    using t(2) ok by (simp_all add: session_ok_def session_kept_def session_key_def)
  note k = counter_model_kept [OF t(3)]
  show ?thesis
  proof (cases "map_of (lc_sessions c) (ad_SessionID d)")
    case None
    then have s: "fst sb = newSessionState (ad_SessionID d) (ad_Provider d) (ad_ModelName d) (ad_Timestamp d) True"
      "snd sb = withModel (ad_Provider d) (ad_ModelName d) countStart c" by (simp_all add: sb_def)
    have sf: "session_key (fst sb) = liveRealtimeModelKey (ad_Provider d) (ad_ModelName d)" "ls_Active (fst sb)" "\<not> ls_Completed (fst sb)"
      by (simp_all add: s session_key_def newSessionState_def)
    show ?thesis unfolding t(1)
      by (rule live_inv_put [OF inv, of _ "ad_SessionID d" t])
        (use tk sf None in \<open>auto simp: k [unfolded s(2)] was_def s(2) counter_start\<close>)
  next
    case (Some s)
    then have s: "fst sb = s" "snd sb = c" by (simp_all add: sb_def)
    show ?thesis unfolding t(1)
      by (rule live_inv_put [OF inv, of _ "ad_SessionID d" t])
        (use tk Some in \<open>auto simp: k [unfolded s] was_def s\<close>)
  qed
qed


lemma countComplete_simps [simp]:
  "lm_ActiveSessions (countComplete failed a b m) = lm_ActiveSessions m"
  "lm_SessionsStarted (countComplete failed a b m) = lm_SessionsStarted m"
  "lm_SessionsCompleted (countComplete failed a b m) = lm_SessionsCompleted m + 1"
  "lm_SessionsFailed (countComplete failed a b m) = lm_SessionsFailed m + of_bool failed"
  by (simp_all add: countComplete_def Let_def)

lemma counter_complete:
  "counter lm_ActiveSessions k (withModel p n (countComplete failed a b) c) = counter lm_ActiveSessions k c"
  "counter lm_SessionsStarted k (withModel p n (countComplete failed a b) c) = counter lm_SessionsStarted k c"
  "counter lm_SessionsCompleted k (withModel p n (countComplete failed a b) c) =
     counter lm_SessionsCompleted k c + of_bool (k = liveRealtimeModelKey p n)"
  "counter lm_SessionsFailed k (withModel p n (countComplete failed a b) c) =
     counter lm_SessionsFailed k c + of_bool (k = liveRealtimeModelKey p n \<and> failed)"
  by (simp_all add: counter_with counter_ensure(2))

lemma CompleteSession_known:
  assumes "map_of (lc_sessions c) i = Some s" "session_ok s" "\<not> blank i"
  shows "\<exists>t. CompleteSession i p n finishedAt failed c =
      (if ls_Active s
       then withModel (ls_Provider s) (ls_ModelName s) (countComplete failed (ls_StartedAt s) finishedAt)
         (putSession i t (withModel (ls_Provider s) (ls_ModelName s) dropActive (snd (ensureModel (ls_Provider s) (ls_ModelName s) c))))
       else putSession i t (snd (ensureModel (ls_Provider s) (ls_ModelName s) c)))
    \<and> session_key t = session_key s \<and> session_ok t \<and> \<not> ls_Active t \<and> ls_Completed t"
proof -
  define t where "t = s\<lparr>ls_Active := False, ls_Completed := True\<rparr>"
  have nn: "ls_Provider s \<noteq> []" "ls_ModelName s \<noteq> []" "ls_Completed s = (\<not> ls_Active s)"
    "\<not> blank (ls_Provider s)" "\<not> blank (ls_ModelName s)"
    using assms(2) by (auto simp: session_ok_def)
  have "CompleteSession i p n finishedAt failed c = (if ls_Active s
       then withModel (ls_Provider s) (ls_ModelName s) (countComplete failed (ls_StartedAt s) finishedAt)
         (putSession i t (withModel (ls_Provider s) (ls_ModelName s) dropActive (snd (ensureModel (ls_Provider s) (ls_ModelName s) c))))
       else putSession i t (snd (ensureModel (ls_Provider s) (ls_ModelName s) c)))"
    using assms nn unfolding CompleteSession_def Let_def
    by (cases "ls_Active s") (simp_all add: t_def)
  moreover have "session_key t = session_key s \<and> session_ok t \<and> \<not> ls_Active t \<and> ls_Completed t"
    using nn by (simp add: t_def session_key_def session_ok_def)
  ultimately show ?thesis by blast
qed

lemma live_inv_complete:
  assumes inv: "live_inv c" and "map_of (lc_sessions c) i \<noteq> None"
  shows "live_inv (CompleteSession i p n finishedAt failed c)"
proof (cases "blank i")
  case True
  then show ?thesis using inv by (simp add: CompleteSession_def)
next
  case False
  obtain s where s: "map_of (lc_sessions c) i = Some s" using assms(2) by auto
  then have ok: "session_ok s" using inv by (simp add: live_inv_def)
  let ?c0 = "snd (ensureModel (ls_Provider s) (ls_ModelName s) c)"
  let ?c1 = "withModel (ls_Provider s) (ls_ModelName s) dropActive ?c0"
  obtain t where t: "CompleteSession i p n finishedAt failed c = (if ls_Active s
       then withModel (ls_Provider s) (ls_ModelName s) (countComplete failed (ls_StartedAt s) finishedAt) (putSession i t ?c1)
       else putSession i t ?c0)"
    "session_key t = session_key s" "session_ok t" "\<not> ls_Active t" "ls_Completed t"
    using CompleteSession_known [OF s ok False] by blast
  show ?thesis
  proof (cases "ls_Active s")
    case True
    have e: "CompleteSession i p n finishedAt failed c =
        withModel (ls_Provider s) (ls_ModelName s) (countComplete failed (ls_StartedAt s) finishedAt) (putSession i t ?c1)"
      using t(1) True by simp
    have "0 < counter lm_ActiveSessions (session_key s) ?c0"
      using active_counted [OF inv s True] by (simp add: session_key_def counter_ensure(1))
    note d = counter_dropActive(1) [OF this [unfolded session_key_def]] counter_dropActive(2-4)
    note k = session_key_def [of s, symmetric]
    show ?thesis unfolding e
      by (rule live_inv_put [OF inv, of _ i t])
        (use t True s ok in \<open>auto simp: k was_def counter_complete d counter_ensure(1) session_ok_def\<close>)
  next
    case False
    then have e: "CompleteSession i p n finishedAt failed c = putSession i t ?c0"
      using t(1) by simp
    show ?thesis unfolding e
      by (rule live_inv_put [OF inv, of _ i t])
        (use t False s ok in \<open>auto simp: was_def counter_ensure(1) session_ok_def\<close>)
  qed
qed

lemma live_reachable_inv: "live_reachable c \<Longrightarrow> live_inv c"
proof (induction rule: live_reachable.induct)
  case new
  then show ?case by (rule live_inv_new)
next
  case (step c c')
  from step(2) show ?case
    using step(3) by cases (auto intro: live_inv_observe live_inv_delta live_inv_complete)
qed


section \<open>Totals\<close>

lemma distinct_models:
  assumes "distinct (map fst (lc_models c))"
  shows "distinct (map fst (lc_models (snd (ensureModel p n c))))" "distinct (map fst (lc_models (withModel p n f c)))"
  using assms by (simp_all add: ensureModel_def withModel_def Let_def split_beta distinct_map_set split: option.split)

lemma distinct_models_ops:
  assumes "distinct (map fst (lc_models c))"
  shows "distinct (map fst (lc_models (ObserveSession i p n t c)))"
    and "distinct (map fst (lc_models (ObserveDelta sprint d c)))"
    and "distinct (map fst (lc_models (CompleteSession i p n f failed c)))"
proof -
  have l: "distinct (map fst (lc_models (leaveModel s c)))" for s
    using assms by (simp add: leaveModel_def Let_def distinct_models)
  then show "distinct (map fst (lc_models (ObserveSession i p n t c)))"
    using assms by (simp add: ObserveSession_def Let_def distinct_models)
  have r: "distinct (map fst (lc_models (recordDelta sprint d s b)))" if "distinct (map fst (lc_models b))" for s b
    using recordDelta_effect [of sprint d s b] distinct_models(2) [OF that] by auto
  then show "distinct (map fst (lc_models (ObserveDelta sprint d c)))"
    using assms by (auto simp: ObserveDelta_def Let_def distinct_models split: option.split prod.split)
  show "distinct (map fst (lc_models (CompleteSession i p n f failed c)))"
    using assms by (simp add: CompleteSession_def Let_def distinct_models)
qed

lemma live_reachable_distinct: "live_reachable c \<Longrightarrow> distinct (map fst (lc_models c))"
proof (induction rule: live_reachable.induct)
  case (step c c')
  then show ?case by (auto elim!: live_step.cases intro: distinct_models_ops)
qed (simp add: NewLiveRealtimeMetricsCollector_def)

lemma length_filter_partition:
  assumes "distinct ks" and "\<forall>x \<in> set xs. P x \<longrightarrow> f x \<in> set ks"
  shows "sum_list (map (\<lambda>k. int (length (filter (\<lambda>x. f x = k \<and> P x) xs))) ks) = int (length (filter P xs))"
  using assms(2)
proof (induction xs)
  case (Cons x xs)
  have "sum_list (map (\<lambda>k. of_bool (f x = k \<and> P x) + int (length (filter (\<lambda>x. f x = k \<and> P x) xs))) ks) =
      sum_list (map (\<lambda>k. of_bool (f x = k \<and> P x)) ks) + int (length (filter P xs))"
    using Cons by (simp add: sum_list_addf)
  moreover have "sum_list (map (\<lambda>k. of_bool (f x = k \<and> P x) :: int) ks) = of_bool (P x)"
    using assms(1) Cons.prems by (simp add: sum_list_distinct_conv_sum_set of_bool_def)
  moreover have "(\<lambda>k. int (length (filter (\<lambda>x. f x = k \<and> P x) (x # xs)))) =
      (\<lambda>k. of_bool (f x = k \<and> P x) + int (length (filter (\<lambda>x. f x = k \<and> P x) xs)))"
    by auto
  ultimately show ?case by simp
qed simp

lemma active_total:
  assumes inv: "live_inv c" and d: "distinct (map fst (lc_models c))"
  shows "sum_list (map (\<lambda>k. sessions_of ls_Active k c) (map fst (lc_models c))) =
    int (length (filter (\<lambda>(_, s). ls_Active s) (lc_sessions c)))"
proof -
  have "session_key s \<in> fst ` set (lc_models c)" if "(i, s) \<in> set (lc_sessions c)" "ls_Active s" for i s
  proof -
    have i: "map_of (lc_sessions c) i = Some s" using inv that(1) by (simp add: live_inv_def)
    show ?thesis
      using active_counted [OF inv i that(2)]
      unfolding session_key_def counter_def by (auto dest!: map_of_SomeD split: option.splits intro: rev_image_eqI)
  qed
  then have "\<forall>x \<in> set (lc_sessions c). ls_Active (snd x) \<longrightarrow> session_key (snd x) \<in> set (map fst (lc_models c))"
    by auto
  then show ?thesis
    unfolding sessions_of_def case_prod_unfold by (rule length_filter_partition [OF d])
qed

section \<open>Properties\<close>

text \<open>The live metrics count what they say: as long as sessions are completed after they were observed
  and are not moved to another model afterwards, the number of active sessions of every model is the
  number of sessions that are active on it, the completed ones are those that completed on it, no
  more sessions failed than completed and no more completed than started, and the total the snapshot
  shows is the number of active sessions.\<close>

theorem live_metrics_count_sessions:
  assumes "live_reachable c"
  shows "(\<forall>(k, m) \<in> set (lc_models c). lm_ActiveSessions m = sessions_of ls_Active k c
      \<and> lm_SessionsCompleted m = sessions_of ls_Completed k c
      \<and> 0 \<le> lm_SessionsFailed m \<and> lm_SessionsFailed m \<le> lm_SessionsCompleted m \<and> lm_SessionsCompleted m \<le> lm_SessionsStarted m)
    \<and> lv_ActiveSessions (Snapshot c) = int (length (filter (\<lambda>(_, s). ls_Active s) (lc_sessions c)))"
proof -
  have inv: "live_inv c" and d: "distinct (map fst (lc_models c))"
    using assms by (rule live_reachable_inv, rule live_reachable_distinct)
  have cnt: "counter g k c = g m" if "(k, m) \<in> set (lc_models c)" for g k m
    using d that by (simp add: counter_def)
  have le: "sessions_of ls_Completed k c \<le> sessions_of (\<lambda>_. True) k c" for k
  proof -
    have "length (filter (\<lambda>(_, s). session_key s = k \<and> ls_Completed s) xs) \<le> length (filter (\<lambda>(_, s). session_key s = k \<and> True) xs)"
      for xs :: "(string \<times> liveRealtimeSession) list" by (induction xs) auto
    then show ?thesis unfolding sessions_of_def by (rule of_nat_mono)
  qed
  have models: "lm_ActiveSessions m = sessions_of ls_Active k c
      \<and> lm_SessionsCompleted m = sessions_of ls_Completed k c
      \<and> 0 \<le> lm_SessionsFailed m \<and> lm_SessionsFailed m \<le> lm_SessionsCompleted m \<and> lm_SessionsCompleted m \<le> lm_SessionsStarted m"
    if "(k, m) \<in> set (lc_models c)" for k m
  proof -
    have "counts_ok k c" using inv by (simp add: live_inv_def)
    then show ?thesis using le [of k] unfolding counts_ok_def cnt [OF that] by linarith
  qed
  have "sum_list (map (\<lambda>k. sessions_of ls_Active k c) (map fst (lc_models c))) =
      int (length (filter (\<lambda>(_, s). ls_Active s) (lc_sessions c)))"
    by (rule active_total [OF inv d])
  moreover have "map (lm_ActiveSessions \<circ> snd) (lc_models c) = map (\<lambda>k. sessions_of ls_Active k c) (map fst (lc_models c))"
    using models by auto
  ultimately have "lv_ActiveSessions (Snapshot c) = int (length (filter (\<lambda>(_, s). ls_Active s) (lc_sessions c)))"
    by (simp only: Snapshot_def LiveRealtimeMetricsSnapshot.select_convs)
  then show ?thesis using models by blast
qed

definition example_token :: AgentDelta where
  "example_token = \<lparr>ad_SessionID = ''s1'', ad_TaskID = ''t'', ad_AgentID = [], ad_Provider = ''openai'',
     ad_ModelName = ''gpt-5.5'', ad_Kind = AgentDeltaToken, ad_Sequence = 1, ad_Content = ''x'',
     ad_Timestamp = 2 * second, ad_Metadata = [(''native_streaming'', AnyBool True)]\<rparr>"

definition example_live :: LiveRealtimeMetricsCollector where
  "example_live = ObserveSession ''s2'' ''openai'' ''gpt-5.5'' (9 * second)
     (CompleteSession ''s1'' [] [] (8 * second) True
       (ObserveDelta (\<lambda>_. []) example_token
         (ObserveSession ''s1'' ''openai'' ''gpt-5.5'' second NewLiveRealtimeMetricsCollector)))"

theorem live_metrics_count_sessions_witness:
  "lv_ActiveSessions (Snapshot example_live) = 1 \<and> length (filter (\<lambda>(_, s). ls_Active s) (lc_sessions example_live)) = 1"
proof -
  define c1 where "c1 = ObserveSession ''s1'' ''openai'' ''gpt-5.5'' second NewLiveRealtimeMetricsCollector"
  define c2 where "c2 = ObserveDelta (\<lambda>_. []) example_token c1"
  define c3 where "c3 = CompleteSession ''s1'' [] [] (8 * second) True c2"
  have "live_step NewLiveRealtimeMetricsCollector c1"
    unfolding c1_def by (rule live_step.observe) (simp add: NewLiveRealtimeMetricsCollector_def)
  then have "live_reachable c1" by (rule live_reachable.step [OF live_reachable.new])
  then have 2: "live_reachable c2"
    unfolding c2_def by (rule live_reachable.step) (rule live_step.delta)
  have "map_of (lc_sessions c2) ''s1'' \<noteq> None" unfolding c2_def c1_def by code_simp
  then have 3: "live_reachable c3"
    unfolding c3_def by (intro live_reachable.step [OF 2] live_step.finish)
  have "map_of (lc_sessions c3) ''s2'' = None" unfolding c3_def c2_def c1_def by code_simp
  then have "live_reachable example_live"
    unfolding example_live_def c1_def [symmetric] c2_def [symmetric] c3_def [symmetric]
    by (intro live_reachable.step [OF 3] live_step.observe) simp
  moreover have "length (filter (\<lambda>(_, s). ls_Active s) (lc_sessions example_live)) = 1"
    by code_simp
  ultimately show ?thesis
    using live_metrics_count_sessions [of example_live] by simp
qed

text \<open>A histogram is cumulative: after any sequence of observations each bucket holds the number of
  observed values that are not negative and at most its bound, and the count and the sum are those
  of all values that are not negative.\<close>

theorem histogram_is_cumulative:
  "histogramSnapshot (fold histogramObserve vs newLiveRealtimeHistogram) =
     \<lparr>hs_Count = int (length (filter (\<lambda>v. 0 \<le> v) vs)), hs_Sum = sum_list (filter (\<lambda>v. 0 \<le> v) vs),
      hs_Buckets = map (\<lambda>bound. \<lparr>hb_Le = bound, hb_Count = int (length (filter (\<lambda>v. 0 \<le> v \<and> v \<le> bound) vs))\<rparr>)
        liveRealtimeHistogramBoundsMS\<rparr>"
proof -
  have "fold histogramObserve vs newLiveRealtimeHistogram =
     \<lparr>hg_Bounds = liveRealtimeHistogramBoundsMS,
      hg_Counts = map (\<lambda>bound. int (length (filter (\<lambda>v. 0 \<le> v \<and> v \<le> bound) vs))) liveRealtimeHistogramBoundsMS,
      hg_Sum = sum_list (filter (\<lambda>v. 0 \<le> v) vs), hg_Count = int (length (filter (\<lambda>v. 0 \<le> v) vs))\<rparr>"
  proof (induction vs rule: rev_induct)
    case Nil
    then show ?case by (simp add: newLiveRealtimeHistogram_def map_replicate_const)
  next
    case (snoc v vs)
    have m: "map2 (\<lambda>b n. if v \<le> b then n + 1 else n) bs (map f bs) = map (\<lambda>b. if v \<le> b then f b + 1 else f b) bs"
      for f :: "int \<Rightarrow> int" and bs
      by (induction bs) simp_all
    have "fold histogramObserve (vs @ [v]) newLiveRealtimeHistogram =
        histogramObserve v (fold histogramObserve vs newLiveRealtimeHistogram)" by simp
    then show ?case by (simp only: snoc) (auto simp: histogramObserve_def m)
  qed
  moreover have "map2 g bs (map f bs) = map (\<lambda>b. g b (f b)) bs" for g :: "int \<Rightarrow> int \<Rightarrow> RealtimeHistogramBucket" and f bs
    by (induction bs) simp_all
  ultimately show ?thesis by (simp add: histogramSnapshot_def)
qed

text \<open>A session id that is used again after its session completed, for another model, skews the
  counters for good: the model it left loses a session that is not its own or nothing, the new model
  counts a session that never becomes active, and completing it again does not take it back.\<close>

theorem reused_session_skews_metrics:
  "let c = CompleteSession ''s1'' [] [] 9 False (ObserveSession ''s1'' ''local'' ''qwen'' 8
       (CompleteSession ''s1'' [] [] 7 False (ObserveSession ''s1'' ''openai'' ''gpt-5.5'' 5 NewLiveRealtimeMetricsCollector)))
   in lv_ActiveSessions (Snapshot c) = 1 \<and> filter (\<lambda>(_, s). ls_Active s) (lc_sessions c) = []"
  by code_simp

end
