(* ===== verification/Router.thy ===== *)
theory Router
  imports ModelSelector RealtimeMetrics ParallelPlan
begin

text \<open>
  The router, \<open>go-core/internal/kernel/router.go\<close>: which agent takes a task. A preferred agent and
  the orchestrator override come first; otherwise the admissible agents are filtered by the provider
  and the model the task asks for, scored, and the best one is taken.

  The router and its runtime manager share one registry, so with a runtime manager the agents are
  read from it. Reading a lane stores it in normal form, so the operations return the router with
  its updated manager. \<open>CanAccept\<close> of an agent, the route memory and the retriever are parameters,
  and so is the parser of decimal numbers.
\<close>

record Router =
  ro_registry :: Registry
  ro_selector :: ModelSelector
  ro_runtime :: "RuntimeManager option"
  ro_routeMemory :: "(Task \<Rightarrow> AgentInfo \<Rightarrow> string + rat) option"
  ro_retriever :: "(Task \<Rightarrow> int \<Rightarrow> string + RetrievalKPI) option"
  ro_liveRealtime :: "LiveRealtimeMetricsCollector option"

definition NewModelSelector :: "ProviderModelRegistry option \<Rightarrow> ModelSelector" where
  "NewModelSelector reg = \<lparr>se_registry = reg, se_routeMemory = None, se_retriever = None\<rparr>"

definition NewRouter :: "Registry \<Rightarrow> ModelSelector option \<Rightarrow> Router" where
  "NewRouter registry selector =
     \<lparr>ro_registry = registry,
      ro_selector = (case selector of None \<Rightarrow> NewModelSelector None | Some s \<Rightarrow> s),
      ro_runtime = None, ro_routeMemory = None, ro_retriever = None, ro_liveRealtime = None\<rparr>"

definition AttachMemoryManager ::
  "(Task \<Rightarrow> AgentInfo \<Rightarrow> string + rat) \<times> (Task \<Rightarrow> int \<Rightarrow> string + RetrievalKPI) \<Rightarrow> Router \<Rightarrow> Router" where
  "AttachMemoryManager manager r = r\<lparr>ro_routeMemory := Some (fst manager), ro_retriever := Some (snd manager)\<rparr>"

definition AttachLiveRealtimeMetrics :: "LiveRealtimeMetricsCollector \<Rightarrow> Router \<Rightarrow> Router" where
  "AttachLiveRealtimeMetrics metrics r = r\<lparr>ro_liveRealtime := Some metrics\<rparr>"

definition routerRegistry :: "Router \<Rightarrow> Registry" where
  "routerRegistry r = (case ro_runtime r of None \<Rightarrow> ro_registry r | Some m \<Rightarrow> rm_registry m)"

definition agentByID :: "string \<Rightarrow> Router \<Rightarrow> Agent option" where
  "agentByID agentID r = AgentByID agentID (routerRegistry r)"

section \<open>Hints of a task\<close>

definition resolvedCapability :: "Task \<Rightarrow> string" where
  "resolvedCapability task = inferCapability task"

definition kernelString :: "any option \<Rightarrow> string" where
  "kernelString value = (case value of Some (AnyString s) \<Rightarrow> s | _ \<Rightarrow> [])"

definition preferredAgentID :: "go_map \<Rightarrow> string" where
  "preferredAgentID hints =
     (case find (\<lambda>key. TrimSpace (toString (map_of hints key)) \<noteq> [])
             [''preferred_agent_id'', ''batch_forced_agent_id'', ''forced_agent_id''] of
        None \<Rightarrow> [] | Some key \<Rightarrow> TrimSpace (toString (map_of hints key)))"

definition routeModeOrchestrator :: "go_map \<Rightarrow> bool" where
  "routeModeOrchestrator hints \<longleftrightarrow>
     EqualFold (TrimSpace (toString (map_of hints ''route_mode''))) ''orchestrator''
     \<or> map_of hints ''force_orchestrator'' = Some (AnyBool True)"

definition taskWorkerClass :: "Task \<Rightarrow> string \<Rightarrow> string" where
  "taskWorkerClass task capability =
     (let hinted = ToLower (TrimSpace (kernelString (map_of (t_RoutingHints task) ''worker_class'')));
          contracted = ToLower (TrimSpace (kernelString (map_of (t_ExecutionContract task) ''worker_class'')))
      in if hinted \<noteq> [] then hinted else if contracted \<noteq> [] then contracted
         else ToLower (TrimSpace capability))"

definition taskHintInt :: "any option \<Rightarrow> int" where
  "taskHintInt value =
     (case value of
        Some (AnyInt i) \<Rightarrow> i
      | Some (AnyFloat f) \<Rightarrow> if f < 0 then \<lceil>f\<rceil> else \<lfloor>f\<rfloor>
      | Some (AnyString s) \<Rightarrow> (case Atoi (TrimSpace s) of Some i \<Rightarrow> i | None \<Rightarrow> 0)
      | _ \<Rightarrow> 0)"

definition taskHintFloat :: "(string \<Rightarrow> rat option) \<Rightarrow> any option \<Rightarrow> rat" where
  "taskHintFloat parseFloat value =
     (case value of
        Some (AnyFloat f) \<Rightarrow> f
      | Some (AnyInt i) \<Rightarrow> of_int i
      | Some (AnyString s) \<Rightarrow> (case parseFloat (TrimSpace s) of Some f \<Rightarrow> f | None \<Rightarrow> 0)
      | _ \<Rightarrow> 0)"

definition taskContextBudget :: "Task \<Rightarrow> int" where
  "taskContextBudget task =
     (let value = taskHintInt (map_of (t_RoutingHints task) ''context_budget'') in
      if value > 0 then value else taskHintInt (map_of (t_ExecutionContract task) ''context_budget''))"

definition taskWeight :: "(string \<Rightarrow> rat option) \<Rightarrow> Task \<Rightarrow> rat" where
  "taskWeight parseFloat task =
     (let value = taskHintFloat parseFloat (map_of (t_RoutingHints task) ''task_weight'') in
      if value > 0 then value else taskHintFloat parseFloat (map_of (t_ExecutionContract task) ''task_weight''))"

text \<open>A slice of maps, \<open>[]map[string]any\<close>, is an \<open>AnyStructs\<close>, a slice \<open>[]any\<close> an \<open>AnyList\<close>.\<close>

definition shouldRelaxAssignedProvider :: "Task \<Rightarrow> bool" where
  "shouldRelaxAssignedProvider task \<longleftrightarrow>
     (case map_of (t_RoutingHints task) ''p2p_attempt'' of
        Some (AnyInt attempt) \<Rightarrow> attempt > 1 | Some (AnyFloat attempt) \<Rightarrow> attempt > 1 | _ \<Rightarrow> False)
     \<or> (case map_of (t_RoutingHints task) ''peer_failures'' of
          Some (AnyStructs failures) \<Rightarrow> failures \<noteq> [] | Some (AnyList failures) \<Rightarrow> failures \<noteq> [] | _ \<Rightarrow> False)"

section \<open>Admission\<close>

definition isAgentRoutable :: "AgentStatus \<Rightarrow> bool" where
  "isAgentRoutable status \<longleftrightarrow> status \<in> {AgentStatusReady, AgentStatusBusy, AgentStatusDegraded}"

text \<open>The lane of the agent: the runtime allows it and its weight is positive.\<close>

definition laneOpen :: "time \<Rightarrow> AgentInfo \<Rightarrow> Router \<Rightarrow> bool \<times> Router" where
  "laneOpen now info r =
     (case ro_runtime r of
        None \<Rightarrow> (True, r)
      | Some m \<Rightarrow>
          let (allowed, m) = Allows now info m in
          if \<not> allowed then (False, r\<lparr>ro_runtime := Some m\<rparr>)
          else let (weight, m) = RoutingWeight now (ai_ID info) m
            in (weight > 0, r\<lparr>ro_runtime := Some m\<rparr>))"

definition canRouteAgent ::
  "(string \<Rightarrow> Task \<Rightarrow> bool) \<Rightarrow> time \<Rightarrow> Task \<Rightarrow> Agent \<Rightarrow> string \<Rightarrow> Router \<Rightarrow> bool \<times> Router" where
  "canRouteAgent canAccept now task agent capability r =
     (let info = ag_Info agent in
      if \<not> isAgentRoutable (ai_Status info) then (False, r)
      else let (opened, r) = laneOpen now info r
        in (opened \<and> supportsCapability (ai_Capabilities info) capability \<and> canAccept (ai_ID info) task, r))"

definition candidateMatchesAssignedModel :: "time \<Rightarrow> Agent \<Rightarrow> string \<Rightarrow> RuntimeManager option \<Rightarrow> bool" where
  "candidateMatchesAssignedModel now candidate assignedModel runtime =
     (let assignedModel = TrimSpace assignedModel; info = ag_Info candidate;
          catalogued = (case runtime of None \<Rightarrow> False | Some m \<Rightarrow> rm_providerRegistry m \<noteq> None) in
      if assignedModel = [] then False
      else if EqualFold (TrimSpace (ai_ModelName info)) assignedModel then
        (if \<not> catalogued then True
         else let (ready, known) = ProviderModelReadyStatus now (ai_Provider info) assignedModel (the runtime)
           in known \<and> ready)
      else if \<not> catalogued then False
      else SupportsAssignedModel now candidate assignedModel (the runtime))"

definition filterCandidatesByAssignedProvider :: "Task \<Rightarrow> Agent list \<Rightarrow> bool \<Rightarrow> Agent list" where
  "filterCandidatesByAssignedProvider task candidates relaxAssignedProvider =
     (let assignedProvider = TrimSpace (t_AssignedProvider task) in
      if assignedProvider = [] \<or> relaxAssignedProvider \<or> shouldRelaxAssignedProvider task then candidates
      else filter (\<lambda>c. EqualFold (TrimSpace (ai_Provider (ag_Info c))) assignedProvider) candidates)"

definition filterCandidatesByAssignedModel ::
  "time \<Rightarrow> Task \<Rightarrow> Agent list \<Rightarrow> RuntimeManager option \<Rightarrow> bool \<Rightarrow> Agent list" where
  "filterCandidatesByAssignedModel now task candidates runtime relaxAssignedModel =
     (let assignedModel = TrimSpace (t_AssignedModel task) in
      if assignedModel = [] \<or> relaxAssignedModel then candidates
      else filter (\<lambda>c. candidateMatchesAssignedModel now c assignedModel runtime) candidates)"

section \<open>Scores\<close>

definition clampRouterScore :: "rat \<Rightarrow> rat" where
  "clampRouterScore score = (if score < 0 then 0 else if score > 1 then 1 else score)"

definition clampPolicyScore :: "rat \<Rightarrow> rat" where
  "clampPolicyScore score = clampRouterScore ((score - 80) / 160)"

definition liveLoadScore :: "AgentRuntimeState \<Rightarrow> rat" where
  "liveLoadScore state =
     (let pressure = rs_AgentSlotUsage state;
          pressure = (if rs_ModelSlotUsage state > pressure then rs_ModelSlotUsage state else pressure);
          pressure = (if rs_GlobalSlotUsage state > pressure then rs_GlobalSlotUsage state else pressure)
      in clampRouterScore (1 - pressure))"

text \<open>The bonus of an agent whose type fits the class of the work.\<close>

definition classDelta :: "string \<Rightarrow> string \<Rightarrow> rat" where
  "classDelta workerClass agentType =
     (let has = Contains agentType in
        (if has workerClass then 18 else 0)
      + (if workerClass = ''code'' \<and> (has ''coding'' \<or> has ''coder'') then 16 else 0)
      + (if workerClass = ''review'' \<and> has ''review'' then 22 else 0)
      + (if workerClass = ''test'' \<and> has ''test'' then 18 else 0)
      + (if workerClass = ''retrieval'' \<and> (has ''research'' \<or> has ''analysis'') then 15 else 0)
      + (if workerClass = ''merge'' \<and> (has ''review'' \<or> has ''analysis'' \<or> has ''orchestrator'') then 18 else 0)
      + (if workerClass = ''planner'' \<and> (has ''plan'' \<or> has ''analysis'') then 16 else 0))"

definition localProviders :: "string set" where "localProviders = {''local'', ''ai_kernel''}"
definition middleProviders :: "string set" where "middleProviders = {''mistral'', ''antigravity'', ''mimo''}"
definition cloudProviders :: "string set" where "cloudProviders = {''openai'', ''codexsale''}"

text \<open>The bonus of the provider for the class, the size of the context and the weight of the work.\<close>

definition providerDelta :: "string \<Rightarrow> string \<Rightarrow> bool \<Rightarrow> bool \<Rightarrow> bool \<Rightarrow> bool \<Rightarrow> rat" where
  "providerDelta workerClass provider smallContext largeContext lightWeight heavyWeight =
     (let perClass = (\<lambda>l m c. if provider \<in> localProviders then l else if provider \<in> middleProviders then m
            else if provider \<in> cloudProviders then c else 0 :: rat) in
        (if workerClass \<in> {''code'', ''test'', ''retrieval'', ''verification''} then perClass 26 12 (- 10)
         else if workerClass \<in> {''review'', ''merge'', ''planner'', ''research''} \<and> (largeContext \<or> heavyWeight)
         then perClass 4 10 24 else 0)
      + (if smallContext then perClass 16 0 (- 14) else 0)
      + (if lightWeight \<and> provider \<in> localProviders then 12 else 0)
      + (if heavyWeight \<and> largeContext then perClass (- 8) 0 10 else 0))"

definition clusterPolicyDelta ::
  "(string \<Rightarrow> rat option) \<Rightarrow> Task \<Rightarrow> AgentInfo \<Rightarrow> string \<Rightarrow> Complexity \<Rightarrow> RiskEvaluation \<Rightarrow> rat" where
  "clusterPolicyDelta parseFloat task info capability complexity risk =
     (let workerClass = taskWorkerClass task capability;
          contextBudget = taskContextBudget task; weight = taskWeight parseFloat task in
      if workerClass = [] then 0
      else classDelta workerClass (ToLower (TrimSpace (ai_Type info)))
         + providerDelta workerClass (ToLower (TrimSpace (ai_Provider info)))
             (contextBudget > 0 \<and> contextBudget \<le> 900)
             (contextBudget \<ge> 1800 \<or> complexity \<in> {ComplexityHigh, ComplexityCritical} \<or> re_HighRisk risk)
             (weight > 0 \<and> weight \<le> 3 / 2) (weight \<ge> 7 / 2))"

definition policyScore ::
  "(string \<Rightarrow> rat option) \<Rightarrow> time \<Rightarrow> Agent \<Rightarrow> Task \<Rightarrow> string \<Rightarrow> Complexity \<Rightarrow> RiskEvaluation \<Rightarrow> Router \<Rightarrow> rat" where
  "policyScore parseFloat now agent task capability complexity risk r =
     (let info = ag_Info agent; provider = ToLower (ai_Provider info); agentType = ToLower (ai_Type info) in
      clampPolicyScore (100
      + (if ai_Status info = AgentStatusReady then 20 else 0)
      + (if ai_Status info = AgentStatusBusy then 5 else 0)
      + (if supportsCapability (ai_Capabilities info) capability then 40 else 0)
      + (if t_AssignedProvider task \<noteq> [] \<and> EqualFold (ai_Provider info) (t_AssignedProvider task) then 35 else 0)
      + (if t_AssignedModel task \<noteq> [] \<and> candidateMatchesAssignedModel now agent (t_AssignedModel task) (ro_runtime r)
         then 15 else 0)
      + (if preferredAgentID (t_RoutingHints task) = ai_ID info then 120 else 0)
      + (if complexity \<in> {ComplexityHigh, ComplexityCritical} \<or> re_HighRisk risk then
           (if EqualFold (ai_Provider info) ''openai'' \<or> EqualFold (ai_Provider info) ''codexsale'' then 40 else 0)
           + (if Contains agentType ''review'' then 12 else 0)
         else if provider \<in> localProviders then 25 else if provider \<in> middleProviders then 15
         else if provider \<in> cloudProviders then - 20 else 0)
      + (if isSourcecraftWork task \<and> ai_ID info = ''orchestrator'' then 100 else 0)
      + (if Contains agentType (taskTypeText (t_Type task)) then 10 else 0)
      + (if complexity = ComplexityLow \<and> EqualFold (ai_Provider info) ''local'' then 10 else 0)
      + clusterPolicyDelta parseFloat task info capability complexity risk))"

definition historyScore :: "AgentInfo \<Rightarrow> Task \<Rightarrow> Router \<Rightarrow> rat" where
  "historyScore info task r =
     (case ro_routeMemory r of
        None \<Rightarrow> 0
      | Some RouteHistoryScore \<Rightarrow>
          (case RouteHistoryScore task info of Inl _ \<Rightarrow> 0 | Inr score \<Rightarrow> clampRouterScore score))"

definition runtimeScore :: "time \<Rightarrow> AgentInfo \<Rightarrow> Task \<Rightarrow> string \<Rightarrow> Router \<Rightarrow> rat \<times> Router" where
  "runtimeScore now info task capability r =
     (case ro_runtime r of
        None \<Rightarrow> (1 / 2, r)
      | Some m \<Rightarrow>
          let (weight, m) = RoutingWeight now (ai_ID info) m;
              weight = clampRouterScore weight;
              ((state, ok), m) = State now (ai_ID info) m in
          if ok then
            let priority = clampRouterScore (rs_PriorityScore state);
                errorPenalty = clampRouterScore (1 - rs_ErrorRate state);
                (pressure, m) = CapacityPressure now info (taskWorkerClass task capability) m;
                capacityScore = clampRouterScore (1 - pressure)
            in (clampRouterScore (weight * (3 / 10) + priority * (1 / 5) + errorPenalty * (9 / 50)
                  + liveLoadScore state * (4 / 25) + capacityScore * (4 / 25)), r\<lparr>ro_runtime := Some m\<rparr>)
          else (weight, r\<lparr>ro_runtime := Some m\<rparr>))"

definition zero_RetrievalKPI :: RetrievalKPI where
  "zero_RetrievalKPI = \<lparr>kp_Tier = [], kp_CandidateCount = 0, kp_PackedCount = 0, kp_BestKeywordHits = 0,
     kp_BestScore = 0, kp_BestTermOverlap = 0, kp_CoverageRatio = 0, kp_TruncationRatio = 0, kp_ApproxLatencyHint = []\<rparr>"

definition heavyRetrieval :: "Complexity \<Rightarrow> Task \<Rightarrow> RetrievalKPI \<Rightarrow> bool" where
  "heavyRetrieval complexity task kpi \<longleftrightarrow> complexity \<in> {ComplexityHigh, ComplexityCritical}
     \<or> t_Type task \<in> {TaskTypeResearch, TaskTypeReview} \<or> kp_Tier kpi = ''high''
     \<or> kp_CoverageRatio kpi \<ge> 11 / 20 \<or> kp_PackedCount kpi \<ge> 3"

definition retrievalScore :: "AgentInfo \<Rightarrow> Task \<Rightarrow> Complexity \<Rightarrow> Router \<Rightarrow> rat" where
  "retrievalScore info task complexity r =
     (let kpi = (case ro_retriever r of
                   None \<Rightarrow> zero_RetrievalKPI
                 | Some Retrieve \<Rightarrow> (case Retrieve task 4 of Inl _ \<Rightarrow> zero_RetrievalKPI | Inr kpi \<Rightarrow> kpi));
          name = ToLower (ai_ModelName info); provider = ToLower (ai_Provider info);
          agentType = ToLower (ai_Type info) in
      if \<not> heavyRetrieval complexity task kpi then 1 / 2
      else clampRouterScore (7 / 20
        + (if provider \<in> cloudProviders then 1 / 4 else 0)
        + (if provider \<in> localProviders then 2 / 25 else 0)
        + (if list_ex (Contains agentType) [''research'', ''review'', ''analysis''] then 9 / 50 else 0)
        + (if list_ex (Contains name) [''gpt'', ''claude'', ''gemini'', ''qwen'', ''mistral''] then 9 / 50 else 0)
        - (if Contains name ''mini'' then 3 / 25 else 0)
        + (if kp_Tier kpi = ''high'' then 1 / 10 else 0)
        + (if kp_CoverageRatio kpi \<ge> 3 / 5 then 2 / 25 else 0)
        + (if kp_TruncationRatio kpi \<ge> 7 / 20 then 3 / 50 else 0)))"

definition realtimeQualityScore :: "AgentInfo \<Rightarrow> Router \<Rightarrow> rat" where
  "realtimeQualityScore info r =
     (case ro_liveRealtime r of
        None \<Rightarrow> 1 / 2
      | Some live \<Rightarrow>
          (case ModelSummary (ai_Provider info) (ai_ModelName info) live of
             None \<Rightarrow> 1 / 2
           | Some summary \<Rightarrow>
               let transportScore = (if lr_NativeStreamSessions summary > 0 then 1
                     else if lr_PseudoRealtimeSessions summary > 0 then 7 / 10
                     else if lr_BufferedSessions summary > 0 then 1 / 4 else 7 / 20);
                   ttftScore = (if lr_AvgTimeToFirstTokenMS summary > 0
                     then 1 / (1 + of_int (lr_AvgTimeToFirstTokenMS summary) / 600) else 1);
                   completionScore = (if lr_AvgTotalCompletionMS summary > 0
                     then 1 / (1 + of_int (lr_AvgTotalCompletionMS summary) / 4000) else 1);
                   failurePenalty = 1 - lr_FailureRate summary;
                   failurePenalty = (if failurePenalty < 0 then 0 else failurePenalty)
               in 7 / 20 * transportScore + 1 / 4 * ttftScore + 1 / 5 * completionScore + 1 / 5 * failurePenalty))"

definition scoreAgent ::
  "(string \<Rightarrow> rat option) \<Rightarrow> time \<Rightarrow> Agent \<Rightarrow> Task \<Rightarrow> string \<Rightarrow> Complexity \<Rightarrow> RiskEvaluation \<Rightarrow> Router \<Rightarrow> rat \<times> Router" where
  "scoreAgent parseFloat now agent task capability complexity risk r =
     (let info = ag_Info agent;
          policy = policyScore parseFloat now agent task capability complexity risk r;
          history = historyScore info task r;
          (runtime, r) = runtimeScore now info task capability r;
          retrieval = retrievalScore info task complexity r;
          realtime = realtimeQualityScore info r
      in ((39 / 100 * policy + 9 / 50 * history + 1 / 5 * runtime + 11 / 100 * retrieval + 3 / 25 * realtime) * 100, r))"

section \<open>Routing\<close>

definition accepted ::
  "time \<Rightarrow> Task \<Rightarrow> ExecutionPlan \<Rightarrow> Agent \<Rightarrow> string \<Rightarrow> string \<Rightarrow> RuntimeManager option \<Rightarrow> TaskAcceptance" where
  "accepted now task plan agent capability reason runtime =
     (let info = ag_Info agent; assignedModel = TrimSpace (t_AssignedModel task) in
      \<lparr>ta_TaskID = t_ID task, ta_Status = TaskStatusAccepted, ta_AgentID = ai_ID info,
       ta_Complexity = ep_Complexity plan, ta_Reason = reason, ta_Capability = capability,
       ta_Provider = ai_Provider info,
       ta_ModelName = (if assignedModel \<noteq> [] \<and> candidateMatchesAssignedModel now agent assignedModel runtime
                       then assignedModel else ai_ModelName info),
       ta_RequiresSecondaryReview = ms_RequiresSecondaryReview (ep_Selection plan), ta_AcceptedAt = now\<rparr>)"

definition rejected :: "time \<Rightarrow> Task \<Rightarrow> Complexity \<Rightarrow> string \<Rightarrow> string \<Rightarrow> TaskAcceptance" where
  "rejected now task complexity capability reason =
     \<lparr>ta_TaskID = t_ID task, ta_Status = TaskStatusRejected, ta_AgentID = [], ta_Complexity = complexity,
      ta_Reason = reason, ta_Capability = capability, ta_Provider = [], ta_ModelName = [],
      ta_RequiresSecondaryReview = False, ta_AcceptedAt = now\<rparr>"

definition routeCapability :: "Task \<Rightarrow> ExecutionPlan \<Rightarrow> string" where
  "routeCapability task plan =
     (if ep_PrimaryCapability plan = [] then resolvedCapability task else ep_PrimaryCapability plan)"

text \<open>The agent with this id, unless it is excluded or cannot take the task.\<close>

definition tryAgent ::
  "(string \<Rightarrow> Task \<Rightarrow> bool) \<Rightarrow> time \<Rightarrow> Task \<Rightarrow> string \<Rightarrow> string list \<Rightarrow> string \<Rightarrow> Router \<Rightarrow> Agent option \<times> Router" where
  "tryAgent canAccept now task capability exclude agentID r =
     (if agentID \<in> set exclude then (None, r)
      else case agentByID agentID r of
             None \<Rightarrow> (None, r)
           | Some agent \<Rightarrow>
               let (ok, r) = canRouteAgent canAccept now task agent capability r
               in (if ok then Some agent else None, r))"

definition collectOne ::
  "(string \<Rightarrow> Task \<Rightarrow> bool) \<Rightarrow> time \<Rightarrow> Task \<Rightarrow> string \<Rightarrow> string list \<Rightarrow> Agent \<Rightarrow> Agent list \<times> Router \<Rightarrow> Agent list \<times> Router" where
  "collectOne canAccept now task capability exclude agent = (\<lambda>(candidates, r).
     if ai_ID (ag_Info agent) \<in> set exclude then (candidates, r)
     else let (ok, r) = canRouteAgent canAccept now task agent capability r
       in (if ok then candidates @ [agent] else candidates, r))"

definition routeCandidates ::
  "(string \<Rightarrow> Task \<Rightarrow> bool) \<Rightarrow> time \<Rightarrow> Task \<Rightarrow> string \<Rightarrow> string list \<Rightarrow> Router \<Rightarrow> Agent list \<times> Router" where
  "routeCandidates canAccept now task capability exclude r =
     (let relaxAssignedProvider = (exclude \<noteq> []);
          (candidates, r) = fold (collectOne canAccept now task capability exclude) (Agents (routerRegistry r)) ([], r);
          candidates = filterCandidatesByAssignedProvider task candidates relaxAssignedProvider
      in (filterCandidatesByAssignedModel now task candidates (ro_runtime r)
            (relaxAssignedProvider \<or> shouldRelaxAssignedProvider task), r))"

definition betterOne ::
  "(Agent \<Rightarrow> Router \<Rightarrow> rat \<times> Router) \<Rightarrow> Agent \<Rightarrow> (Agent option \<times> rat) \<times> Router \<Rightarrow> (Agent option \<times> rat) \<times> Router" where
  "betterOne score candidate = (\<lambda>((best, bestScore), r).
     let (s, r) = score candidate r
     in (if s > bestScore then (Some candidate, s) else (best, bestScore), r))"

definition bestAgent :: "(Agent \<Rightarrow> Router \<Rightarrow> rat \<times> Router) \<Rightarrow> Agent list \<Rightarrow> Router \<Rightarrow> Agent option \<times> Router" where
  "bestAgent score candidates r =
     (let ((best, _), r) = fold (betterOne score) candidates ((None, - 1000000000), r) in (best, r))"

definition noCandidateReason :: "Task \<Rightarrow> string \<Rightarrow> string" where
  "noCandidateReason task capability =
     (if TrimSpace (t_AssignedModel task) \<noteq> [] then ''no available agent matched assigned model '' @ t_AssignedModel task
      else if TrimSpace (t_AssignedProvider task) \<noteq> []
      then ''no available agent matched assigned provider '' @ t_AssignedProvider task
      else ''no available agent for capability '' @ capability)"

text \<open>The last part of \<open>route\<close>: the candidates are scored and the best one is taken.\<close>

definition policyRoute ::
  "(string \<Rightarrow> Task \<Rightarrow> bool) \<Rightarrow> (string \<Rightarrow> rat option) \<Rightarrow> time \<Rightarrow> Task \<Rightarrow> ExecutionPlan \<Rightarrow> string list \<Rightarrow> Router
   \<Rightarrow> (TaskAcceptance \<times> Agent option) \<times> Router" where
  "policyRoute canAccept parseFloat now task plan exclude r =
     (let capability = routeCapability task plan; complexity = ep_Complexity plan;
          (candidates, r) = routeCandidates canAccept now task capability exclude r in
      if candidates = []
      then ((rejected now task complexity capability (noCandidateReason task capability), None), r)
      else
        let risk = EvaluateRiskContext (taskText task);
            (best, r) = bestAgent (\<lambda>c. scoreAgent parseFloat now c task capability complexity risk) candidates r
        in case best of
             None \<Rightarrow> ((rejected now task complexity capability
                        (''no healthy agent selected for capability '' @ capability), None), r)
           | Some agent \<Rightarrow> ((accepted now task plan agent capability ''policy routing'' (ro_runtime r), Some agent), r))"

definition route ::
  "(string \<Rightarrow> Task \<Rightarrow> bool) \<Rightarrow> (string \<Rightarrow> rat option) \<Rightarrow> time \<Rightarrow> Task \<Rightarrow> ExecutionPlan \<Rightarrow> string list \<Rightarrow> Router
   \<Rightarrow> (TaskAcceptance \<times> Agent option) \<times> Router" where
  "route canAccept parseFloat now task plan exclude r =
     (let capability = routeCapability task plan;
          accept = (\<lambda>agent reason r. ((accepted now task plan agent capability reason (ro_runtime r), Some agent), r));
          preferred = preferredAgentID (t_RoutingHints task);
          (viaHint, r) = (if preferred = [] then (None, r)
                        else tryAgent canAccept now task capability exclude preferred r) in
      case viaHint of
        Some agent \<Rightarrow> accept agent ''preferred agent routing'' r
      | None \<Rightarrow>
          let (viaMode, r) = (if routeModeOrchestrator (t_RoutingHints task)
                then tryAgent canAccept now task capability exclude ''orchestrator'' r else (None, r)) in
          (case viaMode of
             Some agent \<Rightarrow> accept agent ''orchestrator route override'' r
           | None \<Rightarrow>
               let (viaRepository, r) = (if isSourcecraftWork task
                     then tryAgent canAccept now task capability exclude ''orchestrator'' r else (None, r)) in
               (case viaRepository of
                  Some agent \<Rightarrow> accept agent ''sourcecraft route'' r
                | None \<Rightarrow> policyRoute canAccept parseFloat now task plan exclude r)))"

definition Route where "Route canAccept parseFloat now task plan r = route canAccept parseFloat now task plan [] r"

definition RouteExcluding where
  "RouteExcluding canAccept parseFloat now task plan exclude r = route canAccept parseFloat now task plan exclude r"

text \<open>The rank of a provider is the position of its first occurrence in the list.\<close>

definition orderedProviders :: "string list \<Rightarrow> string list" where
  "orderedProviders providers = fold (\<lambda>provider acc.
     let trimmed = ToLower (TrimSpace provider) in
     if trimmed = [] \<or> trimmed \<in> set acc then acc else acc @ [trimmed]) providers []"

definition providerRank :: "string list \<Rightarrow> AgentInfo \<Rightarrow> nat option" where
  "providerRank providers info = find (\<lambda>i. orderedProviders providers ! i = ToLower (TrimSpace (ai_Provider info)))
     [0..<length (orderedProviders providers)]"

definition rankedOne ::
  "(string \<Rightarrow> Task \<Rightarrow> bool) \<Rightarrow> (string \<Rightarrow> rat option) \<Rightarrow> time \<Rightarrow> Task \<Rightarrow> ExecutionPlan \<Rightarrow> string list \<Rightarrow> string list \<Rightarrow> Agent
   \<Rightarrow> (Agent option \<times> rat) \<times> Router \<Rightarrow> (Agent option \<times> rat) \<times> Router" where
  "rankedOne canAccept parseFloat now task plan providers exclude candidate = (\<lambda>((best, bestScore), r).
     let capability = routeCapability task plan; info = ag_Info candidate in
     if ai_ID info \<in> set exclude then ((best, bestScore), r)
     else case providerRank providers info of
            None \<Rightarrow> ((best, bestScore), r)
          | Some rank \<Rightarrow>
              let (ok, r) = canRouteAgent canAccept now task candidate capability r in
              if \<not> ok then ((best, bestScore), r)
              else betterOne (\<lambda>c r. let (s, r) = scoreAgent parseFloat now c task capability (ep_Complexity plan)
                       (EvaluateRiskContext (taskText task)) r in (s - of_nat (rank * 15), r))
                     candidate ((best, bestScore), r))"

definition zero_TaskAcceptance :: TaskAcceptance where
  "zero_TaskAcceptance = \<lparr>ta_TaskID = [], ta_Status = TaskStatusOther [], ta_AgentID = [],
     ta_Complexity = ComplexityOther [], ta_Reason = [], ta_Capability = [], ta_Provider = [], ta_ModelName = [],
     ta_RequiresSecondaryReview = False, ta_AcceptedAt = zero_time\<rparr>"

definition RouteWithinProviders ::
  "(string \<Rightarrow> Task \<Rightarrow> bool) \<Rightarrow> (string \<Rightarrow> rat option) \<Rightarrow> time \<Rightarrow> Task \<Rightarrow> ExecutionPlan \<Rightarrow> string list \<Rightarrow> string list \<Rightarrow> Router
   \<Rightarrow> (TaskAcceptance \<times> Agent option) \<times> Router" where
  "RouteWithinProviders canAccept parseFloat now task plan providers exclude r =
     (let capability = routeCapability task plan in
      if orderedProviders providers = [] then ((zero_TaskAcceptance, None), r)
      else
        let ((best, _), r) = fold (rankedOne canAccept parseFloat now task plan providers exclude)
               (Agents (routerRegistry r)) ((None, - 1000000000), r)
        in case best of
             None \<Rightarrow> ((rejected now task (ep_Complexity plan) capability
                        ''no available agent matched fallback providers'', None), r)
           | Some agent \<Rightarrow> ((accepted now task plan agent capability ''budget fallback routing'' (ro_runtime r), Some agent), r))"

section \<open>Queries of the runtime manager\<close>

text \<open>
  A query may write: reading a lane stores its normal form. \<open>reads I q x\<close> says that in every state
  with the invariant \<open>I\<close> the query \<open>q\<close> answers \<open>x\<close> and keeps the invariant.
\<close>

definition reads :: "('s \<Rightarrow> bool) \<Rightarrow> ('s \<Rightarrow> 'a \<times> 's) \<Rightarrow> 'a \<Rightarrow> bool" where
  "reads I q x \<longleftrightarrow> (\<forall>s. I s \<longrightarrow> fst (q s) = x \<and> I (snd (q s)))"

definition keeps :: "('s \<Rightarrow> bool) \<Rightarrow> ('s \<Rightarrow> 'a \<times> 's) \<Rightarrow> bool" where
  "keeps I q \<longleftrightarrow> (\<forall>s. I s \<longrightarrow> I (snd (q s)))"

lemma readsD: "reads I q x \<Longrightarrow> I s \<Longrightarrow> q s = (y, s') \<Longrightarrow> y = x \<and> I s'"
  by (force simp: reads_def)

lemma keepsD: "keeps I q \<Longrightarrow> I s \<Longrightarrow> q s = (y, s') \<Longrightarrow> I s'"
  by (force simp: keeps_def)

lemma reads_keeps: "reads I q x \<Longrightarrow> keeps I q"
  by (simp add: reads_def keeps_def)

lemma reads_bind:
  assumes "reads I q x" "reads I (f x) y"
  shows "reads I (\<lambda>s. let (a, s) = q s in f a s) y"
  using assms by (auto simp: reads_def split_def Let_def)

lemma keeps_bind:
  assumes "keeps I q" "\<And>a. keeps I (f a)"
  shows "keeps I (\<lambda>s. let (a, s) = q s in f a s)"
  using assms by (auto simp: keeps_def split_def Let_def)

text \<open>The manager with every lane in normal form, which no query changes.\<close>

definition settled :: "time \<Rightarrow> RuntimeManager \<Rightarrow> RuntimeManager" where
  "settled now m = m\<lparr>rm_registry := (rm_registry m)\<lparr>rg_runtimeStates :=
     map (map_prod id (normalizeState now)) (rg_runtimeStates (rm_registry m))\<rparr>\<rparr>"

definition calm :: "time \<Rightarrow> RuntimeManager \<Rightarrow> RuntimeManager \<Rightarrow> bool" where
  "calm now m0 m \<longleftrightarrow> tracked m \<and> settled now m = m0"

lemma settled_fields [simp]:
  "rm_providerRegistry (settled now m) = rm_providerRegistry m"
  "rm_routingWeights (settled now m) = rm_routingWeights m"
  "rg_agents (rm_registry (settled now m)) = rg_agents (rm_registry m)"
  "Agents (rm_registry (settled now m)) = Agents (rm_registry m)"
  by (simp_all add: settled_def Agents_def)

lemma map_of_image: "map_of (map (map_prod id f) xs) k = map_option f (map_of xs k)"
  by (induction xs) auto

lemma lane_settled: "lane (settled now m) k = map_option (normalizeState now) (lane m k)"
  by (simp add: settled_def map_of_image)

lemma normalizeState_fixpoint:
  assumes "rs_UpdatedAt x = 0 \<longrightarrow> now = 0" "rs_SuppressedUntil x = None \<or> suppressed now x"
  shows "normalizeState now x = x"
proof -
  have "(if rs_UpdatedAt x = zero_time then x\<lparr>rs_UpdatedAt := now\<rparr> else x) = x" using assms(1) by simp
  then show ?thesis using assms(2) unfolding normalizeState_def Let_def by auto
qed

lemma normalizeState_idem: "normalizeState now (normalizeState now s) = normalizeState now s"
proof (rule normalizeState_fixpoint)
  show "rs_UpdatedAt (normalizeState now s) = 0 \<longrightarrow> now = 0" by (simp add: normalizeState_def Let_def)
  have "rs_SuppressedUntil (normalizeState now s) = (if suppressed now s then rs_SuppressedUntil s else None)"
    by (simp add: normalizeState_def suppressed_def Let_def split: option.split)
  then show "rs_SuppressedUntil (normalizeState now s) = None \<or> suppressed now (normalizeState now s)"
    by (simp add: suppressed_def)
qed

lemma map_set_same_image:
  "map_of m k = Some v \<Longrightarrow> f w = f v \<Longrightarrow> map (map_prod id f) (map_set k w m) = map (map_prod id f) m"
  by (induction k w m rule: map_set.induct) auto

lemma setState_known:
  assumes "lane m (rs_AgentID s) = Some e" "rs_AgentID s \<noteq> []"
  shows "setState now s m = m\<lparr>rm_registry := (rm_registry m)\<lparr>rg_runtimeStates :=
    map_set (rs_AgentID s) (mergeState now s (Some e)) (rg_runtimeStates (rm_registry m))\<rparr>\<rparr>"
  using assms by (simp add: setState_def SetRuntimeState_def mergeState_def Let_def)

lemma settled_setState:
  assumes "tracked m" "lane m k = Some s"
  shows "settled now (setState now (normalizeState now s) m) = settled now m"
proof -
  have "rs_AgentID s = k" "k \<noteq> []" using tracked_lane [OF assms] by auto
  then have "setState now (normalizeState now s) m = m\<lparr>rm_registry := (rm_registry m)\<lparr>rg_runtimeStates :=
      map_set k (normalizeState now s) (rg_runtimeStates (rm_registry m))\<rparr>\<rparr>"
    using setState_known [of m "normalizeState now s" s now] assms(2) by (simp add: merge_normalized)
  then show ?thesis
    using map_set_same_image [of _ k s "normalizeState now" "normalizeState now s"] assms(2)
    by (simp add: settled_def normalizeState_idem)
qed

lemma reads_State:
  "reads (calm now m0) (State now k) (case lane m0 k of None \<Rightarrow> (zero_AgentRuntimeState, False) | Some s \<Rightarrow> (s, True))"
  unfolding reads_def
proof (intro allI impI)
  fix m assume c: "calm now m0 m"
  then have tr: "tracked m" and m0: "m0 = settled now m" by (auto simp: calm_def)
  show "fst (State now k m) = (case lane m0 k of None \<Rightarrow> (zero_AgentRuntimeState, False) | Some s \<Rightarrow> (s, True))
      \<and> calm now m0 (snd (State now k m))"
  proof (cases "lane m k")
    case None
    then show ?thesis using State_unknown [OF tr] c by (simp add: m0 lane_settled)
  next
    case (Some s)
    then show ?thesis
      using State_lane(1) [OF tr Some, of now] settled_setState [OF tr Some] tracked_setState [OF tr] m0
      by (simp add: lane_settled calm_def)
  qed
qed

lemma liveLoadPressure_normalize [simp]: "liveLoadPressure (normalizeState now s) = liveLoadPressure s"
  by (simp add: liveLoadPressure_def)

lemma map_sort_key:
  assumes "\<And>x. g (f x) = g x"
  shows "map f (sort_key g xs) = sort_key g (map f xs)"
proof -
  have "map f (insort_key g x ys) = insort_key g (f x) (map f ys)" for x ys
    by (induction ys) (simp_all add: assms)
  then show ?thesis by (induction xs) simp_all
qed

lemma providerPressure_settled: "providerPressure provider (settled now m) = providerPressure provider m"
proof -
  have "RuntimeStates (rm_registry (settled now m)) = map (normalizeState now) (RuntimeStates (rm_registry m))"
    by (simp add: RuntimeStates_def settled_def map_sort_key comp_def)
  then show ?thesis
    by (simp add: providerPressure_def Let_def filter_map comp_def)
qed

lemma reads_providerPressure: "reads (calm now m0) (\<lambda>m. (providerPressure provider m, m)) (providerPressure provider m0)"
  by (auto simp: reads_def calm_def providerPressure_settled)

lemma reads_classPressure:
  "\<exists>ps'. reads (calm now m0) (\<lambda>m. fold (classPressureOne now workerClass provider) agents (ps, m)) ps'"
proof (induction agents arbitrary: ps)
  case Nil
  then show ?case by (auto simp: reads_def)
next
  case (Cons a agents)
  obtain st ok where st: "reads (calm now m0) (State now (ai_ID (ag_Info a))) (st, ok)"
    using reads_State by (metis surj_pair)
  define ps1 where "ps1 = (if provider \<noteq> [] \<and> \<not> EqualFold (TrimSpace (ai_Provider (ag_Info a))) provider
      \<or> \<not> runtimeAgentMatchesWorkerClass (ag_Info a) workerClass \<or> \<not> ok then ps else ps @ [liveLoadPressure st])"
  have one: "reads (calm now m0) (\<lambda>m. classPressureOne now workerClass provider a (ps, m)) ps1"
    using st by (auto simp: reads_def classPressureOne_def ps1_def Let_def split_def)
  obtain ps2 where "reads (calm now m0) (\<lambda>m. fold (classPressureOne now workerClass provider) agents (ps1, m)) ps2"
    using Cons.IH by blast
  then have "reads (calm now m0) (\<lambda>m. fold (classPressureOne now workerClass provider) (a # agents) (ps, m)) ps2"
    using one by (simp add: reads_def) (metis prod.collapse)
  then show ?case by blast
qed

lemma reads_workerClassPressure: "\<exists>x. reads (calm now m0) (workerClassPressure now workerClass provider) x"
proof -
  let ?w = "ToLower (TrimSpace workerClass)" and ?p = "ToLower (TrimSpace provider)"
  obtain ps where ps: "reads (calm now m0) (\<lambda>m. fold (classPressureOne now ?w ?p) (Agents (rm_registry m0)) ([], m)) ps"
    using reads_classPressure by blast
  have ag: "calm now m0 m \<Longrightarrow> Agents (rm_registry m) = Agents (rm_registry m0)" for m
    by (auto simp: calm_def)
  have "reads (calm now m0) (workerClassPressure now workerClass provider) (if ?w = [] then 0 else combinePressure (3 / 5) ps)"
    using ps by (simp add: reads_def workerClassPressure_def Let_def split_def ag)
  then show ?thesis by blast
qed

lemma reads_CapacityPressure: "\<exists>x. reads (calm now m0) (CapacityPressure now info workerClass) x"
proof -
  obtain st ok where st: "reads (calm now m0) (State now (ai_ID info)) (st, ok)"
    using reads_State by (metis surj_pair)
  obtain cp where cp: "reads (calm now m0) (workerClassPressure now workerClass (ai_Provider info)) cp"
    using reads_workerClassPressure by blast
  have "reads (calm now m0) (CapacityPressure now info workerClass)
      (if \<not> ok then 1 / 2 else clampRuntimeLoad (maxRuntimeFloat [liveLoadPressure st, rs_ErrorRate st,
         providerPressure (ai_Provider info) m0, cp]))"
    using st cp reads_providerPressure [of now m0 "ai_Provider info"]
    by (simp add: reads_def CapacityPressure_def Let_def split_def)
  then show ?thesis by blast
qed

lemma reads_RoutingWeight:
  "map_of (rm_routingWeights m0) k = Some w \<Longrightarrow> reads (calm now m0) (RoutingWeight now k) w"
  by (auto simp: reads_def RoutingWeight_def calm_def)

section \<open>Scores\<close>

lemma clampRouterScore_unit [simp]: "0 \<le> clampRouterScore x" "clampRouterScore x \<le> 1"
  by (simp_all add: clampRouterScore_def)

lemma liveFailureRate_unit: "0 \<le> liveFailureRate a b \<and> liveFailureRate a b \<le> 1"
  by (simp add: liveFailureRate_def Let_def)

lemma ModelSummary_rate: "ModelSummary p n c = Some s \<Longrightarrow> 0 \<le> lr_FailureRate s \<and> lr_FailureRate s \<le> 1"
  using liveFailureRate_unit by (auto simp: ModelSummary_def modelSnapshot_def Let_def split: option.splits)

lemma unit_quotient: "0 < (x :: rat) \<Longrightarrow> 0 \<le> 1 / (1 + x) \<and> 1 / (1 + x) \<le> 1"
  by simp

lemma realtimeQualityScore_unit: "0 \<le> realtimeQualityScore info r \<and> realtimeQualityScore info r \<le> 1"
proof (cases "\<exists>live s. ro_liveRealtime r = Some live \<and> ModelSummary (ai_Provider info) (ai_ModelName info) live = Some s")
  case True
  then obtain live s where s: "ro_liveRealtime r = Some live"
    "ModelSummary (ai_Provider info) (ai_ModelName info) live = Some s" by blast
  define t where "t = (if lr_NativeStreamSessions s > 0 then 1 else if lr_PseudoRealtimeSessions s > 0 then 7 / 10
      else if lr_BufferedSessions s > 0 then 1 / 4 else 7 / 20 :: rat)"
  define f where "f = (if lr_AvgTimeToFirstTokenMS s > 0
      then 1 / (1 + of_int (lr_AvgTimeToFirstTokenMS s) / 600) else 1 :: rat)"
  define c where "c = (if lr_AvgTotalCompletionMS s > 0
      then 1 / (1 + of_int (lr_AvgTotalCompletionMS s) / 4000) else 1 :: rat)"
  have "0 \<le> t" "t \<le> 1" by (simp_all add: t_def)
  moreover have "0 \<le> f \<and> f \<le> 1" "0 \<le> c \<and> c \<le> 1"
    unfolding f_def c_def using unit_quotient by simp_all
  moreover note ModelSummary_rate [OF s(2)]
  moreover have "realtimeQualityScore info r = 7 / 20 * t + 1 / 4 * f + 1 / 5 * c + 1 / 5 * (1 - lr_FailureRate s)"
    using s calculation by (simp add: realtimeQualityScore_def Let_def t_def f_def c_def)
  ultimately show ?thesis by (simp add: field_simps)
next
  case False
  then show ?thesis by (auto simp: realtimeQualityScore_def split: option.split)
qed

lemma runtimeScore_unit: "0 \<le> fst (runtimeScore now info task capability r) \<and> fst (runtimeScore now info task capability r) \<le> 1"
  by (simp add: runtimeScore_def Let_def split_def split: option.split)

lemma retrievalScore_unit: "0 \<le> retrievalScore info task complexity r \<and> retrievalScore info task complexity r \<le> 1"
  by (simp add: retrievalScore_def Let_def)

lemma historyScore_unit: "0 \<le> historyScore info task r \<and> historyScore info task r \<le> 1"
  by (simp add: historyScore_def split: option.split sum.split)

lemma scoreAgent_bounds: "0 \<le> fst (scoreAgent parseFloat now a task capability complexity risk r)
    \<and> fst (scoreAgent parseFloat now a task capability complexity risk r) \<le> 100"
proof -
  obtain rt r' where rt: "runtimeScore now (ag_Info a) task capability r = (rt, r')" by force
  have "0 \<le> policyScore parseFloat now a task capability complexity risk r
      \<and> policyScore parseFloat now a task capability complexity risk r \<le> 1"
    by (simp add: policyScore_def clampPolicyScore_def Let_def)
  then show ?thesis
    using historyScore_unit [of "ag_Info a" task r] runtimeScore_unit [of now "ag_Info a" task capability r]
      retrievalScore_unit [of "ag_Info a" task complexity r'] realtimeQualityScore_unit [of "ag_Info a" r']
    by (simp add: scoreAgent_def rt Let_def)
qed

text \<open>The same for a router: nothing but the lanes of its manager changes, and they keep their normal form.\<close>

definition calmRouter :: "time \<Rightarrow> Router \<Rightarrow> Router \<Rightarrow> bool" where
  "calmRouter now r0 r \<longleftrightarrow> r0 = r\<lparr>ro_runtime := map_option (settled now) (ro_runtime r)\<rparr> \<and>
     (\<forall>m. ro_runtime r = Some m \<longrightarrow> tracked m)"

lemma calmRouter_Some:
  "calmRouter now r0 r \<Longrightarrow> ro_runtime r0 = Some m0 \<Longrightarrow> \<exists>m. ro_runtime r = Some m \<and> calm now m0 m"
  by (auto simp: calmRouter_def calm_def)

lemma calmRouter_update:
  "calmRouter now r0 r \<Longrightarrow> ro_runtime r0 = Some m0 \<Longrightarrow> calm now m0 m \<Longrightarrow> calmRouter now r0 (r\<lparr>ro_runtime := Some m\<rparr>)"
  by (auto simp: calmRouter_def calm_def)

definition weighed :: "Router \<Rightarrow> Agent \<Rightarrow> bool" where
  "weighed r a \<longleftrightarrow> (\<forall>m. ro_runtime r = Some m \<longrightarrow> map_of (rm_routingWeights m) (ai_ID (ag_Info a)) \<noteq> None)"

lemma reads_runtimeScore:
  assumes "weighed r0 a"
  shows "\<exists>x. reads (calmRouter now r0) (runtimeScore now (ag_Info a) task capability) x"
proof (cases "ro_runtime r0")
  case None
  then have "reads (calmRouter now r0) (runtimeScore now (ag_Info a) task capability) (1 / 2)"
    by (auto simp: reads_def runtimeScore_def calmRouter_def)
  then show ?thesis by blast
next
  case (Some m0)
  then obtain w where w: "map_of (rm_routingWeights m0) (ai_ID (ag_Info a)) = Some w"
    using assms by (auto simp: weighed_def)
  obtain st ok where st: "reads (calm now m0) (State now (ai_ID (ag_Info a))) (st, ok)"
    using reads_State by (metis surj_pair)
  obtain p where p: "reads (calm now m0) (CapacityPressure now (ag_Info a) (taskWorkerClass task capability)) p"
    using reads_CapacityPressure by blast
  let ?q = "\<lambda>m. let (weight, m) = RoutingWeight now (ai_ID (ag_Info a)) m;
              weight = clampRouterScore weight;
              ((state, ok), m) = State now (ai_ID (ag_Info a)) m in
          if ok then
            let priority = clampRouterScore (rs_PriorityScore state);
                errorPenalty = clampRouterScore (1 - rs_ErrorRate state);
                (pressure, m) = CapacityPressure now (ag_Info a) (taskWorkerClass task capability) m;
                capacityScore = clampRouterScore (1 - pressure)
            in (clampRouterScore (weight * (3 / 10) + priority * (1 / 5) + errorPenalty * (9 / 50)
                  + liveLoadScore state * (4 / 25) + capacityScore * (4 / 25)), m)
          else (weight, m)"
  have "\<exists>x. reads (calm now m0) ?q x"
    using reads_RoutingWeight [OF w, of now] st p
    by (cases ok) (simp_all add: reads_def Let_def split_def)
  then obtain x where x: "reads (calm now m0) ?q x" by blast
  have run: "runtimeScore now (ag_Info a) task capability r = (fst (?q m), r\<lparr>ro_runtime := Some (snd (?q m))\<rparr>)"
    if "ro_runtime r = Some m" for r m
    using that by (simp add: runtimeScore_def Let_def split_def)
  have "reads (calmRouter now r0) (runtimeScore now (ag_Info a) task capability) x"
    unfolding reads_def
  proof (intro allI impI)
    fix r assume r: "calmRouter now r0 r"
    then obtain m where m: "ro_runtime r = Some m" "calm now m0 m" using calmRouter_Some Some by blast
    have q: "fst (?q m) = x" "calm now m0 (snd (?q m))" using x m(2) unfolding reads_def by blast+
    show "fst (runtimeScore now (ag_Info a) task capability r) = x \<and>
        calmRouter now r0 (snd (runtimeScore now (ag_Info a) task capability r))"
      unfolding run [OF m(1)] fst_conv snd_conv using q calmRouter_update [OF r Some q(2)] by blast
  qed
  then show ?thesis by blast
qed

lemma ProviderModelReadyStatus_registry:
  "rm_providerRegistry n = rm_providerRegistry m \<Longrightarrow>
   ProviderModelReadyStatus now p name n = ProviderModelReadyStatus now p name m"
  by (simp add: ProviderModelReadyStatus_def)

lemma candidateMatches_registry:
  assumes "rel_option (\<lambda>m n. rm_providerRegistry n = rm_providerRegistry m) rt rt'"
  shows "candidateMatchesAssignedModel now c a rt' = candidateMatchesAssignedModel now c a rt"
  using assms
proof cases
  case (Some m n)
  then show ?thesis
    using ProviderModelReadyStatus_registry [OF Some(3)]
    by (simp add: candidateMatchesAssignedModel_def SupportsAssignedModel_def Some(3))
qed simp

lemma reads_scoreAgent:
  assumes "weighed r0 a"
  shows "\<exists>x. reads (calmRouter now r0) (scoreAgent parseFloat now a task capability complexity risk) x"
proof -
  obtain rt where rt: "reads (calmRouter now r0) (runtimeScore now (ag_Info a) task capability) rt"
    using reads_runtimeScore [OF assms] by blast
  have pol: "policyScore parseFloat now a task capability complexity risk r = policyScore parseFloat now a task capability complexity risk r0"
    "historyScore (ag_Info a) task r = historyScore (ag_Info a) task r0"
    "retrievalScore (ag_Info a) task complexity r = retrievalScore (ag_Info a) task complexity r0"
    "realtimeQualityScore (ag_Info a) r = realtimeQualityScore (ag_Info a) r0"
    if "calmRouter now r0 r" for r
  proof -
    have eq: "r0 = r\<lparr>ro_runtime := map_option (settled now) (ro_runtime r)\<rparr>"
      using that by (simp add: calmRouter_def)
    have "candidateMatchesAssignedModel now a b (ro_runtime r0) = candidateMatchesAssignedModel now a b (ro_runtime r)" for b
      by (rule candidateMatches_registry) (simp add: eq option.rel_map option.rel_refl)
    then show "policyScore parseFloat now a task capability complexity risk r = policyScore parseFloat now a task capability complexity risk r0"
      by (simp add: policyScore_def)
    show "historyScore (ag_Info a) task r = historyScore (ag_Info a) task r0"
      "retrievalScore (ag_Info a) task complexity r = retrievalScore (ag_Info a) task complexity r0"
      "realtimeQualityScore (ag_Info a) r = realtimeQualityScore (ag_Info a) r0"
      by (simp_all add: eq historyScore_def retrievalScore_def realtimeQualityScore_def)
  qed
  have "reads (calmRouter now r0) (scoreAgent parseFloat now a task capability complexity risk)
    ((39 / 100 * policyScore parseFloat now a task capability complexity risk r0 + 9 / 50 * historyScore (ag_Info a) task r0
      + 1 / 5 * rt + 11 / 100 * retrievalScore (ag_Info a) task complexity r0 + 3 / 25 * realtimeQualityScore (ag_Info a) r0) * 100)"
    using rt unfolding reads_def scoreAgent_def Let_def split_def
    by (metis (no_types, lifting) fst_conv pol snd_conv)
  then show ?thesis by blast
qed

section \<open>The best of a list of agents\<close>

lemma best_fold:
  assumes "\<And>c. c \<in> set cs \<Longrightarrow> reads I (score c) (f c)" "I r"
  shows "\<exists>best' bs' r'. fold (betterOne score) cs ((best, bs), r) = ((best', bs'), r') \<and> I r' \<and> bs \<le> bs' \<and>
    (\<forall>c \<in> set cs. f c \<le> bs') \<and> ((best', bs') = (best, bs) \<or> (\<exists>c \<in> set cs. best' = Some c \<and> bs' = f c))"
  using assms
proof (induction cs arbitrary: best bs r)
  case (Cons a cs)
  obtain s r1 where s: "score a r = (s, r1)" by force
  have a: "s = f a" "I r1" using readsD [OF Cons.prems(1) Cons.prems(2) s] by simp_all
  show ?case
  proof (cases "s > bs")
    case True
    from Cons.IH [OF Cons.prems(1) a(2), of "Some a" s] True show ?thesis
      by (auto simp: betterOne_def s a(1))
  next
    case False
    from Cons.IH [OF Cons.prems(1) a(2), of best bs] False show ?thesis
      by (auto simp: betterOne_def s a(1))
  qed
qed simp

lemma bestAgent_maximal:
  assumes "\<And>c. c \<in> set cs \<Longrightarrow> reads I (score c) (f c)" "I r" "cs \<noteq> []" "\<And>c. c \<in> set cs \<Longrightarrow> - 1000000000 < f c"
  shows "\<exists>b \<in> set cs. fst (bestAgent score cs r) = Some b \<and> (\<forall>c \<in> set cs. f c \<le> f b)"
proof -
  obtain best' bs' r' where f: "fold (betterOne score) cs ((None, - 1000000000), r) = ((best', bs'), r')"
    and max: "\<forall>c \<in> set cs. f c \<le> bs'"
    and or: "(best', bs') = (None, - 1000000000) \<or> (\<exists>c \<in> set cs. best' = Some c \<and> bs' = f c)"
    using best_fold [of cs I score f r None "- 1000000000", OF assms(1,2)] by blast
  obtain c where "c \<in> set cs" using assms(3) by (cases cs) auto
  then have "bs' \<noteq> - 1000000000" using max assms(4) by force
  then show ?thesis using f max or by (auto simp: bestAgent_def)
qed

lemma bestAgent_found:
  assumes "cs \<noteq> []" "\<And>c r. - 1000000000 < fst (score c r)"
  shows "\<exists>b \<in> set cs. fst (bestAgent score cs r) = Some b"
proof -
  have keep: "\<exists>b'. fst (fst (fold (betterOne score) cs ((Some b, bs), r))) = Some b' \<and> (b' = b \<or> b' \<in> set cs)" for cs b bs r
  proof (induction cs arbitrary: b bs r)
    case (Cons a cs)
    obtain s r1 where s: "score a r = (s, r1)" by force
    show ?case
    proof (cases "s > bs")
      case True
      then show ?thesis using Cons.IH [of a s r1] by (auto simp: betterOne_def s)
    next
      case False
      then show ?thesis using Cons.IH [of b bs r1] by (auto simp: betterOne_def s)
    qed
  qed simp
  obtain a as where cs: "cs = a # as" using assms(1) by (cases cs) auto
  obtain s r1 where s: "score a r = (s, r1)" by force
  then have "- 1000000000 < s" using assms(2) [of a r] by simp
  then show ?thesis
    using keep [of as a s r1] by (auto simp: cs bestAgent_def betterOne_def s split_def)
qed

section \<open>Admission at one moment\<close>

text \<open>Whether a lane is admitted, and that it also has a positive weight or none yet.\<close>

definition admissible :: "time \<Rightarrow> AgentRuntimeState \<Rightarrow> bool" where
  "admissible now s \<longleftrightarrow> \<not> suppressed now (normalizeState now s) \<and>
     rs_Status (normalizeState now s) \<notin> {AgentStatusOffline, AgentStatusMaintenance}"

definition opened :: "time \<Rightarrow> string \<Rightarrow> RuntimeManager \<Rightarrow> bool" where
  "opened now k m \<longleftrightarrow> k \<in> fst ` set (rg_agents (rm_registry m)) \<and> map_option (admissible now) (lane m k) = Some True \<and>
     (\<forall>w. map_of (rm_routingWeights m) k = Some w \<longrightarrow> w > 0)"

text \<open>What the queries at one moment keep of a manager.\<close>

definition admits :: "time \<Rightarrow> RuntimeManager \<Rightarrow> RuntimeManager \<Rightarrow> bool" where
  "admits now m n \<longleftrightarrow> tracked n \<and> rg_agents (rm_registry n) = rg_agents (rm_registry m) \<and>
     rm_providerRegistry n = rm_providerRegistry m \<and>
     (\<forall>k. map_option (admissible now) (lane n k) = map_option (admissible now) (lane m k)) \<and>
     (\<forall>k. opened now k m \<longrightarrow> opened now k n) \<and>
     (\<forall>k \<in> fst ` set (rg_agents (rm_registry m)). map_of (rm_routingWeights m) k \<noteq> None \<longrightarrow>
        map_of (rm_routingWeights n) k \<noteq> None)"

lemma admits_refl: "tracked m \<Longrightarrow> admits now m m"
  by (simp add: admits_def)

lemma admits_trans: "admits now m n \<Longrightarrow> admits now n k \<Longrightarrow> admits now m k"
  by (simp add: admits_def)

lemma admits_weights:
  "admits now m n \<Longrightarrow> k \<in> fst ` set (rg_agents (rm_registry m)) \<Longrightarrow> map_of (rm_routingWeights m) k \<noteq> None \<Longrightarrow>
   map_of (rm_routingWeights n) k \<noteq> None"
  unfolding admits_def by blast

lemma Allows_admissible:
  assumes "tracked m"
  shows "fst (Allows now info m) \<longleftrightarrow> map_option (admissible now) (lane m (ai_ID info)) = Some True"
proof (cases "lane m (ai_ID info)")
  case None
  then show ?thesis using State_unknown [OF assms] by (simp add: Allows_def)
next
  case (Some s)
  then show ?thesis using Allows_lane [OF assms Some] by (simp add: admissible_def)
qed

lemma admits_State:
  assumes "tracked m"
  shows "admits now m (snd (State now k m))"
proof (cases "lane m k")
  case None
  then show ?thesis using State_unknown [OF assms] assms by (simp add: admits_refl)
next
  case (Some s)
  have "admissible now (normalizeState now s) = admissible now s"
    by (simp add: admissible_def normalizeState_idem)
  then have "map_option (admissible now) (lane (setState now (normalizeState now s) m) j) =
      map_option (admissible now) (lane m j)" for j
    using State_lane(2) [OF assms Some, of now] Some by simp
  then show ?thesis
    using tracked_setState [OF assms] by (simp add: State_lane(1) [OF assms Some] admits_def opened_def)
qed

lemma admits_Allows: "tracked m \<Longrightarrow> admits now m (snd (Allows now info m))"
  using admits_State [of m now "ai_ID info"] by (simp add: Allows_def split_def Let_def)

lemma Refresh_registry: "rm_providerRegistry (snd (RefreshRoutingWeights now m)) = rm_providerRegistry m"
proof -
  have st: "rm_providerRegistry (snd (State now k m)) = rm_providerRegistry m" for k m
    by (simp add: State_def Let_def split: option.split)
  have "rm_providerRegistry (snd (fold (refreshOne now) infos q)) = rm_providerRegistry (snd q)" for infos q
    by (induction infos arbitrary: q) (simp_all add: refreshOne_def Let_def split_def st)
  then show ?thesis by (simp add: RefreshRoutingWeights_def split_def Let_def)
qed

lemma tracked_registered: "tracked m \<Longrightarrow> k \<in> fst ` set (rg_agents (rm_registry m)) \<Longrightarrow> \<exists>s. lane m k = Some s"
  by (metis map_of_eq_None_iff not_None_eq registry_ok_def subsetD tracked_def)

lemma Refresh_weight:
  assumes "tracked m" "k \<in> fst ` set (rg_agents (rm_registry m))" "lane m k = Some s"
  shows "map_of (rm_routingWeights (snd (RefreshRoutingWeights now m))) k = Some (runtimePriorityWeight now (normalizeState now s))"
    and "0 < runtimePriorityWeight now (normalizeState now s) \<longleftrightarrow> admissible now s"
  using assms by (simp_all add: Refresh_effect(4,5) weight_positive admissible_def)

lemma admits_Refresh:
  assumes "tracked m"
  shows "admits now m (snd (RefreshRoutingWeights now m))"
proof -
  let ?n = "snd (RefreshRoutingWeights now m)"
  have adm: "map_option (admissible now) (lane ?n k) = map_option (admissible now) (lane m k)" for k
    using refreshed_normal [of now now]
    by (cases "lane m k") (simp_all add: Refresh_effect(3) [OF assms] admissible_def)
  have w: "\<exists>w. map_of (rm_routingWeights ?n) k = Some w \<and> (0 < w \<longleftrightarrow> map_option (admissible now) (lane m k) = Some True)"
    if "k \<in> fst ` set (rg_agents (rm_registry m))" for k
    using tracked_registered [OF assms that] Refresh_weight [OF assms that] by fastforce
  have "opened now k m \<longrightarrow> opened now k ?n" for k
  proof
    assume o: "opened now k m"
    then have "k \<in> fst ` set (rg_agents (rm_registry m))" by (simp add: opened_def)
    with o w [OF this] adm show "opened now k ?n"
      by (simp add: opened_def Refresh_effect(2) [OF assms]) fastforce
  qed
  moreover have "map_of (rm_routingWeights ?n) k \<noteq> None" if "k \<in> fst ` set (rg_agents (rm_registry m))" for k
    using w [OF that] by blast
  ultimately show ?thesis
    unfolding admits_def using adm Refresh_effect(1,2) [OF assms] Refresh_registry [of now m] by blast
qed

lemma admits_RoutingWeight:
  assumes "tracked m"
  shows "admits now m (snd (RoutingWeight now k m))"
    and "k \<in> fst ` set (rg_agents (rm_registry m)) \<Longrightarrow> map_of (rm_routingWeights (snd (RoutingWeight now k m))) k \<noteq> None"
    and "opened now k m \<Longrightarrow> fst (RoutingWeight now k m) > 0"
proof -
  show "admits now m (snd (RoutingWeight now k m))"
    using admits_Refresh [OF assms] admits_refl [OF assms]
    by (simp add: RoutingWeight_def split_def Let_def split: option.split)
  show "map_of (rm_routingWeights (snd (RoutingWeight now k m))) k \<noteq> None"
    if "k \<in> fst ` set (rg_agents (rm_registry m))"
    using tracked_registered [OF assms that] Refresh_weight(1) [OF assms that]
    by (auto simp: RoutingWeight_def split_def Let_def split: option.split)
  show "fst (RoutingWeight now k m) > 0" if o: "opened now k m"
  proof (cases "map_of (rm_routingWeights m) k")
    case None
    obtain s where s: "lane m k = Some s" "admissible now s" "k \<in> fst ` set (rg_agents (rm_registry m))"
      using o by (auto simp: opened_def)
    then show ?thesis
      using None Refresh_weight [OF assms s(3,1), of now] Refresh_effect(5) [OF assms, of now]
      by (simp add: RoutingWeight_def split_def Let_def weightOf_def)
  next
    case (Some w)
    then show ?thesis using o by (simp add: RoutingWeight_def opened_def)
  qed
qed

section \<open>Routing\<close>

text \<open>A router is well formed when its registry and its manager are, as every reachable manager is.\<close>

definition router_ok :: "Router \<Rightarrow> bool" where
  "router_ok r \<longleftrightarrow> (case ro_runtime r of None \<Rightarrow> registry_ok (ro_registry r) | Some m \<Rightarrow> tracked m)"

definition fits :: "(string \<Rightarrow> Task \<Rightarrow> bool) \<Rightarrow> time \<Rightarrow> Task \<Rightarrow> string \<Rightarrow> Router \<Rightarrow> Agent \<Rightarrow> bool" where
  "fits canAccept now task capability r a \<longleftrightarrow> isAgentRoutable (ai_Status (ag_Info a)) \<and>
     supportsCapability (ai_Capabilities (ag_Info a)) capability \<and> canAccept (ai_ID (ag_Info a)) task \<and>
     (\<forall>m. ro_runtime r = Some m \<longrightarrow> fst (Allows now (ag_Info a) m))"

definition openRouter :: "time \<Rightarrow> Router \<Rightarrow> Agent \<Rightarrow> bool" where
  "openRouter now r a \<longleftrightarrow> (\<forall>m. ro_runtime r = Some m \<longrightarrow> opened now (ai_ID (ag_Info a)) m)"

definition admitsRouter :: "time \<Rightarrow> Router \<Rightarrow> Router \<Rightarrow> bool" where
  "admitsRouter now r r' \<longleftrightarrow> r'\<lparr>ro_runtime := ro_runtime r\<rparr> = r \<and> rel_option (admits now) (ro_runtime r) (ro_runtime r')"

lemma admitsRouter_refl: "router_ok r \<Longrightarrow> admitsRouter now r r"
  by (cases "ro_runtime r") (simp_all add: admitsRouter_def router_ok_def admits_refl)

lemma admitsRouter_trans: "admitsRouter now r r' \<Longrightarrow> admitsRouter now r' r'' \<Longrightarrow> admitsRouter now r r''"
proof -
  assume a: "admitsRouter now r r'" "admitsRouter now r' r''"
  have "r''\<lparr>ro_runtime := ro_runtime r\<rparr> = (r''\<lparr>ro_runtime := ro_runtime r'\<rparr>)\<lparr>ro_runtime := ro_runtime r\<rparr>" by simp
  also have "\<dots> = r" using a by (simp add: admitsRouter_def)
  finally show ?thesis
    using a by (auto simp: admitsRouter_def elim!: option.rel_cases intro: admits_trans)
qed

lemma admitsRouter_update:
  "ro_runtime r = Some m \<Longrightarrow> admits now m n \<Longrightarrow> admitsRouter now r (r\<lparr>ro_runtime := Some n\<rparr>)"
  by (simp add: admitsRouter_def)

lemma admitsRouter_keeps:
  assumes "admitsRouter now r r'" "router_ok r"
  shows "router_ok r'" "Agents (routerRegistry r') = Agents (routerRegistry r)" "agentByID k r' = agentByID k r"
    and "fits canAccept now task capability r' a = fits canAccept now task capability r a"
    and "openRouter now r a \<Longrightarrow> openRouter now r' a"
    and "candidateMatchesAssignedModel now a b (ro_runtime r') = candidateMatchesAssignedModel now a b (ro_runtime r)"
proof -
  have eq: "r = r'\<lparr>ro_runtime := ro_runtime r\<rparr>" and rel: "rel_option (admits now) (ro_runtime r) (ro_runtime r')"
    using assms(1) by (simp_all add: admitsRouter_def)
  have reg: "ro_registry r' = ro_registry r" using arg_cong [OF eq, of ro_registry] by simp
  show "candidateMatchesAssignedModel now a b (ro_runtime r') = candidateMatchesAssignedModel now a b (ro_runtime r)"
    using rel by (intro candidateMatches_registry) (auto elim!: option.rel_mono_strong simp: admits_def)
  have "router_ok r' \<and> rg_agents (routerRegistry r') = rg_agents (routerRegistry r) \<and>
      fits canAccept now task capability r' a = fits canAccept now task capability r a \<and>
      (openRouter now r a \<longrightarrow> openRouter now r' a)"
    using rel
  proof cases
    case None
    then show ?thesis using assms(2) reg by (simp add: router_ok_def routerRegistry_def fits_def openRouter_def)
  next
    case (Some m n)
    have tr: "tracked m" using assms(2) Some(1) by (simp add: router_ok_def)
    have n: "tracked n" "rg_agents (rm_registry n) = rg_agents (rm_registry m)"
      "map_option (admissible now) (lane n (ai_ID (ag_Info a))) = map_option (admissible now) (lane m (ai_ID (ag_Info a)))"
      "opened now (ai_ID (ag_Info a)) m \<longrightarrow> opened now (ai_ID (ag_Info a)) n"
      using Some(3) by (simp_all add: admits_def)
    show ?thesis
      using n Some(1,2)
      by (simp add: router_ok_def routerRegistry_def fits_def openRouter_def Allows_admissible [OF tr] Allows_admissible [OF n(1)])
  qed
  then show "router_ok r'" "Agents (routerRegistry r') = Agents (routerRegistry r)" "agentByID k r' = agentByID k r"
    "fits canAccept now task capability r' a = fits canAccept now task capability r a"
    "openRouter now r a \<Longrightarrow> openRouter now r' a"
    by (simp_all add: agentByID_def AgentByID_def Agents_def)
qed

lemma registered_id:
  assumes "router_ok r" "a \<in> set (Agents (routerRegistry r))"
  shows "ai_ID (ag_Info a) \<in> fst ` set (rg_agents (routerRegistry r))"
proof -
  have "registry_ok (routerRegistry r)"
    using assms(1) by (auto simp: router_ok_def routerRegistry_def tracked_def split: option.splits)
  then have "\<forall>x \<in> set (rg_agents (routerRegistry r)). ai_ID (ag_Info (snd x)) = fst x"
    by (simp add: registry_ok_def split_def)
  moreover obtain x where "x \<in> set (rg_agents (routerRegistry r))" "a = snd x"
    using assms(2) by (auto simp: Agents_def)
  ultimately show ?thesis by (metis image_eqI)
qed

lemma agentByID_registered:
  assumes "router_ok r" "agentByID k r = Some a"
  shows "a \<in> set (Agents (routerRegistry r))" "ai_ID (ag_Info a) = k"
proof -
  have "registry_ok (routerRegistry r)"
    using assms(1) by (auto simp: router_ok_def routerRegistry_def tracked_def split: option.splits)
  moreover have ka: "(k, a) \<in> set (rg_agents (routerRegistry r))"
    using assms(2) by (simp add: agentByID_def AgentByID_def map_of_SomeD)
  ultimately show "ai_ID (ag_Info a) = k" by (auto simp: registry_ok_def)
  show "a \<in> set (Agents (routerRegistry r))" using ka by (force simp: Agents_def)
qed

lemma weighed_keeps:
  assumes "admitsRouter now r r'" "router_ok r" "a \<in> set (Agents (routerRegistry r))" "weighed r a"
  shows "weighed r' a"
  unfolding weighed_def
proof (intro allI impI)
  fix n assume n: "ro_runtime r' = Some n"
  then obtain m where m: "ro_runtime r = Some m" "admits now m n"
    using assms(1) by (auto simp: admitsRouter_def option_rel_Some2)
  then show "map_of (rm_routingWeights n) (ai_ID (ag_Info a)) \<noteq> None"
    using assms(4) registered_id [OF assms(2,3)] admits_weights [OF m(2)] by (simp add: weighed_def routerRegistry_def)
qed

lemma canRouteAgent_cases:
  assumes "router_ok r" "a \<in> set (Agents (routerRegistry r))"
    and "canRouteAgent canAccept now task a capability r = (ok, r')"
  shows "admitsRouter now r r' \<and> (ok \<longrightarrow> fits canAccept now task capability r a \<and> weighed r' a) \<and>
    (fits canAccept now task capability r a \<and> openRouter now r a \<longrightarrow> ok)"
proof (cases "ro_runtime r")
  case None
  then show ?thesis
    using assms(3) admitsRouter_refl [OF assms(1)]
    by (auto simp: canRouteAgent_def laneOpen_def fits_def weighed_def Let_def split: if_splits)
next
  case (Some m)
  then have tr: "tracked m" using assms(1) by (simp add: router_ok_def)
  have reg: "ai_ID (ag_Info a) \<in> fst ` set (rg_agents (rm_registry m))"
    using registered_id [OF assms(1,2)] Some by (simp add: routerRegistry_def)
  obtain al m1 where al: "Allows now (ag_Info a) m = (al, m1)" by force
  have m1: "admits now m m1" using admits_Allows [OF tr, of now "ag_Info a"] by (simp add: al)
  then have tr1: "tracked m1" and reg1: "ai_ID (ag_Info a) \<in> fst ` set (rg_agents (rm_registry m1))"
    using reg by (simp_all add: admits_def)
  obtain w m2 where w: "RoutingWeight now (ai_ID (ag_Info a)) m1 = (w, m2)" by force
  note m2 = admits_RoutingWeight [OF tr1, where now = now and k = "ai_ID (ag_Info a)", unfolded w fst_conv snd_conv]
  have "admits now m m2" using m1 m2(1) admits_trans by blast
  moreover have "opened now (ai_ID (ag_Info a)) m \<Longrightarrow> w > 0" using m1 m2(3) by (simp add: admits_def)
  ultimately show ?thesis
    using assms(3) Some al w m1 m2(2) [OF reg1] admitsRouter_update [OF Some] admitsRouter_refl [OF assms(1)]
    by (auto simp: canRouteAgent_def laneOpen_def fits_def weighed_def openRouter_def Let_def split: if_splits)
qed

lemma tryAgent_cases:
  assumes "router_ok r" "tryAgent canAccept now task capability exclude k r = (res, r')"
  shows "admitsRouter now r r' \<and> (\<forall>a. res = Some a \<longrightarrow> a \<in> set (Agents (routerRegistry r)) \<and>
    ai_ID (ag_Info a) \<notin> set exclude \<and> fits canAccept now task capability r a)"
proof (cases "k \<in> set exclude \<or> agentByID k r = None")
  case True
  then show ?thesis using assms admitsRouter_refl by (auto simp: tryAgent_def split: if_splits)
next
  case False
  then obtain a where a: "agentByID k r = Some a" "k \<notin> set exclude" by auto
  note reg = agentByID_registered [OF assms(1) a(1)]
  obtain ok r1 where c: "canRouteAgent canAccept now task a capability r = (ok, r1)" by force
  show ?thesis
    using canRouteAgent_cases [OF assms(1) reg(1) c] assms(2) a reg by (auto simp: tryAgent_def c split: if_splits)
qed

lemma collectOne_apply:
  "collectOne canAccept now task capability exclude a (cs, r) = (if ai_ID (ag_Info a) \<in> set exclude then (cs, r)
     else let (ok, r) = canRouteAgent canAccept now task a capability r in (if ok then cs @ [a] else cs, r))"
  by (simp add: collectOne_def)

lemma collect_fold:
  assumes "router_ok r" "set as \<subseteq> set (Agents (routerRegistry r))"
    and "fold (collectOne canAccept now task capability exclude) as (cs, r) = (cs', r')"
  shows "admitsRouter now r r' \<and> (\<exists>ds. cs' = cs @ ds \<and>
    (\<forall>d \<in> set ds. d \<in> set as \<and> ai_ID (ag_Info d) \<notin> set exclude \<and> fits canAccept now task capability r d \<and> weighed r' d) \<and>
    (\<forall>a \<in> set as. ai_ID (ag_Info a) \<notin> set exclude \<and> fits canAccept now task capability r a \<and> openRouter now r a \<longrightarrow>
       a \<in> set ds))"
  using assms
proof (induction as arbitrary: cs r)
  case Nil
  then show ?case by (auto intro: admitsRouter_refl)
next
  case (Cons a as)
  have a: "a \<in> set (Agents (routerRegistry r))" using Cons.prems(2) by simp
  obtain ok r1 where c: "canRouteAgent canAccept now task a capability r = (ok, r1)" by force
  note one = canRouteAgent_cases [OF Cons.prems(1) a c]
  show ?case
  proof (cases "ai_ID (ag_Info a) \<in> set exclude")
    case True
    then have run: "fold (collectOne canAccept now task capability exclude) as (cs, r) = (cs', r')"
      using Cons.prems(3) by (simp add: collectOne_apply)
    show ?thesis
      using Cons.IH [OF Cons.prems(1) _ run] Cons.prems(2) True by auto
  next
    case False
    note keeps = admitsRouter_keeps [OF conjunct1 [OF one] Cons.prems(1)]
    have run: "fold (collectOne canAccept now task capability exclude) as
        (if ok then cs @ [a] else cs, r1) = (cs', r')"
      using Cons.prems(3) False by (simp add: collectOne_apply c)
    have sub: "set as \<subseteq> set (Agents (routerRegistry r1))" using Cons.prems(2) keeps(2) by simp
    obtain ds where ih: "admitsRouter now r1 r'" "cs' = (if ok then cs @ [a] else cs) @ ds"
      "\<forall>d \<in> set ds. d \<in> set as \<and> ai_ID (ag_Info d) \<notin> set exclude \<and> fits canAccept now task capability r d \<and> weighed r' d"
      "\<forall>b \<in> set as. ai_ID (ag_Info b) \<notin> set exclude \<and> fits canAccept now task capability r b \<and> openRouter now r1 b \<longrightarrow>
         b \<in> set ds"
      using Cons.IH [OF keeps(1) sub run] keeps(4) by auto
    have w: "ok \<Longrightarrow> weighed r' a"
      using weighed_keeps [OF ih(1) keeps(1)] one a keeps(2) by simp
    have adm: "admitsRouter now r r'" using admitsRouter_trans one ih(1) by blast
    show ?thesis
    proof (intro conjI adm exI [of _ "(if ok then [a] else []) @ ds"])
      show "cs' = cs @ (if ok then [a] else []) @ ds" using ih(2) by simp
      show "\<forall>d \<in> set ((if ok then [a] else []) @ ds). d \<in> set (a # as) \<and> ai_ID (ag_Info d) \<notin> set exclude \<and>
          fits canAccept now task capability r d \<and> weighed r' d"
        using ih(3) w one False by auto
      show "\<forall>b \<in> set (a # as). ai_ID (ag_Info b) \<notin> set exclude \<and> fits canAccept now task capability r b \<and>
          openRouter now r b \<longrightarrow> b \<in> set ((if ok then [a] else []) @ ds)"
        using ih(4) one keeps(5) by auto
    qed
  qed
qed

text \<open>The provider and the model the task asks for, unless it is being tried again.\<close>

definition asAssigned :: "time \<Rightarrow> Task \<Rightarrow> string list \<Rightarrow> Router \<Rightarrow> Agent \<Rightarrow> bool" where
  "asAssigned now task exclude r a \<longleftrightarrow> exclude \<noteq> [] \<or> shouldRelaxAssignedProvider task \<or>
     ((TrimSpace (t_AssignedProvider task) = [] \<or>
         EqualFold (TrimSpace (ai_Provider (ag_Info a))) (TrimSpace (t_AssignedProvider task))) \<and>
      (TrimSpace (t_AssignedModel task) = [] \<or>
         candidateMatchesAssignedModel now a (TrimSpace (t_AssignedModel task)) (ro_runtime r)))"

lemma routeCandidates_cases:
  assumes "router_ok r" "routeCandidates canAccept now task capability exclude r = (cs, r')"
  shows "admitsRouter now r r' \<and>
    (\<forall>c \<in> set cs. c \<in> set (Agents (routerRegistry r)) \<and> ai_ID (ag_Info c) \<notin> set exclude \<and>
       fits canAccept now task capability r c \<and> weighed r' c \<and> asAssigned now task exclude r c) \<and>
    (\<forall>a \<in> set (Agents (routerRegistry r)). ai_ID (ag_Info a) \<notin> set exclude \<and>
       fits canAccept now task capability r a \<and> openRouter now r a \<and> asAssigned now task exclude r a \<longrightarrow> a \<in> set cs)"
proof -
  obtain ds r1 where run: "fold (collectOne canAccept now task capability exclude) (Agents (routerRegistry r)) ([], r) = (ds, r1)"
    by force
  note col = collect_fold [OF assms(1) order_refl run, simplified]
  note match = admitsRouter_keeps(6) [OF conjunct1 [OF col] assms(1)]
  obtain adm: "admitsRouter now r r1" and
    inD: "\<And>d. d \<in> set ds \<Longrightarrow> d \<in> set (Agents (routerRegistry r)) \<and> ai_ID (ag_Info d) \<notin> set exclude \<and>
      fits canAccept now task capability r d \<and> weighed r1 d" and
    toD: "\<And>a. a \<in> set (Agents (routerRegistry r)) \<Longrightarrow> ai_ID (ag_Info a) \<notin> set exclude \<Longrightarrow>
      fits canAccept now task capability r a \<Longrightarrow> openRouter now r a \<Longrightarrow> a \<in> set ds"
    using col by blast
  have cs: "cs = filterCandidatesByAssignedModel now task
      (filterCandidatesByAssignedProvider task ds (exclude \<noteq> [])) (ro_runtime r1)
      (exclude \<noteq> [] \<or> shouldRelaxAssignedProvider task)" and r1: "r1 = r'"
    using assms(2) by (auto simp: routeCandidates_def run)
  have "c \<in> set cs \<longleftrightarrow> c \<in> set ds \<and> asAssigned now task exclude r c" for c
    by (auto simp: cs filterCandidatesByAssignedModel_def filterCandidatesByAssignedProvider_def asAssigned_def match Let_def)
  then show ?thesis using adm inD toD r1 by blast
qed

lemma score_not_least: "- 1000000000 < fst (scoreAgent parseFloat now c task capability complexity risk r)"
  using scoreAgent_bounds [of parseFloat now c task capability complexity risk r] by linarith

lemma accepted_fields [simp]:
  "ta_Status (accepted now task plan a capability reason rt) = TaskStatusAccepted"
  "ta_AgentID (accepted now task plan a capability reason rt) = ai_ID (ag_Info a)"
  "ta_Reason (accepted now task plan a capability reason rt) = reason"
  "ta_Capability (accepted now task plan a capability reason rt) = capability"
  by (simp_all add: accepted_def Let_def)

lemma policyRoute_cases:
  assumes "routeCandidates canAccept now task (routeCapability task plan) exclude r = (cs, r1)"
  shows "if cs = [] then \<exists>acc. policyRoute canAccept parseFloat now task plan exclude r = ((acc, None), r1) \<and> ta_Status acc = TaskStatusRejected
    else \<exists>b \<in> set cs. \<exists>acc r'. policyRoute canAccept parseFloat now task plan exclude r = ((acc, Some b), r') \<and>
      fst (bestAgent (\<lambda>c. scoreAgent parseFloat now c task (routeCapability task plan) (ep_Complexity plan)
        (EvaluateRiskContext (taskText task))) cs r1) = Some b \<and>
      acc = accepted now task plan b (routeCapability task plan) ''policy routing'' (ro_runtime r')"
proof (cases "cs = []")
  case True
  then show ?thesis using assms by (simp add: policyRoute_def rejected_def Let_def)
next
  case False
  let ?score = "\<lambda>c. scoreAgent parseFloat now c task (routeCapability task plan) (ep_Complexity plan) (EvaluateRiskContext (taskText task))"
  obtain best r' where best: "bestAgent ?score cs r1 = (best, r')" by force
  obtain b where "b \<in> set cs" "best = Some b"
    using bestAgent_found [of cs ?score r1, OF False score_not_least] best by auto
  then show ?thesis using assms False best by (simp add: policyRoute_def Let_def)
qed

text \<open>What an outcome of routing says about the router it started from.\<close>

definition outcome ::
  "(string \<Rightarrow> Task \<Rightarrow> bool) \<Rightarrow> time \<Rightarrow> Task \<Rightarrow> ExecutionPlan \<Rightarrow> string list \<Rightarrow> Router \<Rightarrow> TaskAcceptance \<Rightarrow> Agent option \<Rightarrow> bool" where
  "outcome canAccept now task plan exclude r acc choice \<longleftrightarrow>
    (case choice of
       None \<Rightarrow> ta_Status acc = TaskStatusRejected \<and>
         (\<forall>a \<in> set (Agents (routerRegistry r)). ai_ID (ag_Info a) \<notin> set exclude \<longrightarrow>
            fits canAccept now task (routeCapability task plan) r a \<longrightarrow> openRouter now r a \<longrightarrow> \<not> asAssigned now task exclude r a)
     | Some a \<Rightarrow> a \<in> set (Agents (routerRegistry r)) \<and> ai_ID (ag_Info a) \<notin> set exclude \<and>
         fits canAccept now task (routeCapability task plan) r a \<and>
         (\<exists>reason rt. acc = accepted now task plan a (routeCapability task plan) reason rt \<and>
            (reason = ''policy routing'' \<longrightarrow> asAssigned now task exclude r a)))"

lemma outcome_before:
  assumes "admitsRouter now r r1" "router_ok r" "outcome canAccept now task plan exclude r1 acc choice"
  shows "outcome canAccept now task plan exclude r acc choice"
proof -
  note keeps = admitsRouter_keeps [OF assms(1,2)]
  have as: "asAssigned now task exclude r1 a = asAssigned now task exclude r a" for a
    by (simp add: asAssigned_def keeps(6))
  show ?thesis
    using assms(3) keeps(5) unfolding outcome_def keeps(2,4) as by (cases choice) auto
qed

lemma policyRoute_outcome:
  assumes "router_ok r"
  shows "\<exists>acc choice r'. policyRoute canAccept parseFloat now task plan exclude r = ((acc, choice), r') \<and>
    outcome canAccept now task plan exclude r acc choice"
proof -
  obtain cs r1 where cs: "routeCandidates canAccept now task (routeCapability task plan) exclude r = (cs, r1)" by force
  note rc = routeCandidates_cases [OF assms cs] and pr = policyRoute_cases [OF cs, of parseFloat]
  show ?thesis
  proof (cases "cs = []")
    case True
    then show ?thesis using pr rc by (auto simp: outcome_def)
  next
    case False
    then obtain b acc r' where "b \<in> set cs" "policyRoute canAccept parseFloat now task plan exclude r = ((acc, Some b), r')"
      "acc = accepted now task plan b (routeCapability task plan) ''policy routing'' (ro_runtime r')"
      using pr by auto
    then show ?thesis using rc by (auto simp: outcome_def)
  qed
qed

lemma stage_cases:
  assumes "router_ok r" "(if P then tryAgent canAccept now task capability exclude k r else (None, r)) = (res, r1)"
  shows "admitsRouter now r r1 \<and> (\<forall>a. res = Some a \<longrightarrow> a \<in> set (Agents (routerRegistry r)) \<and>
    ai_ID (ag_Info a) \<notin> set exclude \<and> fits canAccept now task capability r a)"
proof (cases P)
  case True
  then show ?thesis using tryAgent_cases [OF assms(1)] assms(2) by simp
next
  case False
  then show ?thesis using assms admitsRouter_refl by auto
qed

lemma route_outcome:
  assumes ok: "router_ok r"
  shows "\<exists>acc choice r'. route canAccept parseFloat now task plan exclude r = ((acc, choice), r') \<and>
    outcome canAccept now task plan exclude r acc choice"
proof -
  let ?cap = "routeCapability task plan" and ?hints = "t_RoutingHints task"
  let ?tried = "tryAgent canAccept now task ?cap exclude"
  let ?out = "outcome canAccept now task plan exclude"
  obtain x1 r1 where s1: "(if preferredAgentID ?hints \<noteq> [] then ?tried (preferredAgentID ?hints) r else (None, r)) = (x1, r1)"
    by force
  note c1 = stage_cases [OF ok s1]
  have ok1: "router_ok r1" using admitsRouter_keeps(1) c1 ok by blast
  obtain x2 r2 where s2: "(if routeModeOrchestrator ?hints then ?tried ''orchestrator'' r1 else (None, r1)) = (x2, r2)" by force
  note c2 = stage_cases [OF ok1 s2]
  have ok2: "router_ok r2" using admitsRouter_keeps(1) c2 ok1 by blast
  obtain x3 r3 where s3: "(if isSourcecraftWork task then ?tried ''orchestrator'' r2 else (None, r2)) = (x3, r3)" by force
  note c3 = stage_cases [OF ok2 s3]
  have ok3: "router_ok r3" using admitsRouter_keeps(1) c3 ok2 by blast
  obtain acc ch r4 where p: "policyRoute canAccept parseFloat now task plan exclude r3 = ((acc, ch), r4)" "?out r3 acc ch"
    using policyRoute_outcome [OF ok3] by blast
  have r1': "(if preferredAgentID ?hints = [] then (None, r) else ?tried (preferredAgentID ?hints) r) = (x1, r1)"
    using s1 by (simp split: if_splits)
  have run: "route canAccept parseFloat now task plan exclude r =
      (case x1 of
         Some a \<Rightarrow> ((accepted now task plan a ?cap ''preferred agent routing'' (ro_runtime r1), Some a), r1)
       | None \<Rightarrow> (case x2 of
           Some a \<Rightarrow> ((accepted now task plan a ?cap ''orchestrator route override'' (ro_runtime r2), Some a), r2)
         | None \<Rightarrow> (case x3 of
             Some a \<Rightarrow> ((accepted now task plan a ?cap ''sourcecraft route'' (ro_runtime r3), Some a), r3)
           | None \<Rightarrow> ((acc, ch), r4))))"
    unfolding route_def Let_def r1' prod.case s2 s3 p(1) by simp
  have o3: "?out r2 a c" if "?out r3 a c" for a c using outcome_before [OF conjunct1 [OF c3] ok2 that] .
  have o2: "?out r1 a c" if "?out r2 a c" for a c using outcome_before [OF conjunct1 [OF c2] ok1 that] .
  have o1: "?out r a c" if "?out r1 a c" for a c using outcome_before [OF conjunct1 [OF c1] ok that] .
  have hit: "?out s (accepted now task plan a ?cap reason rt) (Some a)"
    if "a \<in> set (Agents (routerRegistry s)) \<and> ai_ID (ag_Info a) \<notin> set exclude \<and> fits canAccept now task ?cap s a"
      "reason \<noteq> ''policy routing''" for a s reason rt
    using that by (auto simp: outcome_def)
  show ?thesis
  proof (cases x1)
    case (Some a)
    then show ?thesis using run hit [of a r] c1 by simp
  next
    case None
    note n1 = None
    show ?thesis
    proof (cases x2)
      case (Some a)
      then show ?thesis using run n1 o1 [OF hit [of a r1]] c2 by simp
    next
      case None
      note n2 = None
      show ?thesis
      proof (cases x3)
        case (Some a)
        then show ?thesis using run n1 n2 o1 [OF o2 [OF hit [of a r2]]] c3 by simp
      next
        case None
        then show ?thesis using run n1 n2 o1 [OF o2 [OF o3 [OF p(2)]]] by simp
      qed
    qed
  qed
qed

section \<open>Properties\<close>

text \<open>C15. The agent a task is routed to, on whichever path, is registered and not excluded, its status is
  routable, the runtime admits its lane at that moment, it has the capability the plan asks for and
  accepts the task. The acceptance names it. When it was chosen by policy it also is of the provider
  and serves the model the task was assigned to, unless the task is being tried again. When no agent
  is returned, the task is rejected.\<close>

theorem routed_agent_is_eligible:
  assumes "router_ok r" "route canAccept parseFloat now task plan exclude r = ((acc, choice), r')"
  shows "case choice of
      None \<Rightarrow> ta_Status acc = TaskStatusRejected
    | Some a \<Rightarrow> a \<in> set (Agents (routerRegistry r)) \<and> ai_ID (ag_Info a) \<notin> set exclude \<and>
        isAgentRoutable (ai_Status (ag_Info a)) \<and> (\<forall>m. ro_runtime r = Some m \<longrightarrow> fst (Allows now (ag_Info a) m)) \<and>
        supportsCapability (ai_Capabilities (ag_Info a)) (routeCapability task plan) \<and> canAccept (ai_ID (ag_Info a)) task \<and>
        ta_Status acc = TaskStatusAccepted \<and> ta_AgentID acc = ai_ID (ag_Info a) \<and>
        ta_Capability acc = routeCapability task plan \<and>
        (ta_Reason acc = ''policy routing'' \<longrightarrow> asAssigned now task exclude r a)"
  using route_outcome [OF assms(1), of canAccept parseFloat now task plan exclude] assms(2)
  by (cases choice) (auto simp: outcome_def fits_def)

text \<open>C16. Routing does not miss an agent: when a registered agent that is not excluded is routable, admitted
  with a positive weight, has the capability, accepts the task and is of the assigned provider and
  model, the task is accepted by some agent.\<close>

theorem routing_finds_an_agent:
  assumes "router_ok r" "a \<in> set (Agents (routerRegistry r))" "ai_ID (ag_Info a) \<notin> set exclude"
    and "isAgentRoutable (ai_Status (ag_Info a))"
    and "\<And>m. ro_runtime r = Some m \<Longrightarrow> fst (Allows now (ag_Info a) m) \<and> 0 < fst (RoutingWeight now (ai_ID (ag_Info a)) m)"
    and "supportsCapability (ai_Capabilities (ag_Info a)) (routeCapability task plan)" "canAccept (ai_ID (ag_Info a)) task"
    and "asAssigned now task exclude r a"
  shows "\<exists>acc b r'. route canAccept parseFloat now task plan exclude r = ((acc, Some b), r') \<and> ta_Status acc = TaskStatusAccepted"
proof -
  have "opened now (ai_ID (ag_Info a)) m" if m: "ro_runtime r = Some m" for m
  proof -
    have "tracked m" using assms(1) m by (simp add: router_ok_def)
    moreover have "ai_ID (ag_Info a) \<in> fst ` set (rg_agents (rm_registry m))"
      using registered_id [OF assms(1,2)] m by (simp add: routerRegistry_def)
    ultimately show ?thesis
      using assms(5) [OF m] by (auto simp: opened_def Allows_admissible RoutingWeight_def)
  qed
  then have "openRouter now r a" by (simp add: openRouter_def)
  moreover have "fits canAccept now task (routeCapability task plan) r a" using assms(4-7) by (simp add: fits_def)
  moreover obtain acc choice r' where o: "route canAccept parseFloat now task plan exclude r = ((acc, choice), r')"
    "outcome canAccept now task plan exclude r acc choice"
    using route_outcome [OF assms(1)] by blast
  ultimately obtain b where "choice = Some b" using assms(2,3,8) by (cases choice) (auto simp: outcome_def)
  then show ?thesis using o by (auto simp: outcome_def)
qed


section \<open>Witnesses\<close>

definition router_agent :: Agent where
  "router_agent = \<lparr>ag_Info = \<lparr>ai_ID = ''a1'', ai_Type = ''coder'', ai_Provider = ''local'', ai_ModelName = ''m'',
     ai_Capabilities = [''code''], ai_Status = AgentStatusReady\<rparr>, ag_SupportsAssignedModelOverride = False\<rparr>"

definition router_manager :: RuntimeManager where
  "router_manager = (NewRuntimeManager NewRegistry None)\<lparr>rm_registry := RegisterAgent 1 router_agent NewRegistry\<rparr>"

definition example_router :: Router where
  "example_router = (NewRouter NewRegistry None)\<lparr>ro_runtime := Some router_manager\<rparr>"

definition router_plan :: ExecutionPlan where
  "router_plan = zero_ExecutionPlan\<lparr>ep_PrimaryCapability := ''code''\<rparr>"

lemma router_manager_reachable: "manager_reachable router_manager"
  unfolding router_manager_def
  using mgr_next [OF mgr_start [of None] mgr_register [of router_agent _ 1]]
  by (simp add: router_agent_def NewRuntimeManager_def)

lemma example_router_ok: "router_ok example_router"
  using manager_reachable_ok [OF router_manager_reachable] by (simp add: router_ok_def example_router_def lanes_ok_def)

lemma example_router_facts:
  "router_agent \<in> set (Agents (routerRegistry example_router))"
  "ro_runtime example_router = Some router_manager"
  by (code_simp, simp add: example_router_def)

lemma example_lane_open:
  "fst (Allows 2 (ag_Info router_agent) router_manager)" "0 < fst (RoutingWeight 2 (ai_ID (ag_Info router_agent)) router_manager)"
  by code_simp+

lemma example_router_opened: "opened 2 (ai_ID (ag_Info router_agent)) router_manager"
proof -
  have "tracked router_manager" using example_router_ok by (simp add: router_ok_def example_router_facts(2))
  moreover have "ai_ID (ag_Info router_agent) \<in> fst ` set (rg_agents (rm_registry router_manager))"
    using registered_id [OF example_router_ok example_router_facts(1)] by (simp add: routerRegistry_def example_router_facts(2))
  ultimately show ?thesis
    using example_lane_open by (auto simp: opened_def Allows_admissible RoutingWeight_def)
qed

lemma example_route_found:
  "asAssigned 2 zero_Task [] example_router router_agent"
  "supportsCapability (ai_Capabilities (ag_Info router_agent)) (routeCapability zero_Task router_plan)"
  by code_simp+

theorem routing_finds_an_agent_witness:
  "\<exists>acc b r'. route (\<lambda>_ _. True) (\<lambda>_. None) 2 zero_Task router_plan [] example_router = ((acc, Some b), r') \<and>
     ta_Status acc = TaskStatusAccepted"
  by (rule routing_finds_an_agent [OF example_router_ok example_router_facts(1)])
    (use example_router_facts example_lane_open example_route_found in \<open>simp_all add: router_agent_def isAgentRoutable_def\<close>)

theorem routed_agent_is_eligible_witness:
  "\<exists>acc choice r'. route (\<lambda>_ _. True) (\<lambda>_. None) 2 zero_Task router_plan [] example_router = ((acc, choice), r') \<and>
     (case choice of
        None \<Rightarrow> ta_Status acc = TaskStatusRejected
      | Some a \<Rightarrow> a \<in> set (Agents (routerRegistry example_router)) \<and> fst (Allows 2 (ag_Info a) router_manager))"
proof -
  obtain acc choice r' where run: "route (\<lambda>_ _. True) (\<lambda>_. None) 2 zero_Task router_plan [] example_router = ((acc, choice), r')"
    by (metis surj_pair)
  have "case choice of
        None \<Rightarrow> ta_Status acc = TaskStatusRejected
      | Some a \<Rightarrow> a \<in> set (Agents (routerRegistry example_router)) \<and> fst (Allows 2 (ag_Info a) router_manager)"
    using routed_agent_is_eligible [OF example_router_ok run] example_router_facts(2) by (cases choice) simp_all
  then show ?thesis using run by blast
qed


end
