(* ===== verification/AdaptiveRuntime.thy ===== *)
theory AdaptiveRuntime
  imports Router
begin

text \<open>
  The adaptive runtime, \<open>go-core/internal/kernel/adaptive_runtime.go\<close>, with the records of
  \<open>go-core/internal/domain/adaptive.go\<close>: before a task is routed it looks at every lane, suppresses the
  ones that keep failing, chooses an execution mode and writes its decision into the routing hints.
  It works on the runtime manager and the registry the manager holds. The record that the memory
  keeps of a decision has no effect on the task and is left out. The profile of the machine,
  \<open>kernel/execution_profile.go\<close>, and the switch of \<open>kernel/bootstrap_mode.go\<close> stand at the end.
\<close>

section \<open>Decisions\<close>

datatype AdaptiveExecutionMode =
    AdaptiveExecutionModeBalanced | AdaptiveExecutionModeThroughput
  | AdaptiveExecutionModeLatencyGuarded | AdaptiveExecutionModeRecovery

fun adaptiveModeText :: "AdaptiveExecutionMode \<Rightarrow> string" where
  "adaptiveModeText AdaptiveExecutionModeBalanced = ''balanced''"
| "adaptiveModeText AdaptiveExecutionModeThroughput = ''throughput''"
| "adaptiveModeText AdaptiveExecutionModeLatencyGuarded = ''latency_guarded''"
| "adaptiveModeText AdaptiveExecutionModeRecovery = ''recovery''"

record AdaptiveAgentSignal =
  sg_AgentID :: string
  sg_Status :: AgentStatus
  sg_ErrorRate :: rat
  sg_RoutingWeight :: rat
  sg_Issue :: string
  sg_Action :: string

record AdaptiveDiagnostics =
  dx_HealthyAgents :: int
  dx_DegradedAgents :: int
  dx_SuppressedAgents :: int
  dx_OfflineAgents :: int
  dx_AverageErrorRate :: rat
  dx_TopSignals :: "AdaptiveAgentSignal list"
  dx_ObservedAt :: time

record AdaptiveDecision =
  de_Mode :: AdaptiveExecutionMode
  de_Reason :: string
  de_MaxParallelism :: int
  de_PreferredRouteMode :: string
  de_SuppressedAgents :: "string list"
  de_RecoveryActions :: "string list"
  de_Diagnostics :: AdaptiveDiagnostics
  de_DecidedAt :: time

section \<open>The width of a plan\<close>

definition widthOne :: "PlanStep \<Rightarrow> (string \<times> int) list \<times> int \<Rightarrow> (string \<times> int) list \<times> int" where
  "widthOne step = (\<lambda>(dependents, maxWidth).
     let key = nat_to_string (length (ps_Dependencies step));
         n = (case map_of dependents key of None \<Rightarrow> 0 | Some n \<Rightarrow> n) + 1
     in (map_set key n dependents, if n > maxWidth then n else maxWidth))"

definition planWidth :: "ExecutionPlan \<Rightarrow> int" where
  "planWidth plan =
     (let (_, maxWidth) = fold widthOne (ep_Steps plan) ([], 0)
      in if maxWidth = 0 \<and> ep_Steps plan \<noteq> [] then 1 else maxWidth)"

definition adaptiveParallelismLimit :: "Task \<Rightarrow> ExecutionPlan \<Rightarrow> int" where
  "adaptiveParallelismLimit task plan =
     (let limit = (case t_Complexity task of
              ComplexityLow \<Rightarrow> 2 | ComplexityMedium \<Rightarrow> 3 | ComplexityHigh \<Rightarrow> 4 | ComplexityCritical \<Rightarrow> 4 | _ \<Rightarrow> 2);
          width = planWidth plan
      in if width > 0 \<and> width < limit then width else limit)"

section \<open>Diagnostics\<close>

definition zero_AdaptiveDiagnostics :: "time \<Rightarrow> AdaptiveDiagnostics" where
  "zero_AdaptiveDiagnostics now = \<lparr>dx_HealthyAgents = 0, dx_DegradedAgents = 0, dx_SuppressedAgents = 0,
     dx_OfflineAgents = 0, dx_AverageErrorRate = 0, dx_TopSignals = [], dx_ObservedAt = now\<rparr>"

text \<open>The count and the issue for the status of one lane.\<close>

definition countLane :: "AgentStatus \<Rightarrow> AdaptiveDiagnostics \<Rightarrow> string \<times> AdaptiveDiagnostics" where
  "countLane status d =
     (case status of
        AgentStatusReady \<Rightarrow> ([], d\<lparr>dx_HealthyAgents := dx_HealthyAgents d + 1\<rparr>)
      | AgentStatusBusy \<Rightarrow> ([], d\<lparr>dx_HealthyAgents := dx_HealthyAgents d + 1\<rparr>)
      | AgentStatusDegraded \<Rightarrow> (''degraded'', d\<lparr>dx_DegradedAgents := dx_DegradedAgents d + 1\<rparr>)
      | AgentStatusMaintenance \<Rightarrow> (''suppressed'', d\<lparr>dx_SuppressedAgents := dx_SuppressedAgents d + 1\<rparr>)
      | AgentStatusOffline \<Rightarrow> (''offline'', d\<lparr>dx_OfflineAgents := dx_OfflineAgents d + 1\<rparr>)
      | _ \<Rightarrow> ([], d))"

definition failingLane :: "AgentRuntimeState \<Rightarrow> bool" where
  "failingLane state \<longleftrightarrow> rs_ErrorRate state \<ge> 3 / 4 \<and> rs_Status state \<noteq> AgentStatusOffline"

text \<open>One iteration of the loop: the lane is counted, and suppressed when it keeps failing.\<close>

definition inspectLane ::
  "time \<Rightarrow> (string \<times> rat) list \<Rightarrow> AgentInfo
   \<Rightarrow> (AdaptiveDiagnostics \<times> rat \<times> AdaptiveAgentSignal list) \<times> RuntimeManager
   \<Rightarrow> (AdaptiveDiagnostics \<times> rat \<times> AdaptiveAgentSignal list) \<times> RuntimeManager" where
  "inspectLane now weights info = (\<lambda>((d, totalErrorRate, states), m).
     let ((state, ok), m) = State now (ai_ID info) m in
     if \<not> ok then ((d, totalErrorRate, states), m)
     else
       let (issue, d) = countLane (rs_Status state) d;
           signal = \<lparr>sg_AgentID = ai_ID info, sg_Status = rs_Status state, sg_ErrorRate = rs_ErrorRate state,
                     sg_RoutingWeight = weightOf (ai_ID info) weights, sg_Issue = issue, sg_Action = []\<rparr>;
           total = totalErrorRate + rs_ErrorRate state in
       if failingLane state then
         let ((_, done), m) = SuppressLane now (ai_ID info) ''adaptive recovery due to sustained degradation'' 300 m in
         if done then
           ((if rs_Status state = AgentStatusMaintenance then d
             else d\<lparr>dx_SuppressedAgents := dx_SuppressedAgents d + 1\<rparr>,
             total, states @ [signal\<lparr>sg_Action := ''suppress_lane'',
                                     sg_Issue := firstNonEmptyString [sg_Issue signal, ''high_error_rate'']\<rparr>]), m)
         else ((d, total, states @ [signal]), m)
       else
         ((d, total, states @ [if rs_ErrorRate state \<ge> 1 / 4 \<and> sg_Issue signal = []
                               then signal\<lparr>sg_Issue := ''elevated_error_rate''\<rparr> else signal]), m))"

text \<open>The stable sort puts higher error rates first and, among equal ones, smaller weights.\<close>

definition topSignals :: "AdaptiveAgentSignal list \<Rightarrow> AdaptiveAgentSignal list" where
  "topSignals states = take 4 (sort_key (\<lambda>s. - sg_ErrorRate s) (sort_key sg_RoutingWeight states))"

definition collectDiagnostics :: "time \<Rightarrow> RuntimeManager option \<Rightarrow> AdaptiveDiagnostics \<times> RuntimeManager option" where
  "collectDiagnostics now rt =
     (case rt of
        None \<Rightarrow> (zero_AdaptiveDiagnostics now, None)
      | Some m \<Rightarrow>
          let (weights, m) = RefreshRoutingWeights now m;
              ((d, total, states), m) = fold (inspectLane now weights) (AgentInfos (rm_registry m))
                ((zero_AdaptiveDiagnostics now, 0, []), m);
              d = (if states \<noteq> [] then d\<lparr>dx_AverageErrorRate := total / of_nat (length states)\<rparr> else d)
          in (d\<lparr>dx_TopSignals := topSignals states\<rparr>, Some m))"

section \<open>The policy\<close>

definition decideMode :: "Task \<Rightarrow> ExecutionPlan \<Rightarrow> AdaptiveDiagnostics \<Rightarrow> AdaptiveExecutionMode \<times> string \<times> int" where
  "decideMode task plan d =
     (let maxParallelism = adaptiveParallelismLimit task plan in
      if dx_DegradedAgents d > 0 \<or> dx_SuppressedAgents d > 0 \<or> dx_AverageErrorRate d \<ge> 3 / 10
      then (AdaptiveExecutionModeRecovery, ''runtime detected degraded or suppressed execution lanes'',
            if maxParallelism > 2 then 2 else maxParallelism)
      else if t_Priority task = PriorityCritical \<or> t_Priority task = PriorityHigh
      then (AdaptiveExecutionModeLatencyGuarded, ''priority-sensitive task prefers safer low-latency routing'',
            if maxParallelism > 3 then 3 else maxParallelism)
      else if planWidth plan \<ge> 3 \<and> dx_HealthyAgents d \<ge> 2
      then (AdaptiveExecutionModeThroughput, ''healthy pool allows wider parallel task fan-out'',
            if maxParallelism < 3 then 3 else maxParallelism)
      else (AdaptiveExecutionModeBalanced, ''default balanced runtime policy'', maxParallelism))"

definition Decide :: "time \<Rightarrow> Task \<Rightarrow> ExecutionPlan \<Rightarrow> RuntimeManager option \<Rightarrow> AdaptiveDecision \<times> RuntimeManager option" where
  "Decide now task plan rt =
     (let (d, rt) = collectDiagnostics now rt;
          (mode, reason, maxParallelism) = decideMode task plan d;
          recovery = (mode = AdaptiveExecutionModeRecovery);
          agents = (if recovery then map sg_AgentID (filter (\<lambda>s. sg_Action s = ''suppress_lane'') (dx_TopSignals d)) else [])
      in (\<lparr>de_Mode = mode, de_Reason = reason, de_MaxParallelism = (if maxParallelism < 1 then 1 else maxParallelism),
           de_PreferredRouteMode = (if recovery then ''orchestrator'' else []), de_SuppressedAgents = agents,
           de_RecoveryActions = map (\<lambda>a. ''suppress '' @ a) agents, de_Diagnostics = d, de_DecidedAt = now\<rparr>, rt))"

definition adaptiveHints :: "AdaptiveDecision \<Rightarrow> go_map \<Rightarrow> go_map" where
  "adaptiveHints decision hints =
     (let d = de_Diagnostics decision;
          hints = map_set ''adaptive_mode'' (AnyString (adaptiveModeText (de_Mode decision))) hints;
          hints = map_set ''adaptive_reason'' (AnyString (de_Reason decision)) hints;
          hints = map_set ''adaptive_max_parallelism'' (AnyInt (de_MaxParallelism decision)) hints;
          hints = map_set ''adaptive_recovery_actions'' (AnyStrings (de_RecoveryActions decision)) hints;
          hints = map_set ''adaptive_suppressed_agents'' (AnyStrings (de_SuppressedAgents decision)) hints;
          hints = map_set ''adaptive_diagnostics'' (AnyMap
            [(''healthy_agents'', AnyInt (dx_HealthyAgents d)), (''degraded_agents'', AnyInt (dx_DegradedAgents d)),
             (''suppressed_agents'', AnyInt (dx_SuppressedAgents d)), (''offline_agents'', AnyInt (dx_OfflineAgents d)),
             (''average_error_rate'', AnyFloat (dx_AverageErrorRate d))]) hints
      in if TrimSpace (de_PreferredRouteMode decision) \<noteq> []
         then map_set ''route_mode'' (AnyString (de_PreferredRouteMode decision)) hints else hints)"

definition Apply :: "time \<Rightarrow> Task \<Rightarrow> ExecutionPlan \<Rightarrow> RuntimeManager option \<Rightarrow> (Task \<times> AdaptiveDecision) \<times> RuntimeManager option" where
  "Apply now task plan rt =
     (let (decision, rt) = Decide now task plan rt
      in ((task\<lparr>t_RoutingHints := adaptiveHints decision (t_RoutingHints task)\<rparr>, decision), rt))"

section \<open>The machine\<close>

record executionProfile =
  xp_LogicalCPUs :: int
  xp_MaxProcs :: int
  xp_ReservedProcs :: int
  xp_UsableParallelism :: int

fun firstIntEnv :: "(string \<Rightarrow> string) \<Rightarrow> string list \<Rightarrow> int option" where
  "firstIntEnv getenv [] = None"
| "firstIntEnv getenv (key # keys) =
     (let value = TrimSpace (getenv key) in
      if value = [] then firstIntEnv getenv keys
      else case Atoi value of None \<Rightarrow> firstIntEnv getenv keys | Some parsed \<Rightarrow> Some parsed)"

text \<open>\<open>numCPU\<close> and \<open>maxProcs\<close> are the numbers the Go runtime reports before the call.\<close>

definition detectExecutionProfile :: "(string \<Rightarrow> string) \<Rightarrow> int \<Rightarrow> int \<Rightarrow> executionProfile" where
  "detectExecutionProfile getenv numCPU maxProcs =
     (let maxProcs = (case firstIntEnv getenv [''AI_BRIDGE_GOMAXPROCS'', ''GO_CORE_GOMAXPROCS''] of
              Some override \<Rightarrow> if override > 0 then override else maxProcs | None \<Rightarrow> maxProcs);
          logicalCPUs = (if numCPU < 1 then 1 else numCPU);
          maxProcs = (if maxProcs < 1 then 1 else maxProcs);
          reserved = (case firstIntEnv getenv [''AI_BRIDGE_CPU_RESERVE'', ''GO_CORE_CPU_RESERVE''] of
              Some reserve \<Rightarrow> reserve | None \<Rightarrow> 1);
          reserved = (if reserved < 0 then 0 else reserved);
          reserved = (if reserved \<ge> maxProcs then (if maxProcs - 1 < 0 then 0 else maxProcs - 1) else reserved);
          usable = (if maxProcs - reserved < 1 then 1 else maxProcs - reserved);
          usable = (case firstIntEnv getenv [''AI_BRIDGE_MAX_PARALLELISM'', ''GO_CORE_MAX_PARALLELISM''] of
              Some cap \<Rightarrow> if cap > 0 \<and> cap < usable then cap else usable | None \<Rightarrow> usable)
      in \<lparr>xp_LogicalCPUs = logicalCPUs, xp_MaxProcs = maxProcs, xp_ReservedProcs = reserved, xp_UsableParallelism = usable\<rparr>)"

definition profileMetadata :: "executionProfile \<Rightarrow> go_map" where
  "profileMetadata p = [(''logical_cpus'', AnyInt (xp_LogicalCPUs p)), (''gomaxprocs'', AnyInt (xp_MaxProcs p)),
     (''reserved_procs'', AnyInt (xp_ReservedProcs p)), (''usable_parallelism'', AnyInt (xp_UsableParallelism p))]"

definition bootstrapSafeModeEnabled :: "(string \<Rightarrow> string) \<Rightarrow> bool" where
  "bootstrapSafeModeEnabled getenv \<longleftrightarrow>
     TrimSpace (ToLower (getenv ''GO_CORE_BOOTSTRAP_SAFE_MODE'')) \<in> {''1'', ''true'', ''yes'', ''on'', ''enabled''}"

section \<open>Widths and limits\<close>

definition stepsAt :: "nat \<Rightarrow> PlanStep list \<Rightarrow> int" where
  "stepsAt n steps = int (length (filter (\<lambda>s. length (ps_Dependencies s) = n) steps))"

lemma stepsAt_simps:
  "stepsAt n [] = 0" "stepsAt n (xs @ [s]) = stepsAt n xs + (if length (ps_Dependencies s) = n then 1 else 0)"
  by (simp_all add: stepsAt_def)

lemma width_fold:
  "\<exists>c w. fold widthOne steps ([], 0) = (c, w) \<and>
    (\<forall>n. (case map_of c (nat_to_string n) of None \<Rightarrow> 0 | Some x \<Rightarrow> x) = stepsAt n steps) \<and>
    (\<forall>n. stepsAt n steps \<le> w) \<and> (\<exists>n. stepsAt n steps = w)"
proof (induction steps rule: rev_induct)
  case Nil
  then show ?case by (simp add: stepsAt_simps)
next
  case (snoc s steps)
  then obtain c w where ih: "fold widthOne steps ([], 0) = (c, w)"
    "\<And>n. (case map_of c (nat_to_string n) of None \<Rightarrow> 0 | Some x \<Rightarrow> x) = stepsAt n steps"
    "\<And>n. stepsAt n steps \<le> w" "\<exists>n. stepsAt n steps = w" by blast
  let ?d = "length (ps_Dependencies s)" let ?n = "stepsAt ?d steps + 1"
  have run: "fold widthOne (steps @ [s]) ([], 0) = (map_set (nat_to_string ?d) ?n c, if ?n > w then ?n else w)"
    using ih(1,2) by (simp add: widthOne_def Let_def)
  have "(case map_of (map_set (nat_to_string ?d) ?n c) (nat_to_string n) of None \<Rightarrow> 0 | Some x \<Rightarrow> x) = stepsAt n (steps @ [s])" for n
    using ih(2) [of n] by (auto simp: stepsAt_simps dest: nat_to_string_inj)
  moreover have "stepsAt n (steps @ [s]) \<le> (if ?n > w then ?n else w)" for n
    using ih(3) [of n] ih(3) [of ?d] by (simp add: stepsAt_simps)
  moreover have "\<exists>n. stepsAt n (steps @ [s]) = (if ?n > w then ?n else w)"
  proof (cases "?n > w")
    case True
    then show ?thesis by (intro exI [of _ ?d]) (simp add: stepsAt_simps)
  next
    case False
    obtain n where n: "stepsAt n steps = w" using ih(4) by blast
    then have "n \<noteq> ?d" using False by auto
    then show ?thesis using n False by (intro exI [of _ n]) (simp add: stepsAt_simps)
  qed
  ultimately show ?case unfolding run by blast
qed

text \<open>The width of a plan is the largest number of steps with equally many dependencies.\<close>

lemma planWidth_largest: "(\<forall>n. stepsAt n (ep_Steps plan) \<le> planWidth plan) \<and> (\<exists>n. stepsAt n (ep_Steps plan) = planWidth plan)"
proof -
  obtain c w where w: "fold widthOne (ep_Steps plan) ([], 0) = (c, w)" "\<And>n. stepsAt n (ep_Steps plan) \<le> w"
    "\<exists>n. stepsAt n (ep_Steps plan) = w" using width_fold by blast
  have "w \<noteq> 0" if "ep_Steps plan = s # ss" for s ss
    using w(2) [of "length (ps_Dependencies s)"] that by (auto simp: stepsAt_def)
  then have "planWidth plan = w" using w(1) by (cases "ep_Steps plan") (auto simp: planWidth_def)
  then show ?thesis using w(2,3) by blast
qed

section \<open>What a decision keeps\<close>

text \<open>A lane that no query admits before a given time.\<close>

definition barred :: "time \<Rightarrow> time \<Rightarrow> AgentRuntimeState \<Rightarrow> bool" where
  "barred now until s \<longleftrightarrow> (\<forall>t. now \<le> t \<and> t < until \<longrightarrow> \<not> admissible t s)"

definition worsens :: "time \<Rightarrow> time \<Rightarrow> RuntimeManager \<Rightarrow> RuntimeManager \<Rightarrow> bool" where
  "worsens now until m n \<longleftrightarrow> tracked n \<and> rg_agents (rm_registry n) = rg_agents (rm_registry m) \<and>
     (\<forall>k s. lane m k = Some s \<longrightarrow> (\<exists>s'. lane n k = Some s' \<and> rs_ErrorRate s' = rs_ErrorRate s \<and>
        (barred now until s \<longrightarrow> barred now until s')))"

lemma worsens_refl: "tracked m \<Longrightarrow> worsens now until m m"
  by (auto simp: worsens_def)

lemma worsens_trans: "worsens now until m n \<Longrightarrow> worsens now until n k \<Longrightarrow> worsens now until m k"
  unfolding worsens_def by metis

lemma worsensD: "worsens now until m n \<Longrightarrow> lane m k = Some s \<Longrightarrow>
    \<exists>s'. lane n k = Some s' \<and> rs_ErrorRate s' = rs_ErrorRate s \<and> (barred now until s \<longrightarrow> barred now until s')"
  unfolding worsens_def by blast

lemma normalizeState_later:
  assumes "now \<le> t"
  shows "rs_Status (normalizeState t (normalizeState now s)) = rs_Status (normalizeState t s)"
    "suppressed t (normalizeState t (normalizeState now s)) = suppressed t (normalizeState t s)"
  using assms by (auto simp: normalizeState_def suppressed_def Let_def split: option.splits)

lemma barred_normalize [simp]: "barred now until (normalizeState now s) = barred now until s"
  by (auto simp: barred_def admissible_def normalizeState_later)

lemma barred_refreshed [simp]: "barred now until (refreshed now s) = barred now until s"
  by (auto simp: barred_def admissible_def refreshed_normal)

lemma refreshed_ErrorRate [simp]: "rs_ErrorRate (refreshed now s) = rs_ErrorRate s"
  by (simp add: refreshed_def Let_def)

lemma worsens_State:
  assumes "tracked m"
  shows "worsens now until m (snd (State now k m))"
proof (cases "lane m k")
  case None
  then show ?thesis using State_unknown [OF assms] assms by (simp add: worsens_refl)
next
  case (Some s)
  then show ?thesis
    using State_lane [OF assms Some, of now] tracked_setState [OF assms] by (auto simp: worsens_def)
qed

lemma worsens_Refresh: "tracked m \<Longrightarrow> worsens now until m (snd (RefreshRoutingWeights now m))"
  using Refresh_effect(1-3) [of m now] by (simp add: worsens_def)

lemma suppressed_state_barred:
  assumes "rs_Status s = AgentStatusMaintenance" "rs_SuppressedUntil s = Some until"
  shows "barred now until s"
  using assms by (auto simp: barred_def admissible_def normalizeState_def suppressed_def Let_def)

lemma worsens_commit:
  assumes "tracked m" "lane m k = Some e" "rs_AgentID s = k" "rs_Provider s = rs_Provider e"
    "rs_Status s \<noteq> AgentStatusEmpty" "rs_UpdatedAt s = now" "rs_ErrorRate s = rs_ErrorRate e"
    "barred now until e \<longrightarrow> barred now until s"
  shows "worsens now until m (commit now s m)"
    and "barred now until s \<Longrightarrow> \<exists>s'. lane (commit now s m) k = Some s' \<and> barred now until s'"
proof -
  have k: "k \<noteq> []" using tracked_lane [OF assms(1,2)] by simp
  have tr: "tracked (setState now s m)" using assms(1) by (rule tracked_setState)
  have ln: "lane (setState now s m) = (lane m)(k \<mapsto> s)"
    using assms(2-6) k by (simp add: lane_setState mergeState_id)
  have "worsens now until m (setState now s m)"
    using tr ln assms(2,7,8) by (auto simp: worsens_def)
  then show w: "worsens now until m (commit now s m)"
    unfolding commit_def by (rule worsens_trans) (rule worsens_Refresh [OF tr])
  show "\<exists>s'. lane (commit now s m) k = Some s' \<and> barred now until s'" if "barred now until s"
    using worsensD [OF worsens_Refresh [OF tr, of now until], of k s] ln that by (auto simp: commit_def)
qed


lemma offline_barred: "rs_Status s = AgentStatusOffline \<Longrightarrow> barred now until s"
  by (simp add: barred_def admissible_def normalizeState_def Let_def)

lemma worsens_Suppress:
  fixes now :: time and reason k :: string
  assumes "tracked m" "lane m k = Some s"
  defines "n \<equiv> snd (SuppressLane now k reason 300 m)"
  shows "worsens now (now + 300 * second) m n" "snd (fst (SuppressLane now k reason 300 m))"
    "\<exists>s'. lane n k = Some s' \<and> barred now (now + 300 * second) s'"
proof -
  let ?n = "normalizeState now s" let ?m = "setState now ?n m"
  define x where "x = ?n\<lparr>rs_Status := AgentStatusMaintenance,
      rs_DisabledReason := firstNonEmptyString [TrimSpace reason, ''suppressed by runtime policy''],
      rs_SuppressedUntil := Some (now + 300 * second), rs_UpdatedAt := now\<rparr>"
  note st = State_lane [OF assms(1,2), of now]
  have n: "n = commit now x ?m" and ok: "snd (fst (SuppressLane now k reason 300 m))"
    by (simp_all add: n_def SuppressLane_def st(1) x_def Let_def)
  have tr: "tracked ?m" using assms(1) by (rule tracked_setState)
  have ln: "lane ?m k = Some ?n" by (simp add: st(2))
  have bar: "barred now (now + 300 * second) x" by (rule suppressed_state_barred) (simp_all add: x_def)
  have "rs_AgentID ?n = k" using tracked_lane [OF tr ln] by simp
  then have x: "rs_AgentID x = k" "rs_Provider x = rs_Provider ?n" "rs_Status x \<noteq> AgentStatusEmpty"
    "rs_UpdatedAt x = now" "rs_ErrorRate x = rs_ErrorRate ?n" by (simp_all add: x_def)
  note c = worsens_commit [OF tr ln x impI [OF bar]]
  have "worsens now (now + 300 * second) m ?m" using worsens_State [OF assms(1), of now _ k] by (simp add: st(1))
  then show "worsens now (now + 300 * second) m n" unfolding n using c(1) by (rule worsens_trans)
  show "\<exists>s'. lane n k = Some s' \<and> barred now (now + 300 * second) s'" unfolding n by (rule c(2) [OF bar])
  show "snd (fst (SuppressLane now k reason 300 m))" by (rule ok)
qed

lemma inspectLane_worsens:
  fixes now :: time and weights :: "(string \<times> rat) list" and info :: AgentInfo
    and q :: "AdaptiveDiagnostics \<times> rat \<times> AdaptiveAgentSignal list"
  assumes "tracked m"
  defines "n \<equiv> snd (inspectLane now weights info (q, m))"
  shows "worsens now (now + 300 * second) m n"
    "lane m (ai_ID info) = Some s \<Longrightarrow> rs_ErrorRate s \<ge> 3 / 4 \<Longrightarrow>
       \<exists>s'. lane n (ai_ID info) = Some s' \<and> barred now (now + 300 * second) s'"
proof -
  let ?k = "ai_ID info" let ?until = "now + 300 * second"
  obtain d total states where q: "q = (d, total, states)" by (cases q)
  have both: "worsens now ?until m n \<and> (\<forall>s. lane m ?k = Some s \<and> rs_ErrorRate s \<ge> 3 / 4 \<longrightarrow>
      (\<exists>s'. lane n ?k = Some s' \<and> barred now ?until s'))"
  proof (cases "lane m ?k")
    case None
    then show ?thesis
      using State_unknown [OF assms(1)] worsens_refl [OF assms(1)] by (simp add: n_def inspectLane_def q)
  next
    case (Some s)
    let ?n = "normalizeState now s" let ?m = "setState now ?n m"
    note st = State_lane [OF assms(1) Some, of now]
    have tr: "tracked ?m" using assms(1) by (rule tracked_setState)
    have ln: "lane ?m ?k = Some ?n" by (simp add: st(2))
    have wm: "worsens now ?until m ?m" using worsens_State [OF assms(1), of now _ ?k] by (simp add: st(1))
    show ?thesis
    proof (cases "failingLane ?n")
      case True
      let ?r = "''adaptive recovery due to sustained degradation''"
      note sup = worsens_Suppress [OF tr ln, of now ?r]
      have "n = snd (SuppressLane now ?k ?r 300 ?m)"
        using True sup(2) by (simp add: n_def inspectLane_def q st(1) Let_def split_def)
      then show ?thesis using worsens_trans [OF wm sup(1)] sup(3) by simp
    next
      case False
      then have n: "n = ?m" by (simp add: n_def inspectLane_def q st(1) Let_def split_def)
      have "barred now ?until ?n" if "rs_ErrorRate s \<ge> 3 / 4"
        using False that by (intro offline_barred) (simp add: failingLane_def)
      then show ?thesis using n wm ln Some by auto
    qed
  qed
  then show "worsens now ?until m n" by blast
  show "\<exists>s'. lane n ?k = Some s' \<and> barred now ?until s'" if "lane m ?k = Some s" "rs_ErrorRate s \<ge> 3 / 4"
    using both that by blast
qed

lemma inspect_fold_worsens:
  assumes "tracked m"
  shows "worsens now (now + 300 * second) m (snd (fold (inspectLane now weights) infos (q, m))) \<and>
    (\<forall>i \<in> set infos. \<forall>s. lane m (ai_ID i) = Some s \<and> rs_ErrorRate s \<ge> 3 / 4 \<longrightarrow>
      (\<exists>s'. lane (snd (fold (inspectLane now weights) infos (q, m))) (ai_ID i) = Some s' \<and>
            barred now (now + 300 * second) s'))"
  using assms
proof (induction infos arbitrary: q m)
  case Nil
  then show ?case by (simp add: worsens_refl)
next
  case (Cons i infos)
  let ?until = "now + 300 * second"
  obtain q1 m1 where one: "inspectLane now weights i (q, m) = (q1, m1)" by (metis surj_pair)
  note w = inspectLane_worsens [OF Cons.prems, where now = now and weights = weights and info = i and q = q, unfolded one snd_conv]
  have tr1: "tracked m1" using w(1) by (simp add: worsens_def)
  let ?n = "snd (fold (inspectLane now weights) infos (q1, m1))"
  have ih: "worsens now ?until m1 ?n" "\<And>j s. j \<in> set infos \<Longrightarrow> lane m1 (ai_ID j) = Some s \<Longrightarrow> rs_ErrorRate s \<ge> 3 / 4 \<Longrightarrow>
      \<exists>s'. lane ?n (ai_ID j) = Some s' \<and> barred now ?until s'"
    using Cons.IH [OF tr1, of q1] by blast+
  have "\<exists>s'. lane ?n (ai_ID j) = Some s' \<and> barred now ?until s'"
    if j: "j \<in> set (i # infos)" "lane m (ai_ID j) = Some s" "rs_ErrorRate s \<ge> 3 / 4" for j s
  proof (cases "j = i")
    case True
    then obtain s1 where "lane m1 (ai_ID i) = Some s1" "barred now ?until s1" using w(2) j(2,3) by blast
    then show ?thesis using worsensD [OF ih(1)] True by blast
  next
    case False
    then show ?thesis using j ih(2) worsensD [OF w(1) j(2)] by fastforce
  qed
  then show ?case using worsens_trans [OF w(1) ih(1)] by (simp add: one)
qed

lemma Decide_worsens:
  assumes "tracked m" "Decide now task plan (Some m) = (decision, rt)"
  shows "\<exists>n. rt = Some n \<and> worsens now (now + 300 * second) m n \<and>
    (\<forall>k \<in> fst ` set (rg_agents (rm_registry m)). \<forall>s. lane m k = Some s \<and> rs_ErrorRate s \<ge> 3 / 4 \<longrightarrow>
      (\<exists>s'. lane n k = Some s' \<and> barred now (now + 300 * second) s'))"
proof -
  let ?until = "now + 300 * second"
  obtain weights m1 where ref: "RefreshRoutingWeights now m = (weights, m1)" by force
  have w1: "worsens now ?until m m1" using worsens_Refresh [OF assms(1), of now] by (simp add: ref)
  then have tr1: "tracked m1" and ag: "rg_agents (rm_registry m1) = rg_agents (rm_registry m)" by (simp_all add: worsens_def)
  let ?q = "(zero_AdaptiveDiagnostics now, 0, [])"
  define n where "n = snd (fold (inspectLane now weights) (AgentInfos (rm_registry m1)) (?q, m1))"
  have ids: "ai_ID ` set (AgentInfos (rm_registry m1)) = fst ` set (rg_agents (rm_registry m))"
    using AgentInfos_ids(2) tr1 ag by (simp add: tracked_def)
  have f: "worsens now ?until m1 n" "\<And>i s. i \<in> set (AgentInfos (rm_registry m1)) \<Longrightarrow> lane m1 (ai_ID i) = Some s \<Longrightarrow>
      rs_ErrorRate s \<ge> 3 / 4 \<Longrightarrow> \<exists>s'. lane n (ai_ID i) = Some s' \<and> barred now ?until s'"
    using inspect_fold_worsens [OF tr1] unfolding n_def by blast+
  have "\<exists>s'. lane n k = Some s' \<and> barred now ?until s'"
    if k: "k \<in> fst ` set (rg_agents (rm_registry m))" "lane m k = Some s" "rs_ErrorRate s \<ge> 3 / 4" for k s
  proof -
    obtain i where i: "i \<in> set (AgentInfos (rm_registry m1))" "k = ai_ID i" using k(1) ids by blast
    obtain s1 where "lane m1 k = Some s1" "rs_ErrorRate s1 = rs_ErrorRate s" using worsensD [OF w1 k(2)] by blast
    then show ?thesis using f(2) [OF i(1)] i(2) k(3) by simp
  qed
  moreover have "rt = Some n"
    using assms(2) by (simp add: Decide_def collectDiagnostics_def ref n_def Let_def split_def)
  ultimately show ?thesis using worsens_trans [OF w1 f(1)] by blast
qed


section \<open>Properties\<close>

text \<open>C19. The parallelism a decision allows is always between 1 and 4, at most 2 while lanes are failing, and
  the hints of the adapted task carry exactly the decision.\<close>

theorem adaptive_parallelism_bounded:
  "case Apply now task plan rt of ((task', decision), rt') \<Rightarrow>
     1 \<le> de_MaxParallelism decision \<and>
     (if de_Mode decision = AdaptiveExecutionModeRecovery
      then de_MaxParallelism decision \<le> 2 \<and>
        map_of (t_RoutingHints task') ''route_mode'' = Some (AnyString ''orchestrator'')
      else de_MaxParallelism decision \<le> 4) \<and>
     map_of (t_RoutingHints task') ''adaptive_max_parallelism'' = Some (AnyInt (de_MaxParallelism decision))"
proof -
  obtain d rt' where d: "collectDiagnostics now rt = (d, rt')" by force
  obtain mode reason p where m: "decideMode task plan d = (mode, reason, p)" by (metis surj_pair)
  have lim: "adaptiveParallelismLimit task plan \<le> 4"
    by (simp add: adaptiveParallelismLimit_def Let_def split: Complexity.split)
  then have "p \<le> 4" "mode = AdaptiveExecutionModeRecovery \<longrightarrow> p \<le> 2"
    using m by (auto simp: decideMode_def Let_def split: if_splits)
  moreover have "TrimSpace ''orchestrator'' \<noteq> []" by code_simp
  ultimately show ?thesis
    by (simp add: Apply_def Decide_def adaptiveHints_def d m Let_def)
qed

text \<open>What may happen to the lanes while none of them gets a task.\<close>

inductive idle_step :: "RuntimeManager \<Rightarrow> RuntimeManager \<Rightarrow> bool" where
  idle_decide: "Decide now task plan (Some m) = (decision, Some n) \<Longrightarrow> idle_step m n"
| idle_recover: "idle_step m (snd (RecoverLane now k m))"
| idle_suppress: "idle_step m (snd (SuppressLane now k reason secs m))"
| idle_refresh: "idle_step m (snd (RefreshRoutingWeights now m))"
| idle_look: "idle_step m (snd (State now k m))"

definition rates_kept :: "RuntimeManager \<Rightarrow> RuntimeManager \<Rightarrow> bool" where
  "rates_kept m n \<longleftrightarrow> tracked n \<and> rg_agents (rm_registry n) = rg_agents (rm_registry m) \<and>
     (\<forall>k s. lane m k = Some s \<longrightarrow> (\<exists>s'. lane n k = Some s' \<and> rs_ErrorRate s' = rs_ErrorRate s))"

lemma rates_kept_trans: "rates_kept m n \<Longrightarrow> rates_kept n k \<Longrightarrow> rates_kept m k"
  unfolding rates_kept_def by metis

lemma rates_kept_worsens: "worsens now until m n \<Longrightarrow> rates_kept m n"
  unfolding worsens_def rates_kept_def by blast

lemma rates_kept_commit:
  assumes "tracked m" "lane m k = Some e" "rs_AgentID s = k" "rs_ErrorRate s = rs_ErrorRate e"
  shows "rates_kept m (commit now s m)"
proof -
  have tr: "tracked (setState now s m)" using assms(1) by (rule tracked_setState)
  have "rs_ErrorRate (mergeState now s x) = rs_ErrorRate s" for x
    by (simp add: mergeState_def Let_def split: option.split)
  then have "rates_kept m (setState now s m)"
    using tr assms by (auto simp: rates_kept_def lane_setState)
  then show ?thesis
    unfolding commit_def using rates_kept_trans rates_kept_worsens [OF worsens_Refresh [OF tr]] by blast
qed

lemma rates_kept_after_State:
  assumes "tracked m"
    and "State now k m = ((zero_AgentRuntimeState, False), m) \<Longrightarrow> n = m"
    and "\<And>s m1. State now k m = ((s, True), m1) \<Longrightarrow>
      \<exists>x. n = commit now x m1 \<and> rs_AgentID x = rs_AgentID s \<and> rs_ErrorRate x = rs_ErrorRate s"
  shows "rates_kept m n"
proof (cases "lane m k")
  case None
  then show ?thesis
    using State_unknown [OF assms(1)] assms(2) rates_kept_worsens [OF worsens_refl [OF assms(1)]] by simp
next
  case (Some s)
  note st = State_lane [OF assms(1) Some, of now]
  let ?m = "setState now (normalizeState now s) m"
  have tr: "tracked ?m" using assms(1) by (rule tracked_setState)
  have ln: "lane ?m k = Some (normalizeState now s)" by (simp add: st(2))
  obtain x where x: "n = commit now x ?m" "rs_AgentID x = rs_AgentID (normalizeState now s)"
      "rs_ErrorRate x = rs_ErrorRate (normalizeState now s)" using assms(3) [OF st(1)] by blast
  have "rs_AgentID x = k" using tracked_lane [OF tr ln] x(2) by simp
  then have "rates_kept ?m n" unfolding x(1) using x(3) by (rule rates_kept_commit [OF tr ln])
  moreover have "rates_kept m ?m"
    using rates_kept_worsens [OF worsens_State [OF assms(1), of now _ k]] by (simp add: st(1))
  ultimately show ?thesis using rates_kept_trans by blast
qed

lemma idle_step_rates:
  assumes "idle_step m n" "tracked m"
  shows "rates_kept m n"
  using assms
proof (induction rule: idle_step.induct)
  case (idle_decide now task plan m decision n)
  then show ?case using Decide_worsens rates_kept_worsens by blast
next
  case (idle_refresh m now)
  then show ?case using worsens_Refresh rates_kept_worsens by blast
next
  case (idle_look m now k)
  then show ?case using worsens_State rates_kept_worsens by blast
next
  case (idle_recover m now k)
  show ?case
  proof (rule rates_kept_after_State [OF idle_recover, of now k])
    fix s m1
    assume st: "State now k m = ((s, True), m1)"
    show "\<exists>x. snd (RecoverLane now k m) = commit now x m1 \<and> rs_AgentID x = rs_AgentID s \<and> rs_ErrorRate x = rs_ErrorRate s"
      unfolding RecoverLane_def st Let_def prod.case
      by (simp only: snd_conv not_True_eq_False if_False, intro exI conjI, rule refl) (simp_all split: option.split)
  qed (simp add: RecoverLane_def)
next
  case (idle_suppress m now k reason secs)
  show ?case
    by (rule rates_kept_after_State [OF idle_suppress, of now k]) (auto simp: SuppressLane_def Let_def)
qed

lemma idle_run_rates: "idle_step\<^sup>*\<^sup>* m n \<Longrightarrow> tracked m \<Longrightarrow> rates_kept m n"
proof (induction rule: rtranclp_induct)
  case base
  then show ?case using rates_kept_worsens worsens_refl by blast
next
  case (step n k)
  then show ?case using rates_kept_trans idle_step_rates by (metis rates_kept_def)
qed


text \<open>The parallelism of the machine profile is at least 1 and never more than the processors left after
  the reserve.\<close>

theorem profile_leaves_a_processor:
  "let p = detectExecutionProfile getenv numCPU maxProcs in
     1 \<le> xp_UsableParallelism p \<and> xp_UsableParallelism p + xp_ReservedProcs p \<le> xp_MaxProcs p \<and>
     0 \<le> xp_ReservedProcs p \<and> 1 \<le> xp_LogicalCPUs p"
proof -
  define mp where "mp = (let x = (case firstIntEnv getenv [''AI_BRIDGE_GOMAXPROCS'', ''GO_CORE_GOMAXPROCS''] of
      Some override \<Rightarrow> if override > 0 then override else maxProcs | None \<Rightarrow> maxProcs) in if x < 1 then 1 else x)"
  define r0 where "r0 = (let x = (case firstIntEnv getenv [''AI_BRIDGE_CPU_RESERVE'', ''GO_CORE_CPU_RESERVE''] of
      Some reserve \<Rightarrow> reserve | None \<Rightarrow> 1) in if x < 0 then 0 else x)"
  define r where "r = (if r0 \<ge> mp then (if mp - 1 < 0 then 0 else mp - 1) else r0)"
  define u0 where "u0 = (if mp - r < 1 then 1 else mp - r)"
  define u where "u = (case firstIntEnv getenv [''AI_BRIDGE_MAX_PARALLELISM'', ''GO_CORE_MAX_PARALLELISM''] of
      Some cap \<Rightarrow> if cap > 0 \<and> cap < u0 then cap else u0 | None \<Rightarrow> u0)"
  have mp: "1 \<le> mp" by (simp add: mp_def Let_def)
  have r0: "0 \<le> r0" by (simp add: r0_def Let_def)
  have r: "0 \<le> r" "r \<le> mp - 1" using mp r0 by (simp_all add: r_def)
  have u: "1 \<le> u" "u \<le> mp - r" using r by (simp_all add: u_def u0_def split: option.split)
  have "detectExecutionProfile getenv numCPU maxProcs = \<lparr>xp_LogicalCPUs = (if numCPU < 1 then 1 else numCPU),
      xp_MaxProcs = mp, xp_ReservedProcs = r, xp_UsableParallelism = u\<rparr>"
    unfolding detectExecutionProfile_def u_def u0_def r_def r0_def mp_def Let_def by (rule refl)
  then show ?thesis using u r by (simp add: Let_def)
qed


section \<open>Witness\<close>

definition failing_manager :: RuntimeManager where
  "failing_manager = snd (RecordRuntimeFailure 4 ''a1'' ''boom''
     (snd (RecordRuntimeFailure 3 ''a1'' ''boom'' (snd (RecordRuntimeFailure 2 ''a1'' ''boom'' router_manager)))))"

lemma failing_manager_reachable: "manager_reachable failing_manager"
  unfolding failing_manager_def by (intro mgr_next [OF _ mgr_failure] router_manager_reachable)

lemma failing_manager_facts:
  "map_option rs_ErrorRate (RuntimeState ''a1'' (rm_registry failing_manager)) = Some (3 / 4)"
  "''a1'' \<in> fst ` set (rg_agents (rm_registry failing_manager))"
  by code_simp+


end
