(* ===== verification/PeerExecution.thy ===== *)
theory PeerExecution
  imports AdaptiveRuntime Supervisor
begin

text \<open>
  The execution of a routed task on agents, \<open>executeTaskP2P\<close> of
  \<open>go-core/internal/kernel/orchestrator.go\<close>: the task is delivered to the agent and run there; when
  the delivery or the run fails, another agent is routed, until a run succeeds, no agent is left or
  every agent had its turn. The state of the orchestrator is its router with the runtime manager, the
  delivery supervisor, the runtime events it published (topic, kind and entity of each) and the
  memory, an opaque value: the operations of package \<open>memory\<close>, the session states, the run of an agent
  and the wait for execution slots are functions of the environment that may change it.
\<close>

section \<open>Environment and state\<close>

record ('b, 'm) kernel_env =
  ke_delivery :: "'b delivery_env"
  ke_canAccept :: "string \<Rightarrow> Task \<Rightarrow> bool"
  ke_parseFloat :: "string \<Rightarrow> rat option"
  ke_LoadMemoryContext :: "Task \<Rightarrow> string \<Rightarrow> string \<Rightarrow> string \<Rightarrow> 'm \<Rightarrow> go_map \<times> 'm"
  ke_GetSessionState :: "string \<Rightarrow> string \<Rightarrow> 'm \<Rightarrow> (go_map \<times> string \<times> string) option"
  ke_SaveSessionState :: "string \<Rightarrow> string \<Rightarrow> go_map \<Rightarrow> string \<Rightarrow> string \<Rightarrow> 'm \<Rightarrow> 'm"
  ke_RecordModelUsage :: "Task \<Rightarrow> string \<Rightarrow> AgentResult \<Rightarrow> 'm \<Rightarrow> 'm"
  ke_RecordHardStop :: "Task \<Rightarrow> string \<Rightarrow> string \<Rightarrow> 'm \<Rightarrow> 'm"
  ke_RecordPeerExchange :: "TaskEnvelope \<Rightarrow> TaskAcceptance \<Rightarrow> AgentResult \<Rightarrow> string \<Rightarrow> 'm \<Rightarrow> 'm"
  ke_persistExecutionState :: "Task \<Rightarrow> TaskAcceptance \<Rightarrow> AgentInfo \<Rightarrow> AgentResult \<Rightarrow> duration \<Rightarrow> 'm \<Rightarrow> 'm"
  ke_acquireExecutionSlots :: "AgentInfo \<Rightarrow> string \<Rightarrow> 'm \<Rightarrow> string + CapacitySnapshot \<times> CapacitySnapshot"
  ke_executeAgent :: "Task \<Rightarrow> TaskAcceptance \<Rightarrow> Agent \<Rightarrow> 'm \<Rightarrow> (Task \<times> AgentResult \<times> duration) \<times> 'm"

record ('b, 'm) Orchestrator =
  or_router :: Router
  or_delivery :: "'b Supervisor"
  or_memory :: 'm
  or_events :: "(string \<times> string \<times> string) list"

definition publishRuntimeEvent :: "string \<Rightarrow> string \<Rightarrow> string \<Rightarrow> ('b, 'm) Orchestrator \<Rightarrow> ('b, 'm) Orchestrator" where
  "publishRuntimeEvent topic kind entityID o' = o'\<lparr>or_events := or_events o' @ [(topic, kind, entityID)]\<rparr>"

definition onMemory :: "('m \<Rightarrow> 'm) \<Rightarrow> ('b, 'm) Orchestrator \<Rightarrow> ('b, 'm) Orchestrator" where
  "onMemory f o' = o'\<lparr>or_memory := f (or_memory o')\<rparr>"

definition onRuntime :: "(RuntimeManager \<Rightarrow> RuntimeManager) \<Rightarrow> ('b, 'm) Orchestrator \<Rightarrow> ('b, 'm) Orchestrator" where
  "onRuntime f o' = o'\<lparr>or_router := (or_router o')\<lparr>ro_runtime := map_option f (ro_runtime (or_router o'))\<rparr>\<rparr>"

definition onDelivery :: "('b Supervisor \<Rightarrow> 'a \<times> 'b Supervisor) \<Rightarrow> ('b, 'm) Orchestrator \<Rightarrow> 'a \<times> ('b, 'm) Orchestrator" where
  "onDelivery f o' = (let (x, d) = f (or_delivery o') in (x, o'\<lparr>or_delivery := d\<rparr>))"

definition agentCount :: "('b, 'm) Orchestrator \<Rightarrow> int" where
  "agentCount o' = int (length (Agents (routerRegistry (or_router o'))))"

section \<open>Hints and results\<close>

definition cloneMap :: "go_map \<Rightarrow> go_map" where "cloneMap input = input"

definition defaultBranch :: "string \<Rightarrow> string" where
  "defaultBranch branch = (if branch = [] then ''default'' else branch)"

definition rebindTaskAssignment :: "Task \<Rightarrow> TaskAcceptance \<Rightarrow> Task" where
  "rebindTaskAssignment task acceptance =
     task\<lparr>t_AssignedProvider := ta_Provider acceptance, t_AssignedModel := ta_ModelName acceptance,
          t_RoutingHints := map_set ''selected_model'' (AnyString (ta_ModelName acceptance))
            (map_set ''selected_provider'' (AnyString (ta_Provider acceptance)) (cloneMap (t_RoutingHints task)))\<rparr>"

text \<open>The set of excluded agents is a list without repetitions; the order of the slice made from it is
  the order of a Go map.\<close>

definition annotatePeerAttempt :: "Task \<Rightarrow> TaskAcceptance \<Rightarrow> int \<Rightarrow> string list \<Rightarrow> Task" where
  "annotatePeerAttempt task acceptance attempt excluded =
     (let hints = cloneMap (t_RoutingHints task);
          hints = map_set ''peer_to_peer'' (AnyBool True) hints;
          hints = map_set ''p2p_attempt'' (AnyInt attempt) hints;
          hints = map_set ''p2p_agent_id'' (AnyString (ta_AgentID acceptance)) hints;
          hints = map_set ''p2p_provider'' (AnyString (ta_Provider acceptance)) hints;
          hints = map_set ''p2p_model_name'' (AnyString (ta_ModelName acceptance)) hints;
          hints = (if excluded \<noteq> [] then map_set ''p2p_excluded_agents'' (AnyStrings excluded) hints else hints)
      in task\<lparr>t_RoutingHints := hints\<rparr>)"

definition failureEntry :: "AgentInfo \<Rightarrow> AgentResult \<Rightarrow> int \<Rightarrow> duration \<Rightarrow> go_map" where
  "failureEntry agent result attempt latency =
     [(''attempt'', AnyInt attempt), (''agent_id'', AnyString (ai_ID agent)),
      (''provider'', AnyString (ai_Provider agent)), (''model_name'', AnyString (ai_ModelName agent)),
      (''status'', AnyString (taskStatusText (ar_Status result))),
      (''summary'', AnyString (ro_Summary (ar_Output result))), (''errors'', AnyStrings (ar_Errors result)),
      (''latency_ms'', AnyInt (latency div millisecond)), (''completed_at'', AnyInt (ar_CompletedAt result))]"

definition withFailureContext :: "Task \<Rightarrow> AgentInfo \<Rightarrow> AgentResult \<Rightarrow> int \<Rightarrow> duration \<Rightarrow> Task" where
  "withFailureContext task agent result attempt latency =
     (let hints = cloneMap (t_RoutingHints task);
          rawFailures = (case map_of hints ''peer_failures'' of Some (AnyStructs failures) \<Rightarrow> failures | _ \<Rightarrow> [])
      in task\<lparr>t_RoutingHints := map_set ''peer_failures''
           (AnyStructs (rawFailures @ [failureEntry agent result attempt latency])) hints\<rparr>)"

definition failedAttemptResult :: "time \<Rightarrow> Task \<Rightarrow> TaskAcceptance \<Rightarrow> AgentInfo \<Rightarrow> string \<Rightarrow> AgentResult" where
  "failedAttemptResult now task acceptance agent reason =
     \<lparr>ar_TaskID = t_ID task, ar_AgentID = ai_ID agent, ar_Status = TaskStatusFailed, ar_Confidence = 0,
      ar_Errors = [reason], ar_NextRecommendations = [], ar_Provider = ta_Provider acceptance,
      ar_ModelName = ta_ModelName acceptance,
      ar_Output = \<lparr>ro_Summary = reason, ro_FilesChanged = [], ro_CommandsRun = [], ro_TestResults = [], ro_Artifacts = []\<rparr>,
      ar_CompletedAt = now\<rparr>"

text \<open>A task stored in a value of type \<open>any\<close>.\<close>

definition taskStruct :: "Task \<Rightarrow> any" where
  "taskStruct task = AnyStruct
     [(''ID'', AnyString (t_ID task)), (''SessionID'', AnyString (t_SessionID task)),
      (''ParentTaskID'', AnyString (t_ParentTaskID task)), (''Type'', AnyString (taskTypeText (t_Type task))),
      (''Priority'', AnyString (priorityText (t_Priority task))),
      (''RequiredCapability'', AnyString (t_RequiredCapability task)),
      (''AssignedProvider'', AnyString (t_AssignedProvider task)), (''AssignedModel'', AnyString (t_AssignedModel task)),
      (''Complexity'', AnyString (complexityText (t_Complexity task))), (''MemoryScope'', AnyString (t_MemoryScope task)),
      (''MemoryKeys'', AnyStrings (t_MemoryKeys task)), (''CachePolicy'', AnyString (t_CachePolicy task)),
      (''Input'', AnyStruct [(''Description'', AnyString (ti_Description (t_Input task))),
         (''Files'', AnyStrings (ti_Files (t_Input task))), (''Constraints'', AnyStrings (ti_Constraints (t_Input task))),
         (''AcceptanceCriteria'', AnyStrings (ti_AcceptanceCriteria (t_Input task)))]),
      (''Context'', AnyStruct [(''Project'', AnyString (tc_Project (t_Context task))),
         (''RepoPath'', AnyString (tc_RepoPath (t_Context task))), (''Branch'', AnyString (tc_Branch (t_Context task)))]),
      (''Dependencies'', AnyStrings (t_Dependencies task)), (''BranchID'', AnyString (t_BranchID task)),
      (''DraftLayer'', AnyString (t_DraftLayer task)), (''CheckpointPolicy'', AnyString (t_CheckpointPolicy task)),
      (''ReviewDepth'', AnyInt (t_ReviewDepth task)), (''ResumeToken'', AnyString (t_ResumeToken task)),
      (''EstimatedCost'', AnyFloat (t_EstimatedCost task)), (''ExecutionContract'', AnyMap (t_ExecutionContract task)),
      (''RepoFingerprint'', AnyString (t_RepoFingerprint task)), (''RoutingHints'', AnyMap (t_RoutingHints task)),
      (''CreatedAt'', AnyInt (t_CreatedAt task))]"

definition buildPeerEnvelope ::
    "time \<Rightarrow> Task \<Rightarrow> TaskAcceptance \<Rightarrow> ExecutionPlan \<Rightarrow> AgentInfo \<Rightarrow> int \<Rightarrow> ('b, 'm) Orchestrator \<Rightarrow> TaskEnvelope" where
  "buildPeerEnvelope now task acceptance plan agent attempt o' =
     zero_TaskEnvelope\<lparr>te_ProtocolVersion := ''go-core/p2p.v1'', te_TaskID := t_ID task,
       te_ParentTaskID := t_ParentTaskID task,
       te_TraceID := firstNonEmptyString [kernelString (map_of (t_RoutingHints task) ''trace_id''), t_ID task],
       te_CorrelationID := firstNonEmptyString [t_SessionID task, t_ID task],
       te_SourceAgent := ''orchestrator'', te_TargetAgent := ai_ID agent,
       te_TargetCapability := firstNonEmptyString [ta_Capability acceptance, ep_PrimaryCapability plan,
         t_RequiredCapability task, taskTypeText (t_Type task)],
       te_Priority := priorityText (t_Priority task), te_ContextScope := defaultBranch (tc_Branch (t_Context task)),
       te_MaxHops := max 1 (agentCount o'), te_RetryCount := max 0 (attempt - 1),
       te_MaxRetries := max 0 (agentCount o' - 1),
       te_Payload := \<lparr>tp_Objective = ti_Description (t_Input task),
         tp_InputData = [(''task'', taskStruct task), (''routing_hints'', AnyMap (cloneMap (t_RoutingHints task)))],
         tp_Context = [(''project'', AnyString (tc_Project (t_Context task))),
           (''repo_path'', AnyString (tc_RepoPath (t_Context task))), (''branch'', AnyString (tc_Branch (t_Context task)))],
         tp_AcceptanceCriteria = ti_AcceptanceCriteria (t_Input task),
         tp_ExpectedOutputFormat = ''domain.AgentResult'', tp_Artifacts = ti_Files (t_Input task)\<rparr>,
       te_CreatedAt := now\<rparr>"

section \<open>Session state and memory context\<close>

definition persistSessionState ::
    "('b, 'm) kernel_env \<Rightarrow> time \<Rightarrow> Task \<Rightarrow> TaskAcceptance \<Rightarrow> AgentInfo \<Rightarrow> go_map \<Rightarrow> 'm \<Rightarrow> 'm" where
  "persistSessionState X now task acceptance agent extra m =
     (let sessionID = t_SessionID task; branch = defaultBranch (tc_Branch (t_Context task));
          (stateValue, promptVersion, contextVersion) =
            (case ke_GetSessionState X sessionID branch m of
               None \<Rightarrow> ([], ''go-core'', ''go-core'')
             | Some (existing, prompt, ctx) \<Rightarrow>
                 (cloneMap existing, if TrimSpace prompt \<noteq> [] then prompt else ''go-core'',
                  if TrimSpace ctx \<noteq> [] then ctx else ''go-core''));
          own = [(''session_id'', AnyString sessionID), (''task_id'', AnyString (t_ID task)),
            (''task_type'', AnyString (taskTypeText (t_Type task))), (''project'', AnyString (tc_Project (t_Context task))),
            (''repo_path'', AnyString (tc_RepoPath (t_Context task))), (''branch'', AnyString branch),
            (''agent_id'', AnyString (ai_ID agent)), (''provider'', AnyString (ta_Provider acceptance)),
            (''model_name'', AnyString (ta_ModelName acceptance)),
            (''required_capability'', AnyString (t_RequiredCapability task)),
            (''memory_scope'', AnyString (t_MemoryScope task)), (''memory_keys'', AnyStrings (t_MemoryKeys task)),
            (''cache_policy'', AnyString (t_CachePolicy task)), (''updated_by'', AnyString ''go-core''),
            (''updated_at'', AnyInt now)];
          stateValue = fold (\<lambda>(k, v). map_set k v) (own @ extra) stateValue
      in ke_SaveSessionState X sessionID branch stateValue promptVersion contextVersion m)"

text \<open>The memory context is one map: \<open>attachRuntimeContext\<close> stores it in the hints and then replaces its
  validation context, which the hints see too.\<close>

definition attachRuntimeContext ::
    "('b, 'm) kernel_env \<Rightarrow> time \<Rightarrow> Task \<Rightarrow> TaskAcceptance \<Rightarrow> AgentInfo \<Rightarrow> ('b, 'm) Orchestrator
     \<Rightarrow> Task \<times> ('b, 'm) Orchestrator" where
  "attachRuntimeContext X now task acceptance agent o' =
     (let (runtimeContext, m) = ke_LoadMemoryContext X task (ai_ID agent) (ta_Provider acceptance) (ta_ModelName acceptance) (or_memory o');
          hints = cloneMap (t_RoutingHints task);
          copyHint = (\<lambda>k v. case map_of hints k of None \<Rightarrow> v | Some b \<Rightarrow> map_set k b v);
          validation = (case map_of runtimeContext ''validation_context'' of
             Some (AnyMap v) \<Rightarrow> Some (AnyMap (copyHint ''token_pressure'' (copyHint ''model_budget'' (cloneMap v)))) | x \<Rightarrow> x);
          runtimeContext = (case validation of None \<Rightarrow> runtimeContext | Some v \<Rightarrow> map_set ''validation_context'' v runtimeContext);
          fromContext = (\<lambda>k h hs. case map_of runtimeContext k of None \<Rightarrow> hs | Some v \<Rightarrow> map_set h v hs);
          hints = map_set ''memory_context'' (AnyMap runtimeContext) hints;
          hints = fromContext ''reasoning_memory_brief'' ''reasoning_context'' hints;
          hints = fromContext ''reasoning_trace_hits'' ''reasoning_trace_hits'' hints;
          hints = fromContext ''validation_context'' ''validation_context'' hints;
          hints = map_set ''session_id'' (AnyString (t_SessionID task)) hints;
          hints = map_set ''cache_policy'' (AnyString (t_CachePolicy task)) hints;
          hints = map_set ''memory_scope'' (AnyString (t_MemoryScope task)) hints;
          task = task\<lparr>t_RoutingHints := hints\<rparr>
      in (task, o'\<lparr>or_memory := persistSessionState X now task acceptance agent [] m\<rparr>))"

section \<open>Delivery and execution\<close>

definition AckDelivery ::
    "('b, 'm) kernel_env \<Rightarrow> time \<Rightarrow> string \<Rightarrow> AckStatus \<Rightarrow> string \<Rightarrow> string \<Rightarrow> ('b, 'm) Orchestrator
     \<Rightarrow> MessageAck \<times> ('b, 'm) Orchestrator" where
  "AckDelivery X now taskID status receivedBy reason =
     onDelivery (SupervisorAck (ke_delivery X) now taskID status receivedBy reason)"

definition preparePeerDelivery ::
    "('b, 'm) kernel_env \<Rightarrow> time \<Rightarrow> TaskEnvelope \<Rightarrow> string \<Rightarrow> ('b, 'm) Orchestrator
     \<Rightarrow> (string + DeliverySnapshot option) \<times> ('b, 'm) Orchestrator" where
  "preparePeerDelivery X now envelope agentID o' =
     (let E = ke_delivery X; taskID = te_TaskID envelope;
          (deliveryState, o') = onDelivery (Dispatch E now envelope) o';
          (payloads, o') = onDelivery (FetchAgentMailbox E now agentID 1) o' in
      case payloads of
        [] \<Rightarrow>
          let (ack, o') = AckDelivery X now taskID AckStatusFailed agentID ''empty_mailbox'' o'
          in (Inl (firstNonEmptyString [ma_Reason ack, ''delivery mailbox was empty'']), o')
      | payload # _ \<Rightarrow>
          let (confirmed, o') = onDelivery (ConfirmPayload E now taskID agentID payload) o' in
          if \<not> confirmed then
            let (ack, o') = AckDelivery X now taskID AckStatusFailed agentID ''payload_validation_failed'' o'
            in (Inl (firstNonEmptyString [ma_Reason ack, ''delivery payload validation failed'']), o')
          else
            let (handshake, o') = onDelivery (EstablishDelivery E now taskID agentID) o' in
            if ma_AckStatus handshake = AckStatusFailed
            then (Inl (firstNonEmptyString [ma_Reason handshake, ''delivery handshake failed'']), o')
            else
              let (ack, o') = AckDelivery X now taskID AckStatusAccepted agentID ''execution_started'' o'
              in (Inr (Refresh E now taskID (or_delivery o')), o'))"

definition refreshRuntimeCapacity ::
    "time \<Rightarrow> AgentInfo \<Rightarrow> CapacitySnapshot \<Rightarrow> ('b, 'm) Orchestrator \<Rightarrow> ('b, 'm) Orchestrator" where
  "refreshRuntimeCapacity now agent snapshot =
     onRuntime (\<lambda>m. snd (UpdateCapacitySnapshot now (ai_ID agent) snapshot m))"

text \<open>What a failed run does to the runtime manager.\<close>

definition runtimeFailure :: "time \<Rightarrow> string \<Rightarrow> string \<Rightarrow> RuntimeManager \<Rightarrow> RuntimeManager" where
  "runtimeFailure now agentID summary m =
     (let (state, m) = RecordRuntimeFailure now agentID summary m;
          (action, m) = RecoveryActionForFailure now agentID m
      in if action = ''quarantine_agent'' then snd (QuarantineAgent now agentID summary m) else m)"

definition executeDeliveredTask ::
    "('b, 'm) kernel_env \<Rightarrow> time \<Rightarrow> Task \<Rightarrow> TaskAcceptance \<Rightarrow> Agent \<Rightarrow> TaskEnvelope \<Rightarrow> ('b, 'm) Orchestrator
     \<Rightarrow> (AgentResult \<times> duration) \<times> ('b, 'm) Orchestrator" where
  "executeDeliveredTask X now task acceptance agent envelope o' =
     (let agentInfo = ag_Info agent in
      case ke_acquireExecutionSlots X agentInfo (ta_ModelName acceptance) (or_memory o') of
        Inl err \<Rightarrow>
          let result = failedAttemptResult now task acceptance agentInfo err
          in ((result, 0), onMemory (ke_RecordPeerExchange X envelope acceptance result err) o')
      | Inr (before, after) \<Rightarrow>
          let o' = refreshRuntimeCapacity now agentInfo before o';
              ((task, result, latency), m) = ke_executeAgent X task acceptance agent (or_memory o');
              o' = o'\<lparr>or_memory := ke_RecordModelUsage X task (ta_ModelName acceptance) result m\<rparr>;
              result = (if ar_Status result = TaskStatusOther [] then result\<lparr>ar_Status := TaskStatusDone\<rparr> else result);
              summary = ro_Summary (ar_Output result);
              o' = (if ar_Status result = TaskStatusFailed then
                      let o' = onMemory (ke_RecordHardStop X task ''agent_execute'' summary) o';
                          o' = (if ro_runtime (or_router o') = None then o'
                                else publishRuntimeEvent ''agents'' ''agent.runtime_failure'' (ai_ID agentInfo)
                                       (onRuntime (runtimeFailure now (ai_ID agentInfo) summary) o'))
                      in snd (AckDelivery X now (te_TaskID envelope) AckStatusFailed (ai_ID agentInfo) summary o')
                    else
                      let o' = onRuntime (\<lambda>m. snd (RecordSuccess now (ai_ID agentInfo) m)) o'
                      in snd (AckDelivery X now (te_TaskID envelope) AckStatusAccepted (ai_ID agentInfo) ''execution_completed'' o'));
              o' = onMemory (ke_persistExecutionState X task acceptance agentInfo result latency) o';
              o' = onMemory (ke_RecordPeerExchange X envelope acceptance result summary) o'
          in ((result, latency), refreshRuntimeCapacity now agentInfo after o'))"

definition routePeerFallback ::
    "('b, 'm) kernel_env \<Rightarrow> time \<Rightarrow> Task \<Rightarrow> ExecutionPlan \<Rightarrow> string list \<Rightarrow> string \<Rightarrow> ('b, 'm) Orchestrator
     \<Rightarrow> (TaskAcceptance \<times> Agent option) \<times> ('b, 'm) Orchestrator" where
  "routePeerFallback X now task plan excluded failedAgentID o' =
     (let nextExcluded = (if failedAgentID \<in> set excluded then excluded else excluded @ [failedAgentID]);
          (choice, r) = RouteExcluding (ke_canAccept X) (ke_parseFloat X) now task plan nextExcluded (or_router o')
      in (choice, o'\<lparr>or_router := r\<rparr>))"

section \<open>The loop over the agents\<close>

text \<open>One turn of the loop: the annotated task with the result of the delivery and the run.\<close>

definition p2pTurn ::
    "('b, 'm) kernel_env \<Rightarrow> time \<Rightarrow> ExecutionPlan \<Rightarrow> int \<Rightarrow> string list \<Rightarrow> Task \<Rightarrow> TaskAcceptance \<Rightarrow> Agent
     \<Rightarrow> ('b, 'm) Orchestrator \<Rightarrow> (Task \<times> AgentResult \<times> duration) \<times> ('b, 'm) Orchestrator" where
  "p2pTurn X now plan attempt excluded task acceptance agent o' =
     (let agentInfo = ag_Info agent;
          task = annotatePeerAttempt task acceptance attempt excluded;
          envelope = buildPeerEnvelope now task acceptance plan agentInfo attempt o';
          (prepared, o') = preparePeerDelivery X now envelope (ai_ID agentInfo) o' in
      case prepared of
        Inl err \<Rightarrow>
          let result = failedAttemptResult now task acceptance agentInfo err
          in ((task, result, 0), onMemory (ke_persistExecutionState X task acceptance agentInfo result 0) o')
      | Inr deliveryState \<Rightarrow>
          let o' = publishRuntimeEvent ''tasks'' ''task.running'' (t_ID task) o';
              ((result, latency), o') = executeDeliveredTask X now task acceptance agent envelope o'
          in ((task, result, latency), o'))"

function p2pLoop ::
    "('b, 'm) kernel_env \<Rightarrow> time \<Rightarrow> ExecutionPlan \<Rightarrow> int \<Rightarrow> int \<Rightarrow> string list \<Rightarrow> Task \<Rightarrow> TaskAcceptance \<Rightarrow> Agent
     \<Rightarrow> ('b, 'm) Orchestrator \<Rightarrow> (TaskAcceptance \<times> Task \<times> AgentResult) \<times> ('b, 'm) Orchestrator" where
  "p2pLoop X now plan maxAttempts attempt excluded task acceptance agent o' =
     (let agentInfo = ag_Info agent;
          ((task, result, latency), o') = p2pTurn X now plan attempt excluded task acceptance agent o' in
      if ar_Status result \<noteq> TaskStatusFailed then ((acceptance, task, result), o')
      else
        let ((fallbackAcceptance, fallbackAgent), o') = routePeerFallback X now task plan excluded (ai_ID agentInfo) o' in
        case fallbackAgent of
          None \<Rightarrow> ((acceptance, task, result), o')
        | Some next \<Rightarrow>
            if attempt < maxAttempts then
              let excluded = (if ai_ID agentInfo \<in> set excluded then excluded else excluded @ [ai_ID agentInfo]);
                  task = rebindTaskAssignment (withFailureContext task agentInfo result attempt latency) fallbackAcceptance;
                  (task, o') = attachRuntimeContext X now task fallbackAcceptance (ag_Info next) o'
              in p2pLoop X now plan maxAttempts (attempt + 1) excluded task fallbackAcceptance next o'
            else ((acceptance, task, result), o'))"
  by pat_completeness auto
termination
  by (relation "measure (\<lambda>(X, now, plan, maxAttempts, attempt, _). nat (maxAttempts - attempt))") auto

definition executeTaskP2P ::
    "('b, 'm) kernel_env \<Rightarrow> time \<Rightarrow> Task \<Rightarrow> ExecutionPlan \<Rightarrow> TaskAcceptance \<Rightarrow> Agent
     \<Rightarrow> ('b, 'm) Orchestrator \<Rightarrow> (TaskAcceptance \<times> Task \<times> AgentResult) \<times> ('b, 'm) Orchestrator" where
  "executeTaskP2P X now task plan acceptance agent o' =
     p2pLoop X now plan (max 1 (agentCount o')) 1 [] task acceptance agent o'"


section \<open>What an attempt keeps of the router\<close>

text \<open>The operations of the runtime manager never register or drop an agent.\<close>

definition kept :: "RuntimeManager \<Rightarrow> RuntimeManager \<Rightarrow> bool" where
  "kept m n \<longleftrightarrow> tracked n \<and> rg_agents (rm_registry n) = rg_agents (rm_registry m)"

lemma kept_refl: "tracked m \<Longrightarrow> kept m m"
  by (simp add: kept_def)

lemma kept_trans: "kept m n \<Longrightarrow> kept n k \<Longrightarrow> kept m k"
  by (simp add: kept_def)

lemma kept_State: "tracked m \<Longrightarrow> kept m (snd (State now k m))"
  using State_lane [of m k _ now] State_unknown [of m k now] tracked_setState
  by (cases "lane m k") (auto simp: kept_def)

lemma kept_commit: "tracked m \<Longrightarrow> kept m (commit now s m)"
  using Refresh_effect(1,2) [of "setState now s m" now] tracked_setState [of m now s]
  by (simp add: kept_def commit_def)

lemma kept_after_State:
  assumes "tracked m" "\<And>st ok n. State now k m = ((st, ok), n) \<Longrightarrow> f m = n \<or> (\<exists>s. f m = commit now s n)"
  shows "kept m (f m)"
proof -
  obtain st ok n where n: "State now k m = ((st, ok), n)" by (metis surj_pair)
  have kn: "kept m n" using kept_State [OF assms(1), of now k] by (simp add: n)
  then have "tracked n" by (simp add: kept_def)
  then show ?thesis using assms(2) [OF n] kn kept_trans kept_commit by metis
qed

lemma kept_ops:
  assumes "tracked m"
  shows "kept m (snd (UpdateCapacitySnapshot now k snap m))" "kept m (snd (RecordRuntimeFailure now k detail m))"
    "kept m (snd (RecordSuccess now k m))" "kept m (snd (SuppressLane now k detail secs m))"
    "kept m (snd (RecoveryActionForFailure now k m))"
  by (rule kept_after_State [OF assms, of now "TrimSpace k"], simp add: UpdateCapacitySnapshot_def Let_def, blast?)
    (rule kept_after_State [OF assms, of now k],
      auto simp: RecordRuntimeFailure_def RecordSuccess_def SuppressLane_def RecoveryActionForFailure_def Let_def)+

lemma kept_runtimeFailure: "tracked m \<Longrightarrow> kept m (runtimeFailure now k summary m)"
proof -
  assume tr: "tracked m"
  obtain st n where 1: "RecordRuntimeFailure now k summary m = (st, n)" by force
  obtain action n' where 2: "RecoveryActionForFailure now k n = (action, n')" by force
  have k1: "kept m n" using kept_ops(2) [OF tr, of now k summary] by (simp add: 1)
  then have k2: "kept m n'" using kept_trans kept_ops(5) [of n now k] 2 by (metis kept_def snd_conv)
  moreover have "kept m (snd (QuarantineAgent now k summary n'))"
    using kept_trans [OF k2 kept_ops(4)] k2 by (simp add: QuarantineAgent_def split_def Let_def kept_def)
  ultimately show ?thesis by (simp add: runtimeFailure_def 1 2)
qed

definition sameAgents :: "Router \<Rightarrow> Router \<Rightarrow> bool" where
  "sameAgents r r' \<longleftrightarrow> router_ok r' \<and> Agents (routerRegistry r') = Agents (routerRegistry r)"

lemma sameAgents_refl: "router_ok r \<Longrightarrow> sameAgents r r"
  by (simp add: sameAgents_def)

lemma sameAgents_trans: "sameAgents r r' \<Longrightarrow> sameAgents r' r'' \<Longrightarrow> sameAgents r r''"
  by (simp add: sameAgents_def)

lemma onRuntime_sameAgents:
  assumes "router_ok (or_router o')" "\<And>m. tracked m \<Longrightarrow> kept m (f m)"
  shows "sameAgents (or_router o') (or_router (onRuntime f o'))"
  using assms by (cases "ro_runtime (or_router o')")
    (auto simp: sameAgents_def onRuntime_def router_ok_def routerRegistry_def kept_def Agents_def)

lemma calmRouter_sameAgents: "router_ok r \<Longrightarrow> calmRouter now (r\<lparr>ro_runtime := map_option (settled now) (ro_runtime r)\<rparr>) r' \<Longrightarrow> sameAgents r r'"
proof -
  let ?r0 = "r\<lparr>ro_runtime := map_option (settled now) (ro_runtime r)\<rparr>"
  assume ok: "router_ok r" and calm: "calmRouter now ?r0 r'"
  then have eq: "?r0 = r'\<lparr>ro_runtime := map_option (settled now) (ro_runtime r')\<rparr>" and tr: "\<forall>m. ro_runtime r' = Some m \<longrightarrow> tracked m"
    by (simp_all add: calmRouter_def)
  have reg: "ro_registry r' = ro_registry r" using arg_cong [OF eq, of ro_registry] by simp
  have rt: "map_option (settled now) (ro_runtime r') = map_option (settled now) (ro_runtime r)" using arg_cong [OF eq, of ro_runtime] by simp
  show ?thesis
  proof (cases "ro_runtime r'")
    case None
    then show ?thesis using ok rt reg by (simp add: sameAgents_def router_ok_def routerRegistry_def)
  next
    case (Some m')
    then obtain m where m: "ro_runtime r = Some m" "settled now m' = settled now m" using rt by (cases "ro_runtime r") auto
    have "Agents (rm_registry m') = Agents (rm_registry m)" using arg_cong [OF m(2), of "\<lambda>x. Agents (rm_registry x)"] by simp
    then show ?thesis using Some m(1) tr by (simp add: sameAgents_def router_ok_def routerRegistry_def)
  qed
qed

lemma policyRoute_sameAgents:
  assumes "router_ok r"
  shows "sameAgents r (snd (policyRoute canAccept parseFloat now task plan exclude r))"
proof -
  let ?cap = "routeCapability task plan"
  let ?q = "\<lambda>c. scoreAgent parseFloat now c task ?cap (ep_Complexity plan) (EvaluateRiskContext (taskText task))"
  obtain cs r1 where cs: "routeCandidates canAccept now task ?cap exclude r = (cs, r1)" by force
  note rc = routeCandidates_cases [OF assms cs]
  have k1: "sameAgents r r1" using admitsRouter_keeps(1,2) [OF conjunct1 [OF rc] assms] by (simp add: sameAgents_def)
  let ?r0 = "r1\<lparr>ro_runtime := map_option (settled now) (ro_runtime r1)\<rparr>"
  have ok1: "router_ok r1" using k1 by (simp add: sameAgents_def)
  then have calm: "calmRouter now ?r0 r1" by (auto simp: calmRouter_def router_ok_def)
  have reads: "\<exists>x. reads (calmRouter now ?r0) (?q c) x" if "c \<in> set cs" for c
    using rc that by (intro reads_scoreAgent) (auto simp: weighed_def)
  then obtain f where f: "\<And>c. c \<in> set cs \<Longrightarrow> reads (calmRouter now ?r0) (?q c) (f c)" by metis
  obtain best bs r2 where fold: "fold (betterOne ?q) cs ((None, - 1000000000), r1) = ((best, bs), r2)" "calmRouter now ?r0 r2"
    using best_fold [of cs "calmRouter now ?r0" ?q f r1 None "- 1000000000", OF f calm] by blast
  have k2: "sameAgents r r2" using calmRouter_sameAgents [OF ok1 fold(2)] k1 sameAgents_trans by blast
  then show ?thesis
    using k1 fold(1) by (auto simp: policyRoute_def cs bestAgent_def Let_def split: option.split)
qed

lemma route_sameAgents:
  assumes "router_ok r"
  shows "sameAgents r (snd (route canAccept parseFloat now task plan exclude r))"
proof -
  let ?t = "tryAgent canAccept now task (routeCapability task plan) exclude"
  have stage: "sameAgents r (snd (?t k r'))" if "sameAgents r r'" for k r'
  proof -
    obtain x r'' where t: "?t k r' = (x, r'')" by force
    have ok: "router_ok r'" using that by (simp add: sameAgents_def)
    have "admitsRouter now r' r''" using tryAgent_cases [OF ok t] by blast
    then have "sameAgents r' r''" using admitsRouter_keeps(1,2) ok by (metis sameAgents_def)
    then show ?thesis using that sameAgents_trans by (simp add: t)
  qed
  have stage': "sameAgents r r''" if "sameAgents r r'" "(if b then ?t k r' else (None, r')) = (x, r'')" for b k r' x r''
    using stage [OF that(1), of k] that by (cases b) simp_all
  let ?hints = "t_RoutingHints task"
  obtain x1 r1 where s1: "(if preferredAgentID ?hints = [] then (None, r) else ?t (preferredAgentID ?hints) r) = (x1, r1)" by force
  have k1: "sameAgents r r1" using stage [OF sameAgents_refl [OF assms], of "preferredAgentID ?hints"] sameAgents_refl [OF assms] s1
    by (cases "preferredAgentID ?hints = []") simp_all
  obtain x2 r2 where s2: "(if routeModeOrchestrator ?hints then ?t ''orchestrator'' r1 else (None, r1)) = (x2, r2)" by force
  note k2 = stage' [OF k1 s2]
  obtain x3 r3 where s3: "(if isSourcecraftWork task then ?t ''orchestrator'' r2 else (None, r2)) = (x3, r3)" by force
  note k3 = stage' [OF k2 s3]
  have k4: "sameAgents r (snd (policyRoute canAccept parseFloat now task plan exclude r3))"
    using policyRoute_sameAgents [of r3] k3 sameAgents_trans [OF k3] by (simp add: sameAgents_def)
  show ?thesis
    using k1 k2 k3 k4
    by (cases x1; cases x2; cases x3) (simp_all add: route_def Let_def s1 s2 s3)
qed

lemma router_unchanged [simp]:
  "or_router (snd (onDelivery f o')) = or_router o'" "or_router (onMemory g o') = or_router o'"
  "or_router (publishRuntimeEvent topic kind entity o') = or_router o'"
  "or_router (snd (AckDelivery X now taskID status receivedBy reason o')) = or_router o'"
  "or_router (snd (attachRuntimeContext X now task acceptance info o')) = or_router o'"
  by (simp_all add: onDelivery_def onMemory_def publishRuntimeEvent_def AckDelivery_def attachRuntimeContext_def Let_def split_def)

lemma preparePeerDelivery_router [simp]: "or_router (snd (preparePeerDelivery X now envelope agentID o')) = or_router o'"
  by (simp add: preparePeerDelivery_def Let_def split_def split: list.split)

lemma onRuntime_step:
  assumes "sameAgents r (or_router o')" "\<And>m. tracked m \<Longrightarrow> kept m (f m)"
  shows "sameAgents r (or_router (onRuntime f o'))"
proof -
  have "router_ok (or_router o')" using assms(1) by (simp add: sameAgents_def)
  then have "sameAgents (or_router o') (or_router (onRuntime f o'))" using assms(2) by (rule onRuntime_sameAgents)
  with assms(1) show ?thesis by (rule sameAgents_trans)
qed

lemma runtime_sameAgents:
  assumes "sameAgents r (or_router o')"
  shows "sameAgents r (or_router (refreshRuntimeCapacity now info snap o'))"
    "sameAgents r (or_router (onRuntime (runtimeFailure now k summary) o'))"
    "sameAgents r (or_router (onRuntime (\<lambda>m. snd (RecordSuccess now k m)) o'))"
  unfolding refreshRuntimeCapacity_def
  by (rule onRuntime_step [OF assms], rule kept_ops kept_runtimeFailure, assumption)+

lemma executeDeliveredTask_sameAgents:
  assumes "router_ok (or_router o')"
  shows "sameAgents (or_router o') (or_router (snd (executeDeliveredTask X now task acceptance agent envelope o')))"
proof (cases "ke_acquireExecutionSlots X (ag_Info agent) (ta_ModelName acceptance) (or_memory o')")
  case (Inl err)
  then show ?thesis using sameAgents_refl [OF assms] by (simp add: executeDeliveredTask_def Let_def)
next
  case (Inr p)
  obtain before after where p: "p = (before, after)" by force
  let ?o1 = "refreshRuntimeCapacity now (ag_Info agent) before o'"
  obtain task1 result latency m where run: "ke_executeAgent X task acceptance agent (or_memory ?o1) = ((task1, result, latency), m)"
    by (metis surj_pair)
  define o2 where "o2 = ?o1\<lparr>or_memory := ke_RecordModelUsage X task1 (ta_ModelName acceptance) result m\<rparr>"
  have 2: "sameAgents (or_router o') (or_router o2)"
    using runtime_sameAgents(1) [OF sameAgents_refl [OF assms]] by (simp add: o2_def)
  define result' where "result' = (if ar_Status result = TaskStatusOther [] then result\<lparr>ar_Status := TaskStatusDone\<rparr> else result)"
  define summary where "summary = ro_Summary (ar_Output result')"
  define o3 where "o3 = (if ar_Status result' = TaskStatusFailed then
      let o' = onMemory (ke_RecordHardStop X task1 ''agent_execute'' summary) o2;
          o' = (if ro_runtime (or_router o') = None then o'
                else publishRuntimeEvent ''agents'' ''agent.runtime_failure'' (ai_ID (ag_Info agent))
                       (onRuntime (runtimeFailure now (ai_ID (ag_Info agent)) summary) o'))
      in snd (AckDelivery X now (te_TaskID envelope) AckStatusFailed (ai_ID (ag_Info agent)) summary o')
    else let o' = onRuntime (\<lambda>m. snd (RecordSuccess now (ai_ID (ag_Info agent)) m)) o2
      in snd (AckDelivery X now (te_TaskID envelope) AckStatusAccepted (ai_ID (ag_Info agent)) ''execution_completed'' o'))"
  have "sameAgents (or_router o') (or_router o3)"
    using 2 runtime_sameAgents(3) [OF 2] runtime_sameAgents(2) [of _ "onMemory (ke_RecordHardStop X task1 ''agent_execute'' summary) o2"]
    by (simp add: o3_def Let_def)
  then have "sameAgents (or_router o') (or_router (refreshRuntimeCapacity now (ag_Info agent) after
      (onMemory (ke_RecordPeerExchange X envelope acceptance result' summary)
        (onMemory (ke_persistExecutionState X task1 acceptance (ag_Info agent) result' latency) o3))))"
    by (intro runtime_sameAgents(1)) simp
  moreover have "snd (executeDeliveredTask X now task acceptance agent envelope o') =
      refreshRuntimeCapacity now (ag_Info agent) after
      (onMemory (ke_RecordPeerExchange X envelope acceptance result' summary)
        (onMemory (ke_persistExecutionState X task1 acceptance (ag_Info agent) result' latency) o3))"
    unfolding executeDeliveredTask_def Let_def Inr p sum.case prod.case run o2_def [symmetric] o3_def result'_def summary_def by simp
  ultimately show ?thesis by simp
qed

lemma p2pTurn_effect:
  assumes "router_ok (or_router o')" "p2pTurn X now plan attempt excluded task acceptance agent o' = ((task', result, latency), o1)"
  shows "sameAgents (or_router o') (or_router o1)" "task' = annotatePeerAttempt task acceptance attempt excluded"
proof -
  let ?task = "annotatePeerAttempt task acceptance attempt excluded"
  let ?env = "buildPeerEnvelope now ?task acceptance plan (ag_Info agent) attempt o'"
  obtain p o2 where p: "preparePeerDelivery X now ?env (ai_ID (ag_Info agent)) o' = (p, o2)" by force
  have r2: "or_router o2 = or_router o'" using preparePeerDelivery_router [of X now ?env "ai_ID (ag_Info agent)" o'] by (simp add: p)
  have "sameAgents (or_router o') (or_router o1) \<and> task' = ?task"
  proof (cases p)
    case (Inl err)
    then show ?thesis using r2 sameAgents_refl [OF assms(1)] assms(2) by (auto simp: p2pTurn_def p Let_def)
  next
    case (Inr st)
    let ?o3 = "publishRuntimeEvent ''tasks'' ''task.running'' (t_ID ?task) o2"
    have "o1 = snd (executeDeliveredTask X now ?task acceptance agent ?env ?o3)" "task' = ?task"
      using assms(2) Inr by (auto simp: p2pTurn_def p Let_def split_def)
    then show ?thesis using executeDeliveredTask_sameAgents [of ?o3 X now ?task acceptance agent ?env] r2 assms(1) by simp
  qed
  then show "sameAgents (or_router o') (or_router o1)" "task' = ?task" by simp_all
qed

lemma routePeerFallback_effect:
  assumes "router_ok (or_router o')" "routePeerFallback X now task plan excluded k o' = ((acc, choice), o1)" "k \<notin> set excluded"
  shows "sameAgents (or_router o') (or_router o1)"
    "RouteExcluding (ke_canAccept X) (ke_parseFloat X) now task plan (excluded @ [k]) (or_router o') = ((acc, choice), or_router o1)"
    "choice = Some a \<Longrightarrow> a \<in> set (Agents (routerRegistry (or_router o'))) \<and> ai_ID (ag_Info a) \<notin> set (excluded @ [k]) \<and> ta_AgentID acc = ai_ID (ag_Info a)"
proof -
  show route: "RouteExcluding (ke_canAccept X) (ke_parseFloat X) now task plan (excluded @ [k]) (or_router o') = ((acc, choice), or_router o1)"
    using assms(2,3) by (auto simp: routePeerFallback_def Let_def split: prod.splits)
  show "sameAgents (or_router o') (or_router o1)"
    using route_sameAgents [OF assms(1), of "ke_canAccept X" "ke_parseFloat X" now task plan "excluded @ [k]"] route
    by (simp add: RouteExcluding_def)
  obtain acc' choice' r' where o: "route (ke_canAccept X) (ke_parseFloat X) now task plan (excluded @ [k]) (or_router o') = ((acc', choice'), r')"
      "outcome (ke_canAccept X) now task plan (excluded @ [k]) (or_router o') acc' choice'"
    using route_outcome [OF assms(1)] by blast
  then show "choice = Some a \<Longrightarrow> a \<in> set (Agents (routerRegistry (or_router o'))) \<and> ai_ID (ag_Info a) \<notin> set (excluded @ [k]) \<and> ta_AgentID acc = ai_ID (ag_Info a)"
    using route by (auto simp: RouteExcluding_def outcome_def accepted_def Let_def)
qed

section \<open>Properties\<close>

declare p2pLoop.simps [simp del]

lemma annotate_hints:
  "map_of (t_RoutingHints (annotatePeerAttempt task acceptance attempt excluded)) ''p2p_attempt'' = Some (AnyInt attempt)"
  "excluded \<noteq> [] \<Longrightarrow>
     map_of (t_RoutingHints (annotatePeerAttempt task acceptance attempt excluded)) ''p2p_excluded_agents'' = Some (AnyStrings excluded)"
  by (simp_all add: annotatePeerAttempt_def Let_def)

text \<open>The agents tried so far, with the current one last.\<close>

definition trail :: "int \<Rightarrow> int \<Rightarrow> string list \<Rightarrow> TaskAcceptance \<Rightarrow> Agent \<Rightarrow> bool" where
  "trail maxAttempts attempt excluded acceptance agent \<longleftrightarrow>
     distinct (excluded @ [ai_ID (ag_Info agent)]) \<and> int (length excluded) = attempt - 1 \<and> attempt \<le> maxAttempts \<and>
     ta_AgentID acceptance = ai_ID (ag_Info agent)"

definition ended ::
    "('b, 'm) kernel_env \<Rightarrow> time \<Rightarrow> ExecutionPlan \<Rightarrow> int \<Rightarrow> string list \<Rightarrow> string \<Rightarrow> Router
     \<Rightarrow> (TaskAcceptance \<times> Task \<times> AgentResult) \<times> ('b, 'm) Orchestrator \<Rightarrow> bool" where
  "ended X now plan maxAttempts before k r res \<longleftrightarrow>
     (case res of ((acc, task, result), o') \<Rightarrow>
        \<exists>tried. distinct (tried @ [ta_AgentID acc]) \<and> int (length tried) < maxAttempts \<and>
          (\<exists>more. tried @ [ta_AgentID acc] = before @ more \<and> hd more = k \<and> set more \<subseteq> insert k ((\<lambda>a. ai_ID (ag_Info a)) ` set (Agents (routerRegistry r)))) \<and>
          map_of (t_RoutingHints task) ''p2p_attempt'' = Some (AnyInt (int (length tried) + 1)) \<and>
          (tried \<noteq> [] \<longrightarrow> map_of (t_RoutingHints task) ''p2p_excluded_agents'' = Some (AnyStrings tried)) \<and>
          (ar_Status result = TaskStatusFailed \<longrightarrow> int (length tried) + 1 = maxAttempts \<or>
             (\<exists>rejection s. RouteExcluding (ke_canAccept X) (ke_parseFloat X) now task plan (tried @ [ta_AgentID acc]) s =
                ((rejection, None), or_router o'))))"

lemma ended_earlier:
  assumes "ended X now plan maxAttempts (before @ [k]) (ai_ID (ag_Info a)) r' res"
    "a \<in> set (Agents (routerRegistry r))" "Agents (routerRegistry r') = Agents (routerRegistry r)"
  shows "ended X now plan maxAttempts before k r res"
proof -
  obtain acc task result o' where res: "res = ((acc, task, result), o')" by (metis surj_pair)
  from assms(1) obtain tried more where t: "distinct (tried @ [ta_AgentID acc])" "int (length tried) < maxAttempts"
      "tried @ [ta_AgentID acc] = (before @ [k]) @ more"
      "set more \<subseteq> insert (ai_ID (ag_Info a)) ((\<lambda>a. ai_ID (ag_Info a)) ` set (Agents (routerRegistry r)))"
      "map_of (t_RoutingHints task) ''p2p_attempt'' = Some (AnyInt (int (length tried) + 1))"
      "tried \<noteq> [] \<longrightarrow> map_of (t_RoutingHints task) ''p2p_excluded_agents'' = Some (AnyStrings tried)"
      "ar_Status result = TaskStatusFailed \<longrightarrow> int (length tried) + 1 = maxAttempts \<or>
         (\<exists>rejection s. RouteExcluding (ke_canAccept X) (ke_parseFloat X) now task plan (tried @ [ta_AgentID acc]) s =
            ((rejection, None), or_router o'))"
    unfolding ended_def res prod.case assms(3) by blast
  have "tried @ [ta_AgentID acc] = before @ (k # more)" using t(3) by simp
  moreover have "set (k # more) \<subseteq> insert k ((\<lambda>a. ai_ID (ag_Info a)) ` set (Agents (routerRegistry r)))"
    using t(4) assms(2) by auto
  moreover have "hd (k # more) = k" by simp
  ultimately show ?thesis unfolding ended_def res prod.case using t by blast
qed

lemma p2pLoop_ends:
  assumes "router_ok (or_router o')" "trail maxAttempts attempt excluded acceptance agent"
  shows "ended X now plan maxAttempts excluded (ai_ID (ag_Info agent)) (or_router o') (p2pLoop X now plan maxAttempts attempt excluded task acceptance agent o')"
  using assms
proof (induction "nat (maxAttempts - attempt)" arbitrary: attempt excluded task acceptance agent o' rule: less_induct)
  case less
  let ?k = "ai_ID (ag_Info agent)"
  note tr = less.prems(2) [unfolded trail_def]
  obtain task1 result latency o1 where turn: "p2pTurn X now plan attempt excluded task acceptance agent o' = ((task1, result, latency), o1)"
    by (metis surj_pair)
  note eff = p2pTurn_effect [OF less.prems(1) turn]
  have ok1: "router_ok (or_router o1)" using eff(1) by (simp add: sameAgents_def)
  obtain facc fagent o2 where fb: "routePeerFallback X now task1 plan excluded ?k o1 = ((facc, fagent), o2)" by (metis surj_pair)
  have new: "?k \<notin> set excluded" using tr by simp
  note feff = routePeerFallback_effect [OF ok1 fb new]
  have here: "ended X now plan maxAttempts excluded ?k (or_router o') ((acceptance, task1, result), o3)"
    if "ar_Status result = TaskStatusFailed \<longrightarrow> attempt = maxAttempts \<or> (fagent = None \<and> o3 = o2)" for o3
    unfolding ended_def prod.case
    by (rule exI [of _ excluded]) (use tr that annotate_hints [where task = task and acceptance = acceptance and attempt = attempt and excluded = excluded] feff(2) in \<open>auto simp: eff(2)\<close>)
  consider (ok) "ar_Status result \<noteq> TaskStatusFailed" | (none) "ar_Status result = TaskStatusFailed" "fagent = None"
    | (last) "ar_Status result = TaskStatusFailed" "fagent \<noteq> None" "\<not> attempt < maxAttempts"
    | (again) a where "ar_Status result = TaskStatusFailed" "fagent = Some a" "attempt < maxAttempts" by fastforce
  then show ?case
  proof cases
    case ok
    then show ?thesis using here by (simp add: p2pLoop.simps turn Let_def)
  next
    case none
    then show ?thesis using here by (simp add: p2pLoop.simps turn fb Let_def)
  next
    case last
    then have "p2pLoop X now plan maxAttempts attempt excluded task acceptance agent o' = ((acceptance, task1, result), o2)"
      by (auto simp: p2pLoop.simps turn fb Let_def)
    then show ?thesis using here [of o2] last(3) tr by simp
  next
    case again
    define task2 where "task2 = rebindTaskAssignment (withFailureContext task1 (ag_Info agent) result attempt latency) facc"
    obtain task3 o3 where ctx: "attachRuntimeContext X now task2 facc (ag_Info a) o2 = (task3, o3)" by force
    have r3: "or_router o3 = or_router o2" using router_unchanged(5) [of X now task2 facc "ag_Info a" o2] by (simp add: ctx)
    have a: "a \<in> set (Agents (routerRegistry (or_router o1)))" "ai_ID (ag_Info a) \<notin> set (excluded @ [?k])"
      "ta_AgentID facc = ai_ID (ag_Info a)" using feff(3) [OF again(2)] by simp_all
    have ok3: "router_ok (or_router o3)" and same: "Agents (routerRegistry (or_router o3)) = Agents (routerRegistry (or_router o'))"
      using feff(1) eff(1) by (simp_all add: r3 sameAgents_def)
    have trail: "trail maxAttempts (attempt + 1) (excluded @ [?k]) facc a"
      using tr a again(3) by (auto simp: trail_def)
    have run: "p2pLoop X now plan maxAttempts attempt excluded task acceptance agent o' =
        p2pLoop X now plan maxAttempts (attempt + 1) (excluded @ [?k]) task3 facc a o3"
      using again new by (subst p2pLoop.simps) (simp add: turn fb task2_def [symmetric] ctx Let_def)
    have "ended X now plan maxAttempts (excluded @ [?k]) (ai_ID (ag_Info a)) (or_router o3)
        (p2pLoop X now plan maxAttempts (attempt + 1) (excluded @ [?k]) task3 facc a o3)"
      using less.hyps [OF _ ok3 trail] again(3) by simp
    then show ?thesis unfolding run by (rule ended_earlier) (use a(1) eff(1) same in \<open>simp_all add: sameAgents_def\<close>)
  qed
qed

text \<open>C4. Executing a task ends after at most as many attempts as agents are registered, and no agent is tried
  twice: the hints of the task that is returned carry the number of the last attempt and the agents
  tried before it, all of them registered but for the first, which is given. A task that is returned
  as failed used all attempts, or the router had no agent left that was not tried.\<close>

theorem p2p_tries_each_agent_once:
  assumes "router_ok (or_router o')" "ta_AgentID acceptance = ai_ID (ag_Info agent)"
    and "executeTaskP2P X now task plan acceptance agent o' = ((acc, task', result), o'')"
  shows "\<exists>tried. distinct (tried @ [ta_AgentID acc]) \<and> int (length tried) < max 1 (agentCount o') \<and>
      hd (tried @ [ta_AgentID acc]) = ai_ID (ag_Info agent) \<and>
      set (tl (tried @ [ta_AgentID acc])) \<subseteq> (\<lambda>a. ai_ID (ag_Info a)) ` set (Agents (routerRegistry (or_router o'))) \<and>
      map_of (t_RoutingHints task') ''p2p_attempt'' = Some (AnyInt (int (length tried) + 1)) \<and>
      (tried \<noteq> [] \<longrightarrow> map_of (t_RoutingHints task') ''p2p_excluded_agents'' = Some (AnyStrings tried)) \<and>
      (ar_Status result = TaskStatusFailed \<longrightarrow> int (length tried) + 1 = max 1 (agentCount o') \<or>
         (\<exists>rejection r. RouteExcluding (ke_canAccept X) (ke_parseFloat X) now task' plan (tried @ [ta_AgentID acc]) r =
            ((rejection, None), or_router o'')))"
proof -
  have "trail (max 1 (agentCount o')) 1 [] acceptance agent" using assms(2) by (simp add: trail_def)
  then have "ended X now plan (max 1 (agentCount o')) [] (ai_ID (ag_Info agent)) (or_router o') ((acc, task', result), o'')"
    using p2pLoop_ends [OF assms(1)] assms(3) by (metis executeTaskP2P_def)
  then obtain tried where t: "distinct (tried @ [ta_AgentID acc])" "int (length tried) < max 1 (agentCount o')"
      "hd (tried @ [ta_AgentID acc]) = ai_ID (ag_Info agent)"
      "set (tried @ [ta_AgentID acc]) \<subseteq> insert (ai_ID (ag_Info agent)) ((\<lambda>a. ai_ID (ag_Info a)) ` set (Agents (routerRegistry (or_router o'))))"
      "map_of (t_RoutingHints task') ''p2p_attempt'' = Some (AnyInt (int (length tried) + 1))"
      "tried \<noteq> [] \<longrightarrow> map_of (t_RoutingHints task') ''p2p_excluded_agents'' = Some (AnyStrings tried)"
      "ar_Status result = TaskStatusFailed \<longrightarrow> int (length tried) + 1 = max 1 (agentCount o') \<or>
         (\<exists>rejection r. RouteExcluding (ke_canAccept X) (ke_parseFloat X) now task' plan (tried @ [ta_AgentID acc]) r =
            ((rejection, None), or_router o''))"
    unfolding ended_def prod.case append_Nil by blast
  obtain k ks where ks: "tried @ [ta_AgentID acc] = k # ks" by (cases tried) auto
  have "set (tl (tried @ [ta_AgentID acc])) \<subseteq> (\<lambda>a. ai_ID (ag_Info a)) ` set (Agents (routerRegistry (or_router o')))"
    using t(1,3,4) unfolding ks by auto
  then show ?thesis using t(1-3,5-7) by blast
qed

section \<open>The mailbox\<close>

lemma applyHistory_checksum [simp]: "dr_PayloadChecksum (applyHistory now history r) = dr_PayloadChecksum r"
proof -
  have one: "dr_PayloadChecksum (applyAck now a r) = dr_PayloadChecksum r" for a r
    by (simp add: applyAck_def Let_def split: AckStatus.split)
  show ?thesis unfolding applyHistory_def by (induction history arbitrary: r) (simp_all add: one)
qed

lemma memory_env_simps [simp]:
  "bus_SendEnvelope (memory_env marshal sum256) = SendEnvelope" "bus_ReceiveForAgent (memory_env marshal sum256) = ReceiveForAgent"
  "bus_Ack (memory_env marshal sum256) = Ack" "bus_AckHistory (memory_env marshal sum256) = AckHistory"
  by (simp_all add: memory_env_def)

lemma checksum_payload: "te_Payload e = te_Payload f \<Longrightarrow> payloadChecksum E e = payloadChecksum E f"
  by (simp add: payloadChecksum_def)

definition mailbox :: "string \<Rightarrow> (MessageBus, 'm) Orchestrator \<Rightarrow> TaskEnvelope list" where
  "mailbox agentID o' = mb_queues (sv_messageBus (or_delivery o')) (AgentTopic agentID)"

lemma Ack_queues [simp]: "mb_queues (snd (Ack i st rb reason b)) = mb_queues b" "ma_Reason (fst (Ack i st rb reason b)) = reason"
    "ma_AckStatus (fst (Ack i st rb reason b)) = st"
  by (simp_all add: Ack_def Let_def)

lemma send_queue:
  assumes "te_MaxHops e \<le> 0 \<or> te_HopCount e < te_MaxHops e"
  shows "mb_queues (snd (SendEnvelope e b)) (AgentTopic (te_TargetAgent e)) =
    mb_queues b (AgentTopic (te_TargetAgent e)) @ [e\<lparr>te_HopCount := te_HopCount e + 1\<rparr>]"
proof -
  have hops: "\<not> (te_MaxHops e > 0 \<and> te_HopCount e \<ge> te_MaxHops e)" using assms by auto
  show ?thesis unfolding SendEnvelope_def if_not_P [OF hops]
    by (simp add: Publish_def queueSignal_def notifyQueueSignal_def Let_def split: option.split)
qed

text \<open>The dispatch of an envelope and the fetch of one envelope from the mailbox of the agent.\<close>

lemma dispatch_effect:
  fixes marshal sum256
  defines "E \<equiv> memory_env marshal sum256"
  assumes "te_MaxHops envelope \<le> 0 \<or> te_HopCount envelope < te_MaxHops envelope"
    and "Dispatch E now envelope s = (snap, s')"
  shows "\<exists>e. te_Payload e = te_Payload envelope \<and> te_TaskID e = te_TaskID envelope \<and>
      mb_queues (sv_messageBus s') (AgentTopic (te_TargetAgent envelope)) =
        mb_queues (sv_messageBus s) (AgentTopic (te_TargetAgent envelope)) @ [e]"
    "\<exists>r. sv_records s' (te_TaskID envelope) = Some r \<and> dr_PayloadChecksum r = payloadChecksum E envelope"
proof -
  let ?e = "if te_CreatedAt envelope = zero_time then envelope\<lparr>te_CreatedAt := now\<rparr> else envelope"
  have e: "te_Payload ?e = te_Payload envelope" "te_TaskID ?e = te_TaskID envelope" "te_TargetAgent ?e = te_TargetAgent envelope"
    "te_MaxHops ?e = te_MaxHops envelope" "te_HopCount ?e = te_HopCount envelope" by simp_all
  have bus: "sv_messageBus s' = snd (SendEnvelope ?e (sv_messageBus s))"
    using assms(3) by (auto simp: Dispatch_def E_def Let_def split_def)
  show "\<exists>f. te_Payload f = te_Payload envelope \<and> te_TaskID f = te_TaskID envelope \<and>
      mb_queues (sv_messageBus s') (AgentTopic (te_TargetAgent envelope)) =
        mb_queues (sv_messageBus s) (AgentTopic (te_TargetAgent envelope)) @ [f]"
    using send_queue [of ?e "sv_messageBus s"] assms(2) unfolding bus e
    by (intro exI [of _ "?e\<lparr>te_HopCount := te_HopCount envelope + 1\<rparr>"]) auto
  show "\<exists>r. sv_records s' (te_TaskID envelope) = Some r \<and> dr_PayloadChecksum r = payloadChecksum E envelope"
    using assms(3) by (auto simp: Dispatch_def Let_def split_def payloadChecksum_def)
qed

lemma fetch_effect:
  fixes marshal sum256
  defines "E \<equiv> memory_env marshal sum256"
  assumes "mb_queues (sv_messageBus s) (AgentTopic agentID) = head # rest" "sv_records s k = Some r"
    and "FetchAgentMailbox E now agentID 1 s = (payloads, s')"
  shows "payloads = [head]" "mb_queues (sv_messageBus s') (AgentTopic agentID) = rest"
    "\<exists>r'. sv_records s' k = Some r' \<and> dr_PayloadChecksum r' = dr_PayloadChecksum r"
  using assms(2-)
  by (auto simp: FetchAgentMailbox_def E_def ReceiveForAgent_def Consume_def Let_def split: option.splits)

lemma confirm_effect:
  fixes marshal sum256
  defines "E \<equiv> memory_env marshal sum256"
  assumes "sv_records s k = Some r" "payloadChecksum E head = dr_PayloadChecksum r"
  shows "\<exists>s' r'. ConfirmPayload E now k a head s = (True, s') \<and> sv_records s' k = Some r' \<and> dr_PayloadValidated r' \<and>
    mb_queues (sv_messageBus s') = mb_queues (sv_messageBus s)"
  using assms(2-) by (simp add: ConfirmPayload_def SupervisorAck_def ackRecord_def E_def isTerminalStatus_def Let_def split_def)

lemma establish_effect:
  fixes marshal sum256
  defines "E \<equiv> memory_env marshal sum256"
  assumes "sv_records s k = Some r" "dr_PayloadValidated r"
  shows "\<exists>ack s'. EstablishDelivery E now k a s = (ack, s') \<and> ma_AckStatus ack = AckStatusReceived \<and>
    mb_queues (sv_messageBus s') = mb_queues (sv_messageBus s)"
  using assms(2-) by (simp add: EstablishDelivery_def E_def Let_def split_def)

lemma ack_effect: "mb_queues (sv_messageBus (snd (SupervisorAck (memory_env marshal sum256) now k st a reason s))) = mb_queues (sv_messageBus s)"
  by (simp add: SupervisorAck_def Let_def split_def split: option.split)

lemma delivery_decided:
  fixes marshal sum256
  defines "E \<equiv> memory_env marshal sum256"
  assumes "ke_delivery X = E" "te_TargetAgent envelope = agentID"
    and "te_MaxHops envelope \<le> 0 \<or> te_HopCount envelope < te_MaxHops envelope"
    and "preparePeerDelivery X now envelope agentID o' = (res, o1)"
  shows "\<exists>e. te_Payload e = te_Payload envelope \<and> mailbox agentID o1 = tl (mailbox agentID o' @ [e]) \<and>
    ((\<exists>st. res = Inr st) \<longleftrightarrow> payloadChecksum E (hd (mailbox agentID o' @ [e])) = payloadChecksum E envelope)"
proof -
  let ?k = "te_TaskID envelope"
  obtain snap s1 where d: "Dispatch E now envelope (or_delivery o') = (snap, s1)" by force
  obtain e r where e: "te_Payload e = te_Payload envelope"
      "mb_queues (sv_messageBus s1) (AgentTopic agentID) = mailbox agentID o' @ [e]"
    and r: "sv_records s1 ?k = Some r" "dr_PayloadChecksum r = payloadChecksum E envelope"
    using dispatch_effect [OF assms(4), of marshal sum256 now "or_delivery o'"] d assms(3) by (auto simp: E_def mailbox_def)
  obtain head rest where q: "mailbox agentID o' @ [e] = head # rest" by (cases "mailbox agentID o'") auto
  obtain ps s2 where f: "FetchAgentMailbox E now agentID 1 s1 = (ps, s2)" by force
  note fe = fetch_effect [of s1 agentID head rest ?k r marshal sum256 now, folded E_def, OF _ r(1) f]
  have ps: "ps = [head]" and rest: "mb_queues (sv_messageBus s2) (AgentTopic agentID) = rest"
    and rec: "\<exists>r'. sv_records s2 ?k = Some r' \<and> dr_PayloadChecksum r' = dr_PayloadChecksum r"
    using fe e(2) q by simp_all
  then obtain r2 where r2: "sv_records s2 ?k = Some r2" "dr_PayloadChecksum r2 = payloadChecksum E envelope" using r(2) by auto
  have "mailbox agentID o1 = rest \<and> ((\<exists>st. res = Inr st) \<longleftrightarrow> payloadChecksum E head = payloadChecksum E envelope)"
  proof (cases "payloadChecksum E head = payloadChecksum E envelope")
    case True
    obtain s3 r3 where 3: "ConfirmPayload E now ?k agentID head s2 = (True, s3)" "sv_records s3 ?k = Some r3" "dr_PayloadValidated r3"
        "mb_queues (sv_messageBus s3) = mb_queues (sv_messageBus s2)"
      using confirm_effect [of s2 ?k r2 marshal sum256 head now agentID] r2 True by (auto simp: E_def)
    obtain ack s4 where 4: "EstablishDelivery E now ?k agentID s3 = (ack, s4)" "ma_AckStatus ack = AckStatusReceived"
        "mb_queues (sv_messageBus s4) = mb_queues (sv_messageBus s3)"
      using establish_effect [OF 3(2,3), of marshal sum256 now agentID] by (auto simp: E_def)
    show ?thesis using assms(5) d f rest True 3(1,4) 4 ack_effect [of marshal sum256 now ?k AckStatusAccepted agentID "''execution_started''" s4]
      by (auto simp: preparePeerDelivery_def assms(2) onDelivery_def AckDelivery_def ps E_def mailbox_def Let_def split_def)
  next
    case False
    then show ?thesis using assms(5) d f r2 rest
      by (auto simp: preparePeerDelivery_def assms(2) onDelivery_def AckDelivery_def ps ConfirmPayload_def SupervisorAck_def
          E_def mailbox_def Let_def split_def)
  qed
  then show ?thesis using e(1) q by (intro exI [of _ e]) simp
qed

text \<open>An agent whose mailbox is empty gets the envelope that is delivered to it, and its mailbox is empty again.\<close>

theorem empty_mailbox_delivers:
  assumes "ke_delivery X = memory_env marshal sum256" "te_TargetAgent envelope = agentID"
    and "te_MaxHops envelope \<le> 0 \<or> te_HopCount envelope < te_MaxHops envelope" "mailbox agentID o' = []"
  shows "\<exists>state o1. preparePeerDelivery X now envelope agentID o' = (Inr state, o1) \<and> mailbox agentID o1 = []"
proof -
  obtain res o1 where p: "preparePeerDelivery X now envelope agentID o' = (res, o1)" by force
  obtain e where "te_Payload e = te_Payload envelope" "mailbox agentID o1 = []"
      "(\<exists>st. res = Inr st) \<longleftrightarrow> payloadChecksum (memory_env marshal sum256) e = payloadChecksum (memory_env marshal sum256) envelope"
    using delivery_decided [OF assms(1-3) p] assms(4) by auto
  then show ?thesis using p checksum_payload by metis
qed

fun deliverAll :: "('b, 'm) kernel_env \<Rightarrow> time \<Rightarrow> string \<Rightarrow> TaskEnvelope list \<Rightarrow> ('b, 'm) Orchestrator
    \<Rightarrow> (string + DeliverySnapshot option) list \<times> ('b, 'm) Orchestrator" where
  "deliverAll X now agentID [] o' = ([], o')"
| "deliverAll X now agentID (envelope # envelopes) o' =
     (let (res, o') = preparePeerDelivery X now envelope agentID o';
          (rest, o') = deliverAll X now agentID envelopes o'
      in (res # rest, o'))"

text \<open>C13. A delivery takes whatever lies first in the mailbox of the agent, not the envelope it has just sent. One
  envelope left in the mailbox therefore makes every later delivery to the agent fail: each takes the
  envelope of the one before, whose checksum differs from its own, and leaves its own envelope behind.\<close>

theorem stale_envelope_blocks_the_agent:
  assumes "ke_delivery X = memory_env marshal sum256" "mailbox agentID o' = [stale]"
    and "\<forall>e \<in> set envelopes. te_TargetAgent e = agentID \<and> te_HopCount e < te_MaxHops e"
    and "distinct_adj (map (payloadChecksum (memory_env marshal sum256)) (stale # envelopes))"
    and "deliverAll X now agentID envelopes o' = (results, o'')"
  shows "length results = length envelopes \<and> (\<forall>res \<in> set results. \<exists>err. res = Inl err) \<and> length (mailbox agentID o'') = 1"
  using assms(2-)
proof (induction envelopes arbitrary: stale o' results o'')
  case Nil
  then show ?case by simp
next
  case (Cons envelope envelopes)
  let ?E = "memory_env marshal sum256"
  obtain res o1 where p: "preparePeerDelivery X now envelope agentID o' = (res, o1)" by force
  obtain rest o2 where d: "deliverAll X now agentID envelopes o1 = (rest, o2)" by force
  have out: "results = res # rest" "o'' = o2" using Cons.prems(4) by (simp_all add: p d)
  have env: "te_TargetAgent envelope = agentID" "te_MaxHops envelope \<le> 0 \<or> te_HopCount envelope < te_MaxHops envelope"
    using Cons.prems(2) by simp_all
  obtain e where e: "te_Payload e = te_Payload envelope" "mailbox agentID o1 = [e]"
      "(\<exists>st. res = Inr st) \<longleftrightarrow> payloadChecksum ?E stale = payloadChecksum ?E envelope"
    using delivery_decided [OF assms(1) env p] Cons.prems(1) by auto
  have ne: "payloadChecksum ?E stale \<noteq> payloadChecksum ?E envelope" using Cons.prems(3) by simp
  then have inl: "\<exists>err. res = Inl err" using e(3) by (cases res) auto
  have "distinct_adj (map (payloadChecksum ?E) (e # envelopes))"
    using Cons.prems(3) checksum_payload [OF e(1), of ?E] by simp
  then show ?case using Cons.IH [OF e(2) _ _ d] Cons.prems(2) inl out by simp
qed

section \<open>Witnesses\<close>

definition example_kernel :: "(MessageBus, unit) kernel_env" where
  "example_kernel = \<lparr>ke_delivery = memory_env tp_Objective (\<lambda>text. text), ke_canAccept = (\<lambda>_ _. True),
     ke_parseFloat = (\<lambda>_. None), ke_LoadMemoryContext = (\<lambda>_ _ _ _ m. ([], m)), ke_GetSessionState = (\<lambda>_ _ _. None),
     ke_SaveSessionState = (\<lambda>_ _ _ _ _ m. m), ke_RecordModelUsage = (\<lambda>_ _ _ m. m), ke_RecordHardStop = (\<lambda>_ _ _ m. m),
     ke_RecordPeerExchange = (\<lambda>_ _ _ _ m. m), ke_persistExecutionState = (\<lambda>_ _ _ _ _ m. m),
     ke_acquireExecutionSlots = (\<lambda>_ _ _. Inl ''context canceled''),
     ke_executeAgent = (\<lambda>task acceptance agent m. ((task, failedAttemptResult 0 task acceptance (ag_Info agent) [], 0), m))\<rparr>"

definition example_orchestrator :: "(MessageBus, unit) Orchestrator" where
  "example_orchestrator = \<lparr>or_router = example_router, or_delivery = NewSupervisor NewMessageBus 0, or_memory = (), or_events = []\<rparr>"

lemma example_agentCount: "agentCount example_orchestrator = 1"
  unfolding agentCount_def example_orchestrator_def by code_simp

theorem p2p_tries_each_agent_once_witness:
  "case executeTaskP2P example_kernel 2 zero_Task router_plan (zero_TaskAcceptance\<lparr>ta_AgentID := ''a1''\<rparr>) router_agent
     example_orchestrator of
     ((acc, task', result), o') \<Rightarrow> ta_AgentID acc = ''a1'' \<and> map_of (t_RoutingHints task') ''p2p_attempt'' = Some (AnyInt 1)"
proof -
  let ?acc = "zero_TaskAcceptance\<lparr>ta_AgentID := ''a1''\<rparr>"
  obtain acc task' result o' where run: "executeTaskP2P example_kernel 2 zero_Task router_plan ?acc router_agent example_orchestrator =
      ((acc, task', result), o')" by (metis surj_pair)
  have ok: "router_ok (or_router example_orchestrator)" using example_router_ok by (simp add: example_orchestrator_def)
  have id: "ta_AgentID ?acc = ai_ID (ag_Info router_agent)" by (simp add: router_agent_def)
  show ?thesis
    using p2p_tries_each_agent_once [OF ok id run] id unfolding example_agentCount run by auto
qed

definition example_letter :: "string \<Rightarrow> TaskEnvelope" where
  "example_letter objective = zero_TaskEnvelope\<lparr>te_TaskID := objective, te_TargetAgent := ''a1'', te_MaxHops := 1,
     te_Payload := zero_TaskPayload\<lparr>tp_Objective := objective\<rparr>\<rparr>"

theorem empty_mailbox_delivers_witness:
  "\<exists>state o1. preparePeerDelivery example_kernel 2 (example_letter ''x'') ''a1'' example_orchestrator = (Inr state, o1)"
  using empty_mailbox_delivers [of example_kernel tp_Objective "\<lambda>text. text" "example_letter ''x''" "''a1''" example_orchestrator 2]
  by (auto simp: example_kernel_def example_letter_def zero_TaskEnvelope_def mailbox_def example_orchestrator_def NewSupervisor_def NewMessageBus_def)

theorem stale_envelope_blocks_the_agent_witness:
  "\<exists>err1 err2. fst (deliverAll example_kernel 2 ''a1'' [example_letter ''x'', example_letter ''y'']
     (example_orchestrator\<lparr>or_delivery := NewSupervisor (Publish (AgentTopic ''a1'') (example_letter ''w'') NewMessageBus) 0\<rparr>)) =
       [Inl err1, Inl err2]"
proof -
  let ?o = "example_orchestrator\<lparr>or_delivery := NewSupervisor (Publish (AgentTopic ''a1'') (example_letter ''w'') NewMessageBus) 0\<rparr>"
  let ?es = "[example_letter ''x'', example_letter ''y'']"
  obtain results o'' where d: "deliverAll example_kernel 2 ''a1'' ?es ?o = (results, o'')" by force
  have "mailbox ''a1'' ?o = [example_letter ''w'']"
    by (simp add: mailbox_def NewSupervisor_def Publish_def queueSignal_def notifyQueueSignal_def NewMessageBus_def Let_def)
  moreover have "\<forall>e \<in> set ?es. te_TargetAgent e = ''a1'' \<and> te_HopCount e < te_MaxHops e"
    by (simp add: example_letter_def zero_TaskEnvelope_def)
  moreover have "distinct_adj (map (payloadChecksum (memory_env tp_Objective (\<lambda>text. text))) (example_letter ''w'' # ?es))"
    by code_simp
  ultimately have "length results = 2" "\<forall>res \<in> set results. \<exists>err. res = Inl err"
    using stale_envelope_blocks_the_agent [of example_kernel, OF _ _ _ _ d] by (auto simp: example_kernel_def)
  then show ?thesis unfolding d fst_conv by (auto simp: length_Suc_conv numeral_2_eq_2)
qed

end
