(* ===== verification/SubmissionScheduler.thy ===== *)
theory SubmissionScheduler
  imports TaskPolicy
begin

text \<open>
  The fair queue in front of the submission workers, \<open>submissionScheduler\<close> of
  \<open>go-core/internal/kernel/orchestrator.go\<close>: tasks are queued per session and branch, a limited
  number of tasks of one group is in flight at a time, and the next task is the first of the group
  whose first task has the highest score. The two channels of capacity 1 that wake the workers and
  the filler are booleans. The methods hold the mutex for one critical section, which is a function
  here; the goroutines are program counters that run these sections in any order. A
  \<open>delivery.TaskDelivery\<close> is its task with a tag that identifies its \<open>Ack\<close> and \<open>Nack\<close>;
  \<open>fmt.Sprint\<close> is the argument \<open>sprint\<close>.
\<close>

section \<open>Groups and scores\<close>

record TaskDelivery =
  td_Task :: Task
  td_Tag :: nat

record scheduledSubmission =
  ss_delivery :: TaskDelivery
  ss_groupKey :: string
  ss_enqueued :: time

definition routingHintString :: "(any \<Rightarrow> string) \<Rightarrow> go_map \<Rightarrow> string \<Rightarrow> string" where
  "routingHintString sprint hints key =
     (case map_of hints key of
        None \<Rightarrow> []
      | Some AnyNil \<Rightarrow> []
      | Some value \<Rightarrow> TrimSpace (sprint value))"

definition executionContractString :: "(any \<Rightarrow> string) \<Rightarrow> go_map \<Rightarrow> string \<Rightarrow> string" where
  "executionContractString sprint contract key =
     (case map_of contract key of
        None \<Rightarrow> []
      | Some AnyNil \<Rightarrow> []
      | Some value \<Rightarrow> TrimSpace (sprint value))"

definition submissionBranchKey :: "(any \<Rightarrow> string) \<Rightarrow> Task \<Rightarrow> string" where
  "submissionBranchKey sprint task =
     firstNonEmptyString
       [TrimSpace (t_BranchID task),
        routingHintString sprint (t_RoutingHints task) ''cluster_id'',
        routingHintString sprint (t_RoutingHints task) ''branch_id'',
        routingHintString sprint (t_RoutingHints task) ''plan_step_id'',
        executionContractString sprint (t_ExecutionContract task) ''cluster_id'',
        executionContractString sprint (t_ExecutionContract task) ''branch_id'',
        executionContractString sprint (t_ExecutionContract task) ''plan_step_id'']"

definition submissionGroupKey :: "(any \<Rightarrow> string) \<Rightarrow> Task \<Rightarrow> string" where
  "submissionGroupKey sprint task =
     (let branchKey = submissionBranchKey sprint task in
      if t_SessionID task \<noteq> [] then
        (if branchKey \<noteq> [] then t_SessionID task @ ''::'' @ branchKey else t_SessionID task)
      else if branchKey \<noteq> [] then branchKey
      else if t_ParentTaskID task \<noteq> [] then t_ParentTaskID task
      else if t_ID task \<noteq> [] then t_ID task
      else ''default'')"

fun priorityWeight :: "Priority \<Rightarrow> rat" where
  "priorityWeight PriorityLow = 10"
| "priorityWeight PriorityNormal = 20"
| "priorityWeight PriorityHigh = 30"
| "priorityWeight PriorityCritical = 40"
| "priorityWeight (PriorityOther _) = 0"

fun complexityBoost :: "Complexity \<Rightarrow> rat" where
  "complexityBoost ComplexityLow = 6"
| "complexityBoost ComplexityMedium = 4"
| "complexityBoost ComplexityHigh = 2"
| "complexityBoost ComplexityCritical = 0"
| "complexityBoost (ComplexityOther _) = 0"

definition minFloat :: "rat \<Rightarrow> rat \<Rightarrow> rat" where
  "minFloat a b = (if a < b then a else b)"

definition scoreScheduledTask :: "time \<Rightarrow> scheduledSubmission \<Rightarrow> rat" where
  "scoreScheduledTask now item =
     (let task = td_Task (ss_delivery item);
          score = priorityWeight (t_Priority task) + complexityBoost (t_Complexity task);
          score = (if score = 0 then priorityWeight PriorityNormal + complexityBoost ComplexityLow else score);
          ageSeconds = of_int (now - ss_enqueued item) / of_int second
      in if ageSeconds > 0 then score + minFloat (ageSeconds / 2) 25 else score)"

definition submissionBufferSize :: "int \<Rightarrow> int" where
  "submissionBufferSize concurrency = max ((if concurrency \<le> 0 then 1 else concurrency) * 4) 16"

definition submissionMaxInFlightPerGroup :: "(string \<Rightarrow> string) \<Rightarrow> int" where
  "submissionMaxInFlightPerGroup getenv = envInt getenv ''GO_CORE_MAX_INFLIGHT_PER_SESSION'' 1"

section \<open>The scheduler\<close>

record submissionScheduler =
  sq_wake :: bool
  sq_space :: bool
  sq_queues :: "string \<rightharpoonup> scheduledSubmission list"
  sq_order :: "string list"
  sq_inflight :: "string \<Rightarrow> int"
  sq_maxBuffered :: int
  sq_maxInFlightPerGroup :: int
  sq_totalPending :: int
  sq_cursor :: nat

definition newSubmissionScheduler :: "int \<Rightarrow> int \<Rightarrow> submissionScheduler" where
  "newSubmissionScheduler maxBuffered maxInFlightPerGroup =
     \<lparr>sq_wake = False, sq_space = False, sq_queues = Map.empty, sq_order = [], sq_inflight = (\<lambda>_. 0),
      sq_maxBuffered = (if maxBuffered \<le> 0 then 16 else maxBuffered),
      sq_maxInFlightPerGroup = (if maxInFlightPerGroup \<le> 0 then 1 else maxInFlightPerGroup),
      sq_totalPending = 0, sq_cursor = 0\<rparr>"

definition notifyWake :: "submissionScheduler \<Rightarrow> submissionScheduler" where
  "notifyWake s = s\<lparr>sq_wake := True\<rparr>"

definition notifySpace :: "submissionScheduler \<Rightarrow> submissionScheduler" where
  "notifySpace s = s\<lparr>sq_space := True\<rparr>"

definition queueOf :: "submissionScheduler \<Rightarrow> string \<Rightarrow> scheduledSubmission list" where
  "queueOf s g = (case sq_queues s g of None \<Rightarrow> [] | Some q \<Rightarrow> q)"

text \<open>The critical section of \<open>enqueue\<close>: \<open>None\<close> when the buffer is full.\<close>

definition enqueueLocked :: "scheduledSubmission \<Rightarrow> submissionScheduler \<Rightarrow> submissionScheduler option" where
  "enqueueLocked item s =
     (if sq_totalPending s < sq_maxBuffered s then
        let s = (if sq_queues s (ss_groupKey item) = None
                 then s\<lparr>sq_order := sq_order s @ [ss_groupKey item]\<rparr> else s)
        in Some (s\<lparr>sq_queues := (sq_queues s)(ss_groupKey item \<mapsto> queueOf s (ss_groupKey item) @ [item]),
                   sq_totalPending := sq_totalPending s + 1\<rparr>)
      else None)"

definition scanOne ::
    "time \<Rightarrow> submissionScheduler \<Rightarrow> nat \<Rightarrow> (nat \<times> rat) option \<Rightarrow> (nat \<times> rat) option" where
  "scanOne now s orderIndex best =
     (let groupKey = sq_order s ! orderIndex in
      case queueOf s groupKey of
        [] \<Rightarrow> best
      | item # _ \<Rightarrow>
          if sq_inflight s groupKey \<ge> sq_maxInFlightPerGroup s then best
          else
            let score = scoreScheduledTask now item in
            case best of
              None \<Rightarrow> Some (orderIndex, score)
            | Some (_, bestScore) \<Rightarrow> if score > bestScore then Some (orderIndex, score) else best)"

definition scanOrder :: "time \<Rightarrow> submissionScheduler \<Rightarrow> (nat \<times> rat) option" where
  "scanOrder now s =
     (let n = length (sq_order s); start = sq_cursor s mod n in
      fold (\<lambda>offset. scanOne now s ((start + offset) mod n)) [0..<n] None)"

definition popNextLocked :: "time \<Rightarrow> submissionScheduler \<Rightarrow> scheduledSubmission option \<times> submissionScheduler" where
  "popNextLocked now s =
     (if sq_order s = [] then (None, s)
      else case scanOrder now s of
        None \<Rightarrow> (None, s)
      | Some (i, _) \<Rightarrow>
          let groupKey = sq_order s ! i; queue = queueOf s groupKey;
              item = queue ! 0;
              s' = (if length queue = 1 then
                      let order = take i (sq_order s) @ drop (i + 1) (sq_order s) in
                      s\<lparr>sq_queues := (sq_queues s)(groupKey := None), sq_order := order,
                        sq_cursor := (if order = [] then 0 else if i \<ge> length order then 0 else i)\<rparr>
                    else
                      s\<lparr>sq_queues := (sq_queues s)(groupKey \<mapsto> drop 1 queue),
                        sq_cursor := (i + 1) mod length (sq_order s)\<rparr>)
          in (Some item, s'\<lparr>sq_totalPending := sq_totalPending s' - 1,
                sq_inflight := (sq_inflight s')(groupKey := sq_inflight s' groupKey + 1)\<rparr>))"

definition doneLocked :: "string \<Rightarrow> submissionScheduler \<Rightarrow> submissionScheduler" where
  "doneLocked groupKey s =
     (if sq_inflight s groupKey > 0
      then s\<lparr>sq_inflight := (sq_inflight s)(groupKey := sq_inflight s groupKey - 1)\<rparr> else s)"

section \<open>Goroutines\<close>

text \<open>
  The loop of \<open>runSubmissionWorker\<close>: \<open>Popping\<close> is about to enter the critical section of \<open>next\<close>,
  \<open>Asleep\<close> waits on the wake channel, \<open>FreeingSpace\<close> and \<open>Waking\<close> are about to send on a
  channel, \<open>Dispatching\<close> runs the task. The filler is \<open>fillSubmissionScheduler\<close>. The state keeps
  the tasks put into the queue and the tasks taken from it, in order.
\<close>

datatype worker_pc =
    NoWorker | Popping | Asleep | FreeingSpace scheduledSubmission | Dispatching scheduledSubmission | Waking

datatype filler_pc =
    FillerIdle | Storing scheduledSubmission | AwaitingSpace scheduledSubmission | FillerWaking

record SubmissionSystem =
  sy_sched :: submissionScheduler
  sy_workers :: "nat \<Rightarrow> worker_pc"
  sy_filler :: filler_pc
  sy_enqueued :: "scheduledSubmission list"
  sy_popped :: "scheduledSubmission list"

definition submission_start :: "int \<Rightarrow> int \<Rightarrow> nat \<Rightarrow> SubmissionSystem" where
  "submission_start maxBuffered limit concurrency =
     \<lparr>sy_sched = newSubmissionScheduler maxBuffered limit,
      sy_workers = (\<lambda>w. if w < concurrency then Popping else NoWorker),
      sy_filler = FillerIdle, sy_enqueued = [], sy_popped = []\<rparr>"

inductive submission_step :: "SubmissionSystem \<Rightarrow> SubmissionSystem \<Rightarrow> bool" where
  fill_receive: "sy_filler y = FillerIdle \<Longrightarrow>
    submission_step y (y\<lparr>sy_filler := Storing \<lparr>ss_delivery = d, ss_groupKey = submissionGroupKey sprint (td_Task d),
      ss_enqueued = now\<rparr>\<rparr>)"
| fill_store: "sy_filler y = Storing item \<Longrightarrow> enqueueLocked item (sy_sched y) = Some s \<Longrightarrow>
    submission_step y (y\<lparr>sy_filler := FillerWaking, sy_sched := s, sy_enqueued := sy_enqueued y @ [item]\<rparr>)"
| fill_full: "sy_filler y = Storing item \<Longrightarrow> enqueueLocked item (sy_sched y) = None \<Longrightarrow>
    submission_step y (y\<lparr>sy_filler := AwaitingSpace item\<rparr>)"
| fill_retry: "sy_filler y = AwaitingSpace item \<Longrightarrow> sq_space (sy_sched y) \<Longrightarrow>
    submission_step y (y\<lparr>sy_filler := Storing item, sy_sched := (sy_sched y)\<lparr>sq_space := False\<rparr>\<rparr>)"
| fill_wake: "sy_filler y = FillerWaking \<Longrightarrow>
    submission_step y (y\<lparr>sy_filler := FillerIdle, sy_sched := notifyWake (sy_sched y)\<rparr>)"
| worker_pop: "sy_workers y w = Popping \<Longrightarrow> popNextLocked now (sy_sched y) = (Some item, s) \<Longrightarrow>
    submission_step y (y\<lparr>sy_workers := (sy_workers y)(w := FreeingSpace item), sy_sched := s,
      sy_popped := sy_popped y @ [item]\<rparr>)"
| worker_sleep: "sy_workers y w = Popping \<Longrightarrow> popNextLocked now (sy_sched y) = (None, s) \<Longrightarrow>
    submission_step y (y\<lparr>sy_workers := (sy_workers y)(w := Asleep), sy_sched := s\<rparr>)"
| worker_woken: "sy_workers y w = Asleep \<Longrightarrow> sq_wake (sy_sched y) \<Longrightarrow>
    submission_step y (y\<lparr>sy_workers := (sy_workers y)(w := Popping),
      sy_sched := (sy_sched y)\<lparr>sq_wake := False\<rparr>\<rparr>)"
| worker_space: "sy_workers y w = FreeingSpace item \<Longrightarrow>
    submission_step y (y\<lparr>sy_workers := (sy_workers y)(w := Dispatching item), sy_sched := notifySpace (sy_sched y)\<rparr>)"
| worker_done: "sy_workers y w = Dispatching item \<Longrightarrow>
    submission_step y (y\<lparr>sy_workers := (sy_workers y)(w := Waking),
      sy_sched := doneLocked (ss_groupKey item) (sy_sched y)\<rparr>)"
| worker_wake: "sy_workers y w = Waking \<Longrightarrow>
    submission_step y (y\<lparr>sy_workers := (sy_workers y)(w := Popping), sy_sched := notifyWake (sy_sched y)\<rparr>)"

section \<open>Choosing the next task\<close>

definition eligible :: "submissionScheduler \<Rightarrow> string \<Rightarrow> bool" where
  "eligible s g \<longleftrightarrow> queueOf s g \<noteq> [] \<and> sq_inflight s g < sq_maxInFlightPerGroup s"

definition headScore :: "time \<Rightarrow> submissionScheduler \<Rightarrow> string \<Rightarrow> rat" where
  "headScore now s g = scoreScheduledTask now (hd (queueOf s g))"

definition sched_wf :: "submissionScheduler \<Rightarrow> bool" where
  "sched_wf s \<longleftrightarrow> distinct (sq_order s) \<and> (\<forall>g. sq_queues s g \<noteq> Some []) \<and>
     set (sq_order s) = {g. queueOf s g \<noteq> []} \<and>
     (\<forall>g. \<forall>item \<in> set (queueOf s g). ss_groupKey item = g) \<and>
     sq_totalPending s = (\<Sum>g\<in>set (sq_order s). int (length (queueOf s g))) \<and>
     sq_totalPending s \<le> sq_maxBuffered s \<and> 1 \<le> sq_maxInFlightPerGroup s"

lemma scanOne_cases:
  "scanOne now s i best =
     (if eligible s (sq_order s ! i) \<and> (case best of None \<Rightarrow> True | Some (_, b) \<Rightarrow> headScore now s (sq_order s ! i) > b)
      then Some (i, headScore now s (sq_order s ! i)) else best)"
  by (cases "queueOf s (sq_order s ! i)") (auto simp: scanOne_def eligible_def headScore_def Let_def split: option.split)

definition bestOf :: "time \<Rightarrow> submissionScheduler \<Rightarrow> nat set \<Rightarrow> (nat \<times> rat) option \<Rightarrow> bool" where
  "bestOf now s I best \<longleftrightarrow>
     (case best of
        None \<Rightarrow> \<forall>i \<in> I. \<not> eligible s (sq_order s ! i)
      | Some (i, b) \<Rightarrow> i \<in> I \<and> eligible s (sq_order s ! i) \<and> b = headScore now s (sq_order s ! i) \<and>
          (\<forall>j \<in> I. eligible s (sq_order s ! j) \<longrightarrow> headScore now s (sq_order s ! j) \<le> b))"

lemma scan_fold: "bestOf now s (set is) (fold (scanOne now s) is None)"
proof (induction "is" rule: rev_induct)
  case Nil
  then show ?case by (simp add: bestOf_def)
next
  case (snoc i "is")
  then show ?case
    by (auto simp: bestOf_def scanOne_cases split: option.splits prod.splits if_splits)
qed

lemma rotation_covers:
  assumes "0 < (n::nat)"
  shows "(\<lambda>k. (m mod n + k) mod n) ` {0..<n} = {0..<n}"
proof (intro equalityI subsetI)
  fix j assume j: "j \<in> {0..<n}"
  have "m mod n \<le> n" using assms by (simp add: less_imp_le)
  then have "m mod n + (j + n - m mod n) = j + n" by simp
  then have "(m mod n + (j + n - m mod n) mod n) mod n = j" using j by (metis atLeastLessThan_iff mod_add_right_eq mod_add_self2 mod_less)
  moreover have "(j + n - m mod n) mod n \<in> {0..<n}" using assms by simp
  ultimately show "j \<in> (\<lambda>k. (m mod n + k) mod n) ` {0..<n}" by (metis image_eqI)
qed (use assms in auto)

lemma scanOrder_best:
  assumes "sq_order s \<noteq> []"
  shows "bestOf now s {0..<length (sq_order s)} (scanOrder now s)"
proof -
  let ?n = "length (sq_order s)" let ?at = "\<lambda>k. (sq_cursor s mod ?n + k) mod ?n"
  have "fold (\<lambda>k. scanOne now s (?at k)) [0..<?n] None = fold (scanOne now s) (map ?at [0..<?n]) None"
    by (simp add: fold_map comp_def)
  moreover have "set (map ?at [0..<?n]) = {0..<?n}" using rotation_covers [of ?n] assms by simp
  ultimately show ?thesis using scan_fold [of now s "map ?at [0..<?n]"] by (simp add: scanOrder_def Let_def)
qed

lemma eligible_listed: "sched_wf s \<Longrightarrow> eligible s g \<Longrightarrow> \<exists>i < length (sq_order s). sq_order s ! i = g"
  by (metis (mono_tags, lifting) eligible_def in_set_conv_nth mem_Collect_eq sched_wf_def)

lemma popNext_none:
  assumes "sched_wf s" "popNextLocked now s = (None, s')"
  shows "s' = s" "\<not> eligible s g"
proof -
  show "s' = s" using assms(2) by (auto simp: popNextLocked_def Let_def split: if_splits option.splits prod.splits)
  show "\<not> eligible s g"
  proof
    assume "eligible s g"
    then obtain i where i: "i < length (sq_order s)" "sq_order s ! i = g" using eligible_listed assms(1) by blast
    then have ne: "sq_order s \<noteq> []" by auto
    then have "scanOrder now s = None"
      using assms(2) by (auto simp: popNextLocked_def Let_def split: if_splits option.splits prod.splits)
    then show False using scanOrder_best [OF ne, of now] i \<open>eligible s g\<close> by (auto simp: bestOf_def)
  qed
qed

lemma without_nth:
  assumes "distinct xs" "i < length xs"
  shows "distinct (take i xs @ drop (Suc i) xs)" "set (take i xs @ drop (Suc i) xs) = set xs - {xs ! i}"
proof -
  have xs: "xs = take i xs @ xs ! i # drop (Suc i) xs" using assms(2) by (rule id_take_nth_drop)
  then show "distinct (take i xs @ drop (Suc i) xs)" using assms(1) by (metis distinct.simps(2) distinct_append disjoint_insert(1) list.set(2))
  have "xs ! i \<notin> set (take i xs @ drop (Suc i) xs)" using assms(1) xs by (metis distinct_append distinct.simps(2) disjoint_insert(1) list.set(2) not_in_set_insert Un_iff set_append)
  then show "set (take i xs @ drop (Suc i) xs) = set xs - {xs ! i}" using arg_cong [OF xs, of set] by auto
qed

text \<open>What is taken is the first task of an eligible group, and no eligible group has a better one.\<close>

definition takes :: "time \<Rightarrow> submissionScheduler \<Rightarrow> scheduledSubmission \<Rightarrow> submissionScheduler \<Rightarrow> string \<Rightarrow> bool" where
  "takes now s item s' g \<longleftrightarrow> eligible s g \<and> queueOf s g = item # queueOf s' g \<and>
     (\<forall>h. h \<noteq> g \<longrightarrow> queueOf s' h = queueOf s h) \<and>
     sq_inflight s' = (sq_inflight s)(g := sq_inflight s g + 1) \<and>
     sq_totalPending s' = sq_totalPending s - 1 \<and> sq_wake s' = sq_wake s \<and> sq_space s' = sq_space s \<and>
     sq_maxBuffered s' = sq_maxBuffered s \<and> sq_maxInFlightPerGroup s' = sq_maxInFlightPerGroup s \<and>
     (\<forall>h. eligible s h \<longrightarrow> headScore now s h \<le> scoreScheduledTask now item)"

lemma popNext_some:
  assumes "sched_wf s" "popNextLocked now s = (Some item, s')"
  shows "\<exists>g. takes now s item s' g" "sched_wf s'"
proof -
  have ne: "sq_order s \<noteq> []" using assms(2) by (auto simp: popNextLocked_def)
  obtain i b where i: "scanOrder now s = Some (i, b)"
    using assms(2) by (auto simp: popNextLocked_def Let_def split: if_splits option.splits)
  define g where "g = sq_order s ! i"
  have best: "i < length (sq_order s)" "eligible s g" "\<And>j. j < length (sq_order s) \<Longrightarrow> eligible s (sq_order s ! j) \<Longrightarrow>
      headScore now s (sq_order s ! j) \<le> headScore now s g"
    using scanOrder_best [OF ne, of now] by (auto simp: bestOf_def i g_def)
  then have bestg: "\<And>h. eligible s h \<Longrightarrow> headScore now s h \<le> headScore now s g" using eligible_listed [OF assms(1)] by blast
  obtain x rest where q: "queueOf s g = x # rest" using best(2) by (cases "queueOf s g") (auto simp: eligible_def)
  have res: "item = x" "sq_inflight s' = (sq_inflight s)(g := sq_inflight s g + 1)"
      "sq_totalPending s' = sq_totalPending s - 1" "sq_wake s' = sq_wake s" "sq_space s' = sq_space s"
      "sq_maxBuffered s' = sq_maxBuffered s" "sq_maxInFlightPerGroup s' = sq_maxInFlightPerGroup s"
      "sq_order s' = (if rest = [] then take i (sq_order s) @ drop (Suc i) (sq_order s) else sq_order s)"
      "sq_queues s' g = (if rest = [] then None else Some rest)" "\<And>h. h \<noteq> g \<Longrightarrow> sq_queues s' h = sq_queues s h"
    using assms(2) ne i q by (cases "rest = []"; auto simp: popNextLocked_def Let_def g_def [symmetric])+
  have qo: "queueOf s' = (queueOf s)(g := rest)"
    using res(9,10) by (auto simp: queueOf_def fun_eq_iff)
  have "takes now s item s' g"
    using best(2) q bestg res by (simp add: takes_def headScore_def qo)
  then show "\<exists>g. takes now s item s' g" by blast
  have g: "g \<in> set (sq_order s)" using best(1) by (simp add: g_def)
  have sum: "(\<Sum>h\<in>set (sq_order s). int (length (queueOf s h))) =
      int (length (queueOf s g)) + (\<Sum>h\<in>set (sq_order s) - {g}. int (length (queueOf s h)))"
    using g by (simp add: sum.remove)
  have rest: "(\<Sum>h\<in>set (sq_order s) - {g}. int (length (queueOf s' h))) = (\<Sum>h\<in>set (sq_order s) - {g}. int (length (queueOf s h)))"
    by (rule sum.cong) (simp_all add: qo)
  have wf: "distinct (sq_order s)" "set (sq_order s) = {g. queueOf s g \<noteq> []}"
    "sq_totalPending s = (\<Sum>g\<in>set (sq_order s). int (length (queueOf s g)))" "sq_totalPending s \<le> sq_maxBuffered s"
    using assms(1) unfolding sched_wf_def by blast+
  note del = without_nth [OF wf(1) best(1), folded g_def]
  have ord: "distinct (sq_order s')" "set (sq_order s') = (if rest = [] then set (sq_order s) - {g} else set (sq_order s))"
    using wf(1) del by (simp_all add: res(8))
  have total: "sq_totalPending s' = (\<Sum>h\<in>set (sq_order s'). int (length (queueOf s' h)))"
  proof (cases "rest = []")
    case True
    then show ?thesis using wf(3) sum rest ord(2) res(3) q by simp
  next
    case False
    then have "(\<Sum>h\<in>set (sq_order s'). int (length (queueOf s' h))) =
        int (length rest) + (\<Sum>h\<in>set (sq_order s) - {g}. int (length (queueOf s' h)))"
      using g ord(2) by (simp add: sum.remove qo)
    then show ?thesis using wf(3) sum rest res(3) q by simp
  qed
  show "sched_wf s'"
    unfolding sched_wf_def
  proof (intro conjI allI)
    show "sq_queues s' h \<noteq> Some []" for h
      using res(9,10) assms(1) by (cases "h = g") (auto simp: sched_wf_def)
    show "set (sq_order s') = {h. queueOf s' h \<noteq> []}" using ord(2) wf(2) q by (auto simp: qo)
    show "\<forall>item\<in>set (queueOf s' h). ss_groupKey item = h" for h
      using assms(1) q by (auto simp: qo sched_wf_def)
    show "sq_totalPending s' \<le> sq_maxBuffered s'" using wf(4) by (simp add: res(3,6))
  qed (use ord(1) total assms(1) in \<open>simp_all add: res(7) sched_wf_def\<close>)
qed

lemma enqueue_some:
  assumes "sched_wf s" "enqueueLocked item s = Some s'"
  shows "sched_wf s'" "queueOf s' = (queueOf s)(ss_groupKey item := queueOf s (ss_groupKey item) @ [item])"
    "sq_inflight s' = sq_inflight s" "sq_maxInFlightPerGroup s' = sq_maxInFlightPerGroup s"
    "sq_wake s' = sq_wake s" "sq_space s' = sq_space s"
proof -
  let ?g = "ss_groupKey item"
  have room: "sq_totalPending s < sq_maxBuffered s" using assms(2) by (auto simp: enqueueLocked_def split: if_splits)
  have wf: "distinct (sq_order s)" "\<And>g. sq_queues s g \<noteq> Some []" "set (sq_order s) = {g. queueOf s g \<noteq> []}"
    "\<And>g x. x \<in> set (queueOf s g) \<Longrightarrow> ss_groupKey x = g"
    "sq_totalPending s = (\<Sum>g\<in>set (sq_order s). int (length (queueOf s g)))" "1 \<le> sq_maxInFlightPerGroup s"
    using assms(1) by (simp_all add: sched_wf_def)
  have listed: "?g \<in> set (sq_order s) \<longleftrightarrow> sq_queues s ?g \<noteq> None"
    using wf(2) [of ?g] wf(3) by (auto simp: queueOf_def split: option.splits)
  have q: "sq_queues s' = (sq_queues s)(?g \<mapsto> queueOf s ?g @ [item])"
    and ord: "sq_order s' = (if ?g \<in> set (sq_order s) then sq_order s else sq_order s @ [?g])"
    and rest: "sq_totalPending s' = sq_totalPending s + 1" "sq_maxBuffered s' = sq_maxBuffered s"
    and same: "sq_inflight s' = sq_inflight s" "sq_maxInFlightPerGroup s' = sq_maxInFlightPerGroup s"
      "sq_wake s' = sq_wake s" "sq_space s' = sq_space s"
    using assms(2) listed room by (auto simp: enqueueLocked_def Let_def queueOf_def)
  show qo: "queueOf s' = (queueOf s)(?g := queueOf s ?g @ [item])"
    by (simp add: fun_eq_iff queueOf_def q)
  have others: "(\<Sum>h\<in>set (sq_order s) - {?g}. int (length (queueOf s' h))) = (\<Sum>h\<in>set (sq_order s) - {?g}. int (length (queueOf s h)))"
    by (rule sum.cong) (simp_all add: qo)
  have "(\<Sum>h\<in>set (sq_order s). int (length (queueOf s h))) =
      int (length (queueOf s ?g)) + (\<Sum>h\<in>set (sq_order s) - {?g}. int (length (queueOf s h)))"
    using sum.remove [OF finite_set, of ?g "sq_order s" "\<lambda>h. int (length (queueOf s h))"] wf(3) by (cases "?g \<in> set (sq_order s)") auto
  moreover have "set (sq_order s') = insert ?g (set (sq_order s))" by (auto simp: ord)
  then have "(\<Sum>h\<in>set (sq_order s'). int (length (queueOf s' h))) =
      int (length (queueOf s' ?g)) + (\<Sum>h\<in>set (sq_order s) - {?g}. int (length (queueOf s' h)))"
    by (simp add: sum.insert_remove)
  ultimately have total: "sq_totalPending s' = (\<Sum>h\<in>set (sq_order s'). int (length (queueOf s' h)))"
    using wf(5) rest(1) others by (simp add: qo)
  show "sched_wf s'"
    unfolding sched_wf_def
  proof (intro conjI allI ballI)
    show "sq_queues s' h \<noteq> Some []" for h using wf(2) by (auto simp: q)
    show "set (sq_order s') = {h. queueOf s' h \<noteq> []}" using wf(3) by (auto simp: ord qo)
    show "ss_groupKey x = h" if "x \<in> set (queueOf s' h)" for h x using that wf(4) by (auto simp: qo split: if_splits)
  qed (use wf(1,6) room total in \<open>simp_all add: ord rest same\<close>)
  show "sq_inflight s' = sq_inflight s" "sq_maxInFlightPerGroup s' = sq_maxInFlightPerGroup s"
    "sq_wake s' = sq_wake s" "sq_space s' = sq_space s" by (rule same)+
qed

lemma queueOf_simps [simp]:
  "queueOf (s\<lparr>sq_wake := b\<rparr>) = queueOf s" "queueOf (s\<lparr>sq_space := b\<rparr>) = queueOf s"
  "queueOf (s\<lparr>sq_inflight := f\<rparr>) = queueOf s"
  by (simp_all add: fun_eq_iff queueOf_def)

lemma sched_wf_simps [simp]:
  "sched_wf (s\<lparr>sq_wake := b\<rparr>) = sched_wf s" "sched_wf (s\<lparr>sq_space := b\<rparr>) = sched_wf s"
  "sched_wf (s\<lparr>sq_inflight := f\<rparr>) = sched_wf s"
  by (simp_all add: sched_wf_def)

lemma eligible_simps [simp]:
  "eligible (s\<lparr>sq_wake := b\<rparr>) g = eligible s g" "eligible (s\<lparr>sq_space := b\<rparr>) g = eligible s g"
  by (simp_all add: eligible_def)

section \<open>Invariants of the goroutines\<close>

definition holds :: "string \<Rightarrow> worker_pc \<Rightarrow> bool" where
  "holds g pc \<longleftrightarrow> (case pc of FreeingSpace item \<Rightarrow> ss_groupKey item = g | Dispatching item \<Rightarrow> ss_groupKey item = g | _ \<Rightarrow> False)"

definition ofGroup :: "string \<Rightarrow> scheduledSubmission list \<Rightarrow> scheduledSubmission list" where
  "ofGroup g items = filter (\<lambda>item. ss_groupKey item = g) items"

definition submission_inv :: "SubmissionSystem \<Rightarrow> bool" where
  "submission_inv y \<longleftrightarrow> sched_wf (sy_sched y) \<and> finite {w. sy_workers y w \<noteq> NoWorker} \<and>
     (\<forall>g. int (card {w. holds g (sy_workers y w)}) = sq_inflight (sy_sched y) g) \<and>
     (\<forall>g. sq_inflight (sy_sched y) g \<le> sq_maxInFlightPerGroup (sy_sched y)) \<and>
     (\<forall>g. ofGroup g (sy_popped y) @ queueOf (sy_sched y) g = ofGroup g (sy_enqueued y))"

lemma holds_simps [simp]:
  "\<not> holds g NoWorker" "\<not> holds g Popping" "\<not> holds g Asleep" "\<not> holds g Waking"
  "holds g (FreeingSpace item) \<longleftrightarrow> ss_groupKey item = g" "holds g (Dispatching item) \<longleftrightarrow> ss_groupKey item = g"
  by (simp_all add: holds_def)

lemma card_holds:
  assumes "finite {w. f w \<noteq> NoWorker}"
  shows "int (card {v. holds g ((f(w := pc)) v)}) =
    int (card {v. holds g (f v)}) - (if holds g (f w) then 1 else 0) + (if holds g pc then 1 else 0)"
proof -
  let ?A = "{v. v \<noteq> w \<and> holds g (f v)}"
  have fin: "finite ?A" by (rule finite_subset [OF _ assms]) auto
  have "{v. holds g ((f(w := p)) v)} = (if holds g p then insert w ?A else ?A)" for p by auto
  then have "int (card {v. holds g ((f(w := p)) v)}) = int (card ?A) + (if holds g p then 1 else 0)" for p
    using fin by simp
  from this [of pc] this [of "f w"] show ?thesis by simp
qed

lemma finite_workers: "finite {w. f w \<noteq> NoWorker} \<Longrightarrow> finite {w. (f(v := pc)) w \<noteq> NoWorker}"
  by (rule finite_subset [of _ "insert v {w. f w \<noteq> NoWorker}"]) auto

lemma submission_inv_worker:
  assumes "submission_inv y" "\<And>g. holds g pc = holds g (sy_workers y w)"
    "sched_wf s" "sq_inflight s = sq_inflight (sy_sched y)" "queueOf s = queueOf (sy_sched y)"
    "sq_maxInFlightPerGroup s = sq_maxInFlightPerGroup (sy_sched y)"
  shows "submission_inv (y\<lparr>sy_workers := (sy_workers y)(w := pc), sy_sched := s\<rparr>)"
  using assms(1) by (simp add: submission_inv_def assms(2-) card_holds finite_workers del: fun_upd_apply)

lemma submission_inv_step:
  assumes "submission_step y z" "submission_inv y"
  shows "submission_inv z"
  using assms
proof (induction rule: submission_step.induct)
  case (fill_store y item s)
  then have inv: "submission_inv y" and wf: "sched_wf (sy_sched y)" by (simp_all add: submission_inv_def)
  note en = enqueue_some [OF wf fill_store(2)]
  show ?case using inv en by (auto simp: submission_inv_def ofGroup_def)
next
  case (worker_pop y w now item s)
  then have inv: "submission_inv y" and wf: "sched_wf (sy_sched y)" by (simp_all add: submission_inv_def)
  note ps = popNext_some [OF wf worker_pop(2)]
  then obtain g where t: "takes now (sy_sched y) item s g" by blast
  have key: "ss_groupKey item = g" using t wf by (auto simp: takes_def sched_wf_def)
  have fifo: "ofGroup h (sy_popped y @ [item]) @ queueOf s h = ofGroup h (sy_enqueued y)" for h
  proof -
    have "ofGroup h (sy_popped y) @ queueOf (sy_sched y) h = ofGroup h (sy_enqueued y)" using inv by (simp add: submission_inv_def)
    then show ?thesis using t key by (cases "h = g") (simp_all add: takes_def ofGroup_def)
  qed
  have lim: "sq_inflight s h \<le> sq_maxInFlightPerGroup s" for h
    using inv t by (auto simp: submission_inv_def takes_def eligible_def)
  have cnt: "int (card {v. holds h (((sy_workers y)(w := FreeingSpace item)) v)}) = sq_inflight s h" for h
    using inv t key worker_pop(1) card_holds [of "sy_workers y" h w "FreeingSpace item"]
    by (auto simp: submission_inv_def takes_def simp del: fun_upd_apply) (simp_all add: fun_upd_apply)
  show ?case using inv ps(2) fifo lim cnt by (simp add: submission_inv_def finite_workers del: fun_upd_apply)
next
  case (worker_sleep y w now s)
  then have wf: "sched_wf (sy_sched y)" by (simp add: submission_inv_def)
  show ?case using worker_sleep popNext_none(1) [OF wf worker_sleep(2)] wf by (intro submission_inv_worker) simp_all
next
  case (worker_done y w item)
  then have inv: "submission_inv y" by simp
  let ?g = "ss_groupKey item"
  have fin: "finite {v. holds ?g (sy_workers y v)}"
    by (rule finite_subset [of _ "{w. sy_workers y w \<noteq> NoWorker}"]) (use inv in \<open>auto simp: submission_inv_def\<close>)
  have "w \<in> {v. holds ?g (sy_workers y v)}" using worker_done(1) by simp
  then have "0 < card {v. holds ?g (sy_workers y v)}" using fin card_gt_0_iff by blast
  moreover have "int (card {v. holds ?g (sy_workers y v)}) = sq_inflight (sy_sched y) ?g" using inv by (simp add: submission_inv_def)
  ultimately have pos: "0 < sq_inflight (sy_sched y) ?g" by linarith
  have cnt: "int (card {v. holds h (((sy_workers y)(w := Waking)) v)}) =
      ((sq_inflight (sy_sched y))(?g := sq_inflight (sy_sched y) ?g - 1)) h" for h
    using inv worker_done(1) by (simp add: submission_inv_def card_holds del: fun_upd_apply) (simp add: fun_upd_apply)
  have s: "doneLocked ?g (sy_sched y) = (sy_sched y)\<lparr>sq_inflight := (sq_inflight (sy_sched y))(?g := sq_inflight (sy_sched y) ?g - 1)\<rparr>"
    using pos by (simp add: doneLocked_def)
  have lim: "((sq_inflight (sy_sched y))(?g := sq_inflight (sy_sched y) ?g - 1)) h \<le> sq_maxInFlightPerGroup (sy_sched y)" for h
  proof -
    have "sq_inflight (sy_sched y) h \<le> sq_maxInFlightPerGroup (sy_sched y)" using inv by (simp add: submission_inv_def)
    then show ?thesis by auto
  qed
  show ?case using inv cnt lim unfolding s by (simp add: submission_inv_def finite_workers del: fun_upd_apply)
next
  case (worker_woken y w)
  then show ?case by (intro submission_inv_worker) (simp_all add: submission_inv_def)
next
  case (worker_space y w item)
  then show ?case by (intro submission_inv_worker) (simp_all add: submission_inv_def notifySpace_def)
next
  case (worker_wake y w)
  then show ?case by (intro submission_inv_worker) (simp_all add: submission_inv_def notifyWake_def)
qed (simp_all add: submission_inv_def notifyWake_def)

text \<open>
  Wake-ups: while a group is eligible, the wake channel holds its token, or the filler is about to
  send it, or a worker is awake. Space: when the filler waits although there is room, the space
  channel holds its token or a worker is about to send it.
\<close>

definition awake :: "SubmissionSystem \<Rightarrow> bool" where
  "awake y \<longleftrightarrow> sq_wake (sy_sched y) \<or> sy_filler y = FillerWaking \<or> (\<exists>w. sy_workers y w \<notin> {NoWorker, Asleep})"

definition space_known :: "SubmissionSystem \<Rightarrow> bool" where
  "space_known y \<longleftrightarrow> sq_space (sy_sched y) \<or> (\<exists>w item. sy_workers y w = FreeingSpace item)"

definition wake_inv :: "SubmissionSystem \<Rightarrow> bool" where
  "wake_inv y \<longleftrightarrow> (\<forall>g. eligible (sy_sched y) g \<longrightarrow> awake y) \<and>
     (\<forall>item. sy_filler y = AwaitingSpace item \<and> sq_totalPending (sy_sched y) < sq_maxBuffered (sy_sched y) \<longrightarrow> space_known y)"

lemma awake_worker: "sy_workers y w \<notin> {NoWorker, Asleep} \<Longrightarrow> awake y"
  by (auto simp: awake_def)

lemma space_known_worker:
  assumes "\<And>item. pc \<noteq> FreeingSpace item" "\<And>item. sy_workers y w \<noteq> FreeingSpace item" "sq_space s = sq_space (sy_sched y)"
  shows "space_known (y\<lparr>sy_workers := (sy_workers y)(w := pc), sy_sched := s\<rparr>) = space_known y"
proof -
  have "(\<exists>v item. ((sy_workers y)(w := pc)) v = FreeingSpace item) = (\<exists>v item. sy_workers y v = FreeingSpace item)"
    by (metis assms(1,2) fun_upd_apply)
  then show ?thesis by (simp add: space_known_def assms(3))
qed

lemma wake_inv_step:
  assumes "submission_step y z" "submission_inv y" "wake_inv y"
  shows "wake_inv z"
  using assms
proof (induction rule: submission_step.induct)
  case (worker_sleep y w now s)
  then have wf: "sched_wf (sy_sched y)" by (simp add: submission_inv_def)
  note none = popNext_none [OF wf worker_sleep(2)]
  have "space_known (y\<lparr>sy_workers := (sy_workers y)(w := Asleep), sy_sched := s\<rparr>) = space_known y"
    using worker_sleep(1) none(1) by (intro space_known_worker) (simp_all add: doneLocked_def)
  then show ?case using worker_sleep(4) none by (simp add: wake_inv_def)
next
  case (worker_pop y w now item s)
  then show ?case by (auto simp: wake_inv_def awake_def space_known_def)
next
  case (worker_woken y w)
  have "space_known (y\<lparr>sy_workers := (sy_workers y)(w := Popping), sy_sched := (sy_sched y)\<lparr>sq_wake := False\<rparr>\<rparr>) = space_known y"
    using worker_woken(1) by (intro space_known_worker) (simp_all add: doneLocked_def)
  then show ?case using worker_woken(4) by (auto simp: wake_inv_def awake_def)
next
  case (worker_done y w item)
  have "space_known (y\<lparr>sy_workers := (sy_workers y)(w := Waking), sy_sched := doneLocked (ss_groupKey item) (sy_sched y)\<rparr>) = space_known y"
    using worker_done(1) by (intro space_known_worker) (simp_all add: doneLocked_def)
  then show ?case using worker_done(3) by (auto simp: wake_inv_def awake_def doneLocked_def)
next
  case (worker_wake y w)
  have "space_known (y\<lparr>sy_workers := (sy_workers y)(w := Popping), sy_sched := notifyWake (sy_sched y)\<rparr>) = space_known y"
    using worker_wake(1) by (intro space_known_worker) (simp_all add: notifyWake_def)
  then show ?case using worker_wake(3) by (auto simp: wake_inv_def awake_def notifyWake_def)
next
  case (fill_store y item s)
  then show ?case by (auto simp: wake_inv_def awake_def)
next
  case (fill_full y item)
  then have "\<not> sq_totalPending (sy_sched y) < sq_maxBuffered (sy_sched y)" by (auto simp: enqueueLocked_def Let_def split: if_splits)
  then show ?case using fill_full by (auto simp: wake_inv_def awake_def)
qed (auto simp: wake_inv_def awake_def space_known_def notifyWake_def notifySpace_def)

section \<open>Progress\<close>

lemma submission_inv_start: "submission_inv (submission_start maxBuffered limit n)" "wake_inv (submission_start maxBuffered limit n)"
  by (simp_all add: submission_inv_def wake_inv_def submission_start_def newSubmissionScheduler_def sched_wf_def queueOf_def
      ofGroup_def eligible_def)

lemma submission_inv_run:
  assumes "submission_step\<^sup>*\<^sup>* y z" "submission_inv y" "wake_inv y"
  shows "submission_inv z \<and> wake_inv z"
  using assms by (induction rule: rtranclp_induct) (auto intro: submission_inv_step wake_inv_step)

lemma limits_kept:
  "submission_step y z \<Longrightarrow> sched_wf (sy_sched y) \<Longrightarrow> sq_maxBuffered (sy_sched z) = sq_maxBuffered (sy_sched y) \<and>
    sq_maxInFlightPerGroup (sy_sched z) = sq_maxInFlightPerGroup (sy_sched y)"
proof (induction rule: submission_step.induct)
  case (fill_store y item s)
  then show ?case by (auto simp: enqueueLocked_def Let_def split: if_splits)
next
  case (worker_pop y w now item s)
  then show ?case using popNext_some(1) [OF worker_pop(3,2)] by (auto simp: takes_def)
next
  case (worker_sleep y w now s)
  then show ?case using popNext_none(1) by fastforce
qed (simp_all add: notifyWake_def notifySpace_def doneLocked_def)

lemma workers_kept: "submission_step y z \<Longrightarrow> (sy_workers z w = NoWorker) = (sy_workers y w = NoWorker)"
  by (induction rule: submission_step.induct) auto

lemma submission_reachable:
  assumes "submission_step\<^sup>*\<^sup>* (submission_start maxBuffered limit n) y"
  shows "submission_inv y \<and> wake_inv y \<and> (\<forall>w. (sy_workers y w = NoWorker) = (n \<le> w)) \<and>
    sq_maxBuffered (sy_sched y) = (if maxBuffered \<le> 0 then 16 else maxBuffered) \<and>
    sq_maxInFlightPerGroup (sy_sched y) = (if limit \<le> 0 then 1 else limit)"
  using assms
proof (induction rule: rtranclp_induct)
  case base
  then show ?case using submission_inv_start by (simp add: submission_start_def newSubmissionScheduler_def)
next
  case (step y z)
  have "sched_wf (sy_sched y)" using step(3) by (simp add: submission_inv_def)
  then show ?case
    using step(3) submission_inv_step [OF step(2)] wake_inv_step [OF step(2)] workers_kept [OF step(2)] limits_kept [OF step(2)]
    by simp
qed

lemma eligible_done: "eligible s g \<Longrightarrow> eligible (doneLocked h s) g"
  by (auto simp: eligible_def doneLocked_def)

lemma eligible_notify [simp]: "eligible (notifyWake s) g = eligible s g" "eligible (notifySpace s) g = eligible s g"
  by (simp_all add: notifyWake_def notifySpace_def)

text \<open>A state that runs on to another with a worker about to take a task while a group is eligible.\<close>

definition onTheWay :: "string \<Rightarrow> SubmissionSystem \<Rightarrow> bool" where
  "onTheWay g y \<longleftrightarrow> (\<exists>z w. submission_step\<^sup>*\<^sup>* y z \<and> sy_workers z w = Popping \<and> eligible (sy_sched z) g \<and>
     sy_popped z = sy_popped y)"

lemma onTheWay_step:
  assumes "submission_step y z" "sy_popped z = sy_popped y" "onTheWay g z"
  shows "onTheWay g y"
  using assms by (metis converse_rtranclp_into_rtranclp onTheWay_def)

lemma popping_onTheWay: "sy_workers y w = Popping \<Longrightarrow> eligible (sy_sched y) g \<Longrightarrow> onTheWay g y"
  unfolding onTheWay_def by blast

lemma waking_onTheWay: "sy_workers y w = Waking \<Longrightarrow> eligible (sy_sched y) g \<Longrightarrow> onTheWay g y"
  by (rule onTheWay_step [OF worker_wake]) (auto intro: popping_onTheWay)

lemma dispatching_onTheWay:
  "sy_workers y w = Dispatching item \<Longrightarrow> eligible (doneLocked (ss_groupKey item) (sy_sched y)) g \<Longrightarrow> onTheWay g y"
  by (rule onTheWay_step [OF worker_done]) (auto intro: waking_onTheWay)

lemma holding_onTheWay:
  assumes "sy_workers y w = FreeingSpace item \<or> sy_workers y w = Dispatching item"
    "eligible (doneLocked (ss_groupKey item) (sy_sched y)) g"
  shows "onTheWay g y"
  using assms(1)
proof
  assume w: "sy_workers y w = FreeingSpace item"
  have "eligible (doneLocked (ss_groupKey item) (notifySpace (sy_sched y))) g"
    using assms(2) by (auto simp: eligible_def doneLocked_def notifySpace_def split: if_splits)
  then show ?thesis by (intro onTheWay_step [OF worker_space [OF w]]) (auto intro: dispatching_onTheWay)
qed (rule dispatching_onTheWay [OF _ assms(2)])

lemma token_onTheWay:
  assumes "sy_workers y w \<noteq> NoWorker" "sq_wake (sy_sched y)" "eligible (sy_sched y) g"
  shows "onTheWay g y"
proof (cases "sy_workers y w")
  case Asleep
  then show ?thesis using assms by (intro onTheWay_step [OF worker_woken [OF Asleep assms(2)]]) (auto intro: popping_onTheWay)
qed (use assms in \<open>auto intro: popping_onTheWay waking_onTheWay holding_onTheWay eligible_done\<close>)

lemma eligible_onTheWay:
  assumes "wake_inv y" "sy_workers y w \<noteq> NoWorker" "eligible (sy_sched y) g"
  shows "onTheWay g y"
proof -
  consider "sq_wake (sy_sched y)" | "sy_filler y = FillerWaking" | v where "sy_workers y v \<notin> {NoWorker, Asleep}"
    using assms(1,3) by (auto simp: wake_inv_def awake_def)
  then show ?thesis
  proof cases
    case 1
    then show ?thesis using assms(2,3) by (intro token_onTheWay)
  next
    case 2
    show ?thesis
      by (rule onTheWay_step [OF fill_wake [OF 2]])
        (use assms(2,3) in \<open>auto intro!: token_onTheWay [of _ w] simp: notifyWake_def\<close>)
  next
    case 3
    then show ?thesis
      using assms(3) by (cases "sy_workers y v") (auto intro: popping_onTheWay waking_onTheWay holding_onTheWay eligible_done)
  qed
qed

lemma pending_onTheWay:
  assumes "submission_inv y" "wake_inv y" "sy_workers y w \<noteq> NoWorker" "0 < sq_totalPending (sy_sched y)"
  shows "\<exists>g. onTheWay g y"
proof -
  let ?s = "sy_sched y"
  have wf: "sched_wf ?s" using assms(1) by (simp add: submission_inv_def)
  then have "(\<Sum>g\<in>set (sq_order ?s). int (length (queueOf ?s g))) \<noteq> 0" using assms(4) unfolding sched_wf_def by linarith
  then obtain g where q: "queueOf ?s g \<noteq> []" by (metis (no_types, lifting) list.size(3) of_nat_0 sum.neutral)
  show ?thesis
  proof (cases "eligible ?s g")
    case True
    then show ?thesis using eligible_onTheWay assms(2,3) by blast
  next
    case False
    have lim: "sq_inflight ?s g \<le> sq_maxInFlightPerGroup ?s" "1 \<le> sq_maxInFlightPerGroup ?s"
      and cnt: "int (card {v. holds g (sy_workers y v)}) = sq_inflight ?s g"
      using assms(1) wf by (auto simp: submission_inv_def sched_wf_def)
    have full: "sq_maxInFlightPerGroup ?s \<le> sq_inflight ?s g" using False q by (simp add: eligible_def)
    then have "card {v. holds g (sy_workers y v)} \<noteq> 0" using lim(2) cnt by linarith
    then obtain v where v: "holds g (sy_workers y v)" by (metis (no_types, lifting) card.empty empty_Collect_eq)
    then obtain item where item: "sy_workers y v = FreeingSpace item \<or> sy_workers y v = Dispatching item" "ss_groupKey item = g"
      by (cases "sy_workers y v") auto
    have "eligible (doneLocked (ss_groupKey item) ?s) g" using q full lim item(2) by (simp add: eligible_def doneLocked_def)
    then show ?thesis using holding_onTheWay [OF item(1)] by blast
  qed
qed

lemma onTheWay_pops:
  assumes "submission_inv y" "wake_inv y" "onTheWay g y"
  shows "\<exists>z item. submission_step\<^sup>*\<^sup>* y z \<and> sy_popped z = sy_popped y @ [item]"
proof -
  obtain z w where z: "submission_step\<^sup>*\<^sup>* y z" "sy_workers z w = Popping" "eligible (sy_sched z) g" "sy_popped z = sy_popped y"
    using assms(3) unfolding onTheWay_def by blast
  have wf: "sched_wf (sy_sched z)" using submission_inv_run [OF z(1) assms(1,2)] by (simp add: submission_inv_def)
  obtain r s where p: "popNextLocked 0 (sy_sched z) = (r, s)" by force
  then obtain item where "r = Some item" using popNext_none(2) [OF wf] z(3) by (cases r) auto
  then have "submission_step z (z\<lparr>sy_workers := (sy_workers z)(w := FreeingSpace item), sy_sched := s, sy_popped := sy_popped z @ [item]\<rparr>)"
    (is "submission_step z ?z") using worker_pop [OF z(2)] p by blast
  then have "submission_step\<^sup>*\<^sup>* y ?z" using z(1) by (rule rtranclp.rtrancl_into_rtrancl [rotated])
  then show ?thesis using z(4) by (intro exI [of _ ?z] exI [of _ item]) simp
qed

section \<open>Properties\<close>

text \<open>C3. In every interleaving the tasks of a group leave the queue in the order in which they entered it, none
  is lost and none is taken twice: the tasks taken so far, followed by those that wait, are the
  tasks that entered. The buffer never holds more than its maximum.\<close>

theorem groups_are_served_in_order:
  assumes "submission_step\<^sup>*\<^sup>* (submission_start maxBuffered limit n) y"
  shows "(\<forall>g. filter (\<lambda>item. ss_groupKey item = g) (sy_popped y) @ queueOf (sy_sched y) g =
        filter (\<lambda>item. ss_groupKey item = g) (sy_enqueued y)) \<and>
    sq_totalPending (sy_sched y) = int (length (sy_enqueued y)) - int (length (sy_popped y)) \<and>
    sq_totalPending (sy_sched y) \<le> (if maxBuffered \<le> 0 then 16 else maxBuffered)"
proof -
  have inv: "submission_inv y" and max: "sq_maxBuffered (sy_sched y) = (if maxBuffered \<le> 0 then 16 else maxBuffered)"
    using submission_reachable [OF assms] by simp_all
  then have fifo: "\<And>g. ofGroup g (sy_popped y) @ queueOf (sy_sched y) g = ofGroup g (sy_enqueued y)"
    and wf: "sched_wf (sy_sched y)" by (simp_all add: submission_inv_def)
  let ?K = "set (sq_order (sy_sched y)) \<union> ss_groupKey ` set (sy_popped y) \<union> ss_groupKey ` set (sy_enqueued y)"
  have parts: "int (length xs) = (\<Sum>g\<in>?K. int (length (ofGroup g xs)))" if "ss_groupKey ` set xs \<subseteq> ?K" for xs
    using that
  proof (induction xs)
    case (Cons x xs)
    have "(\<Sum>g\<in>?K. int (length (ofGroup g (x # xs)))) =
        (\<Sum>g\<in>?K. int (length (ofGroup g xs)) + (if ss_groupKey x = g then 1 else 0))"
      by (rule sum.cong) (simp_all add: ofGroup_def)
    also have "\<dots> = (\<Sum>g\<in>?K. int (length (ofGroup g xs))) + 1" using Cons.prems by (simp add: sum.distrib)
    finally show ?case using Cons by simp
  qed (simp add: ofGroup_def)
  have empty: "queueOf (sy_sched y) g = []" if "g \<notin> set (sq_order (sy_sched y))" for g using wf that unfolding sched_wf_def by blast
  have "(\<Sum>g\<in>?K. int (length (queueOf (sy_sched y) g))) = (\<Sum>g\<in>set (sq_order (sy_sched y)). int (length (queueOf (sy_sched y) g)))"
    by (rule sum.mono_neutral_right) (auto simp: empty)
  also have "\<dots> = sq_totalPending (sy_sched y)" using wf by (simp add: sched_wf_def)
  finally have waiting: "(\<Sum>g\<in>?K. int (length (queueOf (sy_sched y) g))) = sq_totalPending (sy_sched y)" .
  have one: "int (length (ofGroup g (sy_enqueued y))) = int (length (ofGroup g (sy_popped y))) + int (length (queueOf (sy_sched y) g))" for g
    using arg_cong [OF fifo [of g], of length] by (metis length_append of_nat_add)
  have "int (length (sy_enqueued y)) = (\<Sum>g\<in>?K. int (length (ofGroup g (sy_enqueued y))))" by (rule parts) blast
  also have "\<dots> = (\<Sum>g\<in>?K. int (length (ofGroup g (sy_popped y))) + int (length (queueOf (sy_sched y) g)))"
    unfolding one by (rule refl)
  also have "\<dots> = int (length (sy_popped y)) + sq_totalPending (sy_sched y)"
    unfolding sum.distrib waiting by (subst parts [of "sy_popped y"]) (blast, rule refl)
  finally have "sq_totalPending (sy_sched y) = int (length (sy_enqueued y)) - int (length (sy_popped y))" by simp
  moreover have "sq_totalPending (sy_sched y) \<le> sq_maxBuffered (sy_sched y)" using wf unfolding sched_wf_def by blast
  ultimately show ?thesis using fifo unfolding max ofGroup_def by blast
qed

text \<open>C11. In every interleaving at most as many workers hold a task of one group as the limit allows, at
  least one whatever the setting.\<close>

theorem group_limit_is_kept:
  assumes "submission_step\<^sup>*\<^sup>* (submission_start maxBuffered limit n) y"
  shows "card {w. \<exists>item. sy_workers y w \<in> {FreeingSpace item, Dispatching item} \<and> ss_groupKey item = g} \<le> nat (max 1 limit)"
proof -
  have "holds g pc \<longleftrightarrow> (\<exists>item. pc \<in> {FreeingSpace item, Dispatching item} \<and> ss_groupKey item = g)" for pc
    by (cases pc) auto
  then have eq: "{w. \<exists>item. sy_workers y w \<in> {FreeingSpace item, Dispatching item} \<and> ss_groupKey item = g} = {w. holds g (sy_workers y w)}"
    by simp
  note r = submission_reachable [OF assms]
  have "int (card {w. holds g (sy_workers y w)}) \<le> sq_maxInFlightPerGroup (sy_sched y)"
    using conjunct1 [OF r] by (simp add: submission_inv_def)
  also have "\<dots> \<le> max 1 limit" using r by simp
  finally show ?thesis unfolding eq by linarith
qed

text \<open>C10. Whatever the workers and the filler have done, a task that waits can be taken: as long as tasks are
  pending the system runs on to a state in which one more of them has been taken, so no
  interleaving deadlocks and no wake-up that matters is lost for good.\<close>

theorem waiting_tasks_are_taken:
  assumes "submission_step\<^sup>*\<^sup>* (submission_start maxBuffered limit n) y" "0 < n" "0 < sq_totalPending (sy_sched y)"
  shows "\<exists>z item. submission_step\<^sup>*\<^sup>* y z \<and> sy_popped z = sy_popped y @ [item]"
proof -
  note r = submission_reachable [OF assms(1)]
  then have "sy_workers y 0 \<noteq> NoWorker" using assms(2) by simp
  then obtain g where "onTheWay g y" using pending_onTheWay r assms(3) by blast
  then show ?thesis using onTheWay_pops r by blast
qed

text \<open>The task a worker takes is the first of its group, its group is below the limit, and no group
  below its limit has a first task with a higher score; nothing is taken only when no group
  with waiting tasks is below its limit.\<close>

theorem next_task_has_the_best_score:
  assumes "submission_step\<^sup>*\<^sup>* (submission_start maxBuffered limit n) y" "popNextLocked now (sy_sched y) = (r, s)"
  shows "case r of
      None \<Rightarrow> s = sy_sched y \<and> (\<forall>g. queueOf (sy_sched y) g \<noteq> [] \<longrightarrow> sq_inflight (sy_sched y) g \<ge> sq_maxInFlightPerGroup (sy_sched y))
    | Some item \<Rightarrow> (\<exists>rest. queueOf (sy_sched y) (ss_groupKey item) = item # rest) \<and>
        sq_inflight (sy_sched y) (ss_groupKey item) < sq_maxInFlightPerGroup (sy_sched y) \<and>
        (\<forall>g other rest. queueOf (sy_sched y) g = other # rest \<and> sq_inflight (sy_sched y) g < sq_maxInFlightPerGroup (sy_sched y) \<longrightarrow>
           scoreScheduledTask now other \<le> scoreScheduledTask now item)"
proof -
  have wf: "sched_wf (sy_sched y)" using submission_reachable [OF assms(1)] by (simp add: submission_inv_def)
  show ?thesis
  proof (cases r)
    case None
    then show ?thesis using popNext_none [OF wf, of now s] assms(2) by (simp add: eligible_def) (meson not_less)
  next
    case (Some item)
    then obtain g where t: "takes now (sy_sched y) item s g" using popNext_some(1) [OF wf] assms(2) by blast
    then have "ss_groupKey item = g" using wf by (auto simp: takes_def sched_wf_def)
    moreover have "scoreScheduledTask now other \<le> scoreScheduledTask now item"
      if "queueOf (sy_sched y) h = other # rest" "sq_inflight (sy_sched y) h < sq_maxInFlightPerGroup (sy_sched y)" for h other rest
    proof -
      have "headScore now (sy_sched y) h \<le> scoreScheduledTask now item" using t that by (simp add: takes_def eligible_def)
      then show ?thesis using that(1) by (simp add: headScore_def)
    qed
    ultimately show ?thesis using t Some by (auto simp: takes_def eligible_def)
  qed
qed

section \<open>A worker left asleep\<close>

text \<open>Two tasks of different groups that enter while both workers sleep.\<close>

definition example_submission :: "string \<Rightarrow> scheduledSubmission" where
  "example_submission g = \<lparr>ss_delivery = \<lparr>td_Task = zero_Task\<lparr>t_SessionID := g\<rparr>, td_Tag = 0\<rparr>,
     ss_groupKey = submissionGroupKey (\<lambda>_. []) (zero_Task\<lparr>t_SessionID := g\<rparr>), ss_enqueued = 0\<rparr>"

lemma example_group: "submissionBranchKey (\<lambda>_. []) (zero_Task\<lparr>t_SessionID := g\<rparr>) = []"
  by (simp add: submissionBranchKey_def routingHintString_def executionContractString_def zero_Task_def)

lemma example_group_key [simp]: "g \<noteq> [] \<Longrightarrow> ss_groupKey (example_submission g) = g"
  by (simp add: example_submission_def submissionGroupKey_def example_group zero_Task_def [symmetric])

definition two_asleep :: SubmissionSystem where
  "two_asleep = (submission_start 16 1 2)\<lparr>sy_workers := (\<lambda>w. if w < 2 then Asleep else NoWorker)\<rparr>"

lemma start_sleeps: "popNextLocked now (newSubmissionScheduler b l) = (None, newSubmissionScheduler b l)"
  by (simp add: popNextLocked_def newSubmissionScheduler_def)

lemma two_asleep_reachable: "submission_step\<^sup>*\<^sup>* (submission_start 16 1 2) two_asleep"
proof -
  let ?y = "submission_start 16 1 2" let ?s = "newSubmissionScheduler 16 1"
  let ?z = "?y\<lparr>sy_workers := (sy_workers ?y)(0 := Asleep), sy_sched := ?s\<rparr>"
  have 1: "submission_step ?y ?z"
    by (rule worker_sleep) (simp_all add: submission_start_def start_sleeps)
  have 2: "submission_step ?z (?z\<lparr>sy_workers := (sy_workers ?z)(1 := Asleep), sy_sched := ?s\<rparr>)"
    by (rule worker_sleep) (simp_all add: submission_start_def start_sleeps)
  have "?z\<lparr>sy_workers := (sy_workers ?z)(1 := Asleep), sy_sched := ?s\<rparr> = two_asleep"
    by (auto simp: two_asleep_def submission_start_def fun_eq_iff)
  then show ?thesis using 1 2 by (metis (no_types, lifting) converse_rtranclp_into_rtranclp r_into_rtranclp)
qed

lemma fill_run:
  assumes "sy_filler y = FillerIdle" "enqueueLocked (example_submission g) (sy_sched y) = Some s"
  shows "submission_step\<^sup>*\<^sup>* y (y\<lparr>sy_filler := FillerIdle, sy_sched := notifyWake s, sy_enqueued := sy_enqueued y @ [example_submission g]\<rparr>)"
proof -
  let ?i = "example_submission g"
  let ?a = "y\<lparr>sy_filler := Storing ?i\<rparr>"
  let ?b = "y\<lparr>sy_filler := FillerWaking, sy_sched := s, sy_enqueued := sy_enqueued y @ [?i]\<rparr>"
  have 1: "submission_step y ?a"
    using fill_receive [OF assms(1), of "ss_delivery ?i" "\<lambda>_. []" 0] by (simp add: example_submission_def)
  have 2: "submission_step ?a ?b" using fill_store [of ?a ?i s] assms(2) by simp
  have "submission_step ?b (?b\<lparr>sy_filler := FillerIdle, sy_sched := notifyWake (sy_sched ?b)\<rparr>)" by (rule fill_wake) simp
  then have "submission_step ?b (y\<lparr>sy_filler := FillerIdle, sy_sched := notifyWake s, sy_enqueued := sy_enqueued y @ [?i]\<rparr>)" by (cases y) simp
  with 1 2 show ?thesis by (meson converse_rtranclp_into_rtranclp rtranclp.rtrancl_refl)
qed

text \<open>Both tasks wait, the wake channel holds a token.\<close>

definition two_waiting :: SubmissionSystem where
  "two_waiting = two_asleep\<lparr>sy_sched := \<lparr>sq_wake = True, sq_space = False,
       sq_queues = [''a'' \<mapsto> [example_submission ''a''], ''b'' \<mapsto> [example_submission ''b'']],
       sq_order = [''a'', ''b''], sq_inflight = (\<lambda>_. 0), sq_maxBuffered = 16, sq_maxInFlightPerGroup = 1,
       sq_totalPending = 2, sq_cursor = 0\<rparr>,
     sy_enqueued := [example_submission ''a'', example_submission ''b'']\<rparr>"

lemma two_waiting_reachable: "submission_step\<^sup>*\<^sup>* (submission_start 16 1 2) two_waiting"
proof -
  let ?s1 = "\<lparr>sq_wake = False, sq_space = False, sq_queues = [''a'' \<mapsto> [example_submission ''a'']],
       sq_order = [''a''], sq_inflight = (\<lambda>_. 0), sq_maxBuffered = 16, sq_maxInFlightPerGroup = 1,
       sq_totalPending = 1, sq_cursor = 0\<rparr>"
  let ?y = "two_asleep\<lparr>sy_filler := FillerIdle, sy_sched := notifyWake ?s1, sy_enqueued := sy_enqueued two_asleep @ [example_submission ''a'']\<rparr>"
  have 1: "submission_step\<^sup>*\<^sup>* two_asleep ?y"
    by (rule fill_run) (simp_all add: two_asleep_def submission_start_def newSubmissionScheduler_def enqueueLocked_def queueOf_def)
  have 2: "enqueueLocked (example_submission ''b'') (sy_sched ?y) = Some (sy_sched two_waiting)"
    by (simp add: two_waiting_def notifyWake_def enqueueLocked_def queueOf_def)
  have "submission_step\<^sup>*\<^sup>* ?y (?y\<lparr>sy_filler := FillerIdle, sy_sched := notifyWake (sy_sched two_waiting),
      sy_enqueued := sy_enqueued ?y @ [example_submission ''b'']\<rparr>)"
    by (rule fill_run [OF _ 2]) simp
  moreover have "?y\<lparr>sy_filler := FillerIdle, sy_sched := notifyWake (sy_sched two_waiting),
      sy_enqueued := sy_enqueued ?y @ [example_submission ''b'']\<rparr> = two_waiting"
    by (simp add: two_waiting_def notifyWake_def two_asleep_def submission_start_def)
  ultimately show ?thesis using two_asleep_reachable 1 by simp
qed

lemma example_scores: "scoreScheduledTask 0 (example_submission g) = scoreScheduledTask 0 (example_submission h)"
  by (simp add: scoreScheduledTask_def example_submission_def zero_Task_def Let_def)

text \<open>C12. The wake channel holds one token. When two tasks of different groups enter before a sleeping worker
  has run, the second token is dropped: one worker is woken and runs the first task, while the other
  task waits although its group is idle and a worker sleeps, until the first task is done or a
  further task enters.\<close>

theorem worker_sleeps_over_a_ready_task:
  "\<exists>y item. submission_step\<^sup>*\<^sup>* (submission_start 16 1 2) y \<and>
     queueOf (sy_sched y) ''b'' \<noteq> [] \<and> sq_inflight (sy_sched y) ''b'' = 0 \<and> sy_workers y 1 = Asleep \<and>
     \<not> sq_wake (sy_sched y) \<and> sy_filler y = FillerIdle \<and> sy_workers y 0 = Dispatching item"
proof -
  let ?a = "example_submission ''a''"
  let ?y = "two_waiting\<lparr>sy_workers := (sy_workers two_waiting)(0 := Popping), sy_sched := (sy_sched two_waiting)\<lparr>sq_wake := False\<rparr>\<rparr>"
  have 1: "submission_step two_waiting ?y" by (rule worker_woken) (simp_all add: two_waiting_def two_asleep_def)
  have q: "queueOf (sy_sched ?y) ''a'' = [?a]" "queueOf (sy_sched ?y) ''b'' = [example_submission ''b'']"
    by (simp_all add: two_waiting_def queueOf_def)
  have scan: "scanOrder 0 (sy_sched ?y) = Some (0, scoreScheduledTask 0 ?a)"
    using q example_scores [of "''b''" "''a''"] by (simp add: scanOrder_def scanOne_def two_waiting_def upt_rec numeral_2_eq_2 Let_def)
  define s where "s = snd (popNextLocked 0 (sy_sched ?y))"
  have pop: "popNextLocked 0 (sy_sched ?y) = (Some ?a, s)"
    unfolding s_def popNextLocked_def scan using q by (simp add: two_waiting_def Let_def)
  have s: "queueOf s ''b'' = [example_submission ''b'']" "sq_inflight s ''b'' = 0" "\<not> sq_wake s"
    unfolding s_def popNextLocked_def scan using q by (simp_all add: two_waiting_def Let_def queueOf_def)
  let ?z = "?y\<lparr>sy_workers := (sy_workers ?y)(0 := FreeingSpace ?a), sy_sched := s, sy_popped := sy_popped ?y @ [?a]\<rparr>"
  have 2: "submission_step ?y ?z" by (rule worker_pop [OF _ pop]) simp
  let ?x = "?z\<lparr>sy_workers := (sy_workers ?z)(0 := Dispatching ?a), sy_sched := notifySpace (sy_sched ?z)\<rparr>"
  have 3: "submission_step ?z ?x" by (rule worker_space) simp
  have "submission_step\<^sup>*\<^sup>* (submission_start 16 1 2) ?x"
    using two_waiting_reachable 1 2 3 by (meson rtranclp.rtrancl_into_rtrancl)
  then show ?thesis
    using s by (intro exI [of _ ?x] exI [of _ ?a]) (simp add: notifySpace_def two_waiting_def two_asleep_def submission_start_def)
qed

section \<open>Witnesses\<close>

theorem groups_are_served_in_order_witness:
  "filter (\<lambda>item. ss_groupKey item = ''a'') (sy_popped two_waiting) @ queueOf (sy_sched two_waiting) ''a'' = [example_submission ''a'']"
proof -
  have "filter (\<lambda>item. ss_groupKey item = ''a'') (sy_enqueued two_waiting) = [example_submission ''a'']" by (simp add: two_waiting_def)
  then show ?thesis using groups_are_served_in_order [OF two_waiting_reachable] by metis
qed

theorem group_limit_is_kept_witness:
  "card {w. \<exists>item. sy_workers two_waiting w \<in> {FreeingSpace item, Dispatching item} \<and> ss_groupKey item = ''a''} \<le> 1"
  using group_limit_is_kept [OF two_waiting_reachable, of "''a''"] by simp

theorem waiting_tasks_are_taken_witness:
  "\<exists>z item. submission_step\<^sup>*\<^sup>* two_waiting z \<and> sy_popped z = [item]"
  using waiting_tasks_are_taken [OF two_waiting_reachable] by (simp add: two_waiting_def two_asleep_def submission_start_def)

theorem next_task_has_the_best_score_witness:
  "case fst (popNextLocked 0 (sy_sched two_waiting)) of None \<Rightarrow> False
   | Some item \<Rightarrow> scoreScheduledTask 0 (example_submission ''b'') \<le> scoreScheduledTask 0 item"
proof -
  obtain r s where p: "popNextLocked 0 (sy_sched two_waiting) = (r, s)" by force
  have q: "queueOf (sy_sched two_waiting) ''b'' = [example_submission ''b'']" by (simp add: two_waiting_def queueOf_def)
  have l: "sq_inflight (sy_sched two_waiting) ''b'' = 0" "sq_maxInFlightPerGroup (sy_sched two_waiting) = 1" by (simp_all add: two_waiting_def)
  show ?thesis
  proof (cases r)
    case None
    then have "queueOf (sy_sched two_waiting) ''b'' \<noteq> [] \<longrightarrow> 1 \<le> sq_inflight (sy_sched two_waiting) ''b''"
      using next_task_has_the_best_score [OF two_waiting_reachable p] l(2) by simp
    then show ?thesis using q l by simp
  next
    case (Some item)
    then have "\<forall>g other rest. queueOf (sy_sched two_waiting) g = other # rest \<and> sq_inflight (sy_sched two_waiting) g < 1 \<longrightarrow>
        scoreScheduledTask 0 other \<le> scoreScheduledTask 0 item"
      using next_task_has_the_best_score [OF two_waiting_reachable p] l(2) by simp
    then have "scoreScheduledTask 0 (example_submission ''b'') \<le> scoreScheduledTask 0 item"
      using q l(1) by (elim allE [of _ "''b''"] allE [of _ "example_submission ''b''"] allE [of _ "[]"] impE) simp_all
    then show ?thesis by (simp add: p Some)
  qed
qed

end
