(* ===== verification/Workflows.thy ===== *)
theory Workflows
  imports PeerExecution SubmissionScheduler FileStore
begin

text \<open>
  Workflow records and those who wait for them, in \<open>go-core/internal/kernel/orchestrator.go\<close>. What the
  orchestrator calls of its store is the record \<open>workflow_ops\<close>; what it relies on is the locale
  \<open>workflow_store\<close>, which the file store provides. A waiter has a channel of capacity 1;
  \<open>WaitWorkflowTerminal\<close> looks into the store, then registers its channel, then waits, and the thread
  that ends a workflow saves the record and then notifies the registered channels: the two run in any
  interleaving.
\<close>

section \<open>Stores and statuses\<close>

record 's workflow_ops =
  ws_SaveWorkflow :: "WorkflowRecord \<Rightarrow> 's \<Rightarrow> string option \<times> 's"
  ws_GetWorkflow :: "string \<Rightarrow> 's \<Rightarrow> string + WorkflowRecord option"

definition normalizeTaskStatus :: "TaskStatus \<Rightarrow> TaskStatus" where
  "normalizeTaskStatus status =
     (if status = TaskStatusOther [] \<or> status = TaskStatusDone then TaskStatusCompleted else status)"

definition isTerminalTaskStatus :: "TaskStatus \<Rightarrow> bool" where
  "isTerminalTaskStatus status \<longleftrightarrow>
     normalizeTaskStatus status \<in> {TaskStatusCompleted, TaskStatusFailed, TaskStatusRejected, TaskStatusDeadLettered}"

definition isFailureStatus :: "TaskStatus \<Rightarrow> bool" where
  "isFailureStatus status \<longleftrightarrow> normalizeTaskStatus status \<in> {TaskStatusFailed, TaskStatusRejected, TaskStatusDeadLettered}"

definition terminalRecord :: "WorkflowRecord \<Rightarrow> bool" where
  "terminalRecord r \<longleftrightarrow> isTerminalTaskStatus (ta_Status (wf_Acceptance r))"

section \<open>Sessions of the coding runtime\<close>

record CodingRuntimeSession =
  sx_Runtime :: string
  sx_SessionID :: string
  sx_Provider :: string
  sx_Model :: string
  sx_AcceptedAt :: time
  sx_Metadata :: go_map

record codingRuntimeSessionMapper =
  sm_byTaskID :: "string \<rightharpoonup> string"
  sm_bySessionID :: "string \<rightharpoonup> string"
  sm_sessionMetadata :: "string \<rightharpoonup> CodingRuntimeSession"

definition newCodingRuntimeSessionMapper :: codingRuntimeSessionMapper where
  "newCodingRuntimeSessionMapper = \<lparr>sm_byTaskID = Map.empty, sm_bySessionID = Map.empty, sm_sessionMetadata = Map.empty\<rparr>"

definition bindSession :: "string \<Rightarrow> CodingRuntimeSession \<Rightarrow> codingRuntimeSessionMapper \<Rightarrow> codingRuntimeSessionMapper" where
  "bindSession taskID session m =
     m\<lparr>sm_byTaskID := (sm_byTaskID m)(taskID \<mapsto> sx_SessionID session),
       sm_bySessionID := (sm_bySessionID m)(sx_SessionID session \<mapsto> taskID),
       sm_sessionMetadata := (sm_sessionMetadata m)(sx_SessionID session \<mapsto> session)\<rparr>"

definition unbindSession :: "string \<Rightarrow> string \<Rightarrow> codingRuntimeSessionMapper \<Rightarrow> codingRuntimeSessionMapper" where
  "unbindSession taskID sessionID m =
     (let m = (if taskID \<noteq> [] then m\<lparr>sm_byTaskID := (sm_byTaskID m)(taskID := None)\<rparr> else m) in
      if sessionID \<noteq> []
      then m\<lparr>sm_bySessionID := (sm_bySessionID m)(sessionID := None),
             sm_sessionMetadata := (sm_sessionMetadata m)(sessionID := None)\<rparr>
      else m)"

section \<open>The kernel and its waiters\<close>

record ('b, 'm, 's) Kernel =
  kn_orch :: "('b, 'm) Orchestrator"
  kn_store :: 's
  kn_waiters :: "string \<Rightarrow> nat list"
  kn_channels :: "nat \<Rightarrow> WorkflowRecord option"
  kn_sessions :: codingRuntimeSessionMapper

definition onOrch :: "(('b, 'm) Orchestrator \<Rightarrow> 'a \<times> ('b, 'm) Orchestrator) \<Rightarrow> ('b, 'm, 's) Kernel \<Rightarrow> 'a \<times> ('b, 'm, 's) Kernel" where
  "onOrch f k = (let (x, o') = f (kn_orch k) in (x, k\<lparr>kn_orch := o'\<rparr>))"

definition publishEvent :: "string \<Rightarrow> string \<Rightarrow> string \<Rightarrow> ('b, 'm, 's) Kernel \<Rightarrow> ('b, 'm, 's) Kernel" where
  "publishEvent topic kind entity k = k\<lparr>kn_orch := publishRuntimeEvent topic kind entity (kn_orch k)\<rparr>"

text \<open>A send that finds the buffer of a channel full is dropped.\<close>

definition sendRecord :: "WorkflowRecord \<Rightarrow> nat \<Rightarrow> (nat \<Rightarrow> WorkflowRecord option) \<Rightarrow> nat \<Rightarrow> WorkflowRecord option" where
  "sendRecord r ch channels = (if channels ch = None then channels(ch \<mapsto> r) else channels)"

definition notifyWorkflowWaiters :: "WorkflowRecord \<Rightarrow> ('b, 'm, 's) Kernel \<Rightarrow> ('b, 'm, 's) Kernel" where
  "notifyWorkflowWaiters r k =
     (let taskID = t_ID (wf_Task r); waiters = kn_waiters k taskID;
          k = (if terminalRecord r then k\<lparr>kn_waiters := (kn_waiters k)(taskID := [])\<rparr> else k)
      in k\<lparr>kn_channels := fold (sendRecord r) waiters (kn_channels k)\<rparr>)"

definition removeWorkflowWaiter :: "string \<Rightarrow> nat \<Rightarrow> ('b, 'm, 's) Kernel \<Rightarrow> ('b, 'm, 's) Kernel" where
  "removeWorkflowWaiter workflowID ch k =
     k\<lparr>kn_waiters := (kn_waiters k)(workflowID := remove1 ch (kn_waiters k workflowID))\<rparr>"

text \<open>The common end of the submission functions: save the record, give up on an error, go on otherwise.\<close>

definition saveThen ::
    "'s workflow_ops \<Rightarrow> WorkflowRecord \<Rightarrow> (('b, 'm, 's) Kernel \<Rightarrow> ('b, 'm, 's) Kernel) \<Rightarrow> ('b, 'm, 's) Kernel
     \<Rightarrow> (string + WorkflowRecord) \<times> ('b, 'm, 's) Kernel" where
  "saveThen W r f k =
     (case ws_SaveWorkflow W r (kn_store k) of
        (Some err, s) \<Rightarrow> (Inl err, k\<lparr>kn_store := s\<rparr>)
      | (None, s) \<Rightarrow> (Inr r, f (k\<lparr>kn_store := s\<rparr>)))"

section \<open>Waiting\<close>

datatype wait_pc = WaitCheck | WaitRegister | WaitReceive | WaitAnswered "string + WorkflowRecord"

datatype saver_pc = SaverSave WorkflowRecord | SaverNotify WorkflowRecord | SaverDone

record ('b, 'm, 's) WaitSystem =
  wy_kernel :: "('b, 'm, 's) Kernel"
  wy_waiter :: wait_pc
  wy_saver :: saver_pc

text \<open>\<open>waitCheck\<close> is \<open>WaitWorkflowTerminal\<close> up to the creation of its channel.\<close>

definition waitCheck :: "'s workflow_ops \<Rightarrow> string \<Rightarrow> ('b, 'm, 's) Kernel \<Rightarrow> wait_pc" where
  "waitCheck W workflowID k =
     (if workflowID = [] then WaitAnswered (Inl ''workflow id is required'')
      else case ws_GetWorkflow W workflowID (kn_store k) of
             Inl err \<Rightarrow> WaitAnswered (Inl err)
           | Inr (Some r) \<Rightarrow> if terminalRecord r then WaitAnswered (Inr r) else WaitRegister
           | Inr None \<Rightarrow> WaitRegister)"

inductive wait_step :: "'s workflow_ops \<Rightarrow> string \<Rightarrow> nat \<Rightarrow> ('b, 'm, 's) WaitSystem \<Rightarrow> ('b, 'm, 's) WaitSystem \<Rightarrow> bool"
  for W :: "'s workflow_ops" and workflowID :: string and ch :: nat where
  wait_check: "wy_waiter y = WaitCheck \<Longrightarrow> wait_step W workflowID ch y (y\<lparr>wy_waiter := waitCheck W workflowID (wy_kernel y)\<rparr>)"
| wait_register: "wy_waiter y = WaitRegister \<Longrightarrow> wait_step W workflowID ch y
    (y\<lparr>wy_waiter := WaitReceive, wy_kernel := (wy_kernel y)\<lparr>kn_waiters :=
       (kn_waiters (wy_kernel y))(workflowID := kn_waiters (wy_kernel y) workflowID @ [ch])\<rparr>\<rparr>)"
| wait_receive: "wy_waiter y = WaitReceive \<Longrightarrow> kn_channels (wy_kernel y) ch = Some r \<Longrightarrow> wait_step W workflowID ch y
    (y\<lparr>wy_waiter := (if terminalRecord r then WaitAnswered (Inr r) else WaitReceive),
       wy_kernel := (if terminalRecord r then removeWorkflowWaiter workflowID ch else id)
         ((wy_kernel y)\<lparr>kn_channels := (kn_channels (wy_kernel y))(ch := None)\<rparr>)\<rparr>)"
| saver_save: "wy_saver y = SaverSave r \<Longrightarrow> ws_SaveWorkflow W r (kn_store (wy_kernel y)) = (err, s) \<Longrightarrow> wait_step W workflowID ch y
    (y\<lparr>wy_saver := (if err = None then SaverNotify r else SaverDone), wy_kernel := (wy_kernel y)\<lparr>kn_store := s\<rparr>\<rparr>)"
| saver_notify: "wy_saver y = SaverNotify r \<Longrightarrow> wait_step W workflowID ch y
    (y\<lparr>wy_saver := SaverDone, wy_kernel := notifyWorkflowWaiters r (wy_kernel y)\<rparr>)"

section \<open>Contracts\<close>

lemma send_keeps: "c ch = Some x \<Longrightarrow> fold (sendRecord r) ws c ch = Some x"
proof (induction ws arbitrary: c)
  case (Cons w ws)
  then have "sendRecord r w c ch = Some x" by (auto simp: sendRecord_def)
  then show ?case using Cons.IH by simp
qed simp

lemma send_reaches: "ch \<in> set ws \<Longrightarrow> c ch = None \<Longrightarrow> fold (sendRecord r) ws c ch = Some r"
proof (induction ws arbitrary: c)
  case (Cons w ws)
  show ?case
  proof (cases "w = ch")
    case True
    then have "sendRecord r w c ch = Some r" using Cons.prems(2) by (simp add: sendRecord_def)
    then show ?thesis using send_keeps [of "sendRecord r w c"] by simp
  next
    case False
    then have "sendRecord r w c ch = None" using Cons.prems(2) by (simp add: sendRecord_def)
    then show ?thesis using Cons.IH [of "sendRecord r w c"] Cons.prems(1) False by simp
  qed
qed simp

text \<open>A call that returns a record has stored it under the id of its task.\<close>

definition recorded :: "'s workflow_ops \<Rightarrow> string \<Rightarrow> (string + WorkflowRecord) \<times> ('b, 'm, 's) Kernel \<Rightarrow> bool" where
  "recorded W wid res \<longleftrightarrow> (\<forall>r. fst res = Inr r \<longrightarrow> t_ID (wf_Task r) = wid \<and> ws_GetWorkflow W wid (kn_store (snd res)) = Inr (Some r))"

lemma recorded_error [simp]: "recorded W wid (Inl err, k)"
  by (simp add: recorded_def)

locale workflow_store =
  fixes W :: "'s workflow_ops"
  assumes get_saved: "ws_SaveWorkflow W r s = (None, s') \<Longrightarrow>
      ws_GetWorkflow W wid s' = (if wid = t_ID (wf_Task r) then Inr (Some r) else ws_GetWorkflow W wid s)"
begin

lemma saveThen_stored:
  assumes "saveThen W r f k = (Inr r', k')" "\<And>x. kn_store (f x) = kn_store x"
  shows "r' = r" "ws_GetWorkflow W (t_ID (wf_Task r)) (kn_store k') = Inr (Some r)"
proof -
  obtain err s where s: "ws_SaveWorkflow W r (kn_store k) = (err, s)" by force
  then have "err = None" using assms(1) by (cases err) (simp_all add: saveThen_def)
  then show "r' = r" "ws_GetWorkflow W (t_ID (wf_Task r)) (kn_store k') = Inr (Some r)"
    using assms s get_saved [of r "kn_store k" s] by (auto simp: saveThen_def)
qed

lemma saveThen_recorded:
  assumes "\<And>x. kn_store (f x) = kn_store x" "t_ID (wf_Task r) = wid"
  shows "recorded W wid (saveThen W r f k)"
proof -
  obtain res k' where s: "saveThen W r f k = (res, k')" by force
  show ?thesis using saveThen_stored [OF _ assms(1), of r k _ k'] s assms(2) by (auto simp: recorded_def)
qed

text \<open>A waiter that registered before the record was saved gets the record.\<close>

lemma registered_waiter_answered:
  assumes "wait_step W workflowID ch x y" "wy_waiter x = WaitReceive" "wy_saver x = SaverNotify r" "terminalRecord r"
    "t_ID (wf_Task r) = workflowID" "ch \<in> set (kn_waiters (wy_kernel x) workflowID)" "kn_channels (wy_kernel x) ch = None"
  shows "wy_waiter y = WaitReceive \<and> kn_channels (wy_kernel y) ch = Some r"
proof -
  show ?thesis using assms(1)
  proof (cases rule: wait_step.cases)
    case (saver_notify r')
    then show ?thesis using assms send_reaches by (simp add: notifyWorkflowWaiters_def Let_def)
  qed (use assms in simp_all)
qed

text \<open>The record may be saved and announced between the look into the store and the registration.\<close>

lemma announcement_missed:
  assumes "terminalRecord r" "workflowID \<noteq> []" "t_ID (wf_Task r) = workflowID"
    and "ws_SaveWorkflow W r (kn_store k) = (None, s)" "waitCheck W workflowID k = WaitRegister"
    and "kn_channels k ch = None" "kn_waiters k workflowID = []"
  shows "\<exists>y. (wait_step W workflowID ch)\<^sup>*\<^sup>* \<lparr>wy_kernel = k, wy_waiter = WaitCheck, wy_saver = SaverSave r\<rparr> y \<and>
    wy_waiter y = WaitReceive \<and> wy_saver y = SaverDone \<and> (\<forall>z. \<not> wait_step W workflowID ch y z) \<and>
    ws_GetWorkflow W workflowID (kn_store (wy_kernel y)) = Inr (Some r)"
proof -
  let ?a = "\<lparr>wy_kernel = k, wy_waiter = WaitCheck, wy_saver = SaverSave r\<rparr>"
  let ?b = "?a\<lparr>wy_waiter := WaitRegister\<rparr>"
  let ?c = "?b\<lparr>wy_saver := SaverNotify r, wy_kernel := k\<lparr>kn_store := s\<rparr>\<rparr>"
  let ?d = "?c\<lparr>wy_saver := SaverDone, wy_kernel := notifyWorkflowWaiters r (k\<lparr>kn_store := s\<rparr>)\<rparr>"
  let ?k = "notifyWorkflowWaiters r (k\<lparr>kn_store := s\<rparr>)"
  let ?e = "?d\<lparr>wy_waiter := WaitReceive, wy_kernel := ?k\<lparr>kn_waiters := (kn_waiters ?k)(workflowID := kn_waiters ?k workflowID @ [ch])\<rparr>\<rparr>"
  have 1: "wait_step W workflowID ch ?a ?b" using wait_check [of ?a W workflowID ch] assms(5) by simp
  have 2: "wait_step W workflowID ch ?b ?c" using saver_save [of ?b r W None s workflowID ch] assms(4) by simp
  have 3: "wait_step W workflowID ch ?c ?d" using saver_notify [of ?c r W workflowID ch] by simp
  have 4: "wait_step W workflowID ch ?d ?e" using wait_register [of ?d W workflowID ch] by simp
  have run: "(wait_step W workflowID ch)\<^sup>*\<^sup>* ?a ?e" using 1 2 3 4 by (meson rtranclp.rtrancl_into_rtrancl rtranclp.rtrancl_refl)
  have chan: "kn_channels ?k ch = None" and store: "kn_store ?k = s" using assms(3,6,7) by (simp_all add: notifyWorkflowWaiters_def Let_def)
  have "\<not> wait_step W workflowID ch ?e z" for z
    by (auto elim!: wait_step.cases simp: chan)
  then show ?thesis using run get_saved [OF assms(4), of workflowID] assms(3) store by (intro exI [of _ ?e]) simp
qed

end

definition file_workflow_ops ::
    "('c filePayload \<Rightarrow> string option) \<Rightarrow> io_fault \<Rightarrow> ('c FileStore \<times> files) workflow_ops" where
  "file_workflow_ops enc fault = \<lparr>ws_SaveWorkflow = SaveWorkflow enc fault,
     ws_GetWorkflow = (\<lambda>wid s. Inr (GetWorkflow (fst s) wid))\<rparr>"

interpretation file_workflows: workflow_store "file_workflow_ops enc fault" for enc fault
  by unfold_locales
    (auto simp: file_workflow_ops_def SaveWorkflow_def update_def GetWorkflow_def Let_def split_def)

text \<open>C14. A waiter looks into the store before it registers. When the record is saved and announced between the
  two, the waiter registers after the announcement and waits for another one, which never comes: no
  step but the end of its context is left, although the store holds the final record.\<close>

theorem waiter_misses_the_answer:
  assumes "terminalRecord r" "t_ID (wf_Task r) \<noteq> []" "SaveWorkflow enc fault r (kn_store k) = (None, s)"
    and "GetWorkflow (fst (kn_store k)) (t_ID (wf_Task r)) = None" "kn_channels k ch = None" "kn_waiters k (t_ID (wf_Task r)) = []"
  shows "\<exists>y. (wait_step (file_workflow_ops enc fault) (t_ID (wf_Task r)) ch)\<^sup>*\<^sup>*
      \<lparr>wy_kernel = k, wy_waiter = WaitCheck, wy_saver = SaverSave r\<rparr> y \<and>
    wy_waiter y = WaitReceive \<and> wy_saver y = SaverDone \<and>
    (\<forall>z. \<not> wait_step (file_workflow_ops enc fault) (t_ID (wf_Task r)) ch y z) \<and>
    GetWorkflow (fst (kn_store (wy_kernel y))) (t_ID (wf_Task r)) = Some r"
  using file_workflows.announcement_missed [OF assms(1,2) refl, of enc fault k s ch] assms(2-)
  by (auto simp: file_workflow_ops_def waitCheck_def)

text \<open>A waiter that registered in time is answered: once it waits and the saver is about to announce a final
  record of its workflow, the announcement is the only step, and after it the record is in the
  channel of the waiter and the next step answers it.\<close>

theorem registered_waiter_is_answered:
  assumes "wy_waiter x = WaitReceive" "wy_saver x = SaverNotify r" "terminalRecord r" "t_ID (wf_Task r) = workflowID"
    and "ch \<in> set (kn_waiters (wy_kernel x) workflowID)" "kn_channels (wy_kernel x) ch = None"
    and "wait_step (file_workflow_ops enc fault) workflowID ch x y" "wait_step (file_workflow_ops enc fault) workflowID ch y z"
  shows "wy_waiter z = WaitAnswered (Inr r)"
proof -
  have y: "wy_waiter y = WaitReceive" "kn_channels (wy_kernel y) ch = Some r"
    using file_workflows.registered_waiter_answered [OF assms(7,1,2,3,4,5,6)] by simp_all
  have over: "wy_saver y = SaverDone"
    using assms(7) by (cases rule: wait_step.cases) (use assms(1,2,6) in simp_all)
  show ?thesis using assms(8) by (cases rule: wait_step.cases) (use y over assms(3) in simp_all)
qed

section \<open>Witnesses\<close>

definition final_record :: WorkflowRecord where
  "final_record = \<lparr>wf_Task = zero_Task\<lparr>t_ID := ''t1''\<rparr>, wf_Plan = zero_ExecutionPlan,
     wf_Acceptance = zero_TaskAcceptance\<lparr>ta_TaskID := ''t1'', ta_Status := TaskStatusCompleted\<rparr>, wf_Result = None, wf_UpdatedAt = 0\<rparr>"

definition example_workflow_ops :: "(unit FileStore \<times> files) workflow_ops" where
  "example_workflow_ops = file_workflow_ops (\<lambda>_. Some []) NoFault"

definition example_kernel_state :: "(MessageBus, unit, unit FileStore \<times> files) Kernel" where
  "example_kernel_state = \<lparr>kn_orch = example_orchestrator,
     kn_store = (\<lparr>fs_path = ''f'', fs_storageMode = ''go_file_store'', fs_data = empty_payload\<rparr>, Map.empty),
     kn_waiters = (\<lambda>_. []), kn_channels = (\<lambda>_. None), kn_sessions = newCodingRuntimeSessionMapper\<rparr>"

lemma final_record_terminal: "terminalRecord final_record" "t_ID (wf_Task final_record) = ''t1''"
  by (simp_all add: terminalRecord_def final_record_def isTerminalTaskStatus_def normalizeTaskStatus_def)

theorem waiter_misses_the_answer_witness:
  "\<exists>y. (wait_step example_workflow_ops ''t1'' 0)\<^sup>*\<^sup>*
      \<lparr>wy_kernel = example_kernel_state, wy_waiter = WaitCheck, wy_saver = SaverSave final_record\<rparr> y \<and>
    wy_waiter y = WaitReceive \<and> (\<forall>z. \<not> wait_step example_workflow_ops ''t1'' 0 y z)"
proof -
  obtain err s where s: "SaveWorkflow (\<lambda>_. Some []) NoFault final_record (kn_store example_kernel_state) = (err, s)" by (metis surj_pair)
  then have "err = None" by (auto simp: SaveWorkflow_def update_def persistLocked_def Let_def split_def)
  then show ?thesis
    using waiter_misses_the_answer [of final_record "\<lambda>_. Some []" NoFault example_kernel_state s 0] s final_record_terminal
    by (auto simp: example_workflow_ops_def GetWorkflow_def example_kernel_state_def empty_payload_def)
qed

theorem registered_waiter_is_answered_witness:
  "\<exists>(x :: (MessageBus, unit, unit FileStore \<times> files) WaitSystem) y z. wy_waiter x = WaitReceive \<and> wait_step example_workflow_ops ''t1'' 0 x y \<and> wait_step example_workflow_ops ''t1'' 0 y z \<and>
     wy_waiter z = WaitAnswered (Inr final_record)"
proof -
  let ?k = "example_kernel_state\<lparr>kn_waiters := (\<lambda>_. [0])\<rparr>"
  let ?x = "\<lparr>wy_kernel = ?k, wy_waiter = WaitReceive, wy_saver = SaverNotify final_record\<rparr>"
  let ?y = "?x\<lparr>wy_saver := SaverDone, wy_kernel := notifyWorkflowWaiters final_record ?k\<rparr>"
  have 1: "wait_step example_workflow_ops ''t1'' 0 ?x ?y" using saver_notify [of ?x final_record] by simp
  have "kn_channels (wy_kernel ?y) 0 = Some final_record"
    by (simp add: notifyWorkflowWaiters_def sendRecord_def example_kernel_state_def Let_def)
  then obtain z where 2: "wait_step example_workflow_ops ''t1'' 0 ?y z" using wait_receive [of ?y 0 final_record] by fastforce
  have "wy_waiter z = WaitAnswered (Inr final_record)"
    by (rule registered_waiter_is_answered [OF _ _ final_record_terminal _ _ 1 [unfolded example_workflow_ops_def] 2 [unfolded example_workflow_ops_def]])
      (simp_all add: example_kernel_state_def)
  then show ?thesis using 1 2 by (intro exI [of _ ?x] exI [of _ ?y] exI [of _ z]) simp
qed

end
