(* ===== verification/CodingRuntime.thy ===== *)
theory CodingRuntime
  imports Workflows
begin

text \<open>
  The delegation of tasks to an external coding runtime, \<open>go-core/internal/kernel/opencode_delegate.go\<close>.
  The runtime is the interface \<open>domain.ExternalCodingRuntime\<close>, a record of functions that may change
  the opaque memory, and the retriever another. \<open>fmt.Sprint\<close> and the format of a time are arguments;
  the events of a session, which are only passed on, and the inventory snapshots are left out.
\<close>

section \<open>Requests\<close>

datatype CodingRuntimeMode = CodingRuntimeModePlan | CodingRuntimeModeBuild | CodingRuntimeModeReview

fun codingModeText :: "CodingRuntimeMode \<Rightarrow> string" where
  "codingModeText CodingRuntimeModePlan = ''plan''"
| "codingModeText CodingRuntimeModeBuild = ''build''"
| "codingModeText CodingRuntimeModeReview = ''review''"

record RAGResult =
  rr_DocumentID :: string
  rr_MemoryID :: string
  rr_Score :: rat
  rr_Content :: string
  rr_Metadata :: go_map

record RAGQuery =
  rq_Query :: string
  rq_SessionID :: string
  rq_TaskID :: string
  rq_Limit :: int
  rq_Filters :: go_map

record CodingRuntimeRequest =
  rx_Task :: Task
  rx_Plan :: ExecutionPlan
  rx_Mode :: CodingRuntimeMode
  rx_AllowedTools :: "string list"
  rx_AllowedSubagents :: "string list"
  rx_RAGResults :: "RAGResult list"
  rx_Metadata :: go_map

record 'm coding_runtime =
  cr_Name :: string
  cr_Supports :: "Task \<Rightarrow> bool"
  cr_StartTask :: "CodingRuntimeRequest \<Rightarrow> 'm \<Rightarrow> (string + CodingRuntimeSession) \<times> 'm"
  cr_WaitTask :: "CodingRuntimeSession \<Rightarrow> 'm \<Rightarrow> (string + AgentResult) \<times> 'm"

record 'm coding_env =
  cx_runtime :: "'m coding_runtime option"
  cx_Retrieve :: "(RAGQuery \<Rightarrow> 'm \<Rightarrow> string + RAGResult list) option"
  cx_sprint :: "any \<Rightarrow> string"
  cx_formatTime :: "time \<Rightarrow> string"

definition shouldDelegateToCodingRuntime :: "'m coding_env \<Rightarrow> Task \<Rightarrow> bool" where
  "shouldDelegateToCodingRuntime C task =
     (case cx_runtime C of
        None \<Rightarrow> False
      | Some runtime \<Rightarrow>
          if \<not> cr_Supports runtime task then False
          else
            let hint = ToLower (TrimSpace (routingHintString (cx_sprint C) (t_RoutingHints task) ''coding_runtime'')) in
            if hint \<in> {''disable'', ''disabled'', ''false'', ''off'', ''none''} then False
            else if hint \<noteq> [] \<and> hint \<in> {''force'', ''forced'', ''true'', ''on'', ToLower (cr_Name runtime)} then True
            else if isSourcecraftWork task then True
            else if t_Type task \<in> {TaskTypeCode, TaskTypeFix, TaskTypeTest, TaskTypeReview, TaskTypePlan} then True
            else if ti_Files (t_Input task) \<noteq> [] then True
            else ToLower (TrimSpace (t_RequiredCapability task)) \<in> {''sourcecraft'', ''code'', ''review''})"

definition codingRuntimeName :: "'m coding_env \<Rightarrow> string" where
  "codingRuntimeName C =
     (case cx_runtime C of
        None \<Rightarrow> ''opencode''
      | Some runtime \<Rightarrow> if TrimSpace (cr_Name runtime) \<noteq> [] then TrimSpace (cr_Name runtime) else ''opencode'')"

definition codingRuntimeModeFromHints :: "(any \<Rightarrow> string) \<Rightarrow> Task \<Rightarrow> CodingRuntimeMode" where
  "codingRuntimeModeFromHints sprint task =
     (let hint = ToLower (TrimSpace (routingHintString sprint (t_RoutingHints task) ''coding_mode'')) in
      if hint = ''plan'' then CodingRuntimeModePlan
      else if hint = ''review'' then CodingRuntimeModeReview
      else if hint = ''build'' then CodingRuntimeModeBuild
      else if t_Type task = TaskTypePlan then CodingRuntimeModePlan
      else if t_Type task = TaskTypeReview then CodingRuntimeModeReview
      else CodingRuntimeModeBuild)"

definition cleanStrings :: "string list \<Rightarrow> string list" where
  "cleanStrings items = filter (\<lambda>text. text \<noteq> []) (map TrimSpace items)"

definition stringListFromAny :: "(any \<Rightarrow> string) \<Rightarrow> any option \<Rightarrow> string list" where
  "stringListFromAny sprint value =
     (case value of
        Some (AnyStrings items) \<Rightarrow> items
      | Some (AnyList items) \<Rightarrow> cleanStrings (map sprint items)
      | Some (AnyString text) \<Rightarrow> if TrimSpace text = [] then [] else cleanStrings (split_on (CHR '','') text)
      | _ \<Rightarrow> [])"

definition firstNonEmptyList :: "string list list \<Rightarrow> string list" where
  "firstNonEmptyList xss = (case find (\<lambda>list. cleanStrings list \<noteq> []) xss of None \<Rightarrow> [] | Some list \<Rightarrow> cleanStrings list)"

text \<open>A conversion of a float64 to an int cuts towards zero.\<close>

definition routingHintInt :: "Task \<Rightarrow> string \<Rightarrow> int \<Rightarrow> int" where
  "routingHintInt task key fallback =
     (case map_of (t_RoutingHints task) key of
        Some (AnyInt i) \<Rightarrow> i
      | Some (AnyFloat x) \<Rightarrow> if x \<ge> 0 then \<lfloor>x\<rfloor> else \<lceil>x\<rceil>
      | _ \<Rightarrow> fallback)"

definition ragLines :: "nat \<Rightarrow> RAGResult \<Rightarrow> string" where
  "ragLines idx item =
     ''['' @ nat_to_string (idx + 1) @ ''] '' @ TrimSpace (rr_DocumentID item) @ [CHR 0x0A] @
     (if TrimSpace (rr_Content item) \<noteq> [] then TrimSpace (rr_Content item) @ [CHR 0x0A] else [])"

definition formatRAGResults :: "RAGResult list \<Rightarrow> string" where
  "formatRAGResults results = TrimSpace (concat (map2 ragLines [0..<length results] results))"

definition retrieveCodingRuntimeRAGContext :: "'m coding_env \<Rightarrow> Task \<Rightarrow> 'm \<Rightarrow> RAGResult list" where
  "retrieveCodingRuntimeRAGContext C task m =
     (case cx_Retrieve C of
        None \<Rightarrow> []
      | Some retrieve \<Rightarrow>
          let query = TrimSpace (ti_Description (t_Input task));
              query = (if query = [] then join_with '' '' (ti_Files (t_Input task)) else query);
              query = (if query = [] then firstNonEmptyString [t_RequiredCapability task, tc_Project (t_Context task)] else query) in
          if query = [] then []
          else (case retrieve \<lparr>rq_Query = query, rq_SessionID = t_SessionID task, rq_TaskID = t_ID task,
                  rq_Limit = routingHintInt task ''coding_rag_limit'' 6,
                  rq_Filters = [(''repository'', AnyString (firstNonEmptyString [tc_RepoPath (t_Context task), tc_Project (t_Context task)])),
                    (''task_type'', AnyString (taskTypeText (t_Type task)))]\<rparr> m of
                  Inl err \<Rightarrow> [] | Inr results \<Rightarrow> results))"

definition buildCodingRuntimeRequest :: "'m coding_env \<Rightarrow> Task \<Rightarrow> ExecutionPlan \<Rightarrow> 'm \<Rightarrow> CodingRuntimeRequest" where
  "buildCodingRuntimeRequest C task plan m =
     (let mode = codingRuntimeModeFromHints (cx_sprint C) task;
          ragResults = retrieveCodingRuntimeRAGContext C task m;
          own = [(''project'', AnyString (tc_Project (t_Context task))),
            (''repo'', AnyString (firstNonEmptyString [tc_RepoPath (t_Context task), tc_Project (t_Context task)])),
            (''session_id'', AnyString (t_SessionID task)), (''routing_mode'', AnyString (codingModeText mode)),
            (''orchestrator'', AnyString ''go-core''), (''plan_step_count'', AnyInt (int (length (ep_Steps plan)))),
            (''plan_primary_capability'', AnyString (ep_PrimaryCapability plan))];
          metadata = fold (\<lambda>(k, v). map_set k v) own (cloneMap (t_ExecutionContract task));
          metadata = (if ragResults \<noteq> [] then map_set ''rag_context'' (AnyString (formatRAGResults ragResults)) metadata else metadata);
          allowed = (\<lambda>k. firstNonEmptyList [stringListFromAny (cx_sprint C) (map_of (t_ExecutionContract task) k),
            stringListFromAny (cx_sprint C) (map_of (t_RoutingHints task) k)])
      in \<lparr>rx_Task = task, rx_Plan = plan, rx_Mode = mode, rx_AllowedTools = allowed ''allowed_tools'',
          rx_AllowedSubagents = allowed ''allowed_subagents'', rx_RAGResults = ragResults, rx_Metadata = metadata\<rparr>)"

section \<open>Results\<close>

definition failedCodingRuntimeResult :: "'m coding_env \<Rightarrow> time \<Rightarrow> Task \<Rightarrow> string \<Rightarrow> AgentResult" where
  "failedCodingRuntimeResult C now task err =
     \<lparr>ar_TaskID = t_ID task, ar_AgentID = codingRuntimeName C, ar_Status = TaskStatusFailed, ar_Confidence = 0,
      ar_Errors = [err], ar_NextRecommendations = [''retry_with_fallback_model'', ''inspect_coding_runtime''],
      ar_Provider = codingRuntimeName C, ar_ModelName = [],
      ar_Output = \<lparr>ro_Summary = [], ro_FilesChanged = [], ro_CommandsRun = [], ro_TestResults = [], ro_Artifacts = []\<rparr>,
      ar_CompletedAt = now\<rparr>"

definition firstNonEmptyComplexity :: "Complexity list \<Rightarrow> Complexity" where
  "firstNonEmptyComplexity values =
     (case find (\<lambda>value. value \<noteq> ComplexityOther []) values of None \<Rightarrow> ComplexityMedium | Some value \<Rightarrow> value)"

definition newCodingRuntimeAcceptance :: "time \<Rightarrow> Task \<Rightarrow> TaskAcceptance" where
  "newCodingRuntimeAcceptance now task =
     \<lparr>ta_TaskID = t_ID task, ta_Status = TaskStatusAccepted, ta_AgentID = [],
      ta_Complexity = firstNonEmptyComplexity [t_Complexity task, ComplexityMedium],
      ta_Reason = ''delegated to coding runtime'', ta_Capability = t_RequiredCapability task,
      ta_Provider = firstNonEmptyString [t_AssignedProvider task], ta_ModelName = firstNonEmptyString [t_AssignedModel task],
      ta_RequiresSecondaryReview = False, ta_AcceptedAt = now\<rparr>"

definition firstNonZeroTime :: "time \<Rightarrow> time list \<Rightarrow> time" where
  "firstNonZeroTime now values = (case find (\<lambda>value. value \<noteq> zero_time) values of None \<Rightarrow> now | Some value \<Rightarrow> value)"

definition attachCodingRuntimeTaskContext ::
    "'m coding_env \<Rightarrow> time \<Rightarrow> Task \<Rightarrow> CodingRuntimeSession \<Rightarrow> CodingRuntimeRequest \<Rightarrow> Task" where
  "attachCodingRuntimeTaskContext C now task session req =
     (let contract = cloneMap (t_ExecutionContract task);
          contract = map_set ''coding_runtime'' (AnyString (firstNonEmptyString [sx_Runtime session, sx_Provider session])) contract;
          contract = map_set ''coding_runtime_session_id'' (AnyString (sx_SessionID session)) contract;
          contract = map_set ''coding_runtime_mode'' (AnyString (codingModeText (rx_Mode req))) contract;
          contract = map_set ''coding_runtime_accepted_at''
            (AnyString (cx_formatTime C (firstNonZeroTime now [sx_AcceptedAt session, now]))) contract;
          contract = (if rx_RAGResults req \<noteq> []
            then map_set ''coding_runtime_rag_results'' (AnyString (formatRAGResults (rx_RAGResults req))) contract else contract)
      in task\<lparr>t_ExecutionContract := contract\<rparr>)"

definition normalizeTaskStatusResult :: "AgentResult \<Rightarrow> Task \<Rightarrow> AgentResult" where
  "normalizeTaskStatusResult result task =
     result\<lparr>ar_Status := normalizeTaskStatus (ar_Status result),
            ar_TaskID := (if ar_TaskID result = [] then t_ID task else ar_TaskID result)\<rparr>"

definition finalizeCodingRuntimeWorkflow ::
    "'m coding_env \<Rightarrow> time \<Rightarrow> Task \<Rightarrow> ExecutionPlan \<Rightarrow> CodingRuntimeRequest \<Rightarrow> CodingRuntimeSession \<Rightarrow> AgentResult \<Rightarrow> WorkflowRecord" where
  "finalizeCodingRuntimeWorkflow C now task plan req session result =
     (let result = (if TrimSpace (ar_TaskID result) = [] then result\<lparr>ar_TaskID := t_ID task\<rparr> else result);
          result = (if TrimSpace (ar_AgentID result) = [] then result\<lparr>ar_AgentID := codingRuntimeName C\<rparr> else result);
          result = (if TrimSpace (ar_Provider result) = []
                    then result\<lparr>ar_Provider := firstNonEmptyString [sx_Provider session, codingRuntimeName C]\<rparr> else result);
          result = (if TrimSpace (ar_ModelName result) = [] then result\<lparr>ar_ModelName := sx_Model session\<rparr> else result);
          result = (if ar_CompletedAt result = zero_time then result\<lparr>ar_CompletedAt := now\<rparr> else result);
          acceptance = (newCodingRuntimeAcceptance now task)\<lparr>ta_Status := normalizeTaskStatus (ar_Status result)\<rparr>;
          acceptance = (if ta_Status acceptance = TaskStatusCompleted
                        then acceptance\<lparr>ta_Reason := firstNonEmptyString [ta_Reason acceptance, ''coding runtime execution completed'']\<rparr>
                        else if ar_Errors result \<noteq> []
                        then acceptance\<lparr>ta_Reason := firstNonEmptyString [join_with ''; '' (ar_Errors result), ta_Reason acceptance]\<rparr>
                        else acceptance)
      in \<lparr>wf_Task = attachCodingRuntimeTaskContext C now task session req, wf_Plan = plan, wf_Acceptance = acceptance,
          wf_Result = Some result, wf_UpdatedAt = now\<rparr>)"

section \<open>Dispatch\<close>

definition onMem :: "('m \<Rightarrow> 'a \<times> 'm) \<Rightarrow> ('b, 'm, 's) Kernel \<Rightarrow> 'a \<times> ('b, 'm, 's) Kernel" where
  "onMem f k = (let (x, m) = f (or_memory (kn_orch k)) in (x, k\<lparr>kn_orch := (kn_orch k)\<lparr>or_memory := m\<rparr>\<rparr>))"

definition waitedResult :: "'m coding_env \<Rightarrow> time \<Rightarrow> Task \<Rightarrow> string + AgentResult \<Rightarrow> AgentResult" where
  "waitedResult C now task waited =
     (case waited of Inl err \<Rightarrow> failedCodingRuntimeResult C now task err | Inr result \<Rightarrow> normalizeTaskStatusResult result task)"

definition startFailed :: "'m coding_env \<Rightarrow> time \<Rightarrow> Task \<Rightarrow> ExecutionPlan \<Rightarrow> string \<Rightarrow> WorkflowRecord" where
  "startFailed C now task plan err =
     \<lparr>wf_Task = task, wf_Plan = plan, wf_Acceptance = newCodingRuntimeAcceptance now task,
      wf_Result = Some (failedCodingRuntimeResult C now task err), wf_UpdatedAt = now\<rparr>"

definition pendingRecord ::
    "'m coding_env \<Rightarrow> time \<Rightarrow> Task \<Rightarrow> ExecutionPlan \<Rightarrow> CodingRuntimeRequest \<Rightarrow> CodingRuntimeSession \<Rightarrow> WorkflowRecord" where
  "pendingRecord C now task plan req session =
     \<lparr>wf_Task = attachCodingRuntimeTaskContext C now task session req, wf_Plan = plan,
      wf_Acceptance = newCodingRuntimeAcceptance now task, wf_Result = None, wf_UpdatedAt = now\<rparr>"

definition onSessions :: "(codingRuntimeSessionMapper \<Rightarrow> codingRuntimeSessionMapper) \<Rightarrow> ('b, 'm, 's) Kernel \<Rightarrow> ('b, 'm, 's) Kernel" where
  "onSessions f k = k\<lparr>kn_sessions := f (kn_sessions k)\<rparr>"

definition dispatchCodingRuntimeTaskSync ::
    "'m coding_env \<Rightarrow> 'm coding_runtime \<Rightarrow> 's workflow_ops \<Rightarrow> time \<Rightarrow> Task \<Rightarrow> ExecutionPlan \<Rightarrow> ('b, 'm, 's) Kernel
     \<Rightarrow> (string + WorkflowRecord) \<times> ('b, 'm, 's) Kernel" where
  "dispatchCodingRuntimeTaskSync C runtime W now task plan k =
     (let req = buildCodingRuntimeRequest C task plan (or_memory (kn_orch k));
          (started, k) = onMem (cr_StartTask runtime req) k in
      case started of
        Inl err \<Rightarrow> saveThen W (startFailed C now task plan err) id k
      | Inr session \<Rightarrow>
          let k = onSessions (bindSession (t_ID task) session) k;
              unbind = onSessions (unbindSession (t_ID task) (sx_SessionID session));
              (saved, k) = saveThen W (pendingRecord C now task plan req session) id k in
          case saved of
            Inl err \<Rightarrow> (Inl err, unbind k)
          | Inr _ \<Rightarrow>
              let (waited, k) = onMem (cr_WaitTask runtime session) k;
                  record = finalizeCodingRuntimeWorkflow C now task plan req session (waitedResult C now task waited);
                  kind = (if isFailureStatus (ta_Status (wf_Acceptance record)) then ''task.failed'' else ''task.completed'');
                  (res, k) = saveThen W record (\<lambda>k. notifyWorkflowWaiters record (publishEvent ''tasks'' kind (t_ID task) k)) k
              in (res, unbind k))"

text \<open>The asynchronous dispatch returns when the task is started; the goroutine it leaves behind waits for the
  result and is \<open>codingRuntimeFinished\<close>.\<close>

definition dispatchCodingRuntimeTaskAsync ::
    "'m coding_env \<Rightarrow> 'm coding_runtime \<Rightarrow> 's workflow_ops \<Rightarrow> time \<Rightarrow> Task \<Rightarrow> ExecutionPlan \<Rightarrow> ('b, 'm, 's) Kernel
     \<Rightarrow> ((string + WorkflowRecord) \<times> (CodingRuntimeRequest \<times> CodingRuntimeSession) option) \<times> ('b, 'm, 's) Kernel" where
  "dispatchCodingRuntimeTaskAsync C runtime W now task plan k =
     (let req = buildCodingRuntimeRequest C task plan (or_memory (kn_orch k));
          (started, k) = onMem (cr_StartTask runtime req) k in
      case started of
        Inl err \<Rightarrow>
          let record = startFailed C now task plan err; (res, k) = saveThen W record (notifyWorkflowWaiters record) k
          in ((res, None), k)
      | Inr session \<Rightarrow>
          let k = onSessions (bindSession (t_ID task) session) k;
              (saved, k) = saveThen W (pendingRecord C now task plan req session) id k in
          case saved of
            Inl err \<Rightarrow> ((Inl err, None), onSessions (unbindSession (t_ID task) (sx_SessionID session)) k)
          | Inr record \<Rightarrow> ((Inr record, Some (req, session)), k))"

definition codingRuntimeFinished ::
    "'m coding_env \<Rightarrow> 'm coding_runtime \<Rightarrow> 's workflow_ops \<Rightarrow> time \<Rightarrow> Task \<Rightarrow> ExecutionPlan
     \<Rightarrow> CodingRuntimeRequest \<Rightarrow> CodingRuntimeSession \<Rightarrow> ('b, 'm, 's) Kernel \<Rightarrow> ('b, 'm, 's) Kernel" where
  "codingRuntimeFinished C runtime W now task plan req session k =
     (let (waited, k) = onMem (cr_WaitTask runtime session) k;
          record = finalizeCodingRuntimeWorkflow C now task plan req session (waitedResult C now task waited);
          kind = (if isFailureStatus (ta_Status (wf_Acceptance record)) then ''task.failed'' else ''task.completed'');
          (res, k) = saveThen W record (publishEvent ''tasks'' kind (t_ID task)) k;
          k = notifyWorkflowWaiters record k
      in onSessions (unbindSession (t_ID task) (sx_SessionID session)) k)"

section \<open>Contracts\<close>

lemma onMem_frame [simp]:
  "kn_store (snd (onMem f k)) = kn_store k" "kn_sessions (snd (onMem f k)) = kn_sessions k" "kn_waiters (snd (onMem f k)) = kn_waiters k"
  by (simp_all add: onMem_def Let_def split_def)

lemma onSessions_frame [simp]:
  "kn_store (onSessions f k) = kn_store k" "kn_sessions (onSessions f k) = f (kn_sessions k)" "kn_waiters (onSessions f k) = kn_waiters k"
  by (simp_all add: onSessions_def)

lemma publishEvent_frame [simp]:
  "kn_store (publishEvent topic kind entity k) = kn_store k" "kn_sessions (publishEvent topic kind entity k) = kn_sessions k"
  "kn_waiters (publishEvent topic kind entity k) = kn_waiters k"
  by (simp_all add: publishEvent_def)

lemma notify_frame [simp]:
  "kn_store (notifyWorkflowWaiters r k) = kn_store k" "kn_sessions (notifyWorkflowWaiters r k) = kn_sessions k"
  by (simp_all add: notifyWorkflowWaiters_def Let_def)

lemma saveThen_sessions: "(\<And>x. kn_sessions (f x) = kn_sessions x) \<Longrightarrow> kn_sessions (snd (saveThen W r f k)) = kn_sessions k"
  by (simp add: saveThen_def split: prod.split option.split)

lemma attach_task_id [simp]: "t_ID (attachCodingRuntimeTaskContext C now task session req) = t_ID task"
  by (simp add: attachCodingRuntimeTaskContext_def Let_def)

lemma finalize_task [simp]:
  "wf_Task (finalizeCodingRuntimeWorkflow C now task plan req session result) = attachCodingRuntimeTaskContext C now task session req"
  by (simp add: finalizeCodingRuntimeWorkflow_def Let_def)

lemma finalize_status:
  "ta_Status (wf_Acceptance (finalizeCodingRuntimeWorkflow C now task plan req session result)) = normalizeTaskStatus (ar_Status result)"
  by (simp add: finalizeCodingRuntimeWorkflow_def Let_def)

lemma normalize_idem [simp]: "normalizeTaskStatus (normalizeTaskStatus status) = normalizeTaskStatus status"
  by (simp add: normalizeTaskStatus_def)

lemma waited_terminal:
  "isTerminalTaskStatus (normalizeTaskStatus (ar_Status (waitedResult C now task waited))) \<longleftrightarrow>
     (case waited of Inl err \<Rightarrow> True | Inr result \<Rightarrow> isTerminalTaskStatus (ar_Status result))"
  by (auto simp: waitedResult_def isTerminalTaskStatus_def normalizeTaskStatusResult_def failedCodingRuntimeResult_def normalizeTaskStatus_def split: sum.split)

lemma unbound [simp]:
  "taskID \<noteq> [] \<Longrightarrow> sm_byTaskID (unbindSession taskID sid m) taskID = None"
  "sid \<noteq> [] \<Longrightarrow> sm_bySessionID (unbindSession taskID sid m) sid = None"
  "sid \<noteq> [] \<Longrightarrow> sm_sessionMetadata (unbindSession taskID sid m) sid = None"
  by (simp_all add: unbindSession_def Let_def)

text \<open>Unbinding takes back a binding of fresh ids.\<close>

lemma unbind_bind:
  assumes "taskID \<noteq> []" "sx_SessionID session \<noteq> []"
    and "sm_byTaskID m taskID = None" "sm_bySessionID m (sx_SessionID session) = None" "sm_sessionMetadata m (sx_SessionID session) = None"
  shows "unbindSession taskID (sx_SessionID session) (bindSession taskID session m) = m"
  using assms by (simp add: unbindSession_def bindSession_def Let_def fun_upd_idem_iff)

context workflow_store
begin

lemma sync_delegation_recorded: "recorded W (t_ID task) (dispatchCodingRuntimeTaskSync C runtime W now task plan k)"
proof -
  let ?req = "buildCodingRuntimeRequest C task plan (or_memory (kn_orch k))"
  obtain started k1 where 1: "onMem (cr_StartTask runtime ?req) k = (started, k1)" by force
  show ?thesis
  proof (cases started)
    case (Inl err)
    then show ?thesis unfolding dispatchCodingRuntimeTaskSync_def Let_def 1 prod.case
      by (simp add: startFailed_def saveThen_recorded)
  next
    case (Inr session)
    let ?k = "onSessions (bindSession (t_ID task) session) k1"
    obtain saved k2 where 2: "saveThen W (pendingRecord C now task plan ?req session) id ?k = (saved, k2)" by force
    obtain waited k3 where 3: "onMem (cr_WaitTask runtime session) k2 = (waited, k3)" by force
    let ?r = "finalizeCodingRuntimeWorkflow C now task plan ?req session (waitedResult C now task waited)"
    let ?f = "\<lambda>k. notifyWorkflowWaiters ?r (publishEvent ''tasks'' (if isFailureStatus (ta_Status (wf_Acceptance ?r)) then ''task.failed'' else ''task.completed'') (t_ID task) k)"
    have "recorded W (t_ID task) (saveThen W ?r ?f k3)" by (rule saveThen_recorded) simp_all
    then show ?thesis
      unfolding dispatchCodingRuntimeTaskSync_def Let_def 1 prod.case Inr sum.case 2
      by (cases saved) (simp_all add: 3 recorded_def split_def)
  qed
qed

end

section \<open>Properties\<close>

text \<open>A delegated task ends with its record stored: what the synchronous delegation returns is what the store
  answers for the task afterwards.\<close>

theorem delegated_record_is_stored:
  assumes "dispatchCodingRuntimeTaskSync C runtime (file_workflow_ops enc fault) now task plan k = (Inr r, k')"
  shows "GetWorkflow (fst (kn_store k')) (t_ID task) = Some r"
  using file_workflows.sync_delegation_recorded [of enc fault task C runtime now plan k] assms
  by (simp add: file_workflow_ops_def recorded_def)

text \<open>The goroutine of an asynchronous delegation always frees its session, whether or not the record can be
  saved. When it can, the record has the status the runtime reported, a runtime that fails counts as a
  failed task, and a record with a final status leaves no waiter registered.\<close>

theorem finished_delegation_frees_the_session:
  assumes "onMem (cr_WaitTask runtime session) k = (waited, k1)" "t_ID task \<noteq> []" "sx_SessionID session \<noteq> []"
    and "codingRuntimeFinished C runtime (file_workflow_ops enc fault) now task plan req session k = k'"
  shows "sm_byTaskID (kn_sessions k') (t_ID task) = None \<and> sm_bySessionID (kn_sessions k') (sx_SessionID session) = None \<and>
    ((case waited of Inl err \<Rightarrow> True | Inr result \<Rightarrow> isTerminalTaskStatus (ar_Status result)) \<longrightarrow> kn_waiters k' (t_ID task) = []) \<and>
    (\<forall>r. GetWorkflow (fst (kn_store k')) (t_ID task) = Some r \<and> GetWorkflow (fst (kn_store k)) (t_ID task) \<noteq> Some r \<longrightarrow>
       ta_Status (wf_Acceptance r) =
         (case waited of Inl err \<Rightarrow> TaskStatusFailed | Inr result \<Rightarrow> normalizeTaskStatus (ar_Status result)))"
  (is "?byTask \<and> ?bySession \<and> (?final \<longrightarrow> ?waiters) \<and> ?status")
proof (intro conjI impI)
  let ?r = "finalizeCodingRuntimeWorkflow C now task plan req session (waitedResult C now task waited)"
  let ?kind = "if isFailureStatus (ta_Status (wf_Acceptance ?r)) then ''task.failed'' else ''task.completed''"
  let ?W = "file_workflow_ops enc fault"
  obtain res k2 where k2: "saveThen ?W ?r (publishEvent ''tasks'' ?kind (t_ID task)) k1 = (res, k2)" by force
  have k': "k' = onSessions (unbindSession (t_ID task) (sx_SessionID session)) (notifyWorkflowWaiters ?r k2)"
    using assms(1,4) k2 by (simp add: codingRuntimeFinished_def Let_def)
  show "sm_byTaskID (kn_sessions k') (t_ID task) = None" "sm_bySessionID (kn_sessions k') (sx_SessionID session) = None"
    using assms(2,3) by (simp_all add: k')
  show ?waiters if ?final
    using that waited_terminal [of C now task waited]
    by (simp add: k' notifyWorkflowWaiters_def Let_def terminalRecord_def finalize_status)
  have old: "kn_store k1 = kn_store k" using assms(1) onMem_frame(1) [of "cr_WaitTask runtime session" k] by simp
  show ?status
  proof (cases "\<exists>r. res = Inr r")
    case True
    then have "ws_GetWorkflow ?W (t_ID task) (kn_store k2) = Inr (Some ?r)"
      using file_workflows.saveThen_stored(2) [of enc fault ?r "publishEvent ''tasks'' ?kind (t_ID task)" k1 _ k2] k2 by auto
    then show ?thesis
      using finalize_status [of C now task plan req session "waitedResult C now task waited"]
      by (auto simp: k' file_workflow_ops_def waitedResult_def normalizeTaskStatusResult_def failedCodingRuntimeResult_def
        normalizeTaskStatus_def split: sum.split)
  next
    case False
    then have "GetWorkflow (fst (kn_store k2)) (t_ID task) = GetWorkflow (fst (kn_store k1)) (t_ID task) \<or>
        GetWorkflow (fst (kn_store k2)) (t_ID task) = Some ?r"
      using k2 by (auto simp: saveThen_def file_workflow_ops_def SaveWorkflow_def update_def GetWorkflow_def Let_def split_def split: option.splits if_splits)
    then show ?thesis
      using finalize_status [of C now task plan req session "waitedResult C now task waited"]
      by (auto simp: k' old waitedResult_def normalizeTaskStatusResult_def failedCodingRuntimeResult_def normalizeTaskStatus_def split: sum.split)
  qed
qed

text \<open>C9. When the runtime cannot start a task, the delegation stores a failed result under an acceptance that still
  says accepted. No status of the record is final, so a client that waits for the workflow is not
  answered by it, neither when it looks into the store nor when the record is sent to it.\<close>

theorem failed_start_never_ends:
  assumes "fst (cr_StartTask runtime (buildCodingRuntimeRequest C task plan (or_memory (kn_orch k))) (or_memory (kn_orch k))) = Inl err"
    and "dispatchCodingRuntimeTaskAsync C runtime (file_workflow_ops enc fault) now task plan k = ((Inr r, bg), k')" "t_ID task \<noteq> []"
  shows "bg = None \<and> map_option ar_Status (wf_Result r) = Some TaskStatusFailed \<and> \<not> terminalRecord r \<and>
    kn_waiters k' = kn_waiters k \<and> waitCheck (file_workflow_ops enc fault) (t_ID task) k' = WaitRegister"
proof -
  let ?req = "buildCodingRuntimeRequest C task plan (or_memory (kn_orch k))" and ?W = "file_workflow_ops enc fault"
  let ?r = "startFailed C now task plan err"
  obtain k1 where 1: "onMem (cr_StartTask runtime ?req) k = (Inl err, k1)" using assms(1) by (simp add: onMem_def Let_def split_def)
  then have k1: "kn_waiters k1 = kn_waiters k" using onMem_frame(3) [of "cr_StartTask runtime ?req" k] by simp
  have 2: "saveThen ?W ?r (notifyWorkflowWaiters ?r) k1 = (Inr r, k')" and bg: "bg = None"
    using assms(2) 1 by (auto simp: dispatchCodingRuntimeTaskAsync_def Let_def split_def prod_eq_iff)
  have r: "r = ?r" "ws_GetWorkflow ?W (t_ID task) (kn_store k') = Inr (Some ?r)"
    using file_workflows.saveThen_stored [OF 2] by (simp_all add: startFailed_def)
  have open': "\<not> terminalRecord ?r"
    by (simp add: startFailed_def terminalRecord_def newCodingRuntimeAcceptance_def isTerminalTaskStatus_def normalizeTaskStatus_def)
  then have "kn_waiters k' = kn_waiters k1"
    using 2 by (auto simp: saveThen_def notifyWorkflowWaiters_def Let_def split: prod.splits option.splits)
  then show ?thesis
    using r open' bg k1 assms(3) by (simp add: waitCheck_def) (simp add: startFailed_def failedCodingRuntimeResult_def)
qed

section \<open>Witnesses\<close>

definition example_coding_runtime :: "string + CodingRuntimeSession \<Rightarrow> unit coding_runtime" where
  "example_coding_runtime started = \<lparr>cr_Name = ''opencode'', cr_Supports = (\<lambda>_. True), cr_StartTask = (\<lambda>_ m. (started, m)),
     cr_WaitTask = (\<lambda>_ m. (Inl ''timeout'', m))\<rparr>"

definition example_coding_session :: CodingRuntimeSession where
  "example_coding_session = \<lparr>sx_Runtime = ''opencode'', sx_SessionID = ''s1'', sx_Provider = ''p'', sx_Model = ''m'', sx_AcceptedAt = 1, sx_Metadata = []\<rparr>"

definition example_coding_env :: "string + CodingRuntimeSession \<Rightarrow> unit coding_env" where
  "example_coding_env started = \<lparr>cx_runtime = Some (example_coding_runtime started), cx_Retrieve = None, cx_sprint = (\<lambda>_. []), cx_formatTime = (\<lambda>_. [])\<rparr>"

definition example_coding_request :: CodingRuntimeRequest where
  "example_coding_request = buildCodingRuntimeRequest (example_coding_env (Inr example_coding_session)) zero_Task zero_ExecutionPlan ()"

lemma example_save:
  "\<exists>s. ws_SaveWorkflow example_workflow_ops r s0 = (None, s)"
  by (cases s0) (auto simp: example_workflow_ops_def file_workflow_ops_def SaveWorkflow_def update_def persistLocked_def Let_def split_def)

lemma example_saveThen: "\<exists>k'. saveThen example_workflow_ops r f k = (Inr r, k')"
  using example_save [of r "kn_store k"] by (auto simp: saveThen_def)

theorem delegated_record_is_stored_witness:
  "\<exists>r. GetWorkflow (fst (kn_store (snd (dispatchCodingRuntimeTaskSync (example_coding_env (Inl ''down'')) (example_coding_runtime (Inl ''down''))
     example_workflow_ops 5 (zero_Task\<lparr>t_ID := ''t1''\<rparr>) zero_ExecutionPlan example_kernel_state)))) ''t1'' = Some r"
proof -
  let ?C = "example_coding_env (Inl ''down'')" and ?R = "example_coding_runtime (Inl ''down'')" and ?t = "zero_Task\<lparr>t_ID := ''t1''\<rparr>"
  have "\<exists>r k'. dispatchCodingRuntimeTaskSync ?C ?R example_workflow_ops 5 ?t zero_ExecutionPlan example_kernel_state = (Inr r, k')"
    using example_saveThen by (fastforce simp: dispatchCodingRuntimeTaskSync_def example_coding_runtime_def onMem_def Let_def)
  then obtain r k' where r: "dispatchCodingRuntimeTaskSync ?C ?R example_workflow_ops 5 ?t zero_ExecutionPlan example_kernel_state = (Inr r, k')" by blast
  show ?thesis using delegated_record_is_stored [OF r [unfolded example_workflow_ops_def]] r by simp
qed

theorem finished_delegation_frees_the_session_witness:
  "sm_byTaskID (kn_sessions (codingRuntimeFinished (example_coding_env (Inr example_coding_session)) (example_coding_runtime (Inr example_coding_session))
     example_workflow_ops 5 (zero_Task\<lparr>t_ID := ''t1''\<rparr>) zero_ExecutionPlan example_coding_request example_coding_session example_kernel_state)) ''t1'' = None"
proof -
  have w: "onMem (cr_WaitTask (example_coding_runtime (Inr example_coding_session)) example_coding_session) example_kernel_state =
      (Inl ''timeout'', snd (onMem (cr_WaitTask (example_coding_runtime (Inr example_coding_session)) example_coding_session) example_kernel_state))"
    by (simp add: onMem_def example_coding_runtime_def)
  show ?thesis
    using finished_delegation_frees_the_session [OF w, where task = "zero_Task\<lparr>t_ID := ''t1''\<rparr>" and enc = "\<lambda>_. Some []" and fault = NoFault
        and C = "example_coding_env (Inr example_coding_session)" and now = 5 and plan = zero_ExecutionPlan and req = example_coding_request, OF _ _ refl]
    by (simp add: example_coding_session_def example_workflow_ops_def)
qed

theorem failed_start_never_ends_witness:
  "\<exists>k' r. dispatchCodingRuntimeTaskAsync (example_coding_env (Inl ''down'')) (example_coding_runtime (Inl ''down''))
     example_workflow_ops 5 (zero_Task\<lparr>t_ID := ''t1''\<rparr>) zero_ExecutionPlan example_kernel_state = ((Inr r, None), k') \<and>
     \<not> terminalRecord r \<and> waitCheck example_workflow_ops ''t1'' k' = WaitRegister"
proof -
  let ?C = "example_coding_env (Inl ''down'')" and ?R = "example_coding_runtime (Inl ''down'')" and ?t = "zero_Task\<lparr>t_ID := ''t1''\<rparr>"
  let ?r = "startFailed ?C 5 ?t zero_ExecutionPlan ''down''"
  let ?k = "snd (onMem (cr_StartTask ?R (buildCodingRuntimeRequest ?C ?t zero_ExecutionPlan ())) example_kernel_state)"
  obtain k' where "saveThen example_workflow_ops ?r (notifyWorkflowWaiters ?r) ?k = (Inr ?r, k')"
    using example_saveThen [of ?r "notifyWorkflowWaiters ?r" ?k] by blast
  then have r: "dispatchCodingRuntimeTaskAsync ?C ?R example_workflow_ops 5 ?t zero_ExecutionPlan example_kernel_state = ((Inr ?r, None), k')"
    by (simp add: dispatchCodingRuntimeTaskAsync_def onMem_def example_coding_runtime_def Let_def)
  have "fst (cr_StartTask ?R (buildCodingRuntimeRequest ?C ?t zero_ExecutionPlan (or_memory (kn_orch example_kernel_state))) (or_memory (kn_orch example_kernel_state))) = Inl ''down''"
    by (simp add: example_coding_runtime_def)
  from failed_start_never_ends [OF this r [unfolded example_workflow_ops_def]] r show ?thesis
    by (simp add: example_workflow_ops_def)
qed

end
