(* ===== verification/Submission.thy ===== *)
theory Submission
  imports CodingRuntime
begin

text \<open>
  The submission of tasks in \<open>go-core/internal/kernel/orchestrator.go\<close>: the synchronous path, which
  plans, routes and runs a task before it returns, and the asynchronous path, which stores and queues
  it, dispatches it to the mailbox of an agent and takes its result from the result queue. The model
  selector, the fresh task id, the cache guard and the token budgets of package \<open>memory\<close>, the format of
  a percentage, and the JSON round trip of a task are arguments; the queues of the bus are operations
  that a bus may lack. Inventory snapshots are left out.
\<close>

section \<open>Environment\<close>

record ('b, 'm) submission_env =
  sb_kernel :: "('b, 'm) kernel_env"
  sb_coding :: "'m coding_env"
  sb_getenv :: "string \<Rightarrow> string"
  sb_select :: "Task \<Rightarrow> ModelSelection"
  sb_newTaskID :: string
  sb_adaptive :: bool
  sb_CacheGuardSnapshot :: "string \<Rightarrow> string \<Rightarrow> 'm \<Rightarrow> go_map"
  sb_EstimateTaskTokens :: "Task \<Rightarrow> int"
  sb_EvaluateModelBudget :: "Task \<Rightarrow> string \<Rightarrow> int \<Rightarrow> 'm \<Rightarrow> go_map"
  sb_formatPercent :: "rat \<Rightarrow> string"
  sb_decodeTask :: "any \<Rightarrow> string + Task"
  sb_EnqueueTask :: "(Task \<Rightarrow> 'b \<Rightarrow> string option \<times> 'b) option"
  sb_NackTask :: "Task \<Rightarrow> bool \<Rightarrow> 'b \<Rightarrow> 'b"
  sb_PublishResult :: "(TaskResultEnvelope \<Rightarrow> 'b \<Rightarrow> string option \<times> 'b) option"

definition submissionModeEnabled :: "(string \<Rightarrow> string) \<Rightarrow> bool" where
  "submissionModeEnabled getenv = EqualFold (TrimSpace (getenv ''GO_CORE_SUBMIT_MODE'')) ''async''"

text \<open>The defaults that each of the three entry points fills in.\<close>

definition submissionDefaults :: "string \<Rightarrow> time \<Rightarrow> Task \<Rightarrow> Task" where
  "submissionDefaults newID now task =
     (let task = (if t_ID task = [] then task\<lparr>t_ID := newID\<rparr> else task);
          task = (if t_SessionID task = [] then task\<lparr>t_SessionID := t_ID task\<rparr> else task);
          task = (if t_CreatedAt task = zero_time then task\<lparr>t_CreatedAt := now\<rparr> else task);
          task = (if t_Priority task = PriorityOther [] then task\<lparr>t_Priority := PriorityNormal\<rparr> else task);
          task = (if t_MemoryScope task = [] then task\<lparr>t_MemoryScope := ''session''\<rparr> else task)
      in if t_CachePolicy task = [] then task\<lparr>t_CachePolicy := ''read_write''\<rparr> else task)"

definition rejectedAcceptance :: "time \<Rightarrow> Task \<Rightarrow> string \<Rightarrow> TaskAcceptance" where
  "rejectedAcceptance now task reason =
     zero_TaskAcceptance\<lparr>ta_TaskID := t_ID task, ta_Status := TaskStatusRejected, ta_Complexity := ComplexityLow,
       ta_Reason := reason, ta_AcceptedAt := now\<rparr>"

definition policyRejection :: "time \<Rightarrow> Task \<Rightarrow> WorkflowRecord" where
  "policyRejection now task =
     \<lparr>wf_Task = task, wf_Plan = zero_ExecutionPlan,
      wf_Acceptance = rejectedAcceptance now task
        (firstNonEmptyString [join_with ''; '' (pd_Reasons (preflightPolicy task)), ''task rejected by policy'']),
      wf_Result = None, wf_UpdatedAt = now\<rparr>"

definition guardBlocks :: "go_map \<Rightarrow> bool" where
  "guardBlocks guard \<longleftrightarrow> map_of guard ''blocked'' = Some (AnyBool True)"

definition guardReason :: "go_map \<Rightarrow> string" where
  "guardReason guard = firstNonEmptyString [kernelString (map_of guard ''reason''), ''cache guard blocked task execution'']"

text \<open>The record of a task that the cache guard blocks; the two paths differ in the summary and the
  artifacts.\<close>

definition guardRejection :: "time \<Rightarrow> Task \<Rightarrow> go_map \<Rightarrow> string \<Rightarrow> go_map \<Rightarrow> WorkflowRecord" where
  "guardRejection now task guard summary artifacts =
     \<lparr>wf_Task = task, wf_Plan = zero_ExecutionPlan, wf_Acceptance = rejectedAcceptance now task (guardReason guard),
      wf_Result = Some \<lparr>ar_TaskID = t_ID task, ar_AgentID = [], ar_Status = TaskStatusRejected, ar_Confidence = 0,
        ar_Errors = [guardReason guard], ar_NextRecommendations = [], ar_Provider = [], ar_ModelName = [],
        ar_Output = \<lparr>ro_Summary = summary, ro_FilesChanged = [], ro_CommandsRun = [], ro_TestResults = [],
          ro_Artifacts = artifacts\<rparr>,
        ar_CompletedAt = now\<rparr>,
      wf_UpdatedAt = now\<rparr>"

definition applyAdaptivePolicy ::
    "('b, 'm) submission_env \<Rightarrow> time \<Rightarrow> Task \<Rightarrow> ExecutionPlan \<Rightarrow> ('b, 'm) Orchestrator \<Rightarrow> Task \<times> ('b, 'm) Orchestrator" where
  "applyAdaptivePolicy B now task plan o' =
     (if \<not> sb_adaptive B then (task, o')
      else let ((adapted, decision), rt) = Apply now task plan (ro_runtime (or_router o'))
        in (adapted, o'\<lparr>or_router := (or_router o')\<lparr>ro_runtime := rt\<rparr>\<rparr>))"

definition routeTask ::
    "('b, 'm) submission_env \<Rightarrow> time \<Rightarrow> Task \<Rightarrow> ExecutionPlan \<Rightarrow> ('b, 'm) Orchestrator
     \<Rightarrow> (TaskAcceptance \<times> Agent option) \<times> ('b, 'm) Orchestrator" where
  "routeTask B now task plan o' =
     (let X = sb_kernel B; (choice, r) = Route (ke_canAccept X) (ke_parseFloat X) now task plan (or_router o')
      in (choice, o'\<lparr>or_router := r\<rparr>))"

text \<open>The reason to refuse an assignment, if the runtime policy has one.\<close>

definition assignmentRefused ::
    "time \<Rightarrow> Task \<Rightarrow> TaskAcceptance \<Rightarrow> Agent \<Rightarrow> ('b, 'm) Orchestrator \<Rightarrow> string option \<times> ('b, 'm) Orchestrator" where
  "assignmentRefused now task acceptance agent o' =
     (case ro_runtime (or_router o') of
        None \<Rightarrow> (None, o')
      | Some m \<Rightarrow>
          let ((state, _), m) = State now (ai_ID (ag_Info agent)) m;
              o' = o'\<lparr>or_router := (or_router o')\<lparr>ro_runtime := Some m\<rparr>\<rparr>;
              decision = assignmentPolicy task acceptance (ag_Info agent) state in
          (if decisionBlocks decision
           then Some (firstNonEmptyString [join_with ''; '' (pd_Reasons decision), ''assignment rejected by runtime policy''])
           else None, o'))"

section \<open>Token budgets\<close>

definition asFloat64 :: "any option \<Rightarrow> rat" where
  "asFloat64 value = (case value of Some (AnyFloat x) \<Rightarrow> x | Some (AnyInt i) \<Rightarrow> of_int i | _ \<Rightarrow> 0)"

definition budgetFallbackProviders :: "string \<Rightarrow> string list" where
  "budgetFallbackProviders currentProvider = fold (\<lambda>provider ordered.
     let trimmed = ToLower (TrimSpace provider) in
     if trimmed = [] \<or> trimmed \<in> set ordered then ordered else ordered @ [trimmed])
     [currentProvider, ''local'', ''mistral'', ''codexsale'', ''openai''] []"

definition budgetAction :: "go_map \<Rightarrow> string" where
  "budgetAction budget = ToLower (kernelString (map_of budget ''action''))"

definition budgetHints :: "go_map \<Rightarrow> go_map \<Rightarrow> go_map" where
  "budgetHints budget hints =
     (let hints = map_set ''model_budget'' (AnyMap budget) (cloneMap hints)
      in if budgetAction budget = ''reduce'' then map_set ''token_pressure'' (AnyString ''reduce'') hints
         else map_delete ''token_pressure'' hints)"

text \<open>The search for an agent of a fallback provider with budget left. The loop of the source has no bound of
  its own: the first argument bounds the number of turns, and \<open>None\<close> says that the bound was met.\<close>

fun budgetSearch ::
    "nat \<Rightarrow> ('b, 'm) submission_env \<Rightarrow> time \<Rightarrow> Task \<Rightarrow> ExecutionPlan \<Rightarrow> int \<Rightarrow> string list \<Rightarrow> string list \<Rightarrow> ('b, 'm) Orchestrator
     \<Rightarrow> (go_map \<times> TaskAcceptance \<times> Agent) option option \<times> ('b, 'm) Orchestrator" where
  "budgetSearch 0 B now task plan tokens providers exclude o' = (None, o')"
| "budgetSearch (Suc n) B now task plan tokens providers exclude o' =
     (let X = sb_kernel B;
          ((acceptance, choice), r) = RouteWithinProviders (ke_canAccept X) (ke_parseFloat X) now task plan providers exclude (or_router o');
          o' = o'\<lparr>or_router := r\<rparr> in
      case choice of
        None \<Rightarrow> (Some None, o')
      | Some agent \<Rightarrow>
          let budget = sb_EvaluateModelBudget B task (ta_ModelName acceptance) tokens (or_memory o') in
          if budgetAction budget = ''error''
          then budgetSearch n B now task plan tokens providers (exclude @ [ai_ID (ag_Info agent)]) o'
          else (Some (Some (budget, acceptance, agent)), o'))"

definition budgetFailureResult :: "('b, 'm) submission_env \<Rightarrow> time \<Rightarrow> Task \<Rightarrow> TaskAcceptance \<Rightarrow> Agent \<Rightarrow> go_map \<Rightarrow> AgentResult" where
  "budgetFailureResult B now task acceptance agent budget =
     (let summary = ''Model '' @ ta_ModelName acceptance @ '' blocked: remaining token budget '' @
            sb_formatPercent B (asFloat64 (map_of budget ''remaining_percentage'')) @ ''% is below floor '' @
            sb_formatPercent B (asFloat64 (map_of budget ''error_below_percentage'')) @ ''%''
      in \<lparr>ar_TaskID = t_ID task, ar_AgentID = ai_ID (ag_Info agent), ar_Status = TaskStatusFailed, ar_Confidence = 0,
          ar_Errors = [summary], ar_NextRecommendations = [], ar_Provider = ta_Provider acceptance,
          ar_ModelName = ta_ModelName acceptance,
          ar_Output = \<lparr>ro_Summary = summary, ro_FilesChanged = [], ro_CommandsRun = [], ro_TestResults = [],
            ro_Artifacts = [(''token_budget'', AnyMap budget)]\<rparr>,
          ar_CompletedAt = now\<rparr>)"

text \<open>The bound is the number of registered agents; the bounded search never meets it (see below).\<close>

definition enforceModelBudgetPolicy ::
    "('b, 'm) submission_env \<Rightarrow> time \<Rightarrow> Task \<Rightarrow> ExecutionPlan \<Rightarrow> TaskAcceptance \<Rightarrow> Agent \<Rightarrow> ('b, 'm) Orchestrator
     \<Rightarrow> (Task \<times> TaskAcceptance \<times> Agent \<times> AgentResult option) \<times> ('b, 'm) Orchestrator" where
  "enforceModelBudgetPolicy B now task plan acceptance agent o' =
     (let tokens = sb_EstimateTaskTokens B task;
          budget = sb_EvaluateModelBudget B task (ta_ModelName acceptance) tokens (or_memory o');
          task = task\<lparr>t_RoutingHints := budgetHints budget (t_RoutingHints task)\<rparr> in
      if budgetAction budget \<noteq> ''error'' then ((task, acceptance, agent, None), o')
      else
        let (found, o') = budgetSearch (Suc (nat (agentCount o'))) B now task plan tokens
               (budgetFallbackProviders (ta_Provider acceptance)) [ai_ID (ag_Info agent)] o' in
        case found of
          Some (Some (budget, acceptance, agent)) \<Rightarrow>
            ((task\<lparr>t_RoutingHints := budgetHints budget (t_RoutingHints task), t_AssignedProvider := ta_Provider acceptance,
                   t_AssignedModel := ta_ModelName acceptance\<rparr>, acceptance, agent, None), o')
        | _ \<Rightarrow> ((task, acceptance, agent, Some (budgetFailureResult B now task acceptance agent budget)), o'))"

section \<open>The synchronous path\<close>

definition runAssigned ::
    "('b, 'm) submission_env \<Rightarrow> 's workflow_ops \<Rightarrow> time \<Rightarrow> Task \<Rightarrow> ExecutionPlan \<Rightarrow> TaskAcceptance \<Rightarrow> Agent
     \<Rightarrow> ('b, 'm, 's) Kernel \<Rightarrow> (string + WorkflowRecord) \<times> ('b, 'm, 's) Kernel" where
  "runAssigned B W now task plan acceptance agent k =
     (let X = sb_kernel B;
          (task, k) = onOrch (attachRuntimeContext X now task acceptance (ag_Info agent)) k;
          k = publishEvent ''tasks'' ''task.accepted'' (t_ID task) k;
          ((finalAcceptance, finalTask, result), k) = onOrch (executeTaskP2P X now task plan acceptance agent) k;
          finalAcceptance = finalAcceptance\<lparr>ta_Status := normalizeTaskStatus (ar_Status result)\<rparr>;
          finalAcceptance = (if ta_Status finalAcceptance = TaskStatusCompleted \<and> TrimSpace (ta_Reason finalAcceptance) = []
                             then finalAcceptance\<lparr>ta_Reason := ''execution completed''\<rparr> else finalAcceptance);
          record = \<lparr>wf_Task = finalTask, wf_Plan = plan, wf_Acceptance = finalAcceptance, wf_Result = Some result, wf_UpdatedAt = now\<rparr>;
          kind = (if ta_Status finalAcceptance \<in> {TaskStatusFailed, TaskStatusDeadLettered} then ''task.failed'' else ''task.completed'')
      in saveThen W record (\<lambda>k. notifyWorkflowWaiters record (publishEvent ''tasks'' kind (t_ID task) k)) k)"

definition submitRouted ::
    "('b, 'm) submission_env \<Rightarrow> 's workflow_ops \<Rightarrow> time \<Rightarrow> Task \<Rightarrow> ExecutionPlan
     \<Rightarrow> ('b, 'm, 's) Kernel \<Rightarrow> (string + WorkflowRecord) \<times> ('b, 'm, 's) Kernel" where
  "submitRouted B W now task plan k =
     (let ((acceptance, choice), k) = onOrch (routeTask B now task plan) k;
          record = \<lparr>wf_Task = task, wf_Plan = plan, wf_Acceptance = acceptance, wf_Result = None, wf_UpdatedAt = now\<rparr>;
          reject = (\<lambda>acceptance. saveThen W (record\<lparr>wf_Acceptance := acceptance\<lparr>ta_Status := TaskStatusRejected\<rparr>\<rparr>)
                      (publishEvent ''tasks'' ''task.rejected'' (t_ID task))) in
      case choice of
        None \<Rightarrow> reject acceptance k
      | Some agent \<Rightarrow>
          let (refused, k) = onOrch (assignmentRefused now task acceptance agent) k in
          (case refused of
             Some reason \<Rightarrow> reject (acceptance\<lparr>ta_Reason := reason\<rparr>) k
           | None \<Rightarrow>
               let ((task, acceptance, agent, failure), k) = onOrch (enforceModelBudgetPolicy B now task plan acceptance agent) k in
               (case failure of
                  Some result \<Rightarrow>
                    saveThen W (record\<lparr>wf_Task := task, wf_Acceptance := acceptance, wf_Result := Some result\<rparr>)
                      (publishEvent ''tasks'' ''task.failed'' (t_ID task)) k
                | None \<Rightarrow> runAssigned B W now task plan acceptance agent k)))"

definition submitTaskSync ::
    "('b, 'm) submission_env \<Rightarrow> 's workflow_ops \<Rightarrow> time \<Rightarrow> Task \<Rightarrow> ('b, 'm, 's) Kernel
     \<Rightarrow> (string + WorkflowRecord) \<times> ('b, 'm, 's) Kernel" where
  "submitTaskSync B W now task k =
     (let task = submissionDefaults (sb_newTaskID B) now task;
          rejectedEvent = publishEvent ''tasks'' ''task.rejected'' (t_ID task);
          guard = sb_CacheGuardSnapshot B (t_SessionID task) (tc_Branch (t_Context task)) (or_memory (kn_orch k)) in
      if t_Type task = TaskTypeOther [] then (Inl ''task type is required'', rejectedEvent k)
      else if decisionBlocks (preflightPolicy task) then saveThen W (policyRejection now task) rejectedEvent k
      else if guardBlocks guard then
        let action = firstNonEmptyString [kernelString (map_of guard ''action''), ''cache_guard_blocked''];
            (_, k) = onMem (\<lambda>m. ((), ke_RecordHardStop (sb_kernel B) task action (guardReason guard) m)) k
        in saveThen W (guardRejection now task guard (''Task blocked by cache guard for session '' @ t_SessionID task)
             [(''cache_guard'', AnyMap guard), (''validation_context'', AnyMap guard)]) rejectedEvent k
      else
        let (task, plan) = Prepare (sb_getenv B) (sb_select B) now task;
            (task, k) = onOrch (applyAdaptivePolicy B now task plan) k in
        case cx_runtime (sb_coding B) of
          Some runtime \<Rightarrow>
            if shouldDelegateToCodingRuntime (sb_coding B) task
            then dispatchCodingRuntimeTaskSync (sb_coding B) runtime W now task plan k
            else submitRouted B W now task plan k
        | None \<Rightarrow> submitRouted B W now task plan k)"

section \<open>The asynchronous path\<close>

definition onMessageBus :: "('b \<Rightarrow> 'a \<times> 'b) \<Rightarrow> ('b, 'm, 's) Kernel \<Rightarrow> 'a \<times> ('b, 'm, 's) Kernel" where
  "onMessageBus f = onOrch (onDelivery (\<lambda>d. let (x, b) = f (sv_messageBus d) in (x, d\<lparr>sv_messageBus := b\<rparr>)))"

definition queuedRecord :: "time \<Rightarrow> Task \<Rightarrow> WorkflowRecord" where
  "queuedRecord now task =
     \<lparr>wf_Task = task, wf_Plan = zero_ExecutionPlan,
      wf_Acceptance = zero_TaskAcceptance\<lparr>ta_TaskID := t_ID task, ta_Status := TaskStatusQueued,
        ta_Complexity := (if t_Complexity task = ComplexityOther [] then ComplexityLow else t_Complexity task),
        ta_Reason := ''queued_for_async_submission'', ta_AcceptedAt := now\<rparr>,
      wf_Result = None, wf_UpdatedAt = now\<rparr>"

definition SubmitTaskAsync ::
    "('b, 'm) submission_env \<Rightarrow> 's workflow_ops \<Rightarrow> time \<Rightarrow> Task \<Rightarrow> ('b, 'm, 's) Kernel
     \<Rightarrow> (string + WorkflowRecord) \<times> ('b, 'm, 's) Kernel" where
  "SubmitTaskAsync B W now task k =
     (let task = submissionDefaults (sb_newTaskID B) now task in
      case sb_EnqueueTask B of
        None \<Rightarrow> submitTaskSync B W now task k
      | Some enqueue \<Rightarrow>
          let (saved, k) = saveThen W (queuedRecord now task) id k in
          (case saved of
             Inl err \<Rightarrow> (Inl err, k)
           | Inr record \<Rightarrow>
               let (failed, k) = onMessageBus (enqueue task) k in
               (case failed of
                  Some err \<Rightarrow> (Inl err, k)
                | None \<Rightarrow> (Inr record, publishEvent ''tasks'' ''task.queued'' (t_ID task) k))))"

definition SubmitTask ::
    "('b, 'm) submission_env \<Rightarrow> 's workflow_ops \<Rightarrow> time \<Rightarrow> Task \<Rightarrow> ('b, 'm, 's) Kernel
     \<Rightarrow> (string + WorkflowRecord) \<times> ('b, 'm, 's) Kernel" where
  "SubmitTask B W now task k =
     (if submissionModeEnabled (sb_getenv B) then SubmitTaskAsync B W now task k else submitTaskSync B W now task k)"

definition DispatchEnvelope ::
    "('b, 'm) submission_env \<Rightarrow> time \<Rightarrow> TaskEnvelope \<Rightarrow> ('b, 'm, 's) Kernel \<Rightarrow> ('b, 'm, 's) Kernel" where
  "DispatchEnvelope B now envelope k = snd (onOrch (onDelivery (Dispatch (ke_delivery (sb_kernel B)) now envelope)) k)"

text \<open>The end of \<open>dispatchTaskAsync\<close>: the task runs from here on at the agent.\<close>

definition sendAssigned ::
    "('b, 'm) submission_env \<Rightarrow> 's workflow_ops \<Rightarrow> time \<Rightarrow> Task \<Rightarrow> ExecutionPlan \<Rightarrow> TaskAcceptance \<Rightarrow> Agent
     \<Rightarrow> ('b, 'm, 's) Kernel \<Rightarrow> (string + WorkflowRecord) \<times> ('b, 'm, 's) Kernel" where
  "sendAssigned B W now task plan acceptance agent k =
     (let (task, k) = onOrch (attachRuntimeContext (sb_kernel B) now task acceptance (ag_Info agent)) k;
          acceptance = acceptance\<lparr>ta_Status := TaskStatusRunning\<rparr>;
          record = \<lparr>wf_Task = task, wf_Plan = plan, wf_Acceptance = acceptance, wf_Result = None, wf_UpdatedAt = now\<rparr>;
          envelope = buildPeerEnvelope now task acceptance plan (ag_Info agent) (routingHintInt task ''p2p_attempt'' 1) (kn_orch k)
      in saveThen W record (\<lambda>k. publishEvent ''tasks'' ''task.running'' (t_ID task) (DispatchEnvelope B now envelope k)) k)"

definition dispatchRouted ::
    "('b, 'm) submission_env \<Rightarrow> 's workflow_ops \<Rightarrow> time \<Rightarrow> Task \<Rightarrow> ExecutionPlan
     \<Rightarrow> ('b, 'm, 's) Kernel \<Rightarrow> (string + WorkflowRecord) \<times> ('b, 'm, 's) Kernel" where
  "dispatchRouted B W now task plan k =
     (let ((acceptance, choice), k) = onOrch (routeTask B now task plan) k;
          record = \<lparr>wf_Task = task, wf_Plan = plan, wf_Acceptance = acceptance, wf_Result = None, wf_UpdatedAt = now\<rparr>;
          announce = (\<lambda>record. saveThen W record (notifyWorkflowWaiters record));
          reject = (\<lambda>acceptance. announce (record\<lparr>wf_Acceptance := acceptance\<lparr>ta_Status := TaskStatusRejected\<rparr>\<rparr>)) in
      case choice of
        None \<Rightarrow> reject acceptance k
      | Some agent \<Rightarrow>
          let (refused, k) = onOrch (assignmentRefused now task acceptance agent) k in
          (case refused of
             Some reason \<Rightarrow> reject (acceptance\<lparr>ta_Reason := reason\<rparr>) k
           | None \<Rightarrow>
               let ((task, acceptance, agent, failure), k) = onOrch (enforceModelBudgetPolicy B now task plan acceptance agent) k in
               (case failure of
                  Some result \<Rightarrow>
                    announce (record\<lparr>wf_Task := task,
                      wf_Acceptance := acceptance\<lparr>ta_Status := normalizeTaskStatus (ar_Status result)\<rparr>, wf_Result := Some result\<rparr>) k
                | None \<Rightarrow> sendAssigned B W now task plan acceptance agent k)))"

text \<open>What the goroutine of a delegated task needs to finish.\<close>

type_synonym delegation = "Task \<times> ExecutionPlan \<times> CodingRuntimeRequest \<times> CodingRuntimeSession"

definition dispatchTaskAsync ::
    "('b, 'm) submission_env \<Rightarrow> 's workflow_ops \<Rightarrow> time \<Rightarrow> Task \<Rightarrow> ('b, 'm, 's) Kernel
     \<Rightarrow> ((string + WorkflowRecord) \<times> delegation option) \<times> ('b, 'm, 's) Kernel" where
  "dispatchTaskAsync B W now task k =
     (let task = submissionDefaults (sb_newTaskID B) now task;
          guard = sb_CacheGuardSnapshot B (t_SessionID task) (tc_Branch (t_Context task)) (or_memory (kn_orch k));
          direct = (\<lambda>(res, k). ((res, None), k));
          announce = (\<lambda>record. saveThen W record (notifyWorkflowWaiters record)) in
      if t_Type task = TaskTypeOther [] then ((Inl ''task type is required'', None), k)
      else if decisionBlocks (preflightPolicy task) then direct (announce (policyRejection now task) k)
      else if guardBlocks guard
      then direct (announce (guardRejection now task guard (guardReason guard) [(''cache_guard'', AnyMap guard)]) k)
      else
        let (task, plan) = Prepare (sb_getenv B) (sb_select B) now task;
            (task, k) = onOrch (applyAdaptivePolicy B now task plan) k in
        case cx_runtime (sb_coding B) of
          Some runtime \<Rightarrow>
            if shouldDelegateToCodingRuntime (sb_coding B) task
            then (let ((res, bg), k) = dispatchCodingRuntimeTaskAsync (sb_coding B) runtime W now task plan k
              in ((res, map_option (\<lambda>(req, session). (task, plan, req, session)) bg), k))
            else direct (dispatchRouted B W now task plan k)
        | None \<Rightarrow> direct (dispatchRouted B W now task plan k))"

text \<open>What a submission worker does with a task of the queue.\<close>

definition workSubmission ::
    "('b, 'm) submission_env \<Rightarrow> 's workflow_ops \<Rightarrow> time \<Rightarrow> Task \<Rightarrow> ('b, 'm, 's) Kernel \<Rightarrow> delegation option \<times> ('b, 'm, 's) Kernel" where
  "workSubmission B W now task k =
     (let k = publishEvent ''tasks'' ''task.dequeued'' (t_ID task) k;
          ((res, bg), k) = dispatchTaskAsync B W now task k in
      case res of
        Inl err \<Rightarrow>
          let k = publishEvent ''tasks'' ''task.failed'' (t_ID task) k;
              (_, k) = onMessageBus (\<lambda>b. ((), sb_NackTask B task True b)) k
          in (None, k)
      | Inr record \<Rightarrow> (bg, k))"

section \<open>Results\<close>

definition decodeTaskFromEnvelope :: "('b, 'm) submission_env \<Rightarrow> TaskEnvelope \<Rightarrow> string + Task" where
  "decodeTaskFromEnvelope B envelope =
     (case map_of (tp_InputData (te_Payload envelope)) ''task'' of
        None \<Rightarrow> Inl ''task payload is missing''
      | Some rawTask \<Rightarrow>
          (case sb_decodeTask B rawTask of
             Inl err \<Rightarrow> Inl err
           | Inr task \<Rightarrow>
               let task = (if t_ID task = [] then task\<lparr>t_ID := te_TaskID envelope\<rparr> else task);
                   task = (if t_ParentTaskID task = [] then task\<lparr>t_ParentTaskID := te_ParentTaskID envelope\<rparr> else task)
               in Inr (if t_SessionID task = []
                       then task\<lparr>t_SessionID := firstNonEmptyString [te_CorrelationID envelope, t_ID task]\<rparr> else task)))"

definition buildTaskResultEnvelope :: "time \<Rightarrow> Task \<Rightarrow> TaskEnvelope \<Rightarrow> TaskAcceptance \<Rightarrow> AgentResult \<Rightarrow> TaskResultEnvelope" where
  "buildTaskResultEnvelope now task envelope acceptance result =
     \<lparr>tr_TaskID = t_ID task, tr_ParentTaskID = t_ParentTaskID task, tr_TraceID = te_TraceID envelope,
      tr_CorrelationID = firstNonEmptyString [t_SessionID task, te_CorrelationID envelope, t_ID task],
      tr_SourceAgent = te_SourceAgent envelope,
      tr_TargetAgent = firstNonEmptyString [ar_AgentID result, ta_AgentID acceptance, te_TargetAgent envelope],
      tr_Status = normalizeTaskStatus (ar_Status result), tr_Result = result, tr_CreatedAt = now\<rparr>"

definition publishResultEnvelope ::
    "('b, 'm) submission_env \<Rightarrow> TaskResultEnvelope \<Rightarrow> ('b, 'm, 's) Kernel \<Rightarrow> string option \<times> ('b, 'm, 's) Kernel" where
  "publishResultEnvelope B r k =
     (case sb_PublishResult B of None \<Rightarrow> (Some ''result queue is unavailable'', k) | Some publish \<Rightarrow> onMessageBus (publish r) k)"

text \<open>The task of an envelope whose payload cannot be read.\<close>

definition envelopeTask :: "('b, 'm) submission_env \<Rightarrow> TaskEnvelope \<Rightarrow> Task" where
  "envelopeTask B envelope =
     (case decodeTaskFromEnvelope B envelope of
        Inr task \<Rightarrow> task
      | Inl err \<Rightarrow> zero_Task\<lparr>t_ID := te_TaskID envelope, t_ParentTaskID := te_ParentTaskID envelope,
          t_SessionID := firstNonEmptyString [te_CorrelationID envelope, te_TaskID envelope]\<rparr>)"

definition publishEnvelopeFailure ::
    "('b, 'm) submission_env \<Rightarrow> time \<Rightarrow> TaskEnvelope \<Rightarrow> AgentInfo \<Rightarrow> string \<Rightarrow> ('b, 'm, 's) Kernel \<Rightarrow> string option \<times> ('b, 'm, 's) Kernel" where
  "publishEnvelopeFailure B now envelope agent reason k =
     (let task = envelopeTask B envelope;
          acceptance = zero_TaskAcceptance\<lparr>ta_TaskID := t_ID task, ta_AgentID := ai_ID agent, ta_Provider := ai_Provider agent,
            ta_ModelName := ai_ModelName agent, ta_Status := TaskStatusFailed, ta_AcceptedAt := now\<rparr>
      in publishResultEnvelope B (buildTaskResultEnvelope now task envelope acceptance
           (failedAttemptResult now task acceptance agent reason)) k)"

definition publishEnvelopeDeadLetter ::
    "('b, 'm) submission_env \<Rightarrow> 's workflow_ops \<Rightarrow> time \<Rightarrow> TaskEnvelope \<Rightarrow> string \<Rightarrow> ('b, 'm, 's) Kernel \<Rightarrow> string option \<times> ('b, 'm, 's) Kernel" where
  "publishEnvelopeDeadLetter B W now envelope reason k =
     (let task = envelopeTask B envelope;
          acceptance = zero_TaskAcceptance\<lparr>ta_TaskID := t_ID task, ta_AgentID := te_TargetAgent envelope,
            ta_Status := TaskStatusDeadLettered, ta_AcceptedAt := now\<rparr>;
          acceptance = (case ws_GetWorkflow W (t_ID task) (kn_store k) of
             Inr (Some workflow) \<Rightarrow> if ta_TaskID (wf_Acceptance workflow) \<noteq> [] then wf_Acceptance workflow else acceptance
           | _ \<Rightarrow> acceptance);
          acceptance = acceptance\<lparr>ta_AgentID := firstNonEmptyString [ta_AgentID acceptance, te_TargetAgent envelope],
            ta_Status := TaskStatusDeadLettered\<rparr>;
          result = \<lparr>ar_TaskID = t_ID task, ar_AgentID = ta_AgentID acceptance, ar_Status = TaskStatusDeadLettered,
            ar_Confidence = 0, ar_Errors = [reason], ar_NextRecommendations = [], ar_Provider = ta_Provider acceptance,
            ar_ModelName = ta_ModelName acceptance,
            ar_Output = \<lparr>ro_Summary = reason, ro_FilesChanged = [], ro_CommandsRun = [], ro_TestResults = [], ro_Artifacts = []\<rparr>,
            ar_CompletedAt = now\<rparr>
      in publishResultEnvelope B (buildTaskResultEnvelope now task envelope acceptance result) k)"

definition envelopeAcceptance ::
    "'s workflow_ops \<Rightarrow> time \<Rightarrow> Task \<Rightarrow> TaskEnvelope \<Rightarrow> AgentInfo \<Rightarrow> 's \<Rightarrow> TaskAcceptance" where
  "envelopeAcceptance W now task envelope agent s =
     (let own = zero_TaskAcceptance\<lparr>ta_TaskID := t_ID task, ta_AgentID := te_TargetAgent envelope,
            ta_Provider := t_AssignedProvider task, ta_ModelName := t_AssignedModel task,
            ta_Capability := t_RequiredCapability task, ta_Status := TaskStatusRunning, ta_AcceptedAt := now,
            ta_Complexity := t_Complexity task\<rparr>;
          acceptance = (case ws_GetWorkflow W (t_ID task) s of
             Inr (Some workflow) \<Rightarrow> if ta_TaskID (wf_Acceptance workflow) \<noteq> [] then wf_Acceptance workflow else own
           | _ \<Rightarrow> own)
      in if ta_AgentID acceptance = [] then acceptance\<lparr>ta_AgentID := ai_ID agent\<rparr> else acceptance)"

definition agentRan ::
    "('b, 'm) submission_env \<Rightarrow> time \<Rightarrow> Task \<Rightarrow> TaskEnvelope \<Rightarrow> TaskAcceptance \<Rightarrow> AgentInfo \<Rightarrow> AgentResult \<Rightarrow> duration
     \<Rightarrow> ('b, 'm) Orchestrator \<Rightarrow> ('b, 'm) Orchestrator" where
  "agentRan B now task envelope acceptance agentInfo result latency o' =
     (let X = sb_kernel B; summary = ro_Summary (ar_Output result);
          o' = onMemory (ke_RecordModelUsage X task (ta_ModelName acceptance) result) o';
          o' = (if ar_Status result = TaskStatusFailed then
                  let o' = onMemory (ke_RecordHardStop X task ''agent_execute'' summary) o' in
                  if ro_runtime (or_router o') = None then o'
                  else publishRuntimeEvent ''agents'' ''agent.runtime_failure'' (ai_ID agentInfo)
                         (onRuntime (runtimeFailure now (ai_ID agentInfo) summary) o')
                else onRuntime (\<lambda>m. snd (RecordSuccess now (ai_ID agentInfo) m)) o');
          o' = onMemory (ke_persistExecutionState X task acceptance agentInfo result latency) o'
      in onMemory (ke_RecordPeerExchange X envelope acceptance result summary) o')"

definition handleAgentEnvelope ::
    "('b, 'm) submission_env \<Rightarrow> 's workflow_ops \<Rightarrow> time \<Rightarrow> Agent \<Rightarrow> TaskEnvelope \<Rightarrow> ('b, 'm, 's) Kernel
     \<Rightarrow> string option \<times> ('b, 'm, 's) Kernel" where
  "handleAgentEnvelope B W now agent envelope k =
     (let X = sb_kernel B; agentInfo = ag_Info agent in
      case decodeTaskFromEnvelope B envelope of
        Inl err \<Rightarrow> publishEnvelopeFailure B now envelope agentInfo err k
      | Inr task \<Rightarrow>
          let acceptance = envelopeAcceptance W now task envelope agentInfo (kn_store k) in
          (case ke_acquireExecutionSlots X agentInfo (ta_ModelName acceptance) (or_memory (kn_orch k)) of
             Inl err \<Rightarrow> publishEnvelopeFailure B now envelope agentInfo err k
           | Inr (before, after) \<Rightarrow>
               let (_, k) = onOrch (\<lambda>o'. ((), refreshRuntimeCapacity now agentInfo before o')) k;
                   ((task, result, latency), k) = onMem (ke_executeAgent X task acceptance agent) k;
                   result = result\<lparr>ar_TaskID := t_ID task, ar_AgentID := ai_ID agentInfo,
                     ar_Provider := firstNonEmptyString [ar_Provider result, ta_Provider acceptance],
                     ar_ModelName := firstNonEmptyString [ar_ModelName result, ta_ModelName acceptance],
                     ar_CompletedAt := (if ar_CompletedAt result = zero_time then now else ar_CompletedAt result)\<rparr>;
                   (_, k) = onOrch (\<lambda>o'. ((), agentRan B now task envelope acceptance agentInfo result latency o')) k;
                   (res, k) = publishResultEnvelope B (buildTaskResultEnvelope now task envelope acceptance result) k;
                   (_, k) = onOrch (\<lambda>o'. ((), refreshRuntimeCapacity now agentInfo after o')) k
               in (res, k)))"

definition excludedAgentsFromTask :: "Task \<Rightarrow> string list" where
  "excludedAgentsFromTask task =
     (case map_of (t_RoutingHints task) ''p2p_excluded_agents'' of
        Some (AnyStrings agents) \<Rightarrow> remdups agents
      | Some (AnyList items) \<Rightarrow> remdups (filter (\<lambda>a. a \<noteq> []) (concat (map (\<lambda>item. case item of AnyString a \<Rightarrow> [a] | _ \<Rightarrow> []) items)))
      | _ \<Rightarrow> [])"

definition resultWorkflow :: "time \<Rightarrow> TaskResultEnvelope \<Rightarrow> WorkflowRecord option \<Rightarrow> WorkflowRecord" where
  "resultWorkflow now result stored =
     (let workflow = (case stored of
            Some workflow \<Rightarrow> workflow
          | None \<Rightarrow> \<lparr>wf_Task = zero_Task\<lparr>t_ID := tr_TaskID result, t_ParentTaskID := tr_ParentTaskID result,
                t_SessionID := firstNonEmptyString [tr_CorrelationID result, tr_TaskID result]\<rparr>,
              wf_Plan = zero_ExecutionPlan, wf_Acceptance = zero_TaskAcceptance, wf_Result = None, wf_UpdatedAt = zero_time\<rparr>);
          acceptance = (if ta_TaskID (wf_Acceptance workflow) = []
            then zero_TaskAcceptance\<lparr>ta_TaskID := tr_TaskID result, ta_AgentID := tr_TargetAgent result,
              ta_Status := normalizeTaskStatus (tr_Status result), ta_AcceptedAt := now\<rparr>
            else (wf_Acceptance workflow)\<lparr>ta_Status := normalizeTaskStatus (tr_Status result)\<rparr>)
      in workflow\<lparr>wf_Result := Some (tr_Result result), wf_UpdatedAt := now, wf_Acceptance := acceptance\<rparr>)"

definition zero_AgentInfo :: AgentInfo where
  "zero_AgentInfo = \<lparr>ai_ID = [], ai_Type = [], ai_Provider = [], ai_ModelName = [], ai_Capabilities = [], ai_Status = AgentStatusEmpty\<rparr>"

definition failedAgentID :: "TaskResultEnvelope \<Rightarrow> WorkflowRecord \<Rightarrow> string" where
  "failedAgentID result workflow =
     firstNonEmptyString [ar_AgentID (tr_Result result), tr_TargetAgent result, ta_AgentID (wf_Acceptance workflow)]"

definition excludedByResult :: "TaskResultEnvelope \<Rightarrow> WorkflowRecord \<Rightarrow> string list" where
  "excludedByResult result workflow =
     (let excluded = excludedAgentsFromTask (wf_Task workflow); failed = failedAgentID result workflow
      in if failed = [] \<or> failed \<in> set excluded then excluded else excluded @ [failed])"

text \<open>The workflow after it was sent to another agent.\<close>

definition rerouteWorkflow ::
    "('b, 'm) submission_env \<Rightarrow> time \<Rightarrow> TaskResultEnvelope \<Rightarrow> WorkflowRecord \<Rightarrow> TaskAcceptance \<Rightarrow> Agent \<Rightarrow> ('b, 'm, 's) Kernel
     \<Rightarrow> WorkflowRecord \<times> ('b, 'm, 's) Kernel" where
  "rerouteWorkflow B now result workflow fallback agent k =
     (let attempt = routingHintInt (wf_Task workflow) ''p2p_attempt'' 1 + 1;
          failed = zero_AgentInfo\<lparr>ai_ID := failedAgentID result workflow, ai_Provider := ar_Provider (tr_Result result),
            ai_ModelName := ar_ModelName (tr_Result result)\<rparr>;
          task = withFailureContext (wf_Task workflow) failed (tr_Result result) (attempt - 1) 0;
          task = rebindTaskAssignment task fallback;
          task = annotatePeerAttempt task fallback attempt (excludedByResult result workflow);
          (task, k) = onOrch (attachRuntimeContext (sb_kernel B) now task fallback (ag_Info agent)) k
      in (workflow\<lparr>wf_Task := task, wf_Acceptance := fallback\<lparr>ta_Status := TaskStatusRunning\<rparr>, wf_Result := None, wf_UpdatedAt := now\<rparr>, k))"

definition saved_outcome :: "(string + WorkflowRecord) \<times> ('b, 'm, 's) Kernel \<Rightarrow> string option \<times> ('b, 'm, 's) Kernel" where
  "saved_outcome = (\<lambda>(res, k). (case res of Inl err \<Rightarrow> Some err | Inr _ \<Rightarrow> None, k))"

definition handleTaskResult ::
    "('b, 'm) submission_env \<Rightarrow> 's workflow_ops \<Rightarrow> time \<Rightarrow> TaskResultEnvelope \<Rightarrow> ('b, 'm, 's) Kernel
     \<Rightarrow> string option \<times> ('b, 'm, 's) Kernel" where
  "handleTaskResult B W now result k =
     (case ws_GetWorkflow W (tr_TaskID result) (kn_store k) of
        Inl err \<Rightarrow> (Some err, k)
      | Inr stored \<Rightarrow>
          let workflow = resultWorkflow now result stored;
              ((fallback, choice), k) =
                (if tr_Status result = TaskStatusFailed
                 then onOrch (routePeerFallback (sb_kernel B) now (wf_Task workflow) (wf_Plan workflow)
                        (excludedByResult result workflow) (failedAgentID result workflow)) k
                 else ((zero_TaskAcceptance, None), k)) in
          case choice of
            Some agent \<Rightarrow>
              let attempt = routingHintInt (wf_Task workflow) ''p2p_attempt'' 1 + 1;
                  (workflow, k) = rerouteWorkflow B now result workflow fallback agent k;
                  envelope = buildPeerEnvelope now (wf_Task workflow) (wf_Acceptance workflow) (wf_Plan workflow) (ag_Info agent) attempt (kn_orch k)
              in saved_outcome (saveThen W workflow
                   (\<lambda>k. publishEvent ''tasks'' ''task.rerouted'' (t_ID (wf_Task workflow)) (DispatchEnvelope B now envelope k)) k)
          | None \<Rightarrow>
              if tr_Status result \<in> {TaskStatusQueued, TaskStatusRunning} then saved_outcome (saveThen W workflow id k)
              else
                let kind = (if tr_Status result \<in> {TaskStatusFailed, TaskStatusDeadLettered} then ''task.failed'' else ''task.completed'')
                in saved_outcome (saveThen W workflow
                     (\<lambda>k. notifyWorkflowWaiters workflow (publishEvent ''tasks'' kind (t_ID (wf_Task workflow)) k)) k))"

section \<open>Frames\<close>

lemma onOrch_frame [simp]:
  "kn_store (snd (onOrch f k)) = kn_store k" "kn_waiters (snd (onOrch f k)) = kn_waiters k"
  "kn_sessions (snd (onOrch f k)) = kn_sessions k" "kn_channels (snd (onOrch f k)) = kn_channels k"
  by (simp_all add: onOrch_def Let_def split_def)

lemma onOrch_orch: "onOrch f k = (x, k') \<longleftrightarrow> f (kn_orch k) = (x, kn_orch k') \<and> k' = k\<lparr>kn_orch := kn_orch k'\<rparr>"
  by (auto simp: onOrch_def Let_def split: prod.splits)

lemma onOrch_keeps: "onOrch f k = (x, k') \<Longrightarrow> kn_store k' = kn_store k \<and> kn_waiters k' = kn_waiters k"
  by (metis onOrch_frame(1,2) snd_conv)

lemma DispatchEnvelope_frame [simp]:
  "kn_store (DispatchEnvelope B now envelope k) = kn_store k" "kn_waiters (DispatchEnvelope B now envelope k) = kn_waiters k"
  "or_router (kn_orch (DispatchEnvelope B now envelope k)) = or_router (kn_orch k)"
  by (simp_all add: DispatchEnvelope_def) (simp add: onOrch_def onDelivery_def Let_def split_def)

lemma Prepare_id [simp]: "t_ID (fst (Prepare getenv select now task)) = t_ID task"
  by (simp add: Prepare_def setHint_def Let_def)

lemma applyAdaptive_id [simp]: "t_ID (fst (applyAdaptivePolicy B now task plan o')) = t_ID task"
  by (simp add: applyAdaptivePolicy_def Apply_def Let_def split_def)

lemma attachRuntime_id [simp]: "t_ID (fst (attachRuntimeContext X now task acceptance info o')) = t_ID task"
  by (simp add: attachRuntimeContext_def Let_def split_def)

lemma enforce_id [simp]: "t_ID (fst (fst (enforceModelBudgetPolicy B now task plan acceptance agent o'))) = t_ID task"
  by (simp add: enforceModelBudgetPolicy_def Let_def split_def split: option.split)

lemma peer_task_id [simp]:
  "t_ID (rebindTaskAssignment task acceptance) = t_ID task" "t_ID (withFailureContext task info result attempt latency) = t_ID task"
  "t_ID (annotatePeerAttempt task acceptance attempt excluded) = t_ID task"
  by (simp_all add: rebindTaskAssignment_def withFailureContext_def annotatePeerAttempt_def Let_def)

lemma p2pTurn_id: "p2pTurn X now plan attempt excluded task acceptance agent o' = ((task1, result, latency), o1) \<Longrightarrow> t_ID task1 = t_ID task"
  by (auto simp: p2pTurn_def Let_def split: prod.splits sum.splits)

lemma p2pLoop_id:
  "p2pLoop X now plan maxAttempts attempt excluded task acceptance agent o' = ((acc, task', result), o1) \<Longrightarrow> t_ID task' = t_ID task"
proof (induction "nat (maxAttempts - attempt)" arbitrary: attempt excluded task acceptance agent o' rule: less_induct)
  case less
  obtain task1 result1 latency o2 where turn: "p2pTurn X now plan attempt excluded task acceptance agent o' = ((task1, result1, latency), o2)"
    by (metis surj_pair)
  note id = p2pTurn_id [OF turn]
  obtain facc fagent o3 where fb: "routePeerFallback X now task1 plan excluded (ai_ID (ag_Info agent)) o2 = ((facc, fagent), o3)"
    by (metis surj_pair)
  show ?case
  proof (cases "ar_Status result1 = TaskStatusFailed \<and> fagent \<noteq> None \<and> attempt < maxAttempts")
    case False
    then have "task' = task1"
      using less.prems by (subst (asm) p2pLoop.simps) (auto simp: turn fb Let_def split: option.splits if_splits)
    then show ?thesis using id by simp
  next
    case True
    then obtain next' where n: "fagent = Some next'" by auto
    let ?task = "rebindTaskAssignment (withFailureContext task1 (ag_Info agent) result1 attempt latency) facc"
    let ?ex = "if ai_ID (ag_Info agent) \<in> set excluded then excluded else excluded @ [ai_ID (ag_Info agent)]"
    obtain task2 o4 where at: "attachRuntimeContext X now ?task facc (ag_Info next') o3 = (task2, o4)" by force
    have run: "p2pLoop X now plan maxAttempts (attempt + 1) ?ex task2 facc next' o4 = ((acc, task', result), o1)"
      using less.prems True n by (subst (asm) p2pLoop.simps) (simp add: turn fb at Let_def)
    have "t_ID task2 = t_ID task1" using attachRuntime_id [of X now ?task facc "ag_Info next'" o3] at by simp
    moreover have "t_ID task' = t_ID task2"
      using less.hyps [OF _ run] True by simp
    ultimately show ?thesis using id by simp
  qed
qed

lemma executeTaskP2P_id: "executeTaskP2P X now task plan acceptance agent o' = ((acc, task', result), o1) \<Longrightarrow> t_ID task' = t_ID task"
  using p2pLoop_id by (simp add: executeTaskP2P_def)

section \<open>Returned records are stored\<close>

context workflow_store
begin

lemma runAssigned_recorded: "recorded W (t_ID task) (runAssigned B W now task plan acceptance agent k)"
proof -
  obtain task1 k1 where 1: "onOrch (attachRuntimeContext (sb_kernel B) now task acceptance (ag_Info agent)) k = (task1, k1)" by force
  have id1: "t_ID task1 = t_ID task"
    using 1 attachRuntime_id [of "sb_kernel B" now task acceptance "ag_Info agent" "kn_orch k"] by (simp add: onOrch_orch)
  obtain acc task2 result k2 where 2: "onOrch (executeTaskP2P (sb_kernel B) now task1 plan acceptance agent)
      (publishEvent ''tasks'' ''task.accepted'' (t_ID task1) k1) = ((acc, task2, result), k2)" by (metis surj_pair)
  have id2: "t_ID task2 = t_ID task" using 2 executeTaskP2P_id id1 by (fastforce simp: onOrch_orch)
  show ?thesis unfolding runAssigned_def Let_def 1 2 prod.case
    by (rule saveThen_recorded) (simp_all add: id2)
qed

lemma submitRouted_recorded: "recorded W (t_ID task) (submitRouted B W now task plan k)"
proof -
  obtain acc choice k1 where 1: "onOrch (routeTask B now task plan) k = ((acc, choice), k1)" by (metis surj_pair)
  show ?thesis
  proof (cases choice)
    case None
    then show ?thesis unfolding submitRouted_def Let_def 1 prod.case by (simp add: saveThen_recorded)
  next
    case (Some agent)
    obtain refused k2 where 2: "onOrch (assignmentRefused now task acc agent) k1 = (refused, k2)" by force
    obtain task3 acc3 agent3 failure k3 where 3: "onOrch (enforceModelBudgetPolicy B now task plan acc agent) k2 =
        ((task3, acc3, agent3, failure), k3)" by (metis surj_pair)
    have id: "t_ID task3 = t_ID task"
      using 3 enforce_id [of B now task plan acc agent "kn_orch k2"] by (simp add: onOrch_orch)
    show ?thesis
      unfolding submitRouted_def Let_def 1 prod.case Some option.case 2
      using runAssigned_recorded [of task3] id
      by (cases refused; cases failure) (simp_all add: 3 saveThen_recorded)
  qed
qed

lemma submitTaskSync_recorded:
  "recorded W (t_ID (submissionDefaults (sb_newTaskID B) now task)) (submitTaskSync B W now task k)"
proof -
  let ?task = "submissionDefaults (sb_newTaskID B) now task"
  obtain task1 plan where 1: "Prepare (sb_getenv B) (sb_select B) now ?task = (task1, plan)" by force
  have id1: "t_ID task1 = t_ID ?task" using 1 Prepare_id [of "sb_getenv B" "sb_select B" now ?task] by simp
  obtain task2 k2 where 2: "onOrch (applyAdaptivePolicy B now task1 plan) k = (task2, k2)" by force
  have id2: "t_ID task2 = t_ID ?task" using 2 id1 applyAdaptive_id [of B now task1 plan "kn_orch k"] by (simp add: onOrch_orch)
  have routed: "recorded W (t_ID ?task) (submitRouted B W now task2 plan k2)" using submitRouted_recorded [of task2] id2 by simp
  have delegated: "recorded W (t_ID ?task) (dispatchCodingRuntimeTaskSync (sb_coding B) runtime W now task2 plan k2)" for runtime
    using sync_delegation_recorded [of task2] id2 by simp
  show ?thesis
    unfolding submitTaskSync_def Let_def
    by (auto simp: 1 2 routed delegated policyRejection_def guardRejection_def recorded_error onMem_def split_def
      intro!: saveThen_recorded split: option.split)
qed

end

section \<open>The search within the budget\<close>

definition agentIDs :: "Router \<Rightarrow> string set" where
  "agentIDs r = (\<lambda>a. ai_ID (ag_Info a)) ` set (Agents (routerRegistry r))"

lemma agentIDs_finite [simp]: "finite (agentIDs r)"
  by (simp add: agentIDs_def)

lemma agentIDs_same: "sameAgents r r' \<Longrightarrow> agentIDs r' = agentIDs r"
  by (simp add: agentIDs_def sameAgents_def)

lemma agentIDs_count: "card (agentIDs (or_router o')) \<le> nat (agentCount o')"
  unfolding agentIDs_def agentCount_def nat_int by (metis card_image_le card_length finite_set le_trans)

lemma rankedOne_step:
  assumes "router_ok r" "candidate \<in> set (Agents (routerRegistry r))"
    and "rankedOne canAccept parseFloat now task plan providers exclude candidate ((best, s), r) = ((best', s'), r')"
  shows "sameAgents r r' \<and> (best' = best \<or> best' = Some candidate \<and> ai_ID (ag_Info candidate) \<notin> set exclude)"
proof (cases "ai_ID (ag_Info candidate) \<in> set exclude \<or> providerRank providers (ag_Info candidate) = None")
  case True
  then show ?thesis using assms sameAgents_refl by (auto simp: rankedOne_def Let_def split: if_splits)
next
  case False
  then obtain rank where rank: "providerRank providers (ag_Info candidate) = Some rank" "ai_ID (ag_Info candidate) \<notin> set exclude" by auto
  obtain ok r1 where c: "canRouteAgent canAccept now task candidate (routeCapability task plan) r = (ok, r1)" by force
  note can = canRouteAgent_cases [OF assms(1,2) c]
  have k1: "sameAgents r r1" using admitsRouter_keeps(1,2) [OF conjunct1 [OF can] assms(1)] by (simp add: sameAgents_def)
  show ?thesis
  proof (cases ok)
    case False
    then show ?thesis using assms(3) rank c k1 by (simp add: rankedOne_def Let_def)
  next
    case True
    let ?q = "scoreAgent parseFloat now candidate task (routeCapability task plan) (ep_Complexity plan) (EvaluateRiskContext (taskText task))"
    let ?r0 = "r1\<lparr>ro_runtime := map_option (settled now) (ro_runtime r1)\<rparr>"
    have ok1: "router_ok r1" using k1 by (simp add: sameAgents_def)
    then have calm: "calmRouter now ?r0 r1" by (auto simp: calmRouter_def router_ok_def)
    have "weighed ?r0 candidate" using can True by (auto simp: weighed_def)
    then obtain x where x: "reads (calmRouter now ?r0) ?q x" using reads_scoreAgent by blast
    obtain y r2 where q: "?q r1 = (y, r2)" by force
    have "calmRouter now ?r0 r2" using readsD [OF x calm q] by simp
    then have "sameAgents r r2" using calmRouter_sameAgents [OF ok1] k1 sameAgents_trans by blast
    moreover have "r' = r2" "best' = best \<or> best' = Some candidate"
      using assms(3) rank c True q by (auto simp: rankedOne_def betterOne_def Let_def split: if_splits)
    ultimately show ?thesis using rank(2) by simp
  qed
qed

lemma ranked_fold:
  assumes "router_ok r" "set as \<subseteq> set (Agents (routerRegistry r))"
    and "fold (rankedOne canAccept parseFloat now task plan providers exclude) as ((best, s), r) = ((best', s'), r')"
  shows "sameAgents r r' \<and> (best' = best \<or> (\<exists>a \<in> set as. best' = Some a \<and> ai_ID (ag_Info a) \<notin> set exclude))"
  using assms
proof (induction as arbitrary: best s r)
  case Nil
  then show ?case by (simp add: sameAgents_refl)
next
  case (Cons a as)
  obtain b1 s1 r1 where 1: "rankedOne canAccept parseFloat now task plan providers exclude a ((best, s), r) = ((b1, s1), r1)" by (metis surj_pair)
  have step: "sameAgents r r1" "b1 = best \<or> b1 = Some a \<and> ai_ID (ag_Info a) \<notin> set exclude"
    using rankedOne_step [OF Cons.prems(1) _ 1] Cons.prems(2) by simp_all
  have "sameAgents r1 r' \<and> (best' = b1 \<or> (\<exists>a \<in> set as. best' = Some a \<and> ai_ID (ag_Info a) \<notin> set exclude))"
    using Cons.IH [of r1 b1 s1] step(1) Cons.prems(2,3) 1 by (simp add: sameAgents_def)
  then show ?case using step sameAgents_trans by auto
qed

lemma within_providers:
  assumes "router_ok r" "RouteWithinProviders canAccept parseFloat now task plan providers exclude r = ((acc, choice), r')"
  shows "sameAgents r r'" "choice = Some a \<Longrightarrow> ai_ID (ag_Info a) \<in> agentIDs r - set exclude"
proof -
  let ?f = "fold (rankedOne canAccept parseFloat now task plan providers exclude)"
  obtain best s r1 where run: "?f (Agents (routerRegistry r)) ((None, - 1000000000), r) = ((best, s), r1)" by (metis surj_pair)
  note fold = ranked_fold [OF assms(1) order_refl run]
  show "sameAgents r r'" using assms fold sameAgents_refl
    by (auto simp: RouteWithinProviders_def run Let_def split: if_splits option.splits)
  show "choice = Some a \<Longrightarrow> ai_ID (ag_Info a) \<in> agentIDs r - set exclude" using assms(2) fold
    by (auto simp: RouteWithinProviders_def run agentIDs_def Let_def split: if_splits option.splits)
qed

lemma budgetSearch_ends:
  assumes "router_ok (or_router o')" "card (agentIDs (or_router o') - set exclude) < n"
  shows "\<exists>found o''. (\<forall>m \<ge> n. budgetSearch m B now task plan tokens providers exclude o' = (Some found, o'')) \<and>
    sameAgents (or_router o') (or_router o'') \<and> or_memory o'' = or_memory o' \<and>
    (\<forall>budget acc a. found = Some (budget, acc, a) \<longrightarrow> ai_ID (ag_Info a) \<in> agentIDs (or_router o') - set exclude \<and>
       budget = sb_EvaluateModelBudget B task (ta_ModelName acc) tokens (or_memory o') \<and> budgetAction budget \<noteq> ''error'')"
  using assms
proof (induction n arbitrary: exclude o')
  case 0
  then show ?case by simp
next
  case (Suc n)
  obtain acc choice r where route: "RouteWithinProviders (ke_canAccept (sb_kernel B)) (ke_parseFloat (sb_kernel B)) now task plan
      providers exclude (or_router o') = ((acc, choice), r)" by (metis surj_pair)
  note within = within_providers [OF Suc.prems(1) route]
  let ?o = "o'\<lparr>or_router := r\<rparr>"
  have step: "budgetSearch m B now task plan tokens providers exclude o' = (case choice of None \<Rightarrow> (Some None, ?o)
      | Some agent \<Rightarrow> let budget = sb_EvaluateModelBudget B task (ta_ModelName acc) tokens (or_memory o') in
          if budgetAction budget = ''error''
          then budgetSearch (m - 1) B now task plan tokens providers (exclude @ [ai_ID (ag_Info agent)]) ?o
          else (Some (Some (budget, acc, agent)), ?o))" if "m \<ge> Suc n" for m
    using that by (cases m) (simp_all add: route Let_def split: option.split)
  show ?case
  proof (cases choice)
    case None
    then show ?thesis using step within(1) by (intro exI [of _ None] exI [of _ ?o]) simp
  next
    case (Some agent)
    let ?k = "ai_ID (ag_Info agent)" and ?b = "sb_EvaluateModelBudget B task (ta_ModelName acc) tokens (or_memory o')"
    have k: "?k \<in> agentIDs (or_router o') - set exclude" using within(2) Some by simp
    show ?thesis
    proof (cases "budgetAction ?b = ''error''")
      case False
      then show ?thesis using step within(1) k Some by (intro exI [of _ "Some (?b, acc, agent)"] exI [of _ ?o]) (simp add: Let_def)
    next
      case True
      have ids: "agentIDs r = agentIDs (or_router o')" using within(1) agentIDs_same by simp
      have "agentIDs r - set (exclude @ [?k]) = (agentIDs (or_router o') - set exclude) - {?k}" using ids by auto
      then have less: "card (agentIDs r - set (exclude @ [?k])) < n"
        using Suc.prems(2) card_Diff1_less [OF _ k] by simp
      obtain found o'' where ih: "\<forall>m \<ge> n. budgetSearch m B now task plan tokens providers (exclude @ [?k]) ?o = (Some found, o'')"
          "sameAgents r (or_router o'')" "or_memory o'' = or_memory o'"
          "\<forall>budget acc a. found = Some (budget, acc, a) \<longrightarrow> ai_ID (ag_Info a) \<in> agentIDs r - set (exclude @ [?k]) \<and>
             budget = sb_EvaluateModelBudget B task (ta_ModelName acc) tokens (or_memory o') \<and> budgetAction budget \<noteq> ''error''"
        using Suc.IH [of ?o "exclude @ [?k]"] less within(1) by (auto simp: sameAgents_def)
      then have "\<forall>m \<ge> Suc n. budgetSearch m B now task plan tokens providers exclude o' = (Some found, o'')"
        using step Some True by (simp add: Let_def)
      then show ?thesis using ih(2-) ids within(1) sameAgents_trans by (intro exI [of _ found] exI [of _ o'']) auto
    qed
  qed
qed

section \<open>Rerouting\<close>

lemma attach_excluded [simp]:
  "map_of (t_RoutingHints (fst (attachRuntimeContext X now task acceptance info o'))) ''p2p_excluded_agents'' =
     map_of (t_RoutingHints task) ''p2p_excluded_agents''"
  by (simp add: attachRuntimeContext_def cloneMap_def Let_def split_def split: option.split)

lemma excludedByResult_set: "set (excludedByResult result workflow) =
    set (excludedAgentsFromTask (wf_Task workflow)) \<union> (if failedAgentID result workflow = [] then {} else {failedAgentID result workflow})"
  by (auto simp: excludedByResult_def Let_def)

lemma excluded_cong:
  "map_of (t_RoutingHints task) ''p2p_excluded_agents'' = map_of (t_RoutingHints task') ''p2p_excluded_agents'' \<Longrightarrow>
     excludedAgentsFromTask task = excludedAgentsFromTask task'"
  by (simp add: excludedAgentsFromTask_def)

lemma reroute_effect:
  assumes "rerouteWorkflow B now result workflow fallback agent k = (workflow', k')"
  shows "set (excludedAgentsFromTask (wf_Task workflow')) = set (excludedByResult result workflow)"
    "wf_Acceptance workflow' = fallback\<lparr>ta_Status := TaskStatusRunning\<rparr>" "t_ID (wf_Task workflow') = t_ID (wf_Task workflow)"
    "kn_store k' = kn_store k" "kn_waiters k' = kn_waiters k" "or_router (kn_orch k') = or_router (kn_orch k)"
proof -
  let ?n = "routingHintInt (wf_Task workflow) ''p2p_attempt'' 1 + 1" and ?X = "sb_kernel B"
  let ?failed = "zero_AgentInfo\<lparr>ai_ID := failedAgentID result workflow, ai_Provider := ar_Provider (tr_Result result), ai_ModelName := ar_ModelName (tr_Result result)\<rparr>"
  let ?base = "rebindTaskAssignment (withFailureContext (wf_Task workflow) ?failed (tr_Result result) (?n - 1) 0) fallback"
  let ?task = "annotatePeerAttempt ?base fallback ?n (excludedByResult result workflow)"
  obtain task1 k1 where 1: "onOrch (attachRuntimeContext ?X now ?task fallback (ag_Info agent)) k = (task1, k1)" by force
  then have at: "attachRuntimeContext ?X now ?task fallback (ag_Info agent) (kn_orch k) = (task1, kn_orch k1)" by (simp add: onOrch_orch)
  have out: "workflow' = workflow\<lparr>wf_Task := task1, wf_Acceptance := fallback\<lparr>ta_Status := TaskStatusRunning\<rparr>, wf_Result := None, wf_UpdatedAt := now\<rparr>" "k' = k1"
    using assms 1 by (simp_all add: rerouteWorkflow_def Let_def)
  show "wf_Acceptance workflow' = fallback\<lparr>ta_Status := TaskStatusRunning\<rparr>" "kn_store k' = kn_store k" "kn_waiters k' = kn_waiters k"
    using out onOrch_keeps [OF 1] by simp_all
  show "t_ID (wf_Task workflow') = t_ID (wf_Task workflow)"
    using arg_cong [OF at, of "\<lambda>x. t_ID (fst x)"] out by simp
  show "or_router (kn_orch k') = or_router (kn_orch k)"
    using arg_cong [OF at, of "\<lambda>x. or_router (snd x)"] out by simp
  have h: "map_of (t_RoutingHints task1) ''p2p_excluded_agents'' = map_of (t_RoutingHints ?task) ''p2p_excluded_agents''"
    using arg_cong [OF at, of "\<lambda>x. map_of (t_RoutingHints (fst x)) ''p2p_excluded_agents''"] by simp
  have base: "map_of (t_RoutingHints ?base) ''p2p_excluded_agents'' = map_of (t_RoutingHints (wf_Task workflow)) ''p2p_excluded_agents''"
    by (simp add: rebindTaskAssignment_def withFailureContext_def cloneMap_def Let_def)
  show "set (excludedAgentsFromTask (wf_Task workflow')) = set (excludedByResult result workflow)"
  proof (cases "excludedByResult result workflow = []")
    case True
    then have "map_of (t_RoutingHints ?task) ''p2p_excluded_agents'' = map_of (t_RoutingHints (wf_Task workflow)) ''p2p_excluded_agents''"
      using base by (simp add: annotatePeerAttempt_def cloneMap_def Let_def)
    then have "excludedAgentsFromTask (wf_Task workflow') = excludedAgentsFromTask (wf_Task workflow)"
      by (intro excluded_cong) (simp add: h out(1))
    then show ?thesis using True excludedByResult_set [of result workflow] by auto
  next
    case False
    then show ?thesis using h out annotate_hints(2) by (simp add: excludedAgentsFromTask_def)
  qed
qed

lemma fallback_agent:
  assumes "router_ok (or_router o')" "routePeerFallback X now task plan excluded k o' = ((acc, choice), o1)"
  shows "sameAgents (or_router o') (or_router o1)"
    "choice = Some a \<Longrightarrow> ai_ID (ag_Info a) \<in> agentIDs (or_router o') - insert k (set excluded) \<and> ta_AgentID acc = ai_ID (ag_Info a)"
proof -
  let ?ex = "if k \<in> set excluded then excluded else excluded @ [k]"
  have run: "route (ke_canAccept X) (ke_parseFloat X) now task plan ?ex (or_router o') = ((acc, choice), or_router o1)"
    using assms(2) by (auto simp: routePeerFallback_def RouteExcluding_def Let_def split: prod.splits)
  show "sameAgents (or_router o') (or_router o1)" using route_sameAgents [OF assms(1)] run by (metis snd_conv)
  have "outcome (ke_canAccept X) now task plan ?ex (or_router o') acc choice"
    using route_outcome [OF assms(1), of "ke_canAccept X" "ke_parseFloat X" now task plan ?ex] run by auto
  then show "choice = Some a \<Longrightarrow> ai_ID (ag_Info a) \<in> agentIDs (or_router o') - insert k (set excluded) \<and> ta_AgentID acc = ai_ID (ag_Info a)"
    by (auto simp: outcome_def agentIDs_def split: if_splits)
qed

text \<open>The registered agents that the workflow has not tried yet.\<close>

definition untried :: "Router \<Rightarrow> WorkflowRecord \<Rightarrow> string set" where
  "untried r workflow = agentIDs r - set (excludedAgentsFromTask (wf_Task workflow)) - {ta_AgentID (wf_Acceptance workflow)}"

lemma resultWorkflow_stored [simp]:
  "wf_Task (resultWorkflow now result (Some workflow)) = wf_Task workflow"
  "wf_Plan (resultWorkflow now result (Some workflow)) = wf_Plan workflow"
  "wf_Result (resultWorkflow now result (Some workflow)) = Some (tr_Result result)"
  "ta_Status (wf_Acceptance (resultWorkflow now result (Some workflow))) = normalizeTaskStatus (tr_Status result)"
  "ar_AgentID (tr_Result result) \<noteq> [] \<Longrightarrow> failedAgentID result (resultWorkflow now result (Some workflow)) = ar_AgentID (tr_Result result)"
  by (simp_all add: resultWorkflow_def failedAgentID_def Let_def)

context workflow_store
begin

lemma failed_result_handled:
  assumes "router_ok (or_router (kn_orch k))" "ws_GetWorkflow W (tr_TaskID result) (kn_store k) = Inr (Some workflow)"
    and "t_ID (wf_Task workflow) = tr_TaskID result" "tr_Status result = TaskStatusFailed"
    and "ar_AgentID (tr_Result result) = ta_AgentID (wf_Acceptance workflow)" "ta_AgentID (wf_Acceptance workflow) \<noteq> []"
    and "handleTaskResult B W now result k = (None, k')"
  shows "sameAgents (or_router (kn_orch k)) (or_router (kn_orch k'))" (is ?same)
    and "\<exists>workflow'. ws_GetWorkflow W (tr_TaskID result) (kn_store k') = Inr (Some workflow') \<and>
      (if ta_Status (wf_Acceptance workflow') = TaskStatusFailed
       then wf_Result workflow' = Some (tr_Result result) \<and> kn_waiters k' (tr_TaskID result) = []
       else ta_Status (wf_Acceptance workflow') = TaskStatusRunning \<and> kn_waiters k' = kn_waiters k \<and>
         untried (or_router (kn_orch k')) workflow' \<subset> untried (or_router (kn_orch k)) workflow)" (is ?handled)
proof -
  let ?w = "resultWorkflow now result (Some workflow)" and ?k = "ta_AgentID (wf_Acceptance workflow)"
  have failed: "failedAgentID result ?w = ?k" using assms(5,6) by simp
  have ex: "set (excludedByResult result ?w) = insert ?k (set (excludedAgentsFromTask (wf_Task workflow)))"
    using failed assms(6) by (auto simp: excludedByResult_set)
  obtain fb choice k1 where 1: "onOrch (routePeerFallback (sb_kernel B) now (wf_Task workflow) (wf_Plan workflow)
      (excludedByResult result ?w) ?k) k = ((fb, choice), k1)" by (metis surj_pair)
  note fbk = fallback_agent [OF assms(1), of "sb_kernel B" now "wf_Task workflow" "wf_Plan workflow" "excludedByResult result ?w" ?k fb choice "kn_orch k1"]
  have same: "sameAgents (or_router (kn_orch k)) (or_router (kn_orch k1))" using fbk(1) 1 by (simp add: onOrch_orch)
  have fin: "\<exists>s. k' = f (x\<lparr>kn_store := s\<rparr>)" "ws_GetWorkflow W (t_ID (wf_Task r)) (kn_store k') = Inr (Some r)"
    if out: "saved_outcome (saveThen W r f x) = (None, k')" and frame: "\<And>y. kn_store (f y) = kn_store y" for r f x
  proof -
    obtain res y where s: "saveThen W r f x = (res, y)" by force
    then obtain r' where r': "res = Inr r'" "y = k'" using out s by (cases res) (auto simp: saved_outcome_def)
    then show "\<exists>s. k' = f (x\<lparr>kn_store := s\<rparr>)" using s by (auto simp: saveThen_def split: prod.splits option.splits)
    show "ws_GetWorkflow W (t_ID (wf_Task r)) (kn_store k') = Inr (Some r)" using saveThen_stored(2) [of r f x r' k'] s r' frame by simp
  qed
  have "?same \<and> ?handled"
  proof (cases choice)
    case None
    let ?f = "\<lambda>k. notifyWorkflowWaiters ?w (publishEvent ''tasks'' ''task.failed'' (t_ID (wf_Task ?w)) k)"
    have run: "saved_outcome (saveThen W ?w ?f k1) = (None, k')"
      using assms(2,4,7) 1 None failed by (simp add: handleTaskResult_def Let_def)
    obtain s where k': "k' = ?f (k1\<lparr>kn_store := s\<rparr>)" using fin(1) [OF run] by auto
    have final: "terminalRecord ?w" "ta_Status (wf_Acceptance ?w) = TaskStatusFailed"
      using assms(4) by (simp_all add: terminalRecord_def isTerminalTaskStatus_def normalizeTaskStatus_def)
    have "kn_waiters k' (tr_TaskID result) = []" "or_router (kn_orch k') = or_router (kn_orch k1)"
      using final(1) assms(3) by (simp_all add: k' notifyWorkflowWaiters_def publishEvent_def Let_def)
    then show ?thesis using same fin(2) [OF run] final(2) assms(3) by auto
  next
    case (Some agent)
    obtain w' k2 where 2: "rerouteWorkflow B now result ?w fb agent k1 = (w', k2)" by force
    note re = reroute_effect [OF 2]
    let ?env = "buildPeerEnvelope now (wf_Task w') (wf_Acceptance w') (wf_Plan w') (ag_Info agent) (routingHintInt (wf_Task ?w) ''p2p_attempt'' 1 + 1) (kn_orch k2)"
    let ?f = "\<lambda>k. publishEvent ''tasks'' ''task.rerouted'' (t_ID (wf_Task w')) (DispatchEnvelope B now ?env k)"
    have run: "saved_outcome (saveThen W w' ?f k2) = (None, k')"
      using assms(2,4,7) 1 2 Some failed by (simp add: handleTaskResult_def Let_def)
    obtain s where k': "k' = ?f (k2\<lparr>kn_store := s\<rparr>)" using fin(1) [OF run] by auto
    have keeps: "kn_waiters k' = kn_waiters k" "or_router (kn_orch k') = or_router (kn_orch k1)"
      using re(5,6) onOrch_keeps [OF 1] by (simp_all add: k' publishEvent_def)
    have agent: "ai_ID (ag_Info agent) \<in> agentIDs (or_router (kn_orch k)) - insert ?k (set (excludedByResult result ?w))" "ta_AgentID fb = ai_ID (ag_Info agent)"
      using fbk(2) 1 Some by (simp_all add: onOrch_orch)
    have "untried (or_router (kn_orch k')) w' = untried (or_router (kn_orch k)) workflow - {ai_ID (ag_Info agent)}"
      using agentIDs_same [OF same] keeps(2) re(1,2) ex agent(2) by (auto simp: untried_def)
    moreover have "ai_ID (ag_Info agent) \<in> untried (or_router (kn_orch k)) workflow" using agent(1) ex by (simp add: untried_def)
    ultimately have "untried (or_router (kn_orch k')) w' \<subset> untried (or_router (kn_orch k)) workflow" by blast
    then show ?thesis using same keeps fin(2) [OF run] re(2,3) assms(3) by auto
  qed
  then show ?same ?handled by simp_all
qed

end

end
