(* ===== verification/SubmissionOutcomes.thy ===== *)
theory SubmissionOutcomes
  imports Submission
begin

text \<open>
  What becomes of a submitted task, and what the agent that gets it answers: the properties of the submission in
  \<open>go-core/internal/kernel/orchestrator.go\<close> over the definitions of theory \<open>Submission\<close>.
\<close>

section \<open>Properties\<close>

text \<open>C1. Whatever becomes of a task, a submission that returns a record has stored it: the store answers with
  the returned record under the id of the submitted task, which is the given or the fresh id.\<close>

theorem submitted_record_is_stored:
  assumes "submitTaskSync B (file_workflow_ops enc fault) now task k = (Inr r, k')"
  shows "t_ID (wf_Task r) = (if t_ID task = [] then sb_newTaskID B else t_ID task) \<and>
    GetWorkflow (fst (kn_store k')) (t_ID (wf_Task r)) = Some r"
proof -
  have id: "t_ID (submissionDefaults (sb_newTaskID B) now task) = (if t_ID task = [] then sb_newTaskID B else t_ID task)"
    by (simp add: submissionDefaults_def Let_def)
  show ?thesis
    using file_workflows.submitTaskSync_recorded [of enc fault B now task k] assms unfolding id
    by (auto simp: recorded_def file_workflow_ops_def)
qed

text \<open>C5. The search for a fallback agent within the token budget has no bound of its own, but it ends: in a router in
  good order one turn more than there are agents suffices, and no larger bound changes its answer. An
  agent it finds is registered, was not excluded, and its model has budget left.\<close>

theorem budget_search_ends:
  assumes "router_ok (or_router o')"
  shows "\<exists>found o''. (\<forall>n > nat (agentCount o'). budgetSearch n B now task plan tokens providers exclude o' = (Some found, o'')) \<and>
    (\<forall>budget acc a. found = Some (budget, acc, a) \<longrightarrow>
       ai_ID (ag_Info a) \<in> (\<lambda>a. ai_ID (ag_Info a)) ` set (Agents (routerRegistry (or_router o'))) - set exclude \<and>
       budget = sb_EvaluateModelBudget B task (ta_ModelName acc) tokens (or_memory o') \<and> budgetAction budget \<noteq> ''error'')"
proof -
  have "card (agentIDs (or_router o') - set exclude) \<le> card (agentIDs (or_router o'))" by (simp add: card_mono)
  then have "card (agentIDs (or_router o') - set exclude) < Suc (nat (agentCount o'))" using agentIDs_count [of o'] by simp
  then obtain found o'' where "\<forall>m \<ge> Suc (nat (agentCount o')). budgetSearch m B now task plan tokens providers exclude o' = (Some found, o'')"
      "\<forall>budget acc a. found = Some (budget, acc, a) \<longrightarrow> ai_ID (ag_Info a) \<in> agentIDs (or_router o') - set exclude \<and>
         budget = sb_EvaluateModelBudget B task (ta_ModelName acc) tokens (or_memory o') \<and> budgetAction budget \<noteq> ''error''"
    using budgetSearch_ends [OF assms, of exclude] by blast
  then show ?thesis by (intro exI [of _ found] exI [of _ o'']) (simp add: Suc_le_eq agentIDs_def)
qed

text \<open>C2. A failed run of an asynchronous task is answered in one of two ways. Either the task is sent to another
  agent, and then the agents that remain to be tried become strictly fewer, so that a task is
  rerouted at most as often as there are agents; or no other agent can be routed, and then the failure
  is stored as the final record and no waiter is left registered.\<close>

theorem rerouting_ends:
  assumes "router_ok (or_router (kn_orch k))" "GetWorkflow (fst (kn_store k)) (tr_TaskID result) = Some workflow"
    and "t_ID (wf_Task workflow) = tr_TaskID result" "tr_Status result = TaskStatusFailed"
    and "ar_AgentID (tr_Result result) = ta_AgentID (wf_Acceptance workflow)" "ta_AgentID (wf_Acceptance workflow) \<noteq> []"
    and "handleTaskResult B (file_workflow_ops enc fault) now result k = (None, k')"
  shows "\<exists>workflow'. GetWorkflow (fst (kn_store k')) (tr_TaskID result) = Some workflow' \<and>
    (if ta_Status (wf_Acceptance workflow') = TaskStatusFailed
     then wf_Result workflow' = Some (tr_Result result) \<and> kn_waiters k' (tr_TaskID result) = []
     else ta_Status (wf_Acceptance workflow') = TaskStatusRunning \<and>
       card (untried (or_router (kn_orch k')) workflow') < card (untried (or_router (kn_orch k)) workflow))"
proof -
  let ?W = "file_workflow_ops enc fault"
  have get: "ws_GetWorkflow ?W (tr_TaskID result) (kn_store k) = Inr (Some workflow)" using assms(2) by (simp add: file_workflow_ops_def)
  obtain w' where w': "ws_GetWorkflow ?W (tr_TaskID result) (kn_store k') = Inr (Some w')"
      "if ta_Status (wf_Acceptance w') = TaskStatusFailed
       then wf_Result w' = Some (tr_Result result) \<and> kn_waiters k' (tr_TaskID result) = []
       else ta_Status (wf_Acceptance w') = TaskStatusRunning \<and> kn_waiters k' = kn_waiters k \<and>
         untried (or_router (kn_orch k')) w' \<subset> untried (or_router (kn_orch k)) workflow"
    using file_workflows.failed_result_handled(2) [OF assms(1) get assms(3-7)] by auto
  moreover have "finite (untried (or_router (kn_orch k)) workflow)" by (simp add: untried_def)
  ultimately show ?thesis by (intro exI [of _ w']) (auto simp: file_workflow_ops_def psubset_card_mono split: if_splits)
qed

text \<open>A task survives its way to the agent: what the agent reads from the envelope is the task that was sent,
  provided the JSON of the task can be read back and the task has an id and a session.\<close>

theorem envelope_carries_the_task:
  assumes "sb_decodeTask B (taskStruct task) = Inr task" "t_ID task \<noteq> []" "t_SessionID task \<noteq> []"
  shows "decodeTaskFromEnvelope B (buildPeerEnvelope now task acceptance plan info attempt o') = Inr task"
  using assms by (auto simp: decodeTaskFromEnvelope_def buildPeerEnvelope_def Let_def)

section \<open>Answers\<close>

abbreviation bus :: "('b, 'm, 's) Kernel \<Rightarrow> 'b" where "bus k \<equiv> sv_messageBus (or_delivery (kn_orch k))"

lemma onMessageBus_simps [simp]:
  "bus (snd (onMessageBus f k)) = snd (f (bus k))" "fst (onMessageBus f k) = fst (f (bus k))" "kn_store (snd (onMessageBus f k)) = kn_store k"
  by (simp_all add: onMessageBus_def onOrch_def onDelivery_def Let_def split_def)

lemma publishEvent_bus [simp]: "bus (publishEvent topic kind entity k) = bus k"
  by (simp add: publishEvent_def publishRuntimeEvent_def)

lemma onMem_bus [simp]: "bus (snd (onMem f k)) = bus k"
  by (simp add: onMem_def Let_def split_def)

lemma delivery_untouched [simp]:
  "or_delivery (refreshRuntimeCapacity now info snapshot o') = or_delivery o'" "or_delivery (onMemory g o') = or_delivery o'"
  "or_delivery (onRuntime h o') = or_delivery o'" "or_delivery (publishRuntimeEvent topic kind entity o') = or_delivery o'"
  by (simp_all add: refreshRuntimeCapacity_def onMemory_def onRuntime_def publishRuntimeEvent_def)

lemma agentRan_delivery [simp]: "or_delivery (agentRan B now task envelope acceptance info result latency o') = or_delivery o'"
  by (simp add: agentRan_def Let_def)

lemma onOrch_unit [simp]: "onOrch (\<lambda>o'. ((), f o')) k = ((), k\<lparr>kn_orch := f (kn_orch k)\<rparr>)"
  by (simp add: onOrch_def)

lemma publish_answers:
  assumes "sb_PublishResult B = Some (\<lambda>r b. (None, PublishResult r b))"
  shows "fst (publishResultEnvelope B r k) = None" "mb_results (bus (snd (publishResultEnvelope B r k))) = mb_results (bus k) @ [r]"
  by (simp_all add: publishResultEnvelope_def assms PublishResult_def notifyResultSignal_def)

text \<open>C6. An agent answers every envelope exactly once, also one that cannot be read or for which no execution slot can
  be had: one result with the id of the task joins the result queue, provided the payload and the run of
  the agent keep the id of the task.\<close>

theorem envelope_is_answered:
  assumes "sb_PublishResult B = Some (\<lambda>r b. (None, PublishResult r b))"
    and "\<And>task acceptance m. t_ID (fst (fst (ke_executeAgent (sb_kernel B) task acceptance agent m))) = t_ID task"
    and "\<And>task. decodeTaskFromEnvelope B envelope = Inr task \<Longrightarrow> t_ID task = te_TaskID envelope"
    and "handleAgentEnvelope B W now agent envelope k = (err, k')"
  shows "err = None \<and> (\<exists>r. mb_results (bus k') = mb_results (bus k) @ [r] \<and> tr_TaskID r = te_TaskID envelope)"
proof -
  have failure: "fst (publishEnvelopeFailure B now envelope info reason k) = None \<and>
      (\<exists>r. mb_results (bus (snd (publishEnvelopeFailure B now envelope info reason k))) = mb_results (bus k) @ [r] \<and> tr_TaskID r = te_TaskID envelope)" for info reason
    using assms(3) by (cases "decodeTaskFromEnvelope B envelope")
      (simp_all add: publishEnvelopeFailure_def publish_answers [OF assms(1)] envelopeTask_def buildTaskResultEnvelope_def Let_def)
  show ?thesis
  proof (cases "decodeTaskFromEnvelope B envelope")
    case (Inl reason)
    then show ?thesis using failure [of "ag_Info agent" reason] assms(4) by (simp add: handleAgentEnvelope_def Let_def)
  next
    case dec: (Inr task)
    let ?acc = "envelopeAcceptance W now task envelope (ag_Info agent) (kn_store k)"
    show ?thesis
    proof (cases "ke_acquireExecutionSlots (sb_kernel B) (ag_Info agent) (ta_ModelName ?acc) (or_memory (kn_orch k))")
      case (Inl reason)
      then show ?thesis using failure [of "ag_Info agent" reason] assms(4) dec by (simp add: handleAgentEnvelope_def Let_def)
    next
      case (Inr slots)
      obtain before after where sl: "slots = (before, after)" by force
      let ?k1 = "k\<lparr>kn_orch := refreshRuntimeCapacity now (ag_Info agent) before (kn_orch k)\<rparr>"
      obtain task1 result latency k2 where run: "onMem (ke_executeAgent (sb_kernel B) task ?acc agent) ?k1 = ((task1, result, latency), k2)"
        by (metis surj_pair)
      have id: "t_ID task1 = te_TaskID envelope"
        using arg_cong [OF run, of "\<lambda>x. t_ID (fst (fst x))"] assms(2) [of task ?acc] assms(3) [OF dec] by (simp add: onMem_def Let_def split_def)
      have bus: "bus k2 = bus k" using arg_cong [OF run, of "\<lambda>x. bus (snd x)"] by simp
      define result' where "result' = result\<lparr>ar_TaskID := t_ID task1, ar_AgentID := ai_ID (ag_Info agent),
        ar_Provider := firstNonEmptyString [ar_Provider result, ta_Provider ?acc],
        ar_ModelName := firstNonEmptyString [ar_ModelName result, ta_ModelName ?acc],
        ar_CompletedAt := (if ar_CompletedAt result = zero_time then now else ar_CompletedAt result)\<rparr>"
      let ?r = "buildTaskResultEnvelope now task1 envelope ?acc result'"
      define k3 where "k3 = k2\<lparr>kn_orch := agentRan B now task1 envelope ?acc (ag_Info agent) result' latency (kn_orch k2)\<rparr>"
      obtain res k4 where pub: "publishResultEnvelope B ?r k3 = (res, k4)" by force
      have out: "err = res" "k' = k4\<lparr>kn_orch := refreshRuntimeCapacity now (ag_Info agent) after (kn_orch k4)\<rparr>"
        using assms(4) by (simp_all only: handleAgentEnvelope_def Let_def dec sum.case Inr sl prod.case onOrch_unit run
          result'_def [symmetric] k3_def [symmetric] pub prod.inject)
      show ?thesis using publish_answers [OF assms(1), of ?r k3] pub id bus out by (simp add: k3_def buildTaskResultEnvelope_def)
    qed
  qed
qed
section \<open>What goes wrong\<close>

text \<open>One turn of a single submission worker: the first task of the queue is taken and worked on.\<close>

definition submissionRound ::
    "(MessageBus, 'm) submission_env \<Rightarrow> 's workflow_ops \<Rightarrow> time \<Rightarrow> (MessageBus, 'm, 's) Kernel \<Rightarrow> (MessageBus, 'm, 's) Kernel" where
  "submissionRound B W now k =
     (let (next, k) = onMessageBus takeTask k in case next of None \<Rightarrow> k | Some task \<Rightarrow> snd (workSubmission B W now task k))"

lemma saveThen_bus: "bus (snd (saveThen W r id k)) = bus k"
  by (simp add: saveThen_def split: prod.split option.split)

lemma untyped_defaults: "t_Type (submissionDefaults newID now task) = t_Type task"
  by (simp add: submissionDefaults_def Let_def)

lemma untyped_round:
  assumes "sb_NackTask B = nackTask" "t_Type task = TaskTypeOther []" "mb_tasks (bus k) = task # rest"
  shows "mb_tasks (bus (submissionRound B W now k)) = task # rest \<and> kn_store (submissionRound B W now k) = kn_store k"
proof -
  let ?id = "t_ID task"
  obtain t k1 where 1: "onMessageBus takeTask k = (t, k1)" by force
  then have t: "t = Some task" and k1: "mb_tasks (bus k1) = rest" "kn_store k1 = kn_store k"
    using assms(3) onMessageBus_simps [of takeTask k] by (simp_all add: takeTask_def)
  let ?k2 = "publishEvent ''tasks'' ''task.dequeued'' ?id k1"
  have "dispatchTaskAsync B W now task ?k2 = ((Inl ''task type is required'', None), ?k2)"
    using assms(2) untyped_defaults [of "sb_newTaskID B" now task] by (simp add: dispatchTaskAsync_def Let_def)
  then have "submissionRound B W now k = snd (onMessageBus (\<lambda>b. ((), sb_NackTask B task True b)) (publishEvent ''tasks'' ''task.failed'' ?id ?k2))"
    by (simp add: submissionRound_def 1 t workSubmission_def Let_def split_def)
  then show ?thesis using k1 assms(1) by (simp add: nackTask_def requeueTaskFront_def notifyTaskSignal_def)
qed

text \<open>C7. The asynchronous submission does not check that a task has a type, the dispatch answers a task without one with
  an error, and a worker gives a task that was answered with an error back to the queue. A task without a
  type is accepted and then taken and given back for ever: however many turns the worker makes, the
  task is back in the queue and its record still says that it is queued.\<close>

theorem untyped_task_is_retried_for_ever:
  assumes "t_Type task = TaskTypeOther []" "mb_tasks (bus k) = []" "sb_NackTask B = nackTask"
    and "sb_EnqueueTask B = Some (\<lambda>t b. (None, EnqueueTask t b))"
    and "SubmitTaskAsync B (file_workflow_ops enc fault) now task k = (Inr r, k0)"
  shows "ta_Status (wf_Acceptance r) = TaskStatusQueued \<and>
    (\<forall>n. mb_tasks (bus ((submissionRound B (file_workflow_ops enc fault) later ^^ n) k0)) = [wf_Task r] \<and>
       GetWorkflow (fst (kn_store ((submissionRound B (file_workflow_ops enc fault) later ^^ n) k0))) (t_ID (wf_Task r)) = Some r)"
proof -
  let ?W = "file_workflow_ops enc fault" and ?t = "submissionDefaults (sb_newTaskID B) now task"
  obtain saved k1 where 1: "saveThen ?W (queuedRecord now ?t) id k = (saved, k1)" by force
  have sub: "saved = Inr r" "k0 = publishEvent ''tasks'' ''task.queued'' (t_ID ?t) (snd (onMessageBus (\<lambda>b. (None :: string option, EnqueueTask ?t b)) k1))"
    using assms(4,5) 1 by (auto simp: SubmitTaskAsync_def Let_def split_def split: sum.splits)
  have r: "r = queuedRecord now ?t" and get: "GetWorkflow (fst (kn_store k1)) (t_ID (wf_Task r)) = Some r"
    using file_workflows.saveThen_stored [of enc fault "queuedRecord now ?t" id k r k1] 1 sub(1)
    by (simp_all add: file_workflow_ops_def)
  have wt: "wf_Task r = ?t" by (simp add: r queuedRecord_def)
  have queue: "mb_tasks (bus k0) = [wf_Task r]"
    using saveThen_bus [of ?W "queuedRecord now ?t" k] 1 assms(2) by (simp add: sub(2) wt EnqueueTask_def notifyTaskSignal_def)
  have "mb_tasks (bus ((submissionRound B ?W later ^^ n) k0)) = [wf_Task r] \<and> kn_store ((submissionRound B ?W later ^^ n) k0) = kn_store k0" for n
  proof (induction n)
    case (Suc n)
    then show ?case
      using untyped_round [OF assms(3), of "wf_Task r" "(submissionRound B ?W later ^^ n) k0" "[]" ?W later]
        assms(1) untyped_defaults [of "sb_newTaskID B" now task] by (simp add: wt)
  qed (simp add: queue)
  then show ?thesis using get sub(2) by (auto simp: r queuedRecord_def)
qed

lemma routed_accepted:
  assumes "router_ok (or_router o')" "routeTask B now task plan o' = ((acc, Some agent), o1)"
  shows "ta_Status acc = TaskStatusAccepted"
  using route_outcome [OF assms(1), of "ke_canAccept (sb_kernel B)" "ke_parseFloat (sb_kernel B)" now task plan "[]"] assms(2)
  by (auto simp: routeTask_def Route_def outcome_def Let_def)

lemma budget_failure_status:
  assumes "enforceModelBudgetPolicy B now task plan acc agent o' = ((task', acc', agent', Some failure), o1)"
  shows "acc' = acc \<and> ar_Status failure = TaskStatusFailed"
  using assms by (auto simp: enforceModelBudgetPolicy_def budgetFailureResult_def Let_def split: if_splits prod.splits option.splits)


section \<open>Witnesses\<close>

definition example_submission_env :: "string \<Rightarrow> (MessageBus, unit) submission_env" where
  "example_submission_env action = \<lparr>sb_kernel = example_kernel,
     sb_coding = (example_coding_env (Inl []))\<lparr>cx_runtime := None\<rparr>, sb_getenv = (\<lambda>_. []), sb_select = example_select,
     sb_newTaskID = ''task_1'', sb_adaptive = False, sb_CacheGuardSnapshot = (\<lambda>_ _ _. []), sb_EstimateTaskTokens = (\<lambda>_. 32),
     sb_EvaluateModelBudget = (\<lambda>_ _ _ _. [(''action'', AnyString action)]), sb_formatPercent = (\<lambda>_. []),
     sb_decodeTask = (\<lambda>_. Inr (zero_Task\<lparr>t_ID := ''t1'', t_SessionID := ''s1''\<rparr>)),
     sb_EnqueueTask = Some (\<lambda>t b. (None, EnqueueTask t b)), sb_NackTask = nackTask,
     sb_PublishResult = Some (\<lambda>r b. (None, PublishResult r b))\<rparr>"

lemma example_kernel_ok: "router_ok (or_router (kn_orch example_kernel_state))" "mb_tasks (bus example_kernel_state) = []"
  using example_router_ok by (simp_all add: example_kernel_state_def example_orchestrator_def NewSupervisor_def NewMessageBus_def)

theorem submitted_record_is_stored_witness:
  "\<exists>r k'. submitTaskSync (example_submission_env ''ok'') example_workflow_ops 2 (zero_Task\<lparr>t_Type := TaskTypeCode\<rparr>) example_kernel_state = (Inr r, k') \<and>
     t_ID (wf_Task r) = ''task_1'' \<and> GetWorkflow (fst (kn_store k')) ''task_1'' = Some r"
proof -
  let ?B = "example_submission_env ''ok''" and ?t = "zero_Task\<lparr>t_Type := TaskTypeCode\<rparr>"
  let ?d = "submissionDefaults ''task_1'' 2 ?t"
  have blocked: "decisionBlocks (preflightPolicy ?d)" "t_Type ?d \<noteq> TaskTypeOther []" by code_simp+
  obtain k' where s: "saveThen example_workflow_ops (policyRejection 2 ?d) (publishEvent ''tasks'' ''task.rejected'' (t_ID ?d)) example_kernel_state =
      (Inr (policyRejection 2 ?d), k')" using example_saveThen by blast
  then have "submitTaskSync ?B example_workflow_ops 2 ?t example_kernel_state = (Inr (policyRejection 2 ?d), k')"
    using blocked by (simp add: submitTaskSync_def example_submission_env_def Let_def)
  then show ?thesis
    using submitted_record_is_stored [of ?B "\<lambda>_. Some []" NoFault 2 ?t example_kernel_state "policyRejection 2 ?d" k']
    by (simp add: example_workflow_ops_def example_submission_env_def zero_Task_def) metis
qed

theorem budget_search_ends_witness:
  "\<exists>found o''. \<forall>n > 1. budgetSearch n (example_submission_env ''error'') 2 zero_Task router_plan 32 [''local''] [] example_orchestrator = (Some found, o'')"
  using budget_search_ends [of example_orchestrator "example_submission_env ''error''" 2 zero_Task router_plan 32 "[''local'']" "[]"] example_router_ok
  unfolding example_agentCount by (auto simp: example_orchestrator_def)

theorem envelope_carries_the_task_witness:
  "decodeTaskFromEnvelope (example_submission_env ''ok'')
     (buildPeerEnvelope 2 (zero_Task\<lparr>t_ID := ''t1'', t_SessionID := ''s1''\<rparr>) zero_TaskAcceptance router_plan (ag_Info router_agent) 1 example_orchestrator) =
   Inr (zero_Task\<lparr>t_ID := ''t1'', t_SessionID := ''s1''\<rparr>)"
  by (rule envelope_carries_the_task) (simp_all add: example_submission_env_def)

theorem envelope_is_answered_witness:
  "case handleAgentEnvelope (example_submission_env ''ok'') example_workflow_ops 2 router_agent (example_letter ''x'') example_kernel_state of
     (err, k') \<Rightarrow> err = None \<and> length (mb_results (bus k')) = 1"
proof -
  let ?B = "example_submission_env ''ok''"
  obtain err k' where h: "handleAgentEnvelope ?B example_workflow_ops 2 router_agent (example_letter ''x'') example_kernel_state = (err, k')" by force
  have "err = None \<and> (\<exists>r. mb_results (bus k') = mb_results (bus example_kernel_state) @ [r] \<and> tr_TaskID r = te_TaskID (example_letter ''x''))"
    by (rule envelope_is_answered [OF _ _ _ h])
      (simp_all add: example_submission_env_def example_kernel_def decodeTaskFromEnvelope_def example_letter_def zero_TaskPayload_def)
  then show ?thesis unfolding h by (auto simp: example_kernel_state_def example_orchestrator_def NewSupervisor_def NewMessageBus_def)
qed

theorem untyped_task_is_retried_for_ever_witness:
  "\<exists>r k0. SubmitTaskAsync (example_submission_env ''ok'') example_workflow_ops 2 zero_Task example_kernel_state = (Inr r, k0) \<and>
     mb_tasks (bus ((submissionRound (example_submission_env ''ok'') example_workflow_ops 3 ^^ 100) k0)) = [wf_Task r]"
proof -
  let ?B = "example_submission_env ''ok''" and ?d = "submissionDefaults ''task_1'' 2 zero_Task"
  obtain k1 where s: "saveThen example_workflow_ops (queuedRecord 2 ?d) id example_kernel_state = (Inr (queuedRecord 2 ?d), k1)"
    using example_saveThen by blast
  obtain k0 where sub: "SubmitTaskAsync ?B example_workflow_ops 2 zero_Task example_kernel_state = (Inr (queuedRecord 2 ?d), k0)"
    using s by (simp add: SubmitTaskAsync_def example_submission_env_def Let_def split_def)
  have "t_Type zero_Task = TaskTypeOther []" by (simp add: zero_Task_def)
  from untyped_task_is_retried_for_ever [OF this example_kernel_ok(2) _ _ sub [unfolded example_workflow_ops_def], of 3] sub
  show ?thesis by (simp add: example_workflow_ops_def example_submission_env_def)
qed
definition budget_task :: Task where
  "budget_task = zero_Task\<lparr>t_ID := ''t1'', t_Type := TaskTypeCode\<rparr>"

definition budget_env :: "(MessageBus, unit) submission_env" where
  "budget_env = example_submission_env ''error''"

definition budget_routed :: "(TaskAcceptance \<times> Agent option) \<times> (MessageBus, unit) Orchestrator" where
  "budget_routed = routeTask budget_env 2 budget_task router_plan example_orchestrator"

definition budget_assigned :: "string option \<times> (MessageBus, unit) Orchestrator" where
  "budget_assigned = assignmentRefused 2 budget_task (fst (fst budget_routed)) router_agent (snd budget_routed)"

definition budget_enforced :: "(Task \<times> TaskAcceptance \<times> Agent \<times> AgentResult option) \<times> (MessageBus, unit) Orchestrator" where
  "budget_enforced = enforceModelBudgetPolicy budget_env 2 budget_task router_plan (fst (fst budget_routed)) router_agent (snd budget_assigned)"

lemma budget_example:
  "snd (fst budget_routed) = Some router_agent" "fst budget_assigned = None" "snd (snd (snd (fst budget_enforced))) \<noteq> None"
  by code_simp+

lemma example_outcome: "\<exists>k'. saved_outcome (saveThen example_workflow_ops r f k) = (None, k')"
  using example_saveThen [of r f k] by (auto simp: saved_outcome_def)


definition lost_workflow :: WorkflowRecord where
  "lost_workflow = final_record\<lparr>wf_Acceptance := zero_TaskAcceptance\<lparr>ta_TaskID := ''t1'', ta_AgentID := ''a1'', ta_Status := TaskStatusRunning\<rparr>\<rparr>"

definition lost_result :: TaskResultEnvelope where
  "lost_result = buildTaskResultEnvelope 2 (wf_Task lost_workflow) (example_letter ''t1'') (wf_Acceptance lost_workflow)
     (failedAttemptResult 2 (wf_Task lost_workflow) (wf_Acceptance lost_workflow) (ag_Info router_agent) ''timeout'')"

theorem rerouting_ends_witness:
  "\<exists>k k' workflow'. GetWorkflow (fst (kn_store k)) ''t1'' = Some lost_workflow \<and>
     handleTaskResult (example_submission_env ''ok'') example_workflow_ops 3 lost_result k = (None, k') \<and>
     GetWorkflow (fst (kn_store k')) ''t1'' = Some workflow' \<and> ta_Status (wf_Acceptance workflow') \<in> {TaskStatusFailed, TaskStatusRunning}"
proof -
  let ?B = "example_submission_env ''ok''" and ?W = example_workflow_ops
  obtain k where s: "saveThen ?W lost_workflow id example_kernel_state = (Inr lost_workflow, k)" using example_saveThen by blast
  have ids: "t_ID (wf_Task lost_workflow) = ''t1''" "tr_TaskID lost_result = ''t1''" "tr_Status lost_result = TaskStatusFailed"
    "ar_AgentID (tr_Result lost_result) = ta_AgentID (wf_Acceptance lost_workflow)" "ta_AgentID (wf_Acceptance lost_workflow) \<noteq> []"
    by (simp_all add: lost_workflow_def lost_result_def final_record_def buildTaskResultEnvelope_def failedAttemptResult_def
      router_agent_def normalizeTaskStatus_def)
  have get: "GetWorkflow (fst (kn_store k)) ''t1'' = Some lost_workflow"
    using file_workflows.saveThen_stored(2) [OF s [unfolded example_workflow_ops_def]] ids(1) by (simp add: file_workflow_ops_def)
  have ok: "router_ok (or_router (kn_orch k))"
    using s example_kernel_ok(1) by (auto simp: saveThen_def split: prod.splits option.splits)
  have "ws_GetWorkflow ?W (tr_TaskID lost_result) (kn_store k) = Inr (Some lost_workflow)"
    using get ids(2) by (simp add: example_workflow_ops_def file_workflow_ops_def)
  then have "\<exists>k'. handleTaskResult ?B ?W 3 lost_result k = (None, k')"
    unfolding handleTaskResult_def by (simp add: Let_def split_def ids(3) example_outcome split: option.split)
  then obtain k' where h: "handleTaskResult ?B ?W 3 lost_result k = (None, k')" by blast
  show ?thesis
    using rerouting_ends [OF ok get [folded ids(2)] ids(1) [folded ids(2)] ids(3-5) h [unfolded example_workflow_ops_def]] get h ids(2)
    by (intro exI [of _ k] exI [of _ k']) (auto split: if_splits)
qed

end
