(* ===== verification/Spec2Isabelle.thy ===== *)
theory Spec2Isabelle
  imports BusConcurrency WorkerPool WebSocket Session Hub RuntimeManager PlanStore
    ProbeManager SubmissionOutcomes
begin

text \<open>
  A verification development for the Go core of the SourceVCode orchestrator
  (\<open>src/go-core/internal\<close>), the service that plans coding tasks, routes them to agents, delivers
  them over a message bus and streams their progress to clients.

  \<^bold>\<open>Parts and how they interact.\<close> A client talks to the service over a WebSocket
  (\<open>transport/websocket.go\<close>) in JSON frames (\<open>transport/protocol.go\<close>), which a session
  (\<open>transport/session.go\<close>) and a dispatcher (\<open>transport/dispatcher.go\<close>) turn into requests. A task
  is completed and planned (\<open>kernel/task_policy.go\<close>, \<open>kernel/planner.go\<close>), and its plan is run as a
  graph of steps with checkpoints (\<open>kernel/advanced_planner.go\<close>), which are kept in a store
  (\<open>state/file_store.go\<close>) and in the checkpoint manager (\<open>vfs/manager.go\<close>). Steps run on agents,
  whose lanes the registry and the runtime manager watch (\<open>kernel/registry.go\<close>,
  \<open>kernel/runtime_manager.go\<close>), with a model of a provider (\<open>kernel/model_registry.go\<close>,
  \<open>kernel/model_selector.go\<close>), chosen by the router (\<open>kernel/router.go\<close>) after the adaptive runtime
  (\<open>kernel/adaptive_runtime.go\<close>) has looked at the lanes. The orchestrator (\<open>kernel/orchestrator.go\<close>) ties these together: it takes
  submissions from a fair queue, plans, routes and delivers them, tries other agents when one fails, or
  hands them to a coding runtime, and answers those who wait for the workflow. Work travels as envelopes over a bus (\<open>delivery/message_bus.go\<close>),
  tracked by a supervisor (\<open>delivery/supervisor.go\<close>) and executed by worker pools
  (\<open>delivery/worker_pool.go\<close>). Events reach subscribers through a hub (\<open>realtime/hub.go\<close>).

  \<^bold>\<open>Theories.\<close>
  \<^item> \<open>Prelude\<close>: time, strings and the functions of package \<open>strings\<close>, values of type \<open>any\<close>, maps as
    association lists, lemmas on them. \<open>Domain\<close>: the records and enumerations of package \<open>domain\<close>.
  \<^item> \<open>MessageBus\<close>, \<open>BusConcurrency\<close>: the bus as operations on its queues, histories and dead
    letters; queues implement a list queue (locale \<open>fifo\<close> and its interpretations). The
    interleaving of publishers and consumers is a step relation; no interleaving leaves a waiting
    envelope without a consumer that will take it.
  \<^item> \<open>Supervisor\<close>, \<open>WorkerPool\<close>: delivery records, handshake, timeouts and retries over any bus
    that keeps the contract \<open>delivery_bus\<close> (interpreted on the in-memory bus); the life of an
    envelope in a pool, its retries and dead-lettering, and the balance of the counters.
  \<^item> \<open>WebSocket\<close>, \<open>Protocol\<close>, \<open>Session\<close>: frames at byte level with machine words, reassembly and
    limits; the JSON frames and their taxonomy of errors; the life cycle of a session.
  \<^item> \<open>Hub\<close>: bounded histories and bounded subscriber channels.
  \<^item> \<open>Registry\<close>, \<open>RuntimeManager\<close>: agents and their lanes, weights, suppression, failures, probes.
  \<^item> \<open>ProbeManager\<close>: the cache of provider health with its queue and its workers, interleaved.
    \<open>RealtimeMetrics\<close>: the counters and histograms of live sessions.
  \<^item> \<open>ProviderConfig\<close>, \<open>ModelCatalog\<close>, \<open>ModelInventory\<close>, \<open>ModelLifecycle\<close>, \<open>ModelRegistry\<close>: the
    configuration of a provider; the file of admitted models; the inventory that a provider
    reports; the registration queue, the probes and the state of each model; the refresh of the
    snapshots the router reads. Every model offered for routing answered a probe.
  \<^item> \<open>ModelSelector\<close>: the risk and complexity of a task, the policy, the scores of the candidates
    and the choice of a model.
  \<^item> \<open>Router\<close>: preferred agents, the candidates for a task, their five scores, routing within
    providers. \<open>AdaptiveRuntime\<close>: the look at every lane before a task is routed, the mode and the
    parallelism it decides, and the profile of the machine.
  \<^item> \<open>SubmissionScheduler\<close>: the fair queue of submissions, its filler and its workers as a step
    relation over their critical sections and tokens. \<open>PeerExecution\<close>: the orchestrator's state, the
    delivery of a task to the mailbox of an agent, its run and the loop over fallback agents.
    \<open>Workflows\<close>: workflow records, the store the orchestrator relies on (locale \<open>workflow_store\<close>,
    interpreted on the file store), and those who wait for a record. \<open>CodingRuntime\<close>: the tasks handed
    to an external coding runtime (\<open>kernel/opencode_delegate.go\<close>) and its sessions.
    \<open>Submission\<close>, \<open>SubmissionOutcomes\<close>: the synchronous and the asynchronous path of a task from its
    submission to its stored record, token budgets, envelopes, results and rerouting.
  \<^item> \<open>TaskPolicy\<close>, \<open>Planner\<close>, \<open>ParallelPlan\<close>: capabilities and policies; the steps of a plan; the
    loop that runs a plan, with its schedule and its checkpoints.
  \<^item> \<open>FileStore\<close>, \<open>Vfs\<close>, \<open>PlanStore\<close>: the store with its file, faults and versions; artifacts
    moved out of checkpoints and back (locale \<open>vfs_laws\<close>, interpreted on the file store); plans on
    the file store (locale \<open>session_store\<close>, interpreted on the file store), which ties the planner,
    the loop and the store together.

  \<^bold>\<open>Conventions.\<close> A struct is a record with prefixed fields, an enumeration a datatype, an error a
  value (\<open>Inl\<close>, or \<open>Some\<close> text), a call that changes state a function that returns the new
  state. The clock is an argument and stands still during one operation. Floating-point numbers
  are rationals. Iteration over a Go map, whose order is unspecified, runs over an explicit
  enumeration or an association list, and the theorems hold for every one. Goroutines are step
  relations or lists of arrivals; mutexes make critical sections atomic. The standard library is
  modelled where the code uses it; JSON, SHA-256 and base64 are parameters with the property used
  of them as a hypothesis.

  \<^bold>\<open>Termination and fuel.\<close> Every definition is total: loops over lists are structural, the read loop
  of \<open>WebSocket\<close> and the cluster loop of \<open>Planner\<close> have measures, and the loop that runs a plan
  consumes one arrival per turn, with a theorem that as many arrivals as pending tasks suffice. The loop
  over fallback agents (\<open>p2pLoop\<close>) has the number of attempts left as its measure. The search for an
  agent with token budget (\<open>budgetSearch\<close>) is bounded by the number of agents plus one; theorem
  \<open>budget_search_ends\<close> shows that it never meets the bound and that no larger bound changes its answer.

  \<^bold>\<open>Not modelled.\<close> Of \<open>kernel/orchestrator.go\<close> the reasoning rounds, the self-learning
  feedback and the read-only queries are left out; the run of an agent and the memory are parameters.
  The PostgreSQL store, the RabbitMQ bus, the HTTP API, the provider clients, the memory manager's embeddings, the local
  models and the operations commands are input and output over external systems.
\<close>

end
